(* ===== verification/Prelude.thy ===== *)
theory Prelude
  imports Main "HOL-Library.Word" "HOL-Library.Multiset"
begin

text \<open>
  Shared vocabulary of the development: the Go machine integers, instants and durations, the
  byte strings with the whitespace rules of package \<open>strings\<close>, and the interface of a component
  whose operations keep an invariant.
\<close>

section \<open>Collections of facts\<close>

named_theorems frame_simps \<open>fields and keys an operation leaves alone\<close>
named_theorems inv_intros \<open>an operation keeps a component invariant\<close>

section \<open>Machine integers\<close>

text \<open>
  Go's \<open>int64\<close> arithmetic wraps around. Where a value can leave the range the model keeps an
  \<open>int\<close> and writes the wrap-around out with \<open>i64\<close>.
\<close>

definition i64 :: "int \<Rightarrow> int" where
  "i64 x = (x + 2 ^ 63) mod 2 ^ 64 - 2 ^ 63"

definition in_i64 :: "int \<Rightarrow> bool" where
  "in_i64 x \<longleftrightarrow> - (2 ^ 63) \<le> x \<and> x < 2 ^ 63"

lemma i64_id [simp]: "in_i64 x \<Longrightarrow> i64 x = x"
  by (simp add: i64_def in_i64_def)

lemma in_i64_i64 [simp]: "in_i64 (i64 x)"
  by (simp add: i64_def in_i64_def)

lemma i64_small: "0 \<le> x \<Longrightarrow> x \<le> 2 ^ 62 \<Longrightarrow> i64 x = x"
  by (simp add: in_i64_def)

text \<open>Division and remainder truncate towards zero.\<close>

definition go_quot :: "int \<Rightarrow> int \<Rightarrow> int" where
  "go_quot a b = sgn a * sgn b * (\<bar>a\<bar> div \<bar>b\<bar>)"

definition go_rem :: "int \<Rightarrow> int \<Rightarrow> int" where
  "go_rem a b = a - b * go_quot a b"

lemma go_rem_pos:
  assumes "0 < b"
  shows "go_rem a b = (if 0 \<le> a then a mod b else - ((- a) mod b))"
proof (cases "0 \<le> a")
  case True
  with assms show ?thesis by (auto simp: go_rem_def go_quot_def sgn_if minus_mult_div_eq_mod)
next
  case False
  with assms have "go_rem a b = a + b * (- a div b)" by (simp add: go_rem_def go_quot_def)
  moreover have "b * (- a div b) + - a mod b = - a" by (rule mult_div_mod_eq)
  ultimately have "go_rem a b = - (- a mod b)" by linarith
  with False show ?thesis by simp
qed

lemma go_rem_nonneg: "0 < b \<Longrightarrow> 0 \<le> a \<Longrightarrow> go_rem a b = a mod b"
  by (simp add: go_rem_pos)

section \<open>Instants and durations\<close>

text \<open>
  A \<open>time.Time\<close> is the number of nanoseconds since the Unix epoch and a \<open>time.Duration\<close> a number
  of nanoseconds. The zero \<open>time.Time\<close> is 1 January of the year 1. Locations only matter for
  printing, so \<open>UTC()\<close> is the identity.
\<close>

type_synonym instant = int
type_synonym duration = int

definition zero_time :: instant where
  "zero_time = - 62135596800000000000"

definition second :: duration where "second = 1000000000"
definition minute :: duration where "minute = 60 * second"
definition hour :: duration where "hour = 60 * minute"

lemmas duration_defs = second_def minute_def hour_def

section \<open>Strings\<close>

text \<open>
  A Go string is a sequence of bytes, so \<open>string\<close> with one \<open>char\<close> per byte. \<open>strings.TrimSpace\<close>
  removes the Unicode white space at both ends; \<open>go_space\<close> lists the UTF-8 encodings of the
  code points \<open>unicode.IsSpace\<close> accepts.
\<close>

definition bytes :: "nat list \<Rightarrow> string" where
  "bytes ns = map char_of ns"

definition go_space :: "string list" where
  "go_space =
     map bytes
      ([[9], [10], [11], [12], [13], [32], [194, 133], [194, 160], [225, 154, 128]]
       @ map (\<lambda>n. [226, 128, n]) [128, 129, 130, 131, 132, 133, 134, 135, 136, 137, 138, 168, 169, 175]
       @ [[226, 129, 159], [227, 128, 128]])"

fun strip_prefix :: "string \<Rightarrow> string \<Rightarrow> string option" where
  "strip_prefix [] s = Some s"
| "strip_prefix (p # ps) [] = None"
| "strip_prefix (p # ps) (c # cs) = (if p = c then strip_prefix ps cs else None)"

fun strip_any :: "string list \<Rightarrow> string \<Rightarrow> string option" where
  "strip_any [] s = None"
| "strip_any (p # ps) s =
     (case strip_prefix p s of Some t \<Rightarrow> Some t | None \<Rightarrow> strip_any ps s)"

lemma strip_prefix_Some: "strip_prefix p s = Some t \<Longrightarrow> s = p @ t"
  by (induction p s rule: strip_prefix.induct) (auto split: if_splits)

lemma strip_any_Some: "strip_any ps s = Some t \<Longrightarrow> \<exists>p. s = p @ t"
  by (induction ps) (auto split: option.splits dest!: strip_prefix_Some)

lemma strip_prefix_append: "strip_prefix p s = Some t \<Longrightarrow> strip_prefix p (s @ r) = Some (t @ r)"
  by (induction p s rule: strip_prefix.induct) (auto split: if_splits)

lemma strip_any_append: "strip_any ps (s @ r) = None \<Longrightarrow> strip_any ps s = None"
proof (induction ps)
  case Nil
  then show ?case by simp
next
  case (Cons p ps)
  then show ?case
    by (cases "strip_prefix p s") (auto simp: strip_prefix_append split: option.splits)
qed

lemma strip_prefix_hd: "p \<noteq> [] \<Longrightarrow> hd p \<noteq> c \<Longrightarrow> strip_prefix p (c # cs) = None"
  by (cases p) auto

lemma strip_any_hd: "list_all (\<lambda>p. p \<noteq> [] \<and> hd p \<noteq> c) ps \<Longrightarrow> strip_any ps (c # cs) = None"
  by (induction ps) (auto simp: strip_prefix_hd)

lemma strip_any_shorter:
  "strip_any ps s = Some t \<Longrightarrow> [] \<notin> set ps \<Longrightarrow> length t < length s"
  by (induction ps) (auto split: option.splits dest!: strip_prefix_Some simp: neq_Nil_conv)

function trim_left :: "string list \<Rightarrow> string \<Rightarrow> string" where
  "trim_left ps s =
     (if [] \<in> set ps then s
      else case strip_any ps s of None \<Rightarrow> s | Some t \<Rightarrow> trim_left ps t)"
  by pat_completeness auto
termination
  by (relation "measure (\<lambda>(ps, s). length s)") (auto dest: strip_any_shorter)

declare trim_left.simps [simp del]

definition trim_space :: "string \<Rightarrow> string" where
  "trim_space s = rev (trim_left (map rev go_space) (rev (trim_left go_space s)))"

lemma strip_prefix_Nil: "strip_prefix p [] = (if p = [] then Some [] else None)"
  by (cases p) auto

lemma trim_left_Nil [simp]: "trim_left ps [] = []"
proof -
  have "strip_any ps [] = None" if "[] \<notin> set ps"
    using that by (induction ps) (auto simp: strip_prefix_Nil)
  then show ?thesis by (subst trim_left.simps) simp
qed

lemma trim_space_Nil [simp]: "trim_space [] = []"
  by (simp add: trim_space_def)

lemma trim_left_not_prefix:
  "[] \<notin> set ps \<Longrightarrow> strip_any ps (trim_left ps s) = None"
proof (induction ps s rule: trim_left.induct)
  case (1 ps s)
  then show ?case
    by (cases "strip_any ps s") (simp_all add: trim_left.simps [of ps s])
qed

lemma trim_left_fixed: "strip_any ps s = None \<Longrightarrow> trim_left ps s = s"
  by (subst trim_left.simps) simp

lemma trim_left_suffix: "\<exists>pre. s = pre @ trim_left ps s"
proof (induction ps s rule: trim_left.induct)
  case (1 ps s)
  show ?case
  proof (cases "[] \<in> set ps \<or> strip_any ps s = None")
    case True
    then have "trim_left ps s = s" by (subst trim_left.simps) auto
    then show ?thesis by simp
  next
    case False
    then obtain t where t: "[] \<notin> set ps" "strip_any ps s = Some t" by auto
    obtain p where p: "s = p @ t" using strip_any_Some [OF t(2)] by blast
    obtain q where q: "t = q @ trim_left ps t" using "1.IH" [OF t] by blast
    from t have "trim_left ps s = trim_left ps t" by (subst trim_left.simps) simp
    with p q have "s = (p @ q) @ trim_left ps s" by simp
    then show ?thesis ..
  qed
qed

lemma go_space_nonempty [simp]: "[] \<notin> set go_space" "[] \<notin> set (map rev go_space)"
  by (simp_all add: go_space_def bytes_def)

lemma trim_space_idem [simp]: "trim_space (trim_space s) = trim_space s"
proof -
  let ?l = "trim_left go_space s"
  let ?r = "trim_left (map rev go_space) (rev ?l)"
  obtain pre where "rev ?l = pre @ ?r" using trim_left_suffix by blast
  then have "?l = rev ?r @ rev pre" by (metis rev_append rev_rev_ident)
  then have "strip_any go_space (rev ?r @ rev pre) = None"
    using trim_left_not_prefix [of go_space s] by simp
  then have "trim_left go_space (rev ?r) = rev ?r"
    by (intro trim_left_fixed) (rule strip_any_append)
  moreover have "trim_left (map rev go_space) ?r = ?r"
    by (rule trim_left_fixed [OF trim_left_not_prefix [OF go_space_nonempty(2)]])
  ultimately show ?thesis by (simp add: trim_space_def)
qed

section \<open>Decimal and base64 text\<close>

text \<open>\<open>strconv.FormatInt(n, 10)\<close> and \<open>strconv.ParseInt(s, 10, 64)\<close>.\<close>

definition digit_char :: "nat \<Rightarrow> char" where
  "digit_char d = char_of (48 + d)"

lemma digit_char_simps [simp]:
  "digit_char 0 = CHR ''0''" "digit_char 1 = CHR ''1''" "digit_char (Suc 0) = CHR ''1''"
  "digit_char 2 = CHR ''2''" "digit_char 3 = CHR ''3''" "digit_char 4 = CHR ''4''"
  "digit_char 5 = CHR ''5''" "digit_char 6 = CHR ''6''" "digit_char 7 = CHR ''7''"
  "digit_char 8 = CHR ''8''" "digit_char 9 = CHR ''9''"
  by code_simp+

definition is_digit :: "char \<Rightarrow> bool" where
  "is_digit c \<longleftrightarrow> 48 \<le> (of_char c :: nat) \<and> (of_char c :: nat) \<le> 57"

text \<open>White space starts and ends with a byte that is not a printable ASCII character.\<close>

definition is_plain :: "char \<Rightarrow> bool" where
  "is_plain c \<longleftrightarrow> 33 \<le> (of_char c :: nat) \<and> (of_char c :: nat) \<le> 126"

lemma go_space_no_plain:
  assumes "is_plain c"
  shows "strip_any go_space (c # cs) = None" "strip_any (map rev go_space) (c # cs) = None"
proof -
  have a: "list_all (\<lambda>p. p \<noteq> [] \<and> \<not> is_plain (hd p)) go_space"
    and b: "list_all (\<lambda>p. p \<noteq> [] \<and> \<not> is_plain (hd p)) (map rev go_space)" by code_simp+
  show "strip_any go_space (c # cs) = None"
    by (rule strip_any_hd, rule list.pred_mono_strong [OF a]) (use assms in auto)
  show "strip_any (map rev go_space) (c # cs) = None"
    by (rule strip_any_hd, rule list.pred_mono_strong [OF b]) (use assms in auto)
qed

lemma trim_space_plain:
  assumes "s \<noteq> []" "is_plain (hd s)" "is_plain (last s)"
  shows "trim_space s = s"
proof -
  have "trim_left go_space s = s"
    using assms by (intro trim_left_fixed) (cases s, auto simp: go_space_no_plain)
  moreover have "trim_left (map rev go_space) (rev s) = rev s"
    using assms by (intro trim_left_fixed) (cases s rule: rev_cases, auto simp: go_space_no_plain)
  ultimately show ?thesis by (simp add: trim_space_def)
qed

lemma is_digit_plain: "is_digit c \<Longrightarrow> is_plain c"
  by (simp add: is_digit_def is_plain_def)

definition digit_val :: "char \<Rightarrow> int" where
  "digit_val c = int (of_char c) - 48"

fun dec_nat :: "nat \<Rightarrow> string" where
  "dec_nat n = (if n < 10 then [digit_char n] else dec_nat (n div 10) @ [digit_char (n mod 10)])"

declare dec_nat.simps [simp del]

definition int_string :: "int \<Rightarrow> string" where
  "int_string n = (if n < 0 then CHR ''-'' # dec_nat (nat (- n)) else dec_nat (nat n))"

definition num_of :: "string \<Rightarrow> int" where
  "num_of s = foldl (\<lambda>a c. 10 * a + digit_val c) 0 s"

definition parse_int64 :: "string \<Rightarrow> int option" where
  "parse_int64 s =
     (let (neg, ds) =
        (case s of [] \<Rightarrow> (False, [])
         | c # cs \<Rightarrow> if c = CHR ''-'' then (True, cs) else if c = CHR ''+'' then (False, cs) else (False, s))
      in if ds = [] \<or> \<not> list_all is_digit ds then None
         else (let n = (if neg then - num_of ds else num_of ds) in if in_i64 n then Some n else None))"

lemma of_char_digit_char: "d < 10 \<Longrightarrow> of_char (digit_char d) = (48 + d :: nat)"
  by (simp add: digit_char_def)

lemma is_digit_digit_char [simp]: "d < 10 \<Longrightarrow> is_digit (digit_char d)"
  by (simp add: is_digit_def of_char_digit_char)

lemma digit_val_digit_char [simp]: "d < 10 \<Longrightarrow> digit_val (digit_char d) = int d"
  by (simp add: digit_val_def of_char_digit_char)

lemma dec_nat_digits: "list_all is_digit (dec_nat n)"
proof (induction n rule: dec_nat.induct)
  case (1 n)
  then show ?case by (subst dec_nat.simps) auto
qed

lemma dec_nat_not_Nil [simp]: "dec_nat n \<noteq> []"
  by (subst dec_nat.simps) simp

lemma num_of_dec_nat: "num_of (dec_nat n) = int n"
proof (induction n rule: dec_nat.induct)
  case (1 n)
  then show ?case
    by (subst dec_nat.simps) (auto simp: num_of_def zdiv_int zmod_int)
qed

lemma dec_nat_inj [simp]: "dec_nat m = dec_nat n \<longleftrightarrow> m = n"
  by (metis num_of_dec_nat of_nat_eq_iff)

lemma dec_nat_set: "c \<in> set (dec_nat n) \<Longrightarrow> is_digit c"
  using dec_nat_digits [of n] by (simp add: list_all_iff)

lemma int_string_inj: "int_string m = int_string n \<longleftrightarrow> m = n"
proof -
  have dash: "dec_nat k \<noteq> CHR ''-'' # xs" for k xs
    using dec_nat_set [of "CHR ''-''" k] by (auto simp: is_digit_def)
  show ?thesis
    using dash [of "nat n" "dec_nat (nat (- m))"] dash [of "nat m" "dec_nat (nat (- n))"]
    by (auto simp: int_string_def)
qed

lemma trim_space_digits:
  assumes "list_all is_digit s" "s \<noteq> []"
  shows "trim_space s = s"
  using assms by (intro trim_space_plain is_digit_plain) (auto simp: list_all_iff)

text \<open>\<open>base64.RawURLEncoding\<close>: the URL alphabet, without padding.\<close>

definition b64_alphabet :: string where
  "b64_alphabet = ''ABCDEFGHIJKLMNOPQRSTUVWXYZabcdefghijklmnopqrstuvwxyz0123456789-_''"

definition b64_char :: "nat \<Rightarrow> char" where
  "b64_char n = b64_alphabet ! n"

fun b64_raw :: "nat list \<Rightarrow> string" where
  "b64_raw [] = []"
| "b64_raw [a] = [b64_char (a div 4), b64_char (a mod 4 * 16)]"
| "b64_raw [a, b] = [b64_char (a div 4), b64_char (a mod 4 * 16 + b div 16), b64_char (b mod 16 * 4)]"
| "b64_raw (a # b # c # r) =
     b64_char (a div 4) # b64_char (a mod 4 * 16 + b div 16)
       # b64_char (b mod 16 * 4 + c div 64) # b64_char (c mod 64) # b64_raw r"

definition b64_url :: "string \<Rightarrow> string" where
  "b64_url s = b64_raw (map of_char s)"

lemma b64_alphabet_facts: "length b64_alphabet = 64" "distinct b64_alphabet" "CHR '':'' \<notin> set b64_alphabet"
  by (simp_all add: b64_alphabet_def)

lemma b64_char_inj: "i < 64 \<Longrightarrow> j < 64 \<Longrightarrow> b64_char i = b64_char j \<longleftrightarrow> i = j"
  by (simp add: b64_char_def nth_eq_iff_index_eq b64_alphabet_facts)

lemma b64_char_in: "i < 64 \<Longrightarrow> b64_char i \<in> set b64_alphabet"
  by (simp add: b64_char_def b64_alphabet_facts)

lemma b64_bounds:
  fixes a b c :: nat
  assumes "a < 256" "b < 256" "c < 256"
  shows "a div 4 < 64" "a mod 4 * 16 < 64" "a mod 4 * 16 + b div 16 < 64" "b mod 16 * 4 < 64"
    "b mod 16 * 4 + c div 64 < 64" "c mod 64 < 64"
proof -
  have "a mod 4 < 4" "b mod 16 < 16" by simp_all
  moreover have "b div 16 < 16" "c div 64 < 4"
    using assms by (simp_all add: less_mult_imp_div_less)
  ultimately show "a mod 4 * 16 < 64" "a mod 4 * 16 + b div 16 < 64" "b mod 16 * 4 < 64"
    "b mod 16 * 4 + c div 64 < 64" by linarith+
qed (use assms in \<open>simp_all add: less_mult_imp_div_less\<close>)

lemma mixed_radix:
  fixes x y p q k :: nat
  assumes "p < k" "q < k" "x * k + p = y * k + q"
  shows "x = y \<and> p = q"
proof -
  have "x = (x * k + p) div k" "y = (y * k + q) div k" using assms(1,2) by simp_all
  with assms(3) have "x = y" by simp
  with assms(3) show ?thesis by simp
qed

lemma div_mod_unique: "(a :: nat) div k = b div k \<Longrightarrow> a mod k = b mod k \<Longrightarrow> a = b"
  by (metis div_mult_mod_eq)

lemma b64_group2:
  fixes a b a' b' :: nat
  assumes "b < 256" "b' < 256" "a div 4 = a' div 4"
    and "a mod 4 * 16 + b div 16 = a' mod 4 * 16 + b' div 16"
  shows "a = a' \<and> b div 16 = b' div 16"
proof -
  have "b div 16 < 16" "b' div 16 < 16" using assms(1,2) by (simp_all add: less_mult_imp_div_less)
  from mixed_radix [OF this assms(4)] show ?thesis using div_mod_unique [OF assms(3)] by simp
qed

lemma b64_group3:
  fixes b c b' c' :: nat
  assumes "c < 256" "c' < 256" "b div 16 = b' div 16"
    and "b mod 16 * 4 + c div 64 = b' mod 16 * 4 + c' div 64" "c mod 64 = c' mod 64"
  shows "b = b' \<and> c = c'"
proof -
  have "c div 64 < 4" "c' div 64 < 4" using assms(1,2) by (simp_all add: less_mult_imp_div_less)
  from mixed_radix [OF this assms(4)] show ?thesis
    using div_mod_unique [OF assms(3)] div_mod_unique [OF _ assms(5)] by simp
qed

lemma b64_raw_inj:
  "list_all (\<lambda>n. n < 256) s \<Longrightarrow> list_all (\<lambda>n. n < 256) t \<Longrightarrow> b64_raw s = b64_raw t \<Longrightarrow> s = t"
proof (induction s arbitrary: t rule: b64_raw.induct)
  case 1
  then show ?case by (cases t rule: b64_raw.cases) auto
next
  case (2 a)
  show ?case
  proof (cases t rule: b64_raw.cases)
    case (2 a')
    with "2.prems" have "a div 4 = a' div 4" "a mod 4 * 16 = a' mod 4 * 16"
      by (auto simp: b64_char_inj b64_bounds)
    with b64_group2 [of 0 0 a a'] 2 show ?thesis by simp
  qed (use "2.prems" in auto)
next
  case (3 a b)
  show ?case
  proof (cases t rule: b64_raw.cases)
    case (3 a' b')
    with "3.prems" have "a div 4 = a' div 4" "a mod 4 * 16 + b div 16 = a' mod 4 * 16 + b' div 16"
      "b mod 16 * 4 = b' mod 16 * 4" "b < 256" "b' < 256"
      by (auto simp: b64_char_inj b64_bounds)
    with b64_group2 [of b b' a a'] b64_group3 [of 0 0 b b'] 3 show ?thesis by simp
  qed (use "3.prems" in auto)
next
  case (4 a b c r)
  show ?case
  proof (cases t rule: b64_raw.cases)
    case (4 a' b' c' r')
    with "4.prems" have eqs: "a div 4 = a' div 4" "a mod 4 * 16 + b div 16 = a' mod 4 * 16 + b' div 16"
      "b mod 16 * 4 + c div 64 = b' mod 16 * 4 + c' div 64" "c mod 64 = c' mod 64"
      "b < 256" "b' < 256" "c < 256" "c' < 256" and r: "b64_raw r = b64_raw r'"
      by (auto simp: b64_char_inj b64_bounds)
    from "4.IH" [OF _ _ r] "4.prems" 4 have "r = r'" by simp
    with b64_group2 [of b b' a a'] b64_group3 [of c c' b b'] eqs 4 show ?thesis by simp
  qed (use "4.prems" in auto)
qed

lemma b64_raw_set: "list_all (\<lambda>n. n < 256) s \<Longrightarrow> set (b64_raw s) \<subseteq> set b64_alphabet"
  by (induction s rule: b64_raw.induct) (auto intro!: b64_char_in simp: b64_bounds)

lemma of_char_list [simp]: "list_all (\<lambda>n. n < 256) (map of_char s :: nat list)"
  by (simp add: list_all_iff)

lemma b64_url_inj [simp]: "b64_url s = b64_url t \<longleftrightarrow> s = t"
proof
  assume "b64_url s = b64_url t"
  then have "map of_char s = (map of_char t :: nat list)"
    unfolding b64_url_def by (intro b64_raw_inj) simp_all
  then have "map (char_of \<circ> (of_char :: char \<Rightarrow> nat)) s = map (char_of \<circ> (of_char :: char \<Rightarrow> nat)) t"
    by (metis map_map)
  then show "s = t" by (simp add: comp_def)
qed simp

lemma b64_url_no_colon: "CHR '':'' \<notin> set (b64_url s)"
  using b64_raw_set [OF of_char_list, of s] b64_alphabet_facts(3) by (auto simp: b64_url_def)

text \<open>Fields separated by a character none of them contains can be read back.\<close>

lemma sep_unique:
  "c \<notin> set xs \<Longrightarrow> c \<notin> set ys \<Longrightarrow> xs @ c # r = ys @ c # q \<longleftrightarrow> xs = ys \<and> r = q"
proof (induction xs arbitrary: ys)
  case Nil
  then show ?case by (cases ys) auto
next
  case (Cons x xs)
  then show ?case by (cases ys) auto
qed

lemma sep_unique_last: "c \<notin> set xs \<Longrightarrow> c \<notin> set ys \<Longrightarrow> xs @ c # r \<noteq> ys"
  by auto

section \<open>Stable sorting\<close>

text \<open>\<open>sort.SliceStable\<close> with a comparison; equal elements keep their order.\<close>

fun insert_by :: "('a \<Rightarrow> 'a \<Rightarrow> bool) \<Rightarrow> 'a \<Rightarrow> 'a list \<Rightarrow> 'a list" where
  "insert_by lt x [] = [x]"
| "insert_by lt x (y # ys) = (if lt y x then y # insert_by lt x ys else x # y # ys)"

definition stable_sort :: "('a \<Rightarrow> 'a \<Rightarrow> bool) \<Rightarrow> 'a list \<Rightarrow> 'a list" where
  "stable_sort lt xs = foldr (insert_by lt) xs []"

lemma insert_by_mset: "mset (insert_by lt x ys) = add_mset x (mset ys)"
  by (induction ys) auto

lemma stable_sort_mset: "mset (stable_sort lt xs) = mset xs"
  by (induction xs) (simp_all add: stable_sort_def insert_by_mset)

lemma insert_by_sorted:
  assumes "\<And>a b. lt a b \<Longrightarrow> key a \<le> key b" and "\<And>a b. \<not> lt a b \<Longrightarrow> key b \<le> key a"
  shows "sorted (map key ys) \<Longrightarrow> sorted (map key (insert_by lt x ys))"
proof (induction ys)
  case (Cons y ys)
  have "set (insert_by lt x ys) = insert x (set ys)"
    using insert_by_mset [of lt x ys] by (metis set_mset_add_mset_insert set_mset_mset)
  with Cons show ?case by (auto intro: order_trans [OF assms(2)] assms)
qed simp

lemma stable_sort_sorted:
  assumes "\<And>a b. lt a b \<Longrightarrow> key a \<le> (key b :: 'b :: linorder)" and "\<And>a b. \<not> lt a b \<Longrightarrow> key b \<le> key a"
  shows "sorted (map key (stable_sort lt xs))"
proof (induction xs)
  case (Cons x xs)
  from insert_by_sorted [of lt key, OF assms Cons.IH] show ?case by (simp add: stable_sort_def)
qed (simp add: stable_sort_def)

lemma insert_by_wrt:
  assumes "\<And>a b. lt a b \<Longrightarrow> \<not> lt b a" and "\<And>a b c. \<not> lt b a \<Longrightarrow> \<not> lt c b \<Longrightarrow> \<not> lt c a"
  shows "sorted_wrt (\<lambda>a b. \<not> lt b a) ys \<Longrightarrow> sorted_wrt (\<lambda>a b. \<not> lt b a) (insert_by lt x ys)"
proof (induction ys)
  case (Cons y ys)
  have set: "set (insert_by lt x ys) = insert x (set ys)"
    using insert_by_mset [of lt x ys] by (metis set_mset_add_mset_insert set_mset_mset)
  show ?case
  proof (cases "lt y x")
    case True
    with Cons.IH Cons.prems set assms(1) [OF True] show ?thesis by simp
  next
    case False
    have "\<not> lt z x" if "z \<in> set ys" for z
      using that Cons.prems assms(2) [OF False, of z] by simp
    with False Cons.prems show ?thesis by simp
  qed
qed simp

lemma stable_sort_wrt:
  assumes "\<And>a b. lt a b \<Longrightarrow> \<not> lt b a" and "\<And>a b c. \<not> lt b a \<Longrightarrow> \<not> lt c b \<Longrightarrow> \<not> lt c a"
  shows "sorted_wrt (\<lambda>a b. \<not> lt b a) (stable_sort lt xs)"
proof (induction xs)
  case (Cons x xs)
  from insert_by_wrt [OF assms Cons.IH] show ?case by (simp add: stable_sort_def)
qed (simp add: stable_sort_def)

lemma stable_sort_set [simp]: "set (stable_sort lt xs) = set xs"
  using stable_sort_mset [of lt xs] by (metis set_mset_mset)

section \<open>Components that keep an invariant\<close>

text \<open>
  The interface of a stateful component: a step function over its operations and an invariant
  every operation keeps. What follows for any sequence of operations is proved once here.
\<close>

locale invariant_component =
  fixes step :: "'s \<Rightarrow> 'e \<Rightarrow> 's" and inv :: "'s \<Rightarrow> bool"
  assumes step_inv: "inv s \<Longrightarrow> inv (step s e)"
begin

lemma run_inv: "inv s \<Longrightarrow> inv (foldl step s es)"
  by (induction es arbitrary: s) (auto intro: step_inv)

lemma run_prefix_inv: "inv s \<Longrightarrow> inv (foldl step s (take n es))"
  by (rule run_inv)

end

text \<open>
  A component indexed by keys whose operations name the key they act on: operations on other
  keys do not touch what is stored under a key, so a run only depends on the operations that
  name it.
\<close>

locale keyed_component =
  fixes step :: "'s \<Rightarrow> 'e \<Rightarrow> 's" and key_of :: "'e \<Rightarrow> 'k" and view :: "'s \<Rightarrow> 'k \<Rightarrow> 'v"
    and local_step :: "'v \<Rightarrow> 'e \<Rightarrow> 'v"
  assumes view_same: "view (step s e) (key_of e) = local_step (view s (key_of e)) e"
    and view_other: "k \<noteq> key_of e \<Longrightarrow> view (step s e) k = view s k"
begin

lemma run_view:
  "view (foldl step s es) k = foldl local_step (view s k) (filter (\<lambda>e. key_of e = k) es)"
proof (induction es arbitrary: s)
  case Nil
  then show ?case by simp
next
  case (Cons e es)
  then show ?case
    by (cases "key_of e = k") (auto simp: view_same view_other)
qed

lemma run_other: "\<forall>e \<in> set es. key_of e \<noteq> k \<Longrightarrow> view (foldl step s es) k = view s k"
  by (induction es arbitrary: s) (auto simp: view_other)

end

end
