(* ===== verification/Circuit_Breaker.thy ===== *)
theory Circuit_Breaker
  imports Prelude
begin

text \<open>
  The billing circuit breaker (backend/internal/circuitbreaker/breaker.go): per key, a closed,
  open or half-open state with a failure count, a cooldown deadline and a bounded number of
  half-open probes. A nil \<open>*Breaker\<close> is \<open>None\<close>; the methods take the reading of the configured
  clock as an argument. The mutex makes each method one atomic step.
\<close>

section \<open>State\<close>

datatype br_state = Closed | Open | HalfOpen
datatype fail_mode = FailClosed | FailOpen

record br_config =
  failureThreshold :: int
  openCooldown :: duration
  halfOpenMaxProbes :: int
  halfOpenSuccessesToClose :: int

record br_decision =
  allowed :: bool
  dec_state :: br_state
  dec_reason :: string
  servingUntracked :: bool

record br_entry =
  state :: br_state
  failureCount :: int
  openUntil :: instant
  failMode :: fail_mode
  halfOpenProbes :: int
  halfOpenSuccesses :: int

record br_view =
  v_state :: br_state
  v_failureCount :: int
  v_openUntil :: instant
  v_failMode :: fail_mode

record breaker =
  cfg :: br_config
  entries :: "string \<rightharpoonup> br_entry"

definition normalizeConfig :: "br_config \<Rightarrow> br_config" where
  "normalizeConfig c =
     \<lparr> failureThreshold = (if failureThreshold c \<le> 0 then 5 else failureThreshold c),
       openCooldown = (if openCooldown c \<le> 0 then minute else openCooldown c),
       halfOpenMaxProbes = (if halfOpenMaxProbes c \<le> 0 then 1 else halfOpenMaxProbes c),
       halfOpenSuccessesToClose =
         (if halfOpenSuccessesToClose c \<le> 0 then 1 else halfOpenSuccessesToClose c) \<rparr>"

definition newBreaker :: "br_config \<Rightarrow> breaker" where
  "newBreaker c = \<lparr> cfg = normalizeConfig c, entries = Map.empty \<rparr>"

text \<open>\<open>FailMode\<close> is an \<open>int\<close>; any value other than 1 is read as fail-closed.\<close>

definition normalizeFailMode :: "int \<Rightarrow> fail_mode" where
  "normalizeFailMode m = (if m = 1 then FailOpen else FailClosed)"

section \<open>Transitions on one entry\<close>

definition new_entry :: br_entry where
  "new_entry = \<lparr> state = Closed, failureCount = 0, openUntil = zero_time, failMode = FailClosed,
                 halfOpenProbes = 0, halfOpenSuccesses = 0 \<rparr>"

definition getOrCreate :: "br_entry option \<Rightarrow> br_entry" where
  "getOrCreate eo = (case eo of Some e \<Rightarrow> e | None \<Rightarrow> new_entry)"

definition enterHalfOpen :: "br_entry \<Rightarrow> br_entry" where
  "enterHalfOpen e = e\<lparr> state := HalfOpen, halfOpenProbes := 0, halfOpenSuccesses := 0 \<rparr>"

definition openLocked :: "br_config \<Rightarrow> br_entry \<Rightarrow> instant \<Rightarrow> br_entry" where
  "openLocked c e now = e\<lparr> state := Open, openUntil := now + openCooldown c,
                           halfOpenProbes := 0, halfOpenSuccesses := 0 \<rparr>"

definition closeLocked :: "br_entry \<Rightarrow> br_entry" where
  "closeLocked e = e\<lparr> state := Closed, failureCount := 0, openUntil := zero_time,
                      halfOpenProbes := 0, halfOpenSuccesses := 0 \<rparr>"

definition openDecision :: "br_entry \<Rightarrow> br_state \<Rightarrow> br_decision" where
  "openDecision e s =
     (if failMode e = FailOpen
      then \<lparr> allowed = True, dec_state = s, dec_reason = ''open_fail_open'', servingUntracked = True \<rparr>
      else \<lparr> allowed = False, dec_state = s, dec_reason = ''open_fail_closed'',
             servingUntracked = False \<rparr>)"

definition allowHalfOpenProbe :: "br_config \<Rightarrow> br_entry \<Rightarrow> br_decision \<times> br_entry" where
  "allowHalfOpenProbe c e =
     (if halfOpenMaxProbes c \<le> halfOpenProbes e
      then (let d = openDecision e HalfOpen;
                d = (if dec_reason d = ''open_fail_closed''
                     then d\<lparr> dec_reason := ''half_open_probe_limit_fail_closed'' \<rparr> else d);
                d = (if dec_reason d = ''open_fail_open''
                     then d\<lparr> dec_reason := ''half_open_probe_limit_fail_open'' \<rparr> else d)
            in (d, e))
      else (\<lparr> allowed = True, dec_state = HalfOpen, dec_reason = ''half_open_probe'',
              servingUntracked = False \<rparr>,
            e\<lparr> halfOpenProbes := halfOpenProbes e + 1 \<rparr>))"

definition closed_decision :: br_decision where
  "closed_decision = \<lparr> allowed = True, dec_state = Closed, dec_reason = ''closed'',
                       servingUntracked = False \<rparr>"

definition allow_entry :: "br_config \<Rightarrow> instant \<Rightarrow> br_entry option \<Rightarrow> br_decision \<times> br_entry option" where
  "allow_entry c now eo =
     (case eo of
        None \<Rightarrow> (closed_decision, None)
      | Some e \<Rightarrow>
          (case state e of
             Closed \<Rightarrow> (closed_decision, Some e)
           | Open \<Rightarrow>
               if openUntil e \<le> now
               then map_prod id Some (allowHalfOpenProbe c (enterHalfOpen e))
               else (openDecision e Open, Some e)
           | HalfOpen \<Rightarrow> map_prod id Some (allowHalfOpenProbe c e)))"

definition success_entry :: "br_config \<Rightarrow> br_entry option \<Rightarrow> br_entry option" where
  "success_entry c eo =
     (case eo of
        None \<Rightarrow> None
      | Some e \<Rightarrow> Some
          (case state e of
             Closed \<Rightarrow> e\<lparr> failureCount := 0 \<rparr>
           | HalfOpen \<Rightarrow>
               (let e = (if 0 < halfOpenProbes e then e\<lparr> halfOpenProbes := halfOpenProbes e - 1 \<rparr> else e);
                    e = e\<lparr> halfOpenSuccesses := halfOpenSuccesses e + 1 \<rparr>
                in if halfOpenSuccessesToClose c \<le> halfOpenSuccesses e then closeLocked e else e)
           | Open \<Rightarrow> e))"

definition failure_entry :: "br_config \<Rightarrow> instant \<Rightarrow> br_entry option \<Rightarrow> br_entry option" where
  "failure_entry c now eo = Some
     (let e = getOrCreate eo; e = e\<lparr> failureCount := failureCount e + 1 \<rparr>
      in case state e of
           Closed \<Rightarrow> if failureThreshold c \<le> failureCount e then openLocked c e now else e
         | HalfOpen \<Rightarrow> openLocked c e now
         | Open \<Rightarrow> e)"

section \<open>The methods\<close>

definition allow :: "breaker option \<Rightarrow> string \<Rightarrow> instant \<Rightarrow> br_decision \<times> breaker option" where
  "allow bo key now =
     (case bo of
        None \<Rightarrow> (\<lparr> allowed = True, dec_state = Closed, dec_reason = ''breaker_not_configured'',
                   servingUntracked = False \<rparr>, None)
      | Some b \<Rightarrow>
          (let (d, eo) = allow_entry (cfg b) now (entries b key)
           in (d, Some (b\<lparr> entries := (entries b)(key := eo) \<rparr>))))"

definition recordSuccess :: "breaker option \<Rightarrow> string \<Rightarrow> breaker option" where
  "recordSuccess bo key =
     map_option (\<lambda>b. b\<lparr> entries := (entries b)(key := success_entry (cfg b) (entries b key)) \<rparr>) bo"

definition recordFailure :: "breaker option \<Rightarrow> string \<Rightarrow> instant \<Rightarrow> breaker option" where
  "recordFailure bo key now =
     map_option (\<lambda>b. b\<lparr> entries := (entries b)(key := failure_entry (cfg b) now (entries b key)) \<rparr>) bo"

definition stateOf :: "breaker option \<Rightarrow> string \<Rightarrow> br_view" where
  "stateOf bo key =
     (case Option.bind bo (\<lambda>b. entries b key) of
        None \<Rightarrow> \<lparr> v_state = Closed, v_failureCount = 0, v_openUntil = zero_time, v_failMode = FailClosed \<rparr>
      | Some e \<Rightarrow> \<lparr> v_state = state e, v_failureCount = failureCount e, v_openUntil = openUntil e,
                    v_failMode = failMode e \<rparr>)"

definition setFailMode :: "breaker option \<Rightarrow> string \<Rightarrow> int \<Rightarrow> breaker option" where
  "setFailMode bo key mode =
     map_option (\<lambda>b. b\<lparr> entries := (entries b)(key \<mapsto>
        (getOrCreate (entries b key))\<lparr> failMode := normalizeFailMode mode \<rparr>) \<rparr>) bo"

definition forceOpen :: "breaker option \<Rightarrow> string \<Rightarrow> instant \<Rightarrow> breaker option" where
  "forceOpen bo key now =
     map_option (\<lambda>b. b\<lparr> entries := (entries b)(key \<mapsto>
        openLocked (cfg b) (getOrCreate (entries b key)) now) \<rparr>) bo"

definition forceClose :: "breaker option \<Rightarrow> string \<Rightarrow> breaker option" where
  "forceClose bo key =
     map_option (\<lambda>b. b\<lparr> entries := (entries b)(key \<mapsto> closeLocked (getOrCreate (entries b key))) \<rparr>) bo"

text \<open>The operations as events, for statements about every history of one breaker.\<close>

datatype br_op =
  AllowOp string instant
| SuccessOp string
| FailureOp string instant
| FailModeOp string int
| ForceOpenOp string instant
| ForceCloseOp string

fun br_step :: "breaker option \<Rightarrow> br_op \<Rightarrow> breaker option" where
  "br_step b (AllowOp k now) = snd (allow b k now)"
| "br_step b (SuccessOp k) = recordSuccess b k"
| "br_step b (FailureOp k now) = recordFailure b k now"
| "br_step b (FailModeOp k m) = setFailMode b k m"
| "br_step b (ForceOpenOp k now) = forceOpen b k now"
| "br_step b (ForceCloseOp k) = forceClose b k"

fun br_key :: "br_op \<Rightarrow> string" where
  "br_key (AllowOp k _) = k"
| "br_key (SuccessOp k) = k"
| "br_key (FailureOp k _) = k"
| "br_key (FailModeOp k _) = k"
| "br_key (ForceOpenOp k _) = k"
| "br_key (ForceCloseOp k) = k"

section \<open>The invariant of an entry\<close>

definition cfg_ok :: "br_config \<Rightarrow> bool" where
  "cfg_ok c \<longleftrightarrow> 0 < failureThreshold c \<and> 0 < openCooldown c \<and> 0 < halfOpenMaxProbes c
     \<and> 0 < halfOpenSuccessesToClose c"

definition entry_ok :: "br_config \<Rightarrow> br_entry \<Rightarrow> bool" where
  "entry_ok c e \<longleftrightarrow> 0 \<le> failureCount e \<and>
     (case state e of
        Closed \<Rightarrow> failureCount e < failureThreshold c \<and> openUntil e = zero_time
                  \<and> halfOpenProbes e = 0 \<and> halfOpenSuccesses e = 0
      | Open \<Rightarrow> halfOpenProbes e = 0 \<and> halfOpenSuccesses e = 0
      | HalfOpen \<Rightarrow> 0 \<le> halfOpenProbes e \<and> halfOpenProbes e \<le> halfOpenMaxProbes c
                    \<and> 0 \<le> halfOpenSuccesses e \<and> halfOpenSuccesses e < halfOpenSuccessesToClose c)"

definition breaker_ok :: "breaker option \<Rightarrow> bool" where
  "breaker_ok bo \<longleftrightarrow> (\<forall>b. bo = Some b \<longrightarrow>
     cfg_ok (cfg b) \<and> (\<forall>k e. entries b k = Some e \<longrightarrow> entry_ok (cfg b) e))"

lemmas entry_step_defs =
  allow_entry_def allowHalfOpenProbe_def enterHalfOpen_def openDecision_def success_entry_def
  failure_entry_def openLocked_def closeLocked_def getOrCreate_def new_entry_def Let_def

lemma normalizeConfig_ok [simp]: "cfg_ok (normalizeConfig c)"
  by (auto simp: cfg_ok_def normalizeConfig_def duration_defs)

lemma new_entry_ok [inv_intros]: "cfg_ok c \<Longrightarrow> entry_ok c new_entry"
  by (simp add: entry_ok_def new_entry_def cfg_ok_def)

lemma getOrCreate_ok [inv_intros]:
  "cfg_ok c \<Longrightarrow> (\<And>e. eo = Some e \<Longrightarrow> entry_ok c e) \<Longrightarrow> entry_ok c (getOrCreate eo)"
  by (auto simp: getOrCreate_def new_entry_ok split: option.splits)

lemma openLocked_ok [inv_intros]: "entry_ok c e \<Longrightarrow> entry_ok c (openLocked c e now)"
  by (simp add: entry_ok_def openLocked_def)

lemma closeLocked_ok [inv_intros]: "cfg_ok c \<Longrightarrow> entry_ok c (closeLocked e)"
  by (simp add: entry_ok_def closeLocked_def cfg_ok_def)

lemma failMode_ok [inv_intros]: "entry_ok c e \<Longrightarrow> entry_ok c (e\<lparr> failMode := m \<rparr>)"
  by (simp add: entry_ok_def split: br_state.splits)

lemma allow_entry_ok [inv_intros]:
  "cfg_ok c \<Longrightarrow> entry_ok c e \<Longrightarrow> snd (allow_entry c now (Some e)) = Some e' \<Longrightarrow> entry_ok c e'"
  by (cases "state e") (auto simp: entry_ok_def cfg_ok_def entry_step_defs split: if_splits)

lemma success_entry_ok [inv_intros]:
  "cfg_ok c \<Longrightarrow> entry_ok c e \<Longrightarrow> success_entry c (Some e) = Some e' \<Longrightarrow> entry_ok c e'"
  by (cases "state e") (auto simp: entry_ok_def cfg_ok_def entry_step_defs split: if_splits)

lemma failure_entry_ok [inv_intros]:
  assumes "cfg_ok c" and "\<And>e. eo = Some e \<Longrightarrow> entry_ok c e" and "failure_entry c now eo = Some e'"
  shows "entry_ok c e'"
proof -
  have "entry_ok c (getOrCreate eo)" using assms(1,2) by (rule getOrCreate_ok)
  with assms(1,3) show ?thesis
    by (cases "state (getOrCreate eo)")
      (auto simp: entry_ok_def cfg_ok_def failure_entry_def openLocked_def Let_def split: if_splits)
qed

lemma allow_entry_None [simp]: "allow_entry c now None = (closed_decision, None)"
  by (simp add: allow_entry_def)

lemma success_entry_None [simp]: "success_entry c None = None"
  by (simp add: success_entry_def)

section \<open>The component behind its interfaces\<close>

definition br_stored :: "breaker option \<Rightarrow> string \<Rightarrow> br_config option \<times> br_entry option" where
  "br_stored bo k = (map_option cfg bo, Option.bind bo (\<lambda>b. entries b k))"

fun br_local :: "br_config option \<times> br_entry option \<Rightarrow> br_op \<Rightarrow> br_config option \<times> br_entry option" where
  "br_local (None, eo) op = (None, eo)"
| "br_local (Some c, eo) (AllowOp _ now) = (Some c, snd (allow_entry c now eo))"
| "br_local (Some c, eo) (SuccessOp _) = (Some c, success_entry c eo)"
| "br_local (Some c, eo) (FailureOp _ now) = (Some c, failure_entry c now eo)"
| "br_local (Some c, eo) (FailModeOp _ m) =
     (Some c, Some ((getOrCreate eo)\<lparr> failMode := normalizeFailMode m \<rparr>))"
| "br_local (Some c, eo) (ForceOpenOp _ now) = (Some c, Some (openLocked c (getOrCreate eo) now))"
| "br_local (Some c, eo) (ForceCloseOp _) = (Some c, Some (closeLocked (getOrCreate eo)))"

lemmas br_method_defs = allow_def recordSuccess_def recordFailure_def setFailMode_def
  forceOpen_def forceClose_def

interpretation brk: keyed_component br_step br_key br_stored br_local
proof
  fix s :: "breaker option" and e :: br_op
  show "br_stored (br_step s e) (br_key e) = br_local (br_stored s (br_key e)) e"
    by (cases s; cases e) (auto simp: br_stored_def br_method_defs split: prod.splits)
next
  fix k :: string and s :: "breaker option" and e :: br_op
  assume "k \<noteq> br_key e"
  then show "br_stored (br_step s e) k = br_stored s k"
    by (cases s; cases e) (auto simp: br_stored_def br_method_defs split: prod.splits)
qed

lemma breaker_ok_stored:
  "breaker_ok bo \<longleftrightarrow>
     (\<forall>k c eo. br_stored bo k = (Some c, eo) \<longrightarrow> cfg_ok c \<and> (\<forall>e. eo = Some e \<longrightarrow> entry_ok c e))"
  by (cases bo) (auto simp: breaker_ok_def br_stored_def)

lemma br_local_ok:
  assumes "br_local (Some c, eo) op = (Some c', eo')" and "cfg_ok c"
    and "\<And>e. eo = Some e \<Longrightarrow> entry_ok c e"
  shows "c' = c \<and> (\<forall>e. eo' = Some e \<longrightarrow> entry_ok c e)"
  using assms by (cases op; cases eo) (auto intro: inv_intros simp: getOrCreate_def)

interpretation bri: invariant_component br_step breaker_ok
proof
  fix s :: "breaker option" and op :: br_op
  assume ok: "breaker_ok s"
  have "cfg_ok c \<and> (\<forall>e. eo = Some e \<longrightarrow> entry_ok c e)"
    if "br_stored (br_step s op) k = (Some c, eo)" for k c eo
  proof (cases "k = br_key op")
    case True
    with that obtain c0 eo0 where s: "br_stored s k = (Some c0, eo0)"
      and l: "br_local (Some c0, eo0) op = (Some c, eo)"
      by (cases "br_stored s k") (metis brk.view_same br_local.simps(1) option.exhaust prod.inject option.discI)
    with ok have "cfg_ok c0" "\<And>e. eo0 = Some e \<Longrightarrow> entry_ok c0 e"
      by (auto simp: breaker_ok_stored)
    with br_local_ok [OF l] show ?thesis by blast
  next
    case False
    with that ok show ?thesis by (auto simp: brk.view_other breaker_ok_stored)
  qed
  then show "breaker_ok (br_step s op)" by (auto simp: breaker_ok_stored)
qed

lemma newBreaker_ok: "breaker_ok (Some (newBreaker c))"
  by (simp add: breaker_ok_def newBreaker_def)

section \<open>Runs on one key\<close>

lemma stateOf_stored:
  "stateOf bo k = (case snd (br_stored bo k) of
        None \<Rightarrow> \<lparr> v_state = Closed, v_failureCount = 0, v_openUntil = zero_time, v_failMode = FailClosed \<rparr>
      | Some e \<Rightarrow> \<lparr> v_state = state e, v_failureCount = failureCount e, v_openUntil = openUntil e,
                    v_failMode = failMode e \<rparr>)"
  by (simp add: stateOf_def br_stored_def)

lemma filter_same_key: "(\<And>x. x \<in> set xs \<Longrightarrow> br_key x = k) \<Longrightarrow> filter (\<lambda>op. br_key op = k) xs = xs"
  by (induction xs) auto

text \<open>Failures alone: the count grows, and the threshold opens the entry.\<close>

lemma failures_local:
  assumes "cfg_ok c"
  shows "int (length ts) < failureThreshold c \<Longrightarrow>
    foldl br_local (Some c, None) (map (FailureOp k) ts) =
      (Some c, if ts = [] then None else Some (new_entry\<lparr> failureCount := int (length ts) \<rparr>))"
proof (induction ts rule: rev_induct)
  case Nil
  then show ?case by simp
next
  case (snoc t ts)
  then show ?case by (auto simp: entry_step_defs split: br_state.splits)
qed

lemma failures_open_local:
  "state e = Open \<Longrightarrow>
    foldl br_local (Some c, Some e) (map (FailureOp k) ts) =
      (Some c, Some (e\<lparr> failureCount := failureCount e + int (length ts) \<rparr>))"
  by (induction ts rule: rev_induct) (auto simp: entry_step_defs)

text \<open>A sequence of \<open>Allow\<close> calls on one key and the decisions it returns.\<close>

primrec allow_seq :: "breaker option \<Rightarrow> string \<Rightarrow> instant list \<Rightarrow> br_decision list \<times> breaker option" where
  "allow_seq bo k [] = ([], bo)"
| "allow_seq bo k (t # ts) =
     (let (d, bo) = allow bo k t; (ds, bo) = allow_seq bo k ts in (d # ds, bo))"

definition admitted :: "br_decision list \<Rightarrow> nat" where
  "admitted ds = length (filter allowed ds)"

lemma allow_entry_half_open:
  "state e = HalfOpen \<Longrightarrow> failMode e = FailClosed \<Longrightarrow>
    allow_entry c t (Some e) =
      (if halfOpenProbes e < halfOpenMaxProbes c
       then (\<lparr> allowed = True, dec_state = HalfOpen, dec_reason = ''half_open_probe'',
               servingUntracked = False \<rparr>, Some (e\<lparr> halfOpenProbes := halfOpenProbes e + 1 \<rparr>))
       else (\<lparr> allowed = False, dec_state = HalfOpen,
               dec_reason = ''half_open_probe_limit_fail_closed'', servingUntracked = False \<rparr>, Some e))"
  by (auto simp: entry_step_defs)

lemma half_open_admits:
  assumes "entries b k = Some e" and "state e = HalfOpen" and "failMode e = FailClosed"
    and "0 \<le> halfOpenProbes e"
  shows "admitted (fst (allow_seq (Some b) k ts))
           = min (length ts) (nat (halfOpenMaxProbes (cfg b) - halfOpenProbes e))"
  using assms
proof (induction ts arbitrary: b e)
  case Nil
  then show ?case by (simp add: admitted_def)
next
  case (Cons t ts)
  show ?case
  proof (cases "halfOpenProbes e < halfOpenMaxProbes (cfg b)")
    case True
    let ?e = "e\<lparr> halfOpenProbes := halfOpenProbes e + 1 \<rparr>"
    let ?b = "b\<lparr> entries := (entries b)(k \<mapsto> ?e) \<rparr>"
    have "admitted (fst (allow_seq (Some ?b) k ts))
        = min (length ts) (nat (halfOpenMaxProbes (cfg ?b) - halfOpenProbes ?e))"
      by (rule Cons.IH) (use Cons.prems in auto)
    with True Cons.prems show ?thesis
      by (auto simp: allow_def allow_entry_half_open admitted_def split: prod.splits)
  next
    case False
    have "admitted (fst (allow_seq (Some b) k ts))
        = min (length ts) (nat (halfOpenMaxProbes (cfg b) - halfOpenProbes e))"
      by (rule Cons.IH) (use Cons.prems in auto)
    moreover have "b\<lparr> entries := (entries b)(k \<mapsto> e) \<rparr> = b"
      using Cons.prems(1) by (simp add: fun_upd_idem)
    ultimately show ?thesis using False Cons.prems
      by (auto simp: allow_def allow_entry_half_open admitted_def split: prod.splits)
  qed
qed

lemma probe_success_local:
  assumes "cfg_ok c" and "state e = HalfOpen" and "halfOpenProbes e = 0"
  shows "foldl br_local (Some c, Some e) [AllowOp k t, SuccessOp k] =
     (Some c, Some (if halfOpenSuccesses e + 1 < halfOpenSuccessesToClose c
                    then e\<lparr> halfOpenSuccesses := halfOpenSuccesses e + 1 \<rparr> else closeLocked e))"
  using assms by (auto simp: entry_step_defs cfg_ok_def)

lemma probes_close_local:
  assumes "cfg_ok c" and "state e = HalfOpen" and "halfOpenProbes e = 0"
    and "halfOpenSuccesses e + int n = halfOpenSuccessesToClose c" and "0 < n"
  shows "foldl br_local (Some c, Some e) (concat (replicate n [AllowOp k t, SuccessOp k]))
           = (Some c, Some (closeLocked e))"
  using assms
proof (induction n arbitrary: e)
  case 0
  then show ?case by simp
next
  case (Suc n)
  let ?pair = "[AllowOp k t, SuccessOp k]"
  show ?case
  proof (cases "n = 0")
    case True
    with probe_success_local [OF Suc.prems(1-3), of k t] Suc.prems(4) show ?thesis by simp
  next
    case False
    let ?e = "e\<lparr> halfOpenSuccesses := halfOpenSuccesses e + 1 \<rparr>"
    have "foldl br_local (Some c, Some e) ?pair = (Some c, Some ?e)"
      using probe_success_local [OF Suc.prems(1-3), of k t] Suc.prems(4) False by simp
    moreover have "foldl br_local (Some c, Some ?e) (concat (replicate n ?pair)) = (Some c, Some (closeLocked ?e))"
      by (rule Suc.IH) (use Suc.prems False in auto)
    moreover have "closeLocked ?e = closeLocked e" by (simp add: closeLocked_def)
    ultimately show ?thesis by (simp only: replicate_Suc concat.simps foldl_append)
  qed
qed

lemma allow_after_cooldown:
  "state e = Open \<Longrightarrow> openUntil e \<le> t \<Longrightarrow>
    allow_entry c t (Some e) = allow_entry c t (Some (enterHalfOpen e))"
  by (simp add: allow_entry_def enterHalfOpen_def)

section \<open>Properties\<close>

text \<open>
  C24. Whatever the sequence of operations on a new breaker, every stored entry is consistent: a
  closed entry is below the failure threshold and carries no deadline and no probes, an open
  entry has no probe in flight, and a half-open entry has at most \<open>HalfOpenMaxProbes\<close> probes in
  flight and fewer successes than close it.
\<close>

theorem breaker_invariant: "breaker_ok (foldl br_step (Some (newBreaker c)) ops)"
  by (rule bri.run_inv [OF newBreaker_ok])

text \<open>
  The state of a key after any history depends only on the operations that name the key:
  the failures, successes and overrides of another key never open, close or slow it.
\<close>

theorem breaker_key_isolation:
  "stateOf (foldl br_step bo ops) k = stateOf (foldl br_step bo (filter (\<lambda>op. br_key op = k) ops)) k"
  by (simp add: stateOf_stored brk.run_view)

text \<open>
  \<open>n\<close> consecutive failures on a fresh key leave it closed with count \<open>n\<close> below the
  normalised threshold; the failure that reaches the threshold opens it until one cooldown after
  that very failure, and further failures do not extend the deadline.
\<close>

theorem breaker_opens_at_threshold:
  fixes c k ts
  defines "v \<equiv> stateOf (foldl br_step (Some (newBreaker c)) (map (FailureOp k) ts)) k"
    and "n \<equiv> nat (failureThreshold (normalizeConfig c))"
  shows "v_failureCount v = int (length ts) \<and>
    (if length ts < n then v_state v = Closed \<and> v_openUntil v = zero_time
     else v_state v = Open \<and> v_openUntil v = ts ! (n - 1) + openCooldown (normalizeConfig c))"
proof -
  let ?c = "normalizeConfig c"
  have ok: "cfg_ok ?c" by simp
  then have n: "0 < n" "int n = failureThreshold ?c" by (auto simp: cfg_ok_def n_def)
  have st: "br_stored (foldl br_step (Some (newBreaker c)) (map (FailureOp k) ts)) k
      = foldl br_local (Some ?c, None) (map (FailureOp k) ts)"
    by (simp add: brk.run_view filter_same_key) (simp add: br_stored_def newBreaker_def)
  show ?thesis
  proof (cases "length ts < n")
    case True
    with n have "int (length ts) < failureThreshold ?c" by simp
    from failures_local [OF ok this, of k] True show ?thesis
      by (simp add: v_def stateOf_stored st new_entry_def)
  next
    case False
    let ?t = "ts ! (n - 1)" and ?a = "take (n - 1) ts" and ?z = "drop n ts"
    have "n - 1 < length ts" and suc: "Suc (n - 1) = n" using False n(1) by auto
    then have split: "ts = ?a @ ?t # ?z"
      using id_take_nth_drop [of "n - 1" ts] by (simp only: suc)
    have "int (length ?a) < failureThreshold ?c" using n False by simp
    note a = failures_local [OF ok this, of k]
    let ?e = "openLocked ?c (new_entry\<lparr> failureCount := int n \<rparr>) ?t"
    have "br_local (foldl br_local (Some ?c, None) (map (FailureOp k) ?a)) (FailureOp k ?t)
        = (Some ?c, Some ?e)"
      using a n False by (auto simp: entry_step_defs of_nat_diff)
    then have "foldl br_local (Some ?c, None) (map (FailureOp k) (?a @ ?t # ?z))
        = (Some ?c, Some (?e\<lparr> failureCount := failureCount ?e + int (length ?z) \<rparr>))"
      by (simp add: failures_open_local openLocked_def)
    then have "foldl br_local (Some ?c, None) (map (FailureOp k) ts)
        = (Some ?c, Some (?e\<lparr> failureCount := failureCount ?e + int (length ?z) \<rparr>))"
      by (simp only: split [symmetric])
    with False show ?thesis
      by (simp add: v_def stateOf_stored st openLocked_def)
  qed
qed



text \<open>
  C23. Recovery: after the cooldown, \<open>HalfOpenSuccessesToClose\<close> probes that each succeed close
  the key and reset its failure count, whatever its fail mode.
\<close>

theorem breaker_recovers:
  assumes "entries b k = Some e" and "state e = Open" and "openUntil e \<le> t" and "cfg_ok (cfg b)"
  shows "stateOf (foldl br_step (Some b)
            (concat (replicate (nat (halfOpenSuccessesToClose (cfg b))) [AllowOp k t, SuccessOp k]))) k
         = \<lparr> v_state = Closed, v_failureCount = 0, v_openUntil = zero_time, v_failMode = failMode e \<rparr>"
proof -
  let ?c = "cfg b" and ?n = "nat (halfOpenSuccessesToClose (cfg b))"
  let ?ops = "concat (replicate ?n [AllowOp k t, SuccessOp k])"
  have pos: "0 < ?n" using assms(4) by (simp add: cfg_ok_def)
  have first: "foldl br_local (Some ?c, Some e) ?ops = foldl br_local (Some ?c, Some (enterHalfOpen e)) ?ops"
    using pos assms(2,3) by (cases ?n) (simp_all add: allow_after_cooldown)
  have "foldl br_local (Some ?c, Some (enterHalfOpen e)) ?ops = (Some ?c, Some (closeLocked (enterHalfOpen e)))"
    by (rule probes_close_local) (use assms(4) pos in \<open>auto simp: enterHalfOpen_def cfg_ok_def\<close>)
  with first have "foldl br_local (br_stored (Some b) k) ?ops = (Some ?c, Some (closeLocked (enterHalfOpen e)))"
    using assms(1) by (simp add: br_stored_def)
  moreover have "filter (\<lambda>op. br_key op = k) ?ops = ?ops"
    by (rule filter_same_key) (auto split: if_splits)
  ultimately have "br_stored (foldl br_step (Some b) ?ops) k = (Some ?c, Some (closeLocked (enterHalfOpen e)))"
    by (simp add: brk.run_view)
  then show ?thesis by (simp add: stateOf_stored closeLocked_def enterHalfOpen_def)
qed

theorem breaker_recovers_witness:
  "stateOf (foldl br_step
      (forceOpen (Some (newBreaker \<lparr> failureThreshold = 3, openCooldown = 10, halfOpenMaxProbes = 1,
        halfOpenSuccessesToClose = 2 \<rparr>)) ''k'' 100)
      [AllowOp ''k'' 110, SuccessOp ''k'', AllowOp ''k'' 110, SuccessOp ''k'']) ''k''
    = \<lparr> v_state = Closed, v_failureCount = 0, v_openUntil = zero_time, v_failMode = FailClosed \<rparr>"
proof -
  let ?c = "\<lparr> failureThreshold = 3, openCooldown = 10, halfOpenMaxProbes = 1, halfOpenSuccessesToClose = 2 \<rparr>"
  let ?e = "openLocked ?c new_entry 100"
  let ?b = "\<lparr> cfg = ?c, entries = [''k'' \<mapsto> ?e] \<rparr>"
  have b: "forceOpen (Some (newBreaker ?c)) ''k'' 100 = Some ?b"
    by (simp add: forceOpen_def newBreaker_def normalizeConfig_def getOrCreate_def)
  have "stateOf (foldl br_step (Some ?b)
          (concat (replicate (nat (halfOpenSuccessesToClose (cfg ?b))) [AllowOp ''k'' 110, SuccessOp ''k'']))) ''k''
        = \<lparr> v_state = Closed, v_failureCount = 0, v_openUntil = zero_time, v_failMode = failMode ?e \<rparr>"
    by (rule breaker_recovers) (auto simp: openLocked_def new_entry_def cfg_ok_def)
  then show ?thesis
    by (simp only: b) (simp add: eval_nat_numeral openLocked_def new_entry_def)
qed

end
