(* ===== verification/Budget_Scope.thy ===== *)
theory Budget_Scope
  imports Prelude
begin

text \<open>
  Rate budget scopes and limits (backend/internal/budget: types.go, scope.go, limits.go): which
  scopes a request is counted under, with which limits, and the storage key of a scope.
\<close>

section \<open>Data\<close>

datatype scope_kind = ScopeUser | ScopeAPIKey | ScopePoolGroup | ScopeKindOther string

datatype counter = CounterRPM | CounterTPM

record scope =
  sc_tenant :: int
  sc_kind :: scope_kind
  sc_id :: string
  sc_model :: string

record limit_pair =
  lim_rpm :: int
  lim_tpm :: int

record limit_spec =
  spec_pair :: limit_pair
  spec_models :: "string \<rightharpoonup> limit_pair"

record static_limits =
  lim_default :: limit_pair
  lim_users :: "int \<rightharpoonup> limit_spec"
  lim_keys :: "int \<rightharpoonup> limit_spec"
  lim_pool_groups :: "int \<rightharpoonup> limit_spec"

record scope_limit =
  sl_scope :: scope
  sl_limits :: limit_pair

record reserve_request =
  rq_tenant :: int
  rq_claim :: int
  rq_user :: int
  rq_key :: int
  rq_pool_group :: int
  rq_model :: string
  rq_tokens :: int

text \<open>
  The errors of the package. A \<open>DenyError\<close> carries its decision and cause; \<open>ScopeError\<close> stands
  for the \<open>fmt.Errorf\<close> values of \<open>EncodeScope\<close>.
\<close>

record bg_decision =
  bd_code :: string
  bd_counter :: "counter option"
  bd_scope :: "scope option"
  bd_current :: int
  bd_limit :: int
  bd_retryAfter :: duration
  bd_reason :: string

datatype bg_error =
  ErrDenied
| ErrUnavailable
| ScopeError string
| DenyError bg_decision bg_error

fun isDenied :: "bg_error option \<Rightarrow> bool" where
  "isDenied None = False"
| "isDenied (Some ErrDenied) = True"
| "isDenied (Some (DenyError _ _)) = True"
| "isDenied (Some _) = False"

section \<open>Limits\<close>

definition maxInt32 :: int where "maxInt32 = 2 ^ 31 - 1"

definition normalizeLimit :: "int \<Rightarrow> int" where
  "normalizeLimit v = (if v \<le> 0 then 0 else if maxInt32 < v then maxInt32 else v)"

definition normalized :: "limit_pair \<Rightarrow> limit_pair" where
  "normalized p = \<lparr> lim_rpm = normalizeLimit (lim_rpm p), lim_tpm = normalizeLimit (lim_tpm p) \<rparr>"

definition isUnlimited :: "limit_pair \<Rightarrow> bool" where
  "isUnlimited p \<longleftrightarrow> (let p = normalized p in lim_rpm p = 0 \<and> lim_tpm p = 0)"

text \<open>A spec that is not in the map is the zero spec, which has no models.\<close>

definition limitsForSpec :: "limit_spec option \<Rightarrow> limit_pair \<Rightarrow> limit_pair" where
  "limitsForSpec so def = (case so of None \<Rightarrow> normalized def | Some s \<Rightarrow> normalized (spec_pair s))"

definition modelLimits :: "limit_spec option \<Rightarrow> string \<Rightarrow> limit_pair option" where
  "modelLimits so model =
     (if trim_space model = [] then None
      else case Option.bind so (\<lambda>s. spec_models s model) of
             None \<Rightarrow> None
           | Some p \<Rightarrow> (let p = normalized p in if isUnlimited p then None else Some p))"

definition mk_scope_limit :: "int \<Rightarrow> scope_kind \<Rightarrow> int \<Rightarrow> string \<Rightarrow> limit_pair \<Rightarrow> scope_limit" where
  "mk_scope_limit tenant kind i m l =
     \<lparr> sl_scope = \<lparr> sc_tenant = tenant, sc_kind = kind, sc_id = int_string i, sc_model = m \<rparr>, sl_limits = l \<rparr>"

text \<open>The scopes of an API key or a user: the limit for the model first, then the overall one.\<close>

definition model_scope ::
    "int \<Rightarrow> scope_kind \<Rightarrow> int \<Rightarrow> limit_spec option \<Rightarrow> string \<Rightarrow> scope_limit list" where
  "model_scope tenant kind i spec model =
     (case modelLimits spec model of Some l \<Rightarrow> [mk_scope_limit tenant kind i model l] | None \<Rightarrow> [])"

definition overall_scope ::
    "int \<Rightarrow> scope_kind \<Rightarrow> int \<Rightarrow> limit_spec option \<Rightarrow> limit_pair \<Rightarrow> scope_limit list" where
  "overall_scope tenant kind i spec def =
     (let l = limitsForSpec spec def in if isUnlimited l then [] else [mk_scope_limit tenant kind i [] l])"

definition scopes :: "static_limits \<Rightarrow> reserve_request \<Rightarrow> scope_limit list" where
  "scopes p req =
     (let t = rq_tenant req; model = trim_space (rq_model req); d = lim_default p;
          out_key = (if 0 < rq_key req
             then (let spec = lim_keys p (rq_key req)
                   in model_scope t ScopeAPIKey (rq_key req) spec model
                      @ overall_scope t ScopeAPIKey (rq_key req) spec d)
             else []);
          out_user = (if 0 < rq_user req
             then (let spec = lim_users p (rq_user req)
                   in model_scope t ScopeUser (rq_user req) spec model
                      @ overall_scope t ScopeUser (rq_user req) spec d)
             else []);
          out_pool = (if 0 < rq_pool_group req
             then overall_scope t ScopePoolGroup (rq_pool_group req) (lim_pool_groups p (rq_pool_group req)) d
             else []);
          out = out_key @ out_user @ out_pool
      in if out = [] \<and> \<not> isUnlimited (normalized d)
            \<and> rq_user req \<le> 0 \<and> rq_key req \<le> 0 \<and> rq_pool_group req \<le> 0
         then [mk_scope_limit t ScopeUser 0 [] (normalized d)]
         else out)"

section \<open>Storage keys\<close>

definition safeSegment :: "string \<Rightarrow> string" where
  "safeSegment v =
     (if v = ''*'' then ''*''
      else case parse_int64 v of
             Some n \<Rightarrow> if 0 \<le> n then int_string n else ''b64_'' @ b64_url v
           | None \<Rightarrow> ''b64_'' @ b64_url v)"

definition encodeScope :: "scope \<Rightarrow> bg_error + string" where
  "encodeScope s =
     (if sc_tenant s \<le> 0 then Inl (ScopeError ''budget: tenant_id must be positive'')
      else (let i = trim_space (sc_id s) in
        if i = [] then Inl (ScopeError ''budget: scope id required'')
        else (let tenant = int_string (sc_tenant s); safeID = safeSegment i;
                  model = trim_space (sc_model s)
              in case sc_kind s of
                   ScopeUser \<Rightarrow>
                     if model \<noteq> [] then Inr (''um:'' @ tenant @ '':'' @ safeID @ '':'' @ safeSegment model)
                     else Inr (''u:'' @ tenant @ '':'' @ safeID)
                 | ScopeAPIKey \<Rightarrow>
                     if model \<noteq> [] then Inr (''km:'' @ tenant @ '':'' @ safeID @ '':'' @ safeSegment model)
                     else Inr (''k:'' @ tenant @ '':'' @ safeID)
                 | ScopePoolGroup \<Rightarrow> Inr (''g:'' @ tenant @ '':'' @ safeID)
                 | ScopeKindOther k \<Rightarrow> Inl (ScopeError (''budget: unsupported scope kind '' @ k)))))"

definition redisCounterKey :: "scope \<Rightarrow> counter \<Rightarrow> int \<Rightarrow> string" where
  "redisCounterKey s c mn =
     (let enc = (case encodeScope s of Inl _ \<Rightarrow> ''invalid'' | Inr k \<Rightarrow> k);
          suffix = (if c = CounterTPM then ''t'' else ''r'')
      in ''bgt:{'' @ enc @ ''}:'' @ suffix @ '':'' @ int_string mn)"

section \<open>What a storage key identifies\<close>

text \<open>
  What a segment stands for: decimal spellings of one number (\<open>7\<close>, \<open>+7\<close>, \<open>007\<close>) are one
  segment, every other text is its own.
\<close>

datatype segment = Star | Number int | Text string

definition segment_of :: "string \<Rightarrow> segment" where
  "segment_of v =
     (if v = ''*'' then Star
      else case parse_int64 v of
             Some n \<Rightarrow> if 0 \<le> n then Number n else Text v
           | None \<Rightarrow> Text v)"

lemma int_string_nonneg: "0 \<le> n \<Longrightarrow> int_string n = dec_nat (nat n)"
  by (simp add: int_string_def)

lemma int_string_no_colon [simp]: "CHR '':'' \<notin> set (int_string n)"
  by (auto simp: int_string_def is_digit_def dest: dec_nat_set)

lemma safeSegment_no_colon [simp]: "CHR '':'' \<notin> set (safeSegment v)"
  by (auto simp: safeSegment_def b64_url_no_colon split: option.splits)

lemma dec_nat_not_char: "\<not> is_digit c \<Longrightarrow> dec_nat n \<noteq> c # r"
  using dec_nat_set [of c n] by auto

lemma safeSegment_segment_of:
  "safeSegment v =
     (case segment_of v of Star \<Rightarrow> ''*'' | Number n \<Rightarrow> dec_nat (nat n) | Text s \<Rightarrow> ''b64_'' @ b64_url s)"
  by (simp add: safeSegment_def segment_of_def int_string_nonneg split: option.splits)

lemma segment_of_Number: "segment_of v = Number n \<Longrightarrow> 0 \<le> n"
  by (simp add: segment_of_def split: if_splits option.splits)

lemma safeSegment_eq: "safeSegment v = safeSegment w \<longleftrightarrow> segment_of v = segment_of w"
proof -
  have "dec_nat n \<noteq> ''*''" "''*'' \<noteq> dec_nat n" "dec_nat n \<noteq> ''b64_'' @ r" "''b64_'' @ r \<noteq> dec_nat n" for n r
    using dec_nat_not_char [of "CHR ''*''" n "[]"] dec_nat_not_char [of "CHR ''b''" n "''64_'' @ r"]
    by (auto simp: is_digit_def)
  then show ?thesis
    by (auto simp: safeSegment_segment_of split: segment.splits dest!: segment_of_Number)
qed

definition scope_identity :: "scope \<Rightarrow> int \<times> scope_kind \<times> segment \<times> segment option" where
  "scope_identity s =
     (sc_tenant s, sc_kind s, segment_of (trim_space (sc_id s)),
      if sc_kind s = ScopePoolGroup \<or> trim_space (sc_model s) = [] then None
      else Some (segment_of (trim_space (sc_model s))))"

definition kind_prefix :: "scope_kind \<Rightarrow> bool \<Rightarrow> string" where
  "kind_prefix k m = (case k of ScopeUser \<Rightarrow> if m then ''um'' else ''u''
     | ScopeAPIKey \<Rightarrow> if m then ''km'' else ''k'' | _ \<Rightarrow> ''g'')"

lemma encodeScope_Inr:
  assumes "encodeScope s = Inr key"
  obtains m where "m = (sc_kind s \<noteq> ScopePoolGroup \<and> trim_space (sc_model s) \<noteq> [])"
    and "key = kind_prefix (sc_kind s) m @ '':'' @ int_string (sc_tenant s) @ '':''
           @ safeSegment (trim_space (sc_id s)) @ (if m then '':'' @ safeSegment (trim_space (sc_model s)) else [])"
    and "sc_kind s \<in> {ScopeUser, ScopeAPIKey, ScopePoolGroup}"
  using assms that
  by (cases "sc_kind s") (auto simp: encodeScope_def kind_prefix_def Let_def split: if_splits)

lemma kind_prefix_inj:
  assumes "k \<in> {ScopeUser, ScopeAPIKey, ScopePoolGroup}" "k' \<in> {ScopeUser, ScopeAPIKey, ScopePoolGroup}"
    and "k = ScopePoolGroup \<Longrightarrow> \<not> m" "k' = ScopePoolGroup \<Longrightarrow> \<not> m'"
  shows "kind_prefix k m = kind_prefix k' m' \<longleftrightarrow> k = k' \<and> m = m'"
  using assms by (auto simp: kind_prefix_def)

lemma kind_prefix_no_colon [simp]: "CHR '':'' \<notin> set (kind_prefix k m)"
  by (auto simp: kind_prefix_def split: scope_kind.splits)

lemma encodeScope_identity:
  assumes "encodeScope s = Inr key" and "encodeScope s' = Inr key"
  shows "scope_identity s = scope_identity s'"
proof -
  from encodeScope_Inr [OF assms(1)] obtain m where
    m: "m = (sc_kind s \<noteq> ScopePoolGroup \<and> trim_space (sc_model s) \<noteq> [])"
    and k: "key = kind_prefix (sc_kind s) m @ '':'' @ int_string (sc_tenant s) @ '':''
       @ safeSegment (trim_space (sc_id s)) @ (if m then '':'' @ safeSegment (trim_space (sc_model s)) else [])"
    and K: "sc_kind s \<in> {ScopeUser, ScopeAPIKey, ScopePoolGroup}" by blast
  from encodeScope_Inr [OF assms(2)] obtain m' where
    m': "m' = (sc_kind s' \<noteq> ScopePoolGroup \<and> trim_space (sc_model s') \<noteq> [])"
    and k': "key = kind_prefix (sc_kind s') m' @ '':'' @ int_string (sc_tenant s') @ '':''
       @ safeSegment (trim_space (sc_id s')) @ (if m' then '':'' @ safeSegment (trim_space (sc_model s')) else [])"
    and K': "sc_kind s' \<in> {ScopeUser, ScopeAPIKey, ScopePoolGroup}" by blast
  from k k' have eq: "kind_prefix (sc_kind s) m = kind_prefix (sc_kind s') m'"
    "int_string (sc_tenant s) = int_string (sc_tenant s')"
    and rest: "safeSegment (trim_space (sc_id s)) @ (if m then '':'' @ safeSegment (trim_space (sc_model s)) else [])
        = safeSegment (trim_space (sc_id s')) @ (if m' then '':'' @ safeSegment (trim_space (sc_model s')) else [])"
    by (auto simp: sep_unique)
  from eq(1) m m' K K' have kinds: "sc_kind s = sc_kind s'" "m = m'"
    by (auto simp: kind_prefix_inj)
  have "safeSegment (trim_space (sc_id s)) = safeSegment (trim_space (sc_id s'))
      \<and> (m \<longrightarrow> safeSegment (trim_space (sc_model s)) = safeSegment (trim_space (sc_model s')))"
    using rest kinds(2) by (auto simp: sep_unique split: if_splits)
  with kinds m m' eq(2) show ?thesis
    by (auto simp: scope_identity_def safeSegment_eq int_string_inj)
qed

lemma encodeScope_determined:
  assumes "scope_identity s = scope_identity s'" and "encodeScope s = Inr key" and "trim_space (sc_id s') \<noteq> []"
  shows "encodeScope s' = Inr key"
proof -
  from assms(1) have "safeSegment (trim_space (sc_id s')) = safeSegment (trim_space (sc_id s))"
    and "sc_kind s = ScopePoolGroup \<or> trim_space (sc_model s') = [] \<and> trim_space (sc_model s) = []
      \<or> trim_space (sc_model s') \<noteq> [] \<and> trim_space (sc_model s) \<noteq> []
        \<and> safeSegment (trim_space (sc_model s')) = safeSegment (trim_space (sc_model s))"
    and "sc_kind s' = sc_kind s" "sc_tenant s' = sc_tenant s"
    by (auto simp: scope_identity_def safeSegment_eq split: if_splits)
  with assms(2,3) show ?thesis
    by (cases "sc_kind s") (auto simp: encodeScope_def Let_def split: if_splits)
qed

lemma encodeScope_id: "encodeScope s = Inr key \<Longrightarrow> trim_space (sc_id s) \<noteq> []"
  by (auto simp: encodeScope_def Let_def split: if_splits)

text \<open>
  Two scopes share a storage key exactly when they name the same tenant, the same kind of
  subject, the same subject and the same model (for pool groups the model is not part of the
  key): no tenant, user, API key or model is ever counted against another's budget.
\<close>

theorem storage_key_identifies_scope:
  assumes "encodeScope s = Inr key" and "encodeScope s' = Inr key'"
  shows "key = key' \<longleftrightarrow> scope_identity s = scope_identity s'"
proof
  assume "key = key'"
  with assms show "scope_identity s = scope_identity s'" by (auto intro: encodeScope_identity)
next
  assume eq: "scope_identity s = scope_identity s'"
  have "trim_space (sc_id s') \<noteq> []" using assms(2) by (rule encodeScope_id)
  with encodeScope_determined [OF eq assms(1)] assms(2) show "key = key'" by simp
qed

definition user_12 :: scope where
  "user_12 = \<lparr> sc_tenant = 7, sc_kind = ScopeUser, sc_id = ''12'', sc_model = [] \<rparr>"

lemma example_encode:
  "encodeScope user_12 = Inr ''u:7:12''"
  "encodeScope (user_12\<lparr> sc_kind := ScopeAPIKey \<rparr>) = Inr ''k:7:12''"
proof -
  have "trim_space ''12'' = ''12''" by (rule trim_space_digits) (simp_all add: is_digit_def)
  moreover have "safeSegment ''12'' = ''12''"
    by (simp add: safeSegment_def parse_int64_def num_of_def digit_val_def is_digit_def in_i64_def
        int_string_def dec_nat.simps)
  moreover have "int_string 7 = ''7''" by (simp add: int_string_def dec_nat.simps)
  ultimately show "encodeScope user_12 = Inr ''u:7:12''"
    "encodeScope (user_12\<lparr> sc_kind := ScopeAPIKey \<rparr>) = Inr ''k:7:12''"
    by (simp_all add: encodeScope_def user_12_def)
qed

theorem storage_key_identifies_scope_witness:
  "encodeScope user_12 = Inr ''u:7:12''
   \<and> scope_identity user_12 \<noteq> scope_identity (user_12\<lparr> sc_kind := ScopeAPIKey \<rparr>)"
  using storage_key_identifies_scope [OF example_encode] example_encode(1) by simp

section \<open>The scopes of a request\<close>

lemma normalizeLimit_range: "0 \<le> normalizeLimit v \<and> normalizeLimit v \<le> maxInt32"
  by (simp add: normalizeLimit_def maxInt32_def)

lemma normalizeLimit_idem [simp]: "normalizeLimit (normalizeLimit v) = normalizeLimit v"
  by (simp add: normalizeLimit_def maxInt32_def)

lemma normalized_idem [simp]: "normalized (normalized p) = normalized p"
  by (simp add: normalized_def)

definition limits_ok :: "limit_pair \<Rightarrow> bool" where
  "limits_ok p \<longleftrightarrow> 0 \<le> lim_rpm p \<and> lim_rpm p \<le> maxInt32 \<and> 0 \<le> lim_tpm p \<and> lim_tpm p \<le> maxInt32
     \<and> (0 < lim_rpm p \<or> 0 < lim_tpm p)"

lemma limits_ok_normalized: "\<not> isUnlimited (normalized p) \<Longrightarrow> limits_ok (normalized p)"
  using normalizeLimit_range [of "lim_rpm p"] normalizeLimit_range [of "lim_tpm p"]
  by (auto simp: isUnlimited_def limits_ok_def normalized_def Let_def)

lemma modelLimits_Some:
  "modelLimits so m = Some l \<Longrightarrow> limits_ok l \<and> trim_space m \<noteq> []"
  by (auto simp: modelLimits_def Let_def limits_ok_normalized split: if_splits option.splits)

lemma limitsForSpec_ok: "\<not> isUnlimited (limitsForSpec so d) \<Longrightarrow> limits_ok (limitsForSpec so d)"
  by (auto simp: limitsForSpec_def limits_ok_normalized split: option.splits)

lemma encodeScope_ok:
  "0 < sc_tenant s \<Longrightarrow> trim_space (sc_id s) \<noteq> [] \<Longrightarrow> sc_kind s \<in> {ScopeUser, ScopeAPIKey, ScopePoolGroup}
     \<Longrightarrow> \<exists>k. encodeScope s = Inr k"
  by (auto simp: encodeScope_def Let_def)

definition scope_limit_ok :: "reserve_request \<Rightarrow> scope_limit \<Rightarrow> bool" where
  "scope_limit_ok req sl \<longleftrightarrow> sc_tenant (sl_scope sl) = rq_tenant req \<and> limits_ok (sl_limits sl)
     \<and> (\<exists>i\<ge>0. sc_id (sl_scope sl) = int_string i)
     \<and> sc_kind (sl_scope sl) \<in> {ScopeUser, ScopeAPIKey, ScopePoolGroup}"

lemma mk_scope_limit_ok:
  "limits_ok l \<Longrightarrow> 0 \<le> i \<Longrightarrow> kind \<in> {ScopeUser, ScopeAPIKey, ScopePoolGroup} \<Longrightarrow>
     scope_limit_ok req (mk_scope_limit (rq_tenant req) kind i m l)"
  by (auto simp: scope_limit_ok_def mk_scope_limit_def)

lemma model_scope_cases:
  "model_scope t k i so m = [] \<or>
   (\<exists>l. model_scope t k i so m = [mk_scope_limit t k i m l] \<and> limits_ok l \<and> trim_space m \<noteq> [])"
  by (auto simp: model_scope_def dest: modelLimits_Some split: option.splits)

lemma overall_scope_cases:
  "overall_scope t k i so d = [] \<or>
   (\<exists>l. overall_scope t k i so d = [mk_scope_limit t k i [] l] \<and> limits_ok l)"
  by (auto simp: overall_scope_def Let_def limitsForSpec_ok)

lemma model_part:
  "(if 0 < i then model_scope t k i so m else []) = [] \<or>
   (\<exists>l j n. 0 \<le> j \<and> (if 0 < i then model_scope t k i so m else []) = [mk_scope_limit t k j n l]
      \<and> limits_ok l \<and> trim_space n \<noteq> [])"
proof (cases "0 < i")
  case True
  then have "0 \<le> i" by simp
  with True model_scope_cases [of t k i so m] show ?thesis by (simp only: if_True) blast
qed simp

lemma overall_part:
  "(if 0 < i then overall_scope t k i so d else []) = [] \<or>
   (\<exists>l j. 0 \<le> j \<and> (if 0 < i then overall_scope t k i so d else []) = [mk_scope_limit t k j [] l]
      \<and> limits_ok l)"
proof (cases "0 < i")
  case True
  then have "0 \<le> i" by simp
  with True overall_scope_cases [of t k i so d] show ?thesis by (simp only: if_True) blast
qed simp

text \<open>Every result of \<open>scopes\<close> is some of these five scope limits, in this order.\<close>

lemma scopes_cases:
  obtains km k um u g where
    "scopes p req = km @ k @ um @ u @ g"
    "km = [] \<or> (\<exists>l i m. 0 \<le> i \<and> km = [mk_scope_limit (rq_tenant req) ScopeAPIKey i m l] \<and> limits_ok l \<and> trim_space m \<noteq> [])"
    "k = [] \<or> (\<exists>l i. 0 \<le> i \<and> k = [mk_scope_limit (rq_tenant req) ScopeAPIKey i [] l] \<and> limits_ok l)"
    "um = [] \<or> (\<exists>l i m. 0 \<le> i \<and> um = [mk_scope_limit (rq_tenant req) ScopeUser i m l] \<and> limits_ok l \<and> trim_space m \<noteq> [])"
    "u = [] \<or> (\<exists>l i. 0 \<le> i \<and> u = [mk_scope_limit (rq_tenant req) ScopeUser i [] l] \<and> limits_ok l)"
    "g = [] \<or> (\<exists>l i. 0 \<le> i \<and> g = [mk_scope_limit (rq_tenant req) ScopePoolGroup i [] l] \<and> limits_ok l)"
proof -
  let ?t = "rq_tenant req" and ?m = "trim_space (rq_model req)" and ?d = "lim_default p"
  let ?km = "if 0 < rq_key req then model_scope ?t ScopeAPIKey (rq_key req) (lim_keys p (rq_key req)) ?m else []"
  let ?k = "if 0 < rq_key req then overall_scope ?t ScopeAPIKey (rq_key req) (lim_keys p (rq_key req)) ?d else []"
  let ?um = "if 0 < rq_user req then model_scope ?t ScopeUser (rq_user req) (lim_users p (rq_user req)) ?m else []"
  let ?u = "if 0 < rq_user req then overall_scope ?t ScopeUser (rq_user req) (lim_users p (rq_user req)) ?d else []"
  let ?g = "if 0 < rq_pool_group req then overall_scope ?t ScopePoolGroup (rq_pool_group req)
              (lim_pool_groups p (rq_pool_group req)) ?d else []"
  let ?dflt = "[mk_scope_limit ?t ScopeUser 0 [] (normalized ?d)]"
  have sc: "scopes p req = (if ?km @ ?k @ ?um @ ?u @ ?g = [] \<and> \<not> isUnlimited (normalized ?d)
      \<and> rq_user req \<le> 0 \<and> rq_key req \<le> 0 \<and> rq_pool_group req \<le> 0
      then ?dflt else ?km @ ?k @ ?um @ ?u @ ?g)"
    by (simp add: scopes_def Let_def)
  have parts:
    "?km = [] \<or> (\<exists>l i m. 0 \<le> i \<and> ?km = [mk_scope_limit ?t ScopeAPIKey i m l] \<and> limits_ok l \<and> trim_space m \<noteq> [])"
    "?k = [] \<or> (\<exists>l i. 0 \<le> i \<and> ?k = [mk_scope_limit ?t ScopeAPIKey i [] l] \<and> limits_ok l)"
    "?um = [] \<or> (\<exists>l i m. 0 \<le> i \<and> ?um = [mk_scope_limit ?t ScopeUser i m l] \<and> limits_ok l \<and> trim_space m \<noteq> [])"
    "?u = [] \<or> (\<exists>l i. 0 \<le> i \<and> ?u = [mk_scope_limit ?t ScopeUser i [] l] \<and> limits_ok l)"
    "?g = [] \<or> (\<exists>l i. 0 \<le> i \<and> ?g = [mk_scope_limit ?t ScopePoolGroup i [] l] \<and> limits_ok l)"
    by (rule model_part overall_part)+
  show thesis
  proof (cases "scopes p req = ?km @ ?k @ ?um @ ?u @ ?g")
    case True
    from that [OF this parts] show thesis .
  next
    case False
    with sc have "scopes p req = ?dflt" "\<not> isUnlimited (normalized ?d)" by (auto split: if_splits)
    then have "limits_ok (normalized ?d)" by (simp add: limits_ok_normalized)
    then have "\<exists>l i. 0 \<le> i \<and> ?dflt = [mk_scope_limit ?t ScopeUser i [] l] \<and> limits_ok l" by blast
    with \<open>scopes p req = ?dflt\<close> show thesis by (intro that [of "[]" "[]" "[]" ?dflt "[]"]) simp_all
  qed
qed

lemma scopes_ok: "sl \<in> set (scopes p req) \<Longrightarrow> scope_limit_ok req sl"
  by (rule scopes_cases [of p req]) (auto intro: mk_scope_limit_ok)

lemma scopes_length: "length (scopes p req) \<le> 5"
  by (rule scopes_cases [of p req]) auto

lemma scope_identity_mk:
  "scope_identity (sl_scope (mk_scope_limit t k i m l)) =
     (t, k, segment_of (trim_space (int_string i)),
      if k = ScopePoolGroup \<or> trim_space m = [] then None else Some (segment_of (trim_space m)))"
  by (simp add: scope_identity_def mk_scope_limit_def)

lemma scopes_distinct_identity: "distinct (map (\<lambda>sl. scope_identity (sl_scope sl)) (scopes p req))"
  by (rule scopes_cases [of p req]) (auto simp: scope_identity_mk)

lemma encodeScope_int:
  assumes "sc_id s = int_string i" "0 \<le> i" "0 < sc_tenant s" "sc_kind s \<in> {ScopeUser, ScopeAPIKey, ScopePoolGroup}"
  shows "\<exists>k. encodeScope s = Inr k"
  using assms by (intro encodeScope_ok) (simp_all add: trim_space_digits int_string_def list_all_iff dec_nat_set)

lemma encodeScope_inj:
  "encodeScope s = Inr k \<Longrightarrow> encodeScope s' = Inr k' \<Longrightarrow> scope_identity s \<noteq> scope_identity s' \<Longrightarrow> k \<noteq> k'"
  using encodeScope_identity by blast

text \<open>
  For a request of a tenant, the scopes it is charged under are at most five, all of that
  tenant, each with limits in \<open>0..MaxInt32\<close> of which one is positive, and no two of them share a
  storage key.
\<close>

theorem request_scopes_well_formed:
  assumes "0 < rq_tenant req"
  shows "length (scopes p req) \<le> 5
     \<and> list_all (\<lambda>sl. sc_tenant (sl_scope sl) = rq_tenant req \<and> limits_ok (sl_limits sl)) (scopes p req)
     \<and> (\<exists>keys. map (\<lambda>sl. encodeScope (sl_scope sl)) (scopes p req) = map Inr keys \<and> distinct keys)"
proof -
  let ?enc = "\<lambda>sl. encodeScope (sl_scope sl)"
  have ok: "scope_limit_ok req sl" if "sl \<in> set (scopes p req)" for sl
    using that by (rule scopes_ok)
  have "length (scopes p req) \<le> 5"
    by (rule scopes_length)
  moreover have "list_all (\<lambda>sl. sc_tenant (sl_scope sl) = rq_tenant req \<and> limits_ok (sl_limits sl)) (scopes p req)"
    using ok by (auto simp: list_all_iff scope_limit_ok_def)
  moreover have "\<exists>k. ?enc sl = Inr k" if "sl \<in> set (scopes p req)" for sl
    using ok [OF that] assms by (auto simp: scope_limit_ok_def intro: encodeScope_int)
  then have enc: "?enc sl = Inr (projr (?enc sl))" if "sl \<in> set (scopes p req)" for sl
    using that by fastforce
  then have "map ?enc (scopes p req) = map Inr (map (projr \<circ> ?enc) (scopes p req))" by simp
  moreover have "distinct (map (projr \<circ> ?enc) (scopes p req))"
    using scopes_distinct_identity [of p req] enc encodeScope_identity
    by (auto simp: distinct_map inj_on_def) metis
  ultimately show ?thesis by blast
qed

definition example_limits :: static_limits where
  "example_limits =
     \<lparr> lim_default = \<lparr> lim_rpm = 60, lim_tpm = 0 \<rparr>, lim_users = Map.empty,
       lim_keys = [5 \<mapsto> \<lparr> spec_pair = \<lparr> lim_rpm = 0, lim_tpm = 900 \<rparr>,
                          spec_models = [''m'' \<mapsto> \<lparr> lim_rpm = 2, lim_tpm = 0 \<rparr>] \<rparr>],
       lim_pool_groups = Map.empty \<rparr>"

definition example_request :: reserve_request where
  "example_request =
     \<lparr> rq_tenant = 7, rq_claim = 1, rq_user = 3, rq_key = 5, rq_pool_group = 0,
       rq_model = ''m'', rq_tokens = 10 \<rparr>"

lemma example_scopes:
  "scopes example_limits example_request =
     [mk_scope_limit 7 ScopeAPIKey 5 ''m'' \<lparr> lim_rpm = 2, lim_tpm = 0 \<rparr>,
      mk_scope_limit 7 ScopeAPIKey 5 [] \<lparr> lim_rpm = 0, lim_tpm = 900 \<rparr>,
      mk_scope_limit 7 ScopeUser 3 [] \<lparr> lim_rpm = 60, lim_tpm = 0 \<rparr>]"
proof -
  have "trim_space ''m'' = ''m''" by code_simp
  then show ?thesis
    by (simp add: scopes_def example_limits_def example_request_def model_scope_def overall_scope_def
        modelLimits_def limitsForSpec_def isUnlimited_def normalized_def normalizeLimit_def maxInt32_def)
qed

theorem request_scopes_well_formed_witness:
  "length (scopes example_limits example_request) = 3
   \<and> (\<exists>keys. map (\<lambda>sl. encodeScope (sl_scope sl)) (scopes example_limits example_request) = map Inr keys
        \<and> distinct keys)"
proof -
  have "0 < rq_tenant example_request" by (simp add: example_request_def)
  from request_scopes_well_formed [OF this, of example_limits] show ?thesis
    by (simp add: example_scopes)
qed

end
