(* ===== verification/Budget_Store.thy ===== *)
theory Budget_Store
  imports Budget_Scope Circuit_Breaker
begin

text \<open>
  The counter stores behind the rate budget (backend/internal/budget: memory_store.go,
  breaker_store.go): the contract of the \<open>Store\<close> interface as a locale, the in-process store that
  fulfils it, and the circuit-breaker wrapper, which fulfils it for every store it wraps.

  A store call reads its clock once; the reading is the argument \<open>now\<close>. The \<open>context\<close> argument
  is not used by these stores, and the pointer receivers are not nil.
\<close>

section \<open>Requests and results\<close>

record counter_request =
  cq_scope :: scope
  cq_limits :: limit_pair
  cq_rpm :: int
  cq_tpm :: int
  cq_claim :: int

record counter_result =
  cr_allowed :: bool
  cr_hit :: bool
  cr_minute :: int
  cr_counter :: "counter option"
  cr_current :: int
  cr_limit :: int
  cr_retryAfter :: duration

record adjust_request =
  aq_scope :: scope
  aq_minute :: int
  aq_claim :: int
  aq_rpm :: int
  aq_tpm :: int
  aq_remove :: bool

record reserved_scope =
  rs_scope :: scope
  rs_minute :: int
  rs_rpm :: int
  rs_tpm :: int

text \<open>
  \<open>reservation\<close> and \<open>StoredReservation\<close> have the same fields, and the conversions between them
  copy field by field, so one record stands for both.
\<close>

record reservation =
  re_tenant :: int
  re_claim :: int
  re_tokens :: int
  re_released :: bool
  re_settled :: bool
  re_scopes :: "reserved_scope list"

definition nonNegative :: "int \<Rightarrow> int" where
  "nonNegative v = (if v < 0 then 0 else v)"

definition clampCounter :: "int \<Rightarrow> int" where
  "clampCounter v = (if v < 0 then 0 else v)"

definition minute_of :: "instant \<Rightarrow> int" where
  "minute_of now = go_quot (now div second) 60"

definition minuteRetryAfter :: "int \<Rightarrow> instant \<Rightarrow> duration" where
  "minuteRetryAfter mn now =
     (let d = (mn + 1) * 60 * second - now
      in if d \<le> 0 then second else if minute < d then minute else d)"

definition limit_of :: "limit_pair \<Rightarrow> counter \<Rightarrow> int" where
  "limit_of p c = (case c of CounterRPM \<Rightarrow> lim_rpm p | CounterTPM \<Rightarrow> lim_tpm p)"

definition increment_of :: "counter_request \<Rightarrow> counter \<Rightarrow> int" where
  "increment_of r c = (case c of CounterRPM \<Rightarrow> nonNegative (cq_rpm r) | CounterTPM \<Rightarrow> nonNegative (cq_tpm r))"

definition delta_of :: "adjust_request \<Rightarrow> counter \<Rightarrow> int" where
  "delta_of r c = (case c of CounterRPM \<Rightarrow> aq_rpm r | CounterTPM \<Rightarrow> aq_tpm r)"

section \<open>The memory store\<close>

type_synonym counter_key = "string \<times> int \<times> counter"
type_synonym claim_mark = "string \<times> int \<times> int"

record mem_store =
  ms_counters :: "counter_key \<rightharpoonup> int"
  ms_claims :: "claim_mark set"
  ms_ledger :: "int \<times> int \<rightharpoonup> reservation"
  ms_lastSweep :: int

definition newMemoryStore :: mem_store where
  "newMemoryStore = \<lparr> ms_counters = Map.empty, ms_claims = {}, ms_ledger = Map.empty, ms_lastSweep = 0 \<rparr>"

definition counter_at :: "mem_store \<Rightarrow> counter_key \<Rightarrow> int" where
  "counter_at s k = (case ms_counters s k of None \<Rightarrow> 0 | Some v \<Rightarrow> v)"

definition evictStale :: "int \<Rightarrow> mem_store \<Rightarrow> mem_store" where
  "evictStale mn s =
     (if mn \<le> ms_lastSweep s then s
      else s\<lparr> ms_lastSweep := mn,
              ms_counters := (\<lambda>(k, m, c). if m < mn - 1 then None else ms_counters s (k, m, c)),
              ms_claims := {x \<in> ms_claims s. \<not> fst (snd x) < mn - 1} \<rparr>)"

definition mem_check ::
    "instant \<Rightarrow> mem_store \<Rightarrow> counter_request \<Rightarrow> (bg_error + counter_result) \<times> mem_store" where
  "mem_check now s r =
     (case encodeScope (cq_scope r) of
        Inl e \<Rightarrow> (Inl e, s)
      | Inr k \<Rightarrow>
          (let mn = minute_of now; lims = normalized (cq_limits r);
               rpmInc = nonNegative (cq_rpm r); tpmInc = nonNegative (cq_tpm r);
               s = evictStale mn s; mark = (k, mn, cq_claim r)
           in if mark \<in> ms_claims s
              then (Inr \<lparr> cr_allowed = True, cr_hit = True, cr_minute = mn, cr_counter = None,
                          cr_current = 0, cr_limit = 0, cr_retryAfter = 0 \<rparr>, s)
              else (let currentRPM = counter_at s (k, mn, CounterRPM);
                        currentTPM = counter_at s (k, mn, CounterTPM);
                        deny = (\<lambda>c cur lim. \<lparr> cr_allowed = False, cr_hit = False, cr_minute = mn,
                           cr_counter = Some c, cr_current = cur, cr_limit = lim,
                           cr_retryAfter = minuteRetryAfter mn now \<rparr>)
                    in if 0 < lim_rpm lims \<and> lim_rpm lims < i64 (currentRPM + rpmInc)
                       then (Inr (deny CounterRPM currentRPM (lim_rpm lims)), s)
                       else if 0 < lim_tpm lims \<and> lim_tpm lims < i64 (currentTPM + tpmInc)
                       then (Inr (deny CounterTPM currentTPM (lim_tpm lims)), s)
                       else (Inr \<lparr> cr_allowed = True, cr_hit = False, cr_minute = mn, cr_counter = None,
                                   cr_current = i64 (currentRPM + rpmInc), cr_limit = lim_rpm lims,
                                   cr_retryAfter = 0 \<rparr>,
                             s\<lparr> ms_counters := (ms_counters s)
                                  ((k, mn, CounterRPM) \<mapsto> i64 (currentRPM + rpmInc),
                                   (k, mn, CounterTPM) \<mapsto> i64 (currentTPM + tpmInc)),
                                ms_claims := insert mark (ms_claims s) \<rparr>))))"

definition mem_adjust :: "instant \<Rightarrow> mem_store \<Rightarrow> adjust_request \<Rightarrow> bg_error option \<times> mem_store" where
  "mem_adjust now s r =
     (case encodeScope (aq_scope r) of
        Inl e \<Rightarrow> (Some e, s)
      | Inr k \<Rightarrow>
          (let bump = (\<lambda>c d s. if d = 0 then s
                 else s\<lparr> ms_counters := (ms_counters s)
                          ((k, aq_minute r, c) \<mapsto> clampCounter (i64 (counter_at s (k, aq_minute r, c) + d))) \<rparr>);
               s = bump CounterRPM (aq_rpm r) s;
               s = bump CounterTPM (aq_tpm r) s;
               s = (if aq_remove r then s\<lparr> ms_claims := ms_claims s - {(k, aq_minute r, aq_claim r)} \<rparr> else s)
           in (None, s)))"

definition counterValue :: "mem_store \<Rightarrow> scope \<Rightarrow> int \<Rightarrow> counter \<Rightarrow> int" where
  "counterValue s sc mn c =
     (case encodeScope sc of Inl _ \<Rightarrow> 0 | Inr k \<Rightarrow> counter_at s (k, mn, c))"

definition mem_load :: "instant \<Rightarrow> mem_store \<Rightarrow> int \<Rightarrow> int \<Rightarrow> (bg_error + reservation option) \<times> mem_store" where
  "mem_load now s tenant claim = (Inr (ms_ledger s (tenant, claim)), s)"

definition mem_save :: "instant \<Rightarrow> mem_store \<Rightarrow> reservation \<Rightarrow> bg_error option \<times> mem_store" where
  "mem_save now s r = (None, s\<lparr> ms_ledger := (ms_ledger s)((re_tenant r, re_claim r) \<mapsto> r) \<rparr>)"

section \<open>The contract of a store\<close>

text \<open>
  \<open>level s k m c\<close> is the counter \<open>c\<close> of storage key \<open>k\<close> in minute \<open>m\<close>; \<open>marked s k m cl\<close> says that
  claim \<open>cl\<close> was counted there. A store may forget minutes before the previous one.
\<close>

locale counter_store =
  fixes check :: "instant \<Rightarrow> 's \<Rightarrow> counter_request \<Rightarrow> (bg_error + counter_result) \<times> 's"
    and adjust :: "instant \<Rightarrow> 's \<Rightarrow> adjust_request \<Rightarrow> bg_error option \<times> 's"
    and level :: "'s \<Rightarrow> string \<Rightarrow> int \<Rightarrow> counter \<Rightarrow> int"
    and marked :: "'s \<Rightarrow> string \<Rightarrow> int \<Rightarrow> int \<Rightarrow> bool"
  assumes check_error:
      "check now s r = (Inl e, s') \<Longrightarrow> level s' = level s \<and> marked s' = marked s"
    and check_refused:
      "check now s r = (Inr res, s') \<Longrightarrow> \<not> cr_allowed res \<or> cr_hit res \<Longrightarrow>
         minute_of now - 1 \<le> m \<Longrightarrow> level s' k m = level s k m \<and> marked s' k m = marked s k m"
    and check_hit:
      "check now s r = (Inr res, s') \<Longrightarrow> encodeScope (cq_scope r) = Inr k \<Longrightarrow>
         cr_hit res \<longleftrightarrow> marked s k (minute_of now) (cq_claim r)"
    and check_denied:
      "check now s r = (Inr res, s') \<Longrightarrow> \<not> cr_allowed res \<Longrightarrow> encodeScope (cq_scope r) = Inr k \<Longrightarrow>
         \<exists>c. cr_counter res = Some c \<and> 0 < limit_of (normalized (cq_limits r)) c \<and>
             limit_of (normalized (cq_limits r)) c < i64 (level s k (minute_of now) c + increment_of r c)"
    and check_admitted:
      "check now s r = (Inr res, s') \<Longrightarrow> cr_allowed res \<Longrightarrow> \<not> cr_hit res \<Longrightarrow> encodeScope (cq_scope r) = Inr k \<Longrightarrow>
         cr_minute res = minute_of now \<and>
         (\<forall>c. 0 < limit_of (normalized (cq_limits r)) c \<longrightarrow>
              i64 (level s k (minute_of now) c + increment_of r c) \<le> limit_of (normalized (cq_limits r)) c)"
    and check_levels:
      "check now s r = (Inr res, s') \<Longrightarrow> cr_allowed res \<Longrightarrow> \<not> cr_hit res \<Longrightarrow> encodeScope (cq_scope r) = Inr k \<Longrightarrow>
         minute_of now - 1 \<le> m \<Longrightarrow>
         level s' k' m c = (if k' = k \<and> m = minute_of now then i64 (level s k m c + increment_of r c)
                            else level s k' m c) \<and>
         (marked s' k' m cl \<longleftrightarrow> marked s k' m cl \<or> k' = k \<and> m = minute_of now \<and> cl = cq_claim r)"
    and check_encodes: "check now s r = (Inr res, s') \<Longrightarrow> \<exists>k. encodeScope (cq_scope r) = Inr k"
    and check_forgets: "snd (check now s r) = s' \<Longrightarrow> m < minute_of now - 1 \<Longrightarrow>
         level s' k m c = level s k m c \<or> level s' k m c = 0"
    and adjust_error: "adjust now s a = (Some e, s') \<Longrightarrow> level s' = level s \<and> marked s' = marked s"
    and adjust_levels:
      "adjust now s a = (None, s') \<Longrightarrow> \<exists>k. encodeScope (aq_scope a) = Inr k \<and>
         (\<forall>k' m c. level s' k' m c =
            (if k' = k \<and> m = aq_minute a \<and> delta_of a c \<noteq> 0 then clampCounter (i64 (level s k m c + delta_of a c))
             else level s k' m c)) \<and>
         (\<forall>k' m cl. marked s' k' m cl \<longleftrightarrow>
            marked s k' m cl \<and> \<not> (aq_remove a \<and> k' = k \<and> m = aq_minute a \<and> cl = aq_claim a))"
begin

text \<open>
  What a request is admitted for never lifts a limited counter above its limit, whatever
  \<open>int64\<close> does to the sum.
\<close>

lemma admitted_within_limit:
  assumes "check now s r = (Inr res, s')" "cr_allowed res" "\<not> cr_hit res" "encodeScope (cq_scope r) = Inr k"
    and "0 < limit_of (normalized (cq_limits r)) c"
  shows "level s' k (minute_of now) c \<le> limit_of (normalized (cq_limits r)) c"
  using check_admitted [OF assms(1-4)] check_levels [OF assms(1-4), of "minute_of now" k c] assms(5) by auto

text \<open>
  A limited counter of a key stays between 0 and its limit, as long as the requests for the key
  carry that limit and the corrections only give back.
\<close>

definition in_bounds :: "'s \<Rightarrow> string \<Rightarrow> counter \<Rightarrow> int \<Rightarrow> bool" where
  "in_bounds s k c L \<longleftrightarrow> (\<forall>m. 0 \<le> level s k m c \<and> level s k m c \<le> L)"

lemma check_bounds:
  assumes bd: "in_bounds s k c L" and L: "0 < L" "L \<le> maxInt32"
    and r: "encodeScope (cq_scope r) = Inr k \<Longrightarrow>
              limit_of (normalized (cq_limits r)) c = L \<and> increment_of r c \<le> 2 ^ 62"
  shows "in_bounds (snd (check now s r)) k c L"
proof (cases "fst (check now s r)")
  case (Inl e)
  then have "check now s r = (Inl e, snd (check now s r))" by (simp add: prod_eq_iff)
  from check_error [OF this] bd show ?thesis by (simp add: in_bounds_def)
next
  case (Inr res)
  then have eq: "check now s r = (Inr res, snd (check now s r))" by (simp add: prod_eq_iff)
  obtain k0 where k0: "encodeScope (cq_scope r) = Inr k0" using check_encodes [OF eq] by blast
  have "0 \<le> level (snd (check now s r)) k m c \<and> level (snd (check now s r)) k m c \<le> L" for m
  proof -
    have old: "0 \<le> level s k m c" "level s k m c \<le> L" using bd by (auto simp: in_bounds_def)
    consider "m < minute_of now - 1" | "minute_of now - 1 \<le> m" "\<not> cr_allowed res \<or> cr_hit res"
      | "minute_of now - 1 \<le> m" "cr_allowed res" "\<not> cr_hit res" by fastforce
    then show ?thesis
    proof cases
      case 1
      from check_forgets [OF refl 1, of s r k c] old L show ?thesis by auto
    next
      case 2
      from check_refused [OF eq 2(2,1)] old show ?thesis by simp
    next
      case 3
      note lev = check_levels [OF eq 3(2,3) k0 3(1), of k c]
      show ?thesis
      proof (cases "k0 = k \<and> m = minute_of now")
        case True
        with r k0 have lim: "limit_of (normalized (cq_limits r)) c = L" and inc: "increment_of r c \<le> 2 ^ 62"
          by simp_all
        have "0 \<le> increment_of r c" by (simp add: increment_of_def nonNegative_def split: counter.split)
        with old L inc have "i64 (level s k m c + increment_of r c) = level s k m c + increment_of r c"
          by (intro i64_id) (simp add: in_i64_def maxInt32_def)
        with \<open>0 \<le> increment_of r c\<close> old lev True admitted_within_limit [OF eq 3(2,3), of k c] k0 lim L
        show ?thesis by auto
      next
        case False
        with lev old show ?thesis by auto
      qed
    qed
  qed
  then show ?thesis by (simp add: in_bounds_def)
qed

lemma adjust_bounds:
  assumes bd: "in_bounds s k c L" and L: "0 < L" "L \<le> maxInt32"
    and a: "encodeScope (aq_scope a) = Inr k \<Longrightarrow> - (2 ^ 62) \<le> delta_of a c \<and> delta_of a c \<le> 0"
  shows "in_bounds (snd (adjust now s a)) k c L"
proof (cases "fst (adjust now s a)")
  case (Some e)
  then have "adjust now s a = (Some e, snd (adjust now s a))" by (simp add: prod_eq_iff)
  from adjust_error [OF this] bd show ?thesis by (simp add: in_bounds_def)
next
  case None
  then have "adjust now s a = (None, snd (adjust now s a))" by (simp add: prod_eq_iff)
  from adjust_levels [OF this] obtain k0 where k0: "encodeScope (aq_scope a) = Inr k0" and
    lev: "\<And>m. level (snd (adjust now s a)) k m c =
       (if k = k0 \<and> m = aq_minute a \<and> delta_of a c \<noteq> 0 then clampCounter (i64 (level s k0 m c + delta_of a c))
        else level s k m c)" by blast
  have "0 \<le> level (snd (adjust now s a)) k m c \<and> level (snd (adjust now s a)) k m c \<le> L" for m
  proof -
    have old: "0 \<le> level s k m c" "level s k m c \<le> L" using bd by (auto simp: in_bounds_def)
    show ?thesis
    proof (cases "k = k0")
      case True
      with a k0 have d: "- (2 ^ 62) \<le> delta_of a c" "delta_of a c \<le> 0" by simp_all
      then have "i64 (level s k m c + delta_of a c) = level s k m c + delta_of a c"
        using old L by (intro i64_id) (simp add: in_i64_def maxInt32_def)
      with lev [of m] old d L True show ?thesis
        by (cases "m = aq_minute a") (auto simp: clampCounter_def)
    next
      case False
      with lev [of m] old show ?thesis by simp
    qed
  qed
  then show ?thesis by (simp add: in_bounds_def)
qed

end

datatype store_op = CheckOp instant counter_request | AdjustOp instant adjust_request

fun store_step ::
    "(instant \<Rightarrow> 's \<Rightarrow> counter_request \<Rightarrow> (bg_error + counter_result) \<times> 's) \<Rightarrow>
     (instant \<Rightarrow> 's \<Rightarrow> adjust_request \<Rightarrow> bg_error option \<times> 's) \<Rightarrow> 's \<Rightarrow> store_op \<Rightarrow> 's" where
  "store_step check adjust s (CheckOp now r) = snd (check now s r)"
| "store_step check adjust s (AdjustOp now a) = snd (adjust now s a)"

fun op_respects :: "string \<Rightarrow> counter \<Rightarrow> int \<Rightarrow> store_op \<Rightarrow> bool" where
  "op_respects k c L (CheckOp now r) \<longleftrightarrow>
     encodeScope (cq_scope r) \<noteq> Inr k \<or>
       limit_of (normalized (cq_limits r)) c = L \<and> increment_of r c \<le> 2 ^ 62"
| "op_respects k c L (AdjustOp now a) \<longleftrightarrow>
     encodeScope (aq_scope a) \<noteq> Inr k \<or> - (2 ^ 62) \<le> delta_of a c \<and> delta_of a c \<le> 0"

context counter_store begin

lemma run_in_bounds:
  assumes "in_bounds s k c L" "0 < L" "L \<le> maxInt32" "list_all (op_respects k c L) ops"
  shows "in_bounds (foldl (store_step check adjust) s ops) k c L"
  using assms
proof (induction ops arbitrary: s)
  case Nil
  then show ?case by simp
next
  case (Cons op ops)
  have "in_bounds (store_step check adjust s op) k c L"
    using Cons.prems by (cases op) (auto intro: check_bounds adjust_bounds)
  with Cons show ?case by simp
qed

end

text \<open>A store whose calls do not fail, other than for a scope that has no key.\<close>

locale reliable_store = counter_store +
  assumes check_total: "encodeScope (cq_scope r) = Inr k \<Longrightarrow> \<exists>res s'. check now s r = (Inr res, s')"
    and adjust_total: "encodeScope (aq_scope a) = Inr k \<Longrightarrow> \<exists>s'. adjust now s a = (None, s')"

section \<open>The memory store fulfils the contract\<close>

definition mem_level :: "mem_store \<Rightarrow> string \<Rightarrow> int \<Rightarrow> counter \<Rightarrow> int" where
  "mem_level s k m c = counter_at s (k, m, c)"

definition mem_marked :: "mem_store \<Rightarrow> string \<Rightarrow> int \<Rightarrow> int \<Rightarrow> bool" where
  "mem_marked s k m cl \<longleftrightarrow> (k, m, cl) \<in> ms_claims s"

lemma evictStale_recent [simp]:
  "mn - 1 \<le> m \<Longrightarrow> mem_level (evictStale mn s) k m = mem_level s k m"
  "mn - 1 \<le> m \<Longrightarrow> mem_marked (evictStale mn s) k m = mem_marked s k m"
  "mn - 1 \<le> m \<Longrightarrow> counter_at (evictStale mn s) (k, m, c) = counter_at s (k, m, c)"
  "mn - 1 \<le> m \<Longrightarrow> (k, m, cl) \<in> ms_claims (evictStale mn s) \<longleftrightarrow> (k, m, cl) \<in> ms_claims s"
  by (auto simp: mem_level_def mem_marked_def counter_at_def evictStale_def fun_eq_iff)

lemma evictStale_level:
  "mem_level (evictStale mn s) k m c = mem_level s k m c \<or> mem_level (evictStale mn s) k m c = 0"
  by (auto simp: mem_level_def counter_at_def evictStale_def)

lemma counter_at_upd:
  "counter_at (s\<lparr> ms_counters := (ms_counters s)(x \<mapsto> v) \<rparr>) y = (if y = x then v else counter_at s y)"
  by (simp add: counter_at_def)

lemma mem_check_cases:
  assumes "mem_check now s r = (out, s')"
  obtains (encode) e where "encodeScope (cq_scope r) = Inl e" "out = Inl e" "s' = s"
  | (hit) k res where "encodeScope (cq_scope r) = Inr k" "out = Inr res" "cr_allowed res" "cr_hit res"
      "mem_marked s k (minute_of now) (cq_claim r)" "s' = evictStale (minute_of now) s"
  | (deny) k res c where "encodeScope (cq_scope r) = Inr k" "out = Inr res" "\<not> cr_allowed res" "\<not> cr_hit res"
      "\<not> mem_marked s k (minute_of now) (cq_claim r)" "s' = evictStale (minute_of now) s"
      "cr_counter res = Some c" "0 < limit_of (normalized (cq_limits r)) c"
      "limit_of (normalized (cq_limits r)) c < i64 (mem_level s k (minute_of now) c + increment_of r c)"
  | (admit) k res where "encodeScope (cq_scope r) = Inr k" "out = Inr res" "cr_allowed res" "\<not> cr_hit res"
      "\<not> mem_marked s k (minute_of now) (cq_claim r)" "cr_minute res = minute_of now"
      "\<And>c. 0 < limit_of (normalized (cq_limits r)) c \<Longrightarrow>
         i64 (mem_level s k (minute_of now) c + increment_of r c) \<le> limit_of (normalized (cq_limits r)) c"
      "\<And>k' m c. mem_level s' k' m c =
         (if k' = k \<and> m = minute_of now then i64 (mem_level s k m c + increment_of r c)
          else mem_level (evictStale (minute_of now) s) k' m c)"
      "ms_claims s' = insert (k, minute_of now, cq_claim r) (ms_claims (evictStale (minute_of now) s))"
proof (cases "encodeScope (cq_scope r)")
  case (Inl e)
  with assms show thesis by (intro encode [OF Inl]) (auto simp: mem_check_def)
next
  case (Inr k)
  let ?mn = "minute_of now" and ?s = "evictStale (minute_of now) s" and ?l = "normalized (cq_limits r)"
  let ?rpm = "i64 (counter_at s (k, ?mn, CounterRPM) + nonNegative (cq_rpm r))"
  let ?tpm = "i64 (counter_at s (k, ?mn, CounterTPM) + nonNegative (cq_tpm r))"
  note unf = mem_check_def Let_def mem_marked_def mem_level_def limit_of_def increment_of_def
  show thesis
  proof (cases "mem_marked s k ?mn (cq_claim r)")
    case True
    with assms Inr show thesis by (intro hit [OF Inr]) (auto simp: unf)
  next
    case notin: False
    consider (rpm) "0 < lim_rpm ?l" "lim_rpm ?l < ?rpm"
      | (tpm) "\<not> (0 < lim_rpm ?l \<and> lim_rpm ?l < ?rpm)" "0 < lim_tpm ?l" "lim_tpm ?l < ?tpm"
      | (ok) "\<not> (0 < lim_rpm ?l \<and> lim_rpm ?l < ?rpm)" "\<not> (0 < lim_tpm ?l \<and> lim_tpm ?l < ?tpm)" by blast
    then show thesis
    proof cases
      case rpm
      with assms Inr notin show thesis
        by (intro deny [OF Inr, of _ CounterRPM]) (auto simp: unf)
    next
      case tpm
      with assms Inr notin show thesis
        by (intro deny [OF Inr, of _ CounterTPM]) (auto simp: unf)
    next
      case ok
      obtain res where eq: "out = Inr res" "cr_allowed res" "\<not> cr_hit res" "cr_minute res = ?mn"
        "s' = ?s\<lparr> ms_counters := (ms_counters ?s)((k, ?mn, CounterRPM) \<mapsto> ?rpm, (k, ?mn, CounterTPM) \<mapsto> ?tpm),
                  ms_claims := insert (k, ?mn, cq_claim r) (ms_claims ?s) \<rparr>"
        using assms Inr notin ok by (auto simp: mem_check_def mem_marked_def Let_def)
      show thesis
      proof (rule admit [OF Inr eq(1-3) notin eq(4)])
        show "i64 (mem_level s k ?mn c + increment_of r c) \<le> limit_of ?l c" if "0 < limit_of ?l c" for c
          using that ok by (cases c) (auto simp: unf)
        show "mem_level s' k' m c = (if k' = k \<and> m = ?mn then i64 (mem_level s k m c + increment_of r c)
            else mem_level ?s k' m c)" for k' m c
          by (cases c) (auto simp: eq(5) unf counter_at_def)
        show "ms_claims s' = insert (k, ?mn, cq_claim r) (ms_claims ?s)" by (simp add: eq(5))
      qed
    qed
  qed
qed

lemma mem_adjust_levels:
  assumes "encodeScope (aq_scope a) = Inr k"
  shows "fst (mem_adjust now s a) = None"
    and "mem_level (snd (mem_adjust now s a)) k' m c =
      (if k' = k \<and> m = aq_minute a \<and> delta_of a c \<noteq> 0 then clampCounter (i64 (mem_level s k m c + delta_of a c))
       else mem_level s k' m c)"
    and "mem_marked (snd (mem_adjust now s a)) k' m cl \<longleftrightarrow>
      mem_marked s k' m cl \<and> \<not> (aq_remove a \<and> k' = k \<and> m = aq_minute a \<and> cl = aq_claim a)"
  using assms
  by (cases c; auto simp: mem_adjust_def mem_level_def mem_marked_def counter_at_def delta_of_def Let_def)+

lemma mem_adjust_error: "mem_adjust now s a = (Some e, s') \<Longrightarrow> s' = s"
  by (auto simp: mem_adjust_def Let_def split: sum.splits)

interpretation mst: reliable_store mem_check mem_adjust mem_level mem_marked
proof
  fix now s r e s'
  assume "mem_check now s r = (Inl e, s')"
  then show "mem_level s' = mem_level s \<and> mem_marked s' = mem_marked s"
    by (rule mem_check_cases) auto
next
  fix now s r res s' and m :: int and k
  assume "mem_check now s r = (Inr res, s')" "\<not> cr_allowed res \<or> cr_hit res" "minute_of now - 1 \<le> m"
  then show "mem_level s' k m = mem_level s k m \<and> mem_marked s' k m = mem_marked s k m"
    by (auto elim!: mem_check_cases)
next
  fix now s r res s' k
  assume "mem_check now s r = (Inr res, s')" "encodeScope (cq_scope r) = Inr k"
  then show "cr_hit res \<longleftrightarrow> mem_marked s k (minute_of now) (cq_claim r)"
    by (auto elim!: mem_check_cases)
next
  fix now s r res s' k
  assume "mem_check now s r = (Inr res, s')" "\<not> cr_allowed res" "encodeScope (cq_scope r) = Inr k"
  then show "\<exists>c. cr_counter res = Some c \<and> 0 < limit_of (normalized (cq_limits r)) c \<and>
      limit_of (normalized (cq_limits r)) c < i64 (mem_level s k (minute_of now) c + increment_of r c)"
    by (auto elim!: mem_check_cases)
next
  fix now s r res s' k
  assume "mem_check now s r = (Inr res, s')" "cr_allowed res" "\<not> cr_hit res" "encodeScope (cq_scope r) = Inr k"
  then show "cr_minute res = minute_of now \<and> (\<forall>c. 0 < limit_of (normalized (cq_limits r)) c \<longrightarrow>
      i64 (mem_level s k (minute_of now) c + increment_of r c) \<le> limit_of (normalized (cq_limits r)) c)"
    by (auto elim!: mem_check_cases)
next
  fix now s r res s' k k' c cl and m :: int
  assume "mem_check now s r = (Inr res, s')" "cr_allowed res" "\<not> cr_hit res" "encodeScope (cq_scope r) = Inr k"
    and m: "minute_of now - 1 \<le> m"
  then show "mem_level s' k' m c = (if k' = k \<and> m = minute_of now then i64 (mem_level s k m c + increment_of r c)
        else mem_level s k' m c) \<and>
      (mem_marked s' k' m cl \<longleftrightarrow> mem_marked s k' m cl \<or> k' = k \<and> m = minute_of now \<and> cl = cq_claim r)"
    by (auto elim!: mem_check_cases simp: mem_marked_def)
next
  fix now s r res s'
  assume "mem_check now s r = (Inr res, s')"
  then show "\<exists>k. encodeScope (cq_scope r) = Inr k" by (rule mem_check_cases) auto
next
  fix now s r s' k c and m :: int
  assume "snd (mem_check now s r) = s'" and m: "m < minute_of now - 1"
  then have "mem_check now s r = (fst (mem_check now s r), s')" by (simp add: prod_eq_iff)
  then show "mem_level s' k m c = mem_level s k m c \<or> mem_level s' k m c = 0"
    by (rule mem_check_cases) (use m evictStale_level in auto)
next
  fix now s a e s'
  assume "mem_adjust now s a = (Some e, s')"
  then show "mem_level s' = mem_level s \<and> mem_marked s' = mem_marked s"
    by (auto dest: mem_adjust_error)
next
  fix now s a s'
  assume eq: "mem_adjust now s a = (None, s')"
  then obtain k where k: "encodeScope (aq_scope a) = Inr k"
    by (auto simp: mem_adjust_def split: sum.splits)
  from mem_adjust_levels [OF k, of now s] eq k
  show "\<exists>k. encodeScope (aq_scope a) = Inr k \<and>
      (\<forall>k' m c. mem_level s' k' m c =
         (if k' = k \<and> m = aq_minute a \<and> delta_of a c \<noteq> 0 then clampCounter (i64 (mem_level s k m c + delta_of a c))
          else mem_level s k' m c)) \<and>
      (\<forall>k' m cl. mem_marked s' k' m cl \<longleftrightarrow>
         mem_marked s k' m cl \<and> \<not> (aq_remove a \<and> k' = k \<and> m = aq_minute a \<and> cl = aq_claim a))"
    by auto
next
  fix r :: counter_request and k now s
  assume "encodeScope (cq_scope r) = Inr k"
  then show "\<exists>res s'. mem_check now s r = (Inr res, s')"
    by (cases "mem_check now s r") (auto elim!: mem_check_cases)
next
  fix a :: adjust_request and k now s
  assume "encodeScope (aq_scope a) = Inr k"
  from mem_adjust_levels(1) [OF this, of now s] show "\<exists>s'. mem_adjust now s a = (None, s')"
    by (metis prod.collapse)
qed

section \<open>The circuit breaker around a store\<close>

definition breakerKey :: string where "breakerKey = ''redis_budget''"

text \<open>
  \<open>withLedgerWrite\<close> and the other methods share one shape: ask the breaker, call the inner store,
  record the outcome.
\<close>

definition bs_check ::
    "(instant \<Rightarrow> 's \<Rightarrow> counter_request \<Rightarrow> (bg_error + counter_result) \<times> 's) \<Rightarrow>
     instant \<Rightarrow> breaker option \<times> 's \<Rightarrow> counter_request \<Rightarrow> (bg_error + counter_result) \<times> breaker option \<times> 's" where
  "bs_check check now bs r =
     (let (d, b) = allow (fst bs) breakerKey now
      in if \<not> allowed d then (Inl ErrUnavailable, (b, snd bs))
         else (case check now (snd bs) r of
                 (Inl e, s) \<Rightarrow> (Inl e, (recordFailure b breakerKey now, s))
               | (Inr res, s) \<Rightarrow> (Inr res, (recordSuccess b breakerKey, s))))"

definition bs_adjust ::
    "(instant \<Rightarrow> 's \<Rightarrow> adjust_request \<Rightarrow> bg_error option \<times> 's) \<Rightarrow>
     instant \<Rightarrow> breaker option \<times> 's \<Rightarrow> adjust_request \<Rightarrow> bg_error option \<times> breaker option \<times> 's" where
  "bs_adjust adjust now bs a =
     (let (d, b) = allow (fst bs) breakerKey now
      in if \<not> allowed d then (Some ErrUnavailable, (b, snd bs))
         else (case adjust now (snd bs) a of
                 (Some e, s) \<Rightarrow> (Some e, (recordFailure b breakerKey now, s))
               | (None, s) \<Rightarrow> (None, (recordSuccess b breakerKey, s))))"

definition bs_load ::
    "(instant \<Rightarrow> 's \<Rightarrow> int \<Rightarrow> int \<Rightarrow> (bg_error + reservation option) \<times> 's) option \<Rightarrow>
     instant \<Rightarrow> breaker option \<times> 's \<Rightarrow> int \<Rightarrow> int \<Rightarrow> (bg_error + reservation option) \<times> breaker option \<times> 's" where
  "bs_load load now bs t c =
     (case load of
        None \<Rightarrow> (Inr None, bs)
      | Some ld \<Rightarrow>
          (let (d, b) = allow (fst bs) breakerKey now
           in if \<not> allowed d then (Inl ErrUnavailable, (b, snd bs))
              else (case ld now (snd bs) t c of
                      (Inl e, s) \<Rightarrow> (Inl e, (recordFailure b breakerKey now, s))
                    | (Inr res, s) \<Rightarrow> (Inr res, (recordSuccess b breakerKey, s)))))"

definition bs_save ::
    "(instant \<Rightarrow> 's \<Rightarrow> reservation \<Rightarrow> bg_error option \<times> 's) option \<Rightarrow>
     instant \<Rightarrow> breaker option \<times> 's \<Rightarrow> reservation \<Rightarrow> bg_error option \<times> breaker option \<times> 's" where
  "bs_save save now bs r =
     (case save of
        None \<Rightarrow> (None, bs)
      | Some sv \<Rightarrow>
          (let (d, b) = allow (fst bs) breakerKey now
           in if \<not> allowed d then (Some ErrUnavailable, (b, snd bs))
              else (case sv now (snd bs) r of
                      (Some e, s) \<Rightarrow> (Some e, (recordFailure b breakerKey now, s))
                    | (None, s) \<Rightarrow> (None, (recordSuccess b breakerKey, s)))))"

lemma bs_check_cases:
  assumes "bs_check check now bs r = (out, bs')"
  obtains (open_circuit) "out = Inl ErrUnavailable" "snd bs' = snd bs"
  | (passed) "check now (snd bs) r = (out, snd bs')"
  using assms by (auto simp: bs_check_def Let_def split: prod.splits sum.splits if_splits)

lemma bs_adjust_cases:
  assumes "bs_adjust adjust now bs a = (out, bs')"
  obtains (open_circuit) "out = Some ErrUnavailable" "snd bs' = snd bs"
  | (passed) "adjust now (snd bs) a = (out, snd bs')"
  using assms by (auto simp: bs_adjust_def Let_def split: prod.splits option.splits if_splits)

context counter_store begin

text \<open>Whatever store the breaker wraps, the wrapped store still fulfils the contract.\<close>

lemma breaker_contract:
  "counter_store (bs_check check) (bs_adjust adjust) (\<lambda>bs. level (snd bs)) (\<lambda>bs. marked (snd bs))"
proof
  fix now bs r e bs'
  assume "bs_check check now bs r = (Inl e, bs')"
  then show "level (snd bs') = level (snd bs) \<and> marked (snd bs') = marked (snd bs)"
    by (rule bs_check_cases) (auto dest: check_error)
next
  fix now bs r res bs' and m :: int and k
  assume "bs_check check now bs r = (Inr res, bs')" "\<not> cr_allowed res \<or> cr_hit res" "minute_of now - 1 \<le> m"
  then show "level (snd bs') k m = level (snd bs) k m \<and> marked (snd bs') k m = marked (snd bs) k m"
    by (elim bs_check_cases) (auto dest: check_refused)
next
  fix now bs r res bs' k
  assume "bs_check check now bs r = (Inr res, bs')" "encodeScope (cq_scope r) = Inr k"
  then show "cr_hit res \<longleftrightarrow> marked (snd bs) k (minute_of now) (cq_claim r)"
    by (elim bs_check_cases) (auto dest: check_hit)
next
  fix now bs r res bs' k
  assume "bs_check check now bs r = (Inr res, bs')" "\<not> cr_allowed res" "encodeScope (cq_scope r) = Inr k"
  then show "\<exists>c. cr_counter res = Some c \<and> 0 < limit_of (normalized (cq_limits r)) c \<and>
      limit_of (normalized (cq_limits r)) c < i64 (level (snd bs) k (minute_of now) c + increment_of r c)"
    by (elim bs_check_cases) (auto dest: check_denied)
next
  fix now bs r res bs' k
  assume "bs_check check now bs r = (Inr res, bs')" "cr_allowed res" "\<not> cr_hit res" "encodeScope (cq_scope r) = Inr k"
  then show "cr_minute res = minute_of now \<and> (\<forall>c. 0 < limit_of (normalized (cq_limits r)) c \<longrightarrow>
      i64 (level (snd bs) k (minute_of now) c + increment_of r c) \<le> limit_of (normalized (cq_limits r)) c)"
    by (elim bs_check_cases) (auto dest: check_admitted)
next
  fix now bs r res bs' k k' c cl and m :: int
  assume "bs_check check now bs r = (Inr res, bs')" "cr_allowed res" "\<not> cr_hit res"
    "encodeScope (cq_scope r) = Inr k" "minute_of now - 1 \<le> m"
  then show "level (snd bs') k' m c =
        (if k' = k \<and> m = minute_of now then i64 (level (snd bs) k m c + increment_of r c) else level (snd bs) k' m c) \<and>
      (marked (snd bs') k' m cl \<longleftrightarrow> marked (snd bs) k' m cl \<or> k' = k \<and> m = minute_of now \<and> cl = cq_claim r)"
    by (elim bs_check_cases) (simp, rule check_levels)
next
  fix now bs r res bs'
  assume "bs_check check now bs r = (Inr res, bs')"
  then show "\<exists>k. encodeScope (cq_scope r) = Inr k" by (rule bs_check_cases) (auto dest: check_encodes)
next
  fix now bs r bs' k c and m :: int
  assume "snd (bs_check check now bs r) = bs'" and m: "m < minute_of now - 1"
  then have "bs_check check now bs r = (fst (bs_check check now bs r), bs')" by (simp add: prod_eq_iff)
  then show "level (snd bs') k m c = level (snd bs) k m c \<or> level (snd bs') k m c = 0"
  proof (rule bs_check_cases)
    assume "check now (snd bs) r = (fst (bs_check check now bs r), snd bs')"
    then have "snd (check now (snd bs) r) = snd bs'" by simp
    from check_forgets [OF this m] show ?thesis .
  qed simp
next
  fix now bs a e bs'
  assume "bs_adjust adjust now bs a = (Some e, bs')"
  then show "level (snd bs') = level (snd bs) \<and> marked (snd bs') = marked (snd bs)"
    by (rule bs_adjust_cases) (auto dest: adjust_error)
next
  fix now bs a bs'
  assume "bs_adjust adjust now bs a = (None, bs')"
  then show "\<exists>k. encodeScope (aq_scope a) = Inr k \<and>
      (\<forall>k' m c. level (snd bs') k' m c =
         (if k' = k \<and> m = aq_minute a \<and> delta_of a c \<noteq> 0 then clampCounter (i64 (level (snd bs) k m c + delta_of a c))
          else level (snd bs) k' m c)) \<and>
      (\<forall>k' m cl. marked (snd bs') k' m cl \<longleftrightarrow>
         marked (snd bs) k' m cl \<and> \<not> (aq_remove a \<and> k' = k \<and> m = aq_minute a \<and> cl = aq_claim a))"
    by (rule bs_adjust_cases) (simp, rule adjust_levels)
qed

end

interpretation bst: counter_store "bs_check mem_check" "bs_adjust mem_adjust"
    "\<lambda>bs. mem_level (snd bs)" "\<lambda>bs. mem_marked (snd bs)"
  by (rule mst.breaker_contract)

section \<open>Property\<close>


definition example_check :: "int \<Rightarrow> counter_request" where
  "example_check cl = \<lparr> cq_scope = user_12, cq_limits = \<lparr> lim_rpm = 1, lim_tpm = 0 \<rparr>, cq_rpm = 1, cq_tpm = 50,
                       cq_claim = cl \<rparr>"


end
