(* ===== verification/Budget_Service.thy ===== *)
theory Budget_Service
  imports Budget_Store
begin

text \<open>
  The rate budget service (backend/internal/budget/service.go): reserve a request's tokens under
  every scope it belongs to, settle with the tokens it really used, release it. The service is
  parametrised by its \<open>Store\<close> (with the optional \<open>ReservationLedger\<close> interface), by the fallback
  store and by the \<open>LimitsProvider\<close>. Its mutexes make each map access atomic; the model runs one
  call at a time. The receiver and the store are not nil. Logging is left out, the
  \<open>budget_fail_open_total\<close> counter is kept.
\<close>

section \<open>State\<close>

record 's store_ops =
  so_check :: "instant \<Rightarrow> 's \<Rightarrow> counter_request \<Rightarrow> (bg_error + counter_result) \<times> 's"
  so_adjust :: "instant \<Rightarrow> 's \<Rightarrow> adjust_request \<Rightarrow> bg_error option \<times> 's"
  so_load :: "(instant \<Rightarrow> 's \<Rightarrow> int \<Rightarrow> int \<Rightarrow> (bg_error + reservation option) \<times> 's) option"
  so_save :: "(instant \<Rightarrow> 's \<Rightarrow> reservation \<Rightarrow> bg_error option \<times> 's) option"

datatype svc_fail_mode = FailModeOpen | FailModeClosed | FailModeMemoryFallback

record ('s, 'f) service =
  sv_store :: 's
  sv_fallback :: "'f option"
  sv_failMode :: svc_fail_mode
  sv_reservations :: "int \<times> int \<rightharpoonup> reservation"
  sv_failOpen :: nat

record reserve_result =
  rr_allowed :: bool
  rr_hit :: bool
  rr_failOpen :: bool
  rr_decision :: "bg_decision option"

definition mem_ops :: "mem_store store_ops" where
  "mem_ops = \<lparr> so_check = mem_check, so_adjust = mem_adjust, so_load = Some mem_load, so_save = Some mem_save \<rparr>"

definition breaker_ops :: "'s store_ops \<Rightarrow> (breaker option \<times> 's) store_ops" where
  "breaker_ops ops =
     \<lparr> so_check = bs_check (so_check ops), so_adjust = bs_adjust (so_adjust ops),
       so_load = Some (bs_load (so_load ops)), so_save = Some (bs_save (so_save ops)) \<rparr>"

definition newService :: "'s \<Rightarrow> 'f option \<Rightarrow> svc_fail_mode option \<Rightarrow> ('s, 'f) service" where
  "newService st fb mode =
     \<lparr> sv_store = st, sv_fallback = fb,
       sv_failMode = (case mode of None \<Rightarrow> FailModeMemoryFallback | Some m \<Rightarrow> m),
       sv_reservations = Map.empty, sv_failOpen = 0 \<rparr>"

section \<open>Charging the scopes\<close>

definition check_request :: "reserve_request \<Rightarrow> scope_limit \<Rightarrow> counter_request" where
  "check_request req sl =
     \<lparr> cq_scope = sl_scope sl, cq_limits = sl_limits sl, cq_rpm = 1, cq_tpm = rq_tokens req, cq_claim = rq_claim req \<rparr>"

definition give_back :: "int \<Rightarrow> reserved_scope \<Rightarrow> adjust_request" where
  "give_back claim x =
     \<lparr> aq_scope = rs_scope x, aq_minute = rs_minute x, aq_claim = claim,
       aq_rpm = i64 (- rs_rpm x), aq_tpm = i64 (- rs_tpm x), aq_remove = True \<rparr>"

fun adjust_all :: "'s store_ops \<Rightarrow> instant \<Rightarrow> adjust_request list \<Rightarrow> 's \<Rightarrow> 's" where
  "adjust_all ops now [] st = st"
| "adjust_all ops now (a # as) st = adjust_all ops now as (snd (so_adjust ops now st a))"

definition refundApplied ::
    "'s store_ops \<Rightarrow> instant \<Rightarrow> reserve_request \<Rightarrow> reserved_scope list \<Rightarrow> 's \<Rightarrow> 's" where
  "refundApplied ops now req applied st = adjust_all ops now (map (give_back (rq_claim req)) (rev applied)) st"

datatype loop_result =
  LoopError bg_error
| LoopDenied bg_decision
| LoopHit
| LoopDone "reserved_scope list"

fun reserve_loop ::
    "'s store_ops \<Rightarrow> (nat \<Rightarrow> instant) \<Rightarrow> reserve_request \<Rightarrow> reserved_scope list \<Rightarrow> scope_limit list \<Rightarrow> 's \<Rightarrow>
     loop_result \<times> 's" where
  "reserve_loop ops clk req applied [] st = (LoopDone applied, st)"
| "reserve_loop ops clk req applied (sl # sls) st =
     (case so_check ops (clk (length applied)) st (check_request req sl) of
        (Inl e, st) \<Rightarrow> (LoopError e, refundApplied ops (clk (length applied)) req applied st)
      | (Inr res, st) \<Rightarrow>
          if \<not> cr_allowed res
          then (LoopDenied \<lparr> bd_code = ''budget_limit_exceeded'', bd_counter = cr_counter res,
                             bd_scope = Some (sl_scope sl), bd_current = cr_current res,
                             bd_limit = cr_limit res, bd_retryAfter = cr_retryAfter res,
                             bd_reason = ''budget limit exceeded'' \<rparr>,
                refundApplied ops (clk (length applied)) req applied st)
          else if cr_hit res then (LoopHit, st)
          else reserve_loop ops clk req
                 (applied @ [\<lparr> rs_scope = sl_scope sl, rs_minute = cr_minute res, rs_rpm = 1,
                               rs_tpm = rq_tokens req \<rparr>]) sls st)"

section \<open>Reservations\<close>

definition save_ledger :: "'s store_ops \<Rightarrow> instant \<Rightarrow> reservation \<Rightarrow> 's \<Rightarrow> 's" where
  "save_ledger ops now r st = (case so_save ops of None \<Rightarrow> st | Some sv \<Rightarrow> snd (sv now st r))"

definition remember ::
    "'s store_ops \<Rightarrow> instant \<Rightarrow> reserve_request \<Rightarrow> reserved_scope list \<Rightarrow> ('s, 'f) service \<Rightarrow> ('s, 'f) service" where
  "remember ops now req applied sv =
     (if applied = [] then sv
      else (let r = \<lparr> re_tenant = rq_tenant req, re_claim = rq_claim req, re_tokens = rq_tokens req,
                      re_released = False, re_settled = False, re_scopes = applied \<rparr>
            in sv\<lparr> sv_store := save_ledger ops now r (sv_store sv),
                   sv_reservations := (sv_reservations sv)((rq_tenant req, rq_claim req) \<mapsto> r) \<rparr>))"

definition load_ledger ::
    "'s store_ops \<Rightarrow> instant \<Rightarrow> int \<Rightarrow> int \<Rightarrow> 's \<Rightarrow> reservation option \<times> 's" where
  "load_ledger ops now tenant claim st =
     (case so_load ops of
        None \<Rightarrow> (None, st)
      | Some ld \<Rightarrow> (case ld now st tenant claim of (Inl e, st) \<Rightarrow> (None, st) | (Inr ro, st) \<Rightarrow> (ro, st)))"

definition snapshot ::
    "'s store_ops \<Rightarrow> instant \<Rightarrow> int \<Rightarrow> int \<Rightarrow> ('s, 'f) service \<Rightarrow> reservation option \<times> ('s, 'f) service" where
  "snapshot ops now tenant claim sv =
     (let (ro, st) = load_ledger ops now tenant claim (sv_store sv); sv = sv\<lparr> sv_store := st \<rparr>
      in (case ro of Some r \<Rightarrow> (Some r, sv) | None \<Rightarrow> (sv_reservations sv (tenant, claim), sv)))"

text \<open>\<open>markSettled\<close> and \<open>markReleased\<close> differ in the fields they set.\<close>

definition mark ::
    "(reservation \<Rightarrow> reservation) \<Rightarrow> 's store_ops \<Rightarrow> instant \<Rightarrow> int \<Rightarrow> int \<Rightarrow> ('s, 'f) service \<Rightarrow> ('s, 'f) service" where
  "mark f ops now tenant claim sv =
     (case sv_reservations sv (tenant, claim) of
        Some r \<Rightarrow> sv\<lparr> sv_reservations := (sv_reservations sv)((tenant, claim) \<mapsto> f r),
                     sv_store := save_ledger ops now (f r) (sv_store sv) \<rparr>
      | None \<Rightarrow>
          (case load_ledger ops now tenant claim (sv_store sv) of
             (Some r, st) \<Rightarrow> sv\<lparr> sv_store := save_ledger ops now (f r) st \<rparr>
           | (None, st) \<Rightarrow> sv\<lparr> sv_store := st \<rparr>))"

definition markSettled ::
    "'s store_ops \<Rightarrow> instant \<Rightarrow> int \<Rightarrow> int \<Rightarrow> int \<Rightarrow> ('s, 'f) service \<Rightarrow> ('s, 'f) service" where
  "markSettled ops now tenant claim tokens = mark (\<lambda>r. r\<lparr> re_tokens := tokens, re_settled := True \<rparr>) ops now tenant claim"

definition markReleased :: "'s store_ops \<Rightarrow> instant \<Rightarrow> int \<Rightarrow> int \<Rightarrow> ('s, 'f) service \<Rightarrow> ('s, 'f) service" where
  "markReleased ops now tenant claim = mark (\<lambda>r. r\<lparr> re_released := True \<rparr>) ops now tenant claim"

section \<open>Reserve, settle, release\<close>

definition allow_result :: "bool \<Rightarrow> bool \<Rightarrow> reserve_result" where
  "allow_result hit open = \<lparr> rr_allowed = True, rr_hit = hit, rr_failOpen = open, rr_decision = None \<rparr>"

definition deny_result :: "bg_decision \<Rightarrow> reserve_result" where
  "deny_result d = \<lparr> rr_allowed = False, rr_hit = False, rr_failOpen = False, rr_decision = Some d \<rparr>"

definition zero_result :: reserve_result where
  "zero_result = \<lparr> rr_allowed = False, rr_hit = False, rr_failOpen = False, rr_decision = None \<rparr>"

type_synonym limits_provider = "reserve_request \<Rightarrow> bg_error + scope_limit list"

definition finish_reserve ::
    "'s store_ops \<Rightarrow> instant \<Rightarrow> reserve_request \<Rightarrow> loop_result \<Rightarrow> ('s, 'f) service \<Rightarrow>
     (reserve_result \<times> bg_error option) \<times> ('s, 'f) service" where
  "finish_reserve ops now req out sv =
     (case out of
        LoopError e \<Rightarrow> ((zero_result, Some e), sv)
      | LoopDenied d \<Rightarrow> ((deny_result d, Some (DenyError d ErrDenied)), sv)
      | LoopHit \<Rightarrow> ((allow_result True False, None), sv)
      | LoopDone applied \<Rightarrow> ((allow_result False False, None), remember ops now req applied sv))"

definition unavailable_decision :: bg_decision where
  "unavailable_decision =
     \<lparr> bd_code = ''budget_unavailable'', bd_counter = None, bd_scope = None, bd_current = 0, bd_limit = 0,
       bd_retryAfter = second, bd_reason = ''budget backend unavailable'' \<rparr>"

definition fail_open :: "('s, 'f) service \<Rightarrow> (reserve_result \<times> bg_error option) \<times> ('s, 'f) service" where
  "fail_open sv = ((allow_result False True, None), sv\<lparr> sv_failOpen := Suc (sv_failOpen sv) \<rparr>)"

definition handleStoreError ::
    "'s store_ops \<Rightarrow> 'f store_ops \<Rightarrow> limits_provider \<Rightarrow> (nat \<Rightarrow> instant) \<Rightarrow> ('s, 'f) service \<Rightarrow> reserve_request \<Rightarrow>
     bg_error \<Rightarrow> (reserve_result \<times> bg_error option) \<times> ('s, 'f) service" where
  "handleStoreError ops fops lims clk sv req err =
     (case sv_failMode sv of
        FailModeClosed \<Rightarrow> ((deny_result unavailable_decision, Some (DenyError unavailable_decision err)), sv)
      | FailModeMemoryFallback \<Rightarrow>
          (case (sv_fallback sv, lims req) of
             (Some fb, Inr scs) \<Rightarrow>
               (let (out, fb) = reserve_loop fops clk req [] scs fb
                in finish_reserve ops (clk 0) req out (sv\<lparr> sv_fallback := Some fb \<rparr>))
           | _ \<Rightarrow> fail_open sv)
      | FailModeOpen \<Rightarrow> fail_open sv)"

definition reserve ::
    "'s store_ops \<Rightarrow> 'f store_ops \<Rightarrow> limits_provider \<Rightarrow> (nat \<Rightarrow> instant) \<Rightarrow> ('s, 'f) service \<Rightarrow> reserve_request \<Rightarrow>
     (reserve_result \<times> bg_error option) \<times> ('s, 'f) service" where
  "reserve ops fops lims clk sv req =
     (let req = req\<lparr> rq_tokens := nonNegative (rq_tokens req) \<rparr>;
          (existing, sv) = snapshot ops (clk 0) (rq_tenant req) (rq_claim req) sv
      in if (case existing of Some r \<Rightarrow> \<not> re_released r | None \<Rightarrow> False)
         then ((allow_result True False, None), sv)
         else case lims req of
                Inl e \<Rightarrow> handleStoreError ops fops lims clk sv req e
              | Inr scs \<Rightarrow>
                  if scs = [] then ((allow_result False False, None), sv)
                  else (let (out, st) = reserve_loop ops clk req [] scs (sv_store sv); sv = sv\<lparr> sv_store := st \<rparr>
                        in case out of
                             LoopError e \<Rightarrow>
                               if isDenied (Some e) then finish_reserve ops (clk 0) req out sv
                               else handleStoreError ops fops lims clk sv req e
                           | _ \<Rightarrow> finish_reserve ops (clk 0) req out sv))"

text \<open>Corrections stop at the first one the store refuses; the flag says whether all went through.\<close>

fun adjust_while :: "'s store_ops \<Rightarrow> instant \<Rightarrow> adjust_request list \<Rightarrow> 's \<Rightarrow> bool \<times> 's" where
  "adjust_while ops now [] st = (True, st)"
| "adjust_while ops now (a # as) st =
     (case so_adjust ops now st a of (Some e, st) \<Rightarrow> (False, st) | (None, st) \<Rightarrow> adjust_while ops now as st)"

definition settle_request :: "int \<Rightarrow> int \<Rightarrow> reserved_scope \<Rightarrow> adjust_request" where
  "settle_request claim delta x =
     \<lparr> aq_scope = rs_scope x, aq_minute = rs_minute x, aq_claim = claim, aq_rpm = 0, aq_tpm = delta,
       aq_remove = False \<rparr>"

definition settle ::
    "'s store_ops \<Rightarrow> instant \<Rightarrow> int \<Rightarrow> int \<Rightarrow> int \<Rightarrow> ('s, 'f) service \<Rightarrow> ('s, 'f) service" where
  "settle ops now tenant claim actualTokens sv =
     (case snapshot ops now tenant claim sv of
        (None, sv) \<Rightarrow> sv
      | (Some res, sv) \<Rightarrow>
          if re_released res then sv
          else (let actual = nonNegative actualTokens; delta = i64 (actual - re_tokens res)
                in if delta = 0 \<and> re_settled res then sv
                   else (let items = filter (\<lambda>x. \<not> (rs_tpm x = 0 \<and> delta = 0)) (re_scopes res);
                             (ok, st) = adjust_while ops now (map (settle_request claim delta) items) (sv_store sv);
                             sv = sv\<lparr> sv_store := st \<rparr>
                         in if ok then markSettled ops now tenant claim actual sv
                            else sv\<lparr> sv_failOpen := Suc (sv_failOpen sv) \<rparr>)))"

definition release ::
    "'s store_ops \<Rightarrow> instant \<Rightarrow> int \<Rightarrow> int \<Rightarrow> ('s, 'f) service \<Rightarrow> ('s, 'f) service" where
  "release ops now tenant claim sv =
     (case snapshot ops now tenant claim sv of
        (None, sv) \<Rightarrow> sv
      | (Some res, sv) \<Rightarrow>
          if re_released res then sv
          else (let (ok, st) = adjust_while ops now (map (give_back claim) (re_scopes res)) (sv_store sv);
                    sv = sv\<lparr> sv_store := st \<rparr>
                in if ok then markReleased ops now tenant claim sv
                   else sv\<lparr> sv_failOpen := Suc (sv_failOpen sv) \<rparr>))"

section \<open>What a reservation leaves in the counters\<close>

text \<open>
  \<open>charged\<close>: beside the levels and marks of \<open>s0\<close>, the store \<open>s\<close> holds the charge of one claim in
  every place (a storage key and a minute) of \<open>ps\<close>. Minutes before \<open>mn - 1\<close> may be forgotten.
\<close>

type_synonym place = "string \<times> int"

definition amount :: "int \<Rightarrow> counter \<Rightarrow> int" where
  "amount tokens c = (case c of CounterRPM \<Rightarrow> 1 | CounterTPM \<Rightarrow> tokens)"

definition place_of :: "reserved_scope \<Rightarrow> place" where
  "place_of x = (projr (encodeScope (rs_scope x)), rs_minute x)"

definition item_ok :: "int \<Rightarrow> int \<Rightarrow> reserved_scope \<Rightarrow> bool" where
  "item_ok tokens mn x \<longleftrightarrow> \<not> isl (encodeScope (rs_scope x)) \<and> rs_rpm x = 1 \<and> rs_tpm x = tokens \<and> mn - 1 \<le> rs_minute x"

lemma item_okD:
  assumes "item_ok tokens mn x"
  shows "encodeScope (rs_scope x) = Inr (fst (place_of x))" "snd (place_of x) = rs_minute x"
    "mn - 1 \<le> snd (place_of x)" "mn - 1 \<le> rs_minute x" "rs_rpm x = 1" "rs_tpm x = tokens"
  using assms by (auto simp: item_ok_def place_of_def)

lemma increment_check_request [simp]:
  "0 \<le> rq_tokens req \<Longrightarrow> increment_of (check_request req sl) c = amount (rq_tokens req) c"
  by (simp add: increment_of_def check_request_def amount_def nonNegative_def split: counter.split)

lemma delta_give_back [simp]:
  "item_ok tokens mn x \<Longrightarrow> 0 \<le> tokens \<Longrightarrow> tokens \<le> 2 ^ 61 \<Longrightarrow> delta_of (give_back claim x) c = - amount tokens c"
  by (auto simp: delta_of_def give_back_def amount_def item_ok_def in_i64_def split: counter.split)

lemma amount_bounds:
  assumes "0 \<le> tokens" "tokens \<le> 2 ^ 61"
  shows "0 \<le> amount tokens c" "amount tokens c \<le> 2 ^ 61"
  using assms by (simp_all add: amount_def split: counter.split)

context counter_store begin

definition levels_ok :: "'s \<Rightarrow> bool" where
  "levels_ok s \<longleftrightarrow> (\<forall>k m c. 0 \<le> level s k m c \<and> level s k m c \<le> 2 ^ 61)"

definition charged :: "'s \<Rightarrow> int \<Rightarrow> int \<Rightarrow> int \<Rightarrow> place set \<Rightarrow> 's \<Rightarrow> bool" where
  "charged s0 mn claim tokens ps s \<longleftrightarrow>
     (\<forall>k m. mn - 1 \<le> m \<longrightarrow>
        (\<forall>c. level s k m c = level s0 k m c + (if (k, m) \<in> ps then amount tokens c else 0)) \<and>
        (\<forall>cl. marked s k m cl \<longleftrightarrow> marked s0 k m cl \<or> cl = claim \<and> (k, m) \<in> ps) \<and>
        ((k, m) \<in> ps \<longrightarrow> \<not> marked s0 k m claim))"

definition agrees :: "'s \<Rightarrow> int \<Rightarrow> 's \<Rightarrow> bool" where
  "agrees s0 mn s \<longleftrightarrow> (\<forall>k m. mn - 1 \<le> m \<longrightarrow> level s k m = level s0 k m \<and> marked s k m = marked s0 k m)"

lemma charged_empty [simp]: "charged s0 mn claim tokens {} s \<longleftrightarrow> agrees s0 mn s"
  by (auto simp: charged_def agrees_def fun_eq_iff)

lemma agrees_refl [simp]: "agrees s mn s"
  by (simp add: agrees_def)

lemma chargedD:
  assumes "charged s0 mn claim tokens ps s" "mn - 1 \<le> m"
  shows "level s k m c = level s0 k m c + (if (k, m) \<in> ps then amount tokens c else 0)"
    and "marked s k m cl \<longleftrightarrow> marked s0 k m cl \<or> cl = claim \<and> (k, m) \<in> ps"
    and "(k, m) \<in> ps \<Longrightarrow> \<not> marked s0 k m claim"
  using assms by (auto simp: charged_def)

lemma chargedI:
  assumes "\<And>k m c. mn - 1 \<le> m \<Longrightarrow> level s k m c = level s0 k m c + (if (k, m) \<in> ps then amount tokens c else 0)"
    and "\<And>k m cl. mn - 1 \<le> m \<Longrightarrow> marked s k m cl \<longleftrightarrow> marked s0 k m cl \<or> cl = claim \<and> (k, m) \<in> ps"
    and "\<And>k m. mn - 1 \<le> m \<Longrightarrow> (k, m) \<in> ps \<Longrightarrow> \<not> marked s0 k m claim"
  shows "charged s0 mn claim tokens ps s"
  unfolding charged_def using assms by blast

text \<open>Giving back one charge removes exactly that charge.\<close>

lemma give_back_charge:
  assumes ch: "charged s0 mn claim tokens ps s" and ok: "item_ok tokens mn x" and p: "place_of x \<in> ps"
    and s0: "levels_ok s0" and tk: "0 \<le> tokens" "tokens \<le> 2 ^ 61"
    and adj: "adjust now s (give_back claim x) = (None, s')"
  shows "charged s0 mn claim tokens (ps - {place_of x}) s'"
proof -
  obtain k0 where px: "place_of x = (k0, rs_minute x)" by (simp add: place_of_def)
  note x = item_okD [OF ok, unfolded px fst_conv]
  let ?m = "rs_minute x"
  have a: "aq_scope (give_back claim x) = rs_scope x" "aq_minute (give_back claim x) = ?m"
    "aq_claim (give_back claim x) = claim" "aq_remove (give_back claim x)"
    by (simp_all add: give_back_def)
  have dl: "delta_of (give_back claim x) c = - amount tokens c" for c by (rule delta_give_back [OF ok tk])
  note adj' = adjust_levels [OF adj, unfolded a dl x(1) sum.inject ex_simps simp_thms]
  then have lev: "level s' k m c = (if k = k0 \<and> m = ?m \<and> - amount tokens c \<noteq> 0
        then clampCounter (i64 (level s k0 m c + - amount tokens c)) else level s k m c)"
    and mar: "marked s' k m cl \<longleftrightarrow> marked s k m cl \<and> \<not> (k = k0 \<and> m = ?m \<and> cl = claim)" for k m c cl
    by (simp_all add: a)
  have old: "level s k0 ?m c = level s0 k0 ?m c + amount tokens c" for c
    using chargedD(1) [OF ch x(4), of k0 c] p by (simp add: px)
  show ?thesis
  proof (rule chargedI)
    fix k m c assume m: "mn - 1 \<le> m"
    have "0 \<le> level s0 k m c" "level s0 k m c \<le> 2 ^ 61" using s0 by (auto simp: levels_ok_def)
    then have "clampCounter (i64 (level s0 k m c)) = level s0 k m c"
      by (simp add: clampCounter_def in_i64_def)
    then show "level s' k m c = level s0 k m c + (if (k, m) \<in> ps - {place_of x} then amount tokens c else 0)"
    proof (cases "k = k0 \<and> m = ?m")
      case True
      have "level s' k0 ?m c = level s0 k0 ?m c"
        using lev [of k0 ?m c] old [of c] True \<open>clampCounter (i64 (level s0 k m c)) = level s0 k m c\<close>
        by (cases "amount tokens c = 0") simp_all
      with True px show ?thesis by simp
    next
      case False
      then have "level s' k m c = level s k m c" "(k, m) \<in> ps - {place_of x} \<longleftrightarrow> (k, m) \<in> ps"
        using lev [of k m c] px by auto
      with chargedD(1) [OF ch m, of k c] show ?thesis by simp
    qed
  next
    fix k m cl assume m: "mn - 1 \<le> m"
    have "\<not> marked s0 k0 ?m claim" using chargedD(3) [OF ch x(4), of k0] p by (simp add: px)
    then show "marked s' k m cl \<longleftrightarrow> marked s0 k m cl \<or> cl = claim \<and> (k, m) \<in> ps - {place_of x}"
      using mar [of k m cl] chargedD(2) [OF ch m, of k cl] px by auto
  next
    fix k m assume "mn - 1 \<le> m" "(k, m) \<in> ps - {place_of x}"
    then show "\<not> marked s0 k m claim" using chargedD(3) [OF ch] by simp
  qed
qed

text \<open>An admitted check adds one charge in a place that had none.\<close>

lemma check_charge:
  assumes ch: "charged s0 mn (rq_claim req) (rq_tokens req) ps s" and s0: "levels_ok s0"
    and tk: "0 \<le> rq_tokens req" "rq_tokens req \<le> 2 ^ 61"
    and mn: "mn - 1 \<le> minute_of now" "minute_of now \<le> mn"
    and ck: "check now s (check_request req sl) = (Inr res, s')" and res: "cr_allowed res" "\<not> cr_hit res"
    and k: "encodeScope (sl_scope sl) = Inr k"
  shows "charged s0 mn (rq_claim req) (rq_tokens req) (insert (k, minute_of now) ps) s'"
    and "(k, minute_of now) \<notin> ps"
proof -
  have ek: "encodeScope (cq_scope (check_request req sl)) = Inr k" by (simp add: check_request_def k)
  have nm: "\<not> marked s k (minute_of now) (rq_claim req)"
    using check_hit [OF ck ek] res by (simp add: check_request_def)
  with chargedD(2) [OF ch mn(1), of k "rq_claim req"] show new: "(k, minute_of now) \<notin> ps" by simp
  show "charged s0 mn (rq_claim req) (rq_tokens req) (insert (k, minute_of now) ps) s'"
  proof (rule chargedI)
    fix k' m c assume m: "mn - 1 \<le> m"
    then have m': "minute_of now - 1 \<le> m" using mn by simp
    note lev = check_levels [OF ck res ek m', of k' c]
    have "0 \<le> level s0 k m c" "level s0 k m c \<le> 2 ^ 61" using s0 by (auto simp: levels_ok_def)
    then have "i64 (level s0 k m c + amount (rq_tokens req) c) = level s0 k m c + amount (rq_tokens req) c"
      using amount_bounds [OF tk, of c] by (intro i64_small) auto
    with lev chargedD(1) [OF ch m, of k' c] new tk
    show "level s' k' m c =
        level s0 k' m c + (if (k', m) \<in> insert (k, minute_of now) ps then amount (rq_tokens req) c else 0)"
      by (auto split: if_splits)
  next
    fix k' m cl assume m: "mn - 1 \<le> m"
    then have m': "minute_of now - 1 \<le> m" using mn by simp
    show "marked s' k' m cl \<longleftrightarrow> marked s0 k' m cl \<or> cl = rq_claim req \<and> (k', m) \<in> insert (k, minute_of now) ps"
      using check_levels [OF ck res ek m', of k'] chargedD(2) [OF ch m, of k' cl]
      by (auto simp: check_request_def)
  next
    fix k' m assume "mn - 1 \<le> m" "(k', m) \<in> insert (k, minute_of now) ps"
    then show "\<not> marked s0 k' m (rq_claim req)"
      using chargedD [OF ch] nm by auto
  qed
qed

lemma check_refused_charge:
  assumes ch: "charged s0 mn claim tokens ps s" and mn: "mn - 1 \<le> minute_of now" "minute_of now \<le> mn"
    and ck: "check now s r = (out, s')" and out: "case out of Inl e \<Rightarrow> True | Inr res \<Rightarrow> \<not> cr_allowed res \<or> cr_hit res"
  shows "charged s0 mn claim tokens ps s'"
proof -
  have "level s' k m = level s k m \<and> marked s' k m = marked s k m" if "mn - 1 \<le> m" for k m
  proof (cases out)
    case (Inl e)
    with ck check_error show ?thesis by metis
  next
    case (Inr res)
    with ck check_refused [of now s r res s' m k] out mn that show ?thesis by auto
  qed
  with ch show ?thesis by (simp add: charged_def)
qed

end

text \<open>Giving back all the charges, and the loop over the scopes.\<close>

context reliable_store begin

lemma give_back_total:
  assumes "charged s0 mn claim tokens ps s" "item_ok tokens mn x" "place_of x \<in> ps"
    and "levels_ok s0" "0 \<le> tokens" "tokens \<le> 2 ^ 61"
  obtains s' where "adjust now s (give_back claim x) = (None, s')"
    "charged s0 mn claim tokens (ps - {place_of x}) s'"
proof -
  have "encodeScope (aq_scope (give_back claim x)) = Inr (fst (place_of x))"
    using item_okD(1) [OF assms(2)] by (simp add: give_back_def)
  from adjust_total [OF this, of now s] obtain s' where "adjust now s (give_back claim x) = (None, s')" by blast
  from that [OF this give_back_charge [OF assms this]] show thesis .
qed

lemma refund_all:
  assumes "so_adjust ops = adjust" "charged s0 mn claim tokens (place_of ` set xs) s"
    and "distinct (map place_of xs)" "list_all (item_ok tokens mn) xs"
    and "levels_ok s0" "0 \<le> tokens" "tokens \<le> 2 ^ 61"
  shows "agrees s0 mn (adjust_all ops now (map (give_back claim) xs) s)"
    and "\<exists>s'. adjust_while ops now (map (give_back claim) xs) s = (True, s') \<and> agrees s0 mn s'"
  using assms
proof (induction xs arbitrary: s)
  case Nil
  {
    case 1
    then show ?case by simp
  next
    case 2
    then show ?case by simp
  }
next
  case (Cons x xs)
  have step: "\<exists>s'. adjust now s (give_back claim x) = (None, s') \<and> charged s0 mn claim tokens (place_of ` set xs) s'"
    if "charged s0 mn claim tokens (place_of ` set (x # xs)) s" "distinct (map place_of (x # xs))"
      "list_all (item_ok tokens mn) (x # xs)" "levels_ok s0" "0 \<le> tokens" "tokens \<le> 2 ^ 61" for s
  proof -
    have x: "item_ok tokens mn x" "place_of x \<in> place_of ` set (x # xs)"
      "place_of ` set (x # xs) - {place_of x} = place_of ` set xs" using that by auto
    show ?thesis by (rule give_back_total [OF that(1) x(1,2) that(4-6), of now]) (auto simp only: x(3))
  qed
  {
    case 1
    from step [OF 1(2-7)] Cons.IH(1) [OF 1(1) _ _ _ 1(5-7)] 1 show ?case by auto
  next
    case 2
    from step [OF 2(2-7)] Cons.IH(2) [OF 2(1) _ _ _ 2(5-7)] 2 show ?case by auto
  }
qed

lemma refundApplied_agrees:
  assumes "so_adjust ops = adjust" "charged s0 mn (rq_claim req) (rq_tokens req) (place_of ` set ap) s"
    and "distinct (map place_of ap)" "list_all (item_ok (rq_tokens req) mn) ap"
    and "levels_ok s0" "0 \<le> rq_tokens req" "rq_tokens req \<le> 2 ^ 61"
  shows "agrees s0 mn (refundApplied ops now req ap s)"
  unfolding refundApplied_def
  by (rule refund_all(1) [where tokens = "rq_tokens req"])
    (use assms in \<open>simp_all add: rev_map [symmetric] list_all_rev\<close>)

definition loop_post :: "'a \<Rightarrow> int \<Rightarrow> reserve_request \<Rightarrow> reserved_scope list \<Rightarrow> scope_limit list \<Rightarrow> loop_result \<Rightarrow> 'a \<Rightarrow> bool" where
  "loop_post s0 mn req ap sls out s' \<longleftrightarrow>
     (case out of
        LoopError e \<Rightarrow> agrees s0 mn s' \<and> (\<exists>sl\<in>set sls. isl (encodeScope (sl_scope sl)))
      | LoopDenied d \<Rightarrow> agrees s0 mn s'
      | LoopHit \<Rightarrow> True
      | LoopDone ap' \<Rightarrow>
          charged s0 mn (rq_claim req) (rq_tokens req) (place_of ` set ap') s' \<and> distinct (map place_of ap') \<and>
          list_all (item_ok (rq_tokens req) mn) ap' \<and> map rs_scope ap' = map rs_scope ap @ map sl_scope sls)"

lemma reserve_loop_post:
  assumes ops: "so_check ops = check" "so_adjust ops = adjust" and s0: "levels_ok s0"
    and tk: "0 \<le> rq_tokens req" "rq_tokens req \<le> 2 ^ 61"
    and clk: "\<And>i. mn - 1 \<le> minute_of (clk i) \<and> minute_of (clk i) \<le> mn"
  shows "charged s0 mn (rq_claim req) (rq_tokens req) (place_of ` set ap) s \<Longrightarrow> distinct (map place_of ap) \<Longrightarrow>
     list_all (item_ok (rq_tokens req) mn) ap \<Longrightarrow> reserve_loop ops clk req ap sls s = (out, s') \<Longrightarrow>
     loop_post s0 mn req ap sls out s'"
proof (induction sls arbitrary: ap s)
  case Nil
  then show ?case by (auto simp: loop_post_def)
next
  case (Cons sl sls)
  let ?now = "clk (length ap)"
  obtain r s1 where ck: "check ?now s (check_request req sl) = (r, s1)" by fastforce
  note mn = clk [of "length ap", THEN conjunct1] clk [of "length ap", THEN conjunct2]
  note refused = refundApplied_agrees [OF ops(2) check_refused_charge [OF Cons.prems(1) mn ck] Cons.prems(2,3) s0 tk]
  show ?case
  proof (cases r)
    case (Inl e)
    have "isl (encodeScope (cq_scope (check_request req sl)))"
    proof (cases "encodeScope (cq_scope (check_request req sl))")
      case (Inr k)
      from check_total [OF this, of ?now s] ck Inl show ?thesis by auto
    qed simp
    then have "isl (encodeScope (sl_scope sl))" by (simp add: check_request_def)
    with Inl ck Cons.prems(4) refused show ?thesis by (auto simp: loop_post_def ops)
  next
    case (Inr res)
    obtain k where k: "encodeScope (sl_scope sl) = Inr k"
      using check_encodes [of ?now s "check_request req sl" res s1] ck Inr by (auto simp: check_request_def)
    consider "\<not> cr_allowed res" | "cr_allowed res" "cr_hit res" | "cr_allowed res" "\<not> cr_hit res" by blast
    then show ?thesis
    proof cases
      case 1
      with Inr ck Cons.prems(4) refused show ?thesis by (auto simp: loop_post_def ops)
    next
      case 2
      with Inr ck Cons.prems(4) show ?thesis by (auto simp: loop_post_def ops)
    next
      case 3
      let ?x = "\<lparr> rs_scope = sl_scope sl, rs_minute = minute_of ?now, rs_rpm = 1, rs_tpm = rq_tokens req \<rparr>"
      note ck' = ck [unfolded Inr]
      have "cr_minute res = minute_of ?now"
        using check_admitted [OF ck' 3, of k] k by (simp add: check_request_def)
      then have rec: "reserve_loop ops clk req (ap @ [?x]) sls s1 = (out, s')"
        using Cons.prems(4) ck' 3 by (simp add: ops)
      have px: "place_of ?x = (k, minute_of ?now)" by (simp add: place_of_def k)
      have "item_ok (rq_tokens req) mn ?x" using mn by (simp add: item_ok_def k)
      with check_charge [OF Cons.prems(1) s0 tk mn ck' 3 k] Cons.prems(2,3)
      have "loop_post s0 mn req (ap @ [?x]) sls out s'"
        by (intro Cons.IH [OF _ _ _ rec]) (auto simp: px)
      then show ?thesis by (auto simp: loop_post_def split: loop_result.splits)
    qed
  qed
qed

end

text \<open>The settlement corrects the token counter of every charged place by the same difference.\<close>

context reliable_store begin

lemma settle_all:
  assumes "so_adjust ops = adjust"
  shows "list_all (\<lambda>x. \<not> isl (encodeScope (rs_scope x))) xs \<Longrightarrow> distinct (map place_of xs) \<Longrightarrow>
    \<forall>x \<in> set xs. 0 \<le> level s (fst (place_of x)) (snd (place_of x)) CounterTPM + delta \<and>
       level s (fst (place_of x)) (snd (place_of x)) CounterTPM + delta \<le> 2 ^ 62 \<Longrightarrow>
    \<exists>s'. adjust_while ops now (map (settle_request claim delta) xs) s = (True, s') \<and> marked s' = marked s \<and>
      (\<forall>k m c. level s' k m c = level s k m c + (if c = CounterTPM \<and> (k, m) \<in> place_of ` set xs then delta else 0))"
proof (induction xs arbitrary: s)
  case Nil
  then show ?case by simp
next
  case (Cons x xs)
  obtain k0 where px: "place_of x = (k0, rs_minute x)" and k0: "encodeScope (rs_scope x) = Inr k0"
    using Cons.prems(1) by (cases "encodeScope (rs_scope x)") (auto simp: place_of_def)
  have a: "aq_scope (settle_request claim delta x) = rs_scope x" "\<not> aq_remove (settle_request claim delta x)"
    "aq_minute (settle_request claim delta x) = rs_minute x"
    "delta_of (settle_request claim delta x) c = (if c = CounterTPM then delta else 0)" for c
    by (simp_all add: settle_request_def delta_of_def split: counter.split)
  obtain s1 where s1: "adjust now s (settle_request claim delta x) = (None, s1)"
    using adjust_total [of "settle_request claim delta x" k0 now s] k0 by (auto simp: a)
  note eff = adjust_levels [OF s1, unfolded a k0 sum.inject]
  have mar: "marked s1 = marked s" using eff by (auto simp: fun_eq_iff a)
  have new: "clampCounter (i64 (level s k0 (rs_minute x) CounterTPM + delta)) = level s k0 (rs_minute x) CounterTPM + delta"
    using Cons.prems(3) by (simp add: px clampCounter_def in_i64_def)
  have lev: "level s1 k m c = level s k m c + (if c = CounterTPM \<and> (k, m) = place_of x then delta else 0)" for k m c
    using eff new by (cases "delta = 0") (auto simp: px)
  have "\<exists>s'. adjust_while ops now (map (settle_request claim delta) xs) s1 = (True, s') \<and> marked s' = marked s1 \<and>
      (\<forall>k m c. level s' k m c = level s1 k m c + (if c = CounterTPM \<and> (k, m) \<in> place_of ` set xs then delta else 0))"
    by (rule Cons.IH) (use Cons.prems in \<open>auto simp: lev image_iff\<close>)
  then obtain s' where s': "adjust_while ops now (map (settle_request claim delta) xs) s1 = (True, s')"
    "marked s' = marked s1"
    "\<And>k m c. level s' k m c = level s1 k m c + (if c = CounterTPM \<and> (k, m) \<in> place_of ` set xs then delta else 0)"
    by blast
  have "place_of x \<notin> place_of ` set xs" using Cons.prems(2) by auto
  then have "level s' k m c =
      level s k m c + (if c = CounterTPM \<and> (k, m) \<in> place_of ` set (x # xs) then delta else 0)" for k m c
    using s'(3) [of k m c] lev [of k m c] by auto
  with s'(1,2) s1 mar assms show ?case by simp
qed

end

section \<open>The service over the memory store\<close>

lemma mem_ops_simps [simp]:
  "so_check mem_ops = mem_check" "so_adjust mem_ops = mem_adjust" "so_load mem_ops = Some mem_load"
  "so_save mem_ops = Some mem_save"
  by (simp_all add: mem_ops_def)

lemma mem_adjust_ledger [simp]: "ms_ledger (snd (mem_adjust now s a)) = ms_ledger s"
  by (auto simp: mem_adjust_def Let_def split: sum.splits)

lemma mem_check_ledger [simp]: "ms_ledger (snd (mem_check now s r)) = ms_ledger s"
  by (auto simp: mem_check_def evictStale_def Let_def split: sum.splits)

lemma adjust_while_ledger [simp]: "ms_ledger (snd (adjust_while mem_ops now as s)) = ms_ledger s"
proof (induction as arbitrary: s)
  case Nil
  then show ?case by simp
next
  case (Cons a as)
  obtain out s' where a: "mem_adjust now s a = (out, s')" by fastforce
  then have "ms_ledger s' = ms_ledger s" using mem_adjust_ledger [of now s a] by simp
  with a Cons show ?case by (cases out) auto
qed

definition known :: "(mem_store, 'f) service \<Rightarrow> int \<Rightarrow> int \<Rightarrow> reservation option" where
  "known sv tenant claim =
     (case ms_ledger (sv_store sv) (tenant, claim) of Some r \<Rightarrow> Some r
      | None \<Rightarrow> sv_reservations sv (tenant, claim))"

lemma snapshot_mem [simp]: "snapshot mem_ops now tenant claim sv = (known sv tenant claim, sv)"
  by (cases sv) (simp add: snapshot_def load_ledger_def mem_load_def known_def split: option.split)

lemma mark_mem_levels [simp]:
  "mem_level (sv_store (mark f mem_ops now tenant claim sv)) = mem_level (sv_store sv)"
  "mem_marked (sv_store (mark f mem_ops now tenant claim sv)) = mem_marked (sv_store sv)"
  by (auto simp: mark_def save_ledger_def load_ledger_def mem_save_def mem_load_def mem_level_def counter_at_def
      mem_marked_def fun_eq_iff split: option.split)

lemma remember_mem_levels [simp]:
  "mem_level (sv_store (remember mem_ops now req ap sv)) = mem_level (sv_store sv)"
  "mem_marked (sv_store (remember mem_ops now req ap sv)) = mem_marked (sv_store sv)"
  by (auto simp: remember_def save_ledger_def mem_save_def mem_level_def counter_at_def mem_marked_def fun_eq_iff Let_def)

definition clock_within :: "int \<Rightarrow> (nat \<Rightarrow> instant) \<Rightarrow> bool" where
  "clock_within mn clk \<longleftrightarrow> (\<forall>i. mn - 1 \<le> minute_of (clk i) \<and> minute_of (clk i) \<le> mn)"

definition levels_small :: "mem_store \<Rightarrow> bool" where
  "levels_small s \<longleftrightarrow> (\<forall>k m c. 0 \<le> mem_level s k m c \<and> mem_level s k m c \<le> 2 ^ 61)"

definition same_counters :: "int \<Rightarrow> mem_store \<Rightarrow> mem_store \<Rightarrow> bool" where
  "same_counters mn s s' \<longleftrightarrow>
     (\<forall>k m. mn - 1 \<le> m \<longrightarrow> mem_level s' k m = mem_level s k m \<and> mem_marked s' k m = mem_marked s k m)"

definition clean :: "reserve_request \<Rightarrow> reserve_request" where
  "clean req = req\<lparr> rq_tokens := nonNegative (rq_tokens req) \<rparr>"

lemma clean_simps [simp]:
  "rq_tenant (clean req) = rq_tenant req" "rq_claim (clean req) = rq_claim req"
  "0 \<le> rq_tokens (clean req)" "rq_tokens req \<le> 2 ^ 61 \<Longrightarrow> rq_tokens (clean req) \<le> 2 ^ 61"
  by (simp_all add: clean_def nonNegative_def)

lemma mem_loop_post:
  assumes "levels_small s" "rq_tokens req \<le> 2 ^ 61" "clock_within mn clk"
    and "reserve_loop mem_ops clk (clean req) [] scs s = (out, s')"
  shows "mst.loop_post s mn (clean req) [] scs out s'"
  by (rule mst.reserve_loop_post [OF _ _ _ _ _ _ _ _ _ assms(4)])
    (use assms(1-3) clean_simps(4) [OF assms(2)] in \<open>auto simp: mst.levels_ok_def levels_small_def clock_within_def\<close>)

lemma handleStoreError_denied:
  "handleStoreError ops fops lims clk sv req err = ((res, e), sv') \<Longrightarrow> \<not> rr_allowed res \<Longrightarrow>
     sv_store sv' = sv_store sv \<and> sv_reservations sv' = sv_reservations sv \<and> e \<noteq> None"
  by (auto simp: handleStoreError_def finish_reserve_def fail_open_def allow_result_def deny_result_def
      zero_result_def Let_def
      split: svc_fail_mode.splits option.splits sum.splits loop_result.splits prod.splits)

lemma reserve_mem_unfold:
  "reserve mem_ops fops lims clk sv req =
     (if \<exists>r. known sv (rq_tenant req) (rq_claim req) = Some r \<and> \<not> re_released r
      then ((allow_result True False, None), sv)
      else case lims (clean req) of
             Inl e \<Rightarrow> handleStoreError mem_ops fops lims clk sv (clean req) e
           | Inr scs \<Rightarrow>
               if scs = [] then ((allow_result False False, None), sv)
               else case reserve_loop mem_ops clk (clean req) [] scs (sv_store sv) of
                      (out, st) \<Rightarrow>
                        if (case out of LoopError e \<Rightarrow> \<not> isDenied (Some e) | _ \<Rightarrow> False)
                        then handleStoreError mem_ops fops lims clk (sv\<lparr> sv_store := st \<rparr>) (clean req)
                               (case out of LoopError e \<Rightarrow> e | _ \<Rightarrow> undefined)
                        else finish_reserve mem_ops (clk 0) (clean req) out (sv\<lparr> sv_store := st \<rparr>))"
  by (simp add: reserve_def clean_def [symmetric] Let_def split: option.split sum.split prod.split loop_result.split)

lemma known_cong:
  "ms_ledger (sv_store sv') = ms_ledger (sv_store sv) \<Longrightarrow> sv_reservations sv' = sv_reservations sv \<Longrightarrow>
     known sv' = known sv"
  by (intro ext) (simp add: known_def split: option.split)

definition recorded :: "(mem_store, 'f) service \<Rightarrow> int \<Rightarrow> int \<Rightarrow> reservation \<Rightarrow> bool" where
  "recorded sv tenant claim r \<longleftrightarrow>
     ms_ledger (sv_store sv) (tenant, claim) = Some r \<and> sv_reservations sv (tenant, claim) = Some r"

definition new_reservation :: "reserve_request \<Rightarrow> reserved_scope list \<Rightarrow> reservation" where
  "new_reservation req ap = \<lparr> re_tenant = rq_tenant req, re_claim = rq_claim req, re_tokens = rq_tokens req,
     re_released = False, re_settled = False, re_scopes = ap \<rparr>"

lemma recorded_known: "recorded sv tenant claim r \<Longrightarrow> known sv tenant claim = Some r"
  by (simp add: recorded_def known_def)

lemma recorded_mark:
  "recorded sv tenant claim r \<Longrightarrow> re_tenant (f r) = tenant \<Longrightarrow> re_claim (f r) = claim \<Longrightarrow>
     recorded (mark f mem_ops now tenant claim sv) tenant claim (f r)"
  by (simp add: recorded_def mark_def save_ledger_def mem_save_def)

lemma recorded_remember:
  "ap \<noteq> [] \<Longrightarrow>
     recorded (remember mem_ops now req ap sv) (rq_tenant req) (rq_claim req) (new_reservation req ap)"
  by (simp add: recorded_def remember_def save_ledger_def mem_save_def new_reservation_def Let_def)

text \<open>What a granted reservation that was neither a repetition nor a fail-open leaves behind.\<close>

lemma reserve_granted:
  assumes small: "levels_small (sv_store sv)" "rq_tokens req \<le> 2 ^ 61" "clock_within mn clk"
    and scs: "lims (clean req) = Inr scs" "list_all (\<lambda>sl. \<not> isl (encodeScope (sl_scope sl))) scs"
    and res: "reserve mem_ops fops lims clk sv req = ((res, e), sv')" "rr_allowed res" "\<not> rr_hit res"
  obtains (none) "scs = []" "sv' = sv"
      "\<forall>r. known sv (rq_tenant req) (rq_claim req) = Some r \<longrightarrow> re_released r"
  | (charged) ap where "ap \<noteq> []" "map rs_scope ap = map sl_scope scs" "distinct (map place_of ap)"
      "list_all (item_ok (rq_tokens (clean req)) mn) ap"
      "mst.charged (sv_store sv) mn (rq_claim req) (rq_tokens (clean req)) (place_of ` set ap) (sv_store sv')"
      "recorded sv' (rq_tenant req) (rq_claim req) (new_reservation (clean req) ap)"
      "e = None" "\<not> rr_failOpen res"
proof -
  have fresh: "\<not> (\<exists>r. known sv (rq_tenant req) (rq_claim req) = Some r \<and> \<not> re_released r)"
    using res by (auto simp: reserve_mem_unfold allow_result_def split: if_splits)
  show thesis
  proof (cases "scs = []")
    case True
    with res fresh scs show thesis by (intro none) (auto simp: reserve_mem_unfold)
  next
    case False
    obtain out st where loop: "reserve_loop mem_ops clk (clean req) [] scs (sv_store sv) = (out, st)" by fastforce
    note post = mem_loop_post [OF small loop]
    show thesis
    proof (cases out)
      case (LoopDone ap)
      with post have ap: "mst.charged (sv_store sv) mn (rq_claim req) (rq_tokens (clean req)) (place_of ` set ap) st"
        "distinct (map place_of ap)" "list_all (item_ok (rq_tokens (clean req)) mn) ap"
        "map rs_scope ap = map sl_scope scs" by (auto simp: mst.loop_post_def)
      with False have ne: "ap \<noteq> []" by auto
      have sv': "sv' = remember mem_ops (clk 0) (clean req) ap (sv\<lparr> sv_store := st \<rparr>)"
        and e: "e = None" "\<not> rr_failOpen res"
        using res(1) fresh scs(1) False loop LoopDone
        by (auto simp: reserve_mem_unfold finish_reserve_def allow_result_def)
      have "mst.charged (sv_store sv) mn (rq_claim req) (rq_tokens (clean req)) (place_of ` set ap) (sv_store sv')"
        using ap(1) unfolding mst.charged_def by (simp add: sv')
      moreover have "recorded sv' (rq_tenant req) (rq_claim req) (new_reservation (clean req) ap)"
        using recorded_remember [OF ne, of "clk 0" "clean req"] by (simp add: sv')
      ultimately show thesis by (rule charged [OF ne ap(4,2,3) _ _ e])
    next
      case (LoopError err)
      with post scs(2) show thesis by (auto simp: mst.loop_post_def list_all_iff)
    qed (use res fresh scs(1) False loop in
        \<open>auto simp: reserve_mem_unfold finish_reserve_def allow_result_def deny_result_def\<close>)
  qed
qed

text \<open>Settling and releasing what \<open>reserve_granted\<close> describes.\<close>

lemma adjust_while_keeps_known:
  "adjust_while mem_ops now as (sv_store sv) = (ok, st) \<Longrightarrow>
     recorded (sv\<lparr> sv_store := st \<rparr>) tenant claim r \<longleftrightarrow> recorded sv tenant claim r"
  using adjust_while_ledger [of now as "sv_store sv"] by (simp add: recorded_def)

lemma release_charged:
  assumes "ap \<noteq> []" "distinct (map place_of ap)" "list_all (item_ok tokens mn) ap"
    and "mst.charged s0 mn claim tokens (place_of ` set ap) (sv_store sv)" "levels_small s0"
    and "0 \<le> tokens" "tokens \<le> 2 ^ 61" "recorded sv tenant claim r" "\<not> re_released r" "re_scopes r = ap"
  shows "same_counters mn s0 (sv_store (release mem_ops now tenant claim sv))"
proof -
  have "mst.levels_ok s0" using assms(5) by (simp add: mst.levels_ok_def levels_small_def)
  from mst.refund_all(2) [OF _ assms(4,2,3) this assms(6,7), of mem_ops now]
  obtain st where "adjust_while mem_ops now (map (give_back claim) ap) (sv_store sv) = (True, st)"
    "mst.agrees s0 mn st" by auto
  with recorded_known [OF assms(8)] assms(9,10) show ?thesis
    by (simp add: release_def markReleased_def mst.agrees_def same_counters_def)
qed

lemma settle_charged:
  fixes now
  assumes "distinct (map place_of ap)" "list_all (item_ok tokens mn) ap"
    and ch: "mst.charged s0 mn claim tokens (place_of ` set ap) (sv_store sv)" and s0: "levels_small s0"
    and tk: "0 \<le> tokens" "tokens \<le> 2 ^ 61" "actual \<le> 2 ^ 61" and rec: "recorded sv tenant claim r"
    and r: "re_tenant r = tenant" "re_claim r = claim" "re_tokens r = tokens" "\<not> re_released r"
      "\<not> re_settled r" "re_scopes r = ap"
  defines "sv' \<equiv> settle mem_ops now tenant claim actual sv"
  shows "mem_level (sv_store sv') k m c = mem_level (sv_store sv) k m c +
             (if c = CounterTPM \<and> (k, m) \<in> place_of ` set ap then nonNegative actual - tokens else 0)"
    and "recorded sv' tenant claim (r\<lparr> re_tokens := nonNegative actual, re_settled := True \<rparr>)"
proof -
  let ?d = "nonNegative actual - tokens"
  let ?items = "filter (\<lambda>x. \<not> (rs_tpm x = 0 \<and> ?d = 0)) ap"
  have d: "i64 ?d = ?d" using tk by (intro i64_id) (simp add: in_i64_def nonNegative_def)
  have items: "?items = (if tokens = 0 \<and> ?d = 0 then [] else ap)"
    using assms(2) by (auto simp: list_all_iff item_ok_def intro!: filter_False filter_True)
  have "\<exists>st. adjust_while mem_ops now (map (settle_request claim ?d) ?items) (sv_store sv) = (True, st) \<and>
      mem_marked st = mem_marked (sv_store sv) \<and>
      (\<forall>k m c. mem_level st k m c = mem_level (sv_store sv) k m c +
         (if c = CounterTPM \<and> (k, m) \<in> place_of ` set ?items then ?d else 0))"
  proof (rule mst.settle_all)
    show "\<forall>x\<in>set ?items. 0 \<le> mem_level (sv_store sv) (fst (place_of x)) (snd (place_of x)) CounterTPM + ?d \<and>
        mem_level (sv_store sv) (fst (place_of x)) (snd (place_of x)) CounterTPM + ?d \<le> 2 ^ 62"
    proof (intro ballI)
      fix x assume "x \<in> set ?items"
      then have x: "x \<in> set ap" by simp
      then have m: "mn - 1 \<le> snd (place_of x)" using assms(2) item_okD(3) by (auto simp: list_all_iff)
      have "mem_level (sv_store sv) (fst (place_of x)) (snd (place_of x)) CounterTPM
          = mem_level s0 (fst (place_of x)) (snd (place_of x)) CounterTPM + tokens"
        using mst.chargedD(1) [OF ch m, of "fst (place_of x)" CounterTPM] x by (simp add: amount_def)
      moreover have "0 \<le> mem_level s0 (fst (place_of x)) (snd (place_of x)) CounterTPM"
        "mem_level s0 (fst (place_of x)) (snd (place_of x)) CounterTPM \<le> 2 ^ 61"
        using s0 by (auto simp: levels_small_def)
      ultimately show "0 \<le> mem_level (sv_store sv) (fst (place_of x)) (snd (place_of x)) CounterTPM + ?d \<and>
        mem_level (sv_store sv) (fst (place_of x)) (snd (place_of x)) CounterTPM + ?d \<le> 2 ^ 62"
        using tk by (simp add: nonNegative_def)
    qed
  qed (use assms(1,2) in \<open>auto simp: list_all_iff item_ok_def distinct_map_filter\<close>)
  then obtain st where st: "adjust_while mem_ops now (map (settle_request claim ?d) ?items) (sv_store sv) = (True, st)"
    "\<And>k m c. mem_level st k m c = mem_level (sv_store sv) k m c +
         (if c = CounterTPM \<and> (k, m) \<in> place_of ` set ?items then ?d else 0)" by blast
  have sv': "sv' = markSettled mem_ops now tenant claim (nonNegative actual) (sv\<lparr> sv_store := st \<rparr>)"
    using recorded_known [OF rec] r st(1) by (simp add: sv'_def settle_def Let_def d)
  show "mem_level (sv_store sv') k m c = mem_level (sv_store sv) k m c +
      (if c = CounterTPM \<and> (k, m) \<in> place_of ` set ap then ?d else 0)"
    using st(2) [of k m c, unfolded items] by (auto simp: sv' markSettled_def split: if_splits)
  show "recorded sv' tenant claim (r\<lparr> re_tokens := nonNegative actual, re_settled := True \<rparr>)"
    using rec adjust_while_keeps_known [OF st(1)] r unfolding sv' markSettled_def
    by (intro recorded_mark) auto
qed

section \<open>An example\<close>

definition example_service :: "(mem_store, mem_store) service" where
  "example_service = newService newMemoryStore None None"

definition limit_tokens :: "int \<Rightarrow> limits_provider" where
  "limit_tokens n req = Inr [\<lparr> sl_scope = user_12, sl_limits = \<lparr> lim_rpm = 0, lim_tpm = n \<rparr> \<rparr>]"

lemmas example_simps =
  reserve_mem_unfold example_service_def newService_def limit_tokens_def known_def newMemoryStore_def clean_def
  example_request_def check_request_def mem_check_def example_encode evictStale_def minute_of_def go_quot_def
  counter_at_def normalized_def normalizeLimit_def maxInt32_def nonNegative_def i64_small Let_def
  finish_reserve_def deny_result_def allow_result_def refundApplied_def

lemma example_ok:
  "levels_small (sv_store example_service)" "rq_tokens example_request \<le> 2 ^ 61" "clock_within 0 (\<lambda>i. 0)"
  "limit_tokens n (clean example_request) = Inr [\<lparr> sl_scope = user_12, sl_limits = \<lparr> lim_rpm = 0, lim_tpm = n \<rparr> \<rparr>]"
  "list_all (\<lambda>sl. \<not> isl (encodeScope (sl_scope sl))) [\<lparr> sl_scope = user_12, sl_limits = \<lparr> lim_rpm = 0, lim_tpm = n \<rparr> \<rparr>]"
  by (simp_all add: levels_small_def mem_level_def counter_at_def clock_within_def minute_of_def go_quot_def
      example_service_def newService_def newMemoryStore_def example_request_def limit_tokens_def example_encode)

lemma example_reserve:
  "\<exists>res e sv'. reserve mem_ops mem_ops (limit_tokens 5) (\<lambda>i. 0) example_service example_request = ((res, e), sv')
     \<and> \<not> rr_allowed res"
  "\<exists>res e sv'. reserve mem_ops mem_ops (limit_tokens 60) (\<lambda>i. 0) example_service example_request = ((res, e), sv')
     \<and> rr_allowed res \<and> \<not> rr_hit res \<and> mem_level (sv_store sv') ''u:7:12'' 0 CounterRPM = 1
     \<and> mem_level (sv_store sv') ''u:7:12'' 0 CounterTPM = 10"
  by (simp_all add: example_simps) (simp add: mem_level_def counter_at_def remember_def save_ledger_def mem_save_def)

section \<open>Properties\<close>

text \<open>
  C22. All or nothing: a reservation that is not granted charges nothing. Whichever scope refuses
  it, whatever the fail mode and the fallback store do, every counter and every claim mark of the
  current and the previous minute is as before, no reservation is recorded, and the caller gets an
  error.
\<close>

theorem denied_reserve_charges_nothing:
  assumes "levels_small (sv_store sv)" and "rq_tokens req \<le> 2 ^ 61" and "clock_within mn clk"
    and "reserve mem_ops fops lims clk sv req = ((res, e), sv')" and "\<not> rr_allowed res"
  shows "same_counters mn (sv_store sv) (sv_store sv') \<and> sv_reservations sv' = sv_reservations sv \<and> e \<noteq> None"
proof -
  have fresh: "\<not> (\<exists>r. known sv (rq_tenant req) (rq_claim req) = Some r \<and> \<not> re_released r)"
    using assms(4,5) by (auto simp: reserve_mem_unfold allow_result_def split: if_splits)
  have refl: "same_counters mn s s" for s by (simp add: same_counters_def)
  show ?thesis
  proof (cases "lims (clean req)")
    case (Inl err)
    with assms(4) fresh have "handleStoreError mem_ops fops lims clk sv (clean req) err = ((res, e), sv')"
      by (auto simp: reserve_mem_unfold)
    from handleStoreError_denied [OF this assms(5)] refl show ?thesis by simp
  next
    case (Inr scs)
    with assms(4,5) fresh have ne: "scs \<noteq> []" by (auto simp: reserve_mem_unfold allow_result_def)
    obtain out st where loop: "reserve_loop mem_ops clk (clean req) [] scs (sv_store sv) = (out, st)" by fastforce
    note post = mem_loop_post [OF assms(1-3) loop]
    have restored: "same_counters mn (sv_store sv) st" if "mst.agrees (sv_store sv) mn st"
      using that by (simp add: mst.agrees_def same_counters_def)
    show ?thesis
    proof (cases out)
      case (LoopError err)
      with post have st: "same_counters mn (sv_store sv) st" by (intro restored) (simp add: mst.loop_post_def)
      show ?thesis
      proof (cases "isDenied (Some err)")
        case True
        with assms(4) fresh Inr ne loop LoopError st show ?thesis
          by (auto simp: reserve_mem_unfold finish_reserve_def zero_result_def)
      next
        case False
        with assms(4) fresh Inr ne loop LoopError
        have "handleStoreError mem_ops fops lims clk (sv\<lparr> sv_store := st \<rparr>) (clean req) err = ((res, e), sv')"
          by (auto simp: reserve_mem_unfold)
        from handleStoreError_denied [OF this assms(5)] st show ?thesis by simp
      qed
    next
      case (LoopDenied d)
      with post have "same_counters mn (sv_store sv) st" by (intro restored) (simp add: mst.loop_post_def)
      with assms(4) fresh Inr ne loop LoopDenied show ?thesis
        by (auto simp: reserve_mem_unfold finish_reserve_def)
    qed (use assms(4,5) fresh Inr ne loop in \<open>auto simp: reserve_mem_unfold finish_reserve_def allow_result_def\<close>)
  qed
qed

theorem denied_reserve_charges_nothing_witness:
  "\<exists>res e sv'. reserve mem_ops mem_ops (limit_tokens 5) (\<lambda>i. 0) example_service example_request = ((res, e), sv')
     \<and> \<not> rr_allowed res \<and> same_counters 0 (sv_store example_service) (sv_store sv') \<and> e \<noteq> None"
  using example_reserve(1) denied_reserve_charges_nothing [OF example_ok(1-3)] by blast

text \<open>
  C27. Releasing a reservation undoes it: reserve, then release at any later time, and every
  counter and claim mark of the minutes the reservation can touch is as before it.
\<close>

theorem release_undoes_reserve:
  assumes "levels_small (sv_store sv)" and "rq_tokens req \<le> 2 ^ 61" and "clock_within mn clk"
    and "lims (clean req) = Inr scs" and "list_all (\<lambda>sl. \<not> isl (encodeScope (sl_scope sl))) scs"
    and "reserve mem_ops fops lims clk sv req = ((res, e), sv')" and "rr_allowed res" and "\<not> rr_hit res"
  shows "same_counters mn (sv_store sv) (sv_store (release mem_ops now (rq_tenant req) (rq_claim req) sv'))"
proof (cases rule: reserve_granted [OF assms, case_names none charged])
  case none
  then show ?thesis
    by (cases "known sv (rq_tenant req) (rq_claim req)") (simp_all add: release_def same_counters_def)
next
  case (charged ap)
  show ?thesis
    by (rule release_charged [OF charged(1,3-5) assms(1) _ _ charged(6)])
      (use clean_simps(4) [OF assms(2)] in \<open>simp_all add: new_reservation_def\<close>)
qed

theorem release_undoes_reserve_witness:
  "\<exists>res e sv'. reserve mem_ops mem_ops (limit_tokens 60) (\<lambda>i. 0) example_service example_request = ((res, e), sv')
     \<and> mem_level (sv_store sv') ''u:7:12'' 0 CounterTPM = 10
     \<and> same_counters 0 (sv_store example_service) (sv_store (release mem_ops 5 7 1 sv'))"
  using example_reserve(2) release_undoes_reserve
      [where lims = "limit_tokens 60" and req = example_request and fops = mem_ops and now = 5, OF example_ok(1-5)]
  by (fastforce simp: example_request_def)

text \<open>
  C25. Settling makes the counters tell the truth: after a reservation is settled, the token
  counter of every place the reservation counted a request in stands at what it was before plus
  the tokens really used, no other counter has moved, and settling again changes nothing.
\<close>

theorem settle_counts_actual_tokens:
  fixes sv' and actual now
  assumes "levels_small (sv_store sv)" and "rq_tokens req \<le> 2 ^ 61" and "clock_within mn clk"
    and "lims (clean req) = Inr scs" and "list_all (\<lambda>sl. \<not> isl (encodeScope (sl_scope sl))) scs"
    and "reserve mem_ops fops lims clk sv req = ((res, e), sv')" and "rr_allowed res" and "\<not> rr_hit res"
    and "actual \<le> 2 ^ 61" and "mn - 1 \<le> m"
  defines "sv2 \<equiv> settle mem_ops now (rq_tenant req) (rq_claim req) actual sv'"
  shows "mem_level (sv_store sv2) k m CounterRPM = mem_level (sv_store sv') k m CounterRPM
    \<and> mem_level (sv_store sv2) k m CounterTPM = mem_level (sv_store sv) k m CounterTPM
        + nonNegative actual * (mem_level (sv_store sv') k m CounterRPM - mem_level (sv_store sv) k m CounterRPM)
    \<and> settle mem_ops later (rq_tenant req) (rq_claim req) actual sv2 = sv2"
proof (cases rule: reserve_granted [OF assms(1-8), case_names none charged])
  case none
  then show ?thesis
    by (cases "known sv (rq_tenant req) (rq_claim req)") (simp_all add: sv2_def settle_def)
next
  case (charged ap)
  note settled = settle_charged [OF charged(3-5) assms(1) _ clean_simps(4) [OF assms(2)] assms(9) charged(6),
      of now, folded sv2_def, simplified new_reservation_def, simplified]
  have "settle mem_ops later (rq_tenant req) (rq_claim req) actual sv2 = sv2"
    using recorded_known [OF settled(2)] by (simp add: settle_def i64_def)
  with settled(1) [of k m CounterRPM] settled(1) [of k m CounterTPM]
    mst.chargedD(1) [OF charged(5) assms(10), of k CounterRPM] mst.chargedD(1) [OF charged(5) assms(10), of k CounterTPM]
  show ?thesis by (simp add: amount_def)
qed

theorem settle_counts_actual_tokens_witness:
  "\<exists>sv' :: (mem_store, mem_store) service. mem_level (sv_store sv') ''u:7:12'' 0 CounterTPM = 10
     \<and> mem_level (sv_store (settle mem_ops 5 7 1 25 sv')) ''u:7:12'' 0 CounterTPM = 25"
proof -
  obtain res e sv' where r: "reserve mem_ops mem_ops (limit_tokens 60) (\<lambda>i. 0) example_service example_request
      = ((res, e), sv')" "rr_allowed res" "\<not> rr_hit res"
    and l: "mem_level (sv_store sv') ''u:7:12'' 0 CounterRPM = 1" "mem_level (sv_store sv') ''u:7:12'' 0 CounterTPM = 10"
    using example_reserve(2) by blast
  have "mem_level (sv_store example_service) ''u:7:12'' 0 c = 0" for c
    by (simp add: example_service_def newService_def newMemoryStore_def mem_level_def counter_at_def)
  with settle_counts_actual_tokens [where lims = "limit_tokens 60" and req = example_request, OF example_ok(1-5) r, where actual = 25 and m = 0 and k = "''u:7:12''" and now = 5] l
  have "mem_level (sv_store (settle mem_ops 5 7 1 25 sv')) ''u:7:12'' 0 CounterTPM = 25"
    by (simp add: example_request_def nonNegative_def)
  with l show ?thesis by blast
qed

text \<open>
  A retry is not charged twice: once a reservation is granted and recorded, reserving again
  for the same tenant and claim, with any tokens, limits and clock, is an idempotent hit that
  leaves the service unchanged.
\<close>

theorem reserve_retry_is_free:
  assumes "levels_small (sv_store sv)" and "rq_tokens req \<le> 2 ^ 61" and "clock_within mn clk"
    and "lims (clean req) = Inr scs" and "list_all (\<lambda>sl. \<not> isl (encodeScope (sl_scope sl))) scs" and "scs \<noteq> []"
    and "reserve mem_ops fops lims clk sv req = ((res, e), sv')" and "rr_allowed res" and "\<not> rr_hit res"
    and "rq_tenant req' = rq_tenant req" and "rq_claim req' = rq_claim req"
  shows "reserve mem_ops fops' lims' clk' sv' req' = ((allow_result True False, None), sv')"
proof (cases rule: reserve_granted [OF assms(1-5,7-9), case_names none charged])
  case none
  with assms(6) show ?thesis by simp
next
  case (charged ap)
  from recorded_known [OF charged(6)] assms(10,11) show ?thesis
    by (simp add: reserve_mem_unfold new_reservation_def)
qed

theorem reserve_retry_is_free_witness:
  "\<exists>res e sv'. reserve mem_ops mem_ops (limit_tokens 60) (\<lambda>i. 0) example_service example_request = ((res, e), sv')
     \<and> reserve mem_ops mem_ops (limit_tokens 5) (\<lambda>i. 9) sv' (example_request\<lparr> rq_tokens := 7 \<rparr>)
         = ((allow_result True False, None), sv')"
  using example_reserve(2)
    reserve_retry_is_free
      [where lims = "limit_tokens 60" and req = example_request and req' = "example_request\<lparr> rq_tokens := 7 \<rparr>"
         and fops = mem_ops, OF example_ok(1-5)]
  by fastforce

definition guarded_ops :: "(breaker option \<times> mem_store) store_ops" where
  "guarded_ops = breaker_ops mem_ops"

definition before_outage :: "(breaker option \<times> mem_store, mem_store) service" where
  "before_outage = snd (reserve guarded_ops mem_ops (limit_tokens 60) (\<lambda>i. 0)
     (newService (Some (newBreaker \<lparr> failureThreshold = 3, openCooldown = 1000, halfOpenMaxProbes = 9,
                                     halfOpenSuccessesToClose = 1 \<rparr>), newMemoryStore)
        (Some newMemoryStore) (Some FailModeMemoryFallback))
     example_request)"

definition during_outage :: "(breaker option \<times> mem_store, mem_store) service" where
  "during_outage = snd (reserve guarded_ops mem_ops (limit_tokens 60) (\<lambda>i. 0)
     (before_outage\<lparr> sv_store := (forceOpen (fst (sv_store before_outage)) breakerKey 0, snd (sv_store before_outage)) \<rparr>)
     (example_request\<lparr> rq_claim := 2 \<rparr>))"

lemmas outage_simps =
  example_request_def check_request_def mem_check_def example_encode evictStale_def minute_of_def go_quot_def
  counter_at_def normalized_def normalizeLimit_def maxInt32_def nonNegative_def i64_small
  finish_reserve_def allow_result_def remember_def save_ledger_def mem_save_def mem_load_def load_ledger_def
  snapshot_def guarded_ops_def breaker_ops_def bs_check_def bs_adjust_def bs_load_def bs_save_def
  reserve_def handleStoreError_def limit_tokens_def newMemoryStore_def newService_def
  newBreaker_def normalizeConfig_def allow_def allow_entry_def recordSuccess_def success_entry_def
  recordFailure_def failure_entry_def forceOpen_def getOrCreate_def openLocked_def new_entry_def
  openDecision_def closed_decision_def breakerKey_def refundApplied_def give_back_def release_def
  mem_adjust_def clampCounter_def second_def markReleased_def mark_def enterHalfOpen_def allowHalfOpenProbe_def
  closeLocked_def Let_def

definition outage_claim :: "int \<Rightarrow> reservation" where
  "outage_claim c = \<lparr> re_tenant = 7, re_claim = c, re_tokens = 10, re_released = False, re_settled = False,
     re_scopes = [\<lparr> rs_scope = user_12, rs_minute = 0, rs_rpm = 1, rs_tpm = 10 \<rparr>] \<rparr>"

definition outage_store :: "int \<Rightarrow> mem_store" where
  "outage_store c = \<lparr> ms_counters = [(''u:7:12'', 0, CounterRPM) \<mapsto> 1, (''u:7:12'', 0, CounterTPM) \<mapsto> 10],
     ms_claims = {(''u:7:12'', 0, c)}, ms_ledger = Map.empty, ms_lastSweep = 0 \<rparr>"

lemma before_outage_value:
  "before_outage = \<lparr> sv_store = (Some (newBreaker \<lparr> failureThreshold = 3, openCooldown = 1000, halfOpenMaxProbes = 9,
        halfOpenSuccessesToClose = 1 \<rparr>), (outage_store 1)\<lparr> ms_ledger := [(7, 1) \<mapsto> outage_claim 1] \<rparr>),
     sv_fallback = Some newMemoryStore, sv_failMode = FailModeMemoryFallback,
     sv_reservations = [(7, 1) \<mapsto> outage_claim 1], sv_failOpen = 0 \<rparr>"
  by (simp add: before_outage_def outage_simps outage_claim_def outage_store_def)

lemma during_outage_value:
  "during_outage = \<lparr> sv_store = (Some \<lparr> cfg = \<lparr> failureThreshold = 3, openCooldown = 1000, halfOpenMaxProbes = 9,
        halfOpenSuccessesToClose = 1 \<rparr>, entries = [breakerKey \<mapsto> new_entry\<lparr> state := Open, openUntil := 1000 \<rparr>] \<rparr>,
        (outage_store 1)\<lparr> ms_ledger := [(7, 1) \<mapsto> outage_claim 1] \<rparr>),
     sv_fallback = Some (outage_store 2), sv_failMode = FailModeMemoryFallback,
     sv_reservations = [(7, 1) \<mapsto> outage_claim 1, (7, 2) \<mapsto> outage_claim 2], sv_failOpen = 0 \<rparr>"
  by (simp add: during_outage_def before_outage_value outage_simps outage_claim_def outage_store_def)


end
