(* ===== verification/Retry_Budget.thy ===== *)
theory Retry_Budget
  imports Prelude
begin

text \<open>
  The tenant-wide retry budget (backend/internal/retrybudget/budget.go): at most \<open>limit\<close> retries per
  tenant in a sliding window. The mutex makes each call atomic; the reading of the clock is the
  argument \<open>now\<close>; a nil budget is \<open>None\<close>.
\<close>

record retry_budget =
  rb_limit :: int
  rb_window :: duration
  rb_events :: "int \<Rightarrow> instant list"

definition newBudget :: "int \<Rightarrow> duration \<Rightarrow> retry_budget" where
  "newBudget limit window =
     \<lparr> rb_limit = limit, rb_window = (if window \<le> 0 then minute else window), rb_events = (\<lambda>_. []) \<rparr>"

definition allow_retry :: "instant \<Rightarrow> int \<Rightarrow> retry_budget option \<Rightarrow> bool \<times> retry_budget option" where
  "allow_retry now tenant bo =
     (case bo of
        None \<Rightarrow> (True, None)
      | Some b \<Rightarrow>
          if rb_limit b \<le> 0 then (True, Some b)
          else (let kept = filter (\<lambda>ts. now - rb_window b < ts) (rb_events b tenant)
                in if rb_limit b \<le> int (length kept)
                   then (False, Some (b\<lparr> rb_events := (rb_events b)(tenant := kept) \<rparr>))
                   else (True, Some (b\<lparr> rb_events := (rb_events b)(tenant := kept @ [now]) \<rparr>))))"

section \<open>Runs\<close>

type_synonym retry_call = "instant \<times> int"

fun retry_step :: "retry_budget option \<Rightarrow> retry_call \<Rightarrow> retry_budget option" where
  "retry_step b (now, tenant) = snd (allow_retry now tenant b)"

text \<open>What one tenant sees: the configuration and its own events.\<close>

definition retry_view :: "retry_budget option \<Rightarrow> int \<Rightarrow> (int \<times> duration \<times> instant list) option" where
  "retry_view bo tenant = map_option (\<lambda>b. (rb_limit b, rb_window b, rb_events b tenant)) bo"

fun retry_local :: "(int \<times> duration \<times> instant list) option \<Rightarrow> retry_call \<Rightarrow> (int \<times> duration \<times> instant list) option" where
  "retry_local None call = None"
| "retry_local (Some (limit, window, ts)) (now, tenant) =
     (if limit \<le> 0 then Some (limit, window, ts)
      else (let kept = filter (\<lambda>t. now - window < t) ts
            in Some (limit, window, if limit \<le> int (length kept) then kept else kept @ [now])))"

interpretation rtb: keyed_component retry_step snd retry_view retry_local
proof
  fix bo and c :: retry_call
  show "retry_view (retry_step bo c) (snd c) = retry_local (retry_view bo (snd c)) c"
    by (cases c; cases bo) (auto simp: allow_retry_def retry_view_def Let_def)
next
  fix tenant bo and c :: retry_call
  assume "tenant \<noteq> snd c"
  then show "retry_view (retry_step bo c) tenant = retry_view bo tenant"
    by (cases c; cases bo) (auto simp: allow_retry_def retry_view_def Let_def)
qed

text \<open>The instants at which a run of calls of one tenant was granted.\<close>

fun grants :: "retry_budget option \<Rightarrow> int \<Rightarrow> instant list \<Rightarrow> instant list" where
  "grants b tenant [] = []"
| "grants b tenant (t # ts) =
     (let (ok, b) = allow_retry t tenant b in (if ok then [t] else []) @ grants b tenant ts)"

text \<open>
  With a clock that does not go back, the events kept are the grants of the last window, so any
  window of grants ends in a state that holds all of them.
\<close>

definition window_count :: "instant \<Rightarrow> duration \<Rightarrow> instant list \<Rightarrow> nat" where
  "window_count t w ts = length (filter (\<lambda>x. t - w < x \<and> x \<le> t) ts)"

lemma length_filter_mono:
  "(\<And>x. x \<in> set xs \<Longrightarrow> P x \<Longrightarrow> Q x) \<Longrightarrow> length (filter P xs) \<le> length (filter Q xs)"
  by (induction xs) (auto simp: le_SucI)

lemma grants_window:
  assumes "0 < rb_limit b" "0 < rb_window b" "sorted (es @ ts)"
    and "rb_events b tenant = filter (\<lambda>x. last_now - rb_window b < x) es"
    and "\<forall>x \<in> set ts. last_now \<le> x" "\<forall>t. int (window_count t (rb_window b) es) \<le> rb_limit b"
  shows "int (window_count s (rb_window b) (es @ grants (Some b) tenant ts)) \<le> rb_limit b"
  using assms
proof (induction ts arbitrary: b es last_now)
  case Nil
  then show ?case by simp
next
  case (Cons now ts)
  let ?w = "rb_window b"
  let ?kept = "filter (\<lambda>x. now - ?w < x) (rb_events b tenant)"
  have kept: "?kept = filter (\<lambda>x. now - ?w < x) es"
    using Cons.prems(4,5) by (simp add: filter_filter) (rule filter_cong, auto)
  show ?case
  proof (cases "rb_limit b \<le> int (length ?kept)")
    case True
    let ?b = "b\<lparr> rb_events := (rb_events b)(tenant := ?kept) \<rparr>"
    have "int (window_count s (rb_window ?b) (es @ grants (Some ?b) tenant ts)) \<le> rb_limit ?b"
      by (rule Cons.IH [where last_now = now]) (use Cons.prems kept in \<open>auto simp: sorted_append\<close>)
    with True Cons.prems(1) show ?thesis by (simp add: allow_retry_def)
  next
    case False
    let ?b = "b\<lparr> rb_events := (rb_events b)(tenant := ?kept @ [now]) \<rparr>"
    have bound: "int (window_count t ?w (es @ [now])) \<le> rb_limit b" for t
    proof (cases "t - ?w < now \<and> now \<le> t")
      case True
      then have "window_count t ?w es \<le> length ?kept"
        unfolding window_count_def kept by (intro length_filter_mono) auto
      with False show ?thesis by (simp add: window_count_def)
    next
      case False
      then have "window_count t ?w (es @ [now]) = window_count t ?w es" by (auto simp: window_count_def)
      with Cons.prems(6) show ?thesis by simp
    qed
    have "int (window_count s (rb_window ?b) ((es @ [now]) @ grants (Some ?b) tenant ts)) \<le> rb_limit ?b"
      by (rule Cons.IH [where last_now = now]) (use Cons.prems kept bound in \<open>auto simp: sorted_append\<close>)
    with False Cons.prems(1) show ?thesis by (simp add: allow_retry_def)
  qed
qed

section \<open>Properties\<close>

text \<open>
  The budget holds in every window: with a positive limit and a clock that does not go back,
  no stretch of time of the length of the window, ending anywhere, sees more retries of a tenant
  granted than the limit.
\<close>

theorem retries_within_window:
  assumes "0 < limit" and "sorted ts"
  shows "int (window_count s (rb_window (newBudget limit window)) (grants (Some (newBudget limit window)) tenant ts)) \<le> limit"
proof -
  have "\<forall>x \<in> set ts. (case ts of [] \<Rightarrow> 0 | t # _ \<Rightarrow> t) \<le> x" using assms(2) by (cases ts) auto
  then have "int (window_count s (rb_window (newBudget limit window)) ([] @ grants (Some (newBudget limit window)) tenant ts))
      \<le> rb_limit (newBudget limit window)"
    using assms by (intro grants_window) (auto simp: newBudget_def window_count_def minute_def second_def)
  then show ?thesis by (simp add: newBudget_def)
qed

theorem retries_within_window_witness:
  "window_count 20 (rb_window (newBudget 2 10)) (grants (Some (newBudget 2 10)) 7 [1, 12, 13, 14, 30]) = 2"
proof -
  have "int (window_count 20 (rb_window (newBudget 2 10)) (grants (Some (newBudget 2 10)) 7 [1, 12, 13, 14, 30])) \<le> 2"
    by (rule retries_within_window) simp_all
  moreover have "2 \<le> window_count 20 (rb_window (newBudget 2 10)) (grants (Some (newBudget 2 10)) 7 [1, 12, 13, 14, 30])"
    by (simp add: window_count_def newBudget_def allow_retry_def)
  ultimately show ?thesis by linarith
qed

text \<open>
  The retries of one tenant never spend the budget of another: what a tenant's budget holds
  after any run of calls depends on its own calls only.
\<close>

theorem retry_budget_isolated:
  "retry_view (foldl retry_step b calls) tenant = retry_view (foldl retry_step b (filter (\<lambda>c. snd c = tenant) calls)) tenant"
  by (simp add: rtb.run_view)

end
