(* ===== verification/Binding_Fallback.thy ===== *)
theory Binding_Fallback
  imports Prelude
begin

text \<open>
  Binding-level fallback (backend/internal/bindingfallback: class.go, decision.go, sequence.go):
  which failure signal may move a request from the normal bindings to which target class, the
  evidence gathered over the normal phase, and the coordinator that takes one step per failure.

  The Go classes and signals are strings: the declared constants are constructors, the empty class
  is \<open>ClassEmpty\<close>, any other string is \<open>ClassOther\<close> or \<open>SignalOther\<close>. The JSON annotation of the routing
  reason is not modelled.
\<close>

section \<open>Classes and signals\<close>

datatype fb_class =
  ClassEmpty | ClassNormal | ClassContextWindow | ClassSafety | ClassQuota | ClassManual | ClassOther string

definition normalizeClass :: "fb_class \<Rightarrow> fb_class" where
  "normalizeClass c = (if c = ClassEmpty then ClassNormal else c)"

definition isKnownClass :: "fb_class \<Rightarrow> bool" where
  "isKnownClass c \<longleftrightarrow> c \<in> {ClassNormal, ClassContextWindow, ClassSafety, ClassQuota, ClassManual}"

definition fallbackClasses :: "fb_class list" where
  "fallbackClasses = [ClassContextWindow, ClassSafety, ClassQuota, ClassManual]"

datatype fb_signal =
  SignalBindingConcurrencyLimit | SignalBindingRateLimit | SignalPoolCapacityExhausted
| SignalAllChannelsDegraded | SignalQueueWaitTimeout | SignalQueueWaitOverflow
| SignalUpstreamRateLimit | SignalLocalContextWindow | SignalUpstreamContextWindow
| SignalUpstreamContentPolicy | SignalUpstreamServerError | SignalTransientConnectionFailure
| SignalConnectTimeout | SignalFirstByteTimeout | SignalUpstreamTimeout | SignalEmptyResponse
| SignalKeyRateLimit | SignalUserQuota | SignalTenantQuota | SignalTokenQuota
| SignalPoolStaticMismatch | SignalQueueWaitCancelled | SignalRequestBodyTooLarge
| SignalRequestMalformed | SignalLocalModerationDenied | SignalTenantPolicyDenied
| SignalOfficialClientDenied | SignalPermissionDenied | SignalUpstreamAuthFailure
| SignalBillingReserveFailure | SignalBillingSettleFailure | SignalBillingAbortFailure
| SignalPricingFailure | SignalClaimConflict | SignalFingerprintConflict
| SignalLocalConfigurationFailure | SignalCredentialResolutionFailure
| SignalOther string

record trigger_rule =
  tr_target :: fb_class
  tr_retry :: bool
  tr_safety :: bool

definition triggerRules :: "fb_signal \<rightharpoonup> trigger_rule" where
  "triggerRules =
     [SignalBindingConcurrencyLimit \<mapsto> \<lparr> tr_target = ClassQuota, tr_retry = False, tr_safety = False \<rparr>,
      SignalBindingRateLimit \<mapsto> \<lparr> tr_target = ClassQuota, tr_retry = False, tr_safety = False \<rparr>,
      SignalPoolCapacityExhausted \<mapsto> \<lparr> tr_target = ClassQuota, tr_retry = False, tr_safety = False \<rparr>,
      SignalAllChannelsDegraded \<mapsto> \<lparr> tr_target = ClassQuota, tr_retry = False, tr_safety = False \<rparr>,
      SignalQueueWaitTimeout \<mapsto> \<lparr> tr_target = ClassQuota, tr_retry = False, tr_safety = False \<rparr>,
      SignalQueueWaitOverflow \<mapsto> \<lparr> tr_target = ClassQuota, tr_retry = False, tr_safety = False \<rparr>,
      SignalUpstreamRateLimit \<mapsto> \<lparr> tr_target = ClassQuota, tr_retry = True, tr_safety = False \<rparr>,
      SignalLocalContextWindow \<mapsto> \<lparr> tr_target = ClassContextWindow, tr_retry = False, tr_safety = False \<rparr>,
      SignalUpstreamContextWindow \<mapsto> \<lparr> tr_target = ClassContextWindow, tr_retry = False, tr_safety = False \<rparr>,
      SignalUpstreamContentPolicy \<mapsto> \<lparr> tr_target = ClassSafety, tr_retry = False, tr_safety = True \<rparr>,
      SignalUpstreamServerError \<mapsto> \<lparr> tr_target = ClassManual, tr_retry = True, tr_safety = False \<rparr>,
      SignalTransientConnectionFailure \<mapsto> \<lparr> tr_target = ClassManual, tr_retry = True, tr_safety = False \<rparr>,
      SignalConnectTimeout \<mapsto> \<lparr> tr_target = ClassManual, tr_retry = True, tr_safety = False \<rparr>,
      SignalFirstByteTimeout \<mapsto> \<lparr> tr_target = ClassManual, tr_retry = True, tr_safety = False \<rparr>,
      SignalUpstreamTimeout \<mapsto> \<lparr> tr_target = ClassManual, tr_retry = True, tr_safety = False \<rparr>,
      SignalEmptyResponse \<mapsto> \<lparr> tr_target = ClassManual, tr_retry = True, tr_safety = False \<rparr>]"

record transition_state =
  ts_class :: fb_class
  ts_exhausted :: bool
  ts_configured :: bool
  ts_retry :: bool
  ts_safety :: bool
  ts_delivered :: bool
  ts_used :: bool

definition targetClass :: "fb_signal \<Rightarrow> fb_class option" where
  "targetClass s = map_option tr_target (triggerRules s)"

definition isTerminal :: "fb_signal \<Rightarrow> bool" where
  "isTerminal s \<longleftrightarrow> triggerRules s = None"

definition allowTransition :: "fb_signal \<Rightarrow> transition_state \<Rightarrow> fb_class option" where
  "allowTransition s st =
     (case triggerRules s of
        None \<Rightarrow> None
      | Some r \<Rightarrow>
          if normalizeClass (ts_class st) \<noteq> ClassNormal \<or> \<not> ts_exhausted st \<or> \<not> ts_configured st \<or> ts_delivered st \<or>
             ts_used st
          then None
          else if tr_retry r \<and> \<not> ts_retry st then None
          else if tr_safety r \<and> \<not> ts_safety st then None
          else Some (tr_target r))"

section \<open>Evidence\<close>

record fb_transition =
  tn_from :: fb_class
  tn_to :: fb_class
  tn_trigger :: fb_signal

record evidence =
  ev_target :: fb_class
  ev_items :: "(fb_signal \<times> bool) list"
  ev_mixed :: bool

definition no_evidence :: evidence where
  "no_evidence = \<lparr> ev_target = ClassEmpty, ev_items = [], ev_mixed = False \<rparr>"

definition add_evidence :: "fb_signal \<Rightarrow> bool \<Rightarrow> evidence \<Rightarrow> fb_class option \<times> evidence" where
  "add_evidence s retry e =
     (case targetClass s of
        None \<Rightarrow> (None, e)
      | Some t \<Rightarrow>
          (Some t,
           (if ev_target e = ClassEmpty then e\<lparr> ev_target := t \<rparr>
            else if ev_target e \<noteq> t then e\<lparr> ev_mixed := True \<rparr> else e)
             \<lparr> ev_items := ev_items e @ [(s, retry)] \<rparr>))"

definition auditTrigger :: "evidence \<Rightarrow> fb_signal" where
  "auditTrigger e =
     (let first = fst (hd (ev_items e))
      in if list_all (\<lambda>x. fst x = first) (tl (ev_items e)) then first
         else case ev_target e of
                ClassQuota \<Rightarrow> SignalPoolCapacityExhausted
              | ClassContextWindow \<Rightarrow> SignalLocalContextWindow
              | ClassSafety \<Rightarrow> SignalUpstreamContentPolicy
              | ClassManual \<Rightarrow> SignalTransientConnectionFailure
              | _ \<Rightarrow> first)"

definition evidence_transition :: "evidence \<Rightarrow> transition_state \<Rightarrow> fb_transition option" where
  "evidence_transition e st =
     (if ev_target e = ClassEmpty \<or> ev_mixed e \<or> ev_items e = [] then None
      else if list_all (\<lambda>(s, retry). allowTransition s (st\<lparr> ts_retry := retry \<rparr>) = Some (ev_target e)) (ev_items e)
      then Some \<lparr> tn_from = ClassNormal, tn_to = ev_target e, tn_trigger = auditTrigger e \<rparr>
      else None)"

section \<open>The coordinator\<close>

record observation =
  ob_signal :: fb_signal
  ob_retry :: bool
  ob_more :: bool
  ob_configured :: bool
  ob_safety :: bool
  ob_delivered :: bool

datatype step_decision = ActionStop | ActionContinuePrimary | ActionTransition fb_transition

record coordinator =
  co_evidence :: evidence
  co_used :: bool

definition new_coordinator :: coordinator where
  "new_coordinator = \<lparr> co_evidence = no_evidence, co_used = False \<rparr>"

definition observe :: "observation \<Rightarrow> coordinator \<Rightarrow> step_decision \<times> coordinator" where
  "observe ob c =
     (if ob_delivered ob \<or> \<not> ob_safety ob \<or> isTerminal (ob_signal ob) then (ActionStop, c)
      else (let (degradable, e) = add_evidence (ob_signal ob) (ob_retry ob) (co_evidence c);
                c = c\<lparr> co_evidence := e \<rparr>
            in if ob_more ob
               then (if ob_retry ob \<or> degradable \<noteq> None \<and> ob_configured ob then (ActionContinuePrimary, c)
                     else (ActionStop, c))
               else case evidence_transition e
                      \<lparr> ts_class = ClassNormal, ts_exhausted = True, ts_configured = ob_configured ob, ts_retry = False,
                        ts_safety = ob_safety ob, ts_delivered = ob_delivered ob, ts_used = co_used c \<rparr> of
                      None \<Rightarrow> (ActionStop, c)
                    | Some t \<Rightarrow> (ActionTransition t, c\<lparr> co_used := True \<rparr>)))"

section \<open>Runs of the coordinator\<close>

fun observe_all :: "coordinator \<Rightarrow> observation list \<Rightarrow> step_decision list \<times> coordinator" where
  "observe_all c [] = ([], c)"
| "observe_all c (ob # obs) =
     (let (d, c) = observe ob c; (ds, c) = observe_all c obs in (d # ds, c))"

fun is_transition :: "step_decision \<Rightarrow> bool" where
  "is_transition (ActionTransition t) = True"
| "is_transition _ = False"

text \<open>The observations that count as evidence.\<close>

definition counted :: "observation \<Rightarrow> bool" where
  "counted ob \<longleftrightarrow> \<not> ob_delivered ob \<and> ob_safety ob \<and> \<not> isTerminal (ob_signal ob)"

definition items_of :: "observation list \<Rightarrow> (fb_signal \<times> bool) list" where
  "items_of obs = map (\<lambda>ob. (ob_signal ob, ob_retry ob)) (filter counted obs)"

definition evidence_of :: "(fb_signal \<times> bool) list \<Rightarrow> evidence \<Rightarrow> bool" where
  "evidence_of xs e \<longleftrightarrow>
     ev_items e = xs \<and> (\<forall>x \<in> set xs. \<not> isTerminal (fst x)) \<and>
     (xs = [] \<longrightarrow> ev_target e = ClassEmpty) \<and>
     (xs \<noteq> [] \<longrightarrow> targetClass (fst (hd xs)) = Some (ev_target e))"

lemma trigger_targets:
  "triggerRules s = Some r \<Longrightarrow> tr_target r \<in> set fallbackClasses"
  by (auto simp: triggerRules_def fallbackClasses_def split: if_splits)

lemma target_not_empty: "targetClass s = Some t \<Longrightarrow> t \<in> set fallbackClasses \<and> t \<noteq> ClassEmpty \<and> t \<noteq> ClassNormal"
  using trigger_targets by (fastforce simp: targetClass_def fallbackClasses_def)

lemma add_evidence_of:
  assumes "evidence_of xs e" "\<not> isTerminal s"
  shows "evidence_of (xs @ [(s, retry)]) (snd (add_evidence s retry e))"
proof -
  obtain r where r: "triggerRules s = Some r" using assms(2) by (auto simp: isTerminal_def)
  show ?thesis
  proof (cases "xs = []")
    case True
    with assms r show ?thesis by (auto simp: evidence_of_def add_evidence_def targetClass_def)
  next
    case False
    then have "ev_target e \<noteq> ClassEmpty"
      using assms(1) target_not_empty by (auto simp: evidence_of_def)
    with False assms r show ?thesis by (auto simp: evidence_of_def add_evidence_def targetClass_def)
  qed
qed

lemma observe_evidence:
  assumes "evidence_of xs (co_evidence c)"
  shows "evidence_of (xs @ items_of [ob]) (co_evidence (snd (observe ob c)))"
proof (cases "counted ob")
  case False
  with assms show ?thesis by (auto simp: observe_def counted_def items_of_def)
next
  case True
  then have "\<not> isTerminal (ob_signal ob)" by (simp add: counted_def)
  from add_evidence_of [OF assms this, of "ob_retry ob"] True show ?thesis
    by (auto simp: observe_def counted_def items_of_def Let_def split: prod.splits option.splits)
qed

lemma observe_all_evidence:
  "evidence_of xs (co_evidence c) \<Longrightarrow> evidence_of (xs @ items_of obs) (co_evidence (snd (observe_all c obs)))"
proof (induction obs arbitrary: c xs)
  case Nil
  then show ?case by (simp add: items_of_def)
next
  case (Cons ob obs)
  obtain d c' where o: "observe ob c = (d, c')" by fastforce
  have "evidence_of (xs @ items_of [ob]) (co_evidence c')" using observe_evidence [OF Cons.prems] o by (metis snd_conv)
  from Cons.IH [OF this] have "evidence_of ((xs @ items_of [ob]) @ items_of obs) (co_evidence (snd (observe_all c' obs)))" .
  moreover obtain ds c2 where "observe_all c' obs = (ds, c2)" by fastforce
  moreover have "items_of (ob # obs) = items_of [ob] @ items_of obs" by (simp add: items_of_def)
  ultimately show ?case using o by simp
qed

text \<open>What an allowed transition implies.\<close>

lemma allowTransition_Some:
  "allowTransition s st = Some t \<Longrightarrow>
     targetClass s = Some t \<and> ts_configured st \<and> \<not> ts_delivered st \<and> \<not> ts_used st \<and> ts_exhausted st"
  by (auto simp: allowTransition_def targetClass_def split: option.splits if_splits)

lemma allowTransition_permits:
  "allowTransition s st = Some t \<Longrightarrow> triggerRules s = Some r \<Longrightarrow>
     (tr_retry r \<longrightarrow> ts_retry st) \<and> (tr_safety r \<longrightarrow> ts_safety st)"
  by (auto simp: allowTransition_def split: if_splits)

lemma auditTrigger_target:
  assumes "ev_items e \<noteq> []" "\<forall>x \<in> set (ev_items e). targetClass (fst x) = Some (ev_target e)"
  shows "targetClass (auditTrigger e) = Some (ev_target e)"
proof -
  have "targetClass (fst (hd (ev_items e))) = Some (ev_target e)" using assms by (cases "ev_items e") auto
  moreover have "targetClass SignalPoolCapacityExhausted = Some ClassQuota"
    "targetClass SignalLocalContextWindow = Some ClassContextWindow"
    "targetClass SignalUpstreamContentPolicy = Some ClassSafety"
    "targetClass SignalTransientConnectionFailure = Some ClassManual"
    by (simp_all add: targetClass_def triggerRules_def)
  ultimately show ?thesis by (auto simp: auditTrigger_def Let_def split: fb_class.split)
qed

lemma evidence_transition_Some:
  assumes "evidence_transition e st = Some t"
  shows "ev_items e \<noteq> []" "tn_from t = ClassNormal" "tn_to t = ev_target e" "tn_trigger t = auditTrigger e"
    and "(s, retry) \<in> set (ev_items e) \<Longrightarrow> allowTransition s (st\<lparr> ts_retry := retry \<rparr>) = Some (tn_to t)"
  using assms by (auto simp: evidence_transition_def list_all_iff split: if_splits)

lemma observe_transition:
  assumes "observe ob c = (ActionTransition t, c')"
  shows "counted ob" "\<not> ob_more ob" "\<not> co_used c" "co_used c'" "ob_configured ob"
    and "evidence_transition (co_evidence c')
           \<lparr> ts_class = ClassNormal, ts_exhausted = True, ts_configured = True, ts_retry = False, ts_safety = True,
             ts_delivered = False, ts_used = False \<rparr> = Some t"
proof -
  obtain ev where ev: "counted ob" "\<not> ob_more ob" "co_used c'" "co_evidence c' = ev"
    "evidence_transition ev \<lparr> ts_class = ClassNormal, ts_exhausted = True, ts_configured = ob_configured ob,
       ts_retry = False, ts_safety = ob_safety ob, ts_delivered = ob_delivered ob, ts_used = co_used c \<rparr> = Some t"
    using assms by (auto simp: observe_def counted_def Let_def split: if_splits prod.splits option.splits)
  obtain s r where sr: "(s, r) \<in> set (ev_items ev)"
    using evidence_transition_Some(1) [OF ev(5)] by (cases "ev_items ev") auto
  from allowTransition_Some [OF evidence_transition_Some(5) [OF ev(5) this]]
  have "ob_configured ob" "\<not> co_used c" by simp_all
  with ev show "counted ob" "\<not> ob_more ob" "\<not> co_used c" "co_used c'" "ob_configured ob"
    "evidence_transition (co_evidence c')
           \<lparr> ts_class = ClassNormal, ts_exhausted = True, ts_configured = True, ts_retry = False, ts_safety = True,
             ts_delivered = False, ts_used = False \<rparr> = Some t"
    by (simp_all add: counted_def)
qed

lemma observe_used: "co_used c \<Longrightarrow> \<not> is_transition (fst (observe ob c)) \<and> co_used (snd (observe ob c))"
proof -
  assume u: "co_used c"
  obtain d c' where o: "observe ob c = (d, c')" by fastforce
  have "co_used c'" using o u by (auto simp: observe_def Let_def split: if_splits prod.splits option.splits)
  moreover have "\<not> is_transition d"
    using observe_transition(3) [of ob c _ c'] o u by (cases d) auto
  ultimately show ?thesis by (simp add: o)
qed

lemma no_transition_when_used:
  "co_used c \<Longrightarrow> filter is_transition (fst (observe_all c obs)) = []"
proof (induction obs arbitrary: c)
  case Nil
  then show ?case by simp
next
  case (Cons ob obs)
  obtain d c1 where o: "observe ob c = (d, c1)" by fastforce
  obtain ds c2 where r: "observe_all c1 obs = (ds, c2)" by fastforce
  from observe_used [OF Cons.prems, of ob] o have "\<not> is_transition d" "co_used c1" by simp_all
  with Cons.IH [of c1] o r show ?case by simp
qed

section \<open>Properties\<close>

text \<open>
  One request changes its binding class at most once, whatever failures are observed and in
  whatever order.
\<close>

theorem at_most_one_transition:
  "length (filter is_transition (fst (observe_all c obs))) \<le> 1"
proof (induction obs arbitrary: c)
  case Nil
  then show ?case by simp
next
  case (Cons ob obs)
  obtain d c' where o: "observe ob c = (d, c')" by fastforce
  show ?case
  proof (cases d)
    case (ActionTransition t)
    with o observe_transition(4) [of ob c t c'] no_transition_when_used [of c' obs] show ?thesis
      by (auto split: prod.splits)
  qed (use o Cons.IH [of c'] in \<open>auto split: prod.splits\<close>)
qed

text \<open>
  A transition is earned by the whole normal phase: when the coordinator, after any history,
  moves the request to a class, nothing was delivered by the last failure, no primary binding is
  left, the target is configured, and every failure counted so far points to that very class and
  was retryable where its rule asks for it. The class is one of the four fallback classes, and the
  audited trigger is a signal of that class.
\<close>

theorem transition_needs_unanimous_evidence:
  assumes "observe ob (snd (observe_all new_coordinator obs)) = (ActionTransition t, c')"
  shows "\<not> ob_delivered ob \<and> \<not> ob_more ob \<and> ob_configured ob
    \<and> tn_from t = ClassNormal \<and> tn_to t \<in> set fallbackClasses \<and> targetClass (tn_trigger t) = Some (tn_to t)
    \<and> (\<forall>ob' \<in> set (obs @ [ob]). counted ob' \<longrightarrow>
         (\<exists>r. triggerRules (ob_signal ob') = Some r \<and> tr_target r = tn_to t \<and> (tr_retry r \<longrightarrow> ob_retry ob')))"
proof -
  let ?c = "snd (observe_all new_coordinator obs)"
  note tr = observe_transition [OF assms]
  have "evidence_of [] (co_evidence new_coordinator)"
    by (simp add: evidence_of_def new_coordinator_def no_evidence_def)
  from observe_evidence [OF observe_all_evidence [OF this], of obs ob] assms
  have ev: "evidence_of (items_of (obs @ [ob])) (co_evidence c')" by (simp add: items_of_def)
  then have items: "ev_items (co_evidence c') = items_of (obs @ [ob])" by (simp add: evidence_of_def)
  note es = evidence_transition_Some [OF tr(6)]
  have each: "\<exists>r. triggerRules s = Some r \<and> tr_target r = tn_to t \<and> (tr_retry r \<longrightarrow> retry)"
    if "(s, retry) \<in> set (items_of (obs @ [ob]))" for s retry
  proof -
    from es(5) that items have al: "allowTransition s
        (\<lparr> ts_class = ClassNormal, ts_exhausted = True, ts_configured = True, ts_retry = False, ts_safety = True,
           ts_delivered = False, ts_used = False \<rparr>\<lparr> ts_retry := retry \<rparr>) = Some (tn_to t)" by simp
    from allowTransition_Some [OF al] obtain r where "triggerRules s = Some r" "tr_target r = tn_to t"
      by (auto simp: targetClass_def)
    with allowTransition_permits [OF al] show ?thesis by auto
  qed
  have "\<forall>x \<in> set (ev_items (co_evidence c')). targetClass (fst x) = Some (ev_target (co_evidence c'))"
    using each es(3) by (force simp: items targetClass_def)
  from auditTrigger_target [OF es(1) this] have trig: "targetClass (tn_trigger t) = Some (tn_to t)"
    by (simp add: es)
  have "(\<exists>r. triggerRules (ob_signal ob') = Some r \<and> tr_target r = tn_to t \<and> (tr_retry r \<longrightarrow> ob_retry ob'))"
    if "ob' \<in> set (obs @ [ob])" "counted ob'" for ob'
    by (rule each) (use that in \<open>auto simp: items_of_def\<close>)
  with tr es target_not_empty [OF trig] trig show ?thesis by (simp add: counted_def)
qed

definition example_observation :: "fb_signal \<Rightarrow> bool \<Rightarrow> observation" where
  "example_observation s primary =
     \<lparr> ob_signal = s, ob_retry = True, ob_more = primary, ob_configured = True, ob_safety = True, ob_delivered = False \<rparr>"

theorem transition_needs_unanimous_evidence_witness:
  "\<exists>t c'. observe (example_observation SignalUpstreamRateLimit False)
       (snd (observe_all new_coordinator [example_observation SignalPoolCapacityExhausted True])) = (ActionTransition t, c')
     \<and> tn_to t = ClassQuota \<and> tn_to t \<in> set fallbackClasses"
proof -
  obtain t c' where t: "observe (example_observation SignalUpstreamRateLimit False)
       (snd (observe_all new_coordinator [example_observation SignalPoolCapacityExhausted True])) = (ActionTransition t, c')"
    "tn_to t = ClassQuota"
    by (simp add: example_observation_def observe_def new_coordinator_def no_evidence_def isTerminal_def triggerRules_def
        add_evidence_def targetClass_def evidence_transition_def allowTransition_def normalizeClass_def)
  with transition_needs_unanimous_evidence [OF t(1)] show ?thesis by blast
qed

end
