(* ===== verification/Router.thy ===== *)
theory Router
  imports Binding_Fallback "HOL-Library.Multiset"
begin

text \<open>
  The router (backend/internal/router: route_plan.go, default_router.go): from the candidate pools
  of a model to the bounded list of attempts of the normal phase and the one-attempt phases of the
  fallback classes.

  The random draws \<open>rand.Int63n n\<close> of one planning are the parameter \<open>draw i n\<close>, the \<open>i\<close>-th draw;
  the position in the stream is passed along. The fields of a plan no rule depends on (limits,
  selection mode) are carried as the code does. Error messages are constant per code, so an error
  is its code.
\<close>

section \<open>Data\<close>

record pool_meta =
  pm_pool :: int
  pm_model :: string
  pm_binding :: int
  pm_rpm :: int
  pm_tpm :: int
  pm_parallel :: int
  pm_priority :: int
  pm_weight :: int
  pm_mode :: string
  pm_class :: fb_class

record resolved_model =
  md_providerModel :: string
  md_family :: string
  md_candidates :: "int list"
  md_metadata :: "pool_meta list"
  md_snapshot :: string

record plan_input =
  pi_requestID :: string
  pi_tenant :: int
  pi_model :: resolved_model

record attempt_plan =
  at_index :: nat
  at_pool :: int
  at_binding :: int
  at_rpm :: int
  at_tpm :: int
  at_parallel :: int
  at_mode :: string
  at_class :: fb_class
  at_caps :: "string list"
  at_hint :: int
  at_reason :: string
  at_model :: string

record phase_plan =
  ph_class :: fb_class
  ph_attempts :: "attempt_plan list"
  ph_budget :: int

record route_plan =
  rp_attempts :: "attempt_plan list"
  rp_phases :: "phase_plan list"
  rp_budget :: int
  rp_retryable :: "string list"
  rp_snapshot :: string

definition fallbackPhaseForClass :: "route_plan \<Rightarrow> fb_class \<Rightarrow> phase_plan option" where
  "fallbackPhaseForClass p c =
     find (\<lambda>ph. ph_class ph = c \<and> 0 < ph_budget ph \<and> ph_attempts ph \<noteq> []) (rp_phases p)"

definition traceRouteID :: "route_plan \<Rightarrow> attempt_plan \<Rightarrow> string" where
  "traceRouteID p a = (if at_reason a = [] then rp_snapshot p else rp_snapshot p @ '':'' @ at_reason a)"

section \<open>Candidate metadata and classes\<close>

type_synonym metadata = "int \<rightharpoonup> pool_meta"

fun poolMetadataByGroup :: "pool_meta list \<Rightarrow> metadata" where
  "poolMetadataByGroup [] = Map.empty"
| "poolMetadataByGroup (m # ms) =
     (if pm_pool m = 0 then poolMetadataByGroup ms else (poolMetadataByGroup ms)(pm_pool m \<mapsto> m))"

definition class_of :: "metadata \<Rightarrow> int \<Rightarrow> fb_class" where
  "class_of meta x = (case meta x of None \<Rightarrow> ClassNormal | Some m \<Rightarrow> normalizeClass (pm_class m))"

definition poolCandidatesByFallbackClass :: "int list \<Rightarrow> metadata \<Rightarrow> string + (fb_class \<Rightarrow> int list)" where
  "poolCandidatesByFallbackClass xs meta =
     (if list_all (\<lambda>x. isKnownClass (class_of meta x)) xs then Inr (\<lambda>c. filter (\<lambda>x. class_of meta x = c) xs)
      else Inl ''invalid_fallback_class'')"

definition upstreamModelIDForPool :: "resolved_model \<Rightarrow> metadata \<Rightarrow> int \<Rightarrow> string" where
  "upstreamModelIDForPool md meta x =
     (case meta x of
        Some m \<Rightarrow> if pm_model m \<noteq> [] then pm_model m else md_providerModel md
      | None \<Rightarrow> md_providerModel md)"

section \<open>Weighted order within a priority\<close>

definition normalizedPoolCandidateWeight :: "int \<Rightarrow> int" where
  "normalizedPoolCandidateWeight w = (if w \<le> 0 then 1 else w)"

definition weight_of :: "metadata \<Rightarrow> int \<Rightarrow> int" where
  "weight_of meta x = normalizedPoolCandidateWeight (case meta x of None \<Rightarrow> 0 | Some m \<Rightarrow> pm_weight m)"

type_synonym draws = "nat \<Rightarrow> int \<Rightarrow> int"

text \<open>One pass over the candidates not yet placed: the index it selects and the next draw.\<close>

fun select_index :: "draws \<Rightarrow> nat \<Rightarrow> int \<Rightarrow> nat \<Rightarrow> nat \<Rightarrow> int list \<Rightarrow> nat \<times> nat" where
  "select_index draw k acc sel i [] = (sel, k)"
| "select_index draw k acc sel i (w # ws) =
     select_index draw (Suc k) (acc + w) (if draw k (acc + w) < w then i else sel) (Suc i) ws"

function weightedShufflePoolSegment :: "draws \<Rightarrow> metadata \<Rightarrow> nat \<Rightarrow> int list \<Rightarrow> int list \<times> nat" where
  "weightedShufflePoolSegment draw meta k xs =
     (if length xs < 2 then (xs, k)
      else (let (sel, k) = select_index draw k 0 0 0 (map (weight_of meta) xs);
                ys = xs[0 := xs ! sel, sel := xs ! 0];
                (zs, k) = weightedShufflePoolSegment draw meta k (tl ys)
            in (hd ys # zs, k)))"
  by pat_completeness auto
termination
  by (relation "measure (\<lambda>(draw, meta, k, xs). length xs)") auto

declare weightedShufflePoolSegment.simps [simp del]

definition same_priority :: "metadata \<Rightarrow> pool_meta \<Rightarrow> int \<Rightarrow> bool" where
  "same_priority meta m y = (case meta y of None \<Rightarrow> False | Some m' \<Rightarrow> pm_priority m' = pm_priority m)"

function order_segments :: "draws \<Rightarrow> metadata \<Rightarrow> nat \<Rightarrow> int list \<Rightarrow> int list \<times> nat" where
  "order_segments draw meta k [] = ([], k)"
| "order_segments draw meta k (x # xs) =
     (case meta x of
        None \<Rightarrow> (let (ys, k) = order_segments draw meta k xs in (x # ys, k))
      | Some m \<Rightarrow>
          (let seg = x # takeWhile (same_priority meta m) xs;
               (seg, k) = (if 1 < length seg then weightedShufflePoolSegment draw meta k seg else (seg, k));
               (ys, k) = order_segments draw meta k (dropWhile (same_priority meta m) xs)
           in (seg @ ys, k)))"
  by pat_completeness auto
termination
  by (relation "measure (\<lambda>(draw, meta, k, xs). length xs)") (auto simp: length_dropWhile_le le_imp_less_Suc)

definition weightedPoolCandidateOrder :: "draws \<Rightarrow> metadata \<Rightarrow> nat \<Rightarrow> int list \<Rightarrow> int list \<times> nat" where
  "weightedPoolCandidateOrder draw meta k xs =
     (if length xs < 2 \<or> meta = Map.empty then (xs, k) else order_segments draw meta k xs)"

section \<open>The plan\<close>

definition retryablePreDeliveryEndClasses :: "string list" where
  "retryablePreDeliveryEndClasses =
     [''upstream_error_5xx'', ''upstream_rate_limit'', ''first_token_timeout'', ''inter_event_timeout'']"

definition attemptBudgetForPools :: "nat \<Rightarrow> nat" where
  "attemptBudgetForPools n = (if n = 0 then 0 else if n = 1 then 2 else 3)"

definition meta_or_zero :: "metadata \<Rightarrow> int \<Rightarrow> pool_meta" where
  "meta_or_zero meta x =
     (case meta x of Some m \<Rightarrow> m
      | None \<Rightarrow> \<lparr> pm_pool = 0, pm_model = [], pm_binding = 0, pm_rpm = 0, pm_tpm = 0, pm_parallel = 0, pm_priority = 0,
                 pm_weight = 0, pm_mode = [], pm_class = ClassEmpty \<rparr>)"

definition mk_attempt :: "resolved_model \<Rightarrow> metadata \<Rightarrow> fb_class \<Rightarrow> string \<Rightarrow> nat \<Rightarrow> int \<Rightarrow> attempt_plan" where
  "mk_attempt md meta cls reason i x =
     (let m = meta_or_zero meta x
      in \<lparr> at_index = i, at_pool = x, at_binding = pm_binding m, at_rpm = pm_rpm m, at_tpm = pm_tpm m,
           at_parallel = pm_parallel m, at_mode = pm_mode m, at_class = cls, at_caps = [], at_hint = 0,
           at_reason = reason, at_model = upstreamModelIDForPool md meta x \<rparr>)"

fun normal_attempts :: "resolved_model \<Rightarrow> metadata \<Rightarrow> int list \<Rightarrow> int set \<Rightarrow> nat list \<Rightarrow> attempt_plan list" where
  "normal_attempts md meta pools seen [] = []"
| "normal_attempts md meta pools seen (i # is) =
     (let x = pools ! (i mod length pools);
          reason = (if i = 0 then ''primary''
                    else if x \<in> seen then ''same_pool_account_failover'' else ''cross_pool_fallback'')
      in mk_attempt md meta ClassNormal reason i x # normal_attempts md meta pools (insert x seen) is)"

definition class_name :: "fb_class \<Rightarrow> string" where
  "class_name c =
     (case c of ClassEmpty \<Rightarrow> [] | ClassNormal \<Rightarrow> ''normal'' | ClassContextWindow \<Rightarrow> ''context_window''
      | ClassSafety \<Rightarrow> ''safety'' | ClassQuota \<Rightarrow> ''quota'' | ClassManual \<Rightarrow> ''manual'' | ClassOther s \<Rightarrow> s)"

fun compileFallbackPhases ::
    "draws \<Rightarrow> resolved_model \<Rightarrow> metadata \<Rightarrow> (fb_class \<Rightarrow> int list) \<Rightarrow> nat \<Rightarrow> fb_class list \<Rightarrow> phase_plan list" where
  "compileFallbackPhases draw md meta cands k [] = []"
| "compileFallbackPhases draw md meta cands k (c # cs) =
     (let (ordered, k) = weightedPoolCandidateOrder draw meta k (cands c)
      in if ordered = [] then compileFallbackPhases draw md meta cands k cs
         else \<lparr> ph_class = c,
                ph_attempts = [mk_attempt md meta c (''binding_fallback_'' @ class_name c) 0 (hd ordered)],
                ph_budget = 1 \<rparr> # compileFallbackPhases draw md meta cands k cs)"

definition stampSnapshot :: "string \<Rightarrow> string \<Rightarrow> string" where
  "stampSnapshot modelStamp version =
     (if modelStamp = [] then ''registry:unknown'' else modelStamp) @ '';router:'' @ version"

definition fallbackClassPolicyVersion :: string where
  "fallbackClassPolicyVersion = ''v0.3-binding-fallback-class''"

definition plan :: "string \<Rightarrow> draws \<Rightarrow> plan_input \<Rightarrow> string + route_plan" where
  "plan version draw req =
     (let md = pi_model req; meta = poolMetadataByGroup (md_metadata md)
      in if pi_requestID req = [] then Inl ''missing_request_id''
         else if pi_tenant req = 0 then Inl ''missing_tenant''
         else if md_family md = [] then Inl ''model_unsupported''
         else if md_candidates md = [] then Inl ''no_eligible_pool''
         else case poolCandidatesByFallbackClass (md_candidates md) meta of
                Inl e \<Rightarrow> Inl e
              | Inr cands \<Rightarrow>
                  (let (pools, k) = weightedPoolCandidateOrder draw meta 0 (cands ClassNormal)
                   in if pools = [] then Inl ''no_primary_binding''
                      else (let budget = attemptBudgetForPools (length pools);
                                phases = compileFallbackPhases draw md meta cands k fallbackClasses
                            in Inr \<lparr> rp_attempts = normal_attempts md meta pools {} [0..<budget],
                                     rp_phases = phases, rp_budget = int budget,
                                     rp_retryable = retryablePreDeliveryEndClasses,
                                     rp_snapshot = stampSnapshot (md_snapshot md)
                                       (if phases \<noteq> [] then fallbackClassPolicyVersion else version) \<rparr>)))"

section \<open>The order of the candidates\<close>

lemma select_index_bound:
  "sel < i + length ws \<Longrightarrow> fst (select_index draw k acc sel i ws) < i + length ws"
proof (induction draw k acc sel i ws rule: select_index.induct)
  case (1 draw k acc sel i)
  then show ?case by simp
next
  case (2 draw k acc sel i w ws)
  have "(if draw k (acc + w) < w then i else sel) < Suc i + length ws" using 2(2) by simp
  from 2(1) [OF this] show ?case by simp
qed

lemma shuffle_mset: "mset (fst (weightedShufflePoolSegment draw meta k xs)) = mset xs"
proof (induction draw meta k xs rule: weightedShufflePoolSegment.induct)
  case (1 draw meta k xs)
  show ?case
  proof (cases "length xs < 2")
    case True
    then show ?thesis by (simp add: weightedShufflePoolSegment.simps [of draw meta k xs])
  next
    case False
    obtain sel k1 where s: "select_index draw k 0 0 0 (map (weight_of meta) xs) = (sel, k1)" by fastforce
    let ?ys = "xs[0 := xs ! sel, sel := xs ! 0]"
    obtain zs k2 where r: "weightedShufflePoolSegment draw meta k1 (tl ?ys) = (zs, k2)" by fastforce
    have "xs \<noteq> []" using False by auto
    then have sel: "sel < length xs"
      using select_index_bound [of 0 0 "map (weight_of meta) xs" draw k 0] False s by simp
    have "mset zs = mset (tl ?ys)" using "1.IH" [OF False s [symmetric] refl refl] r by simp
    moreover have "?ys \<noteq> []" using False by auto
    moreover have "mset ?ys = mset xs" using mset_swap [of sel xs 0] sel \<open>xs \<noteq> []\<close> by simp
    ultimately have "mset (hd ?ys # zs) = mset xs" by (metis list.collapse mset.simps(2))
    with False s r show ?thesis by (simp add: weightedShufflePoolSegment.simps [of draw meta k xs] Let_def)
  qed
qed

definition priority_at :: "metadata \<Rightarrow> int \<Rightarrow> int option" where
  "priority_at meta x = map_option pm_priority (meta x)"

lemma segment_priority:
  "meta x = Some m \<Longrightarrow> y \<in> set (takeWhile (same_priority meta m) xs) \<Longrightarrow> priority_at meta y = priority_at meta x"
  by (auto simp: same_priority_def priority_at_def dest!: set_takeWhileD split: option.splits)

lemma map_constant: "(\<And>y. y \<in> set ys \<Longrightarrow> f y = c) \<Longrightarrow> map f ys = replicate (length ys) c"
  by (induction ys) auto

lemma order_segments_spec:
  "mset (fst (order_segments draw meta k xs)) = mset xs \<and>
   map (priority_at meta) (fst (order_segments draw meta k xs)) = map (priority_at meta) xs"
proof (induction draw meta k xs rule: order_segments.induct)
  case (1 draw meta k)
  then show ?case by simp
next
  case (2 draw meta k x xs)
  show ?case
  proof (cases "meta x")
    case None
    obtain ys k1 where r: "order_segments draw meta k xs = (ys, k1)" by fastforce
    from "2.IH"(1) [OF None] r None show ?thesis by simp
  next
    case (Some m)
    let ?p = "same_priority meta m"
    let ?seg = "x # takeWhile ?p xs"
    obtain seg k1 where s: "(if 1 < length ?seg then weightedShufflePoolSegment draw meta k ?seg else (?seg, k)) = (seg, k1)"
      by fastforce
    obtain ys k2 where r: "order_segments draw meta k1 (dropWhile ?p xs) = (ys, k2)" by fastforce
    have seg: "mset seg = mset ?seg"
      using s shuffle_mset [of draw meta k ?seg] by (metis fst_conv)
    have "length seg = length ?seg" "set seg = set ?seg"
      by (rule mset_eq_length [OF seg], rule mset_eq_setD [OF seg])
    then have "map (priority_at meta) seg = replicate (length ?seg) (priority_at meta x)"
      using segment_priority [of meta x m] Some by (intro trans [OF map_constant]) auto
    moreover have "map (priority_at meta) ?seg = replicate (length ?seg) (priority_at meta x)"
      using segment_priority [of meta x m] Some by (intro trans [OF map_constant]) auto
    ultimately have pr: "map (priority_at meta) seg = map (priority_at meta) ?seg" by simp
    have rest: "mset ys = mset (dropWhile ?p xs)" "map (priority_at meta) ys = map (priority_at meta) (dropWhile ?p xs)"
      using "2.IH"(2) [OF Some refl s [symmetric] refl] r by simp_all
    have "fst (order_segments draw meta k (x # xs)) = seg @ ys"
      using Some s r by (simp only: order_segments.simps option.case Let_def prod.case fst_conv)
    moreover have "mset (seg @ ys) = mset (x # xs)"
      by (simp only: mset_append seg rest) (simp add: union_mset_add_mset_left mset_append [symmetric] del: mset_append)
    moreover have "map (priority_at meta) (seg @ ys) = map (priority_at meta) (x # xs)"
      by (simp only: map_append pr rest) (simp add: map_append [symmetric] del: map_append)
    ultimately show ?thesis by simp
  qed
qed

lemma order_spec:
  "mset (fst (weightedPoolCandidateOrder draw meta k xs)) = mset xs"
  "map (priority_at meta) (fst (weightedPoolCandidateOrder draw meta k xs)) = map (priority_at meta) xs"
  using order_segments_spec [of draw meta k xs] by (auto simp: weightedPoolCandidateOrder_def)

lemma order_set [simp]: "set (fst (weightedPoolCandidateOrder draw meta k xs)) = set xs"
  by (rule mset_eq_setD [OF order_spec(1)])

lemma order_empty [simp]: "fst (weightedPoolCandidateOrder draw meta k xs) = [] \<longleftrightarrow> xs = []"
  using order_spec(1) [of draw meta k xs] by (metis mset_zero_iff)

section \<open>The attempts and the phases\<close>

lemma normal_attempts_spec:
  "map at_index (normal_attempts md meta pools seen is) = is"
  "pools \<noteq> [] \<Longrightarrow> a \<in> set (normal_attempts md meta pools seen is) \<Longrightarrow> at_class a = ClassNormal \<and> at_pool a \<in> set pools"
  by (induction md meta pools seen "is" rule: normal_attempts.induct) (auto simp: mk_attempt_def Let_def)

lemma phases_spec:
  "map ph_class (compileFallbackPhases draw md meta cands k cs) = filter (\<lambda>c. cands c \<noteq> []) cs"
  "ph \<in> set (compileFallbackPhases draw md meta cands k cs) \<Longrightarrow>
     \<exists>a. ph_attempts ph = [a] \<and> ph_budget ph = 1 \<and> at_class a = ph_class ph \<and> at_pool a \<in> set (cands (ph_class ph))"
proof (induction draw md meta cands k cs rule: compileFallbackPhases.induct)
  case (1 draw md meta cands k)
  {
    case 1
    then show ?case by simp
  next
    case 2
    then show ?case by simp
  }
next
  case (2 draw md meta cands k c cs)
  obtain ordered k1 where o: "weightedPoolCandidateOrder draw meta k (cands c) = (ordered, k1)" by fastforce
  have e: "ordered = [] \<longleftrightarrow> cands c = []" "set ordered = set (cands c)"
    using order_empty [of draw meta k "cands c"] order_set [of draw meta k "cands c"] o by simp_all
  {
    case 1
    show ?case using "2.IH"(1) [OF o [symmetric] refl] "2.IH"(3) [OF o [symmetric] refl] o e by (cases "ordered = []") auto
  next
    case 2
    show ?case
    proof (cases "ordered = []")
      case True
      with 2 "2.IH"(2) [OF o [symmetric] refl True] o show ?thesis by simp
    next
      case False
      with 2 "2.IH"(4) [OF o [symmetric] refl False] o e show ?thesis
        by (auto simp: mk_attempt_def Let_def)
    qed
  }
qed

lemma plan_Inr:
  assumes "plan version draw req = Inr p"
  obtains meta cands pools k where "meta = poolMetadataByGroup (md_metadata (pi_model req))"
    "cands = (\<lambda>c. filter (\<lambda>x. class_of meta x = c) (md_candidates (pi_model req)))"
    "weightedPoolCandidateOrder draw meta 0 (cands ClassNormal) = (pools, k)" "pools \<noteq> []"
    "rp_attempts p = normal_attempts (pi_model req) meta pools {} [0..<attemptBudgetForPools (length pools)]"
    "rp_phases p = compileFallbackPhases draw (pi_model req) meta cands k fallbackClasses"
    "rp_budget p = int (attemptBudgetForPools (length pools))" "rp_retryable p = retryablePreDeliveryEndClasses"
  using assms
  by (auto simp: plan_def poolCandidatesByFallbackClass_def Let_def split: if_splits prod.splits sum.splits)

text \<open>When a plan exists.\<close>

definition plan_ready :: "plan_input \<Rightarrow> bool" where
  "plan_ready req \<longleftrightarrow>
     (let meta = poolMetadataByGroup (md_metadata (pi_model req)); xs = md_candidates (pi_model req)
      in pi_requestID req \<noteq> [] \<and> pi_tenant req \<noteq> 0 \<and> md_family (pi_model req) \<noteq> [] \<and>
         list_all (\<lambda>x. isKnownClass (class_of meta x)) xs \<and> list_ex (\<lambda>x. class_of meta x = ClassNormal) xs)"

lemma normal_order_empty:
  "weightedPoolCandidateOrder draw meta k (filter (\<lambda>x. class_of meta x = ClassNormal) xs) = (pools, k') \<Longrightarrow>
     pools = [] \<longleftrightarrow> \<not> list_ex (\<lambda>x. class_of meta x = ClassNormal) xs"
  using order_empty [of draw meta k "filter (\<lambda>x. class_of meta x = ClassNormal) xs"]
  by (auto simp: filter_empty_conv list_ex_iff)

lemma plan_result:
  "plan version draw req = Inl e \<longleftrightarrow> \<not> plan_ready req \<and>
     e = (let meta = poolMetadataByGroup (md_metadata (pi_model req)); xs = md_candidates (pi_model req)
          in if pi_requestID req = [] then ''missing_request_id''
             else if pi_tenant req = 0 then ''missing_tenant''
             else if md_family (pi_model req) = [] then ''model_unsupported''
             else if xs = [] then ''no_eligible_pool''
             else if \<not> list_all (\<lambda>x. isKnownClass (class_of meta x)) xs then ''invalid_fallback_class''
             else ''no_primary_binding'')"
proof -
  let ?meta = "poolMetadataByGroup (md_metadata (pi_model req))" and ?xs = "md_candidates (pi_model req)"
  obtain pools k where o: "weightedPoolCandidateOrder draw ?meta 0
      (filter (\<lambda>x. class_of ?meta x = ClassNormal) ?xs) = (pools, k)" by fastforce
  show ?thesis
    using normal_order_empty [OF o]
    by (auto simp: plan_def plan_ready_def poolCandidatesByFallbackClass_def o Let_def)
qed

section \<open>Properties\<close>

text \<open>
  The candidate order is a permutation that never crosses a priority: whatever the random
  draws, every position holds a candidate of the priority the registry put there, so chance only
  decides among the candidates of one priority, and none is lost or repeated.
\<close>

theorem order_respects_priority:
  "mset (fst (weightedPoolCandidateOrder draw meta k xs)) = mset xs
   \<and> map (priority_at meta) (fst (weightedPoolCandidateOrder draw meta k xs)) = map (priority_at meta) xs"
  by (simp add: order_spec)

text \<open>
  C29. A plan is exactly as bounded as it says: its normal phase is not empty, has as many attempts
  as its budget (two or three), numbered from 0, all on candidate pools of the normal class; and
  for every fallback class with a candidate, in the fixed order of the classes, and for no other,
  there is one phase with one attempt on a pool of that class.
\<close>

theorem plan_well_formed:
  fixes req p
  defines "meta \<equiv> poolMetadataByGroup (md_metadata (pi_model req))"
    and "cands \<equiv> set (md_candidates (pi_model req))"
  assumes "plan version draw req = Inr p"
  shows "map at_index (rp_attempts p) = [0..<nat (rp_budget p)] \<and> rp_budget p \<in> {2, 3}
    \<and> (\<forall>a \<in> set (rp_attempts p). at_class a = ClassNormal \<and> at_pool a \<in> cands \<and> class_of meta (at_pool a) = ClassNormal)
    \<and> map ph_class (rp_phases p) = filter (\<lambda>c. \<exists>x \<in> cands. class_of meta x = c) fallbackClasses
    \<and> (\<forall>ph \<in> set (rp_phases p). \<exists>a. ph_attempts ph = [a] \<and> ph_budget ph = 1 \<and> at_class a = ph_class ph
         \<and> at_pool a \<in> cands \<and> class_of meta (at_pool a) = ph_class ph)"
proof (rule plan_Inr [OF assms(3)])
  fix meta' cd pools k
  assume m: "meta' = poolMetadataByGroup (md_metadata (pi_model req))"
    and cd: "cd = (\<lambda>c. filter (\<lambda>x. class_of meta' x = c) (md_candidates (pi_model req)))"
    and o: "weightedPoolCandidateOrder draw meta' 0 (cd ClassNormal) = (pools, k)" and ne: "pools \<noteq> []"
    and at: "rp_attempts p = normal_attempts (pi_model req) meta' pools {} [0..<attemptBudgetForPools (length pools)]"
    and ph: "rp_phases p = compileFallbackPhases draw (pi_model req) meta' cd k fallbackClasses"
    and b: "rp_budget p = int (attemptBudgetForPools (length pools))"
  have pools: "set pools = {x \<in> cands. class_of meta x = ClassNormal}"
  proof -
    have "set pools = set (cd ClassNormal)" using order_set [of draw meta' 0 "cd ClassNormal"] by (simp add: o)
    then show ?thesis by (auto simp: cd m meta_def cands_def)
  qed
  have ind: "map at_index (rp_attempts p) = [0..<nat (rp_budget p)]" by (simp add: at b normal_attempts_spec)
  have bud: "rp_budget p \<in> {2, 3}" using ne by (simp add: b attemptBudgetForPools_def)
  have normal: "at_class a = ClassNormal \<and> at_pool a \<in> cands \<and> class_of meta (at_pool a) = ClassNormal"
    if "a \<in> set (rp_attempts p)" for a
    using normal_attempts_spec(2) [OF ne that [unfolded at]] pools by auto
  have cls: "map ph_class (rp_phases p) = filter (\<lambda>c. \<exists>x \<in> cands. class_of meta x = c) fallbackClasses"
    unfolding ph phases_spec(1) by (rule filter_cong) (auto simp: cd m meta_def cands_def filter_empty_conv)
  have phase: "\<exists>a. ph_attempts q = [a] \<and> ph_budget q = 1 \<and> at_class a = ph_class q
         \<and> at_pool a \<in> cands \<and> class_of meta (at_pool a) = ph_class q" if "q \<in> set (rp_phases p)" for q
    using phases_spec(2) [OF that [unfolded ph]] by (auto simp: cd m meta_def cands_def)
  show ?thesis using ind bud normal cls phase by blast
qed

definition example_pool :: "int \<Rightarrow> fb_class \<Rightarrow> pool_meta" where
  "example_pool x c =
     \<lparr> pm_pool = x, pm_model = [], pm_binding = x, pm_rpm = 0, pm_tpm = 0, pm_parallel = 0, pm_priority = 1, pm_weight = 1,
       pm_mode = [], pm_class = c \<rparr>"

definition example_input :: plan_input where
  "example_input =
     \<lparr> pi_requestID = ''r'', pi_tenant = 1,
       pi_model = \<lparr> md_providerModel = ''m'', md_family = ''openai_chat'', md_candidates = [4, 5],
         md_metadata = [example_pool 4 ClassEmpty, example_pool 5 ClassQuota], md_snapshot = [] \<rparr> \<rparr>"

theorem plan_well_formed_witness:
  "\<exists>p. plan ''v'' (\<lambda>i n. 0) example_input = Inr p \<and> rp_budget p \<in> {2, 3} \<and> map ph_class (rp_phases p) = [ClassQuota]"
proof -
  have "plan_ready example_input"
    by (simp add: plan_ready_def example_input_def example_pool_def class_of_def normalizeClass_def isKnownClass_def)
  then have "\<exists>p. plan ''v'' (\<lambda>i n. 0) example_input = Inr p"
    using plan_result [of "''v''" "\<lambda>i n. 0" example_input] by (cases "plan ''v'' (\<lambda>i n. 0) example_input") auto
  then obtain p where p: "plan ''v'' (\<lambda>i n. 0) example_input = Inr p" by blast
  note wf = plan_well_formed [OF p]
  have "map ph_class (rp_phases p) =
      filter (\<lambda>c. \<exists>x \<in> set (md_candidates (pi_model example_input)).
        class_of (poolMetadataByGroup (md_metadata (pi_model example_input))) x = c) fallbackClasses"
    using wf by blast
  then have "map ph_class (rp_phases p) = [ClassQuota]"
    by (simp add: example_input_def example_pool_def fallbackClasses_def class_of_def normalizeClass_def)
  moreover have "rp_budget p \<in> {2, 3}" using wf by blast
  ultimately show ?thesis using p by (intro exI conjI)
qed

text \<open>
  Planning succeeds exactly when the request id, the tenant and the protocol family are set,
  every candidate has a class of the contract, and some candidate is of the normal class. A model
  that only has fallback bindings is refused as such, with the code \<open>no_primary_binding\<close>, and never
  planned on a fallback binding.
\<close>

theorem plan_succeeds_iff:
  "((\<exists>p. plan version draw req = Inr p) \<longleftrightarrow> plan_ready req)
   \<and> (plan version draw req = Inl ''no_primary_binding'' \<longleftrightarrow>
        pi_requestID req \<noteq> [] \<and> pi_tenant req \<noteq> 0 \<and> md_family (pi_model req) \<noteq> [] \<and> md_candidates (pi_model req) \<noteq> []
        \<and> list_all (\<lambda>x. isKnownClass (class_of (poolMetadataByGroup (md_metadata (pi_model req))) x)
             \<and> class_of (poolMetadataByGroup (md_metadata (pi_model req))) x \<noteq> ClassNormal) (md_candidates (pi_model req)))"
proof
  show "(\<exists>p. plan version draw req = Inr p) \<longleftrightarrow> plan_ready req"
    using plan_result [of version draw req] by (cases "plan version draw req") auto
  show "plan version draw req = Inl ''no_primary_binding'' \<longleftrightarrow>
        pi_requestID req \<noteq> [] \<and> pi_tenant req \<noteq> 0 \<and> md_family (pi_model req) \<noteq> [] \<and> md_candidates (pi_model req) \<noteq> []
        \<and> list_all (\<lambda>x. isKnownClass (class_of (poolMetadataByGroup (md_metadata (pi_model req))) x)
             \<and> class_of (poolMetadataByGroup (md_metadata (pi_model req))) x \<noteq> ClassNormal) (md_candidates (pi_model req))"
    by (auto simp: plan_result plan_ready_def list_all_iff list_ex_iff Let_def)
qed

end
