(* ===== verification/Signals.thy ===== *)
theory Signals
  imports Prelude
begin

text \<open>
  The enumerations by which the parts that judge a failed attempt speak to each other: the signal
  classes of the channel health service (backend/internal/channelhealth/types.go), the evidence
  classes of the auth lane (backend/internal/authcooldown/store.go) and the end classes of a
  stream (backend/internal/gateway/forwarder_types.go). The Go types are strings; their declared
  constants are the constructors, and the empty string, which the code uses for no end class, is
  \<open>NoEndClass\<close>.
\<close>

datatype signal_class =
  SignalNone | SignalSuccess | SignalChannelError | SignalClientMalformed | SignalLocalGateway5xx
| SignalUpstream5xx | SignalTimeout | SignalRateLimit | SignalCreditsExhausted | SignalForbidden
| SignalLatencyP99 | SignalAccountSuspended | SignalAuthChallenge | SignalTokenRevoked
| SignalCredentialRevoked | SignalAccountDisabled | SignalSubscriptionOrWorkspaceDisabled
| SignalPolicyAutoDisabled | SignalManualOverride

datatype failure_class = ClassIronClad | ClassAmbiguous

datatype end_class =
  NoEndClass | StreamEndGraceful | UpstreamEOFNoTerminal | UpstreamError4xx | UpstreamError5xx
| UpstreamRateLimit | UpstreamAuthFailure | FirstTokenTimeout | InterEventTimeout
| TotalStreamTimeout | ClientDisconnect | ResponseEventTooLarge | OrchestratorCancel
| AmbiguousUsage | UnknownTermination

end
