(* ===== verification/Error_Normalize.thy ===== *)
theory Error_Normalize
  imports Signals
begin

text \<open>
  Normalisation of upstream errors (backend/internal/gateway/error_normalize.go and
  error_apply.go): the rule table, the choice of the rule, and what the classification means for
  the account state machine, the health signals, the auth lane and the usage record.

  \<open>strings.ToLower\<close> is modelled on the bytes a keyword can consist of: \<open>to_lower\<close> maps the ASCII
  capitals and the two further code points whose lower case is an ASCII letter (U+212A to k,
  U+0130 to i), and leaves every other byte alone. All keywords, providers and header values of
  the table are ASCII, so what they match is exact. The retry delay of the response (the
  \<open>Retry-After\<close> header and the body's reset hints, error_retry_after.go) is a parameter.
\<close>

section \<open>Text matching\<close>

definition ascii_lower :: "char \<Rightarrow> char" where
  "ascii_lower c =
     (let n = (of_char c :: nat) in if 65 \<le> n \<and> n \<le> 90 then char_of (n + 32) else c)"

fun to_lower :: "string \<Rightarrow> string" where
  "to_lower (a # b # c # s) =
     (if [of_char a, of_char b, of_char c] = [226, 132, 170 :: nat] then CHR ''k'' # to_lower s
      else if [of_char a, of_char b] = [196, 176 :: nat] then CHR ''i'' # to_lower (c # s)
      else ascii_lower a # to_lower (b # c # s))"
| "to_lower [a, b] = (if [of_char a, of_char b] = [196, 176 :: nat] then ''i'' else [ascii_lower a, ascii_lower b])"
| "to_lower [a] = [ascii_lower a]"
| "to_lower [] = []"

definition is_ascii :: "char \<Rightarrow> bool" where
  "is_ascii c \<longleftrightarrow> (of_char c :: nat) < 128"

lemma to_lower_ascii: "list_all is_ascii s \<Longrightarrow> to_lower s = map ascii_lower s"
  by (induction s rule: to_lower.induct) (auto simp: is_ascii_def)

lemma to_lower_word: "list_all (\<lambda>c. is_ascii c \<and> ascii_lower c = c) s \<Longrightarrow> to_lower s = s"
  by (subst to_lower_ascii) (auto simp: list_all_iff intro: map_idI)

text \<open>\<open>strings.Contains\<close>.\<close>

fun contains :: "string \<Rightarrow> string \<Rightarrow> bool" where
  "contains [] k \<longleftrightarrow> k = []"
| "contains (c # s) k \<longleftrightarrow> strip_prefix k (c # s) \<noteq> None \<or> contains s k"

text \<open>
  \<open>strings.EqualFold\<close> is only asked about a rule's provider and a normalised provider that
  matches it, where it is the equality of the lower case.
\<close>

definition equal_fold :: "string \<Rightarrow> string \<Rightarrow> bool" where
  "equal_fold s t \<longleftrightarrow> to_lower s = to_lower t"

section \<open>The rule table\<close>

datatype error_class =
  NoErrorClass
| ErrorClassOAuthInvalidGrant | ErrorClassTokenRevoked | ErrorClassCredentialRejected | ErrorClassKYCRequired
| ErrorClassOrgDisabled | ErrorClassWorkspaceDeactivated | ErrorClassCreditExhausted | ErrorClassCreditsRefillable
| ErrorClassPlatformPolicy | ErrorClassRateLimited | ErrorClassOverloaded | ErrorClassServerError
| ErrorClassNetworkTimeout | ErrorClassUnknown | ErrorClassProjectContextRejected | ErrorClassUpstreamTimeout
| ErrorClassRequestTooLarge

datatype confidence = NoConfidence | ConfidenceHigh | ConfidenceMedium | ConfidenceLow

datatype tier = TierIronClad | TierAmbiguous | TierNone

datatype retry_action =
  NoRetryAction | RetryActionPermanentDisable | RetryActionCountedDisable | RetryActionCooldown | RetryActionWarnOnly
| RetryActionPassThrough

datatype fsm_transition =
  NoFsmTransition | FsmTransitionDisabled | FsmTransitionDegraded | FsmTransitionCooling | FsmTransitionNoChange
| FsmTransitionManualOnly

record header_match =
  hm_name :: string
  hm_equals :: string
  hm_contains :: string

record error_rule =
  er_id :: string
  er_version :: int
  er_priority :: int
  er_provider :: string
  er_status :: string
  er_keyword :: string
  er_header :: header_match
  er_class :: error_class
  er_action :: retry_action
  er_tier :: tier
  er_lane :: bool

record classification =
  cl_class :: error_class
  cl_confidence :: confidence
  cl_rule :: string
  cl_version :: int
  cl_tier :: tier
  cl_action :: retry_action
  cl_fsm :: fsm_transition
  cl_retryMs :: int

definition no_header :: header_match where
  "no_header = \<lparr> hm_name = [], hm_equals = [], hm_contains = [] \<rparr>"

definition rule ::
    "string \<Rightarrow> int \<Rightarrow> int \<Rightarrow> string \<Rightarrow> string \<Rightarrow> string \<Rightarrow> error_class \<Rightarrow> retry_action \<Rightarrow> tier \<Rightarrow> bool \<Rightarrow>
     error_rule" where
  "rule rid ver prio prov st kw cls act tr lane =
     \<lparr> er_id = rid, er_version = ver, er_priority = prio, er_provider = prov, er_status = st, er_keyword = kw,
       er_header = no_header, er_class = cls, er_action = act, er_tier = tr, er_lane = lane \<rparr>"

definition errorRules :: "error_rule list" where
  "errorRules =
     [rule ''R-001'' 1 10 ''*'' ''401'' ''invalid_grant'' ErrorClassOAuthInvalidGrant RetryActionPermanentDisable TierIronClad False,
      rule ''R-002'' 1 10 ''*'' ''400'' ''identity verification'' ErrorClassKYCRequired RetryActionPermanentDisable TierIronClad False,
      rule ''R-003'' 1 10 ''*'' ''400'' ''org_disabled'' ErrorClassOrgDisabled RetryActionPermanentDisable TierIronClad False,
      rule ''R-004'' 1 10 ''*'' ''401'' ''token_revoked'' ErrorClassTokenRevoked RetryActionPermanentDisable TierIronClad False,
      rule ''R-005'' 2 10 ''openai'' ''*'' ''deactivated_workspace'' ErrorClassWorkspaceDeactivated RetryActionPermanentDisable TierIronClad False,
      rule ''R-006'' 1 10 ''*'' ''401'' ''token_invalidated'' ErrorClassTokenRevoked RetryActionPermanentDisable TierIronClad False,
      rule ''R-007'' 2 20 ''anthropic'' ''402'' ''credit'' ErrorClassCreditExhausted RetryActionPermanentDisable TierIronClad False,
      rule ''R-008'' 2 20 ''anthropic'' ''400'' ''credit balance'' ErrorClassCreditExhausted RetryActionPermanentDisable TierIronClad False,
      rule ''R-024'' 1 22 ''grok'' ''400'' ''invalid_api_key'' ErrorClassTokenRevoked RetryActionCooldown TierAmbiguous True,
      rule ''R-025'' 1 22 ''grok'' ''400'' ''incorrect api key'' ErrorClassTokenRevoked RetryActionCooldown TierAmbiguous True,
      rule ''R-021'' 1 25 ''anthropic'' ''402'' [] ErrorClassCreditExhausted RetryActionPermanentDisable TierIronClad False,
      rule ''R-009'' 1 30 ''*'' ''401'' [] ErrorClassOAuthInvalidGrant RetryActionPermanentDisable TierIronClad False,
      rule ''R-017'' 1 35 ''gemini'' ''403'' ''permission denied'' ErrorClassPlatformPolicy RetryActionCountedDisable TierAmbiguous False,
      rule ''R-030'' 1 34 ''antigravity'' ''403'' ''permission denied'' ErrorClassProjectContextRejected RetryActionCooldown TierAmbiguous False,
      rule ''R-031'' 1 34 ''antigravity'' ''403'' ''permission_denied'' ErrorClassProjectContextRejected RetryActionCooldown TierAmbiguous False,
      rule ''R-010'' 1 40 ''openai'' ''403'' [] ErrorClassPlatformPolicy RetryActionCountedDisable TierAmbiguous False,
      rule ''R-011'' 1 40 ''anthropic'' ''403'' ''validation'' ErrorClassPlatformPolicy RetryActionPermanentDisable TierIronClad False,
      rule ''R-012'' 1 40 ''*'' ''403'' [] ErrorClassPlatformPolicy RetryActionPermanentDisable TierIronClad False,
      rule ''R-018'' 2 45 ''bedrock'' ''429'' ''ThrottlingException'' ErrorClassRateLimited RetryActionCooldown TierAmbiguous False,
      rule ''R-020'' 1 45 ''bedrock'' ''503'' ''ServiceUnavailableException'' ErrorClassOverloaded RetryActionCooldown TierAmbiguous False,
      rule ''R-032'' 1 47 ''antigravity'' ''429'' ''insufficient_g1_credits_balance'' ErrorClassCreditsRefillable RetryActionCooldown TierAmbiguous False,
      rule ''R-026'' 1 48 ''openai'' ''429'' ''insufficient_quota'' ErrorClassCreditExhausted RetryActionPermanentDisable TierIronClad False,
      rule ''R-027'' 1 48 ''codex'' ''429'' ''insufficient_quota'' ErrorClassCreditExhausted RetryActionPermanentDisable TierIronClad False,
      rule ''R-028'' 1 48 ''openai'' ''429'' ''billing_hard_limit'' ErrorClassCreditExhausted RetryActionPermanentDisable TierIronClad False,
      rule ''R-029'' 1 48 ''codex'' ''429'' ''billing_hard_limit'' ErrorClassCreditExhausted RetryActionPermanentDisable TierIronClad False,
      rule ''R-013'' 1 50 ''*'' ''429'' [] ErrorClassRateLimited RetryActionCooldown TierAmbiguous False,
      rule ''R-014'' 1 50 ''*'' ''529'' [] ErrorClassOverloaded RetryActionCooldown TierAmbiguous False,
      rule ''R-022'' 1 50 ''anthropic'' ''504'' [] ErrorClassUpstreamTimeout RetryActionCooldown TierAmbiguous False,
      rule ''R-023'' 1 50 ''anthropic'' ''413'' [] ErrorClassRequestTooLarge RetryActionPassThrough TierNone False,
      rule ''R-019'' 1 55 ''*'' ''0'' ''timeout'' ErrorClassNetworkTimeout RetryActionCooldown TierAmbiguous False,
      rule ''R-015'' 1 60 ''*'' ''5xx'' [] ErrorClassServerError RetryActionWarnOnly TierAmbiguous False,
      rule ''R-016'' 1 70 ''*'' ''*'' [] ErrorClassUnknown RetryActionPassThrough TierNone False]"

definition ironCladKeywords :: "string list" where
  "ironCladKeywords =
     [''invalid_grant'', ''identity verification'', ''org_disabled'', ''token_revoked'', ''deactivated_workspace'']"

definition isIronCladKeyword :: "string \<Rightarrow> bool" where
  "isIronCladKeyword k \<longleftrightarrow> to_lower (trim_space k) \<in> set ironCladKeywords"

section \<open>Matching\<close>

definition normalizeProvider :: "bool \<Rightarrow> string \<Rightarrow> string" where
  "normalizeProvider lane p =
     (let q = to_lower (trim_space p)
      in if q = [] \<or> q = ''*'' then ''*''
         else if q = ''anthropic_messages'' then ''anthropic''
         else if q = ''openai_codex'' then ''codex''
         else if q = ''xai'' then (if lane then ''grok'' else ''xai'')
         else q)"

definition providerMatches :: "string \<Rightarrow> string \<Rightarrow> bool" where
  "providerMatches rp p \<longleftrightarrow> (let q = to_lower (trim_space rp) in q = ''*'' \<or> q = p)"

definition statusMatches :: "string \<Rightarrow> int \<Rightarrow> bool" where
  "statusMatches rs st \<longleftrightarrow>
     (let q = to_lower (trim_space rs)
      in if q = ''*'' then True
         else if q = ''5xx'' then 500 \<le> st \<and> st \<le> 599
         else if q = ''0'' then st = 0
         else parse_int64 rs = Some st)"

text \<open>Header fields by name; \<open>canonical\<close> is \<open>http.CanonicalHeaderKey\<close> on names of token characters.\<close>

type_synonym headers = "string \<rightharpoonup> string list"

fun canonical_from :: "bool \<Rightarrow> string \<Rightarrow> string" where
  "canonical_from up [] = []"
| "canonical_from up (c # s) =
     (let n = (of_char c :: nat)
      in (if up \<and> 97 \<le> n \<and> n \<le> 122 then char_of (n - 32) else if \<not> up then ascii_lower c else c)
           # canonical_from (c = CHR ''-'') s)"

definition headerMatches :: "headers \<Rightarrow> header_match \<Rightarrow> bool" where
  "headerMatches hs m \<longleftrightarrow>
     (if hm_name m = [] then True
      else (let values = (case hs (canonical_from True (hm_name m)) of
                            Some vs \<Rightarrow> vs
                          | None \<Rightarrow> (case hs (hm_name m) of Some vs \<Rightarrow> vs | None \<Rightarrow> []))
            in values \<noteq> [] \<and>
               (list_ex (\<lambda>v. hm_equals m \<noteq> [] \<and> to_lower v = to_lower (hm_equals m) \<or>
                             hm_contains m \<noteq> [] \<and> contains (to_lower v) (to_lower (hm_contains m))) values
                \<or> hm_equals m = [] \<and> hm_contains m = [])))"

definition providerSpecificity :: "string \<Rightarrow> string \<Rightarrow> int" where
  "providerSpecificity rp p = (if equal_fold rp p \<and> p \<noteq> ''*'' then 1 else 0)"

definition betterRule :: "error_rule \<Rightarrow> error_rule \<Rightarrow> string \<Rightarrow> bool" where
  "betterRule cand cur p \<longleftrightarrow>
     (if er_priority cand \<noteq> er_priority cur then er_priority cand < er_priority cur
      else if er_version cand \<noteq> er_version cur then er_version cur < er_version cand
      else providerSpecificity (er_provider cur) p < providerSpecificity (er_provider cand) p)"

definition rule_matches :: "bool \<Rightarrow> int \<Rightarrow> headers \<Rightarrow> string \<Rightarrow> string \<Rightarrow> error_rule \<Rightarrow> bool" where
  "rule_matches lane st hs nbody p r \<longleftrightarrow>
     \<not> (er_lane r \<and> \<not> lane) \<and> providerMatches (er_provider r) p \<and> statusMatches (er_status r) st \<and>
     \<not> (er_keyword r \<noteq> [] \<and> \<not> contains nbody (to_lower (er_keyword r))) \<and> headerMatches hs (er_header r)"

fun best_rule :: "string \<Rightarrow> (error_rule \<Rightarrow> bool) \<Rightarrow> error_rule option \<Rightarrow> error_rule list \<Rightarrow> error_rule option" where
  "best_rule p ok best [] = best"
| "best_rule p ok best (r # rs) =
     (if \<not> ok r then best_rule p ok best rs
      else case best of
             None \<Rightarrow> best_rule p ok (Some r) rs
           | Some b \<Rightarrow> best_rule p ok (if betterRule r b p then Some r else Some b) rs)"

definition matchRule :: "bool \<Rightarrow> int \<Rightarrow> headers \<Rightarrow> string \<Rightarrow> string \<Rightarrow> error_rule option" where
  "matchRule lane st hs body provider =
     (let p = normalizeProvider lane provider
      in best_rule p (rule_matches lane st hs (to_lower body) p) None errorRules)"

section \<open>Classification\<close>

datatype classify_error = NegativeStatus | ErrNoMatchingRule

definition confidenceForTier :: "tier \<Rightarrow> confidence" where
  "confidenceForTier t = (case t of TierIronClad \<Rightarrow> ConfidenceHigh | TierAmbiguous \<Rightarrow> ConfidenceMedium | TierNone \<Rightarrow> ConfidenceLow)"

definition transitionFor :: "retry_action \<Rightarrow> tier \<Rightarrow> fsm_transition" where
  "transitionFor act t =
     (case act of
        RetryActionPermanentDisable \<Rightarrow> if t = TierIronClad then FsmTransitionDisabled else FsmTransitionManualOnly
      | RetryActionCountedDisable \<Rightarrow> FsmTransitionDegraded
      | RetryActionWarnOnly \<Rightarrow> FsmTransitionDegraded
      | RetryActionCooldown \<Rightarrow> FsmTransitionCooling
      | _ \<Rightarrow> FsmTransitionNoChange)"

definition classify ::
    "bool \<Rightarrow> (headers \<Rightarrow> int) \<Rightarrow> (string \<Rightarrow> int) \<Rightarrow> int \<Rightarrow> headers \<Rightarrow> string \<Rightarrow> string \<Rightarrow> classify_error + classification" where
  "classify lane header_delay body_delay st hs body provider =
     (if st < 0 then Inl NegativeStatus
      else case matchRule lane st hs body provider of
             None \<Rightarrow> Inl ErrNoMatchingRule
           | Some r \<Rightarrow> Inr \<lparr> cl_class = er_class r, cl_confidence = confidenceForTier (er_tier r), cl_rule = er_id r,
                            cl_version = er_version r, cl_tier = er_tier r, cl_action = er_action r,
                            cl_fsm = transitionFor (er_action r) (er_tier r),
                            cl_retryMs = max (header_delay hs) (body_delay body) \<rparr>)"

definition remapClientStatus :: "int \<Rightarrow> (int \<rightharpoonup> int) \<Rightarrow> int" where
  "remapClientStatus st m = (case m st of Some v \<Rightarrow> if 0 < v then v else st | None \<Rightarrow> st)"

section \<open>What a classification means\<close>

definition authFailureClass :: "classification \<Rightarrow> failure_class" where
  "authFailureClass c =
     (case cl_class c of
        ErrorClassTokenRevoked \<Rightarrow> ClassIronClad
      | ErrorClassOAuthInvalidGrant \<Rightarrow> if cl_rule c = ''R-001'' then ClassIronClad else ClassAmbiguous
      | ErrorClassCredentialRejected \<Rightarrow>
          if cl_rule c \<in> set [''R-001'', ''R-004'', ''R-006'', ''R-024'', ''R-025''] then ClassIronClad else ClassAmbiguous
      | _ \<Rightarrow> ClassAmbiguous)"

definition clientMalformedStatus :: "int \<Rightarrow> bool" where
  "clientMalformedStatus st \<longleftrightarrow> st = 400 \<or> st = 413 \<or> st = 422"

definition signalFromClassification :: "int \<Rightarrow> classification \<Rightarrow> signal_class" where
  "signalFromClassification st c =
     (let by_status =
        (if st = 429 then SignalRateLimit
         else if st = 403 then SignalForbidden
         else if clientMalformedStatus st \<and> cl_tier c = TierNone \<and> cl_action c = RetryActionPassThrough \<and>
                 cl_fsm c = FsmTransitionNoChange then SignalClientMalformed
         else if 500 \<le> st then SignalUpstream5xx
         else SignalChannelError)
      in case cl_class c of
           ErrorClassRateLimited \<Rightarrow> SignalRateLimit
         | ErrorClassCreditsRefillable \<Rightarrow> SignalCreditsExhausted
         | ErrorClassServerError \<Rightarrow> SignalUpstream5xx
         | ErrorClassOverloaded \<Rightarrow> SignalUpstream5xx
         | ErrorClassNetworkTimeout \<Rightarrow> SignalTimeout
         | ErrorClassUpstreamTimeout \<Rightarrow> SignalTimeout
         | ErrorClassTokenRevoked \<Rightarrow> SignalAuthChallenge
         | ErrorClassOAuthInvalidGrant \<Rightarrow> SignalAuthChallenge
         | ErrorClassCredentialRejected \<Rightarrow> SignalAuthChallenge
         | ErrorClassProjectContextRejected \<Rightarrow> SignalAuthChallenge
         | ErrorClassRequestTooLarge \<Rightarrow> SignalClientMalformed
         | ErrorClassKYCRequired \<Rightarrow> SignalAccountSuspended
         | ErrorClassOrgDisabled \<Rightarrow> SignalAccountSuspended
         | ErrorClassWorkspaceDeactivated \<Rightarrow> SignalAccountSuspended
         | ErrorClassCreditExhausted \<Rightarrow> SignalAccountSuspended
         | ErrorClassPlatformPolicy \<Rightarrow> SignalForbidden
         | _ \<Rightarrow> by_status)"

definition streamEndClassForErrorClass :: "error_class \<Rightarrow> end_class" where
  "streamEndClassForErrorClass c =
     (case c of
        ErrorClassOAuthInvalidGrant \<Rightarrow> UpstreamAuthFailure
      | ErrorClassTokenRevoked \<Rightarrow> UpstreamAuthFailure
      | ErrorClassCredentialRejected \<Rightarrow> UpstreamAuthFailure
      | ErrorClassKYCRequired \<Rightarrow> UpstreamAuthFailure
      | ErrorClassOrgDisabled \<Rightarrow> UpstreamAuthFailure
      | ErrorClassWorkspaceDeactivated \<Rightarrow> UpstreamAuthFailure
      | ErrorClassCreditExhausted \<Rightarrow> UpstreamAuthFailure
      | ErrorClassRateLimited \<Rightarrow> UpstreamRateLimit
      | ErrorClassServerError \<Rightarrow> UpstreamError5xx
      | ErrorClassOverloaded \<Rightarrow> UpstreamError5xx
      | ErrorClassPlatformPolicy \<Rightarrow> UpstreamError4xx
      | ErrorClassRequestTooLarge \<Rightarrow> UpstreamError4xx
      | ErrorClassNetworkTimeout \<Rightarrow> InterEventTimeout
      | ErrorClassUpstreamTimeout \<Rightarrow> InterEventTimeout
      | _ \<Rightarrow> UnknownTermination)"

text \<open>
  The usage record draft is its end class and the classification it last recorded as its routing
  reason (the JSON object of \<open>RoutingReasonPayload\<close> has exactly those fields).
\<close>

record draft =
  dr_endClass :: end_class
  dr_reason :: "classification option"

definition applyClassification :: "draft option \<Rightarrow> classification \<Rightarrow> draft option" where
  "applyClassification d c =
     map_option (\<lambda>d. (if dr_endClass d = NoEndClass \<or> dr_endClass d = UnknownTermination
                      then d\<lparr> dr_reason := Some c, dr_endClass := streamEndClassForErrorClass (cl_class c) \<rparr>
                      else d\<lparr> dr_reason := Some c \<rparr>)) d"

section \<open>The choice of the rule\<close>

text \<open>The order in which rules win: priority, then version, then a provider of their own.\<close>

lemma betterRule_trans:
  "betterRule a b p \<Longrightarrow> betterRule b c p \<Longrightarrow> betterRule a c p"
  by (auto simp: betterRule_def split: if_splits)

lemma betterRule_negative_trans:
  "\<not> betterRule a b p \<Longrightarrow> \<not> betterRule b c p \<Longrightarrow> \<not> betterRule a c p"
  by (auto simp: betterRule_def split: if_splits)

lemma betterRule_irrefl [simp]: "\<not> betterRule a a p"
  by (simp add: betterRule_def)

lemma best_rule_Some: "\<exists>r. best_rule p ok (Some b) rs = Some r"
  by (induction rs arbitrary: b) auto

lemma best_rule_spec:
  "best_rule p ok best rs = Some r \<Longrightarrow> (\<And>b. best = Some b \<Longrightarrow> ok b) \<Longrightarrow>
     ok r \<and> (best = Some r \<or> r \<in> set rs) \<and>
     (\<forall>r'. (best = Some r' \<or> r' \<in> set rs \<and> ok r') \<longrightarrow> \<not> betterRule r' r p)"
proof (induction p ok best rs rule: best_rule.induct)
  case (1 p ok best)
  then show ?case by auto
next
  case (2 p ok best x rs)
  show ?case
  proof (cases "ok x")
    case False
    with 2 show ?thesis by auto
  next
    case ok: True
    show ?thesis
    proof (cases best)
      case None
      with 2 ok show ?thesis by auto
    next
      case (Some b)
      let ?n = "if betterRule x b p then x else b"
      have "best_rule p ok (Some ?n) rs = Some r" using 2(4) ok Some by (simp split: if_splits)
      moreover have "ok ?n" using 2(5) Some ok by simp
      ultimately have r: "ok r" "r = ?n \<or> r \<in> set rs" "\<not> betterRule ?n r p"
        "\<And>r'. r' \<in> set rs \<Longrightarrow> ok r' \<Longrightarrow> \<not> betterRule r' r p"
        using 2(3) [OF _ Some] ok by (auto split: if_splits)
      have "\<not> betterRule x r p \<and> \<not> betterRule b r p"
        using r(3) betterRule_negative_trans [of x b p r] betterRule_negative_trans [of b x p r] betterRule_trans
        by (auto split: if_splits)
      with r Some show ?thesis by (auto split: if_splits)
    qed
  qed
qed

lemma best_rule_None: "best_rule p ok None rs = None \<longleftrightarrow> (\<forall>r \<in> set rs. \<not> ok r)"
proof (induction rs)
  case Nil
  then show ?case by simp
next
  case (Cons r rs)
  then show ?case using best_rule_Some [of p ok r rs] by auto
qed

section \<open>Reading the table\<close>

lemma trim_word [simp]: "is_plain c \<Longrightarrow> is_plain (last (c # s)) \<Longrightarrow> trim_space (c # s) = c # s"
  by (rule trim_space_plain) simp_all

declare to_lower.simps [simp del]

lemma ascii_word: "list_all (\<lambda>c. is_ascii c \<and> ascii_lower c = c) s = list_all (\<lambda>n. n < 65 \<or> 90 < n \<and> n < 128) (map of_char s :: nat list)"
proof -
  have "(char_of (of_char c + 32 :: nat) :: char) \<noteq> c" if "(of_char c :: nat) \<le> 90" for c
  proof
    assume "(char_of (of_char c + 32 :: nat) :: char) = c"
    then have "(of_char (char_of (of_char c + 32 :: nat) :: char) :: nat) = of_char c" by simp
    with that show False by simp
  qed
  then show ?thesis by (auto simp: list.pred_map is_ascii_def ascii_lower_def Let_def list_all_iff)
qed

lemma status_simps:
  "statusMatches ''*'' st" "statusMatches ''5xx'' st \<longleftrightarrow> 500 \<le> st \<and> st \<le> 599" "statusMatches ''0'' st \<longleftrightarrow> st = 0"
  "statusMatches ''400'' st \<longleftrightarrow> st = 400" "statusMatches ''401'' st \<longleftrightarrow> st = 401"
  "statusMatches ''402'' st \<longleftrightarrow> st = 402" "statusMatches ''403'' st \<longleftrightarrow> st = 403"
  "statusMatches ''413'' st \<longleftrightarrow> st = 413" "statusMatches ''429'' st \<longleftrightarrow> st = 429"
  "statusMatches ''503'' st \<longleftrightarrow> st = 503" "statusMatches ''504'' st \<longleftrightarrow> st = 504"
  "statusMatches ''529'' st \<longleftrightarrow> st = 529"
  by (auto simp: statusMatches_def is_plain_def to_lower_word ascii_word parse_int64_def num_of_def digit_val_def
      is_digit_def in_i64_def)

lemma provider_simps:
  "providerMatches ''*'' p" "providerMatches ''grok'' p \<longleftrightarrow> p = ''grok''"
  "providerMatches ''openai'' p \<longleftrightarrow> p = ''openai''" "providerMatches ''anthropic'' p \<longleftrightarrow> p = ''anthropic''"
  "providerMatches ''gemini'' p \<longleftrightarrow> p = ''gemini''" "providerMatches ''antigravity'' p \<longleftrightarrow> p = ''antigravity''"
  "providerMatches ''bedrock'' p \<longleftrightarrow> p = ''bedrock''" "providerMatches ''codex'' p \<longleftrightarrow> p = ''codex''"
  by (auto simp: providerMatches_def is_plain_def to_lower_word ascii_word)

lemma keyword_simps:
  "to_lower ''invalid_grant'' = ''invalid_grant''" "to_lower ''token_revoked'' = ''token_revoked''"
  "to_lower ''token_invalidated'' = ''token_invalidated''" "to_lower ''invalid_api_key'' = ''invalid_api_key''"
  "to_lower ''incorrect api key'' = ''incorrect api key''"
  by (simp_all add: to_lower_word ascii_word)

lemma no_header_matches [simp]: "headerMatches hs no_header"
  by (simp add: headerMatches_def no_header_def)

section \<open>From a classification to its rule\<close>

lemma classify_rule:
  assumes "classify lane hdly bdly st hs body provider = Inr c"
  obtains r where "0 \<le> st" "r \<in> set errorRules"
    "rule_matches lane st hs (to_lower body) (normalizeProvider lane provider) r"
    "\<And>r'. r' \<in> set errorRules \<Longrightarrow> rule_matches lane st hs (to_lower body) (normalizeProvider lane provider) r' \<Longrightarrow>
       \<not> betterRule r' r (normalizeProvider lane provider)"
    "c = \<lparr> cl_class = er_class r, cl_confidence = confidenceForTier (er_tier r), cl_rule = er_id r,
           cl_version = er_version r, cl_tier = er_tier r, cl_action = er_action r,
           cl_fsm = transitionFor (er_action r) (er_tier r), cl_retryMs = max (hdly hs) (bdly body) \<rparr>"
proof -
  obtain r where r: "0 \<le> st" "matchRule lane st hs body provider = Some r"
    "c = \<lparr> cl_class = er_class r, cl_confidence = confidenceForTier (er_tier r), cl_rule = er_id r,
           cl_version = er_version r, cl_tier = er_tier r, cl_action = er_action r,
           cl_fsm = transitionFor (er_action r) (er_tier r), cl_retryMs = max (hdly hs) (bdly body) \<rparr>"
    using assms by (auto simp: classify_def split: if_splits option.splits)
  from best_rule_spec [OF r(2) [unfolded matchRule_def Let_def]] r show thesis by (intro that [of r]) auto
qed

lemma table_tiers:
  "list_all (\<lambda>r. (er_action r = RetryActionPermanentDisable \<longleftrightarrow> er_tier r = TierIronClad) \<and>
     (er_tier r = TierAmbiguous \<longrightarrow>
        er_action r \<in> {RetryActionCountedDisable, RetryActionCooldown, RetryActionWarnOnly}) \<and>
     (er_tier r = TierNone \<longrightarrow> er_action r = RetryActionPassThrough)) errorRules"
  by (simp add: errorRules_def rule_def)

lemma catch_all: "rule ''R-016'' 1 70 ''*'' ''*'' [] ErrorClassUnknown RetryActionPassThrough TierNone False \<in> set errorRules"
  by (simp add: errorRules_def)

lemma catch_all_matches:
  "rule_matches lane st hs body p (rule ''R-016'' 1 70 ''*'' ''*'' [] ErrorClassUnknown RetryActionPassThrough TierNone False)"
  by (simp add: rule_matches_def rule_def provider_simps status_simps)

text \<open>The rules that stand for a revoked credential.\<close>

definition auth_evidence :: "bool \<Rightarrow> int \<Rightarrow> string \<Rightarrow> string \<Rightarrow> bool" where
  "auth_evidence lane st body p \<longleftrightarrow>
     st = 401 \<and> (contains body ''invalid_grant'' \<or> contains body ''token_revoked'' \<or> contains body ''token_invalidated'')
     \<or> lane \<and> p = ''grok'' \<and> st = 400 \<and> (contains body ''invalid_api_key'' \<or> contains body ''incorrect api key'')"

lemma revoked_rules:
  "list_all (\<lambda>r. (er_class r = ErrorClassTokenRevoked \<or> er_class r = ErrorClassOAuthInvalidGrant \<and> er_id r = ''R-001'')
     \<longrightarrow> rule_matches lane st hs body p r \<longrightarrow> auth_evidence lane st body p) errorRules"
  by (simp add: errorRules_def rule_def rule_matches_def status_simps provider_simps keyword_simps auth_evidence_def)

lemma no_credential_rejected: "list_all (\<lambda>r. er_class r \<noteq> ErrorClassCredentialRejected) errorRules"
  by (simp add: errorRules_def rule_def)

section \<open>Examples\<close>

lemma provider_examples:
  "normalizeProvider lane ''openai'' = ''openai''" "normalizeProvider lane ''xai'' = (if lane then ''grok'' else ''xai'')"
  by (simp_all add: normalizeProvider_def is_plain_def to_lower_word ascii_word)

lemma bare_401:
  "classify lane hdly bdly 401 hs [] ''openai'' =
     Inr \<lparr> cl_class = ErrorClassOAuthInvalidGrant, cl_confidence = ConfidenceHigh, cl_rule = ''R-009'', cl_version = 1,
           cl_tier = TierIronClad, cl_action = RetryActionPermanentDisable, cl_fsm = FsmTransitionDisabled,
           cl_retryMs = max (hdly hs) (bdly []) \<rparr>"
  by (simp add: classify_def matchRule_def provider_examples to_lower.simps errorRules_def rule_def rule_matches_def
      status_simps provider_simps keyword_simps to_lower_word ascii_word betterRule_def confidenceForTier_def
      transitionFor_def)

lemma revoked_401:
  "classify lane hdly bdly 401 hs ''token_revoked'' ''openai'' =
     Inr \<lparr> cl_class = ErrorClassTokenRevoked, cl_confidence = ConfidenceHigh, cl_rule = ''R-004'', cl_version = 1,
           cl_tier = TierIronClad, cl_action = RetryActionPermanentDisable, cl_fsm = FsmTransitionDisabled,
           cl_retryMs = max (hdly hs) (bdly ''token_revoked'') \<rparr>"
  by (simp add: classify_def matchRule_def provider_examples errorRules_def rule_def rule_matches_def
      status_simps provider_simps keyword_simps to_lower_word ascii_word betterRule_def confidenceForTier_def
      transitionFor_def)

section \<open>Properties\<close>

text \<open>
  Every upstream response is classified: only a negative status is refused, and the table
  never runs out of rules.
\<close>

theorem classify_total:
  "classify lane hdly bdly st hs body provider = Inl e \<longleftrightarrow> st < 0 \<and> e = NegativeStatus"
proof -
  have "matchRule lane st hs body provider \<noteq> None"
    using catch_all catch_all_matches by (simp add: matchRule_def best_rule_None Let_def) blast
  then show ?thesis by (auto simp: classify_def)
qed

text \<open>
  The rule that wins is in force for the response and no rule in force has a smaller priority
  number, so specific evidence (a revoked token, an exhausted credit) is never shadowed by a
  general rule of its status.
\<close>

theorem classify_picks_best_rule:
  assumes "classify lane hdly bdly st hs body provider = Inr c"
  shows "\<exists>r \<in> set errorRules. er_id r = cl_rule c \<and> er_class r = cl_class c \<and>
    rule_matches lane st hs (to_lower body) (normalizeProvider lane provider) r \<and>
    (\<forall>r' \<in> set errorRules. rule_matches lane st hs (to_lower body) (normalizeProvider lane provider) r' \<longrightarrow>
       er_priority r \<le> er_priority r')"
proof (rule classify_rule [OF assms])
  fix r
  assume r: "r \<in> set errorRules" "rule_matches lane st hs (to_lower body) (normalizeProvider lane provider) r"
    and best: "\<And>r'. r' \<in> set errorRules \<Longrightarrow>
       rule_matches lane st hs (to_lower body) (normalizeProvider lane provider) r' \<Longrightarrow>
       \<not> betterRule r' r (normalizeProvider lane provider)"
    and c: "c = \<lparr> cl_class = er_class r, cl_confidence = confidenceForTier (er_tier r), cl_rule = er_id r,
           cl_version = er_version r, cl_tier = er_tier r, cl_action = er_action r,
           cl_fsm = transitionFor (er_action r) (er_tier r), cl_retryMs = max (hdly hs) (bdly body) \<rparr>"
  have "er_priority r \<le> er_priority r'"
    if "r' \<in> set errorRules" "rule_matches lane st hs (to_lower body) (normalizeProvider lane provider) r'" for r'
    using best [OF that] by (auto simp: betterRule_def split: if_splits)
  with r c show ?thesis by auto
qed

theorem classify_picks_best_rule_witness:
  "\<exists>r \<in> set errorRules. er_id r = ''R-009'' \<and>
     (\<forall>r' \<in> set errorRules. rule_matches False 401 Map.empty [] ''openai'' r' \<longrightarrow> er_priority r \<le> er_priority r')"
  using classify_picks_best_rule [OF bare_401 [of False "\<lambda>_. 0" "\<lambda>_. 0" Map.empty]]
  by (auto simp: provider_examples to_lower.simps)

text \<open>
  The floor of the state machine: a classification disables an account exactly when it rests
  on iron-clad evidence. Whatever the response, an ambiguous classification only counts, cools
  down or warns, and neither its action nor its transition disables.
\<close>

theorem ambiguous_never_disables:
  assumes "classify lane hdly bdly st hs body provider = Inr c"
  shows "(cl_fsm c = FsmTransitionDisabled \<longleftrightarrow> cl_tier c = TierIronClad)
    \<and> (cl_action c = RetryActionPermanentDisable \<longleftrightarrow> cl_tier c = TierIronClad)
    \<and> cl_fsm c \<noteq> FsmTransitionManualOnly
    \<and> (cl_tier c = TierAmbiguous \<longrightarrow>
         cl_action c \<in> {RetryActionCountedDisable, RetryActionCooldown, RetryActionWarnOnly})"
proof (rule classify_rule [OF assms])
  fix r
  assume "r \<in> set errorRules"
    and c: "c = \<lparr> cl_class = er_class r, cl_confidence = confidenceForTier (er_tier r), cl_rule = er_id r,
           cl_version = er_version r, cl_tier = er_tier r, cl_action = er_action r,
           cl_fsm = transitionFor (er_action r) (er_tier r), cl_retryMs = max (hdly hs) (bdly body) \<rparr>"
  with table_tiers have "(er_action r = RetryActionPermanentDisable \<longleftrightarrow> er_tier r = TierIronClad) \<and>
     (er_tier r = TierAmbiguous \<longrightarrow>
        er_action r \<in> {RetryActionCountedDisable, RetryActionCooldown, RetryActionWarnOnly}) \<and>
     (er_tier r = TierNone \<longrightarrow> er_action r = RetryActionPassThrough)"
    by (simp add: list_all_iff)
  then show ?thesis by (cases "er_tier r") (auto simp: c transitionFor_def)
qed

theorem ambiguous_never_disables_witness:
  "\<exists>c. classify False (\<lambda>_. 0) (\<lambda>_. 0) 401 Map.empty [] ''openai'' = Inr c
     \<and> cl_tier c = TierIronClad \<and> cl_fsm c = FsmTransitionDisabled"
  using ambiguous_never_disables [OF bare_401 [of False "\<lambda>_. 0" "\<lambda>_. 0" Map.empty]]
    bare_401 [of False "\<lambda>_. 0" "\<lambda>_. 0" Map.empty] by simp

text \<open>
  A credential is only judged revoked on machine evidence: when the auth lane takes a
  classified response as iron-clad, the response is a 401 whose body names a revoked, invalidated
  or invalid grant, or, with the lane on, a Grok 400 whose body names a bad key. A bare 401 never
  is.
\<close>

theorem iron_clad_auth_needs_evidence:
  assumes "classify lane hdly bdly st hs body provider = Inr c" and "authFailureClass c = ClassIronClad"
  shows "auth_evidence lane st (to_lower body) (normalizeProvider lane provider)"
proof (rule classify_rule [OF assms(1)])
  fix r
  assume r: "r \<in> set errorRules" "rule_matches lane st hs (to_lower body) (normalizeProvider lane provider) r"
    and c: "c = \<lparr> cl_class = er_class r, cl_confidence = confidenceForTier (er_tier r), cl_rule = er_id r,
           cl_version = er_version r, cl_tier = er_tier r, cl_action = er_action r,
           cl_fsm = transitionFor (er_action r) (er_tier r), cl_retryMs = max (hdly hs) (bdly body) \<rparr>"
  have "er_class r = ErrorClassTokenRevoked \<or> er_class r = ErrorClassOAuthInvalidGrant \<and> er_id r = ''R-001''"
    using assms(2) no_credential_rejected r(1)
    by (auto simp: c authFailureClass_def list_all_iff split: error_class.splits if_splits)
  with revoked_rules [of lane st hs "to_lower body" "normalizeProvider lane provider"] r show ?thesis
    by (auto simp: list_all_iff)
qed

theorem iron_clad_auth_needs_evidence_witness:
  "\<exists>c. classify False (\<lambda>_. 0) (\<lambda>_. 0) 401 Map.empty ''token_revoked'' ''openai'' = Inr c
     \<and> authFailureClass c = ClassIronClad \<and> auth_evidence False 401 ''token_revoked'' ''openai''"
  using iron_clad_auth_needs_evidence [OF revoked_401 [of False "\<lambda>_. 0" "\<lambda>_. 0" Map.empty]]
    revoked_401 [of False "\<lambda>_. 0" "\<lambda>_. 0" Map.empty]
  by (simp add: authFailureClass_def provider_examples keyword_simps)

text \<open>
  The two verdicts on a bare 401 differ: the classification calls it iron-clad and asks for a
  permanent disablement although none of the five iron-clad keywords occurs, while the auth lane
  takes the same classification as ambiguous.
\<close>

theorem bare_401_two_verdicts:
  "\<exists>c. classify lane hdly bdly 401 hs [] ''openai'' = Inr c \<and> cl_tier c = TierIronClad
     \<and> cl_action c = RetryActionPermanentDisable \<and> list_all (\<lambda>k. \<not> contains [] k) ironCladKeywords
     \<and> authFailureClass c = ClassAmbiguous \<and> signalFromClassification 401 c = SignalAuthChallenge"
  by (simp add: bare_401 ironCladKeywords_def authFailureClass_def signalFromClassification_def)

end
