(* ===== verification/Attempt_Error.thy ===== *)
theory Attempt_Error
  imports Error_Normalize
begin

text \<open>
  What the attempt loop may do after a failed attempt (backend/internal/gateway/attempt_error.go):
  the class of a transport error, the retry decision for transport and HTTP errors, the end class
  the router's retry list is checked against, and the budget for staying on the same account.

  A Go error value is the record of what the code asks of it: which sentinels and error types
  \<open>errors.Is\<close> and \<open>errors.As\<close> find in its chain, and its text.
\<close>

section \<open>Transport errors\<close>

datatype transport_class =
  TransportErrorNone | TransportErrorConnectTimeout | TransportErrorNetworkTimeout
| TransportErrorTLSHandshakeFailed | TransportErrorUpstreamHeaderTimeout
| TransportErrorUpstreamBodyIdleTimeout | TransportErrorCredentialExpired
| TransportErrorLocalDispatch | TransportErrorConnectionRefused | TransportErrorDNSFailure
| TransportErrorNetworkUnreachable | TransportErrorProxyFailure | TransportErrorUpstreamConnect
| TransportErrorTLSProfileInvalid

record dispatch_error =
  de_credentialExpired :: bool
  de_code :: "string option"
  de_text :: string
  de_tls :: bool
  de_dnsTimeout :: "bool option"
  de_refused :: bool
  de_unreachable :: bool
  de_netOp :: "string option"
  de_urlOp :: "string option"
  de_timeout :: bool

definition transportErrorClassFromStableCode :: "string \<Rightarrow> transport_class" where
  "transportErrorClassFromStableCode code =
     (if code = ''upstream_dns'' then TransportErrorDNSFailure
      else if code = ''upstream_connection_refused'' then TransportErrorConnectionRefused
      else if code = ''upstream_network_unreachable'' then TransportErrorNetworkUnreachable
      else if code = ''proxy_invalid'' \<or> code = ''proxy_connect'' then TransportErrorProxyFailure
      else if code = ''upstream_timeout'' then TransportErrorConnectTimeout
      else if code = ''tls_handshake'' then TransportErrorTLSHandshakeFailed
      else if code = ''upstream_connect'' then TransportErrorUpstreamConnect
      else if code = ''profile_invalid'' then TransportErrorTLSProfileInvalid
      else TransportErrorLocalDispatch)"

definition isTLSError :: "dispatch_error \<Rightarrow> string \<Rightarrow> bool" where
  "isTLSError e lower \<longleftrightarrow>
     de_tls e \<or> contains lower ''tls handshake'' \<or> contains lower ''tls:'' \<or> contains lower ''x509:''"

definition persistentTransportErrorClass :: "dispatch_error \<Rightarrow> string \<Rightarrow> transport_class" where
  "persistentTransportErrorClass e lower =
     (if contains lower ''proxyconnect'' \<or> contains lower ''proxy authentication required''
      then TransportErrorProxyFailure
      else case de_dnsTimeout e of
             Some t \<Rightarrow> if t then TransportErrorNetworkTimeout else TransportErrorDNSFailure
           | None \<Rightarrow>
               if de_refused e \<or> contains lower ''connection refused'' then TransportErrorConnectionRefused
               else if de_unreachable e \<or> contains lower ''host is unreachable'' \<or> contains lower ''network is unreachable''
               then TransportErrorNetworkUnreachable
               else if contains lower ''no such host'' then TransportErrorDNSFailure
               else TransportErrorNone)"

definition transportErrorClassFromError :: "dispatch_error option \<Rightarrow> transport_class" where
  "transportErrorClassFromError eo =
     (case eo of
        None \<Rightarrow> TransportErrorNone
      | Some e \<Rightarrow>
          if de_credentialExpired e then TransportErrorCredentialExpired
          else case de_code e of
            Some code \<Rightarrow> transportErrorClassFromStableCode code
          | None \<Rightarrow>
              (let lower = to_lower (de_text e)
               in if contains lower ''awaiting response headers'' \<or> contains lower ''response header timeout'' \<or>
                     contains lower ''header timeout''
                  then TransportErrorUpstreamHeaderTimeout
                  else if contains lower ''body idle timeout'' \<or> contains lower ''idle timeout''
                  then TransportErrorUpstreamBodyIdleTimeout
                  else if isTLSError e lower then TransportErrorTLSHandshakeFailed
                  else if persistentTransportErrorClass e lower \<noteq> TransportErrorNone
                  then persistentTransportErrorClass e lower
                  else if contains lower ''connect timeout'' \<or> contains lower ''connection timeout''
                  then TransportErrorConnectTimeout
                  else if (case de_netOp e of Some op \<Rightarrow> equal_fold op ''dial'' \<and> de_timeout e | None \<Rightarrow> False)
                  then TransportErrorConnectTimeout
                  else case de_urlOp e of
                         Some op \<Rightarrow>
                           if to_lower op = ''dial'' \<and> de_timeout e then TransportErrorConnectTimeout
                           else if de_timeout e then TransportErrorNetworkTimeout
                           else TransportErrorLocalDispatch
                       | None \<Rightarrow> if de_timeout e then TransportErrorNetworkTimeout else TransportErrorLocalDispatch))"

section \<open>Retry decisions\<close>

datatype refresh_intent = RefreshNone | RefreshOAuthHotPath

record retry_decision =
  rd_retryable :: bool
  rd_switchAccount :: bool
  rd_switchPool :: bool
  rd_refresh :: refresh_intent
  rd_status :: int
  rd_clientCode :: string
  rd_clientMessage :: string
  rd_clientRule :: string
  rd_abort :: string
  rd_transport :: transport_class
  rd_authBudget :: bool

definition zero_decision :: retry_decision where
  "zero_decision =
     \<lparr> rd_retryable = False, rd_switchAccount = False, rd_switchPool = False, rd_refresh = RefreshNone, rd_status = 0,
       rd_clientCode = [], rd_clientMessage = [], rd_clientRule = [], rd_abort = [], rd_transport = TransportErrorNone,
       rd_authBudget = False \<rparr>"

definition credentialProtocolIncompatible :: retry_decision where
  "credentialProtocolIncompatible =
     zero_decision\<lparr> rd_retryable := True, rd_switchAccount := True, rd_status := 503,
       rd_abort := ''credential_protocol_incompatible'', rd_authBudget := True \<rparr>"

definition retryableHTTPDecision :: "int \<Rightarrow> string \<Rightarrow> retry_decision" where
  "retryableHTTPDecision st reason =
     zero_decision\<lparr> rd_retryable := True, rd_switchAccount := True, rd_switchPool := True, rd_status := st,
       rd_abort := reason \<rparr>"

definition retryableTransportDecision :: "transport_class \<Rightarrow> int \<Rightarrow> string \<Rightarrow> retry_decision" where
  "retryableTransportDecision c st reason = (retryableHTTPDecision st reason)\<lparr> rd_transport := c \<rparr>"

definition classifyAttemptTransportError :: "transport_class \<Rightarrow> retry_decision" where
  "classifyAttemptTransportError c =
     (case c of
        TransportErrorConnectTimeout \<Rightarrow> retryableTransportDecision c 503 ''transport_connect_timeout''
      | TransportErrorNetworkTimeout \<Rightarrow> retryableTransportDecision c 503 ''transport_network_timeout''
      | TransportErrorTLSHandshakeFailed \<Rightarrow> retryableTransportDecision c 502 ''transport_tls_handshake_failed''
      | TransportErrorUpstreamHeaderTimeout \<Rightarrow> retryableTransportDecision c 503 ''transport_upstream_header_timeout''
      | TransportErrorUpstreamBodyIdleTimeout \<Rightarrow>
          retryableTransportDecision c 503 ''transport_upstream_body_idle_timeout''
      | TransportErrorConnectionRefused \<Rightarrow> retryableTransportDecision c 502 ''transport_connection_refused''
      | TransportErrorDNSFailure \<Rightarrow> retryableTransportDecision c 502 ''transport_dns_failure''
      | TransportErrorNetworkUnreachable \<Rightarrow> retryableTransportDecision c 502 ''transport_network_unreachable''
      | TransportErrorProxyFailure \<Rightarrow> retryableTransportDecision c 502 ''transport_proxy_failure''
      | TransportErrorUpstreamConnect \<Rightarrow> retryableTransportDecision c 502 ''transport_upstream_connect_failed''
      | TransportErrorTLSProfileInvalid \<Rightarrow> retryableTransportDecision c 503 ''transport_tls_profile_invalid''
      | TransportErrorCredentialExpired \<Rightarrow>
          zero_decision\<lparr> rd_retryable := True, rd_switchAccount := True, rd_refresh := RefreshOAuthHotPath,
            rd_status := 503, rd_abort := ''local_credential_expired'', rd_transport := c, rd_authBudget := True \<rparr>
      | TransportErrorNone \<Rightarrow> zero_decision
      | TransportErrorLocalDispatch \<Rightarrow>
          zero_decision\<lparr> rd_status := 500, rd_abort := ''local_dispatch_error'', rd_transport := c \<rparr>)"

definition classifyAttemptDispatchError :: "dispatch_error option \<Rightarrow> retry_decision" where
  "classifyAttemptDispatchError e = classifyAttemptTransportError (transportErrorClassFromError e)"

definition decisionFromHTTPClassification :: "int \<Rightarrow> classification \<Rightarrow> retry_decision" where
  "decisionFromHTTPClassification st c =
     (let fallthrough =
        (if 400 \<le> st \<and> st \<le> 499 then zero_decision\<lparr> rd_status := st, rd_abort := ''upstream_client_4xx'' \<rparr>
         else zero_decision\<lparr> rd_status := 502, rd_abort := ''unknown_upstream'' \<rparr>);
          auth = zero_decision\<lparr> rd_retryable := True, rd_switchAccount := True, rd_refresh := RefreshOAuthHotPath,
                   rd_status := 401, rd_abort := ''upstream_auth_failure'', rd_authBudget := True \<rparr>
      in case cl_class c of
           ErrorClassServerError \<Rightarrow> retryableHTTPDecision 502 ''upstream_5xx''
         | ErrorClassOverloaded \<Rightarrow> retryableHTTPDecision 503 ''upstream_overloaded''
         | ErrorClassUpstreamTimeout \<Rightarrow> retryableHTTPDecision 503 ''upstream_timeout''
         | ErrorClassRateLimited \<Rightarrow> retryableHTTPDecision 503 ''upstream_rate_limited''
         | ErrorClassOAuthInvalidGrant \<Rightarrow> auth
         | ErrorClassTokenRevoked \<Rightarrow> auth
         | ErrorClassProjectContextRejected \<Rightarrow>
             zero_decision\<lparr> rd_retryable := True, rd_switchAccount := True, rd_switchPool := True,
               rd_refresh := RefreshOAuthHotPath, rd_status := 503, rd_abort := ''project_context_rejected'' \<rparr>
         | ErrorClassPlatformPolicy \<Rightarrow> zero_decision\<lparr> rd_status := 403, rd_abort := ''upstream_forbidden'' \<rparr>
         | ErrorClassRequestTooLarge \<Rightarrow> zero_decision\<lparr> rd_status := 400, rd_abort := ''request_too_large'' \<rparr>
         | ErrorClassNetworkTimeout \<Rightarrow> retryableHTTPDecision 503 ''transport_network_timeout''
         | _ \<Rightarrow> fallthrough)"

definition classifyAttemptHTTPError ::
    "bool \<Rightarrow> (headers \<Rightarrow> int) \<Rightarrow> (string \<Rightarrow> int) \<Rightarrow> int \<Rightarrow> headers \<Rightarrow> string \<Rightarrow> string \<Rightarrow>
     classify_error + retry_decision \<times> classification" where
  "classifyAttemptHTTPError lane hdly bdly st hs body provider =
     (case classify lane hdly bdly st hs body provider of
        Inl e \<Rightarrow> Inl e
      | Inr c \<Rightarrow> Inr (decisionFromHTTPClassification st c, c))"

section \<open>End classes\<close>

definition reasons_5xx :: "string list" where
  "reasons_5xx =
     [''upstream_5xx'', ''upstream_overloaded'', ''pool_no_capacity'', ''pool_select_error'', ''pool_select_no_account'',
      ''credential_resolve_error'', ''upstream_dispatch_error'', ''upstream_empty_response'', ''local_credential_expired'',
      ''transport_connection_refused'', ''transport_dns_failure'', ''transport_network_unreachable'',
      ''transport_proxy_failure'', ''transport_upstream_connect_failed'', ''transport_tls_profile_invalid'']"

definition reasons_timeout :: "string list" where
  "reasons_timeout =
     [''upstream_timeout'', ''transport_connect_timeout'', ''transport_network_timeout'',
      ''transport_upstream_header_timeout'', ''transport_upstream_body_idle_timeout'']"

definition endClassFromAttempt :: "classification \<Rightarrow> retry_decision \<Rightarrow> end_class" where
  "endClassFromAttempt c d =
     (case applyClassification (Some \<lparr> dr_endClass = NoEndClass, dr_reason = None \<rparr>) c of
        None \<Rightarrow> UnknownTermination
      | Some dr \<Rightarrow>
          if dr_endClass dr \<noteq> NoEndClass \<and> dr_endClass dr \<noteq> UnknownTermination then dr_endClass dr
          else if rd_transport d \<in> {TransportErrorConnectTimeout, TransportErrorNetworkTimeout,
                  TransportErrorUpstreamHeaderTimeout, TransportErrorUpstreamBodyIdleTimeout}
          then InterEventTimeout
          else if rd_transport d \<in> {TransportErrorTLSHandshakeFailed, TransportErrorCredentialExpired,
                  TransportErrorConnectionRefused, TransportErrorDNSFailure, TransportErrorNetworkUnreachable,
                  TransportErrorProxyFailure, TransportErrorUpstreamConnect, TransportErrorTLSProfileInvalid}
          then UpstreamError5xx
          else if rd_abort d \<in> set reasons_5xx then UpstreamError5xx
          else if rd_abort d = ''upstream_rate_limited'' \<or> rd_abort d = ''queue_wait'' then UpstreamRateLimit
          else if rd_abort d \<in> set reasons_timeout then InterEventTimeout
          else UnknownTermination)"

section \<open>Staying on the same account\<close>

definition maxSameAccountTransientRetries :: int where "maxSameAccountTransientRetries = 5"

definition sameAccountTransientEligible :: "error_class \<Rightarrow> retry_decision \<Rightarrow> bool" where
  "sameAccountTransientEligible cls d \<longleftrightarrow>
     rd_retryable d \<and> \<not> rd_authBudget d \<and>
     rd_transport d \<notin> {TransportErrorConnectionRefused, TransportErrorDNSFailure, TransportErrorNetworkUnreachable,
       TransportErrorProxyFailure, TransportErrorUpstreamConnect, TransportErrorTLSProfileInvalid} \<and>
     cls \<in> {ErrorClassRateLimited, ErrorClassOverloaded, ErrorClassServerError, ErrorClassUpstreamTimeout,
       ErrorClassNetworkTimeout}"

definition willSameAccountTransientRetry :: "retry_decision \<Rightarrow> error_class \<Rightarrow> int \<Rightarrow> int \<Rightarrow> bool \<Rightarrow> bool" where
  "willSameAccountTransientRetry d cls used budget delivered \<longleftrightarrow>
     \<not> (delivered \<or> budget \<le> 0 \<or> used < 0 \<or> budget \<le> used) \<and> sameAccountTransientEligible cls d"

text \<open>The decision and the counter are updated through pointers: they are returned beside the verdict.\<close>

definition reserveSameAccountTransientRetry ::
    "retry_decision \<Rightarrow> error_class \<Rightarrow> int \<Rightarrow> int \<Rightarrow> bool \<Rightarrow> bool \<times> retry_decision \<times> int" where
  "reserveSameAccountTransientRetry d cls used budget delivered =
     (if willSameAccountTransientRetry d cls used budget delivered
      then (True, d\<lparr> rd_switchAccount := False \<rparr>, used + 1)
      else (False, d, used))"

definition parseSameAccountTransientRetryBudget :: "string \<Rightarrow> int" where
  "parseSameAccountTransientRetryBudget raw =
     (case parse_int64 (trim_space raw) of
        None \<Rightarrow> 0
      | Some n \<Rightarrow> if n \<le> 0 then 0 else if maxSameAccountTransientRetries < n then maxSameAccountTransientRetries else n)"

section \<open>A run of failed attempts on one account\<close>

fun same_account_run ::
    "int \<Rightarrow> int \<Rightarrow> (retry_decision \<times> error_class \<times> bool) list \<Rightarrow> nat \<times> int" where
  "same_account_run budget used [] = (0, used)"
| "same_account_run budget used ((d, cls, delivered) # fs) =
     (let (kept, d', used) = reserveSameAccountTransientRetry d cls used budget delivered;
          (n, used) = same_account_run budget used fs
      in (if kept then Suc n else n, used))"

lemma same_account_run_bound:
  "0 \<le> used \<Longrightarrow> snd (same_account_run budget used fs) = used + int (fst (same_account_run budget used fs)) \<and>
     snd (same_account_run budget used fs) \<le> max used budget"
proof (induction budget used fs rule: same_account_run.induct)
  case (1 budget used)
  then show ?case by simp
next
  case (2 budget used d cls delivered fs)
  obtain kept d' u where r: "reserveSameAccountTransientRetry d cls used budget delivered = (kept, d', u)"
    by (metis prod_cases3)
  have u: "if kept then u = used + 1 \<and> used < budget else u = used"
    using r by (auto simp: reserveSameAccountTransientRetry_def willSameAccountTransientRetry_def split: if_splits)
  have "0 \<le> u" using u "2.prems" by (auto split: if_splits)
  from "2.IH" [OF r [symmetric] refl refl this] u show ?case
    by (auto simp: r split: prod.splits if_splits)
qed

lemma parse_budget_bounds:
  "0 \<le> parseSameAccountTransientRetryBudget raw" "parseSameAccountTransientRetryBudget raw \<le> 5"
  by (simp_all add: parseSameAccountTransientRetryBudget_def maxSameAccountTransientRetries_def split: option.split)

lemmas decision_simps =
  classifyAttemptTransportError_def decisionFromHTTPClassification_def retryableTransportDecision_def
  retryableHTTPDecision_def zero_decision_def

definition decision_ok :: "retry_decision \<Rightarrow> bool" where
  "decision_ok d \<longleftrightarrow>
     (rd_retryable d \<longleftrightarrow> rd_switchAccount d) \<and> (rd_switchPool d \<longrightarrow> rd_retryable d) \<and>
     (rd_refresh d \<noteq> RefreshNone \<longrightarrow> rd_retryable d) \<and>
     (rd_authBudget d \<longrightarrow> rd_retryable d \<and> \<not> rd_switchPool d \<and> rd_refresh d = RefreshOAuthHotPath)"

lemma http_decision_ok: "decision_ok (decisionFromHTTPClassification st c)"
  by (cases "cl_class c") (simp_all add: decision_ok_def decision_simps Let_def)

lemma transport_decision_ok: "decision_ok (classifyAttemptTransportError c)"
  by (cases c) (simp_all add: decision_ok_def decision_simps)

lemmas end_class_simps =
  endClassFromAttempt_def applyClassification_def streamEndClassForErrorClass_def reasons_5xx_def reasons_timeout_def

lemma table_pass_through:
  "list_all (\<lambda>r. er_action r = RetryActionPassThrough \<longrightarrow>
     er_class r = ErrorClassRequestTooLarge \<or> er_class r = ErrorClassUnknown) errorRules"
  by (simp add: errorRules_def rule_def)

section \<open>Properties\<close>

text \<open>
  What a classified HTTP error allows: retrying and leaving the account go together; the auth
  budget is only spent on a retry that stays in the pool and refreshes the OAuth credential; every
  other retry but the project recovery ends in a class the router retries; and a response that is
  passed through to the client is never retried.
\<close>

theorem http_retry_decision_sound:
  assumes "classifyAttemptHTTPError lane hdly bdly st hs body provider = Inr (d, c)"
  shows "decision_ok d
    \<and> (rd_retryable d \<and> \<not> rd_authBudget d \<and> cl_class c \<noteq> ErrorClassProjectContextRejected \<longrightarrow>
         endClassFromAttempt c d \<in> {UpstreamError5xx, UpstreamRateLimit, InterEventTimeout})
    \<and> (rd_authBudget d \<longrightarrow> endClassFromAttempt c d = UpstreamAuthFailure)
    \<and> (cl_action c = RetryActionPassThrough \<longrightarrow> \<not> rd_retryable d)"
proof -
  obtain cl: "classify lane hdly bdly st hs body provider = Inr c"
    and d: "d = decisionFromHTTPClassification st c"
    using assms by (auto simp: classifyAttemptHTTPError_def split: sum.splits)
  have pass: "cl_class c = ErrorClassRequestTooLarge \<or> cl_class c = ErrorClassUnknown"
    if "cl_action c = RetryActionPassThrough"
    by (rule classify_rule [OF cl]) (use that table_pass_through in \<open>auto simp: list_all_iff\<close>)
  have "rd_retryable d \<and> \<not> rd_authBudget d \<and> cl_class c \<noteq> ErrorClassProjectContextRejected \<longrightarrow>
         endClassFromAttempt c d \<in> {UpstreamError5xx, UpstreamRateLimit, InterEventTimeout}"
    "rd_authBudget d \<longrightarrow> endClassFromAttempt c d = UpstreamAuthFailure"
    unfolding d by (cases "cl_class c"; simp add: decision_simps end_class_simps Let_def)+
  with pass d http_decision_ok show ?thesis by (auto simp: decision_simps)
qed

theorem http_retry_decision_sound_witness:
  "\<exists>d c. classifyAttemptHTTPError False (\<lambda>_. 0) (\<lambda>_. 0) 401 Map.empty [] ''openai'' = Inr (d, c)
     \<and> rd_authBudget d \<and> decision_ok d \<and> endClassFromAttempt c d = UpstreamAuthFailure"
proof -
  obtain d c where dc: "classifyAttemptHTTPError False (\<lambda>_. 0) (\<lambda>_. 0) 401 Map.empty [] ''openai'' = Inr (d, c)"
    "rd_authBudget d"
    using bare_401 [of False "\<lambda>_. 0" "\<lambda>_. 0" Map.empty] by (simp add: classifyAttemptHTTPError_def decision_simps)
  with http_retry_decision_sound [OF dc(1)] show ?thesis by blast
qed

text \<open>
  What a transport error allows, for every class: the same discipline, and every retry that is
  not charged to the auth budget ends in a class the router retries, so no persistent transport
  failure is cut off by its end class.
\<close>

theorem transport_retry_decision_sound:
  fixes c cl
  defines "d \<equiv> classifyAttemptTransportError c"
  shows "decision_ok d
    \<and> (if cl_class cl = NoErrorClass \<and> rd_retryable d
        then endClassFromAttempt cl d \<in> {UpstreamError5xx, InterEventTimeout} else True)
    \<and> (rd_retryable d \<longleftrightarrow> c \<noteq> TransportErrorNone \<and> c \<noteq> TransportErrorLocalDispatch)"
  unfolding d_def using transport_decision_ok [of c]
  by (cases c) (auto simp: decision_simps end_class_simps)

text \<open>
  No error the code can attribute to the network, the proxy, TLS or the credential is written
  off as a local dispatch error: that class is left to errors of which the chain proves nothing.
\<close>

theorem local_dispatch_is_last_resort:
  assumes "transportErrorClassFromError (Some e) = TransportErrorLocalDispatch" and "de_code e = None"
  shows "\<not> de_credentialExpired e \<and> \<not> de_tls e \<and> de_dnsTimeout e = None \<and> \<not> de_refused e
    \<and> \<not> de_unreachable e \<and> \<not> de_timeout e"
  using assms
  by (auto simp: transportErrorClassFromError_def persistentTransportErrorClass_def isTLSError_def Let_def
      split: if_splits option.splits)

theorem local_dispatch_is_last_resort_witness:
  "let e = \<lparr> de_credentialExpired = False, de_code = None, de_text = ''boom'', de_tls = False, de_dnsTimeout = None,
      de_refused = False, de_unreachable = False, de_netOp = None, de_urlOp = None, de_timeout = False \<rparr>
   in transportErrorClassFromError (Some e) = TransportErrorLocalDispatch \<and> \<not> de_timeout e"
proof -
  let ?e = "\<lparr> de_credentialExpired = False, de_code = None, de_text = ''boom'', de_tls = False, de_dnsTimeout = None,
      de_refused = False, de_unreachable = False, de_netOp = None, de_urlOp = None, de_timeout = False \<rparr>"
  have "transportErrorClassFromError (Some ?e) = TransportErrorLocalDispatch"
    by (simp add: transportErrorClassFromError_def persistentTransportErrorClass_def isTLSError_def
        to_lower_word ascii_word)
  with local_dispatch_is_last_resort [OF this] show ?thesis by simp
qed

text \<open>
  Retries on the same account are bounded whatever the platform setting says: over any run of
  failures at most five, and at most the configured number, stay on the account, and the counter
  counts exactly them.
\<close>

theorem same_account_retries_bounded:
  fixes raw fs
  defines "budget \<equiv> parseSameAccountTransientRetryBudget raw"
  shows "int (fst (same_account_run budget 0 fs)) \<le> budget \<and> budget \<le> 5
    \<and> snd (same_account_run budget 0 fs) = int (fst (same_account_run budget 0 fs))"
  using same_account_run_bound [of 0 budget fs] parse_budget_bounds [of raw] by (simp add: budget_def)

end
