(* ===== verification/Pool_Types.thy ===== *)
theory Pool_Types
  imports Prelude Complex_Main
begin

text \<open>
  The data of account selection (backend/internal/pool/router: types.go, gates.go and the reason
  constants of the other gates). Floating-point fields are rationals, so a NaN or an infinity is
  not a value of the model. An acquisition token is a natural number, the nil UUID is 0.
\<close>

section \<open>Reasons and errors\<close>

datatype gate_failure =
  GateFailureTenantFilter | GateFailureLifecycle | GateFailureChannel | GateFailureProtocolFamily
| GateFailureModel | GateFailureModelCooldown | GateFailureCapability | GateFailureCredential
| GateFailureHealth | GateFailureAuthCooldown | GateFailureGroupPolicy | GateFailurePerRequestExclusion
| GateFailurePinnedAccount | GateFailureScoredBand | GateFailureUpstreamQuota | GateFailureSlotCapacity
| GateFailureSlotManager | GateFailureWindowCost | GateFailureSessionCount | GateFailureContextWindow
| GateFailureRatePrecheck

definition gate_text :: "gate_failure \<Rightarrow> string" where
  "gate_text r =
     (case r of
        GateFailureTenantFilter \<Rightarrow> ''tenant_filter'' | GateFailureLifecycle \<Rightarrow> ''lifecycle''
      | GateFailureChannel \<Rightarrow> ''channel'' | GateFailureProtocolFamily \<Rightarrow> ''protocol_family''
      | GateFailureModel \<Rightarrow> ''model'' | GateFailureModelCooldown \<Rightarrow> ''model_cooldown''
      | GateFailureCapability \<Rightarrow> ''capability'' | GateFailureCredential \<Rightarrow> ''credential''
      | GateFailureHealth \<Rightarrow> ''health'' | GateFailureAuthCooldown \<Rightarrow> ''auth_cooldown''
      | GateFailureGroupPolicy \<Rightarrow> ''group_policy'' | GateFailurePerRequestExclusion \<Rightarrow> ''per_request_exclusion''
      | GateFailurePinnedAccount \<Rightarrow> ''pinned_account'' | GateFailureScoredBand \<Rightarrow> ''scored_band''
      | GateFailureUpstreamQuota \<Rightarrow> ''upstream_quota_exhausted'' | GateFailureSlotCapacity \<Rightarrow> ''slot_capacity''
      | GateFailureSlotManager \<Rightarrow> ''slot_manager'' | GateFailureWindowCost \<Rightarrow> ''window_cost_limit''
      | GateFailureSessionCount \<Rightarrow> ''session_count_limit'' | GateFailureContextWindow \<Rightarrow> ''context_window''
      | GateFailureRatePrecheck \<Rightarrow> ''rate_precheck_limit'')"

datatype exhaustion_family =
  ExhaustionFamilyUnknown | ExhaustionFamilyCapacity | ExhaustionFamilyStaticMismatch
| ExhaustionFamilyContextWindow | ExhaustionFamilyMixed

datatype pool_sentinel =
  ErrBindingConcurrencyLimited | ErrBindingRateLimited | ErrKeyRateLimited | ErrGroupPolicyUnavailable
| ErrNoEligibleAccount | ErrNoSlotAvailable | ErrAllChannelsDegraded | ErrClaimRace
| ErrSlotManagerUnavailable

record exhaustion =
  xh_family :: exhaustion_family
  xh_reasons :: "(gate_failure \<times> int) list"

text \<open>A sentinel, the capacity error around one, or any other error by its message.\<close>

datatype select_error =
  Sentinel pool_sentinel
| NoCapacityError pool_sentinel instant exhaustion
| OtherError string

section \<open>Accounts, requests, policies\<close>

record model_rate_limit =
  ml_resetAt :: instant
  ml_reason :: string

record account =
  as_id :: int
  as_tenant :: int
  as_protocol :: string
  as_priority :: int
  as_weight :: int
  as_costRatio :: "rat option"
  as_loadRate :: rat
  as_lastUsedAt :: instant
  as_maxConcurrency :: int
  as_waitTimeoutMS :: int
  as_maxWaiting :: int
  as_healthState :: string
  as_healthUntil :: instant
  as_modelLimits :: "string \<rightharpoonup> model_rate_limit"
  as_windowCostLimit :: int
  as_maxSessions :: int
  as_disableCooling :: bool
  as_rpmLimit :: int
  as_tpmLimit :: int
  as_errorEWMA :: rat
  as_latencyEWMA :: rat
  as_sampleCount :: int
  as_signalAt :: instant
  as_quotaState :: string
  as_quotaKnown :: bool
  as_quotaRemaining :: rat
  as_quotaResetsAt :: instant
  as_quotaAt :: instant

datatype accounting_scope = RateAccountingAll | RateAccountingLogicalOnly | RateAccountingAccountOnly

record sel_request =
  sr_tenant :: int
  sr_user :: int
  sr_apiKey :: int
  sr_poolGroup :: int
  sr_model :: string
  sr_cooldownKey :: string
  sr_protocol :: string
  sr_sessionHash :: string
  sr_continuation :: string
  sr_requestID :: string
  sr_excluded :: "int set"
  sr_pinned :: int
  sr_attemptSeq :: int
  sr_claim :: int
  sr_inputTokens :: int
  sr_contextWindow :: int
  sr_maxOutputTokens :: int
  sr_binding :: int
  sr_bindingRPM :: int
  sr_bindingTPM :: int
  sr_maxParallel :: int
  sr_accounting :: accounting_scope

datatype selection_mode = NoSelectionMode | SelectionModeStrictPriority | SelectionModePriorityWeighted | SelectionModeFillFirst

record routing_policy =
  rp_modelAccounts :: "string \<Rightarrow> int list"
  rp_topK :: int
  rp_broadTopK :: bool
  rp_operatorScoring :: bool
  rp_mode :: selection_mode
  rp_scoringVersion :: string
  rp_fallbackTimeoutMS :: int
  rp_fallbackMaxWaiting :: int
  rp_stickyTimeoutMS :: int
  rp_stickyMaxWaiting :: int

record wait_plan =
  wp_account :: int
  wp_maxConcurrency :: int
  wp_timeoutMS :: int
  wp_maxWaiting :: int

datatype sticky_state = StickyStateNone | StickyStateHit | StickyStateMiss

text \<open>\<open>modelCooldownKey\<close>: the key of model limits, with its fallback.\<close>

definition modelCooldownKey :: "sel_request \<Rightarrow> string" where
  "modelCooldownKey q = (if sr_cooldownKey q \<noteq> [] then sr_cooldownKey q else sr_model q)"

definition freshAt :: "instant \<Rightarrow> duration \<Rightarrow> instant \<Rightarrow> bool" where
  "freshAt seen maxAge t = (if seen = zero_time \<or> t < seen then False else t - seen \<le> maxAge)"

definition adaptiveSignalFreshness :: duration where "adaptiveSignalFreshness = 15 * minute"
definition adaptiveQuotaFreshness :: duration where "adaptiveQuotaFreshness = 2 * hour"

section \<open>An account and a request for the examples\<close>

definition ex_account :: "int \<Rightarrow> account" where
  "ex_account i =
     \<lparr> as_id = i, as_tenant = 1, as_protocol = ''openai'', as_priority = 1, as_weight = 1, as_costRatio = None,
       as_loadRate = 0, as_lastUsedAt = 0, as_maxConcurrency = 4, as_waitTimeoutMS = 0, as_maxWaiting = 0,
       as_healthState = ''healthy'', as_healthUntil = zero_time, as_modelLimits = Map.empty, as_windowCostLimit = 0,
       as_maxSessions = 0, as_disableCooling = False, as_rpmLimit = 0, as_tpmLimit = 0, as_errorEWMA = 0,
       as_latencyEWMA = 0, as_sampleCount = 0, as_signalAt = zero_time, as_quotaState = [], as_quotaKnown = False,
       as_quotaRemaining = 0, as_quotaResetsAt = zero_time, as_quotaAt = zero_time \<rparr>"

definition ex_request :: sel_request where
  "ex_request =
     \<lparr> sr_tenant = 1, sr_user = 1, sr_apiKey = 5, sr_poolGroup = 1, sr_model = ''m'', sr_cooldownKey = [],
       sr_protocol = ''openai'', sr_sessionHash = ''s'', sr_continuation = [], sr_requestID = ''r'', sr_excluded = {},
       sr_pinned = 0, sr_attemptSeq = 0, sr_claim = 9, sr_inputTokens = 10, sr_contextWindow = 0,
       sr_maxOutputTokens = 0, sr_binding = 3, sr_bindingRPM = 0, sr_bindingTPM = 0, sr_maxParallel = 0,
       sr_accounting = RateAccountingAll \<rparr>"

end
