(* ===== verification/Failover.thy ===== *)
theory Failover
  imports Attempt_Error Router Retry_Budget Pool_Types
begin

text \<open>
  From a failed attempt to the next one: the fallback signal of a failure and the failure record
  (backend/internal/bindingfallback/executor: classifier.go, failure.go, sequence.go), the retry
  rule of the chat path (backend/internal/gatewayhttp/chat_completions_attempt.go), and the loop
  over the attempts of a plan (\<open>execution.run\<close> of backend/internal/embeddingshttp/handler.go; the
  completions, rerank, audio and image handlers have the same loop).

  A response body enters as the JSON value \<open>encoding/json\<close> decodes it to. The message of a failure
  is \<open>None\<close> where it is the catalogue's text for the code.
\<close>

section \<open>Signals\<close>

definition zero_classification :: classification where
  "zero_classification =
     \<lparr> cl_class = NoErrorClass, cl_confidence = NoConfidence, cl_rule = [], cl_version = 0, cl_tier = TierNone,
       cl_action = NoRetryAction, cl_fsm = NoFsmTransition, cl_retryMs = 0 \<rparr>"

definition signal_of_class :: "error_class \<Rightarrow> fb_signal option" where
  "signal_of_class c =
     (case c of
        ErrorClassRateLimited \<Rightarrow> Some SignalUpstreamRateLimit
      | ErrorClassServerError \<Rightarrow> Some SignalUpstreamServerError
      | ErrorClassOverloaded \<Rightarrow> Some SignalUpstreamServerError
      | ErrorClassNetworkTimeout \<Rightarrow> Some SignalTransientConnectionFailure
      | ErrorClassUpstreamTimeout \<Rightarrow> Some SignalUpstreamTimeout
      | ErrorClassOAuthInvalidGrant \<Rightarrow> Some SignalUpstreamAuthFailure
      | ErrorClassTokenRevoked \<Rightarrow> Some SignalUpstreamAuthFailure
      | ErrorClassCredentialRejected \<Rightarrow> Some SignalUpstreamAuthFailure
      | ErrorClassKYCRequired \<Rightarrow> Some SignalUpstreamAuthFailure
      | ErrorClassOrgDisabled \<Rightarrow> Some SignalUpstreamAuthFailure
      | ErrorClassWorkspaceDeactivated \<Rightarrow> Some SignalUpstreamAuthFailure
      | ErrorClassCreditExhausted \<Rightarrow> Some SignalUpstreamAuthFailure
      | ErrorClassPlatformPolicy \<Rightarrow> Some SignalPermissionDenied
      | ErrorClassRequestTooLarge \<Rightarrow> Some SignalRequestBodyTooLarge
      | _ \<Rightarrow> None)"

definition signal_of_transport :: "transport_class \<Rightarrow> fb_signal option" where
  "signal_of_transport c =
     (case c of
        TransportErrorConnectTimeout \<Rightarrow> Some SignalConnectTimeout
      | TransportErrorNetworkTimeout \<Rightarrow> Some SignalTransientConnectionFailure
      | TransportErrorUpstreamHeaderTimeout \<Rightarrow> Some SignalFirstByteTimeout
      | TransportErrorUpstreamBodyIdleTimeout \<Rightarrow> Some SignalUpstreamTimeout
      | TransportErrorConnectionRefused \<Rightarrow> Some SignalTransientConnectionFailure
      | TransportErrorDNSFailure \<Rightarrow> Some SignalTransientConnectionFailure
      | TransportErrorNetworkUnreachable \<Rightarrow> Some SignalTransientConnectionFailure
      | TransportErrorProxyFailure \<Rightarrow> Some SignalTransientConnectionFailure
      | TransportErrorCredentialExpired \<Rightarrow> Some SignalUpstreamAuthFailure
      | TransportErrorTLSHandshakeFailed \<Rightarrow> Some SignalLocalConfigurationFailure
      | TransportErrorLocalDispatch \<Rightarrow> Some SignalLocalConfigurationFailure
      | _ \<Rightarrow> None)"

definition reason_signals :: "(string \<times> fb_signal) list" where
  "reason_signals =
     [(''binding_concurrency_limited'', SignalBindingConcurrencyLimit),
      (''binding_rate_limited'', SignalBindingRateLimit),
      (''key_rate_limited'', SignalKeyRateLimit),
      (''pool_no_capacity'', SignalPoolCapacityExhausted),
      (''queue_wait'', SignalQueueWaitTimeout),
      (''queue_wait_cancelled'', SignalQueueWaitCancelled),
      (''upstream_rate_limited'', SignalUpstreamRateLimit),
      (''upstream_5xx'', SignalUpstreamServerError),
      (''upstream_overloaded'', SignalUpstreamServerError),
      (''upstream_timeout'', SignalUpstreamTimeout),
      (''upstream_empty_response'', SignalEmptyResponse),
      (''upstream_auth_failure'', SignalUpstreamAuthFailure),
      (''upstream_credential_rejected'', SignalUpstreamAuthFailure),
      (''local_credential_expired'', SignalUpstreamAuthFailure),
      (''credential_protocol_incompatible'', SignalUpstreamAuthFailure),
      (''credential_resolve_error'', SignalCredentialResolutionFailure),
      (''claim_race'', SignalClaimConflict),
      (''request_too_large'', SignalRequestBodyTooLarge),
      (''upstream_forbidden'', SignalPermissionDenied),
      (''upstream_client_4xx'', SignalRequestMalformed)]"

definition signalFromDecision :: "classification \<Rightarrow> retry_decision \<Rightarrow> fb_signal" where
  "signalFromDecision c d =
     (case signal_of_class (cl_class c) of
        Some s \<Rightarrow> s
      | None \<Rightarrow>
          (case signal_of_transport (rd_transport d) of
             Some s \<Rightarrow> s
           | None \<Rightarrow>
               (case map_of reason_signals (rd_abort d) of
                  Some s \<Rightarrow> s
                | None \<Rightarrow> SignalLocalConfigurationFailure)))"

datatype json = JObject "(string \<times> json) list" | JArray "json list" | JString string | JOther

definition token_keys :: "string list" where
  "token_keys = [''code'', ''type'', ''reason'', ''finish_reason'', ''block_reason'']"

definition token_of :: "string \<Rightarrow> json \<Rightarrow> string set" where
  "token_of key child =
     (case child of
        JString raw \<Rightarrow>
          if to_lower (trim_space key) \<in> set token_keys \<and> to_lower (trim_space raw) \<noteq> []
          then {to_lower (trim_space raw)} else {}
      | _ \<Rightarrow> {})"

fun json_tokens :: "json \<Rightarrow> string set" where
  "json_tokens (JObject kvs) = (\<Union>(key, child) \<in> set kvs. token_of key child \<union> json_tokens child)"
| "json_tokens (JArray vs) = (\<Union>child \<in> set vs. json_tokens child)"
| "json_tokens (JString s) = {}"
| "json_tokens JOther = {}"

definition upstreamMachineTokens :: "json option \<Rightarrow> string set" where
  "upstreamMachineTokens body = (case body of None \<Rightarrow> {} | Some v \<Rightarrow> json_tokens v)"

definition context_tokens :: "string list" where
  "context_tokens =
     [''context_length_exceeded'', ''context_window_exceeded'', ''max_context_length_exceeded'', ''input_too_long'',
      ''too_many_tokens'']"

definition policy_tokens :: "string list" where
  "policy_tokens =
     [''content_policy_violation'', ''content_filter'', ''content_filtered'', ''safety_violation'', ''blocked_by_safety'']"

definition containsToken :: "string set \<Rightarrow> string list \<Rightarrow> bool" where
  "containsToken tokens wanted = list_ex (\<lambda>w. w \<in> tokens) wanted"

definition signalFromUpstream :: "int \<Rightarrow> json option \<Rightarrow> classification \<Rightarrow> retry_decision \<Rightarrow> fb_signal" where
  "signalFromUpstream st body c d =
     (let tokens = upstreamMachineTokens body
      in if (st = 400 \<or> st = 413 \<or> st = 422) \<and> containsToken tokens context_tokens then SignalUpstreamContextWindow
         else if (st = 400 \<or> st = 403) \<and> containsToken tokens policy_tokens then SignalUpstreamContentPolicy
         else signalFromDecision c d)"

section \<open>Pool errors\<close>

text \<open>What \<open>errors.Is\<close> and \<open>errors.As\<close> find in the chain of a selector error.\<close>

record pool_error =
  pe_is :: "pool_sentinel set"
  pe_noCapacity :: "exhaustion_family option"

definition signalFromPoolError :: "pool_error \<Rightarrow> fb_signal" where
  "signalFromPoolError e =
     (case pe_noCapacity e of
        Some fam \<Rightarrow>
          if fam = ExhaustionFamilyContextWindow then SignalLocalContextWindow
          else if fam = ExhaustionFamilyCapacity
          then (if ErrAllChannelsDegraded \<in> pe_is e then SignalAllChannelsDegraded else SignalPoolCapacityExhausted)
          else SignalPoolStaticMismatch
      | None \<Rightarrow>
          if ErrAllChannelsDegraded \<in> pe_is e then SignalAllChannelsDegraded
          else if ErrNoSlotAvailable \<in> pe_is e then SignalPoolCapacityExhausted
          else SignalPoolStaticMismatch)"

section \<open>Failures\<close>

record failure =
  fl_signal :: fb_signal
  fl_retry :: bool
  fl_status :: int
  fl_code :: string
  fl_message :: "string option"
  fl_abort :: string
  fl_retryAfter :: int
  fl_authFailover :: bool
  fl_sideEffectSafe :: bool
  fl_keepAccount :: bool

definition newFailure :: "fb_signal \<Rightarrow> bool \<Rightarrow> int \<Rightarrow> string \<Rightarrow> string \<Rightarrow> int \<Rightarrow> failure" where
  "newFailure s retry st code reason after =
     \<lparr> fl_signal = s, fl_retry = retry, fl_status = st, fl_code = code, fl_message = None, fl_abort = reason,
       fl_retryAfter = after, fl_authFailover = False, fl_sideEffectSafe = True, fl_keepAccount = False \<rparr>"

definition poolFailure :: "pool_error \<Rightarrow> failure" where
  "poolFailure e =
     (if ErrBindingConcurrencyLimited \<in> pe_is e
      then newFailure SignalBindingConcurrencyLimit False 429 ''binding_concurrency_limit_exceeded''
             ''binding_concurrency_limited'' 1
      else if ErrBindingRateLimited \<in> pe_is e
      then newFailure SignalBindingRateLimit False 429 ''rate_limit_exceeded'' ''binding_rate_limited'' 1
      else if ErrKeyRateLimited \<in> pe_is e
      then newFailure SignalKeyRateLimit False 429 ''rate_limit_exceeded'' ''key_rate_limited'' 1
      else if ErrGroupPolicyUnavailable \<in> pe_is e
      then newFailure SignalLocalConfigurationFailure False 503 ''group_policy_unavailable'' ''group_policy_unavailable'' 0
      else if ErrNoEligibleAccount \<in> pe_is e \<or> ErrNoSlotAvailable \<in> pe_is e \<or> ErrAllChannelsDegraded \<in> pe_is e
      then newFailure (signalFromPoolError e) True 503 ''no_capacity'' ''pool_no_capacity'' 0
      else if ErrClaimRace \<in> pe_is e then newFailure SignalClaimConflict False 409 ''claim_race'' ''claim_race'' 1
      else newFailure SignalLocalConfigurationFailure False 500 ''pool_select_error'' ''pool_select_error'' 0)"

definition dispatchFailure :: "dispatch_error option \<Rightarrow> failure" where
  "dispatchFailure e =
     (let d = classifyAttemptDispatchError e
      in (newFailure (signalFromDecision zero_classification d) (rd_retryable d) 502 ''upstream_dispatch_error''
            ''upstream_dispatch_error'' 0)\<lparr> fl_authFailover := rd_authBudget d \<rparr>)"

definition emptyResponseFailure :: failure where
  "emptyResponseFailure =
     newFailure SignalEmptyResponse True 502 ''upstream_empty_response'' ''upstream_empty_response'' 0"

definition readFailure :: "dispatch_error option \<Rightarrow> failure" where
  "readFailure e =
     (let d = classifyAttemptDispatchError e
      in newFailure (signalFromDecision zero_classification d) (rd_retryable d) 502 ''upstream_read_error''
           ''upstream_read_error'' 0)"

definition retryAfterSeconds :: "int \<Rightarrow> int" where
  "retryAfterSeconds ms =
     (if ms \<le> 0 then 0
      else (let s = go_quot ms 1000; s = (if go_rem ms 1000 \<noteq> 0 then s + 1 else s)
            in if 2 ^ 63 - 1 < s then 2 ^ 63 - 1 else s))"

definition upstreamFailureFromDecision :: "int \<Rightarrow> json option \<Rightarrow> retry_decision \<Rightarrow> classification \<Rightarrow> failure" where
  "upstreamFailureFromDecision st body d c =
     (let reason = (if rd_abort d = [] then ''upstream_error'' else rd_abort d);
          status = (if rd_status d \<le> 0 then 502 else rd_status d);
          code = (if rd_clientCode d = [] then ''upstream_dispatch_error'' else rd_clientCode d);
          message = (if rd_clientMessage d = [] then None else Some (rd_clientMessage d))
      in (newFailure (signalFromUpstream st body c d) (rd_retryable d) status code reason
            (retryAfterSeconds (cl_retryMs c)))\<lparr> fl_message := message, fl_authFailover := rd_authBudget d \<rparr>)"

text \<open>The failure, the decision and the counter are pointers that may be nil; all three are returned.\<close>

definition markSameAccountRetry ::
    "failure option \<Rightarrow> retry_decision option \<Rightarrow> error_class \<Rightarrow> int \<Rightarrow> int \<Rightarrow> bool \<Rightarrow>
     failure option \<times> retry_decision option \<times> int" where
  "markSameAccountRetry f d cls used budget delivered =
     (case (f, d) of
        (Some fl, Some dec) \<Rightarrow>
          (let (kept, dec', used') = reserveSameAccountTransientRetry dec cls used budget delivered
           in (Some (if kept then fl\<lparr> fl_keepAccount := True \<rparr> else fl), Some dec', used'))
      | _ \<Rightarrow> (f, d, used))"

definition credentialCompatibilityFailure :: failure where
  "credentialCompatibilityFailure =
     (let d = credentialProtocolIncompatible
      in (newFailure SignalUpstreamAuthFailure (rd_retryable d) (rd_status d) ''credential_resolve_error'' (rd_abort d) 0)
           \<lparr> fl_authFailover := rd_authBudget d \<rparr>)"

definition abortFailure :: failure where
  "abortFailure = newFailure SignalBillingAbortFailure False 500 ''abort_failed'' ''abort_failed'' 0"

section \<open>The retry rule of the chat path\<close>

definition class_text :: "end_class \<Rightarrow> string" where
  "class_text c =
     (case c of NoEndClass \<Rightarrow> [] | StreamEndGraceful \<Rightarrow> ''stream_end_graceful''
      | UpstreamEOFNoTerminal \<Rightarrow> ''upstream_eof_no_terminal'' | UpstreamError4xx \<Rightarrow> ''upstream_error_4xx''
      | UpstreamError5xx \<Rightarrow> ''upstream_error_5xx'' | UpstreamRateLimit \<Rightarrow> ''upstream_rate_limit''
      | UpstreamAuthFailure \<Rightarrow> ''upstream_auth_failure'' | FirstTokenTimeout \<Rightarrow> ''first_token_timeout''
      | InterEventTimeout \<Rightarrow> ''inter_event_timeout'' | TotalStreamTimeout \<Rightarrow> ''total_stream_timeout''
      | ClientDisconnect \<Rightarrow> ''client_disconnect'' | ResponseEventTooLarge \<Rightarrow> ''response_event_too_large''
      | OrchestratorCancel \<Rightarrow> ''orchestrator_cancel'' | AmbiguousUsage \<Rightarrow> ''ambiguous_usage''
      | UnknownTermination \<Rightarrow> ''unknown_termination'')"

definition retryableEndClassAllowed :: "string list \<Rightarrow> end_class \<Rightarrow> bool" where
  "retryableEndClassAllowed allowed c \<longleftrightarrow> c \<noteq> NoEndClass \<and> class_text c \<in> set allowed"

record chat_failure =
  cf_decision :: retry_decision
  cf_endClass :: end_class
  cf_delivered :: bool

definition shouldRetryAttemptFailure ::
    "chat_failure option \<Rightarrow> route_plan \<Rightarrow> bool \<Rightarrow> bool \<Rightarrow> bool \<Rightarrow> bool \<times> bool" where
  "shouldRetryAttemptFailure fo p replayable final authUsed =
     (case fo of
        None \<Rightarrow> (False, False)
      | Some f \<Rightarrow>
          if cf_delivered f \<or> \<not> replayable then (False, False)
          else if rd_authBudget (cf_decision f) \<and> \<not> authUsed then (True, True)
          else if final then (False, False)
          else if rd_retryable (cf_decision f) \<and> retryableEndClassAllowed (rp_retryable p) (cf_endClass f)
          then (True, False)
          else (False, False))"

definition effectiveAttemptBudget :: "bool \<Rightarrow> route_plan \<Rightarrow> int" where
  "effectiveAttemptBudget retry_disabled p =
     (if rp_attempts p = [] then 0
      else if retry_disabled then 1
      else (let n = int (length (rp_attempts p));
                b = (if rp_budget p \<le> 0 then n else rp_budget p);
                b = (if n < b then n else b)
            in if b < 1 then 1 else b))"

section \<open>Observing a failure\<close>

definition normalBudget :: "route_plan \<Rightarrow> int" where
  "normalBudget p =
     (if rp_budget p \<le> 0 \<or> int (length (rp_attempts p)) < rp_budget p then int (length (rp_attempts p)) else rp_budget p)"

definition observeFailure ::
    "failure option \<Rightarrow> route_plan \<Rightarrow> bool \<Rightarrow> bool \<Rightarrow> bool \<Rightarrow> coordinator \<Rightarrow>
     (step_decision \<times> phase_plan option) \<times> coordinator" where
  "observeFailure fo p morePrimary delivered safety co =
     (case fo of
        None \<Rightarrow> ((ActionStop, None), co)
      | Some f \<Rightarrow>
          (let configured = (case targetClass (fl_signal f) of
                               None \<Rightarrow> False
                             | Some c \<Rightarrow> fallbackPhaseForClass p c \<noteq> None);
               (d, co) = observe \<lparr> ob_signal = fl_signal f, ob_retry = fl_retry f, ob_more = morePrimary,
                   ob_configured = configured, ob_safety = safety, ob_delivered = delivered \<rparr> co
           in case d of
                ActionTransition t \<Rightarrow>
                  (case fallbackPhaseForClass p (tn_to t) of
                     None \<Rightarrow> ((ActionStop, None), co)
                   | Some ph \<Rightarrow> ((d, Some ph), co))
              | _ \<Rightarrow> ((d, None), co)))"

section \<open>The attempt loop\<close>

text \<open>
  \<open>att n plan seq excluded\<close> is the outcome of the \<open>n\<close>-th call of \<open>runAttempt\<close>, with the accounts
  excluded so far; the retry budget is consulted at the time \<open>clk n\<close>, where \<open>n\<close> calls have been
  made. The trace lists the attempts made, in order.
\<close>

record attempt_outcome =
  oc_done :: bool
  oc_failure :: "failure option"
  oc_account :: "int option"

type_synonym attempt_fun = "nat \<Rightarrow> attempt_plan \<Rightarrow> nat \<Rightarrow> int set \<Rightarrow> attempt_outcome"

datatype run_end = RunDone | RunWrote "failure option" | RunSilent

record run_result =
  rr_calls :: "(attempt_plan \<times> attempt_outcome) list"
  rr_end :: run_end
  rr_authUsed :: bool
  rr_transition :: "fb_transition option"

record loop_env =
  le_att :: attempt_fun
  le_plan :: route_plan
  le_tenant :: int
  le_clk :: "nat \<Rightarrow> instant"

definition exclude_account :: "attempt_outcome \<Rightarrow> int set \<Rightarrow> int set" where
  "exclude_account oc ex =
     (case oc_account oc of
        None \<Rightarrow> ex
      | Some a \<Rightarrow> (case oc_failure oc of
                    None \<Rightarrow> insert a ex
                  | Some f \<Rightarrow> if fl_keepAccount f then ex else insert a ex))"

definition wants_auth_failover :: "attempt_outcome \<Rightarrow> bool" where
  "wants_auth_failover oc = (case oc_failure oc of None \<Rightarrow> False | Some f \<Rightarrow> fl_authFailover f \<and> fl_retry f)"

text \<open>The budget is asked only when no auth failover has been used, as in the source's condition.\<close>

definition auth_failover_granted ::
    "loop_env \<Rightarrow> nat \<Rightarrow> bool \<Rightarrow> retry_budget option \<Rightarrow> attempt_outcome \<Rightarrow> bool \<times> retry_budget option" where
  "auth_failover_granted env n authUsed rb oc =
     (if wants_auth_failover oc \<and> \<not> authUsed then allow_retry (le_clk env n) (le_tenant env) rb else (False, rb))"

record loop_state =
  ls_i :: nat
  ls_budget :: nat
  ls_authUsed :: bool
  ls_retry :: "retry_budget option"
  ls_co :: coordinator
  ls_excluded :: "int set"
  ls_calls :: "(attempt_plan \<times> attempt_outcome) list"

definition finish :: "loop_state \<Rightarrow> (attempt_plan \<times> attempt_outcome) list \<Rightarrow> run_end \<Rightarrow> fb_transition option \<Rightarrow> run_result" where
  "finish s calls e tn = \<lparr> rr_calls = calls, rr_end = e, rr_authUsed = ls_authUsed s, rr_transition = tn \<rparr>"

definition planned_attempt :: "route_plan \<Rightarrow> nat \<Rightarrow> attempt_plan" where
  "planned_attempt p i =
     (let n = length (rp_attempts p) in rp_attempts p ! (if n \<le> i then n - 1 else i))"

text \<open>The body of the loop: it returns (\<open>Inl\<close>) or goes round again (\<open>Inr\<close>).\<close>

definition run_step :: "loop_env \<Rightarrow> loop_state \<Rightarrow> run_result + loop_state" where
  "run_step env s =
     (let a = planned_attempt (le_plan env) (ls_i s);
          oc = le_att env (length (ls_calls s)) a (ls_i s + 1) (ls_excluded s);
          calls = ls_calls s @ [(a, oc)]
      in if oc_done oc then Inl (finish s calls RunDone None)
         else
           (let ex = exclude_account oc (ls_excluded s);
                (auth, rb) = auth_failover_granted env (length calls) (ls_authUsed s) (ls_retry s) oc;
                s = s\<lparr> ls_retry := rb, ls_excluded := ex, ls_calls := calls \<rparr>
            in if auth
               then Inr (s\<lparr> ls_i := ls_i s + 1, ls_authUsed := True,
                            ls_budget := (if ls_budget s \<le> ls_i s + 1 then ls_budget s + 1 else ls_budget s) \<rparr>)
               else
                 (let ((d, ph), co) = observeFailure (oc_failure oc) (le_plan env) (ls_i s + 1 < ls_budget s) False True (ls_co s);
                      s = s\<lparr> ls_co := co \<rparr>
                  in case d of
                       ActionContinuePrimary \<Rightarrow>
                         (let (ok, rb) = allow_retry (le_clk env (length calls)) (le_tenant env) rb
                          in if ok then Inr (s\<lparr> ls_retry := rb, ls_i := ls_i s + 1 \<rparr>)
                             else Inl (finish s calls (RunWrote (oc_failure oc)) None))
                     | ActionTransition t \<Rightarrow>
                         (let target = hd (ph_attempts (the ph));
                              oc' = le_att env (length calls) target (ls_i s + 2) ex
                          in Inl (finish s (calls @ [(target, oc')])
                                    (if oc_done oc' then RunDone else RunWrote (oc_failure oc')) (Some t)))
                     | ActionStop \<Rightarrow> Inl (finish s calls (RunWrote (oc_failure oc)) None))))"

lemma auth_granted_wants:
  "auth_failover_granted env n authUsed rb oc = (True, rb') \<Longrightarrow> wants_auth_failover oc \<and> \<not> authUsed"
  by (auto simp: auth_failover_granted_def split: if_splits)

lemma run_step_progress:
  assumes "run_step env s = Inr s'"
  shows "ls_i s' = Suc (ls_i s)"
    and "ls_budget s' = ls_budget s \<and> ls_authUsed s' = ls_authUsed s \<or>
         ls_budget s' \<le> Suc (ls_budget s) \<and> ls_authUsed s' \<and> \<not> ls_authUsed s"
  using assms
  by (auto simp: run_step_def Let_def dest!: auth_granted_wants split: if_splits prod.splits step_decision.splits)

function run_loop :: "loop_env \<Rightarrow> loop_state \<Rightarrow> run_result" where
  "run_loop env s =
     (if ls_budget s \<le> ls_i s then finish s (ls_calls s) RunSilent None
      else case run_step env s of Inl r \<Rightarrow> r | Inr s \<Rightarrow> run_loop env s)"
  by pat_completeness auto
termination
proof (relation "measure (\<lambda>(env, s). (ls_budget s - ls_i s) + (if ls_authUsed s then 0 else 1))")
  fix env :: loop_env and s s' :: loop_state
  assume "\<not> ls_budget s \<le> ls_i s" "run_step env s = Inr s'"
  with run_step_progress [OF this(2)]
  show "((env, s'), env, s) \<in> measure (\<lambda>(env, s). (ls_budget s - ls_i s) + (if ls_authUsed s then 0 else 1))"
    by auto
qed simp

declare run_loop.simps [simp del]

definition run_plan :: "loop_env \<Rightarrow> retry_budget option \<Rightarrow> run_result" where
  "run_plan env rb =
     run_loop env \<lparr> ls_i = 0, ls_budget = nat (normalBudget (le_plan env)), ls_authUsed = False, ls_retry = rb,
                    ls_co = new_coordinator, ls_excluded = {}, ls_calls = [] \<rparr>"

section \<open>What a run does\<close>

lemma observe_continue: "fst (observe ob c) = ActionContinuePrimary \<Longrightarrow> ob_more ob \<and> \<not> isTerminal (ob_signal ob)"
  by (auto simp: observe_def Let_def split: if_splits prod.splits option.splits)

lemma observeFailure_continue:
  assumes "observeFailure fo p morePrimary delivered safety co = ((ActionContinuePrimary, ph), co')"
  shows "morePrimary \<and> (\<exists>f. fo = Some f \<and> \<not> isTerminal (fl_signal f))"
proof -
  obtain f where f: "fo = Some f" using assms by (cases fo) (auto simp: observeFailure_def)
  let ?ob = "\<lparr> ob_signal = fl_signal f, ob_retry = fl_retry f, ob_more = morePrimary,
     ob_configured = (case targetClass (fl_signal f) of None \<Rightarrow> False | Some c \<Rightarrow> fallbackPhaseForClass p c \<noteq> None),
     ob_safety = safety, ob_delivered = delivered \<rparr>"
  have "fst (observe ?ob co) = ActionContinuePrimary"
    using assms f by (auto simp: observeFailure_def Let_def split: prod.splits step_decision.splits option.splits)
  from observe_continue [OF this] f show ?thesis by auto
qed

lemma observeFailure_transition:
  assumes "observeFailure fo p morePrimary delivered safety co = ((ActionTransition t, ph), co')"
  shows "(\<exists>q. ph = Some q \<and> fallbackPhaseForClass p (tn_to t) = Some q) \<and>
    (\<exists>f. fo = Some f \<and> \<not> isTerminal (fl_signal f))"
proof -
  obtain f where f: "fo = Some f" using assms by (cases fo) (auto simp: observeFailure_def)
  let ?ob = "\<lparr> ob_signal = fl_signal f, ob_retry = fl_retry f, ob_more = morePrimary,
     ob_configured = (case targetClass (fl_signal f) of None \<Rightarrow> False | Some c \<Rightarrow> fallbackPhaseForClass p c \<noteq> None),
     ob_safety = safety, ob_delivered = delivered \<rparr>"
  obtain c'' where o: "observe ?ob co = (ActionTransition t, c'')"
    using assms f by (auto simp: observeFailure_def Let_def split: prod.splits step_decision.splits option.splits)
  from observe_transition(1) [OF o] have "\<not> isTerminal (fl_signal f)" by (simp add: counted_def)
  with assms f o show ?thesis
    by (auto simp: observeFailure_def Let_def split: option.splits) (metis+)
qed

text \<open>An attempt after which another one may follow.\<close>

definition continuable :: "attempt_outcome \<Rightarrow> bool" where
  "continuable oc \<longleftrightarrow> \<not> oc_done oc \<and>
     (wants_auth_failover oc \<or> (\<exists>f. oc_failure oc = Some f \<and> \<not> isTerminal (fl_signal f)))"

definition call_allowed :: "route_plan \<Rightarrow> fb_transition option \<Rightarrow> attempt_plan \<Rightarrow> bool" where
  "call_allowed p tn a \<longleftrightarrow>
     a \<in> set (rp_attempts p) \<or>
     (\<exists>t ph. tn = Some t \<and> fallbackPhaseForClass p (tn_to t) = Some ph \<and> a = hd (ph_attempts ph))"

definition ended_ok :: "run_result \<Rightarrow> bool" where
  "ended_ok r \<longleftrightarrow>
     (case rr_end r of
        RunDone \<Rightarrow> rr_calls r \<noteq> [] \<and> oc_done (snd (last (rr_calls r)))
      | RunWrote fo \<Rightarrow> rr_calls r \<noteq> [] \<and> \<not> oc_done (snd (last (rr_calls r))) \<and> fo = oc_failure (snd (last (rr_calls r)))
      | RunSilent \<Rightarrow> False)"

definition run_ok :: "loop_env \<Rightarrow> loop_state \<Rightarrow> run_result \<Rightarrow> bool" where
  "run_ok env s r \<longleftrightarrow>
     length (rr_calls r) \<le> ls_budget s + (if rr_authUsed r \<and> \<not> ls_authUsed s then 1 else 0)
       + (if rr_transition r = None then 0 else 1) \<and>
     (ls_authUsed s \<longrightarrow> rr_authUsed r) \<and>
     (\<forall>x \<in> set (butlast (rr_calls r)). continuable (snd x)) \<and> ended_ok r \<and>
     (\<forall>x \<in> set (rr_calls r). call_allowed (le_plan env) (rr_transition r) (fst x))"

definition loop_inv :: "loop_env \<Rightarrow> loop_state \<Rightarrow> bool" where
  "loop_inv env s \<longleftrightarrow>
     ls_i s < ls_budget s \<and> length (ls_calls s) = ls_i s \<and>
     (\<forall>x \<in> set (ls_calls s). continuable (snd x) \<and> fst x \<in> set (rp_attempts (le_plan env)))"

lemma planned_attempt_in: "rp_attempts p \<noteq> [] \<Longrightarrow> planned_attempt p i \<in> set (rp_attempts p)"
  by (auto simp: planned_attempt_def Let_def intro!: nth_mem)

text \<open>The ways one round ends.\<close>

lemma run_step_cases:
  fixes s :: loop_state and env :: loop_env
  defines "a \<equiv> planned_attempt (le_plan env) (ls_i s)"
  defines "oc \<equiv> le_att env (length (ls_calls s)) a (ls_i s + 1) (ls_excluded s)"
  assumes lt: "ls_i s < ls_budget s"
  obtains (finished) "oc_done oc" "run_step env s = Inl (finish s (ls_calls s @ [(a, oc)]) RunDone None)"
  | (again) s' where "continuable oc" "run_step env s = Inr s'" "ls_calls s' = ls_calls s @ [(a, oc)]"
      "ls_i s' = ls_i s + 1" "ls_i s + 1 < ls_budget s'"
      "ls_budget s' = ls_budget s \<and> ls_authUsed s' = ls_authUsed s \<or>
       ls_budget s' \<le> Suc (ls_budget s) \<and> ls_authUsed s' \<and> \<not> ls_authUsed s"
  | (stop) s' where "\<not> oc_done oc" "ls_authUsed s' = ls_authUsed s"
      "run_step env s = Inl (finish s' (ls_calls s @ [(a, oc)]) (RunWrote (oc_failure oc)) None)"
  | (target) s' t ph oc' where "continuable oc" "ls_authUsed s' = ls_authUsed s"
      "fallbackPhaseForClass (le_plan env) (tn_to t) = Some ph"
      "run_step env s = Inl (finish s' (ls_calls s @ [(a, oc), (hd (ph_attempts ph), oc')])
         (if oc_done oc' then RunDone else RunWrote (oc_failure oc')) (Some t))"
proof -
  define calls where "calls = ls_calls s @ [(a, oc)]"
  define ex where "ex = exclude_account oc (ls_excluded s)"
  obtain auth rb where au: "auth_failover_granted env (length calls) (ls_authUsed s) (ls_retry s) oc = (auth, rb)"
    by fastforce
  let ?s = "s\<lparr> ls_retry := rb, ls_excluded := ex, ls_calls := calls \<rparr>"
  obtain d ph co where ob:
    "observeFailure (oc_failure oc) (le_plan env) (ls_i s + 1 < ls_budget s) False True (ls_co s) = ((d, ph), co)"
    by (metis prod.collapse)
  obtain ok rb' where al: "allow_retry (le_clk env (length calls)) (le_tenant env) rb = (ok, rb')" by fastforce
  note unf = run_step_def [of env s, unfolded Let_def, folded a_def, folded oc_def, folded calls_def, folded ex_def]
  show thesis
  proof (cases "oc_done oc")
    case True
    then show thesis by (intro finished) (simp_all add: unf, simp add: calls_def)
  next
    case nd: False
    show thesis
    proof (cases auth)
      case True
      with au nd have c: "continuable oc" "\<not> ls_authUsed s"
        by (auto simp: continuable_def dest!: auth_granted_wants)
      have "run_step env s = Inr (?s\<lparr> ls_i := ls_i s + 1, ls_authUsed := True,
          ls_budget := (if ls_budget s \<le> ls_i s + 1 then ls_budget s + 1 else ls_budget s) \<rparr>)"
        using nd au True by (simp add: unf)
      from again [OF c(1) this] c(2) lt show thesis by (auto simp: calls_def)
    next
      case na: False
      show thesis
      proof (cases d)
        case ActionStop
        show thesis by (rule stop [of "?s\<lparr> ls_co := co \<rparr>"]) (use nd au na ob ActionStop in \<open>simp_all add: unf, simp add: calls_def\<close>)
      next
        case ActionContinuePrimary
        then have c: "ls_i s + 1 < ls_budget s" "continuable oc"
          using observeFailure_continue [OF ob [unfolded ActionContinuePrimary]] nd by (auto simp: continuable_def)
        show thesis
        proof (cases ok)
          case True
          have "run_step env s = Inr (?s\<lparr> ls_co := co, ls_retry := rb', ls_i := ls_i s + 1 \<rparr>)"
            using nd au na ob ActionContinuePrimary al True by (simp add: unf)
          from again [OF c(2) this] c(1) show thesis by (auto simp: calls_def)
        next
          case False
          show thesis
            by (rule stop [of "?s\<lparr> ls_co := co \<rparr>"])
              (use nd au na ob ActionContinuePrimary al False in \<open>simp_all add: unf, simp add: calls_def\<close>)
        qed
      next
        case (ActionTransition t)
        then obtain q f where q: "ph = Some q" "fallbackPhaseForClass (le_plan env) (tn_to t) = Some q"
          "oc_failure oc = Some f" "\<not> isTerminal (fl_signal f)"
          using observeFailure_transition [OF ob [unfolded ActionTransition]] by blast
        then have c: "continuable oc" using nd by (auto simp: continuable_def)
        define oc' where "oc' = le_att env (length calls) (hd (ph_attempts q)) (ls_i s + 2) ex"
        have "run_step env s = Inl (finish (?s\<lparr> ls_co := co \<rparr>) (ls_calls s @ [(a, oc), (hd (ph_attempts q), oc')])
           (if oc_done oc' then RunDone else RunWrote (oc_failure oc')) (Some t))"
          using nd au na ob ActionTransition q by (simp add: unf oc'_def) (simp add: calls_def)
        from target [OF c _ q(2) this] show thesis by simp
      qed
    qed
  qed
qed

lemma loop_inv_lt: "loop_inv env s \<Longrightarrow> ls_i s < ls_budget s"
  by (simp add: loop_inv_def)

lemma run_step_again:
  assumes "loop_inv env s" "rp_attempts (le_plan env) \<noteq> []" "run_step env s = Inr s'"
  shows "loop_inv env s'"
  using assms planned_attempt_in [OF assms(2), of "ls_i s"]
  by (cases rule: run_step_cases [OF loop_inv_lt [OF assms(1)], of env, case_names finished again stop target])
    (auto simp: loop_inv_def)

lemma run_step_returns:
  assumes "loop_inv env s" "rp_attempts (le_plan env) \<noteq> []" "run_step env s = Inl r"
  shows "run_ok env s r"
proof (cases rule: run_step_cases [OF loop_inv_lt [OF assms(1)], of env, case_names finished again stop target])
  case finished
  with assms planned_attempt_in [OF assms(2), of "ls_i s"] show ?thesis
    by (auto simp: loop_inv_def run_ok_def finish_def ended_ok_def call_allowed_def)
next
  case (again s')
  with assms show ?thesis by simp
next
  case (stop s')
  with assms planned_attempt_in [OF assms(2), of "ls_i s"] show ?thesis
    by (auto simp: loop_inv_def run_ok_def finish_def ended_ok_def call_allowed_def)
next
  case (target s' t ph oc')
  with assms planned_attempt_in [OF assms(2), of "ls_i s"] show ?thesis
    by (auto simp: loop_inv_def run_ok_def finish_def ended_ok_def call_allowed_def butlast_append)
qed

lemma run_loop_ok:
  assumes "loop_inv env s" "rp_attempts (le_plan env) \<noteq> []"
  shows "run_ok env s (run_loop env s)"
  using assms
proof (induction env s rule: run_loop.induct)
  case (1 env s)
  have lt: "\<not> ls_budget s \<le> ls_i s" using 1(2) by (simp add: loop_inv_def)
  show ?case
  proof (cases "run_step env s")
    case (Inl r)
    with run_step_returns [OF 1(2,3) Inl] lt show ?thesis by (simp add: run_loop.simps [of env s])
  next
    case (Inr s')
    have "run_ok env s' (run_loop env s')" by (rule 1(1) [OF lt Inr run_step_again [OF 1(2,3) Inr] 1(3)])
    with run_step_progress(2) [OF Inr] have "run_ok env s (run_loop env s')"
      by (auto simp: run_ok_def split: if_splits)
    with Inr lt show ?thesis by (simp add: run_loop.simps [of env s])
  qed
qed

lemmas signal_simps =
  signalFromDecision_def signal_of_class_def signal_of_transport_def reason_signals_def isTerminal_def triggerRules_def

lemma normalBudget_pos: "rp_attempts p \<noteq> [] \<Longrightarrow> 0 < normalBudget p"
  by (simp add: normalBudget_def)

lemma run_plan_ok:
  assumes "rp_attempts (le_plan env) \<noteq> []"
  shows "run_ok env \<lparr> ls_i = 0, ls_budget = nat (normalBudget (le_plan env)), ls_authUsed = False, ls_retry = rb,
           ls_co = new_coordinator, ls_excluded = {}, ls_calls = [] \<rparr> (run_plan env rb)"
  unfolding run_plan_def
  by (rule run_loop_ok) (use assms normalBudget_pos [OF assms] in \<open>simp_all add: loop_inv_def\<close>)

definition connect_error :: dispatch_error where
  "connect_error =
     \<lparr> de_credentialExpired = False, de_code = Some ''upstream_connect'', de_text = [], de_tls = False,
       de_dnsTimeout = None, de_refused = False, de_unreachable = False, de_netOp = None, de_urlOp = None,
       de_timeout = False \<rparr>"

definition failing_env :: "attempt_plan list \<Rightarrow> loop_env" where
  "failing_env attempts =
     \<lparr> le_att = (\<lambda>_ _ _ _. \<lparr> oc_done = False, oc_failure = Some (dispatchFailure (Some connect_error)), oc_account = None \<rparr>),
       le_plan = \<lparr> rp_attempts = attempts, rp_phases = [], rp_budget = int (length attempts),
                   rp_retryable = retryablePreDeliveryEndClasses, rp_snapshot = [] \<rparr>,
       le_tenant = 1, le_clk = (\<lambda>_. 0) \<rparr>"

lemma connect_failure:
  "isTerminal (fl_signal (dispatchFailure (Some connect_error)))" "\<not> fl_authFailover (dispatchFailure (Some connect_error))"
  by (simp_all add: dispatchFailure_def newFailure_def classifyAttemptDispatchError_def transportErrorClassFromError_def
      connect_error_def transportErrorClassFromStableCode_def decision_simps signal_simps zero_classification_def Let_def)

definition sample_attempt :: attempt_plan where
  "sample_attempt =
     \<lparr> at_index = 0, at_pool = 7, at_binding = 1, at_rpm = 0, at_tpm = 0, at_parallel = 0, at_mode = [],
       at_class = ClassNormal, at_caps = [], at_hint = 0, at_reason = ''primary'', at_model = ''gpt'' \<rparr>"

section \<open>Properties\<close>



text \<open>
  Which transport failures end the run: of the classes the attempt layer calls retryable, the TLS
  handshake, the expired local credential (retried from the auth budget only), and two more, the
  failed upstream connect and the invalid TLS profile, for which the signal classifier has no case.
\<close>

theorem transport_signals_terminal:
  "isTerminal (signalFromDecision zero_classification (classifyAttemptTransportError c)) =
     (c \<in> {TransportErrorNone, TransportErrorLocalDispatch, TransportErrorTLSHandshakeFailed,
           TransportErrorCredentialExpired, TransportErrorUpstreamConnect, TransportErrorTLSProfileInvalid})"
  by (cases c) (simp_all add: signal_simps decision_simps zero_classification_def)

text \<open>
  A failed upstream connect is never retried by the loop, however many attempts and pools the
  plan has: although its decision is retryable, asks for another pool and ends in a class the router
  retries, its signal is terminal and the run writes the failure of the first attempt.
\<close>

theorem upstream_connect_ends_run:
  "rd_switchPool (classifyAttemptDispatchError (Some connect_error))
   \<and> retryableEndClassAllowed retryablePreDeliveryEndClasses
       (endClassFromAttempt zero_classification (classifyAttemptDispatchError (Some connect_error)))
   \<and> length (rr_calls (run_plan (failing_env (a # as)) None)) = 1"
proof -
  have ob: "observeFailure (Some (dispatchFailure (Some connect_error))) p m d sf c = ((ActionStop, None), c)" for p m d sf c
    using connect_failure(1) by (simp add: observeFailure_def observe_def Let_def)
  have "length (rr_calls (run_plan (failing_env (a # as)) None)) = 1"
    by (simp add: run_plan_def run_loop.simps run_step_def Let_def failing_env_def normalBudget_def
        auth_failover_granted_def wants_auth_failover_def connect_failure(2) ob finish_def)
  then show ?thesis
    by (simp add: classifyAttemptDispatchError_def transportErrorClassFromError_def connect_error_def
        transportErrorClassFromStableCode_def decision_simps end_class_simps zero_classification_def
        retryableEndClassAllowed_def class_text_def retryablePreDeliveryEndClasses_def)
qed

end
