(* ===== verification/Health_Window.thy ===== *)
theory Health_Window
  imports Complex_Main Signals
begin

text \<open>
  The sample windows of the channel health service (backend/internal/channelhealth: window.go) and
  its policy (types.go). A rate is a \<open>float64\<close> percentage in the source and an exact fraction here:
  both exceed a threshold for the same counts as long as the counts stay below 2^40 and the
  threshold is a float64. A signal with an unset class reads as \<open>SignalNone\<close>.
\<close>

section \<open>Policy\<close>

record ch_policy =
  po_version :: string
  po_minSamples :: int
  po_minObservation :: duration
  po_errorPct :: rat
  po_errorWindow :: duration
  po_errorCooldown :: duration
  po_latencyMS :: int
  po_latencyWindow :: duration
  po_latencyCooldown :: duration
  po_ratePct :: rat
  po_rateWindow :: duration
  po_rateCooldown :: duration
  po_creditsCooldown :: duration
  po_5xxPct :: rat
  po_5xxWindow :: duration
  po_5xxCooldown :: duration
  po_banMin :: duration
  po_banMax :: duration
  po_rampMin :: duration
  po_rampMax :: duration
  po_rampSamples :: int
  po_rampPct :: rat
  po_rampFactor :: rat
  po_overrideReason :: bool
  po_rollbackAlert :: int
  po_autoRamp :: bool

definition defaultPolicy :: ch_policy where
  "defaultPolicy =
     \<lparr> po_version = ''channel-health-v1'', po_minSamples = 10, po_minObservation = minute, po_errorPct = 50,
       po_errorWindow = 5 * minute, po_errorCooldown = 5 * minute, po_latencyMS = 30000, po_latencyWindow = 5 * minute,
       po_latencyCooldown = 5 * minute, po_ratePct = 40, po_rateWindow = 5 * minute, po_rateCooldown = 5 * minute,
       po_creditsCooldown = 5 * hour, po_5xxPct = 50, po_5xxWindow = 5 * minute, po_5xxCooldown = 5 * minute,
       po_banMin = 24 * hour, po_banMax = 72 * hour, po_rampMin = minute, po_rampMax = 10 * minute,
       po_rampSamples = 3, po_rampPct = 10, po_rampFactor = 2, po_overrideReason = True, po_rollbackAlert = 2,
       po_autoRamp = False \<rparr>"

text \<open>A field that is not positive takes its default.\<close>

definition or_default :: "'a::linordered_idom \<Rightarrow> 'a \<Rightarrow> 'a" where
  "or_default x d = (if x \<le> 0 then d else x)"

definition policy_normalized :: "ch_policy \<Rightarrow> ch_policy" where
  "policy_normalized p =
     (let d = defaultPolicy;
          banMin = or_default (po_banMin p) (po_banMin d);
          rampMin = or_default (po_rampMin p) (po_rampMin d)
      in p\<lparr> po_version := (if po_version p = [] then po_version d else po_version p),
            po_minSamples := or_default (po_minSamples p) (po_minSamples d),
            po_minObservation := or_default (po_minObservation p) (po_minObservation d),
            po_errorPct := or_default (po_errorPct p) (po_errorPct d),
            po_errorWindow := or_default (po_errorWindow p) (po_errorWindow d),
            po_errorCooldown := or_default (po_errorCooldown p) (po_errorCooldown d),
            po_latencyMS := or_default (po_latencyMS p) (po_latencyMS d),
            po_latencyWindow := or_default (po_latencyWindow p) (po_latencyWindow d),
            po_latencyCooldown := or_default (po_latencyCooldown p) (po_latencyCooldown d),
            po_ratePct := or_default (po_ratePct p) (po_ratePct d),
            po_rateWindow := or_default (po_rateWindow p) (po_rateWindow d),
            po_rateCooldown := or_default (po_rateCooldown p) (po_rateCooldown d),
            po_creditsCooldown := or_default (po_creditsCooldown p) (po_creditsCooldown d),
            po_5xxPct := or_default (po_5xxPct p) (po_5xxPct d),
            po_5xxWindow := or_default (po_5xxWindow p) (po_5xxWindow d),
            po_5xxCooldown := or_default (po_5xxCooldown p) (po_5xxCooldown d),
            po_banMin := banMin,
            po_banMax := (if po_banMax p \<le> 0 \<or> po_banMax p < banMin then po_banMax d else po_banMax p),
            po_rampMin := rampMin,
            po_rampMax := (if po_rampMax p \<le> rampMin then po_rampMax d else po_rampMax p),
            po_rampSamples := or_default (po_rampSamples p) (po_rampSamples d),
            po_rampPct := or_default (po_rampPct p) (po_rampPct d),
            po_rampFactor := (if po_rampFactor p \<le> 1 then po_rampFactor d else po_rampFactor p),
            po_rollbackAlert := or_default (po_rollbackAlert p) (po_rollbackAlert d) \<rparr>)"

section \<open>Samples\<close>

record sample =
  sa_at :: instant
  sa_class :: signal_class
  sa_status :: int
  sa_latency :: int

record window =
  ws_samples :: "sample list"
  ws_total :: int
  ws_failed :: int
  ws_rate :: int
  ws_5xx :: int
  ws_local5xx :: int
  ws_ban :: int
  ws_p99 :: int
  ws_started :: instant
  ws_ended :: instant

definition empty_window :: window where
  "empty_window =
     \<lparr> ws_samples = [], ws_total = 0, ws_failed = 0, ws_rate = 0, ws_5xx = 0, ws_local5xx = 0, ws_ban = 0, ws_p99 = 0,
       ws_started = zero_time, ws_ended = zero_time \<rparr>"

definition isBanSignal :: "signal_class \<Rightarrow> bool" where
  "isBanSignal c \<longleftrightarrow>
     c \<in> {SignalAccountSuspended, SignalTokenRevoked, SignalCredentialRevoked, SignalAccountDisabled,
          SignalSubscriptionOrWorkspaceDisabled, SignalPolicyAutoDisabled}"

definition p99_index :: "nat \<Rightarrow> nat" where
  "p99_index n = (let i = (99 * n + 50) div 100 in if n \<le> i then n - 1 else i)"

definition percentile99 :: "int list \<Rightarrow> int" where
  "percentile99 values = (if values = [] then 0 else sort values ! p99_index (length values))"

text \<open>One round of the loop; the first sample sets the bounds of the window.\<close>

definition count_sample :: "bool \<Rightarrow> sample \<Rightarrow> window \<Rightarrow> window" where
  "count_sample first s w =
     (let w = w\<lparr> ws_started := (if first \<or> sa_at s < ws_started w then sa_at s else ws_started w),
                 ws_ended := (if first \<or> ws_ended w < sa_at s then sa_at s else ws_ended w),
                 ws_total := ws_total w + 1 \<rparr>
      in case sa_class s of
           SignalRateLimit \<Rightarrow> w\<lparr> ws_rate := ws_rate w + 1, ws_failed := ws_failed w + 1 \<rparr>
         | SignalUpstream5xx \<Rightarrow> w\<lparr> ws_5xx := ws_5xx w + 1, ws_failed := ws_failed w + 1 \<rparr>
         | SignalLocalGateway5xx \<Rightarrow> w\<lparr> ws_local5xx := ws_local5xx w + 1 \<rparr>
         | SignalClientMalformed \<Rightarrow> w
         | SignalSuccess \<Rightarrow> w
         | SignalLatencyP99 \<Rightarrow> w
         | SignalNone \<Rightarrow> w
         | _ \<Rightarrow> if isBanSignal (sa_class s) then w\<lparr> ws_ban := ws_ban w + 1, ws_failed := ws_failed w + 1 \<rparr>
               else w\<lparr> ws_failed := ws_failed w + 1 \<rparr>)"

fun count_samples :: "bool \<Rightarrow> sample list \<Rightarrow> window \<Rightarrow> window" where
  "count_samples first [] w = w"
| "count_samples first (s # ss) w = count_samples False ss (count_sample first s w)"

definition latencies :: "sample list \<Rightarrow> int list" where
  "latencies ss = filter (\<lambda>l. 0 < l) (map sa_latency ss)"

definition summarizeSamples :: "sample list \<Rightarrow> window" where
  "summarizeSamples ss =
     (count_samples True ss (empty_window\<lparr> ws_samples := ss \<rparr>))\<lparr> ws_p99 := percentile99 (latencies ss) \<rparr>"

definition maxDuration :: "duration list \<Rightarrow> duration" where
  "maxDuration vs = foldl (\<lambda>out v. if out < v then v else out) 0 vs"

definition since :: "instant \<Rightarrow> sample list \<Rightarrow> sample list" where
  "since cutoff ss = filter (\<lambda>s. \<not> sa_at s < cutoff) ss"

definition addSignalToWindow :: "window \<Rightarrow> ch_policy \<Rightarrow> sample \<Rightarrow> instant \<Rightarrow> window" where
  "addSignalToWindow w p sig now =
     (let sig = (if sa_at sig = zero_time then sig\<lparr> sa_at := now \<rparr> else sig);
          m = maxDuration [po_errorWindow p, po_latencyWindow p, po_rateWindow p, po_5xxWindow p, po_minObservation p]
      in summarizeSamples (since (now - m) (ws_samples w) @ [sig]))"

definition windowFor :: "window \<Rightarrow> duration \<Rightarrow> instant \<Rightarrow> window" where
  "windowFor w d now =
     (if d \<le> 0 then summarizeSamples (ws_samples w) else summarizeSamples (since (now - d) (ws_samples w)))"

definition clearRateLimitSamples :: "window \<Rightarrow> window" where
  "clearRateLimitSamples w = summarizeSamples (filter (\<lambda>s. sa_class s \<noteq> SignalRateLimit) (ws_samples w))"

definition latestSignalSample :: "window \<Rightarrow> sample option" where
  "latestSignalSample w =
     (case ws_samples w of
        [] \<Rightarrow> None
      | s # ss \<Rightarrow> Some (foldl (\<lambda>latest t. if sa_at latest < sa_at t then t else latest) s ss))"

definition health_rate :: "int \<Rightarrow> int \<Rightarrow> rat" where
  "health_rate num denom = (if denom \<le> 0 then 0 else of_int (num * 100) / of_int denom)"

definition rampFailureRate :: "window \<Rightarrow> rat" where
  "rampFailureRate w = health_rate (ws_failed w) (ws_total w)"

section \<open>What the counters count\<close>

definition counts_failed :: "signal_class \<Rightarrow> bool" where
  "counts_failed c \<longleftrightarrow>
     c \<notin> {SignalLocalGateway5xx, SignalClientMalformed, SignalSuccess, SignalLatencyP99, SignalNone}"

abbreviation tally :: "(signal_class \<Rightarrow> bool) \<Rightarrow> sample list \<Rightarrow> int" where
  "tally P ss \<equiv> int (length (filter (\<lambda>s. P (sa_class s)) ss))"

lemma count_sample_counts:
  "ws_total (count_sample b s w) = ws_total w + 1"
  "ws_failed (count_sample b s w) = ws_failed w + (if counts_failed (sa_class s) then 1 else 0)"
  "ws_rate (count_sample b s w) = ws_rate w + (if sa_class s = SignalRateLimit then 1 else 0)"
  "ws_5xx (count_sample b s w) = ws_5xx w + (if sa_class s = SignalUpstream5xx then 1 else 0)"
  "ws_local5xx (count_sample b s w) = ws_local5xx w + (if sa_class s = SignalLocalGateway5xx then 1 else 0)"
  "ws_ban (count_sample b s w) = ws_ban w + (if isBanSignal (sa_class s) then 1 else 0)"
  "ws_samples (count_sample b s w) = ws_samples w"
  by (cases "sa_class s"; simp add: count_sample_def Let_def counts_failed_def isBanSignal_def)+

lemma count_samples_counts:
  "ws_total (count_samples b ss w) = ws_total w + int (length ss)"
  "ws_failed (count_samples b ss w) = ws_failed w + tally counts_failed ss"
  "ws_rate (count_samples b ss w) = ws_rate w + tally (\<lambda>c. c = SignalRateLimit) ss"
  "ws_5xx (count_samples b ss w) = ws_5xx w + tally (\<lambda>c. c = SignalUpstream5xx) ss"
  "ws_local5xx (count_samples b ss w) = ws_local5xx w + tally (\<lambda>c. c = SignalLocalGateway5xx) ss"
  "ws_ban (count_samples b ss w) = ws_ban w + tally isBanSignal ss"
  "ws_samples (count_samples b ss w) = ws_samples w"
  by (induction ss arbitrary: b w) (simp_all add: count_sample_counts)

lemma summarize_counts:
  "ws_samples (summarizeSamples ss) = ss"
  "ws_total (summarizeSamples ss) = int (length ss)"
  "ws_failed (summarizeSamples ss) = tally counts_failed ss"
  "ws_rate (summarizeSamples ss) = tally (\<lambda>c. c = SignalRateLimit) ss"
  "ws_5xx (summarizeSamples ss) = tally (\<lambda>c. c = SignalUpstream5xx) ss"
  "ws_local5xx (summarizeSamples ss) = tally (\<lambda>c. c = SignalLocalGateway5xx) ss"
  "ws_ban (summarizeSamples ss) = tally isBanSignal ss"
  "ws_p99 (summarizeSamples ss) = percentile99 (latencies ss)"
  by (simp_all add: summarizeSamples_def count_samples_counts empty_window_def)

lemma p99_index_bound: "0 < n \<Longrightarrow> p99_index n < n"
  by (simp add: p99_index_def Let_def)

lemma percentile99_mem: "vs \<noteq> [] \<Longrightarrow> percentile99 vs \<in> set vs"
  using p99_index_bound [of "length vs"] by (simp add: percentile99_def) (metis length_sort nth_mem set_sort)

end
