(* ===== verification/Auth_Cooldown.thy ===== *)
theory Auth_Cooldown
  imports Signals Error_Normalize
begin

text \<open>
  The auth failure lane (backend/internal/authcooldown: store.go, persistence.go): an account whose
  credential is refused is removed from selection for a doubling interval, or hard-disabled when the
  evidence is iron-clad. A process keeps a mirror; the shared truth is a parameter, the
  \<open>Persistence\<close> interface of the source, whose operations act on a state of their own and may
  fail. Strikes are counted in an unbounded integer: an \<open>int\<close> overflows after 2^63 failures.
\<close>

section \<open>State\<close>

definition class_label :: "failure_class \<Rightarrow> string" where
  "class_label c = (if c = ClassIronClad then ''iron_clad'' else ''ambiguous'')"

definition refreshPermanent :: string where "refreshPermanent = ''refresh_permanent''"

record ac_config =
  ac_base :: duration
  ac_cap :: duration
  ac_strikes :: int
  ac_reload :: duration

definition ac_normalized :: "ac_config \<Rightarrow> ac_config" where
  "ac_normalized c =
     (let c = (if ac_base c \<le> 0 then c\<lparr> ac_base := 30 * second \<rparr> else c);
          c = (if ac_cap c \<le> 0 \<or> ac_cap c < ac_base c then c\<lparr> ac_cap := 30 * minute \<rparr> else c);
          c = (if ac_strikes c \<le> 0 then c\<lparr> ac_strikes := 3 \<rparr> else c)
      in if ac_reload c \<le> 0 then c\<lparr> ac_reload := 5 * second \<rparr> else c)"

record ac_entry =
  ae_strike :: int
  ae_until :: instant
  ae_hard :: bool
  ae_version :: int
  ae_class :: string
  ae_escalated :: instant
  ae_hardAt :: instant
  ae_local :: bool

definition new_lane_entry :: "int \<Rightarrow> ac_entry" where
  "new_lane_entry v =
     \<lparr> ae_strike = 0, ae_until = zero_time, ae_hard = False, ae_version = v, ae_class = [], ae_escalated = zero_time,
       ae_hardAt = zero_time, ae_local = False \<rparr>"

record persisted =
  ps_account :: int
  ps_strike :: int
  ps_until :: instant
  ps_hard :: bool
  ps_version :: int
  ps_class :: string
  ps_escalated :: instant
  ps_hardAt :: instant
  ps_resumedAt :: instant
  ps_newlyHard :: bool

type_synonym lane = "int \<rightharpoonup> ac_entry"

text \<open>An operation of the truth returns an error or its results, and the new state of the truth.\<close>

record 'p persistence =
  pn_kind :: string
  pn_record :: "int \<Rightarrow> failure_class \<Rightarrow> int \<Rightarrow> instant \<Rightarrow> ac_config \<Rightarrow> 'p \<Rightarrow> (string + persisted \<times> bool) \<times> 'p"
  pn_mark :: "int \<Rightarrow> int \<Rightarrow> string \<Rightarrow> instant \<Rightarrow> instant \<Rightarrow> 'p \<Rightarrow> (string + persisted \<times> bool) \<times> 'p"
  pn_clear :: "int \<Rightarrow> bool \<Rightarrow> instant \<Rightarrow> 'p \<Rightarrow> (string + bool) \<times> 'p"
  pn_get :: "int \<Rightarrow> 'p \<Rightarrow> (string + persisted option) \<times> 'p"
  pn_list :: "'p \<Rightarrow> (string + persisted list) \<times> 'p"

definition stateFromEntry :: "int \<Rightarrow> ac_entry \<Rightarrow> persisted" where
  "stateFromEntry a e =
     \<lparr> ps_account = a, ps_strike = ae_strike e, ps_until = ae_until e, ps_hard = ae_hard e, ps_version = ae_version e,
       ps_class = ae_class e, ps_escalated = ae_escalated e, ps_hardAt = ae_hardAt e, ps_resumedAt = zero_time,
       ps_newlyHard = False \<rparr>"

definition entryFromState :: "persisted \<Rightarrow> bool \<Rightarrow> ac_entry" where
  "entryFromState p loc =
     \<lparr> ae_strike = ps_strike p, ae_until = ps_until p, ae_hard = ps_hard p, ae_version = ps_version p,
       ae_class = ps_class p, ae_escalated = ps_escalated p, ae_hardAt = ps_hardAt p, ae_local = loc \<rparr>"

section \<open>Failures\<close>

text \<open>The doubling interval; the shift is a shift of an \<open>int64\<close>.\<close>

definition backoffFor :: "ac_config \<Rightarrow> int \<Rightarrow> duration" where
  "backoffFor c strike =
     (let strike = (if strike < 1 then 1 else strike);
          shift = strike - 1
      in if 62 \<le> shift then ac_cap c
         else (let d = i64 (ac_base c * 2 ^ nat shift) in if d \<le> 0 \<or> ac_cap c < d then ac_cap c else d))"

definition newer_version :: "int \<Rightarrow> ac_entry \<Rightarrow> bool" where
  "newer_version v e \<longleftrightarrow> 0 < v \<and> 0 < ae_version e \<and> ae_version e < v"

definition older_version :: "int \<Rightarrow> ac_entry \<Rightarrow> bool" where
  "older_version v e \<longleftrightarrow> 0 < v \<and> 0 < ae_version e \<and> v < ae_version e"

definition withinLocalWindow :: "int \<Rightarrow> int \<Rightarrow> instant \<Rightarrow> lane \<Rightarrow> bool" where
  "withinLocalWindow a v now s =
     (case s a of
        None \<Rightarrow> False
      | Some e \<Rightarrow> \<not> ae_local e \<and> \<not> newer_version v e \<and> (ae_hard e \<or> \<not> ae_until e < now))"

text \<open>The entry after the failure, and what is reported when the failure escalates it.\<close>

definition fail_entry ::
    "ac_config \<Rightarrow> int \<Rightarrow> failure_class \<Rightarrow> int \<Rightarrow> instant \<Rightarrow> bool \<Rightarrow> ac_entry \<Rightarrow> persisted option \<times> ac_entry" where
  "fail_entry c a cls v now loc e =
     (let e = (if newer_version v e then e\<lparr> ae_strike := 0, ae_until := zero_time \<rparr> else e)
      in if older_version v e then (None, e)
         else
           (let e = (if ae_version e < v then e\<lparr> ae_version := v \<rparr> else e)
            in if \<not> ae_until e < now then (None, e)
               else
                 (let n = ae_strike e + 1;
                      newly = (cls = ClassIronClad \<and> ac_strikes c \<le> n \<and> \<not> ae_hard e);
                      e = e\<lparr> ae_strike := n, ae_until := now + backoffFor c n, ae_class := class_label cls,
                             ae_escalated := now \<rparr>;
                      e = (if newly then e\<lparr> ae_hard := True, ae_hardAt := now \<rparr> else e);
                      e = e\<lparr> ae_local := loc \<rparr>
                  in (Some ((stateFromEntry a e)\<lparr> ps_newlyHard := newly \<rparr>), e))))"

definition suspendLocal ::
    "ac_config \<Rightarrow> int \<Rightarrow> failure_class \<Rightarrow> int \<Rightarrow> instant \<Rightarrow> bool \<Rightarrow> lane \<Rightarrow> persisted option \<times> lane" where
  "suspendLocal c a cls v now loc s =
     (let e = (case s a of None \<Rightarrow> new_lane_entry v | Some e \<Rightarrow> e);
          (r, e) = fail_entry c a cls v now loc e
      in (r, s(a \<mapsto> e)))"

definition storeMirror :: "int \<Rightarrow> persisted \<Rightarrow> bool \<Rightarrow> lane \<Rightarrow> lane" where
  "storeMirror a p loc s = s(a \<mapsto> entryFromState p loc)"

text \<open>A store is a lane and, when one is configured, the persistence; the state of the truth is threaded.\<close>

definition suspend ::
    "'p persistence option \<Rightarrow> ac_config \<Rightarrow> int \<Rightarrow> failure_class \<Rightarrow> int \<Rightarrow> instant \<Rightarrow> lane \<times> 'p \<Rightarrow> lane \<times> 'p" where
  "suspend pers c a cls v now sp =
     (let (s, p) = sp
      in if a = 0 then sp
         else
           (case pers of
              None \<Rightarrow> (snd (suspendLocal c a cls v now False s), p)
            | Some pe \<Rightarrow>
                if withinLocalWindow a v now s then sp
                else
                  (case pn_record pe a cls v now c p of
                     (Inr (st, changed), p) \<Rightarrow> (if changed then storeMirror a st False s else s, p)
                   | (Inl err, p) \<Rightarrow> (snd (suspendLocal c a cls v now True s), p))))"

section \<open>Queries\<close>

definition eligible :: "int \<Rightarrow> instant \<Rightarrow> lane \<Rightarrow> bool \<times> bool" where
  "eligible a now s =
     (if a = 0 then (True, False)
      else (case s a of
              None \<Rightarrow> (True, False)
            | Some e \<Rightarrow>
                if ae_hard e then (False, True)
                else if now < ae_until e then (False, False)
                else (True, False)))"

record ac_snapshot =
  sn_found :: bool
  sn_eligible :: bool
  sn_hard :: bool
  sn_strike :: int
  sn_until :: "instant option"
  sn_version :: int
  sn_class :: string
  sn_escalated :: "instant option"
  sn_hardAt :: "instant option"
  sn_kind :: string

definition optionalUTC :: "instant \<Rightarrow> instant option" where
  "optionalUTC t = (if t = zero_time then None else Some t)"

definition snapshotFromState :: "persisted \<Rightarrow> instant \<Rightarrow> string \<Rightarrow> ac_snapshot" where
  "snapshotFromState p now kind =
     \<lparr> sn_found = True, sn_eligible = (\<not> ps_hard p \<and> \<not> now < ps_until p), sn_hard = ps_hard p, sn_strike = ps_strike p,
       sn_until = optionalUTC (ps_until p), sn_version = ps_version p, sn_class = ps_class p,
       sn_escalated = optionalUTC (ps_escalated p), sn_hardAt = optionalUTC (ps_hardAt p), sn_kind = kind \<rparr>"

definition no_snapshot :: "string \<Rightarrow> ac_snapshot" where
  "no_snapshot kind =
     \<lparr> sn_found = False, sn_eligible = True, sn_hard = False, sn_strike = 0, sn_until = None, sn_version = 0,
       sn_class = [], sn_escalated = None, sn_hardAt = None, sn_kind = kind \<rparr>"

definition persistenceKind :: "'p persistence option \<Rightarrow> string" where
  "persistenceKind pers = (case pers of None \<Rightarrow> ''process_local'' | Some pe \<Rightarrow> pn_kind pe)"

definition mirror_snapshot :: "'p persistence option \<Rightarrow> bool \<Rightarrow> int \<Rightarrow> instant \<Rightarrow> lane \<Rightarrow> ac_snapshot" where
  "mirror_snapshot pers unavailable a now s =
     (case s a of
        None \<Rightarrow> no_snapshot (persistenceKind pers)
      | Some e \<Rightarrow>
          if pers \<noteq> None \<and> \<not> ae_local e \<and> \<not> unavailable then no_snapshot (persistenceKind pers)
          else snapshotFromState (stateFromEntry a e) now
                 (if ae_local e \<or> unavailable then ''process_local'' else persistenceKind pers))"

definition ac_snapshot_of ::
    "'p persistence option \<Rightarrow> int \<Rightarrow> instant \<Rightarrow> lane \<times> 'p \<Rightarrow> ac_snapshot \<times> 'p" where
  "ac_snapshot_of pers a now sp =
     (let (s, p) = sp
      in if a = 0 then (no_snapshot (persistenceKind pers), p)
         else
           (case pers of
              None \<Rightarrow> (mirror_snapshot pers False a now s, p)
            | Some pe \<Rightarrow>
                (case pn_get pe a p of
                   (Inr (Some st), p) \<Rightarrow> (snapshotFromState st now (persistenceKind pers), p)
                 | (Inr None, p) \<Rightarrow> (mirror_snapshot pers False a now s, p)
                 | (Inl err, p) \<Rightarrow> (mirror_snapshot pers True a now s, p))))"

section \<open>Recovery\<close>

definition clear :: "'p persistence option \<Rightarrow> int \<Rightarrow> string \<Rightarrow> instant \<Rightarrow> lane \<times> 'p \<Rightarrow> lane \<times> 'p" where
  "clear pers a reason now sp =
     (let (s, p) = sp;
          hardToo = (reason \<noteq> ''request_success'');
          loc = (case s a of None \<Rightarrow> False | Some e \<Rightarrow> hardToo \<or> \<not> ae_hard e)
      in if a = 0 then sp
         else
           (let s = (if loc then s(a := None) else s)
            in case pers of
                 None \<Rightarrow> (s, p)
               | Some pe \<Rightarrow> if loc \<or> hardToo then (s, snd (pn_clear pe a hardToo now p)) else (s, p)))"

definition dropIfStale :: "int \<Rightarrow> int \<Rightarrow> lane \<Rightarrow> lane" where
  "dropIfStale a v s =
     (case s a of None \<Rightarrow> s | Some e \<Rightarrow> if ae_local e \<and> ae_version e \<le> v then s(a := None) else s)"

definition refresh_hard_local :: "bool \<Rightarrow> int \<Rightarrow> int \<Rightarrow> instant \<Rightarrow> lane \<Rightarrow> lane" where
  "refresh_hard_local loc a v now s =
     (let e = (case s a of None \<Rightarrow> new_lane_entry 0 | Some e \<Rightarrow> e)
      in if 0 < v \<and> v < ae_version e then s(a \<mapsto> e)
         else
           (let e = e\<lparr> ae_hard := True, ae_hardAt := (if ae_hardAt e = zero_time then now else ae_hardAt e),
                       ae_class := refreshPermanent, ae_version := (if ae_version e < v then v else ae_version e),
                       ae_local := loc \<rparr>
            in s(a \<mapsto> e)))"

definition onRefreshResult ::
    "'p persistence option \<Rightarrow> int \<Rightarrow> int \<Rightarrow> bool \<Rightarrow> bool \<Rightarrow> instant \<Rightarrow> lane \<times> 'p \<Rightarrow> lane \<times> 'p" where
  "onRefreshResult pers a v success permanent now sp =
     (let (s, p) = sp
      in if a = 0 \<or> success \<or> \<not> permanent then sp
         else
           (case pers of
              None \<Rightarrow> (refresh_hard_local False a v now s, p)
            | Some pe \<Rightarrow>
                (case pn_mark pe a v refreshPermanent now now p of
                   (Inr (st, applied), p) \<Rightarrow> (if applied then storeMirror a st False s else dropIfStale a v s, p)
                 | (Inl err, p) \<Rightarrow> (refresh_hard_local True a v now s, p))))"

definition permanent_needles :: "string list" where
  "permanent_needles =
     [''invalid_grant'', ''invalid grant'', ''token_revoked'', ''token_invalidated'', ''refresh token revoked'',
      ''refresh token expired'', ''authorization expired'']"

definition isPermanentRefreshError :: "string option \<Rightarrow> bool" where
  "isPermanentRefreshError err =
     (case err of None \<Rightarrow> False | Some m \<Rightarrow> list_ex (\<lambda>n. contains (to_lower m) n) permanent_needles)"

section \<open>Reloading the mirror\<close>

definition localEvidenceAt :: "ac_entry \<Rightarrow> instant \<Rightarrow> instant" where
  "localEvidenceAt e now =
     (if ae_hard e \<and> ae_hardAt e \<noteq> zero_time then ae_hardAt e
      else if ae_escalated e \<noteq> zero_time then ae_escalated e
      else now)"

text \<open>
  Go visits a map in an unspecified order: \<open>ids\<close> is the order in which the pending accounts are
  visited. What is written back was read before the first write.
\<close>

fun replay_pending :: "'p persistence \<Rightarrow> instant \<Rightarrow> (int \<times> ac_entry) list \<Rightarrow> lane \<times> 'p \<Rightarrow> lane \<times> 'p" where
  "replay_pending pe now [] sp = sp"
| "replay_pending pe now ((a, e) # as) sp =
     (let (s, p) = sp;
          cls = (if ae_class e = [] then refreshPermanent else ae_class e)
      in case pn_mark pe a (ae_version e) cls (localEvidenceAt e now) now p of
           (Inl err, p) \<Rightarrow> replay_pending pe now as (s, p)
         | (Inr (st, applied), p) \<Rightarrow>
             replay_pending pe now as (if applied then storeMirror a st False s else s(a := None), p))"

definition replayLocalHardDisables :: "'p persistence \<Rightarrow> int list \<Rightarrow> instant \<Rightarrow> lane \<times> 'p \<Rightarrow> lane \<times> 'p" where
  "replayLocalHardDisables pe ids now sp =
     replay_pending pe now
       (List.map_filter (\<lambda>a. case fst sp a of
            None \<Rightarrow> None
          | Some e \<Rightarrow> if ae_local e \<and> ae_hard e then Some (a, e) else None) ids) sp"

text \<open>\<open>rows_lane\<close> and \<open>rows_tomb\<close> are the two maps the loop over the rows builds: a later row wins.\<close>

definition has_state :: "persisted \<Rightarrow> bool" where
  "has_state r \<longleftrightarrow> ps_hard r \<or> ps_strike r \<noteq> 0 \<or> ps_until r \<noteq> zero_time"

definition rows_lane :: "persisted list \<Rightarrow> lane" where
  "rows_lane rows = foldl (\<lambda>m r. if has_state r then m(ps_account r \<mapsto> entryFromState r False) else m) Map.empty rows"

definition rows_tomb :: "persisted list \<Rightarrow> int \<rightharpoonup> instant" where
  "rows_tomb rows =
     foldl (\<lambda>m r. if ps_resumedAt r \<noteq> zero_time then m(ps_account r \<mapsto> ps_resumedAt r) else m) Map.empty rows"

definition in_force :: "instant \<Rightarrow> ac_entry \<Rightarrow> bool" where
  "in_force now e \<longleftrightarrow> ae_hard e \<or> now < ae_until e"

definition retained :: "instant \<Rightarrow> instant option \<Rightarrow> ac_entry option \<Rightarrow> ac_entry \<Rightarrow> bool" where
  "retained now tomb truth e \<longleftrightarrow>
     ae_local e \<and> in_force now e \<and>
     (case tomb of None \<Rightarrow> True | Some t \<Rightarrow> t < localEvidenceAt e now) \<and>
     (case truth of
        None \<Rightarrow> True
      | Some r \<Rightarrow> (ae_hard e \<and> \<not> ae_hard r) \<or> (\<not> ae_hard r \<and> ae_until r < ae_until e))"

definition merge_mirror :: "instant \<Rightarrow> persisted list \<Rightarrow> lane \<Rightarrow> lane" where
  "merge_mirror now rows s =
     (\<lambda>a. case s a of
            Some e \<Rightarrow> if retained now (rows_tomb rows a) (rows_lane rows a) e then Some e else rows_lane rows a
          | None \<Rightarrow> rows_lane rows a)"

definition reload :: "'p persistence option \<Rightarrow> int list \<Rightarrow> instant \<Rightarrow> lane \<times> 'p \<Rightarrow> lane \<times> 'p" where
  "reload pers ids now sp =
     (case pers of
        None \<Rightarrow> sp
      | Some pe \<Rightarrow>
          (let (s, p) = replayLocalHardDisables pe ids now sp
           in case pn_list pe p of
                (Inl err, p) \<Rightarrow> (s, p)
              | (Inr rows, p) \<Rightarrow> (merge_mirror now rows s, p)))"

section \<open>The lane as a component\<close>

text \<open>The events of a lane without persistence: a failure, a success, an operator resume, a refresh result.\<close>

datatype lane_event =
  LaneFailed int failure_class int instant | LaneSucceeded int instant | LaneResumed int instant
| LaneRefreshed int int bool bool instant

fun lane_key :: "lane_event \<Rightarrow> int" where
  "lane_key (LaneFailed a cls v now) = a"
| "lane_key (LaneSucceeded a now) = a"
| "lane_key (LaneResumed a now) = a"
| "lane_key (LaneRefreshed a v ok permanent now) = a"

fun lane_step :: "ac_config \<Rightarrow> lane \<Rightarrow> lane_event \<Rightarrow> lane" where
  "lane_step c s (LaneFailed a cls v now) = fst (suspend (None :: unit persistence option) c a cls v now (s, ()))"
| "lane_step c s (LaneSucceeded a now) = fst (clear (None :: unit persistence option) a ''request_success'' now (s, ()))"
| "lane_step c s (LaneResumed a now) = fst (clear (None :: unit persistence option) a ''operator_resume'' now (s, ()))"
| "lane_step c s (LaneRefreshed a v ok permanent now) =
     fst (onRefreshResult (None :: unit persistence option) a v ok permanent now (s, ()))"

lemmas lane_step_defs =
  suspend_def suspendLocal_def clear_def onRefreshResult_def refresh_hard_local_def Let_def

definition hard_in :: "lane \<Rightarrow> int \<Rightarrow> bool" where
  "hard_in s a \<longleftrightarrow> (\<exists>e. s a = Some e \<and> ae_hard e)"

lemma eligible_hard: "a \<noteq> 0 \<Longrightarrow> snd (eligible a now s) = hard_in s a"
  by (auto simp: eligible_def hard_in_def split: option.splits)

lemma eligible_in_force:
  "a \<noteq> 0 \<Longrightarrow> fst (eligible a now s) = (case s a of None \<Rightarrow> True | Some e \<Rightarrow> \<not> in_force now e)"
  by (auto simp: eligible_def in_force_def split: option.splits)

text \<open>What a failure does to the hard mark: it never lifts it, and only iron-clad evidence sets it.\<close>

lemma fail_entry_hard:
  "ae_hard e \<Longrightarrow> ae_hard (snd (fail_entry c a cls v now loc e))"
  "ae_hard (snd (fail_entry c a cls v now loc e)) \<Longrightarrow> \<not> ae_hard e \<Longrightarrow>
     cls = ClassIronClad \<and> ac_strikes c \<le> ae_strike (snd (fail_entry c a cls v now loc e))"
  by (auto simp: fail_entry_def Let_def split: if_splits)

text \<open>The events that may disable an account for good, and those that lift it.\<close>

definition disabling :: "int \<Rightarrow> lane_event \<Rightarrow> bool" where
  "disabling a e \<longleftrightarrow>
     (\<exists>v now. e = LaneFailed a ClassIronClad v now) \<or> (\<exists>v now. e = LaneRefreshed a v False True now)"

definition resumes :: "int \<Rightarrow> lane_event \<Rightarrow> bool" where
  "resumes a e \<longleftrightarrow> (\<exists>now. e = LaneResumed a now)"

lemma new_lane_entry_soft [simp]: "\<not> ae_hard (new_lane_entry v)"
  by (simp add: new_lane_entry_def)

lemma lane_step_hard:
  "hard_in (lane_step c s e) a \<Longrightarrow> (hard_in s a \<and> (a = 0 \<or> \<not> resumes a e)) \<or> disabling a e"
proof (cases e)
  case (LaneFailed b cls v now)
  assume h: "hard_in (lane_step c s e) a"
  show ?thesis
  proof (cases "b = a \<and> a \<noteq> 0")
    case True
    define e0 where "e0 = (case s a of None \<Rightarrow> new_lane_entry v | Some e \<Rightarrow> e)"
    have "ae_hard (snd (fail_entry c a cls v now False e0))"
      using h LaneFailed True by (auto simp: hard_in_def lane_step_defs e0_def split: prod.splits)
    then show ?thesis
      using fail_entry_hard(2) [of c a cls v now False e0] LaneFailed True
      by (cases "ae_hard e0") (auto simp: hard_in_def e0_def disabling_def resumes_def split: option.splits)
  qed (use h LaneFailed in \<open>auto simp: hard_in_def lane_step_defs disabling_def resumes_def split: prod.splits if_splits\<close>)
next
  case (LaneSucceeded b now)
  assume "hard_in (lane_step c s e) a"
  then show ?thesis using LaneSucceeded by (auto simp: hard_in_def lane_step_defs resumes_def split: if_splits option.splits)
next
  case (LaneResumed b now)
  assume "hard_in (lane_step c s e) a"
  then show ?thesis using LaneResumed by (auto simp: hard_in_def lane_step_defs resumes_def split: if_splits option.splits)
next
  case (LaneRefreshed b v ok permanent now)
  assume "hard_in (lane_step c s e) a"
  then show ?thesis
    using LaneRefreshed
    by (auto simp: hard_in_def lane_step_defs resumes_def disabling_def split: if_splits option.splits)
qed

lemma lane_step_keeps_hard: "hard_in s a \<Longrightarrow> \<not> resumes a e \<Longrightarrow> hard_in (lane_step c s e) a"
proof (cases e)
  case (LaneFailed b cls v now)
  assume h: "hard_in s a" "\<not> resumes a e"
  then obtain e0 where e0: "s a = Some e0" "ae_hard e0" by (auto simp: hard_in_def)
  show ?thesis
    using e0 LaneFailed fail_entry_hard(1) [OF e0(2), of c a cls v now False]
    by (auto simp: hard_in_def lane_step_defs split: prod.splits)
qed (auto simp: hard_in_def lane_step_defs resumes_def split: if_splits option.splits)

text \<open>Where the hard mark of a run comes from.\<close>

lemma lane_run_hard:
  assumes "hard_in (foldl (lane_step c) Map.empty es) a"
  shows "\<exists>xs e ys. es = xs @ e # ys \<and> disabling a e \<and> (\<forall>y \<in> set ys. a = 0 \<or> \<not> resumes a y)"
  using assms
proof (induction es rule: rev_induct)
  case Nil
  then show ?case by (simp add: hard_in_def)
next
  case (snoc e es)
  from lane_step_hard [of c "foldl (lane_step c) Map.empty es" e a] snoc.prems
  consider "disabling a e" | "hard_in (foldl (lane_step c) Map.empty es) a" "a = 0 \<or> \<not> resumes a e" by auto
  then show ?case
  proof cases
    case 1
    then show ?thesis by (intro exI [of _ es] exI [of _ e] exI [of _ "[]"]) simp
  next
    case 2
    from snoc.IH [OF 2(1)] obtain xs d ys where
      "es = xs @ d # ys" "disabling a d" "\<forall>y \<in> set ys. a = 0 \<or> \<not> resumes a y" by blast
    with 2(2) show ?thesis by (intro exI [of _ xs] exI [of _ d] exI [of _ "ys @ [e]"]) auto
  qed
qed

lemma lane_run_keeps_hard:
  "hard_in s a \<Longrightarrow> \<forall>e \<in> set es. \<not> resumes a e \<Longrightarrow> hard_in (foldl (lane_step c) s es) a"
  by (induction es arbitrary: s) (auto intro: lane_step_keeps_hard)

section \<open>Backoff\<close>

lemma normalized_base: "0 < ac_base (ac_normalized c)" "0 < ac_cap (ac_normalized c)"
  by (simp_all add: ac_normalized_def Let_def duration_defs)

lemma backoff_exact:
  assumes "0 < ac_base c" "1 \<le> n" "ac_base c * 2 ^ nat (n - 1) < 2 ^ 63" "ac_cap c < 2 ^ 62"
  shows "backoffFor c n = min (ac_base c * 2 ^ nat (n - 1)) (ac_cap c)"
proof (cases "62 \<le> n - 1")
  case True
  have "(2::int) ^ 62 \<le> 2 ^ nat (n - 1)" by (rule power_increasing) (use True in auto)
  also have "\<dots> \<le> ac_base c * 2 ^ nat (n - 1)" using assms(1) by simp
  finally show ?thesis using assms(2,4) True by (simp add: backoffFor_def min_def)
next
  case False
  have pos: "0 < ac_base c * 2 ^ nat (n - 1)" using assms(1) by simp
  with assms(3) have "in_i64 (ac_base c * 2 ^ nat (n - 1))" by (simp add: in_i64_def)
  with False pos assms(2) show ?thesis by (auto simp: backoffFor_def Let_def min_def not_le not_less)
qed

section \<open>Properties\<close>



text \<open>
  A disabled account stays out of selection through any later failures, successes, refresh
  results and times; only an operator resume brings it back.
\<close>

theorem hard_disable_is_sticky:
  assumes "a \<noteq> 0" and "snd (eligible a now s)" and "\<forall>e \<in> set es. \<not> resumes a e"
  shows "eligible a later (foldl (lane_step c) s es) = (False, True)
    \<and> eligible a later (lane_step c (foldl (lane_step c) s es) (LaneResumed a t)) = (True, False)"
proof -
  have "hard_in (foldl (lane_step c) s es) a" using lane_run_keeps_hard assms by (simp add: eligible_hard)
  with assms(1) show ?thesis by (auto simp: hard_in_def eligible_def lane_step_defs)
qed

theorem hard_disable_is_sticky_witness:
  "let c = ac_normalized (ac_config.make 0 0 0 0); s = lane_step c Map.empty (LaneRefreshed 7 1 False True 5)
   in eligible 7 100 (foldl (lane_step c) s [LaneSucceeded 7 6, LaneFailed 7 ClassAmbiguous 2 9]) = (False, True)"
proof -
  let ?c = "ac_normalized (ac_config.make 0 0 0 0)"
  have "snd (eligible 7 5 (lane_step ?c Map.empty (LaneRefreshed 7 1 False True 5)))"
    by (simp add: lane_step_defs eligible_def new_lane_entry_def)
  from hard_disable_is_sticky [OF _ this, of "[LaneSucceeded 7 6, LaneFailed 7 ClassAmbiguous 2 9]" 100 ?c]
  show ?thesis by (simp add: resumes_def Let_def)
qed

text \<open>
  C34. While the truth cannot be written the lane protects its own replica: a failure removes exactly
  the accounts the lane without persistence would remove, at every later time.
\<close>

theorem outage_equals_local_lane:
  assumes "fst (pn_record pe a cls v now c p) = Inl err"
  shows "eligible b later (fst (suspend (Some pe) c a cls v now (s, p)))
    = eligible b later (fst (suspend (None :: 'p persistence option) c a cls v now (s, p)))"
proof -
  obtain p' where r: "pn_record pe a cls v now c p = (Inl err, p')" using assms by (metis prod.collapse)
  show ?thesis
  proof (cases "withinLocalWindow a v now s")
    case True
    then obtain e where e: "s a = Some e" "\<not> newer_version v e" "ae_hard e \<or> \<not> ae_until e < now"
      by (auto simp: withinLocalWindow_def split: option.splits)
    obtain x e' where f: "fail_entry c a cls v now False e = (x, e')" by fastforce
    have "ae_hard e' = ae_hard e \<and> (ae_hard e \<or> ae_until e' = ae_until e)"
      using e(2,3) f by (auto simp: fail_entry_def Let_def split: if_splits)
    with e(1) True f show ?thesis by (auto simp: suspend_def suspendLocal_def eligible_def)
  next
    case False
    define e where "e = (case s a of None \<Rightarrow> new_lane_entry v | Some e \<Rightarrow> e)"
    obtain x e1 y e2 where f: "fail_entry c a cls v now True e = (x, e1)" "fail_entry c a cls v now False e = (y, e2)"
      by fastforce
    then have "ae_hard e1 = ae_hard e2 \<and> ae_until e1 = ae_until e2"
      by (auto simp: fail_entry_def Let_def split: if_splits)
    with r f False show ?thesis by (simp add: suspend_def suspendLocal_def eligible_def e_def [symmetric])
  qed
qed

definition down_persistence :: "unit persistence" where
  "down_persistence =
     \<lparr> pn_kind = ''postgres'', pn_record = (\<lambda>_ _ _ _ _ p. (Inl ''down'', p)), pn_mark = (\<lambda>_ _ _ _ _ p. (Inl ''down'', p)),
       pn_clear = (\<lambda>_ _ _ p. (Inl ''down'', p)), pn_get = (\<lambda>_ p. (Inl ''down'', p)), pn_list = (\<lambda>p. (Inl ''down'', p)) \<rparr>"

theorem outage_equals_local_lane_witness:
  "let c = ac_normalized (ac_config.make 0 0 0 0)
   in eligible 7 10 (fst (suspend (Some down_persistence) c 7 ClassAmbiguous 1 5 (Map.empty, ())))
      = eligible 7 10 (fst (suspend (None :: unit persistence option) c 7 ClassAmbiguous 1 5 (Map.empty, ())))"
  unfolding Let_def
  by (rule outage_equals_local_lane [where err = "''down''"]) (simp add: down_persistence_def)


definition listing :: "persisted list \<Rightarrow> unit persistence" where
  "listing rows = down_persistence\<lparr> pn_list := (\<lambda>p. (Inr rows, p)) \<rparr>"


text \<open>
  The interval by which a failure removes an account is positive and never exceeds the cap, for
  any configuration; while the doubling fits in 64 bits it is the base doubled once per earlier
  strike, cut off at the cap.
\<close>

theorem backoff_bounds:
  fixes c n
  defines "d \<equiv> ac_normalized c"
  shows "0 < backoffFor d n \<and> backoffFor d n \<le> ac_cap d
    \<and> (if 1 \<le> n \<and> ac_base d * 2 ^ nat (n - 1) < 2 ^ 63 \<and> ac_cap d < 2 ^ 62
       then backoffFor d n = min (ac_base d * 2 ^ nat (n - 1)) (ac_cap d) else True)"
  using normalized_base [of c] backoff_exact [of d n] unfolding d_def
  by (auto simp: backoffFor_def [of "ac_normalized c"] Let_def simp del: power_Suc)

end
