(* ===== verification/Channel_Health.thy ===== *)
theory Channel_Health
  imports Health_Window Auth_Cooldown
begin

text \<open>
  The channel health service (backend/internal/channelhealth: types.go, service.go, credits.go,
  cooldown_source.go, rate_limit_recovery.go, transition_log.go, mutation_retry.go) over its
  in-memory store (store_memory.go). One call sees one value of the clock. A reason class is a
  string, since an operator may name any; payloads of audits and alerts are left out, and alerts go
  to the store (no outbox is configured).
\<close>

section \<open>Data\<close>

datatype health_state =
  StateActive | StateDegraded | StateCoolingDown | StateRamping | StateDisabled | StateManualPaused

datatype ch_confidence = ConfidenceObserved | ConfidenceInferred | ConfidenceOperatorOverride

datatype audit_type =
  EventDegraded | EventDisabled | EventRecovered | EventRampStarted | EventRampRolledBack | EventManualOverride

datatype alert_type = AlertBanSignal | AlertRepeatedRampRollback | AlertManualForceActive | AlertNoHealthyAlternate

definition signal_text :: "signal_class \<Rightarrow> string" where
  "signal_text c =
     (case c of
        SignalNone \<Rightarrow> ''none'' | SignalSuccess \<Rightarrow> ''success'' | SignalChannelError \<Rightarrow> ''channel_error''
      | SignalClientMalformed \<Rightarrow> ''client_malformed'' | SignalLocalGateway5xx \<Rightarrow> ''local_gateway_5xx''
      | SignalUpstream5xx \<Rightarrow> ''upstream_5xx'' | SignalTimeout \<Rightarrow> ''timeout'' | SignalRateLimit \<Rightarrow> ''rate_limit''
      | SignalCreditsExhausted \<Rightarrow> ''credits_exhausted'' | SignalForbidden \<Rightarrow> ''forbidden''
      | SignalLatencyP99 \<Rightarrow> ''latency_p99'' | SignalAccountSuspended \<Rightarrow> ''account_suspended''
      | SignalAuthChallenge \<Rightarrow> ''auth_challenge'' | SignalTokenRevoked \<Rightarrow> ''token_revoked''
      | SignalCredentialRevoked \<Rightarrow> ''credential_revoked'' | SignalAccountDisabled \<Rightarrow> ''account_disabled''
      | SignalSubscriptionOrWorkspaceDisabled \<Rightarrow> ''subscription_or_workspace_disabled''
      | SignalPolicyAutoDisabled \<Rightarrow> ''policy_auto_disabled'' | SignalManualOverride \<Rightarrow> ''manual_override'')"

record ch_key =
  ck_tenant :: int
  ck_channel :: string
  ck_vendor :: string
  ck_account :: int
  ck_credential :: int
  ck_version :: int

definition key_validate :: "ch_key \<Rightarrow> string option" where
  "key_validate k =
     (if ck_tenant k \<le> 0 then Some ''tenant_id must be positive''
      else if ck_vendor k = [] then Some ''vendor is required''
      else if ck_credential k \<le> 0 then Some ''account_credential_id must be positive''
      else if ck_version k \<le> 0 then Some ''credential_version must be positive''
      else None)"

definition stableChannelID :: "ch_key \<Rightarrow> string" where
  "stableChannelID k =
     (if ck_channel k \<noteq> [] then ck_channel k
      else ck_vendor k @ '':'' @ int_string (ck_credential k) @ '':v'' @ int_string (ck_version k))"

definition mapKey :: "ch_key \<Rightarrow> string" where
  "mapKey k =
     int_string (ck_tenant k) @ ''/'' @ ck_vendor k @ ''/'' @ int_string (ck_credential k) @ ''/'' @
       int_string (ck_version k)"

definition with_channel :: "ch_key \<Rightarrow> ch_key" where
  "with_channel k = (if ck_channel k = [] then k\<lparr> ck_channel := stableChannelID k \<rparr> else k)"

record ch_signal =
  sg_key :: ch_key
  sg_class :: signal_class
  sg_status :: int
  sg_latency :: int
  sg_at :: instant
  sg_request :: string
  sg_resetAt :: "instant option"
  sg_auth :: failure_class

record ch_record =
  hr_key :: ch_key
  hr_state :: health_state
  hr_score :: int
  hr_reason :: string
  hr_confidence :: ch_confidence
  hr_until :: "instant option"
  hr_stage :: int
  hr_rampStarted :: "instant option"
  hr_entered :: instant
  hr_transition :: instant
  hr_policy :: string
  hr_window :: window
  hr_lastClass :: signal_class
  hr_lastAt :: "instant option"
  hr_pauseReason :: string
  hr_actor :: string
  hr_overrideReason :: string
  hr_rampFailures :: int
  hr_blocked :: string
  hr_created :: instant
  hr_updated :: instant

record audit_event =
  au_type :: audit_type
  au_key :: ch_key
  au_prev :: health_state
  au_new :: health_state
  au_reason :: string
  au_policy :: string
  au_request :: string
  au_actor :: string
  au_at :: instant

record alert =
  al_type :: alert_type
  al_key :: ch_key
  al_severity :: string
  al_reason :: string
  al_at :: instant

text \<open>The service, the store it writes, and the auth lane with the truth behind it.\<close>

record 'p ch_service =
  sv_policy :: ch_policy
  sv_cooldown :: "(int \<Rightarrow> duration option) option"
  sv_lane :: "('p persistence option \<times> ac_config) option"

record 'p ch_world =
  hw_records :: "string \<rightharpoonup> ch_record"
  hw_audits :: "audit_event list"
  hw_alerts :: "alert list"
  hw_failAudit :: bool
  hw_lane :: "lane \<times> 'p"

type_synonym 'p ch_result = "(string + ch_record) \<times> 'p ch_world"

definition newHealthService :: "ch_policy \<Rightarrow> (int \<Rightarrow> duration option) option \<Rightarrow> ('p persistence option \<times> ac_config) option \<Rightarrow> 'p ch_service" where
  "newHealthService p cd lane = \<lparr> sv_policy = policy_normalized p, sv_cooldown = cd, sv_lane = lane \<rparr>"

definition newRecord :: "ch_key \<Rightarrow> ch_policy \<Rightarrow> instant \<Rightarrow> ch_record" where
  "newRecord k p now =
     \<lparr> hr_key = k\<lparr> ck_channel := stableChannelID k \<rparr>, hr_state = StateActive, hr_score = 100,
       hr_reason = signal_text SignalNone, hr_confidence = ConfidenceObserved, hr_until = None, hr_stage = 0,
       hr_rampStarted = None, hr_entered = now, hr_transition = now, hr_policy = po_version p,
       hr_window = empty_window, hr_lastClass = SignalNone, hr_lastAt = None, hr_pauseReason = [], hr_actor = [],
       hr_overrideReason = [], hr_rampFailures = 0, hr_blocked = [], hr_created = now, hr_updated = now \<rparr>"

section \<open>The store\<close>

definition store_get :: "ch_key \<Rightarrow> 'p ch_world \<Rightarrow> ch_record option" where
  "store_get k w = hw_records w (mapKey k)"

definition upsertRecord :: "ch_record \<Rightarrow> 'p ch_world \<Rightarrow> ch_record \<times> 'p ch_world" where
  "upsertRecord r w =
     (let r = r\<lparr> hr_key := with_channel (hr_key r) \<rparr>
      in (r, w\<lparr> hw_records := (hw_records w)(mapKey (hr_key r) \<mapsto> r) \<rparr>))"

definition appendAudit :: "audit_event \<Rightarrow> 'p ch_world \<Rightarrow> string option \<times> 'p ch_world" where
  "appendAudit ev w =
     (if hw_failAudit w then (Some ''injected audit failure'', w) else (None, w\<lparr> hw_audits := hw_audits w @ [ev] \<rparr>))"

definition appendAlert :: "alert \<Rightarrow> 'p ch_world \<Rightarrow> 'p ch_world" where
  "appendAlert al w = w\<lparr> hw_alerts := hw_alerts w @ [al] \<rparr>"

text \<open>A transaction that fails puts the records, audits and alerts back; the lane is outside it.\<close>

definition withTx :: "('p ch_world \<Rightarrow> 'p ch_result) \<Rightarrow> 'p ch_world \<Rightarrow> 'p ch_result" where
  "withTx f w =
     (case f w of
        (Inl e, w') \<Rightarrow>
          (Inl e, w'\<lparr> hw_records := hw_records w, hw_audits := hw_audits w, hw_alerts := hw_alerts w \<rparr>)
      | r \<Rightarrow> r)"

definition ensureDefaultActive :: "'p ch_service \<Rightarrow> ch_key \<Rightarrow> instant \<Rightarrow> 'p ch_world \<Rightarrow> 'p ch_result" where
  "ensureDefaultActive sv k now w =
     (case key_validate k of
        Some e \<Rightarrow> (Inl e, w)
      | None \<Rightarrow>
          (case store_get k w of
             Some r \<Rightarrow> (Inr r, w)
           | None \<Rightarrow> (let (r, w) = upsertRecord (newRecord k (sv_policy sv) now) w in (Inr r, w))))"

definition recordForMutation :: "'p ch_service \<Rightarrow> ch_key \<Rightarrow> instant \<Rightarrow> 'p ch_world \<Rightarrow> 'p ch_result" where
  "recordForMutation sv k now w = ensureDefaultActive sv (with_channel k) now w"

section \<open>Decisions\<close>

record ch_decision =
  ds_state :: "health_state option"
  ds_reason :: string
  ds_cooldown :: duration
  ds_until :: "instant option"
  ds_blocked :: string
  ds_confidence :: "ch_confidence option"
  ds_events :: "audit_type list"
  ds_alert :: "alert_type option"
  ds_severity :: string
  ds_auditEven :: bool

definition no_decision :: ch_decision where
  "no_decision =
     \<lparr> ds_state = None, ds_reason = [], ds_cooldown = 0, ds_until = None, ds_blocked = [], ds_confidence = None,
       ds_events = [], ds_alert = None, ds_severity = [], ds_auditEven = False \<rparr>"

definition observed :: "health_state \<Rightarrow> signal_class \<Rightarrow> audit_type list \<Rightarrow> ch_decision" where
  "observed st c evs =
     no_decision\<lparr> ds_state := Some st, ds_reason := signal_text c, ds_confidence := Some ConfidenceObserved,
                  ds_events := evs \<rparr>"

definition statusCooldown :: "'p ch_service \<Rightarrow> int \<Rightarrow> duration \<Rightarrow> duration" where
  "statusCooldown sv st fallback =
     (let fallback = (if fallback \<le> 0 then po_rateCooldown defaultPolicy else fallback)
      in case sv_cooldown sv of
           None \<Rightarrow> fallback
         | Some f \<Rightarrow> (case f st of None \<Rightarrow> fallback | Some d \<Rightarrow> if d \<le> 0 then fallback else d))"

definition creditsExhaustedDecision :: "'p ch_service \<Rightarrow> ch_signal \<Rightarrow> instant \<Rightarrow> ch_decision" where
  "creditsExhaustedDecision sv sig now =
     (if sg_class sig \<noteq> SignalCreditsExhausted then no_decision
      else (observed StateCoolingDown SignalCreditsExhausted [EventDegraded, EventDisabled])
             \<lparr> ds_until := Some (case sg_resetAt sig of
                   Some t \<Rightarrow> if now < t then t else now + po_creditsCooldown (sv_policy sv)
                 | None \<Rightarrow> now + po_creditsCooldown (sv_policy sv)) \<rparr>)"

definition rateLimitDecision :: "'p ch_service \<Rightarrow> ch_record \<Rightarrow> ch_signal \<Rightarrow> instant \<Rightarrow> ch_decision" where
  "rateLimitDecision sv r sig now =
     (let p = sv_policy sv;
          w = windowFor (hr_window r) (po_rateWindow p) now
      in if ws_total w < po_minSamples p then no_decision
         else if health_rate (ws_rate w) (ws_total w) \<le> po_ratePct p then no_decision
         else
           (let status = (if sg_status sig = 0 then 429 else sg_status sig);
                fallback = now + statusCooldown sv status (po_rateCooldown p);
                until = (case sg_resetAt sig of Some t \<Rightarrow> if now < t then t else fallback | None \<Rightarrow> fallback)
            in (observed StateCoolingDown SignalRateLimit [EventDegraded, EventDisabled])\<lparr> ds_until := Some until \<rparr>))"

definition errorRateDecision :: "'p ch_service \<Rightarrow> ch_record \<Rightarrow> instant \<Rightarrow> ch_decision" where
  "errorRateDecision sv r now =
     (let p = sv_policy sv;
          w = windowFor (hr_window r) (po_errorWindow p) now;
          attempts = ws_total w - ws_local5xx w
      in if attempts < po_minSamples p then no_decision
         else if health_rate (ws_failed w) attempts \<le> po_errorPct p then no_decision
         else (observed StateCoolingDown SignalChannelError [EventDegraded, EventDisabled])
                \<lparr> ds_cooldown := po_errorCooldown p \<rparr>)"

definition upstream5xxDecision :: "'p ch_service \<Rightarrow> ch_record \<Rightarrow> ch_signal \<Rightarrow> instant \<Rightarrow> ch_decision" where
  "upstream5xxDecision sv r sig now =
     (let p = sv_policy sv;
          w = windowFor (hr_window r) (po_5xxWindow p) now;
          attempts = ws_total w - ws_local5xx w
      in if attempts < po_minSamples p then no_decision
         else if health_rate (ws_5xx w) attempts \<le> po_5xxPct p then no_decision
         else if hr_state r = StateDegraded \<and> hr_reason r = signal_text SignalUpstream5xx
         then (observed StateCoolingDown SignalUpstream5xx [EventDisabled])
                \<lparr> ds_cooldown := (if sg_status sig = 529 then statusCooldown sv 529 (po_5xxCooldown p)
                                  else po_5xxCooldown p) \<rparr>
         else observed StateDegraded SignalUpstream5xx [EventDegraded])"

definition latencyDecision :: "'p ch_service \<Rightarrow> ch_record \<Rightarrow> instant \<Rightarrow> ch_decision" where
  "latencyDecision sv r now =
     (let p = sv_policy sv;
          w = windowFor (hr_window r) (po_latencyWindow p) now
      in if ws_total w < po_minSamples p \<or> ws_p99 w \<le> po_latencyMS p then no_decision
         else if hr_state r = StateDegraded \<and> hr_reason r = signal_text SignalLatencyP99
         then (observed StateCoolingDown SignalLatencyP99 [EventDisabled])\<lparr> ds_cooldown := po_latencyCooldown p \<rparr>
         else observed StateDegraded SignalLatencyP99 [EventDegraded])"

definition banDecision :: "'p ch_service \<Rightarrow> signal_class \<Rightarrow> instant \<Rightarrow> ch_decision" where
  "banDecision sv c now =
     (observed StateDisabled c [EventDisabled])
       \<lparr> ds_until := Some (now + po_banMin (sv_policy sv)), ds_alert := Some AlertBanSignal, ds_severity := ''high'',
         ds_blocked := (if po_autoRamp (sv_policy sv) then [] else ''operator_ack_required'') \<rparr>"

definition rampDecision :: "'p ch_service \<Rightarrow> ch_record \<Rightarrow> signal_class \<Rightarrow> instant \<Rightarrow> ch_decision" where
  "rampDecision sv r c now =
     (let p = sv_policy sv;
          recent = windowFor (hr_window r) (po_minObservation p) now
      in if hr_state r = StateRamping \<and> po_rampSamples p \<le> ws_total recent \<and> po_rampPct p < rampFailureRate recent
         then (observed StateCoolingDown c [EventRampRolledBack, EventDisabled])\<lparr> ds_cooldown := po_errorCooldown p \<rparr>
         else no_decision)"

text \<open>The first decision that names a state.\<close>

fun first_decision :: "ch_decision list \<Rightarrow> ch_decision" where
  "first_decision [] = no_decision"
| "first_decision (d # ds) = (if ds_state d \<noteq> None then d else first_decision ds)"

definition evaluate :: "'p ch_service \<Rightarrow> ch_record \<Rightarrow> ch_signal \<Rightarrow> instant \<Rightarrow> ch_decision" where
  "evaluate sv r sig now =
     (if hr_state r = StateManualPaused then no_decision
      else if isBanSignal (sg_class sig) then banDecision sv (sg_class sig) now
      else first_decision
             [rampDecision sv r (sg_class sig) now, creditsExhaustedDecision sv sig now, rateLimitDecision sv r sig now,
              upstream5xxDecision sv r sig now, latencyDecision sv r now, errorRateDecision sv r now])"

definition applyDecision :: "ch_record \<Rightarrow> health_state \<Rightarrow> ch_decision \<Rightarrow> instant \<Rightarrow> ch_policy \<Rightarrow> ch_record" where
  "applyDecision r st d now p =
     (let until = (case ds_until d of
                     Some t \<Rightarrow> Some t
                   | None \<Rightarrow> if 0 < ds_cooldown d then Some (now + ds_cooldown d) else hr_until r);
          until = (if st = StateCoolingDown \<and> until = None then Some (now + po_errorCooldown p) else until)
      in r\<lparr> hr_state := st,
            hr_reason := (if ds_reason d \<noteq> [] then ds_reason d else hr_reason r),
            hr_confidence := (case ds_confidence d of None \<Rightarrow> hr_confidence r | Some c \<Rightarrow> c),
            hr_until := until,
            hr_stage := (if st \<noteq> StateRamping then 0 else hr_stage r),
            hr_rampStarted := (if st \<noteq> StateRamping then None else hr_rampStarted r),
            hr_blocked := ds_blocked d, hr_entered := now, hr_transition := now, hr_policy := po_version p,
            hr_updated := now \<rparr>)"

definition maxRampBackoffLevel :: int where "maxRampBackoffLevel = 5"

text \<open>The product of the floats is cut to an integer; it is exact for the factors a policy uses.\<close>

definition ramp_backoff :: "ch_policy \<Rightarrow> int \<Rightarrow> duration" where
  "ramp_backoff p failures =
     (let d = (if po_errorCooldown p \<le> 0 then po_errorCooldown defaultPolicy else po_errorCooldown p);
          factor = (if po_rampFactor p < 1 then 1 else po_rampFactor p);
          level = (if failures < 1 then 1 else failures);
          level = (if maxRampBackoffLevel < level then maxRampBackoffLevel else level)
      in \<lfloor>of_int d * factor ^ nat level\<rfloor>)"

definition rollbackRamp :: "ch_policy \<Rightarrow> ch_record \<Rightarrow> instant \<Rightarrow> string \<Rightarrow> ch_record" where
  "rollbackRamp p r now reason =
     (let failures = hr_rampFailures r + 1
      in r\<lparr> hr_state := StateCoolingDown, hr_reason := reason, hr_rampFailures := failures, hr_stage := 0,
            hr_rampStarted := None, hr_until := Some (now + ramp_backoff p failures), hr_entered := now,
            hr_transition := now, hr_updated := now, hr_policy := po_version p \<rparr>)"

section \<open>Audits and alerts\<close>

definition defaultEvents :: "health_state \<Rightarrow> health_state \<Rightarrow> audit_type list" where
  "defaultEvents prev new =
     (case new of
        StateDegraded \<Rightarrow> [EventDegraded]
      | StateCoolingDown \<Rightarrow> [EventDisabled]
      | StateDisabled \<Rightarrow> [EventDisabled]
      | StateManualPaused \<Rightarrow> [EventDisabled]
      | StateRamping \<Rightarrow> [EventRampStarted]
      | StateActive \<Rightarrow> if prev \<noteq> StateActive then [EventRecovered] else [])"

definition audit_for :: "health_state \<Rightarrow> ch_record \<Rightarrow> string \<Rightarrow> string \<Rightarrow> instant \<Rightarrow> audit_type \<Rightarrow> audit_event" where
  "audit_for prev r request actor now ty =
     \<lparr> au_type = ty, au_key = hr_key r, au_prev = prev, au_new = hr_state r, au_reason = hr_reason r,
       au_policy = hr_policy r, au_request = request, au_actor = actor, au_at = now \<rparr>"

fun append_audits :: "audit_event list \<Rightarrow> 'p ch_world \<Rightarrow> string option \<times> 'p ch_world" where
  "append_audits [] w = (None, w)"
| "append_audits (ev # evs) w =
     (case appendAudit ev w of (Some e, w) \<Rightarrow> (Some e, w) | (None, w) \<Rightarrow> append_audits evs w)"

definition emitTransitionEvents ::
    "health_state \<Rightarrow> ch_record \<Rightarrow> string \<Rightarrow> string \<Rightarrow> audit_type list \<Rightarrow> instant \<Rightarrow> 'p ch_world \<Rightarrow> string option \<times> 'p ch_world" where
  "emitTransitionEvents prev r request actor evs now w =
     append_audits
       (map (audit_for prev r request actor now) (if evs = [] then defaultEvents prev (hr_state r) else evs)) w"

definition emitAlert :: "ch_record \<Rightarrow> alert_type \<Rightarrow> string \<Rightarrow> instant \<Rightarrow> 'p ch_world \<Rightarrow> 'p ch_world" where
  "emitAlert r ty severity now w =
     appendAlert \<lparr> al_type = ty, al_key = hr_key r, al_severity = (if severity = [] then ''high'' else severity),
       al_reason = hr_reason r, al_at = now \<rparr> w"

text \<open>The end every transition shares: save the record, then write its audits.\<close>

definition commit ::
    "health_state \<Rightarrow> ch_record \<Rightarrow> string \<Rightarrow> string \<Rightarrow> audit_type list \<Rightarrow> instant \<Rightarrow> 'p ch_world \<Rightarrow> 'p ch_result" where
  "commit prev r request actor evs now w =
     (let (r, w) = upsertRecord r w
      in case emitTransitionEvents prev r request actor evs now w of
           (Some e, w) \<Rightarrow> (Inl e, w)
         | (None, w) \<Rightarrow> (Inr r, w))"

section \<open>Signals\<close>

definition lane_suspend :: "'p ch_service \<Rightarrow> ch_signal \<Rightarrow> instant \<Rightarrow> 'p ch_world \<Rightarrow> 'p ch_world" where
  "lane_suspend sv sig now w =
     (case sv_lane sv of
        None \<Rightarrow> w
      | Some (pers, c) \<Rightarrow>
          if ck_account (sg_key sig) = 0 then w
          else w\<lparr> hw_lane := suspend pers c (ck_account (sg_key sig)) (sg_auth sig) (ck_version (sg_key sig)) now
                               (hw_lane w) \<rparr>)"

definition lane_clear :: "'p ch_service \<Rightarrow> int \<Rightarrow> string \<Rightarrow> instant \<Rightarrow> 'p ch_world \<Rightarrow> 'p ch_world" where
  "lane_clear sv a reason now w =
     (case sv_lane sv of
        None \<Rightarrow> w
      | Some (pers, c) \<Rightarrow> if a = 0 then w else w\<lparr> hw_lane := clear pers a reason now (hw_lane w) \<rparr>)"

text \<open>The record after the signal's decision, and the alert the decision or the rollback asks for.\<close>

definition decide ::
    "ch_policy \<Rightarrow> ch_record \<Rightarrow> ch_decision \<Rightarrow> instant \<Rightarrow> ch_record \<times> alert_type option \<times> string" where
  "decide p r d now =
     (case ds_state d of
        None \<Rightarrow> (r, ds_alert d, ds_severity d)
      | Some st \<Rightarrow>
          if st = hr_state r then (r, ds_alert d, ds_severity d)
          else if st = StateCoolingDown \<and> EventRampRolledBack \<in> set (ds_events d)
          then (let r = rollbackRamp p r now (ds_reason d)
                in if po_rollbackAlert p \<le> hr_rampFailures r then (r, Some AlertRepeatedRampRollback, ''high'')
                   else (r, ds_alert d, ds_severity d))
          else (applyDecision r st d now p, ds_alert d, ds_severity d))"

definition with_sample :: "ch_policy \<Rightarrow> ch_record \<Rightarrow> ch_signal \<Rightarrow> instant \<Rightarrow> ch_record" where
  "with_sample p r sig now =
     r\<lparr> hr_window := addSignalToWindow (hr_window r) p
          \<lparr> sa_at = sg_at sig, sa_class = sg_class sig, sa_status = sg_status sig, sa_latency = sg_latency sig \<rparr> now,
        hr_lastClass := sg_class sig, hr_lastAt := Some (sg_at sig), hr_updated := now \<rparr>"

definition save_signal ::
    "health_state \<Rightarrow> ch_record \<Rightarrow> ch_decision \<Rightarrow> alert_type option \<Rightarrow> string \<Rightarrow> string \<Rightarrow> instant \<Rightarrow> 'p ch_world \<Rightarrow> 'p ch_result" where
  "save_signal prev r d al severity request now w =
     (let (r, w) = upsertRecord r w;
          (err, w) = (if prev \<noteq> hr_state r \<or> ds_auditEven d
                      then emitTransitionEvents prev r request [] (ds_events d) now w else (None, w))
      in case err of
           Some e \<Rightarrow> (Inl e, w)
         | None \<Rightarrow> (Inr r, case al of None \<Rightarrow> w | Some ty \<Rightarrow> emitAlert r ty severity now w))"

definition judge_signal :: "'p ch_service \<Rightarrow> ch_signal \<Rightarrow> instant \<Rightarrow> ch_record \<Rightarrow> 'p ch_world \<Rightarrow> 'p ch_result" where
  "judge_signal sv sig now r w =
     (let prev = hr_state r;
          r = with_sample (sv_policy sv) r sig now;
          d = evaluate sv r sig now;
          (r, al, severity) = decide (sv_policy sv) r d now
      in save_signal prev r d al severity (sg_request sig) now w)"

definition normal_signal :: "ch_signal \<Rightarrow> instant \<Rightarrow> ch_signal" where
  "normal_signal sig now =
     sig\<lparr> sg_key := with_channel (sg_key sig), sg_at := (if sg_at sig = zero_time then now else sg_at sig) \<rparr>"

definition apply_signal :: "'p ch_service \<Rightarrow> ch_signal \<Rightarrow> instant \<Rightarrow> 'p ch_world \<Rightarrow> 'p ch_result" where
  "apply_signal sv sig now w =
     (let sig = normal_signal sig now; key = sg_key sig
      in case key_validate key of
           Some e \<Rightarrow> (Inl e, w)
         | None \<Rightarrow>
             (let w = (if sg_class sig = SignalSuccess then lane_clear sv (ck_account key) ''request_success'' now w else w)
              in case ensureDefaultActive sv key now w of
                   (Inl e, w) \<Rightarrow> (Inl e, w)
                 | (Inr r, w) \<Rightarrow> judge_signal sv sig now r w))"

text \<open>An auth challenge goes to the lane and returns no record (the zero \<open>Record\<close> of the source).\<close>

definition applySignal ::
    "'p ch_service \<Rightarrow> ch_signal \<Rightarrow> instant \<Rightarrow> 'p ch_world \<Rightarrow> (string + ch_record option) \<times> 'p ch_world" where
  "applySignal sv sig now w =
     (if sg_class sig = SignalAuthChallenge then (Inr None, lane_suspend sv sig now w)
      else (case withTx (apply_signal sv sig now) w of
              (Inl e, w) \<Rightarrow> (Inl e, w)
            | (Inr r, w) \<Rightarrow> (Inr (Some r), w)))"

section \<open>Ramping back\<close>

definition maybe_start_ramp :: "'p ch_service \<Rightarrow> ch_key \<Rightarrow> instant \<Rightarrow> 'p ch_world \<Rightarrow> 'p ch_result" where
  "maybe_start_ramp sv k now w =
     (case recordForMutation sv k now w of
        (Inl e, w) \<Rightarrow> (Inl e, w)
      | (Inr r, w) \<Rightarrow>
          if hr_state r \<noteq> StateCoolingDown then (Inr r, w)
          else (case hr_until r of
                  None \<Rightarrow> (Inr r, w)
                | Some t \<Rightarrow>
                    if now < t then (Inr r, w)
                    else commit (hr_state r)
                           (r\<lparr> hr_state := StateRamping, hr_reason := signal_text SignalNone, hr_stage := 1,
                              hr_rampStarted := Some now, hr_until := None, hr_entered := now, hr_transition := now,
                              hr_updated := now, hr_policy := po_version (sv_policy sv) \<rparr>)
                           [] [] [EventRampStarted] now w))"

definition maybeStartRamp :: "'p ch_service \<Rightarrow> ch_key \<Rightarrow> instant \<Rightarrow> 'p ch_world \<Rightarrow> 'p ch_result" where
  "maybeStartRamp sv k now = withTx (maybe_start_ramp sv k now)"

definition next_stage :: "ch_policy \<Rightarrow> instant \<Rightarrow> ch_record \<Rightarrow> ch_record" where
  "next_stage p now r =
     (let r = (if hr_stage r = 0 then r\<lparr> hr_stage := 1 \<rparr>
               else if hr_stage r = 1 then r\<lparr> hr_stage := 10 \<rparr>
               else if hr_stage r = 10 then r\<lparr> hr_stage := 50 \<rparr>
               else if hr_stage r = 50 then r\<lparr> hr_stage := 100 \<rparr>
               else r\<lparr> hr_state := StateActive, hr_stage := 0, hr_rampStarted := None,
                       hr_reason := signal_text SignalNone, hr_rampFailures := 0 \<rparr>);
          r = (if hr_state r = StateRamping then r\<lparr> hr_rampStarted := Some now \<rparr> else r)
      in r\<lparr> hr_transition := now, hr_updated := now, hr_policy := po_version p \<rparr>)"

text \<open>\<open>stage_ready\<close> is whether the stage is old enough and has samples enough, or is at its maximum age.\<close>

definition stage_ready :: "ch_policy \<Rightarrow> ch_record \<Rightarrow> window \<Rightarrow> instant \<Rightarrow> bool" where
  "stage_ready p r recent now \<longleftrightarrow>
     (let age = (case hr_rampStarted r of None \<Rightarrow> 0 | Some t \<Rightarrow> now - t)
      in \<not> (hr_rampStarted r \<noteq> None \<and> age < po_rampMin p) \<and>
         \<not> (ws_total recent < po_rampSamples p \<and> age < po_rampMax p))"

definition advance_ramp :: "'p ch_service \<Rightarrow> ch_key \<Rightarrow> instant \<Rightarrow> 'p ch_world \<Rightarrow> 'p ch_result" where
  "advance_ramp sv k now w =
     (case recordForMutation sv k now w of
        (Inl e, w) \<Rightarrow> (Inl e, w)
      | (Inr r, w) \<Rightarrow>
          if hr_state r \<noteq> StateRamping then (Inr r, w)
          else
            (let p = sv_policy sv;
                 recent = windowFor (hr_window r) (po_minObservation p) now
             in if \<not> stage_ready p r recent now then (Inr r, w)
                else if po_rampPct p < rampFailureRate recent \<or> 0 < ws_ban recent
                then (let prev = hr_state r;
                          (res, w) = commit prev (rollbackRamp p r now (signal_text SignalChannelError)) [] []
                                       [EventRampRolledBack, EventDisabled] now w
                      in case res of
                           Inl e \<Rightarrow> (Inl e, w)
                         | Inr r \<Rightarrow>
                             (Inr r, if po_rollbackAlert p \<le> hr_rampFailures r
                                     then emitAlert r AlertRepeatedRampRollback ''high'' now w else w))
                else (let prev = hr_state r; r = next_stage p now r
                      in commit prev r [] [] [if hr_state r = StateActive then EventRecovered else EventRampStarted] now w)))"

definition advanceRamp :: "'p ch_service \<Rightarrow> ch_key \<Rightarrow> instant \<Rightarrow> 'p ch_world \<Rightarrow> 'p ch_result" where
  "advanceRamp sv k now = withTx (advance_ramp sv k now)"

section \<open>Operators\<close>

definition manual_transition ::
    "'p ch_service \<Rightarrow> ch_key \<Rightarrow> string \<Rightarrow> string \<Rightarrow> health_state \<Rightarrow> int \<Rightarrow> audit_type list \<Rightarrow> string \<Rightarrow> instant \<Rightarrow>
     'p ch_world \<Rightarrow> 'p ch_result" where
  "manual_transition sv k actor reason st pct evs severity now w =
     (let reason = trim_space reason
      in if po_overrideReason (sv_policy sv) \<and> reason = [] then (Inl ''manual override reason is required'', w)
         else (case recordForMutation sv k now w of
                 (Inl e, w) \<Rightarrow> (Inl e, w)
               | (Inr r, w) \<Rightarrow>
                   (let prev = hr_state r;
                        r = r\<lparr> hr_state := st, hr_reason := signal_text SignalManualOverride,
                              hr_confidence := ConfidenceOperatorOverride, hr_actor := actor, hr_overrideReason := reason,
                              hr_pauseReason := (if st = StateManualPaused then reason else []), hr_until := None,
                              hr_stage := pct, hr_rampStarted := (if st = StateRamping then Some now else None),
                              hr_entered := now, hr_transition := now, hr_policy := po_version (sv_policy sv),
                              hr_updated := now \<rparr>;
                        (r, w) = upsertRecord r w;
                        w = (if st = StateActive \<or> st = StateRamping
                             then lane_clear sv (ck_account k) ''operator_resume'' now w else w)
                    in case emitTransitionEvents prev r [] actor evs now w of
                         (Some e, w) \<Rightarrow> (Inl e, w)
                       | (None, w) \<Rightarrow>
                           (Inr r, if severity \<noteq> [] then emitAlert r AlertManualForceActive severity now w else w))))"

definition manualPause :: "'p ch_service \<Rightarrow> ch_key \<Rightarrow> string \<Rightarrow> string \<Rightarrow> instant \<Rightarrow> 'p ch_world \<Rightarrow> 'p ch_result" where
  "manualPause sv k actor reason now =
     withTx (manual_transition sv k actor reason StateManualPaused 0 [EventManualOverride, EventDisabled] [] now)"

definition manualResume :: "'p ch_service \<Rightarrow> ch_key \<Rightarrow> string \<Rightarrow> string \<Rightarrow> instant \<Rightarrow> 'p ch_world \<Rightarrow> 'p ch_result" where
  "manualResume sv k actor reason now =
     withTx (manual_transition sv k actor reason StateRamping 1 [EventManualOverride, EventRampStarted] [] now)"

definition forceActive :: "'p ch_service \<Rightarrow> ch_key \<Rightarrow> string \<Rightarrow> string \<Rightarrow> instant \<Rightarrow> 'p ch_world \<Rightarrow> 'p ch_result" where
  "forceActive sv k actor reason now =
     withTx (manual_transition sv k actor reason StateActive 0 [EventManualOverride, EventRecovered] ''security'' now)"

definition force_cooldown :: "'p ch_service \<Rightarrow> ch_key \<Rightarrow> instant \<Rightarrow> string \<Rightarrow> instant \<Rightarrow> 'p ch_world \<Rightarrow> 'p ch_result" where
  "force_cooldown sv k until reason now w =
     (if until = zero_time then (Inl ''cooldown_until is required'', w)
      else (case recordForMutation sv k now w of
              (Inl e, w) \<Rightarrow> (Inl e, w)
            | (Inr r, w) \<Rightarrow>
                if \<not> now < until then (Inl ''cooldown_until must be in the future'', w)
                else
                  (let prev = hr_state r;
                       cls = (if trim_space reason = [] then signal_text SignalRateLimit else trim_space reason);
                       later = (case hr_until r of None \<Rightarrow> True | Some t \<Rightarrow> t < until);
                       changed = (prev \<noteq> StateCoolingDown \<or> hr_reason r \<noteq> cls \<or> later);
                       r = (if later then r\<lparr> hr_until := Some until \<rparr> else r)
                   in if \<not> changed then (Inr r, w)
                      else commit prev
                             (r\<lparr> hr_state := StateCoolingDown, hr_reason := cls, hr_confidence := ConfidenceObserved,
                                hr_stage := 0, hr_rampStarted := None, hr_blocked := [], hr_entered := now,
                                hr_transition := now, hr_policy := po_version (sv_policy sv), hr_updated := now \<rparr>)
                             [] [] [EventDisabled] now w)))"

definition forceCooldown :: "'p ch_service \<Rightarrow> ch_key \<Rightarrow> instant \<Rightarrow> string \<Rightarrow> instant \<Rightarrow> 'p ch_world \<Rightarrow> 'p ch_result" where
  "forceCooldown sv k until reason now = withTx (force_cooldown sv k until reason now)"

section \<open>Recovery by account\<close>

text \<open>
  The latest record of an account: the highest credential version, then the latest update. Go visits
  the map in an unspecified order, given by \<open>ks\<close>.
\<close>

definition newer_record :: "ch_record \<Rightarrow> ch_record \<Rightarrow> bool" where
  "newer_record r best \<longleftrightarrow>
     ck_version (hr_key best) < ck_version (hr_key r) \<or>
     (ck_version (hr_key r) = ck_version (hr_key best) \<and> hr_updated best < hr_updated r)"

definition pick_latest ::
    "int \<Rightarrow> int \<Rightarrow> (string \<rightharpoonup> ch_record) \<Rightarrow> ch_record option \<Rightarrow> string \<Rightarrow> ch_record option" where
  "pick_latest tenant account m best k =
     (case m k of
        None \<Rightarrow> best
      | Some r \<Rightarrow>
          if ck_tenant (hr_key r) \<noteq> tenant \<or> ck_account (hr_key r) \<noteq> account then best
          else (case best of None \<Rightarrow> Some r | Some b \<Rightarrow> if newer_record r b then Some r else best))"

definition latestByProviderAccount :: "string list \<Rightarrow> int \<Rightarrow> int \<Rightarrow> 'p ch_world \<Rightarrow> ch_record option" where
  "latestByProviderAccount ks tenant account w = foldl (pick_latest tenant account (hw_records w)) None ks"

definition isRateLimitReason :: "string \<Rightarrow> bool" where
  "isRateLimitReason reason \<longleftrightarrow>
     (let v = (if reason = [] then signal_text SignalNone else reason)
      in v = signal_text SignalRateLimit \<or> strip_prefix (signal_text SignalRateLimit @ ''_'') v \<noteq> None)"

definition clear_rate_limit ::
    "'p ch_service \<Rightarrow> string list \<Rightarrow> int \<Rightarrow> int \<Rightarrow> string \<Rightarrow> instant \<Rightarrow> 'p ch_world \<Rightarrow> (string + ch_record \<times> bool) \<times> 'p ch_world" where
  "clear_rate_limit sv ks tenant account actor now w =
     (case latestByProviderAccount ks tenant account w of
        None \<Rightarrow> (Inl ''record not found'', w)
      | Some r \<Rightarrow>
          if hr_state r \<noteq> StateCoolingDown \<or> \<not> isRateLimitReason (hr_reason r) then (Inr (r, False), w)
          else
            (let win = clearRateLimitSamples (hr_window r);
                 latest = latestSignalSample win;
                 (res, w) = commit (hr_state r)
                   (r\<lparr> hr_window := win,
                      hr_lastClass := (case latest of None \<Rightarrow> SignalNone | Some s \<Rightarrow> sa_class s),
                      hr_lastAt := map_option sa_at latest,
                      hr_state := StateRamping, hr_reason := signal_text SignalNone, hr_confidence := ConfidenceObserved,
                      hr_until := None, hr_stage := 1, hr_rampStarted := Some now, hr_blocked := [], hr_entered := now,
                      hr_transition := now, hr_policy := po_version (sv_policy sv), hr_updated := now \<rparr>)
                   [] actor [EventManualOverride, EventRampStarted] now w
             in (case res of Inl e \<Rightarrow> Inl e | Inr r \<Rightarrow> Inr (r, True), w)))"

definition account_checks :: "int \<Rightarrow> int \<Rightarrow> string \<Rightarrow> string option" where
  "account_checks tenant account actor =
     (if tenant \<le> 0 then Some ''tenant_id must be positive''
      else if account \<le> 0 then Some ''provider_account_id must be positive''
      else if actor = [] then Some ''actor_id is required''
      else None)"

definition clearRateLimitByProviderAccount ::
    "'p ch_service \<Rightarrow> string list \<Rightarrow> int \<Rightarrow> int \<Rightarrow> string \<Rightarrow> instant \<Rightarrow> 'p ch_world \<Rightarrow> (string + ch_record \<times> bool) \<times> 'p ch_world" where
  "clearRateLimitByProviderAccount sv ks tenant account actor now w =
     (let actor = trim_space actor
      in case account_checks tenant account actor of
           Some e \<Rightarrow> (Inl e, w)
         | None \<Rightarrow>
             (case clear_rate_limit sv ks tenant account actor now w of
                (Inl e, w') \<Rightarrow>
                  (Inl e, w'\<lparr> hw_records := hw_records w, hw_audits := hw_audits w, hw_alerts := hw_alerts w \<rparr>)
              | r \<Rightarrow> r))"

text \<open>No record means nothing to recover.\<close>

definition forceActiveByProviderAccount ::
    "'p ch_service \<Rightarrow> string list \<Rightarrow> int \<Rightarrow> int \<Rightarrow> string \<Rightarrow> string \<Rightarrow> instant \<Rightarrow> 'p ch_world \<Rightarrow>
     (string + (ch_record \<times> bool) option) \<times> 'p ch_world" where
  "forceActiveByProviderAccount sv ks tenant account actor reason now w =
     (let actor = trim_space actor
      in case account_checks tenant account actor of
           Some e \<Rightarrow> (Inl e, w)
         | None \<Rightarrow>
             (case latestByProviderAccount ks tenant account w of
                None \<Rightarrow> (Inr None, w)
              | Some r \<Rightarrow>
                  if hr_state r = StateActive then (Inr (Some (r, False)), w)
                  else (case forceActive sv (hr_key r) actor reason now w of
                          (Inl e, w) \<Rightarrow> (Inl e, w)
                        | (Inr r, w) \<Rightarrow> (Inr (Some (r, True)), w))))"

section \<open>The service as a component\<close>

datatype health_event =
  HealthSignal ch_signal instant
| HealthStartRamp ch_key instant
| HealthAdvance ch_key instant
| HealthPause ch_key string string instant
| HealthResume ch_key string string instant
| HealthActivate ch_key string string instant
| HealthCooldown ch_key instant string instant
| HealthClearRateLimit "string list" int int string instant

definition returned :: "(string + 'a) \<times> 'p ch_world \<Rightarrow> string option \<times> 'p ch_world" where
  "returned x = (case x of (Inl e, w) \<Rightarrow> (Some e, w) | (Inr r, w) \<Rightarrow> (None, w))"

fun health_call :: "'p ch_service \<Rightarrow> 'p ch_world \<Rightarrow> health_event \<Rightarrow> string option \<times> 'p ch_world" where
  "health_call sv w (HealthSignal sig now) = returned (applySignal sv sig now w)"
| "health_call sv w (HealthStartRamp k now) = returned (maybeStartRamp sv k now w)"
| "health_call sv w (HealthAdvance k now) = returned (advanceRamp sv k now w)"
| "health_call sv w (HealthPause k actor reason now) = returned (manualPause sv k actor reason now w)"
| "health_call sv w (HealthResume k actor reason now) = returned (manualResume sv k actor reason now w)"
| "health_call sv w (HealthActivate k actor reason now) = returned (forceActive sv k actor reason now w)"
| "health_call sv w (HealthCooldown k until reason now) = returned (forceCooldown sv k until reason now w)"
| "health_call sv w (HealthClearRateLimit ks tenant account actor now) =
     returned (clearRateLimitByProviderAccount sv ks tenant account actor now w)"

definition health_step :: "'p ch_service \<Rightarrow> 'p ch_world \<Rightarrow> health_event \<Rightarrow> 'p ch_world" where
  "health_step sv w e = snd (health_call sv w e)"

definition record_ok :: "ch_record \<Rightarrow> bool" where
  "record_ok r \<longleftrightarrow>
     (hr_state r = StateCoolingDown \<longrightarrow> hr_until r \<noteq> None) \<and>
     (if hr_state r = StateRamping then hr_stage r \<in> {1, 10, 50, 100} \<and> hr_rampStarted r \<noteq> None
      else hr_stage r = 0 \<and> hr_rampStarted r = None)"

definition records_ok :: "(string \<rightharpoonup> ch_record) \<Rightarrow> bool" where
  "records_ok m \<longleftrightarrow> (\<forall>k r. m k = Some r \<longrightarrow> record_ok r \<and> mapKey (hr_key r) = k)"

lemma records_ok_upd: "records_ok m \<Longrightarrow> record_ok r \<Longrightarrow> mapKey (hr_key r) = k \<Longrightarrow> records_ok (m(k \<mapsto> r))"
  by (simp add: records_ok_def)

lemma records_okD: "records_ok m \<Longrightarrow> m k = Some r \<Longrightarrow> record_ok r \<and> mapKey (hr_key r) = k"
  by (simp add: records_ok_def)

lemma mapKey_channel [simp]: "mapKey (k\<lparr> ck_channel := c \<rparr>) = mapKey k" "mapKey (with_channel k) = mapKey k"
  by (simp_all add: mapKey_def with_channel_def)

lemma record_ok_key [simp]: "record_ok (r\<lparr> hr_key := k \<rparr>) = record_ok r"
  by (simp add: record_ok_def)

lemma upsert_simps:
  "hw_records (snd (upsertRecord r w)) = (hw_records w)(mapKey (hr_key r) \<mapsto> fst (upsertRecord r w))"
  "hw_audits (snd (upsertRecord r w)) = hw_audits w"
  "hr_state (fst (upsertRecord r w)) = hr_state r" "hr_key (fst (upsertRecord r w)) = with_channel (hr_key r)"
  "record_ok (fst (upsertRecord r w)) = record_ok r"
  by (simp_all add: upsertRecord_def Let_def)

lemma newRecord_ok [simp]: "record_ok (newRecord k p now)" "mapKey (hr_key (newRecord k p now)) = mapKey k"
  "hr_state (newRecord k p now) = StateActive"
  by (simp_all add: newRecord_def record_ok_def)

lemma append_audits_simps:
  "hw_records (snd (append_audits evs w)) = hw_records w"
  "fst (append_audits evs w) = None \<Longrightarrow> hw_audits (snd (append_audits evs w)) = hw_audits w @ evs"
  by (induction evs arbitrary: w) (auto simp: appendAudit_def)

lemma emitAlert_simps [simp]:
  "hw_records (emitAlert r ty sev now w) = hw_records w" "hw_audits (emitAlert r ty sev now w) = hw_audits w"
  by (simp_all add: emitAlert_def appendAlert_def)

lemma lane_simps [simp]:
  "hw_records (lane_clear sv a reason now w) = hw_records w" "hw_audits (lane_clear sv a reason now w) = hw_audits w"
  "hw_records (lane_suspend sv sig now w) = hw_records w" "hw_audits (lane_suspend sv sig now w) = hw_audits w"
  "hw_alerts (lane_suspend sv sig now w) = hw_alerts w"
  by (simp_all add: lane_clear_def lane_suspend_def split: option.split)

section \<open>Every operation keeps the records consistent and audits its transitions\<close>

text \<open>
  What a call that succeeds does: the records stay consistent, and a record whose state changed has
  an audit event with both states among those the call appended.
\<close>

definition well_changed :: "'p ch_world \<Rightarrow> 'p ch_world \<Rightarrow> bool" where
  "well_changed w w' \<longleftrightarrow>
     records_ok (hw_records w') \<and>
     (\<exists>evs. hw_audits w' = hw_audits w @ evs \<and>
       (\<forall>k r r'. hw_records w k = Some r \<longrightarrow> hw_records w' k = Some r' \<longrightarrow> hr_state r \<noteq> hr_state r' \<longrightarrow>
          (\<exists>ev \<in> set evs. au_prev ev = hr_state r \<and> au_new ev = hr_state r' \<and> mapKey (au_key ev) = k)))"

lemma well_changed_same:
  "records_ok (hw_records w) \<Longrightarrow> hw_records w' = hw_records w \<Longrightarrow> hw_audits w' = hw_audits w \<Longrightarrow> well_changed w w'"
  by (auto simp: well_changed_def)

lemma well_changed_upd:
  assumes "records_ok (hw_records w)" "hw_records w' = (hw_records w)(mapKey (hr_key r') \<mapsto> r')" "record_ok r'"
    "hw_audits w' = hw_audits w @ evs"
    "\<And>r. hw_records w (mapKey (hr_key r')) = Some r \<Longrightarrow> hr_state r \<noteq> hr_state r' \<Longrightarrow>
       \<exists>ev \<in> set evs. au_prev ev = hr_state r \<and> au_new ev = hr_state r' \<and> mapKey (au_key ev) = mapKey (hr_key r')"
  shows "well_changed w w'"
  unfolding well_changed_def using assms
  by (intro conjI exI [of _ evs]) (auto intro: records_ok_upd)

lemma ensure_cases:
  assumes "ensureDefaultActive sv k now w = (Inr r, w1)" "records_ok (hw_records w)"
  shows "record_ok r" "mapKey (hr_key r) = mapKey k" "hw_audits w1 = hw_audits w"
    "hw_records w1 = (hw_records w)(mapKey k \<mapsto> r)" "\<And>r0. hw_records w (mapKey k) = Some r0 \<Longrightarrow> r0 = r"
  using assms records_okD [OF assms(2)]
  by (auto simp: ensureDefaultActive_def store_get_def upsertRecord_def Let_def fun_upd_idem
      split: option.splits)

lemmas recordForMutation_cases = ensure_cases [where k = "with_channel k" for k, folded recordForMutation_def, simplified]

lemma defaultEvents_change: "prev \<noteq> st \<Longrightarrow> defaultEvents prev st \<noteq> []"
  by (cases st) (auto simp: defaultEvents_def)

lemma commit_cases:
  assumes "commit prev r request actor evs now w = (Inr r2, w2)"
  shows "hw_records w2 = (hw_records w)(mapKey (hr_key r) \<mapsto> r2)" "hr_state r2 = hr_state r"
    "record_ok r2 = record_ok r" "mapKey (hr_key r2) = mapKey (hr_key r)"
    "hw_audits w2 = hw_audits w @ map (audit_for prev r2 request actor now)
       (if evs = [] then defaultEvents prev (hr_state r2) else evs)"
proof -
  obtain r1 w1 where u: "upsertRecord r w = (r1, w1)" by fastforce
  note us = upsert_simps [of r w, unfolded u, simplified]
  obtain w3 where "emitTransitionEvents prev r1 request actor evs now w1 = (None, w3)" "r2 = r1" "w2 = w3"
    using assms u by (auto simp: commit_def split: prod.splits option.splits)
  then have "hw_records w2 = hw_records w1"
    "hw_audits w2 = hw_audits w1 @ map (audit_for prev r1 request actor now)
       (if evs = [] then defaultEvents prev (hr_state r1) else evs)"
    using append_audits_simps [of "map (audit_for prev r1 request actor now)
       (if evs = [] then defaultEvents prev (hr_state r1) else evs)" w1]
    by (auto simp: emitTransitionEvents_def)
  with us \<open>r2 = r1\<close> show "hw_records w2 = (hw_records w)(mapKey (hr_key r) \<mapsto> r2)" "hr_state r2 = hr_state r"
    "record_ok r2 = record_ok r" "mapKey (hr_key r2) = mapKey (hr_key r)"
    "hw_audits w2 = hw_audits w @ map (audit_for prev r2 request actor now)
       (if evs = [] then defaultEvents prev (hr_state r2) else evs)"
    by simp_all
qed

lemma audit_for_simps [simp]:
  "au_prev (audit_for prev r request actor now ty) = prev" "au_new (audit_for prev r request actor now ty) = hr_state r"
  "au_key (audit_for prev r request actor now ty) = hr_key r"
  by (simp_all add: audit_for_def)

text \<open>A call that gets its record, replaces it and commits.\<close>

lemma commit_well_changed:
  assumes "records_ok (hw_records w)" "hw_audits w1 = hw_audits w"
    "hw_records w1 = (hw_records w)(mapKey (hr_key r) \<mapsto> r)"
    "\<And>r0. hw_records w (mapKey (hr_key r)) = Some r0 \<Longrightarrow> r0 = r"
    "commit (hr_state r) r' request actor evs now w1 = (Inr r2, w2)" "record_ok r'" "hr_key r' = hr_key r"
  shows "well_changed w w2"
proof -
  note c = commit_cases [OF assms(5)]
  let ?evs = "if evs = [] then defaultEvents (hr_state r) (hr_state r2) else evs"
  have ne: "?evs \<noteq> []" if "hr_state r \<noteq> hr_state r2" using that defaultEvents_change by auto
  show ?thesis
  proof (rule well_changed_upd [where r' = r2 and evs = "map (audit_for (hr_state r) r2 request actor now) ?evs"])
    show "records_ok (hw_records w)" by (rule assms(1))
    show "hw_records w2 = (hw_records w)(mapKey (hr_key r2) \<mapsto> r2)" using c assms(3,7) by simp
    show "record_ok r2" using c(3) assms(6) by simp
    show "hw_audits w2 = hw_audits w @ map (audit_for (hr_state r) r2 request actor now) ?evs"
      using c(5) assms(2) by simp
    fix r0 assume "hw_records w (mapKey (hr_key r2)) = Some r0" "hr_state r0 \<noteq> hr_state r2"
    then have "r0 = r" "hr_state r \<noteq> hr_state r2" using c(4) assms(4,7) by auto
    with ne show "\<exists>ev \<in> set (map (audit_for (hr_state r) r2 request actor now) ?evs).
        au_prev ev = hr_state r0 \<and> au_new ev = hr_state r2 \<and> mapKey (au_key ev) = mapKey (hr_key r2)"
      by (intro bexI [of _ "audit_for (hr_state r) r2 request actor now (hd ?evs)"]) auto
  qed
qed

lemma decision_states:
  "ds_state (evaluate sv r sig now) \<in> {None, Some StateCoolingDown, Some StateDegraded, Some StateDisabled}"
  by (simp add: evaluate_def banDecision_def observed_def rampDecision_def creditsExhaustedDecision_def
      rateLimitDecision_def upstream5xxDecision_def latencyDecision_def errorRateDecision_def no_decision_def Let_def)

lemma applyDecision_ok:
  "record_ok r \<Longrightarrow> st \<noteq> StateRamping \<Longrightarrow> record_ok (applyDecision r st d now p)"
  by (auto simp: record_ok_def applyDecision_def Let_def split: option.split)

lemma applyDecision_key [simp]: "hr_key (applyDecision r st d now p) = hr_key r"
  "hr_state (applyDecision r st d now p) = st"
  by (simp_all add: applyDecision_def Let_def)

lemma rollbackRamp_ok [simp]: "record_ok (rollbackRamp p r now reason)" "hr_key (rollbackRamp p r now reason) = hr_key r"
  "hr_state (rollbackRamp p r now reason) = StateCoolingDown"
  by (simp_all add: record_ok_def rollbackRamp_def Let_def)

lemma with_sample_simps [simp]:
  "record_ok (with_sample p r sig now) = record_ok r" "hr_key (with_sample p r sig now) = hr_key r"
  "hr_state (with_sample p r sig now) = hr_state r" "hr_reason (with_sample p r sig now) = hr_reason r"
  by (simp_all add: with_sample_def record_ok_def)

lemma decide_ok:
  assumes "decide p r d now = (r', al, sev)" "record_ok r" "ds_state d \<noteq> Some StateRamping"
  shows "record_ok r'" "hr_key r' = hr_key r"
  using assms by (auto simp: decide_def Let_def applyDecision_ok split: option.splits if_splits)

lemma recordForMutation_key:
  assumes "recordForMutation sv k now w = (Inr r, w1)" "records_ok (hw_records w)"
  shows "record_ok r" "hw_audits w1 = hw_audits w" "hw_records w1 = (hw_records w)(mapKey (hr_key r) \<mapsto> r)"
    "\<And>r0. hw_records w (mapKey (hr_key r)) = Some r0 \<Longrightarrow> r0 = r"
  using ensure_cases [OF assms(1) [unfolded recordForMutation_def] assms(2)] by simp_all

lemma unchanged_well_changed:
  assumes "recordForMutation sv k now w = (Inr r, w1)" "records_ok (hw_records w)"
  shows "well_changed w w1"
  by (rule well_changed_upd [where r' = r and evs = "[]"]) (use recordForMutation_key [OF assms] assms(2) in auto)

lemma save_signal_cases:
  assumes "save_signal prev r d al sev request now w = (Inr r3, w')"
  obtains audits where "hw_records w' = (hw_records w)(mapKey (hr_key r) \<mapsto> r3)" "hr_state r3 = hr_state r"
    "record_ok r3 = record_ok r" "mapKey (hr_key r3) = mapKey (hr_key r)" "hw_audits w' = hw_audits w @ audits"
    "prev \<noteq> hr_state r \<Longrightarrow> \<exists>ev \<in> set audits. au_prev ev = prev \<and> au_new ev = hr_state r3 \<and> au_key ev = hr_key r3"
proof -
  obtain q w2 where u: "upsertRecord r w = (q, w2)" by fastforce
  note us = upsert_simps [of r w, unfolded u, simplified]
  let ?evs = "if ds_events d = [] then defaultEvents prev (hr_state q) else ds_events d"
  define audits where "audits = (if prev \<noteq> hr_state q \<or> ds_auditEven d
     then map (audit_for prev q request [] now) ?evs else [])"
  obtain err w3 where em: "(if prev \<noteq> hr_state q \<or> ds_auditEven d
      then emitTransitionEvents prev q request [] (ds_events d) now w2 else (None, w2)) = (err, w3)" by fastforce
  from assms have r: "err = None" "r3 = q" "w' = (case al of None \<Rightarrow> w3 | Some ty \<Rightarrow> emitAlert q ty sev now w3)"
    unfolding save_signal_def Let_def u prod.case em by (auto split: option.splits)
  have w3: "hw_records w3 = hw_records w2" "hw_audits w3 = hw_audits w2 @ audits"
    using em r(1) append_audits_simps [of "map (audit_for prev q request [] now) ?evs" w2]
    by (auto simp: audits_def emitTransitionEvents_def split: if_splits)
  have "hw_records w' = hw_records w3" "hw_audits w' = hw_audits w3" by (simp_all add: r split: option.split)
  with w3 us r(2) show thesis
  proof (intro that [of audits])
    assume "prev \<noteq> hr_state r"
    with us r(2) defaultEvents_change [of prev "hr_state q"]
    show "\<exists>ev \<in> set audits. au_prev ev = prev \<and> au_new ev = hr_state r3 \<and> au_key ev = hr_key r3"
      by (intro bexI [of _ "audit_for prev q request [] now (hd ?evs)"]) (auto simp: audits_def)
  qed simp_all
qed

lemma judge_signal_well_changed:
  assumes "judge_signal sv sig now r w1 = (Inr r3, w')" "records_ok (hw_records w)" "record_ok r"
    "hw_audits w1 = hw_audits w" "hw_records w1 = (hw_records w)(mapKey (hr_key r) \<mapsto> r)"
    "\<And>r0. hw_records w (mapKey (hr_key r)) = Some r0 \<Longrightarrow> r0 = r"
  shows "well_changed w w'"
proof -
  define r1 where "r1 = with_sample (sv_policy sv) r sig now"
  define d where "d = evaluate sv r1 sig now"
  obtain r2 al sev where dc: "decide (sv_policy sv) r1 d now = (r2, al, sev)" by (metis prod_cases3)
  have "save_signal (hr_state r) r2 d al sev (sg_request sig) now w1 = (Inr r3, w')"
    using assms(1) dc by (simp add: judge_signal_def r1_def d_def)
  then obtain audits where a: "hw_records w' = (hw_records w1)(mapKey (hr_key r2) \<mapsto> r3)" "hr_state r3 = hr_state r2"
    "record_ok r3 = record_ok r2" "mapKey (hr_key r3) = mapKey (hr_key r2)" "hw_audits w' = hw_audits w1 @ audits"
    "hr_state r \<noteq> hr_state r2 \<Longrightarrow>
       \<exists>ev \<in> set audits. au_prev ev = hr_state r \<and> au_new ev = hr_state r3 \<and> au_key ev = hr_key r3"
    by (rule save_signal_cases) blast
  have ok: "record_ok r2" "hr_key r2 = hr_key r"
    using decide_ok [OF dc] assms(3) decision_states [of sv r1 sig now] by (auto simp: r1_def d_def)
  show ?thesis
    by (rule well_changed_upd [where r' = r3 and evs = audits]) (use a ok assms(2-6) in auto)
qed

lemma apply_signal_well_changed:
  assumes "apply_signal sv sig now w = (Inr r, w')" "records_ok (hw_records w)"
  shows "well_changed w w'"
proof -
  define sg where "sg = normal_signal sig now"
  define w0 where "w0 = (if sg_class sg = SignalSuccess
     then lane_clear sv (ck_account (sg_key sg)) ''request_success'' now w else w)"
  have w0: "hw_records w0 = hw_records w" "hw_audits w0 = hw_audits w" by (simp_all add: w0_def)
  obtain r0 w1 where e: "ensureDefaultActive sv (sg_key sg) now w0 = (Inr r0, w1)"
    and j: "judge_signal sv sg now r0 w1 = (Inr r, w')"
    using assms(1)
    by (auto simp: apply_signal_def Let_def sg_def [symmetric] w0_def [symmetric] split: option.splits prod.splits sum.splits)
  note en = ensure_cases [OF e, unfolded w0, OF assms(2)]
  show ?thesis by (rule judge_signal_well_changed [OF j assms(2) en(1)]) (use en in auto)
qed

lemma maybe_start_ramp_well_changed:
  assumes "maybe_start_ramp sv k now w = (Inr r, w')" "records_ok (hw_records w)"
  shows "well_changed w w'"
proof -
  obtain r0 w1 where e: "recordForMutation sv k now w = (Inr r0, w1)"
    using assms(1) by (auto simp: maybe_start_ramp_def split: prod.splits sum.splits)
  note k = recordForMutation_key [OF e assms(2)]
  show ?thesis
    using assms(1) e unchanged_well_changed [OF e assms(2)]
    by (auto simp: maybe_start_ramp_def record_ok_def split: if_splits option.splits
        intro!: commit_well_changed [OF assms(2) k(2-4)])
qed

lemma next_stage_ok:
  "record_ok r \<Longrightarrow> hr_state r = StateRamping \<Longrightarrow> record_ok (next_stage p now r)" "hr_key (next_stage p now r) = hr_key r"
  by (auto simp: next_stage_def record_ok_def Let_def)

lemma well_changed_frame:
  "well_changed w w1 \<Longrightarrow> hw_records w' = hw_records w1 \<Longrightarrow> hw_audits w' = hw_audits w1 \<Longrightarrow> well_changed w w'"
  by (simp add: well_changed_def)

lemma advance_ramp_well_changed:
  assumes "advance_ramp sv k now w = (Inr r, w')" "records_ok (hw_records w)"
  shows "well_changed w w'"
proof -
  obtain r0 w1 where e: "recordForMutation sv k now w = (Inr r0, w1)"
    using assms(1) by (auto simp: advance_ramp_def split: prod.splits sum.splits)
  note k = recordForMutation_key [OF e assms(2)]
  note same = unchanged_well_changed [OF e assms(2)]
  note step = commit_well_changed [OF assms(2) k(2-4)]
  show ?thesis
  proof (cases "hr_state r0 = StateRamping \<and>
      stage_ready (sv_policy sv) r0 (windowFor (hr_window r0) (po_minObservation (sv_policy sv)) now) now")
    case False
    with assms(1) e have "w' = w1" by (cases "hr_state r0 = StateRamping") (simp_all add: advance_ramp_def)
    with same show ?thesis by simp
  next
    case ready: True
    define bad where "bad = (po_rampPct (sv_policy sv) < rampFailureRate
        (windowFor (hr_window r0) (po_minObservation (sv_policy sv)) now) \<or>
      0 < ws_ban (windowFor (hr_window r0) (po_minObservation (sv_policy sv)) now))"
    show ?thesis
    proof (cases bad)
      case True
      with assms(1) e ready obtain r2 w2 where
        c: "commit (hr_state r0) (rollbackRamp (sv_policy sv) r0 now (signal_text SignalChannelError)) [] []
              [EventRampRolledBack, EventDisabled] now w1 = (Inr r2, w2)"
        and w': "hw_records w' = hw_records w2" "hw_audits w' = hw_audits w2"
        by (auto simp: advance_ramp_def Let_def bad_def split: prod.splits sum.splits if_splits)
      show ?thesis by (rule well_changed_frame [OF step [OF _ c] w']) simp_all
    next
      case False
      with assms(1) e ready obtain evs where
        "commit (hr_state r0) (next_stage (sv_policy sv) now r0) [] [] evs now w1 = (Inr r, w')"
        by (auto simp: advance_ramp_def Let_def bad_def)
      from step [OF _ this] next_stage_ok k(1) ready show ?thesis by simp
    qed
  qed
qed

lemma emit_cases:
  assumes "emitTransitionEvents prev r request actor evs now w = (None, w')"
  shows "hw_records w' = hw_records w"
    "hw_audits w' = hw_audits w @ map (audit_for prev r request actor now)
       (if evs = [] then defaultEvents prev (hr_state r) else evs)"
  using assms append_audits_simps [of "map (audit_for prev r request actor now)
       (if evs = [] then defaultEvents prev (hr_state r) else evs)" w]
  by (simp_all add: emitTransitionEvents_def)

lemma manual_transition_well_changed:
  assumes "manual_transition sv k actor reason st pct evs severity now w = (Inr r, w')" "records_ok (hw_records w)"
    "evs \<noteq> []" "if st = StateRamping then pct = 1 else st \<noteq> StateCoolingDown \<and> pct = 0"
  shows "well_changed w w'"
proof -
  obtain r0 w1 where e: "recordForMutation sv k now w = (Inr r0, w1)"
    using assms(1) by (auto simp: manual_transition_def Let_def split: prod.splits sum.splits if_splits)
  define r1 where "r1 = r0\<lparr> hr_state := st, hr_reason := signal_text SignalManualOverride,
      hr_confidence := ConfidenceOperatorOverride, hr_actor := actor, hr_overrideReason := trim_space reason,
      hr_pauseReason := (if st = StateManualPaused then trim_space reason else []), hr_until := None,
      hr_stage := pct, hr_rampStarted := (if st = StateRamping then Some now else None),
      hr_entered := now, hr_transition := now, hr_policy := po_version (sv_policy sv), hr_updated := now \<rparr>"
  note unf = manual_transition_def [of sv k actor reason st pct evs severity now w, unfolded Let_def e sum.case prod.case,
      folded r1_def]
  obtain r2 w2 where u: "upsertRecord r1 w1 = (r2, w2)" by fastforce
  note us = upsert_simps [of r1 w1, unfolded u, simplified]
  define w3 where "w3 = (if st = StateActive \<or> st = StateRamping
      then lane_clear sv (ck_account k) ''operator_resume'' now w2 else w2)"
  have w3: "hw_records w3 = hw_records w2" "hw_audits w3 = hw_audits w2" by (simp_all add: w3_def)
  obtain err w4 where em: "emitTransitionEvents (hr_state r0) r2 [] actor evs now w3 = (err, w4)" by fastforce
  have r: "err = None" "r = r2" "hw_records w' = hw_records w4" "hw_audits w' = hw_audits w4"
    using assms(1) unfolding unf u prod.case w3_def [symmetric] em by (auto split: if_splits option.splits)
  note em' = emit_cases [OF em [unfolded r(1)]]
  note k = recordForMutation_key [OF e assms(2)]
  have st: "hr_state r1 = st" "hr_key r1 = hr_key r0" "record_ok r1"
    using assms(4) by (auto simp: r1_def record_ok_def split: if_splits)
  show ?thesis
  proof (rule well_changed_upd [where r' = r2 and evs = "map (audit_for (hr_state r0) r2 [] actor now) evs"])
    show "hw_records w' = (hw_records w)(mapKey (hr_key r2) \<mapsto> r2)" using r em' w3 us k(3) st by simp
    show "hw_audits w' = hw_audits w @ map (audit_for (hr_state r0) r2 [] actor now) evs"
      using r em' w3 us k(2) assms(3) by simp
    fix q assume q: "hw_records w (mapKey (hr_key r2)) = Some q" "hr_state q \<noteq> hr_state r2"
    then have "q = r0" using k(4) us st by simp
    with assms(3) show "\<exists>ev \<in> set (map (audit_for (hr_state r0) r2 [] actor now) evs).
        au_prev ev = hr_state q \<and> au_new ev = hr_state r2 \<and> mapKey (au_key ev) = mapKey (hr_key r2)"
      by (intro bexI [of _ "audit_for (hr_state r0) r2 [] actor now (hd evs)"]) auto
  qed (use assms(2) us st in simp_all)
qed

lemma force_cooldown_well_changed:
  assumes "force_cooldown sv k until reason now w = (Inr r, w')" "records_ok (hw_records w)"
  shows "well_changed w w'"
proof -
  obtain r0 w1 where e: "recordForMutation sv k now w = (Inr r0, w1)"
    using assms(1) by (auto simp: force_cooldown_def Let_def split: prod.splits sum.splits if_splits)
  note k = recordForMutation_key [OF e assms(2)]
  note step = commit_well_changed [OF assms(2) k(2-4)]
  define later where "later = (case hr_until r0 of None \<Rightarrow> True | Some t \<Rightarrow> t < until)"
  define r1 where "r1 = (if later then r0\<lparr> hr_until := Some until \<rparr> else r0)"
  define cls where "cls = (if trim_space reason = [] then signal_text SignalRateLimit else trim_space reason)"
  define r2 where "r2 = r1\<lparr> hr_state := StateCoolingDown, hr_reason := cls, hr_confidence := ConfidenceObserved,
      hr_stage := 0, hr_rampStarted := None, hr_blocked := [], hr_entered := now,
      hr_transition := now, hr_policy := po_version (sv_policy sv), hr_updated := now \<rparr>"
  note unf = force_cooldown_def [of sv k until reason now w, unfolded Let_def e sum.case prod.case,
      folded later_def cls_def, folded r1_def, folded r2_def]
  have r2: "record_ok r2" "hr_key r2 = hr_key r0"
    by (auto simp: r2_def r1_def later_def record_ok_def split: option.splits)
  from assms(1) have "w' = w1 \<or> commit (hr_state r0) r2 [] [] [EventDisabled] now w1 = (Inr r, w')"
    unfolding unf by (simp split: if_splits)
  then show ?thesis
    using unchanged_well_changed [OF e assms(2)] step [OF _ _ r2] by blast
qed

lemma pick_latest_cases: "pick_latest tenant account m best k \<in> {best, m k}"
  by (auto simp: pick_latest_def split: option.split)

lemma latest_mem:
  assumes "latestByProviderAccount ks tenant account w = Some r"
  shows "\<exists>k. hw_records w k = Some r"
proof -
  have "foldl (pick_latest tenant account m) b ks = Some r \<Longrightarrow> b = Some r \<or> (\<exists>k. m k = Some r)" for b m
  proof (induction ks arbitrary: b)
    case (Cons k ks)
    then show ?case using pick_latest_cases [of tenant account m b k] by fastforce
  qed simp
  with assms show ?thesis by (fastforce simp: latestByProviderAccount_def)
qed

lemma clear_rate_limit_well_changed:
  assumes "clear_rate_limit sv ks tenant account actor now w = (Inr x, w')" "records_ok (hw_records w)"
  shows "well_changed w w'"
proof -
  obtain r0 where l: "latestByProviderAccount ks tenant account w = Some r0"
    using assms(1) by (auto simp: clear_rate_limit_def split: option.splits)
  obtain k where m: "hw_records w k = Some r0" using latest_mem [OF l] by blast
  then have k: "mapKey (hr_key r0) = k" using records_okD [OF assms(2)] by blast
  consider "w' = w"
    | r1 r2 evs where "commit (hr_state r0) r1 [] actor evs now w = (Inr r2, w')" "record_ok r1" "hr_key r1 = hr_key r0"
    using assms(1) l
    by (fastforce simp: clear_rate_limit_def Let_def record_ok_def split: if_splits prod.splits sum.splits)
  then show ?thesis
  proof cases
    case 1
    with assms(2) show ?thesis by (simp add: well_changed_same)
  next
    case 2
    show ?thesis
      by (rule commit_well_changed [OF assms(2) refl _ _ 2]) (use m k in \<open>auto simp: fun_upd_idem\<close>)
  qed
qed

lemma withTx_well_changed:
  assumes "\<And>r w'. f w = (Inr r, w') \<Longrightarrow> well_changed w w'" "records_ok (hw_records w)"
  shows "well_changed w (snd (withTx f w))"
proof (cases "f w")
  case (Pair res w')
  with assms show ?thesis by (cases res) (auto simp: withTx_def intro: well_changed_same)
qed

lemma snd_returned [simp]: "snd (returned x) = snd x" "fst (returned x) = None \<longleftrightarrow> (\<exists>r. fst x = Inr r)"
  by (auto simp: returned_def split: prod.split sum.split)

lemma health_step_well_changed:
  assumes "records_ok (hw_records w)"
  shows "well_changed w (health_step sv w e)"
proof (cases e)
  case (HealthSignal sig now)
  have "well_changed w (snd (withTx (apply_signal sv sig now) w))"
    by (rule withTx_well_changed [OF _ assms]) (rule apply_signal_well_changed [OF _ assms])
  then have "well_changed w (snd (applySignal sv sig now w))"
    using assms by (auto simp: applySignal_def well_changed_same split: prod.split sum.split)
  then show ?thesis by (simp add: HealthSignal health_step_def)
next
  case (HealthStartRamp k now)
  then show ?thesis
    using withTx_well_changed [OF maybe_start_ramp_well_changed [OF _ assms] assms]
    by (simp add: health_step_def maybeStartRamp_def)
next
  case (HealthAdvance k now)
  then show ?thesis
    using withTx_well_changed [OF advance_ramp_well_changed [OF _ assms] assms]
    by (simp add: health_step_def advanceRamp_def)
next
  case (HealthPause k actor reason now)
  then show ?thesis
    using withTx_well_changed [OF manual_transition_well_changed [OF _ assms] assms]
    by (simp add: health_step_def manualPause_def)
next
  case (HealthResume k actor reason now)
  then show ?thesis
    using withTx_well_changed [OF manual_transition_well_changed [OF _ assms] assms]
    by (simp add: health_step_def manualResume_def)
next
  case (HealthActivate k actor reason now)
  then show ?thesis
    using withTx_well_changed [OF manual_transition_well_changed [OF _ assms] assms]
    by (simp add: health_step_def forceActive_def)
next
  case (HealthCooldown k until reason now)
  then show ?thesis
    using withTx_well_changed [OF force_cooldown_well_changed [OF _ assms] assms]
    by (simp add: health_step_def forceCooldown_def)
next
  case (HealthClearRateLimit ks tenant account actor now)
  have "well_changed w (snd (clearRateLimitByProviderAccount sv ks tenant account actor now w))"
    using clear_rate_limit_well_changed [OF _ assms] assms
    by (auto simp: clearRateLimitByProviderAccount_def Let_def well_changed_same split: option.split prod.split sum.split)
  then show ?thesis by (simp add: HealthClearRateLimit health_step_def)
qed

lemma health_call_error:
  assumes "fst (health_call sv w e) = Some err"
  shows "hw_records (snd (health_call sv w e)) = hw_records w" "hw_audits (snd (health_call sv w e)) = hw_audits w"
    "hw_alerts (snd (health_call sv w e)) = hw_alerts w"
  using assms
  by (cases e; auto simp: returned_def applySignal_def maybeStartRamp_def advanceRamp_def manualPause_def manualResume_def
      forceActive_def forceCooldown_def clearRateLimitByProviderAccount_def withTx_def Let_def
      split: prod.splits sum.splits option.splits if_splits)+

interpretation health: invariant_component "health_step sv" "\<lambda>w. records_ok (hw_records w)" for sv
  by unfold_locales (use health_step_well_changed in \<open>auto simp: well_changed_def\<close>)

section \<open>An idle channel ramps back\<close>

text \<open>The idle channel: its record is ramping, its window is empty, and audits can be written.\<close>

definition idle_ramp :: "ch_key \<Rightarrow> int \<Rightarrow> instant \<Rightarrow> 'p ch_world \<Rightarrow> bool" where
  "idle_ramp k stage t w \<longleftrightarrow>
     (\<exists>r. hw_records w (mapKey k) = Some r \<and> mapKey (hr_key r) = mapKey k \<and> hr_state r = StateRamping \<and>
        hr_stage r = stage \<and> hr_rampStarted r = Some t \<and> ws_samples (hr_window r) = []) \<and> \<not> hw_failAudit w"

lemma normalized_ramp:
  "0 < po_rampPct (policy_normalized p)" "0 < po_rampMin (policy_normalized p) \<or> po_rampMin p \<le> 0"
  by (simp_all add: policy_normalized_def or_default_def defaultPolicy_def Let_def duration_defs)

lemma empty_windowFor: "ws_samples w = [] \<Longrightarrow> ws_total (windowFor w d now) = 0 \<and> ws_failed (windowFor w d now) = 0 \<and>
    ws_ban (windowFor w d now) = 0"
  by (simp add: windowFor_def summarize_counts since_def)

lemma append_audits_ok: "\<not> hw_failAudit w \<Longrightarrow> append_audits evs w = (None, w\<lparr> hw_audits := hw_audits w @ evs \<rparr>)"
  by (induction evs arbitrary: w) (simp_all add: appendAudit_def)

lemma advance_idle:
  assumes "idle_ramp k stage t w" "key_validate (with_channel k) = None" "0 < po_rampPct (sv_policy sv)"
    "t + po_rampMin (sv_policy sv) \<le> now" "t + po_rampMax (sv_policy sv) \<le> now"
  obtains r where "hw_records w (mapKey k) = Some r"
    "hw_records (snd (advanceRamp sv k now w)) (mapKey k) = Some ((next_stage (sv_policy sv) now r)
       \<lparr> hr_key := with_channel (hr_key r) \<rparr>)" "hr_stage r = stage" "hr_state r = StateRamping"
    "ws_samples (hr_window r) = []" "mapKey (hr_key r) = mapKey k"
    "\<not> hw_failAudit (snd (advanceRamp sv k now w))"
proof -
  obtain r where r: "hw_records w (mapKey k) = Some r" "mapKey (hr_key r) = mapKey k" "hr_state r = StateRamping"
    "hr_stage r = stage" "hr_rampStarted r = Some t" "ws_samples (hr_window r) = []" and fa: "\<not> hw_failAudit w"
    using assms(1) by (auto simp: idle_ramp_def)
  have rec: "recordForMutation sv k now w = (Inr r, w)"
    using assms(2) r(1) by (simp add: recordForMutation_def ensureDefaultActive_def store_get_def)
  define p where "p = sv_policy sv"
  define recent where "recent = windowFor (hr_window r) (po_minObservation p) now"
  have ready: "stage_ready p r recent now"
    using r(5) assms(4,5) by (simp add: stage_ready_def p_def)
  have quiet: "\<not> (po_rampPct p < rampFailureRate recent \<or> 0 < ws_ban recent)"
    using empty_windowFor [OF r(6)] assms(3) by (simp add: rampFailureRate_def health_rate_def recent_def p_def)
  obtain evs where "advance_ramp sv k now w = commit (hr_state r) (next_stage p now r) [] [] evs now w"
    using rec r(3) ready quiet by (simp add: advance_ramp_def Let_def recent_def p_def)
  then have adv: "advanceRamp sv k now w = (Inr ((next_stage p now r)\<lparr> hr_key := with_channel (hr_key r) \<rparr>),
      w\<lparr> hw_records := (hw_records w)(mapKey k \<mapsto> (next_stage p now r)\<lparr> hr_key := with_channel (hr_key r) \<rparr>),
         hw_audits := hw_audits w @ map (audit_for (hr_state r)
           ((next_stage p now r)\<lparr> hr_key := with_channel (hr_key r) \<rparr>) [] [] now)
           (if evs = [] then defaultEvents (hr_state r) (hr_state (next_stage p now r)) else evs) \<rparr>)"
    using fa r(2)
    by (simp add: advanceRamp_def withTx_def commit_def emitTransitionEvents_def upsertRecord_def Let_def
        append_audits_ok next_stage_ok(2))
  show thesis by (rule that [of r]) (use r adv fa in \<open>simp_all add: p_def\<close>)
qed

lemma advance_idle_stage:
  assumes "idle_ramp k stage t w" "key_validate (with_channel k) = None" "0 < po_rampPct (sv_policy sv)"
    "t + po_rampMin (sv_policy sv) \<le> now" "t + po_rampMax (sv_policy sv) \<le> now" "(stage, stage') \<in> {(1, 10), (10, 50), (50, 100)}"
  shows "idle_ramp k stage' now (snd (advanceRamp sv k now w))"
proof -
  obtain r where "hw_records w (mapKey k) = Some r"
    "hw_records (snd (advanceRamp sv k now w)) (mapKey k) = Some ((next_stage (sv_policy sv) now r)
       \<lparr> hr_key := with_channel (hr_key r) \<rparr>)" "hr_stage r = stage" "hr_state r = StateRamping"
    "ws_samples (hr_window r) = []" "mapKey (hr_key r) = mapKey k" "\<not> hw_failAudit (snd (advanceRamp sv k now w))"
    by (rule advance_idle [OF assms(1-5)])
  with assms(6) show ?thesis by (auto simp: idle_ramp_def next_stage_def Let_def)
qed

lemma advance_idle_done:
  assumes "idle_ramp k 100 t w" "key_validate (with_channel k) = None" "0 < po_rampPct (sv_policy sv)"
    "t + po_rampMin (sv_policy sv) \<le> now" "t + po_rampMax (sv_policy sv) \<le> now"
  shows "map_option hr_state (hw_records (snd (advanceRamp sv k now w)) (mapKey k)) = Some StateActive"
proof -
  obtain r where "hw_records (snd (advanceRamp sv k now w)) (mapKey k) = Some ((next_stage (sv_policy sv) now r)
       \<lparr> hr_key := with_channel (hr_key r) \<rparr>)" "hr_stage r = 100"
    by (rule advance_idle [OF assms])
  then show ?thesis by (simp add: next_stage_def Let_def)
qed

section \<open>Examples\<close>

definition ex_key :: ch_key where
  "ex_key =
     \<lparr> ck_tenant = 1, ck_channel = [], ck_vendor = ''openai'', ck_account = 7, ck_credential = 3, ck_version = 1 \<rparr>"

definition ex_signal :: "signal_class \<Rightarrow> ch_signal" where
  "ex_signal c =
     \<lparr> sg_key = ex_key, sg_class = c, sg_status = 502, sg_latency = 0, sg_at = zero_time, sg_request = [],
       sg_resetAt = None, sg_auth = ClassAmbiguous \<rparr>"

definition ex_service :: "unit ch_service" where
  "ex_service = newHealthService defaultPolicy None None"

definition empty_world :: "unit ch_world" where
  "empty_world =
     \<lparr> hw_records = Map.empty, hw_audits = [], hw_alerts = [], hw_failAudit = False, hw_lane = (Map.empty, ()) \<rparr>"

definition stored_state :: "'p ch_world \<Rightarrow> ch_key \<Rightarrow> health_state option" where
  "stored_state w k = map_option hr_state (hw_records w (mapKey k))"

definition ramping_world :: "unit ch_world" where
  "ramping_world = health_step ex_service empty_world (HealthResume ex_key ''op'' ''ok'' 0)"

lemma ex_service_policy: "sv_policy ex_service = defaultPolicy" "sv_lane ex_service = None" "sv_cooldown ex_service = None"
  by (simp_all add: ex_service_def newHealthService_def policy_normalized_def or_default_def defaultPolicy_def Let_def duration_defs)

lemma ex_key_valid: "key_validate (with_channel ex_key) = None"
  by (simp add: key_validate_def with_channel_def ex_key_def)

lemma ramping_world_idle: "idle_ramp ex_key 1 0 ramping_world"
proof -
  have "trim_space ''ok'' = ''ok''" by (rule trim_word) (simp_all add: is_plain_def)
  then show ?thesis
    by (simp add: ramping_world_def health_step_def manualResume_def withTx_def manual_transition_def Let_def
        recordForMutation_def ensureDefaultActive_def ex_key_valid store_get_def empty_world_def upsertRecord_def
        lane_clear_def ex_service_policy emitTransitionEvents_def appendAudit_def idle_ramp_def newRecord_def
        empty_window_def returned_def)
qed


section \<open>Properties\<close>

text \<open>
  C30. Whatever signals, ramp ticks, operator actions and times the service sees, in any order and
  whether or not audits can be written, every stored record is consistent: a cooling channel has a
  deadline, a ramping one has a stage of 1, 10, 50 or 100 percent and a start, and no other has.
\<close>

theorem health_records_consistent:
  "records_ok (hw_records (foldl (health_step sv) (w\<lparr> hw_records := Map.empty \<rparr>) es))"
  by (rule health.run_inv) (simp add: records_ok_def)

text \<open>
  C31. No transition goes unaudited: after any history, when a call changes the state of a stored
  record, an audit event with the old state, the new state and the channel is among those the call
  appended, and no earlier audit is lost.
\<close>

theorem transitions_are_audited:
  fixes es sv and w :: "'p ch_world"
  defines "w0 \<equiv> foldl (health_step sv) (w\<lparr> hw_records := Map.empty \<rparr>) es"
  assumes "hw_records w0 k = Some r" and "hw_records (health_step sv w0 e) k = Some r'" and "hr_state r \<noteq> hr_state r'"
  shows "\<exists>evs. hw_audits (health_step sv w0 e) = hw_audits w0 @ evs \<and>
    (\<exists>ev \<in> set evs. au_prev ev = hr_state r \<and> au_new ev = hr_state r' \<and> mapKey (au_key ev) = k)"
proof -
  have "records_ok (hw_records w0)" unfolding w0_def by (rule health.run_inv) (simp add: records_ok_def)
  from health_step_well_changed [OF this, of sv e] assms(2-4) show ?thesis by (auto simp: well_changed_def)
qed

theorem transitions_are_audited_witness:
  "\<exists>evs. hw_audits (foldl (health_step ex_service) empty_world
       [HealthSignal (ex_signal SignalSuccess) 50, HealthSignal (ex_signal SignalTokenRevoked) 60]) = evs
     \<and> (\<exists>ev \<in> set evs. au_prev ev = StateActive \<and> au_new ev = StateDisabled)"
proof -
  let ?w = "foldl (health_step ex_service) (empty_world\<lparr> hw_records := Map.empty \<rparr>) [HealthSignal (ex_signal SignalSuccess) 50]"
  let ?e = "HealthSignal (ex_signal SignalTokenRevoked) 60"
  have "stored_state ?w ex_key = Some StateActive" by code_simp
  then obtain r where r: "hw_records ?w (mapKey ex_key) = Some r" "hr_state r = StateActive"
    by (auto simp: stored_state_def)
  have "stored_state (health_step ex_service ?w ?e) ex_key = Some StateDisabled" by code_simp
  then obtain r' where r': "hw_records (health_step ex_service ?w ?e) (mapKey ex_key) = Some r'" "hr_state r' = StateDisabled"
    by (auto simp: stored_state_def)
  have "empty_world\<lparr> hw_records := Map.empty \<rparr> = empty_world" by (simp add: empty_world_def)
  with transitions_are_audited [OF r(1) r'(1)] r(2) r'(2) show ?thesis by (fastforce simp: empty_world_def)
qed

text \<open>
  A call that fails changes nothing: records, audits and alerts are those from before the call,
  whichever step of the call failed.
\<close>

theorem failed_call_rolls_back:
  assumes "fst (health_call sv w e) = Some err"
  shows "hw_records (health_step sv w e) = hw_records w \<and> hw_audits (health_step sv w e) = hw_audits w
    \<and> hw_alerts (health_step sv w e) = hw_alerts w"
  using health_call_error [OF assms] by (simp add: health_step_def)

theorem failed_call_rolls_back_witness:
  "let w = empty_world\<lparr> hw_failAudit := True \<rparr>; e = HealthSignal (ex_signal SignalTokenRevoked) 60
   in fst (health_call ex_service w e) \<noteq> None \<and> hw_records (health_step ex_service w e) = Map.empty"
proof -
  let ?w = "empty_world\<lparr> hw_failAudit := True \<rparr>" and ?e = "HealthSignal (ex_signal SignalTokenRevoked) 60"
  have "fst (health_call ex_service ?w ?e) = Some ''injected audit failure''" by code_simp
  with failed_call_rolls_back [OF this] show ?thesis by (simp add: Let_def empty_world_def)
qed

text \<open>
  C32. A channel with no traffic at all comes back: from the one-percent stage, four ramp ticks each
  a full stage after the one before take it through 10, 50 and 100 percent to the active state.
\<close>

theorem idle_channel_recovers:
  assumes "idle_ramp k 1 t w" and "key_validate (with_channel k) = None" and "sv = newHealthService p cd lane"
    and "M = max (po_rampMin (sv_policy sv)) (po_rampMax (sv_policy sv))"
    and "t + M \<le> t1" "t1 + M \<le> t2" "t2 + M \<le> t3" "t3 + M \<le> t4"
  shows "idle_ramp k 100 t3 (foldl (health_step sv) w [HealthAdvance k t1, HealthAdvance k t2, HealthAdvance k t3])
    \<and> stored_state (foldl (health_step sv) w [HealthAdvance k t1, HealthAdvance k t2, HealthAdvance k t3,
        HealthAdvance k t4]) k = Some StateActive"
proof -
  have pos: "0 < po_rampPct (sv_policy sv)" using normalized_ramp(1) assms(3) by (simp add: newHealthService_def)
  have step: "health_step sv v (HealthAdvance k now) = snd (advanceRamp sv k now v)" for v now
    by (simp add: health_step_def)
  note adv = advance_idle_stage [OF _ assms(2) pos]
  have 1: "idle_ramp k 10 t1 (health_step sv w (HealthAdvance k t1))"
    unfolding step by (rule adv [OF assms(1)]) (use assms(4,5) in auto)
  have 2: "idle_ramp k 50 t2 (health_step sv (health_step sv w (HealthAdvance k t1)) (HealthAdvance k t2))"
    unfolding step [of _ t2] by (rule adv [OF 1]) (use assms(4,6) in auto)
  let ?w3 = "health_step sv (health_step sv (health_step sv w (HealthAdvance k t1)) (HealthAdvance k t2)) (HealthAdvance k t3)"
  have 3: "idle_ramp k 100 t3 ?w3"
    unfolding step [of _ t3] by (rule adv [OF 2]) (use assms(4,7) in auto)
  have "stored_state (health_step sv ?w3 (HealthAdvance k t4)) k = Some StateActive"
    unfolding step [of _ t4] stored_state_def by (rule advance_idle_done [OF 3 assms(2) pos]) (use assms(4,8) in auto)
  with 3 show ?thesis by simp
qed

theorem idle_channel_recovers_witness:
  "stored_state (foldl (health_step ex_service) ramping_world (map (\<lambda>i. HealthAdvance ex_key (i * 10 * minute)) [1, 2, 3, 4])) ex_key
     = Some StateActive"
  using idle_channel_recovers [OF ramping_world_idle ex_key_valid, of ex_service defaultPolicy None None
      "10 * minute" "10 * minute" "20 * minute" "30 * minute" "40 * minute"]
  by (simp add: ex_service_policy ex_service_def [symmetric]) (simp add: defaultPolicy_def duration_defs)

end
