(* ===== verification/Account_Limits.thy ===== *)
theory Account_Limits
  imports Prelude "HOL-Library.AList"
begin

text \<open>
  The three in-memory limiters the account gates read: the request and token windows
  (backend/internal/rate/precheck/counter.go), the active sessions of an account
  (backend/internal/sessioncap/registry.go) and the cached spend of its five-hour window
  (backend/internal/windowcost/cache.go). A Go map is an association list with distinct keys, so
  that its length is the number of its keys. The mutexes make every call atomic.
\<close>

section \<open>Request and token windows\<close>

record rate_limits =
  rl_rpm :: int
  rl_tpm :: int

definition rpmLimited :: "rate_limits \<Rightarrow> bool" where "rpmLimited l \<longleftrightarrow> 0 < rl_rpm l"
definition tpmLimited :: "rate_limits \<Rightarrow> bool" where "tpmLimited l \<longleftrightarrow> 0 < rl_tpm l"

datatype rate_dimension = DimensionNone | DimensionRPM | DimensionTPM

record rate_decision =
  rd_allowed :: bool
  rd_dimension :: rate_dimension

record window_count =
  wc_start :: instant
  wc_count :: int

type_synonym windows = "(int \<times> window_count) list"

record rate_counter =
  rc_window :: duration
  rc_maxKeys :: int
  rc_reqs :: windows
  rc_toks :: windows

definition newRateCounter :: "duration \<Rightarrow> rate_counter" where
  "newRateCounter w =
     \<lparr> rc_window = (if w \<le> 0 then minute else w), rc_maxKeys = 100000, rc_reqs = [], rc_toks = [] \<rparr>"

text \<open>\<open>Time.Truncate\<close>: down to a multiple of the duration since the zero time.\<close>

definition truncate_time :: "instant \<Rightarrow> duration \<Rightarrow> instant" where
  "truncate_time t d = (if d \<le> 0 then t else t - (t - zero_time) mod d)"

definition sweepStale :: "instant \<Rightarrow> windows \<Rightarrow> windows" where
  "sweepStale start m = filter (\<lambda>(k, wc). \<not> wc_start wc < start) m"

text \<open>\<open>live\<close> returns the window of an account, put into the map when it is missing or stale.\<close>

definition live_window :: "rate_counter \<Rightarrow> windows \<Rightarrow> int \<Rightarrow> instant \<Rightarrow> window_count \<times> windows" where
  "live_window c m a t =
     (let start = truncate_time t (rc_window c);
          fresh = \<lparr> wc_start = start, wc_count = 0 \<rparr>
      in case map_of m a of
           None \<Rightarrow>
             (let m = (if 0 < rc_maxKeys c \<and> rc_maxKeys c \<le> int (length m) then sweepStale start m else m)
              in (fresh, AList.update a fresh m))
         | Some wc \<Rightarrow> if wc_start wc < start then (fresh, AList.update a fresh m) else (wc, m))"

definition bump :: "int \<Rightarrow> int \<Rightarrow> window_count \<Rightarrow> windows \<Rightarrow> windows" where
  "bump a n wc m = AList.update a (wc\<lparr>wc_count := i64 (wc_count wc + n)\<rparr>) m"

definition rate_allowed :: rate_decision where
  "rate_allowed = \<lparr> rd_allowed = True, rd_dimension = DimensionNone \<rparr>"

definition rate_denied :: "rate_dimension \<Rightarrow> rate_decision" where
  "rate_denied d = \<lparr> rd_allowed = False, rd_dimension = d \<rparr>"

definition rate_exempt :: "int \<Rightarrow> rate_limits \<Rightarrow> bool" where
  "rate_exempt a lim \<longleftrightarrow> a \<le> 0 \<or> (\<not> rpmLimited lim \<and> \<not> tpmLimited lim)"

definition check_tokens :: "rate_counter \<Rightarrow> int \<Rightarrow> rate_limits \<Rightarrow> int \<Rightarrow> instant \<Rightarrow> rate_decision \<times> rate_counter" where
  "check_tokens c a lim est t =
     (if tpmLimited lim
      then (let (wc, toks) = live_window c (rc_toks c) a t;
                c = c\<lparr>rc_toks := toks\<rparr>
            in (if rl_tpm lim < i64 (wc_count wc + est) then rate_denied DimensionTPM else rate_allowed, c))
      else (rate_allowed, c))"

definition check_rate :: "int \<Rightarrow> rate_limits \<Rightarrow> int \<Rightarrow> instant \<Rightarrow> rate_counter \<Rightarrow> rate_decision \<times> rate_counter" where
  "check_rate a lim tokens t c =
     (if rate_exempt a lim then (rate_allowed, c)
      else (let est = (if tokens < 0 then 0 else tokens)
            in if rpmLimited lim
               then (let (wc, reqs) = live_window c (rc_reqs c) a t;
                         c = c\<lparr>rc_reqs := reqs\<rparr>
                     in if rl_rpm lim < i64 (wc_count wc + 1) then (rate_denied DimensionRPM, c)
                        else check_tokens c a lim est t)
               else check_tokens c a lim est t))"

definition record_rate :: "int \<Rightarrow> int \<Rightarrow> instant \<Rightarrow> rate_counter \<Rightarrow> rate_counter" where
  "record_rate a tokens t c =
     (if a \<le> 0 then c
      else (let n = (if tokens < 0 then 0 else tokens);
                (rq, reqs) = live_window c (rc_reqs c) a t;
                (tk, toks) = live_window c (rc_toks c) a t
            in c\<lparr>rc_reqs := bump a 1 rq reqs, rc_toks := bump a n tk toks\<rparr>))"

definition try_record :: "int \<Rightarrow> rate_limits \<Rightarrow> int \<Rightarrow> instant \<Rightarrow> rate_counter \<Rightarrow> rate_decision \<times> rate_counter" where
  "try_record a lim tokens t c =
     (if rate_exempt a lim then (rate_allowed, c)
      else (let n = (if tokens < 0 then 0 else tokens);
                (rq, reqs) = live_window c (rc_reqs c) a t;
                (tk, toks) = live_window c (rc_toks c) a t;
                c = c\<lparr>rc_reqs := reqs, rc_toks := toks\<rparr>
            in if rpmLimited lim \<and> rl_rpm lim < i64 (wc_count rq + 1) then (rate_denied DimensionRPM, c)
               else if tpmLimited lim \<and> rl_tpm lim < i64 (wc_count tk + n) then (rate_denied DimensionTPM, c)
               else (rate_allowed, c\<lparr>rc_reqs := bump a 1 rq reqs, rc_toks := bump a n tk toks\<rparr>)))"

section \<open>Active sessions\<close>

record session_registry =
  sg_idleTTL :: duration
  sg_sessions :: "int \<Rightarrow> (string \<times> instant) list"

definition newRegistry :: "duration \<Rightarrow> session_registry" where
  "newRegistry ttl = \<lparr> sg_idleTTL = (if ttl \<le> 0 then 5 * minute else ttl), sg_sessions = \<lambda>_. [] \<rparr>"

definition register_session :: "int \<Rightarrow> string \<Rightarrow> instant \<Rightarrow> session_registry \<Rightarrow> session_registry" where
  "register_session a h t r =
     (if h = [] then r else r\<lparr>sg_sessions := (sg_sessions r)(a := AList.update h t (sg_sessions r a))\<rparr>)"

definition session_live :: "session_registry \<Rightarrow> instant \<Rightarrow> string \<times> instant \<Rightarrow> bool" where
  "session_live r t e \<longleftrightarrow> \<not> sg_idleTTL r < t - snd e"

definition wouldExceed :: "int \<Rightarrow> string \<Rightarrow> int \<Rightarrow> instant \<Rightarrow> session_registry \<Rightarrow> bool \<times> session_registry" where
  "wouldExceed a h mx t r =
     (if mx \<le> 0 then (False, r)
      else if sg_sessions r a = [] then (False, r)
      else (let m = filter (session_live r t) (sg_sessions r a)
            in (mx \<le> int (length (filter (\<lambda>e. fst e \<noteq> h) m)), r\<lparr>sg_sessions := (sg_sessions r)(a := m)\<rparr>)))"

section \<open>Spend of the session window\<close>

record cost_entry =
  ce_cents :: int
  ce_updatedAt :: instant

type_synonym cost_cache = "int \<rightharpoonup> cost_entry"

definition set_cost :: "int \<Rightarrow> int \<Rightarrow> instant \<Rightarrow> cost_cache \<Rightarrow> cost_cache" where
  "set_cost a cents t m = m(a \<mapsto> \<lparr> ce_cents = cents, ce_updatedAt = t \<rparr>)"

definition currentCost :: "int \<Rightarrow> instant \<Rightarrow> cost_cache \<Rightarrow> int \<times> bool" where
  "currentCost a t m =
     (case m a of
        None \<Rightarrow> (0, False)
      | Some e \<Rightarrow> if 3 * minute < t - ce_updatedAt e then (0, False) else (ce_cents e, True))"


section \<open>What an account has used in a window\<close>

declare map_of_eq_Some_iff [simp del]

definition used :: "windows \<Rightarrow> int \<Rightarrow> instant \<Rightarrow> int" where
  "used m a s = (case map_of m a of None \<Rightarrow> 0 | Some wc \<Rightarrow> if wc_start wc = s then wc_count wc else 0)"

text \<open>The stored window of an account is not later than an instant.\<close>

definition not_after :: "windows \<Rightarrow> int \<Rightarrow> instant \<Rightarrow> bool" where
  "not_after m a s \<longleftrightarrow> distinct (map fst m) \<and> (case map_of m a of None \<Rightarrow> True | Some wc \<Rightarrow> wc_start wc \<le> s)"

lemma not_after_mono: "not_after m a s \<Longrightarrow> s \<le> s' \<Longrightarrow> not_after m a s'"
  by (auto simp: not_after_def split: option.splits)

lemma not_after_Nil [simp]: "not_after [] a s"
  by (simp add: not_after_def)

lemma used_Nil [simp]: "used [] a s = 0"
  by (simp add: used_def)

lemma map_of_sweep:
  "distinct (map fst m) \<Longrightarrow>
   map_of (sweepStale start m) a = (case map_of m a of None \<Rightarrow> None | Some wc \<Rightarrow> if wc_start wc < start then None else Some wc)"
proof (induction m)
  case Nil
  then show ?case by (simp add: sweepStale_def)
next
  case (Cons e m)
  obtain k wc where e: "e = (k, wc)" by fastforce
  have "k \<notin> dom (map_of m)" using Cons.prems e by (simp add: dom_map_of_conv_image_fst)
  then have "map_of m k = None" by blast
  with Cons e show ?case by (auto simp: sweepStale_def split: option.splits)
qed

lemma distinct_sweep: "distinct (map fst m) \<Longrightarrow> distinct (map fst (sweepStale start m))"
  by (simp add: sweepStale_def distinct_map_filter)

lemma live_self:
  assumes "live_window c m a t = (wc, m')" and "not_after m a (truncate_time t (rc_window c))"
  shows "map_of m' a = Some wc" "wc_start wc = truncate_time t (rc_window c)" "wc_count wc = used m a (wc_start wc)"
    "distinct (map fst m')"
  using assms
  by (auto simp: live_window_def Let_def not_after_def used_def update_conv' distinct_update distinct_sweep
      split: option.splits if_splits)

lemma live_other:
  assumes "live_window c m b t = (wc, m')" and "not_after m a u" and "a \<noteq> b" and "truncate_time t (rc_window c) \<le> s"
  shows "used m' a s = used m a s" "not_after m' a u"
  using assms
  by (auto simp: live_window_def Let_def not_after_def used_def update_conv' distinct_update distinct_sweep map_of_sweep
      split: option.splits if_splits)

lemma live_keeps:
  assumes "live_window c m b t = (wc, m')" and "not_after m a (truncate_time t (rc_window c))"
    and "truncate_time t (rc_window c) \<le> s"
  shows "used m' a s = used m a s" "not_after m' a (truncate_time t (rc_window c))"
proof -
  have "used m' a s = used m a s \<and> not_after m' a (truncate_time t (rc_window c))"
  proof (cases "a = b")
    case True
    note l = live_self [OF assms(1)[folded True] assms(2)]
    have "used m a s = 0" if "s \<noteq> truncate_time t (rc_window c)"
      using that assms(2,3) by (auto simp: used_def not_after_def split: option.splits)
    with l show ?thesis by (auto simp: used_def not_after_def)
  next
    case False
    with live_other [OF assms(1,2) False assms(3)] show ?thesis by simp
  qed
  then show "used m' a s = used m a s" "not_after m' a (truncate_time t (rc_window c))" by simp_all
qed

lemma bump_used:
  assumes "not_after m b s'" and "map_of m a = Some wc" and "wc_start wc = s'"
  shows "used (bump a n wc m) b s = (if b = a \<and> s = s' then i64 (wc_count wc + n) else used m b s)"
    "not_after (bump a n wc m) b s'"
  using assms by (auto simp: bump_def used_def not_after_def update_conv' distinct_update split: option.splits)


lemma bump_other:
  assumes "a \<noteq> b"
  shows "used (bump b n wc m) a s = used m a s" "not_after m a u \<Longrightarrow> not_after (bump b n wc m) a u"
  using assms by (auto simp: bump_def used_def not_after_def update_conv' distinct_update)

section \<open>Any use of the counter\<close>

datatype rate_event =
  RateTry int rate_limits int instant
| RateCheck int rate_limits int instant
| RateRecord int int instant

fun rate_step :: "rate_counter \<Rightarrow> rate_event \<Rightarrow> rate_decision \<times> rate_counter" where
  "rate_step c (RateTry a lim n t) = try_record a lim n t c"
| "rate_step c (RateCheck a lim n t) = check_rate a lim n t c"
| "rate_step c (RateRecord a n t) = (rate_allowed, record_rate a n t c)"

fun rate_account :: "rate_event \<Rightarrow> int" where
  "rate_account (RateTry a lim n t) = a"
| "rate_account (RateCheck a lim n t) = a"
| "rate_account (RateRecord a n t) = a"

fun rate_time :: "rate_event \<Rightarrow> instant" where
  "rate_time (RateTry a lim n t) = t"
| "rate_time (RateCheck a lim n t) = t"
| "rate_time (RateRecord a n t) = t"

fun rate_tokens :: "rate_event \<Rightarrow> int" where
  "rate_tokens (RateTry a lim n t) = (if n < 0 then 0 else n)"
| "rate_tokens (RateCheck a lim n t) = (if n < 0 then 0 else n)"
| "rate_tokens (RateRecord a n t) = (if n < 0 then 0 else n)"

text \<open>What the admitted events of an account in the window starting at \<open>s\<close> sum up to.\<close>

fun spent :: "(rate_event \<Rightarrow> int) \<Rightarrow> int \<Rightarrow> instant \<Rightarrow> rate_counter \<Rightarrow> rate_event list \<Rightarrow> int" where
  "spent f a s c [] = 0"
| "spent f a s c (e # es) =
     (let (d, c') = rate_step c e
      in (if rd_allowed d \<and> rate_account e = a \<and> truncate_time (rate_time e) (rc_window c) = s then f e else 0)
         + spent f a s c' es)"

lemmas rate_ops = try_record_def check_rate_def check_tokens_def record_rate_def

lemma rate_step_window [simp]: "rc_window (snd (rate_step c e)) = rc_window c"
  by (cases e) (simp_all add: rate_ops Let_def split_beta)

text \<open>Both windows of an account are not later than an instant.\<close>

definition both_not_after :: "rate_counter \<Rightarrow> int \<Rightarrow> instant \<Rightarrow> bool" where
  "both_not_after c a s \<longleftrightarrow> not_after (rc_reqs c) a s \<and> not_after (rc_toks c) a s"

lemma live_window_cong: "rc_window c = rc_window d \<Longrightarrow> rc_maxKeys c = rc_maxKeys d \<Longrightarrow> live_window c = live_window d"
  by (intro ext) (auto simp: live_window_def Let_def split: option.split)

lemma live_window_update [simp]:
  "live_window (c\<lparr>rc_reqs := x\<rparr>) = live_window c" "live_window (c\<lparr>rc_toks := x\<rparr>) = live_window c"
  by (rule live_window_cong; simp)+

text \<open>An event of another account leaves the windows of this one as they are.\<close>

lemma other_event:
  assumes "both_not_after c a s'" and "rate_account e \<noteq> a"
    and "truncate_time (rate_time e) (rc_window c) = s'" and "s' \<le> s"
  shows "both_not_after (snd (rate_step c e)) a s' \<and>
    used (rc_reqs (snd (rate_step c e))) a s = used (rc_reqs c) a s \<and>
    used (rc_toks (snd (rate_step c e))) a s = used (rc_toks c) a s"
proof -
  obtain rq reqs where r: "live_window c (rc_reqs c) (rate_account e) (rate_time e) = (rq, reqs)" by fastforce
  obtain tk toks where k: "live_window c (rc_toks c) (rate_account e) (rate_time e) = (tk, toks)" by fastforce
  have n: "not_after (rc_reqs c) a s'" "not_after (rc_toks c) a s'"
    using assms(1) by (simp_all add: both_not_after_def)
  note keep = live_keeps [OF r, unfolded assms(3), OF n(1) assms(4)] live_keeps [OF k, unfolded assms(3), OF n(2) assms(4)]
  note facts = keep n r k bump_other(1) [OF assms(2) [symmetric]] bump_other(2) [OF assms(2) [symmetric]]
  show ?thesis
    by (cases e) (use facts in \<open>auto simp: rate_ops Let_def both_not_after_def split: prod.split\<close>)
qed

text \<open>An attempt of the account itself: when it is admitted both windows had room, and hold it now.\<close>

lemma own_try:
  assumes inv: "both_not_after c a s" and a: "0 < a" and s: "truncate_time t (rc_window c) = s"
    and step: "try_record a lim n t c = (d, c')" and lim: "\<not> rate_exempt a lim"
  shows "both_not_after c' a s"
    "\<not> rd_allowed d \<Longrightarrow> used (rc_reqs c') a s = used (rc_reqs c) a s \<and> used (rc_toks c') a s = used (rc_toks c) a s"
    "rd_allowed d \<Longrightarrow> used (rc_reqs c') a s = i64 (used (rc_reqs c) a s + 1) \<and>
       used (rc_toks c') a s = i64 (used (rc_toks c) a s + (if n < 0 then 0 else n)) \<and>
       (if rpmLimited lim then i64 (used (rc_reqs c) a s + 1) \<le> rl_rpm lim else True) \<and>
       (if tpmLimited lim then i64 (used (rc_toks c) a s + (if n < 0 then 0 else n)) \<le> rl_tpm lim else True)"
proof -
  obtain rq reqs where r: "live_window c (rc_reqs c) a t = (rq, reqs)" by fastforce
  obtain tk toks where k: "live_window c (rc_toks c) a t = (tk, toks)" by fastforce
  have n: "not_after (rc_reqs c) a s" "not_after (rc_toks c) a s"
    using inv by (simp_all add: both_not_after_def)
  note R = live_self [OF r, unfolded s, OF n(1)] live_keeps [OF r, unfolded s, OF n(1) order_refl]
  note K = live_self [OF k, unfolded s, OF n(2)] live_keeps [OF k, unfolded s, OF n(2) order_refl]
  note bR = bump_used [OF R(6) R(1) R(2)] and bK = bump_used [OF K(6) K(1) K(2)]
  note facts = R K bR bK
  show "both_not_after c' a s"
    using step lim facts by (auto simp: try_record_def Let_def r k both_not_after_def split: if_splits)
  show "\<not> rd_allowed d \<Longrightarrow> used (rc_reqs c') a s = used (rc_reqs c) a s \<and> used (rc_toks c') a s = used (rc_toks c) a s"
    using step lim facts by (auto simp: try_record_def Let_def r k rate_allowed_def split: if_splits)
  show "rd_allowed d \<Longrightarrow> used (rc_reqs c') a s = i64 (used (rc_reqs c) a s + 1) \<and>
       used (rc_toks c') a s = i64 (used (rc_toks c) a s + (if n < 0 then 0 else n)) \<and>
       (if rpmLimited lim then i64 (used (rc_reqs c) a s + 1) \<le> rl_rpm lim else True) \<and>
       (if tpmLimited lim then i64 (used (rc_toks c) a s + (if n < 0 then 0 else n)) \<le> rl_tpm lim else True)"
    using step lim facts by (auto simp: try_record_def Let_def r k rate_denied_def split: if_splits)
qed


lemma spent_later:
  "(\<And>e. e \<in> set es \<Longrightarrow> s < truncate_time (rate_time e) (rc_window c)) \<Longrightarrow> spent f a s c es = 0"
  by (induction es arbitrary: c) (fastforce split: prod.split simp: Let_def split_beta)+

text \<open>The attempts of one account, all with the same limits and amounts below \<open>2 ^ 62\<close>.\<close>

definition only_tries :: "int \<Rightarrow> rate_limits \<Rightarrow> rate_event list \<Rightarrow> bool" where
  "only_tries a lim es \<longleftrightarrow>
     list_all (\<lambda>e. rate_account e \<noteq> a \<or> (\<exists>n t. e = RateTry a lim n t \<and> n \<le> 2 ^ 62)) es"

definition windows_sorted :: "rate_counter \<Rightarrow> rate_event list \<Rightarrow> bool" where
  "windows_sorted c es \<longleftrightarrow> sorted (map (\<lambda>e. truncate_time (rate_time e) (rc_window c)) es)"

lemma windows_sorted_Cons:
  "windows_sorted c (e # es) \<Longrightarrow>
   windows_sorted c es \<and> (\<forall>x \<in> set es. truncate_time (rate_time e) (rc_window c) \<le> truncate_time (rate_time x) (rc_window c))"
  by (simp add: windows_sorted_def)

lemma windows_sorted_cong: "rc_window c = rc_window c' \<Longrightarrow> windows_sorted c es = windows_sorted c' es"
  by (simp add: windows_sorted_def)

lemma both_not_after_mono: "both_not_after c a s \<Longrightarrow> s \<le> s' \<Longrightarrow> both_not_after c a s'"
  by (auto simp: both_not_after_def intro: not_after_mono)

lemma used_future:
  "both_not_after c a s' \<Longrightarrow> s' < s \<Longrightarrow> used (rc_reqs c) a s = 0 \<and> used (rc_toks c) a s = 0"
  by (auto simp: both_not_after_def not_after_def used_def split: option.splits)

text \<open>One of the two windows with the limit it is checked against and the amount an event charges it.\<close>

locale rate_meter =
  fixes win :: "rate_counter \<Rightarrow> windows"
    and amount :: "rate_event \<Rightarrow> int"
    and limit :: "rate_limits \<Rightarrow> int"
  assumes win_not_after: "both_not_after c a s \<Longrightarrow> not_after (win c) a s"
    and win_other: "both_not_after c a s' \<Longrightarrow> rate_account e \<noteq> a \<Longrightarrow> truncate_time (rate_time e) (rc_window c) = s' \<Longrightarrow>
      s' \<le> s \<Longrightarrow> used (win (snd (rate_step c e))) a s = used (win c) a s"
    and win_denied: "both_not_after c a s \<Longrightarrow> 0 < a \<Longrightarrow> truncate_time t (rc_window c) = s \<Longrightarrow>
      try_record a lim n t c = (d, c') \<Longrightarrow> 0 < limit lim \<Longrightarrow> \<not> rd_allowed d \<Longrightarrow> used (win c') a s = used (win c) a s"
    and win_admitted: "both_not_after c a s \<Longrightarrow> 0 < a \<Longrightarrow> truncate_time t (rc_window c) = s \<Longrightarrow>
      try_record a lim n t c = (d, c') \<Longrightarrow> 0 < limit lim \<Longrightarrow> rd_allowed d \<Longrightarrow>
      used (win c') a s = i64 (used (win c) a s + amount (RateTry a lim n t)) \<and>
      i64 (used (win c) a s + amount (RateTry a lim n t)) \<le> limit lim"
    and limited: "0 < limit lim \<Longrightarrow> \<not> 0 < a \<or> \<not> rate_exempt a lim"
    and amount_range: "n \<le> 2 ^ 62 \<Longrightarrow> 0 \<le> amount (RateTry a lim n t) \<and> amount (RateTry a lim n t) \<le> 2 ^ 62"
begin

lemma step_not_after:
  assumes "both_not_after c a s" and "truncate_time (rate_time e) (rc_window c) = s" and "0 < a"
    and "rate_account e \<noteq> a \<or> (\<exists>n t. e = RateTry a lim n t \<and> n \<le> 2 ^ 62)" and "0 < limit lim"
  shows "both_not_after (snd (rate_step c e)) a s"
proof (cases "rate_account e = a")
  case True
  with assms(4) obtain n t where e: "e = RateTry a lim n t" by auto
  obtain d c' where step: "try_record a lim n t c = (d, c')" by fastforce
  have "\<not> rate_exempt a lim" using limited [OF assms(5)] assms(3) by blast
  from own_try(1) [OF assms(1,3) _ step this] assms(2) e step show ?thesis by simp
next
  case False
  with other_event [OF assms(1) False assms(2) order_refl] show ?thesis by blast
qed

lemma spent_bound:
  assumes "0 < a" and "0 < limit lim" and "limit lim < 2 ^ 62"
  shows "\<lbrakk>only_tries a lim es; windows_sorted c es; both_not_after c a s0;
     \<forall>e \<in> set es. s0 \<le> truncate_time (rate_time e) (rc_window c);
     0 \<le> used (win c) a s; used (win c) a s \<le> limit lim\<rbrakk>
   \<Longrightarrow> spent amount a s c es \<le> limit lim - used (win c) a s"
proof (induction es arbitrary: c s0)
  case Nil
  then show ?case by simp
next
  case (Cons e es)
  define u where "u = truncate_time (rate_time e) (rc_window c)"
  obtain d c' where step: "rate_step c e = (d, c')" by fastforce
  have win': "rc_window c' = rc_window c" using rate_step_window [of c e] step by simp
  have inv: "both_not_after c a u" using both_not_after_mono [OF Cons.prems(3)] Cons.prems(4) u_def by simp
  have e: "rate_account e \<noteq> a \<or> (\<exists>n t. e = RateTry a lim n t \<and> n \<le> 2 ^ 62)" and es: "only_tries a lim es"
    using Cons.prems(1) by (simp_all add: only_tries_def)
  note sorted = windows_sorted_Cons [OF Cons.prems(2)]
  have later: "\<forall>x \<in> set es. u \<le> truncate_time (rate_time x) (rc_window c')" using sorted u_def win' by simp
  have inv': "both_not_after c' a u" using step_not_after [OF inv u_def [symmetric] assms(1) e assms(2)] step by simp
  have sort': "windows_sorted c' es" using sorted windows_sorted_cong [OF win'] by blast
  note IH = Cons.IH [OF es sort' inv' later]
  show ?case
  proof (cases "s < u")
    case True
    then have "spent amount a s c' es = 0" using later by (intro spent_later) fastforce
    with True step Cons.prems(6) u_def show ?thesis by simp
  next
    case False
    show ?thesis
    proof (cases "rate_account e = a")
      case other: False
      have "used (win c') a s = used (win c) a s"
        using win_other [OF inv other u_def [symmetric], of s] False step by simp
      with IH Cons.prems(5,6) step other show ?thesis by simp
    next
      case own: True
      with e obtain n t where et: "e = RateTry a lim n t" "n \<le> 2 ^ 62" by auto
      have tr: "try_record a lim n t c = (d, c')" using step et by simp
      have tu: "truncate_time t (rc_window c) = u" using u_def et by simp
      show ?thesis
      proof (cases "s = u")
        case earlier: False
        then have "u < s" using False by simp
        then have "used (win c) a s = 0" "used (win c') a s = 0"
          using win_not_after [OF inv] win_not_after [OF inv']
          by (auto simp: not_after_def used_def split: option.splits)
        with IH assms(2) step earlier u_def show ?thesis by simp
      next
        case now: True
        show ?thesis
        proof (cases "rd_allowed d")
          case denied: False
          from win_denied [OF inv assms(1) tu tr assms(2) denied] IH Cons.prems(5,6) step denied now
          show ?thesis by simp
        next
          case admitted: True
          let ?q = "used (win c) a s + amount e"
          have "0 \<le> amount e" "amount e \<le> 2 ^ 62" using amount_range [OF et(2)] et(1) by simp_all
          moreover from this have "i64 ?q = ?q"
            using Cons.prems(5,6) assms(3) by (intro i64_id) (simp add: in_i64_def)
          moreover note win_admitted [OF inv assms(1) tu tr assms(2) admitted]
          ultimately have "used (win c') a s = ?q" "0 \<le> ?q" "?q \<le> limit lim"
            using et(1) now Cons.prems(5) by simp_all
          with IH step admitted own now u_def show ?thesis by simp
        qed
      qed
    qed
  qed
qed

lemma fresh_bound:
  assumes "0 < a" and "0 < limit lim" and "limit lim < 2 ^ 62" and "only_tries a lim es"
    and "windows_sorted (newRateCounter w) es"
    and "used (win (newRateCounter w)) a s = 0"
  shows "spent amount a s (newRateCounter w) es \<le> limit lim"
proof (cases es)
  case Nil
  with assms show ?thesis by simp
next
  case (Cons e es')
  let ?u = "truncate_time (rate_time e) (rc_window (newRateCounter w))"
  have "both_not_after (newRateCounter w) a ?u" by (simp add: both_not_after_def newRateCounter_def)
  moreover have "\<forall>x \<in> set es. ?u \<le> truncate_time (rate_time x) (rc_window (newRateCounter w))"
    using windows_sorted_Cons assms(5) Cons by fastforce
  ultimately have "spent amount a s (newRateCounter w) es \<le> limit lim - used (win (newRateCounter w)) a s"
    using assms(2,6) by (intro spent_bound [OF assms(1-3) assms(4,5)]) simp_all
  with assms(6) show ?thesis by simp
qed

end

interpretation requests: rate_meter rc_reqs "\<lambda>_. 1" rl_rpm
proof unfold_locales
  fix c a s' e s
  assume "both_not_after c a s'" "rate_account e \<noteq> a" "truncate_time (rate_time e) (rc_window c) = s'" "s' \<le> s"
  then show "used (rc_reqs (snd (rate_step c e))) a s = used (rc_reqs c) a s" by (blast dest: other_event)
next
  fix c a s t lim n d c'
  assume h: "both_not_after c a s" "0 < a" "truncate_time t (rc_window c) = s" "try_record a lim n t c = (d, c')" "0 < rl_rpm lim"
  then have l: "rpmLimited lim" "\<not> rate_exempt a lim" by (simp_all add: rpmLimited_def rate_exempt_def)
  note own = own_try [OF h(1-4) l(2)]
  show "\<not> rd_allowed d \<Longrightarrow> used (rc_reqs c') a s = used (rc_reqs c) a s" using own(2) by blast
  show "rd_allowed d \<Longrightarrow> used (rc_reqs c') a s = i64 (used (rc_reqs c) a s + 1) \<and> i64 (used (rc_reqs c) a s + 1) \<le> rl_rpm lim"
    using own(3) l(1) by simp
qed (auto simp: both_not_after_def rate_exempt_def rpmLimited_def)

interpretation tokens: rate_meter rc_toks rate_tokens rl_tpm
proof unfold_locales
  fix c a s' e s
  assume "both_not_after c a s'" "rate_account e \<noteq> a" "truncate_time (rate_time e) (rc_window c) = s'" "s' \<le> s"
  then show "used (rc_toks (snd (rate_step c e))) a s = used (rc_toks c) a s" by (blast dest: other_event)
next
  fix c a s t lim n d c'
  assume h: "both_not_after c a s" "0 < a" "truncate_time t (rc_window c) = s" "try_record a lim n t c = (d, c')" "0 < rl_tpm lim"
  then have l: "tpmLimited lim" "\<not> rate_exempt a lim" by (simp_all add: tpmLimited_def rate_exempt_def)
  note own = own_try [OF h(1-4) l(2)]
  show "\<not> rd_allowed d \<Longrightarrow> used (rc_toks c') a s = used (rc_toks c) a s" using own(2) by blast
  show "rd_allowed d \<Longrightarrow> used (rc_toks c') a s = i64 (used (rc_toks c) a s + rate_tokens (RateTry a lim n t)) \<and>
      i64 (used (rc_toks c) a s + rate_tokens (RateTry a lim n t)) \<le> rl_tpm lim"
    using own(3) l(1) by simp
qed (auto simp: both_not_after_def rate_exempt_def tpmLimited_def)


section \<open>Properties\<close>

text \<open>
  C39. Whatever other accounts do with the counter, the attempts of an account that one window
  admits stay within its request limit and its token limit, as long as the clock does not run
  backwards across windows.
\<close>

theorem window_budget_kept:
  assumes "0 < a" and "only_tries a lim es" and "windows_sorted (newRateCounter w) es"
    and "rl_rpm lim < 2 ^ 62" and "rl_tpm lim < 2 ^ 62"
  shows "(if 0 < rl_rpm lim then spent (\<lambda>_. 1) a s (newRateCounter w) es \<le> rl_rpm lim else True) \<and>
    (if 0 < rl_tpm lim then spent rate_tokens a s (newRateCounter w) es \<le> rl_tpm lim else True)"
proof -
  have "used (rc_reqs (newRateCounter w)) a s = 0" "used (rc_toks (newRateCounter w)) a s = 0"
    by (simp_all add: newRateCounter_def)
  then show ?thesis
    using requests.fresh_bound [OF assms(1) _ assms(4,2,3)] tokens.fresh_bound [OF assms(1) _ assms(5,2,3)] by simp
qed

lemma window_budget_kept_witness:
  "let lim = \<lparr> rl_rpm = 2, rl_tpm = 100 \<rparr>;
       es = [RateTry 7 lim 60 1, RateRecord 8 9 2, RateTry 7 lim 50 3, RateTry 7 lim 40 4, RateTry 7 lim 0 5]
   in spent rate_tokens 7 0 (newRateCounter 60) es \<le> 100 \<and> spent rate_tokens 7 0 (newRateCounter 60) es = 100 \<and>
      spent (\<lambda>_. 1) 7 0 (newRateCounter 60) es = 2"
proof -
  let ?lim = "\<lparr> rl_rpm = 2, rl_tpm = 100 \<rparr>"
  let ?es = "[RateTry 7 ?lim 60 1, RateRecord 8 9 2, RateTry 7 ?lim 50 3, RateTry 7 ?lim 40 4, RateTry 7 ?lim 0 5]"
  have "only_tries 7 ?lim ?es" by (simp add: only_tries_def)
  moreover have "windows_sorted (newRateCounter 60) ?es"
    by (simp add: windows_sorted_def newRateCounter_def truncate_time_def zero_time_def)
  ultimately have "spent rate_tokens 7 0 (newRateCounter 60) ?es \<le> 100"
    using window_budget_kept [of 7 ?lim ?es 60 0] by simp
  moreover have "spent rate_tokens 7 0 (newRateCounter 60) ?es = 100" by code_simp
  moreover have "spent (\<lambda>_. 1) 7 0 (newRateCounter 60) ?es = 2" by code_simp
  ultimately show ?thesis by (simp add: Let_def)
qed

section \<open>The session cap\<close>

definition live_sessions :: "int \<Rightarrow> instant \<Rightarrow> session_registry \<Rightarrow> string list" where
  "live_sessions a t r = map fst (filter (session_live r t) (sg_sessions r a))"

definition sessions_distinct :: "session_registry \<Rightarrow> bool" where
  "sessions_distinct r \<longleftrightarrow> (\<forall>a. distinct (map fst (sg_sessions r a)))"

lemma register_distinct: "sessions_distinct r \<Longrightarrow> sessions_distinct (register_session a h t r)"
  by (auto simp: sessions_distinct_def register_session_def distinct_update)

lemma exceed_distinct: "sessions_distinct r \<Longrightarrow> sessions_distinct (snd (wouldExceed a h mx t r))"
  by (auto simp: sessions_distinct_def wouldExceed_def Let_def distinct_map_filter)

lemma session_live_update [simp]: "session_live (r\<lparr>sg_sessions := x\<rparr>) = session_live r"
  by (intro ext) (simp add: session_live_def)

lemma live_antimono:
  "t \<le> t' \<Longrightarrow> length (live_sessions a t' r) \<le> length (live_sessions a t r)"
proof -
  assume "t \<le> t'"
  then have "filter (session_live r t') xs = filter (session_live r t') (filter (session_live r t) xs)" for xs
    by (induction xs) (auto simp: session_live_def)
  then show ?thesis by (metis length_filter_le length_map live_sessions_def)
qed

lemma filter_update_other: "filter (\<lambda>e. fst e \<noteq> h) (AList.update h v m) = filter (\<lambda>e. fst e \<noteq> h) m"
  by (induction m) auto

lemma at_most_one_key:
  "distinct (map fst m) \<Longrightarrow> length m \<le> Suc (length (filter (\<lambda>e. fst e \<noteq> h) m))"
proof (induction m)
  case (Cons e m)
  show ?case
  proof (cases "fst e = h")
    case True
    with Cons.prems have "filter (\<lambda>e. fst e \<noteq> h) m = m" by (fastforce simp: filter_id_conv image_iff)
    with True show ?thesis by simp
  next
    case False
    with Cons show ?thesis by simp
  qed
qed simp

text \<open>The session gate lets a request through and its session is registered.\<close>

definition admit_session :: "(int \<Rightarrow> int) \<Rightarrow> session_registry \<Rightarrow> int \<times> string \<times> instant \<Rightarrow> session_registry" where
  "admit_session cap r e =
     (let (a, h, t) = e;
          (exceeds, r) = wouldExceed a h (cap a) t r
      in if exceeds then r else register_session a h t r)"

lemma exceed_live: "live_sessions b t (snd (wouldExceed a h mx t r)) = live_sessions b t r"
  by (auto simp: live_sessions_def wouldExceed_def Let_def)

lemma exceed_ttl [simp]: "sg_idleTTL (snd (wouldExceed a h mx t r)) = sg_idleTTL r"
  by (simp add: wouldExceed_def Let_def)

lemma register_other: "a \<noteq> b \<Longrightarrow> live_sessions b t (register_session a h t' r) = live_sessions b t r"
  by (simp add: live_sessions_def register_session_def)

lemma register_live:
  assumes "sessions_distinct r" and "length (filter (\<lambda>x. x \<noteq> h) (live_sessions a t r)) < mx"
    and "length (live_sessions a t r) \<le> mx"
  shows "length (live_sessions a t (register_session a h t r)) \<le> mx"
proof (cases "h = []")
  case True
  with assms show ?thesis by (simp add: register_session_def)
next
  case False
  let ?r = "register_session a h t r"
  let ?m = "filter (session_live r t) (sg_sessions ?r a)"
  have live: "session_live ?r = session_live r" by (intro ext) (simp add: session_live_def register_session_def)
  have "distinct (map fst ?m)"
    using register_distinct [OF assms(1)] by (simp add: sessions_distinct_def distinct_map_filter)
  then have "length ?m \<le> Suc (length (filter (\<lambda>e. fst e \<noteq> h) ?m))" by (rule at_most_one_key)
  also have "filter (\<lambda>e. fst e \<noteq> h) ?m = filter (session_live r t) (filter (\<lambda>e. fst e \<noteq> h) (sg_sessions ?r a))"
    by (simp add: conj_commute)
  also have "\<dots> = filter (\<lambda>e. fst e \<noteq> h) (filter (session_live r t) (sg_sessions r a))"
    using False by (simp add: register_session_def filter_update_other conj_commute)
  finally have "length ?m \<le> Suc (length (filter (\<lambda>x. x \<noteq> h) (live_sessions a t r)))"
    by (simp add: live_sessions_def filter_map comp_def)
  with assms(2) show ?thesis by (simp add: live_sessions_def live)
qed

lemma not_exceeds:
  assumes "\<not> fst (wouldExceed a h mx t r)" and "0 < mx"
  shows "length (filter (\<lambda>x. x \<noteq> h) (live_sessions a t r)) < nat mx"
  using assms
  by (auto simp: wouldExceed_def Let_def live_sessions_def filter_map comp_def zless_nat_eq_int_zless split: if_splits)

lemma admit_session_cap:
  assumes "sessions_distinct r" and "0 < cap b" and "length (live_sessions b t r) \<le> nat (cap b)"
    and "e = (a, h, t)"
  shows "sessions_distinct (admit_session cap r e) \<and> length (live_sessions b t (admit_session cap r e)) \<le> nat (cap b)"
proof -
  obtain x r' where w: "wouldExceed a h (cap a) t r = (x, r')" by fastforce
  have d: "sessions_distinct r'" using exceed_distinct [OF assms(1), of a h "cap a" t] w by simp
  have l: "live_sessions b t r' = live_sessions b t r" for b using exceed_live [of b t a h "cap a" r] w by simp
  show ?thesis
  proof (cases x)
    case True
    with w d l assms show ?thesis by (simp add: admit_session_def)
  next
    case False
    have "length (live_sessions b t (register_session a h t r')) \<le> nat (cap b)"
    proof (cases "a = b")
      case True
      have "length (filter (\<lambda>x. x \<noteq> h) (live_sessions b t r')) < nat (cap b)"
        using not_exceeds [of a h "cap a" t r] w False assms(2) True l by simp
      from register_live [OF d this] assms(3) True l show ?thesis by simp
    next
      case other: False
      with register_other assms(3) l show ?thesis by simp
    qed
    with w d False assms(4) register_distinct show ?thesis by (simp add: admit_session_def)
  qed
qed

lemma admit_sessions_cap:
  assumes "0 < cap b"
  shows "\<lbrakk>sessions_distinct r; length (live_sessions b t0 r) \<le> nat (cap b); sorted (map (snd \<circ> snd) es);
     \<forall>e \<in> set es. t0 \<le> snd (snd e) \<and> snd (snd e) \<le> t; t0 \<le> t\<rbrakk>
   \<Longrightarrow> length (live_sessions b t (foldl (admit_session cap) r es)) \<le> nat (cap b)"
proof (induction es arbitrary: r t0)
  case Nil
  then show ?case using live_antimono [of t0 t b r] by simp
next
  case (Cons e es)
  obtain a h u where e: "e = (a, h, u)" by (cases e) auto
  have "length (live_sessions b u r) \<le> nat (cap b)"
    using live_antimono [of t0 u b r] Cons.prems e by fastforce
  note step = admit_session_cap [of r cap, OF Cons.prems(1) assms this e]
  show ?case using Cons.IH [of "admit_session cap r e" u] step Cons.prems(3,4) e by auto
qed

text \<open>
  Requests that pass the session gate before they register never leave an account with more
  live sessions than its cap, whatever accounts and sessions they belong to.
\<close>

theorem session_cap_kept:
  assumes "0 < cap b" and "sorted (map (snd \<circ> snd) es)" and "list_all (\<lambda>e. snd (snd e) \<le> t) es"
  shows "int (length (live_sessions b t (foldl (admit_session cap) (newRegistry ttl) es))) \<le> cap b"
proof -
  have start: "sessions_distinct (newRegistry ttl)" "\<And>t0. live_sessions b t0 (newRegistry ttl) = []"
    by (simp_all add: sessions_distinct_def live_sessions_def newRegistry_def)
  let ?t0 = "if es = [] then t else snd (snd (hd es))"
  have "\<forall>e \<in> set es. ?t0 \<le> snd (snd e) \<and> snd (snd e) \<le> t"
    using assms(2,3) by (cases es) (auto simp: list_all_iff)
  moreover have "?t0 \<le> t" using assms(3) by (cases es) auto
  ultimately show ?thesis
    using admit_sessions_cap [of cap b "newRegistry ttl" ?t0 es t] assms(1,2) start by (simp add: le_nat_iff)
qed

lemma session_cap_kept_witness:
  "let es = [(1, ''a'', 10), (1, ''b'', 20), (1, ''c'', 30), (2, ''c'', 35), (1, ''a'', 40)]
   in int (length (live_sessions 1 50 (foldl (admit_session (\<lambda>_. 2)) (newRegistry 100) es))) \<le> 2 \<and>
      live_sessions 1 50 (foldl (admit_session (\<lambda>_. 2)) (newRegistry 100) es) = [''a'', ''b'']"
proof -
  let ?es = "[(1, ''a'', 10), (1, ''b'', 20), (1, ''c'', 30), (2, ''c'', 35), (1, ''a'', 40)]"
  have "int (length (live_sessions 1 50 (foldl (admit_session (\<lambda>_. 2)) (newRegistry 100) ?es))) \<le> 2"
    using session_cap_kept [of "\<lambda>_. 2" 1 ?es 50 100] by simp
  moreover have "live_sessions 1 50 (foldl (admit_session (\<lambda>_. 2)) (newRegistry 100) ?es) = [''a'', ''b'']" by code_simp
  ultimately show ?thesis by (simp add: Let_def)
qed

end
