(* ===== verification/Pool_Gates.thy ===== *)
theory Pool_Gates
  imports Pool_Types Account_Limits
begin

text \<open>
  The gates an account passes before it is selected, and their chain (backend/internal/pool/router:
  gates.go, window_cost_gate.go, session_count_gate.go, context_window_gate.go,
  rpm_tpm_precheck_gate.go). A gate answers \<open>(ok, reason, error)\<close>; an empty reason is \<open>None\<close>. The
  session and the rate gate clean up the limiter they read, so a gate also returns the world. The
  clock is read once: it is the argument \<open>t\<close> of the gates that look at it.
\<close>

section \<open>Gates\<close>

text \<open>
  The limiters of one gateway and the number of random draws so far; the rest of the state (slots,
  claims, sticky bindings, health records) is the parameter \<open>'d\<close>.
\<close>

record 'd pool_world =
  pw_precheck :: "rate_counter option"
  pw_keyRates :: "rate_counter option"
  pw_bindingRates :: "rate_counter option"
  pw_sessions :: "session_registry option"
  pw_costs :: "cost_cache option"
  pw_draws :: nat
  pw_rest :: 'd

record health_status =
  hs_state :: string
  hs_rampPct :: int

type_synonym gate_answer = "bool \<times> gate_failure option \<times> select_error option"

datatype 'd gate =
  Gate (gate_allow: "account option \<Rightarrow> sel_request \<Rightarrow> 'd pool_world \<Rightarrow> gate_answer \<times> 'd pool_world")
    (gate_status: "(account option \<Rightarrow> sel_request \<Rightarrow> 'd pool_world \<Rightarrow> select_error + health_status) option")
    (gate_prepare: "(sel_request \<Rightarrow> 'd pool_world \<Rightarrow> 'd gate \<times> 'd pool_world) option")

definition gate_ok :: gate_answer where "gate_ok = (True, None, None)"
definition gate_refuse :: "gate_failure \<Rightarrow> gate_answer" where "gate_refuse r = (False, Some r, None)"

text \<open>A gate that only reads the account and the request.\<close>

definition pure_gate :: "(account option \<Rightarrow> sel_request \<Rightarrow> gate_answer) \<Rightarrow> 'd gate" where
  "pure_gate f = Gate (\<lambda>a q w. (f a q, w)) None None"

definition allowAllGate :: "'d gate" where
  "allowAllGate = pure_gate (\<lambda>_ _. gate_ok)"

definition protocolFamily_allow :: "account option \<Rightarrow> sel_request \<Rightarrow> gate_answer" where
  "protocolFamily_allow a q =
     (if sr_protocol q = [] then gate_ok
      else case a of
             None \<Rightarrow> gate_refuse GateFailureProtocolFamily
           | Some x \<Rightarrow> if as_protocol x \<noteq> sr_protocol q then gate_refuse GateFailureProtocolFamily else gate_ok)"

definition modelRateLimit_allow :: "instant \<Rightarrow> account option \<Rightarrow> sel_request \<Rightarrow> gate_answer" where
  "modelRateLimit_allow t a q =
     (case a of
        None \<Rightarrow> gate_refuse GateFailureModel
      | Some x \<Rightarrow>
          let key = (if sr_cooldownKey q = [] then sr_model q else sr_cooldownKey q)
          in if key = [] then gate_ok
             else case as_modelLimits x key of
                    None \<Rightarrow> gate_ok
                  | Some l \<Rightarrow> if ml_resetAt l = zero_time then gate_ok
                              else if t < ml_resetAt l then gate_refuse GateFailureModelCooldown else gate_ok)"

definition providerAccountHealthEligible :: "string \<Rightarrow> instant \<Rightarrow> instant \<Rightarrow> bool" where
  "providerAccountHealthEligible st until t =
     (if st \<in> {[], ''healthy'', ''active'', ''degraded''} then True
      else if st \<in> {''throttled'', ''revoked'', ''cooldown''} then until \<noteq> zero_time \<and> \<not> t < until
      else False)"

definition providerAccountHealth_allow :: "instant \<Rightarrow> account option \<Rightarrow> sel_request \<Rightarrow> gate_answer" where
  "providerAccountHealth_allow t a q =
     (case a of
        None \<Rightarrow> gate_refuse GateFailureHealth
      | Some x \<Rightarrow>
          if as_disableCooling x then gate_ok
          else if providerAccountHealthEligible (as_healthState x) (as_healthUntil x) t then gate_ok
          else gate_refuse GateFailureHealth)"

definition providerAccountHealth_status :: "instant \<Rightarrow> account option \<Rightarrow> health_status" where
  "providerAccountHealth_status t a =
     (case a of
        None \<Rightarrow> \<lparr> hs_state = ''disabled'', hs_rampPct = 0 \<rparr>
      | Some x \<Rightarrow>
          if providerAccountHealthEligible (as_healthState x) (as_healthUntil x) t
          then \<lparr> hs_state = ''active'', hs_rampPct = 0 \<rparr>
          else if as_healthState x \<in> {''throttled'', ''cooldown''}
          then \<lparr> hs_state = ''cooling_down'', hs_rampPct = 0 \<rparr>
          else \<lparr> hs_state = ''disabled'', hs_rampPct = 0 \<rparr>)"

definition providerAccountHealthGate :: "instant \<Rightarrow> 'd gate" where
  "providerAccountHealthGate t =
     Gate (\<lambda>a q w. (providerAccountHealth_allow t a q, w))
       (Some (\<lambda>a q w. Inr (providerAccountHealth_status t a))) None"

definition upstreamQuota_allow :: "instant \<Rightarrow> account option \<Rightarrow> sel_request \<Rightarrow> gate_answer" where
  "upstreamQuota_allow t a q =
     (case a of
        None \<Rightarrow> gate_ok
      | Some x \<Rightarrow> if as_quotaState x = ''exhausted'' \<and> freshAt (as_quotaAt x) adaptiveQuotaFreshness t
                  then gate_refuse GateFailureUpstreamQuota else gate_ok)"

definition exclusion_allow :: "account option \<Rightarrow> sel_request \<Rightarrow> gate_answer" where
  "exclusion_allow a q =
     (case a of
        None \<Rightarrow> gate_ok
      | Some x \<Rightarrow> if as_id x \<in> sr_excluded q then gate_refuse GateFailurePerRequestExclusion else gate_ok)"

definition pinnedAccount_allow :: "account option \<Rightarrow> sel_request \<Rightarrow> gate_answer" where
  "pinnedAccount_allow a q =
     (if sr_pinned q = 0 then gate_ok
      else case a of
             None \<Rightarrow> gate_refuse GateFailurePinnedAccount
           | Some x \<Rightarrow> if as_id x \<noteq> sr_pinned q then gate_refuse GateFailurePinnedAccount else gate_ok)"

definition windowCost_allow :: "instant \<Rightarrow> account option \<Rightarrow> sel_request \<Rightarrow> 'd pool_world \<Rightarrow> gate_answer" where
  "windowCost_allow t a q w =
     (case a of
        None \<Rightarrow> gate_ok
      | Some x \<Rightarrow>
          if as_windowCostLimit x \<le> 0 then gate_ok
          else case pw_costs w of
                 None \<Rightarrow> gate_ok
               | Some m \<Rightarrow>
                   let (cents, fresh) = currentCost (as_id x) t m
                   in if \<not> fresh then gate_ok
                      else if as_windowCostLimit x \<le> cents then gate_refuse GateFailureWindowCost else gate_ok)"

definition sessionCount_allow :: "instant \<Rightarrow> account option \<Rightarrow> sel_request \<Rightarrow> 'd pool_world \<Rightarrow> gate_answer \<times> 'd pool_world" where
  "sessionCount_allow t a q w =
     (case a of
        None \<Rightarrow> (gate_ok, w)
      | Some x \<Rightarrow>
          if as_maxSessions x \<le> 0 then (gate_ok, w)
          else case pw_sessions w of
                 None \<Rightarrow> (gate_ok, w)
               | Some r \<Rightarrow>
                   let (exceeds, r) = wouldExceed (as_id x) (sr_sessionHash q) (as_maxSessions x) t r
                   in (if exceeds then gate_refuse GateFailureSessionCount else gate_ok, w\<lparr>pw_sessions := Some r\<rparr>))"

definition contextWindow_allow :: "account option \<Rightarrow> sel_request \<Rightarrow> gate_answer" where
  "contextWindow_allow a q =
     (if sr_contextWindow q \<le> 0 then gate_ok
      else if sr_inputTokens q \<le> 0 then gate_ok
      else (let reserved = (if sr_maxOutputTokens q < 0 then 0 else sr_maxOutputTokens q)
            in if sr_contextWindow q < i64 (sr_inputTokens q + reserved)
               then gate_refuse GateFailureContextWindow else gate_ok))"

definition ratePrecheck_allow :: "instant \<Rightarrow> account option \<Rightarrow> sel_request \<Rightarrow> 'd pool_world \<Rightarrow> gate_answer \<times> 'd pool_world" where
  "ratePrecheck_allow t a q w =
     (case a of
        None \<Rightarrow> (gate_ok, w)
      | Some x \<Rightarrow>
          case pw_precheck w of
            None \<Rightarrow> (gate_ok, w)
          | Some c \<Rightarrow>
              let est = (if sr_inputTokens q < 0 then 0 else sr_inputTokens q);
                  (d, c) = check_rate (as_id x) \<lparr> rl_rpm = as_rpmLimit x, rl_tpm = as_tpmLimit x \<rparr> est t c
              in (if \<not> rd_allowed d then gate_refuse GateFailureRatePrecheck else gate_ok, w\<lparr>pw_precheck := Some c\<rparr>))"

section \<open>The chain\<close>

record 'd gate_chain =
  gc_tenant :: "'d gate option"
  gc_lifecycle :: "'d gate option"
  gc_channel :: "'d gate option"
  gc_protocol :: "'d gate option"
  gc_model :: "'d gate option"
  gc_capability :: "'d gate option"
  gc_credential :: "'d gate option"
  gc_health :: "'d gate option"
  gc_groupPolicy :: "'d gate option"
  gc_exclusion :: "'d gate option"
  gc_pinned :: "'d gate option"
  gc_windowCost :: "'d gate option"
  gc_sessionCount :: "'d gate option"
  gc_contextWindow :: "'d gate option"
  gc_ratePrecheck :: "'d gate option"
  gc_upstreamQuota :: "'d gate option"

definition defaultGateChain :: "instant \<Rightarrow> 'd gate_chain" where
  "defaultGateChain t =
     \<lparr> gc_tenant = Some allowAllGate, gc_lifecycle = Some allowAllGate, gc_channel = Some allowAllGate,
       gc_protocol = Some (pure_gate protocolFamily_allow), gc_model = Some (pure_gate (modelRateLimit_allow t)),
       gc_capability = Some allowAllGate, gc_credential = Some allowAllGate,
       gc_health = Some (providerAccountHealthGate t), gc_groupPolicy = Some allowAllGate,
       gc_exclusion = Some (pure_gate exclusion_allow), gc_pinned = Some (pure_gate pinnedAccount_allow),
       gc_windowCost = Some (Gate (\<lambda>a q w. (windowCost_allow t a q w, w)) None None),
       gc_sessionCount = Some (Gate (sessionCount_allow t) None None),
       gc_contextWindow = Some (pure_gate contextWindow_allow),
       gc_ratePrecheck = Some (Gate (ratePrecheck_allow t) None None),
       gc_upstreamQuota = Some (pure_gate (upstreamQuota_allow t)) \<rparr>"

definition or_gate :: "'d gate option \<Rightarrow> 'd gate option \<Rightarrow> 'd gate option" where
  "or_gate g d = (case g of None \<Rightarrow> d | Some x \<Rightarrow> Some x)"

definition withDefaults :: "instant \<Rightarrow> 'd gate_chain \<Rightarrow> 'd gate_chain" where
  "withDefaults t c =
     (let d = defaultGateChain t
      in \<lparr> gc_tenant = or_gate (gc_tenant c) (gc_tenant d), gc_lifecycle = or_gate (gc_lifecycle c) (gc_lifecycle d),
           gc_channel = or_gate (gc_channel c) (gc_channel d), gc_protocol = or_gate (gc_protocol c) (gc_protocol d),
           gc_model = or_gate (gc_model c) (gc_model d), gc_capability = or_gate (gc_capability c) (gc_capability d),
           gc_credential = or_gate (gc_credential c) (gc_credential d), gc_health = or_gate (gc_health c) (gc_health d),
           gc_groupPolicy = or_gate (gc_groupPolicy c) (gc_groupPolicy d),
           gc_exclusion = or_gate (gc_exclusion c) (gc_exclusion d), gc_pinned = or_gate (gc_pinned c) (gc_pinned d),
           gc_windowCost = or_gate (gc_windowCost c) (gc_windowCost d),
           gc_sessionCount = or_gate (gc_sessionCount c) (gc_sessionCount d),
           gc_contextWindow = or_gate (gc_contextWindow c) (gc_contextWindow d),
           gc_ratePrecheck = or_gate (gc_ratePrecheck c) (gc_ratePrecheck d),
           gc_upstreamQuota = or_gate (gc_upstreamQuota c) (gc_upstreamQuota d) \<rparr>)"

definition ordered :: "instant \<Rightarrow> 'd gate_chain \<Rightarrow> ('d gate \<times> gate_failure) list" where
  "ordered t chain =
     (let c = withDefaults t chain
      in [(the (gc_tenant c), GateFailureTenantFilter), (the (gc_lifecycle c), GateFailureLifecycle),
          (the (gc_channel c), GateFailureChannel), (the (gc_protocol c), GateFailureProtocolFamily),
          (the (gc_model c), GateFailureModel), (the (gc_capability c), GateFailureCapability),
          (the (gc_credential c), GateFailureCredential), (the (gc_health c), GateFailureHealth),
          (the (gc_groupPolicy c), GateFailureGroupPolicy), (the (gc_exclusion c), GateFailurePerRequestExclusion),
          (the (gc_pinned c), GateFailurePinnedAccount), (the (gc_windowCost c), GateFailureWindowCost),
          (the (gc_sessionCount c), GateFailureSessionCount), (the (gc_contextWindow c), GateFailureContextWindow),
          (the (gc_ratePrecheck c), GateFailureRatePrecheck), (the (gc_upstreamQuota c), GateFailureUpstreamQuota)])"

definition named_reason :: "gate_failure \<Rightarrow> gate_failure option \<Rightarrow> gate_failure option" where
  "named_reason fallback r = (case r of None \<Rightarrow> Some fallback | Some x \<Rightarrow> Some x)"

fun chain_loop ::
  "('d gate \<times> gate_failure) list \<Rightarrow> account option \<Rightarrow> sel_request \<Rightarrow> 'd pool_world \<Rightarrow> gate_answer \<times> 'd pool_world" where
  "chain_loop [] a q w = (gate_ok, w)"
| "chain_loop ((g, fallback) # gs) a q w =
     (let ((ok, reason, err), w) = gate_allow g a q w
      in if err \<noteq> None \<or> \<not> ok then ((ok, named_reason fallback reason, err), w) else chain_loop gs a q w)"

definition chain_allow ::
  "instant \<Rightarrow> 'd gate_chain \<Rightarrow> account option \<Rightarrow> sel_request \<Rightarrow> 'd pool_world \<Rightarrow> gate_answer \<times> 'd pool_world" where
  "chain_allow t c = chain_loop (ordered t c)"

definition prepareGate :: "'d gate option \<Rightarrow> sel_request \<Rightarrow> 'd pool_world \<Rightarrow> 'd gate option \<times> 'd pool_world" where
  "prepareGate g q w =
     (case g of
        None \<Rightarrow> (None, w)
      | Some x \<Rightarrow> (case gate_prepare x of None \<Rightarrow> (Some x, w) | Some p \<Rightarrow> let (y, w) = p q w in (Some y, w)))"

definition forSelection :: "instant \<Rightarrow> 'd gate_chain \<Rightarrow> sel_request \<Rightarrow> 'd pool_world \<Rightarrow> 'd gate_chain \<times> 'd pool_world" where
  "forSelection t chain q w =
     (let c = withDefaults t chain;
          (tenant, w) = prepareGate (gc_tenant c) q w;
          (lifecycle, w) = prepareGate (gc_lifecycle c) q w;
          (channel, w) = prepareGate (gc_channel c) q w;
          (model, w) = prepareGate (gc_model c) q w;
          (capability, w) = prepareGate (gc_capability c) q w;
          (credential, w) = prepareGate (gc_credential c) q w;
          (health, w) = prepareGate (gc_health c) q w;
          (group, w) = prepareGate (gc_groupPolicy c) q w;
          (exclusion, w) = prepareGate (gc_exclusion c) q w;
          (pinned, w) = prepareGate (gc_pinned c) q w;
          (cost, w) = prepareGate (gc_windowCost c) q w;
          (session, w) = prepareGate (gc_sessionCount c) q w;
          (context, w) = prepareGate (gc_contextWindow c) q w;
          (rate, w) = prepareGate (gc_ratePrecheck c) q w;
          (quota, w) = prepareGate (gc_upstreamQuota c) q w
      in (\<lparr> gc_tenant = tenant, gc_lifecycle = lifecycle, gc_channel = channel, gc_protocol = gc_protocol c,
            gc_model = model, gc_capability = capability, gc_credential = credential, gc_health = health,
            gc_groupPolicy = group, gc_exclusion = exclusion, gc_pinned = pinned, gc_windowCost = cost,
            gc_sessionCount = session, gc_contextWindow = context, gc_ratePrecheck = rate, gc_upstreamQuota = quota \<rparr>, w))"

end
