(* ===== verification/Health_Gate.thy ===== *)
theory Health_Gate
  imports Channel_Health Pool_Gates "HOL-Library.Word"
begin

text \<open>
  The health gate of account selection (backend/internal/channelhealth/failover.go): the auth lane
  and the health record of an account decide whether a request may use it, and a recovering account
  takes the share of the traffic its ramp stage names, chosen by a hash of the request.
\<close>

unbundle bit_operations_syntax

section \<open>Ramp admission\<close>

text \<open>FNV-1a over the bytes of a string (\<open>hash/fnv\<close>, \<open>New32a\<close>).\<close>

definition fnv32a :: "string \<Rightarrow> 32 word" where
  "fnv32a s = foldl (\<lambda>h c. (h XOR of_nat (of_char c)) * 16777619) 2166136261 s"

definition admitRamp :: "string \<Rightarrow> int \<Rightarrow> bool" where
  "admitRamp key pct =
     (if 100 \<le> pct then True else if pct \<le> 0 then False else uint (fnv32a key) mod 100 < pct)"

definition rampAdmissionKey :: "sel_request \<Rightarrow> int \<Rightarrow> string" where
  "rampAdmissionKey q a =
     (let basis = ''session:'' @ sr_sessionHash q;
          basis = (if sr_sessionHash q = [] then ''continuation:'' @ sr_continuation q else basis);
          basis = (if sr_sessionHash q = [] \<and> sr_continuation q = [] then ''request:'' @ sr_requestID q else basis);
          basis = (if sr_sessionHash q = [] \<and> sr_continuation q = [] \<and> sr_requestID q = [] \<and> 0 < sr_claim q
                   then ''claim:'' @ int_string (sr_claim q) else basis);
          basis = (if sr_sessionHash q = [] \<and> sr_continuation q = [] \<and> sr_requestID q = [] \<and> sr_claim q \<le> 0
                   then ''model:'' @ sr_model q else basis)
      in int_string (sr_tenant q) @ '':'' @ int_string a @ '':'' @ basis)"

definition isEligible :: "ch_record \<Rightarrow> string \<Rightarrow> bool" where
  "isEligible r key =
     (case hr_state r of
        StateActive \<Rightarrow> True
      | StateDegraded \<Rightarrow> True
      | StateRamping \<Rightarrow> admitRamp key (hr_stage r)
      | StateCoolingDown \<Rightarrow> False
      | StateDisabled \<Rightarrow> False
      | StateManualPaused \<Rightarrow> False)"

section \<open>The gate\<close>

definition state_text :: "health_state \<Rightarrow> string" where
  "state_text s =
     (case s of
        StateActive \<Rightarrow> ''active'' | StateDegraded \<Rightarrow> ''degraded'' | StateCoolingDown \<Rightarrow> ''cooling_down''
      | StateRamping \<Rightarrow> ''ramping'' | StateDisabled \<Rightarrow> ''disabled'' | StateManualPaused \<Rightarrow> ''manual_paused'')"

text \<open>The store answers with the latest record of an account, with none, or with an error.\<close>

record 'd pool_gate =
  pg_store :: "(int \<Rightarrow> int \<Rightarrow> 'd \<Rightarrow> select_error + ch_record option) option"
  pg_lane :: "('d \<Rightarrow> lane) option"

definition lane_blocks :: "'d pool_gate \<Rightarrow> account \<Rightarrow> instant \<Rightarrow> 'd \<Rightarrow> bool" where
  "lane_blocks g x t s =
     (case pg_lane g of
        None \<Rightarrow> False
      | Some lane \<Rightarrow>
          let (ok, hard) = eligible (as_id x) t (lane s)
          in if \<not> ok then \<not> (as_disableCooling x \<and> \<not> hard) else False)"

definition poolGate_allow :: "'d pool_gate \<Rightarrow> instant \<Rightarrow> account option \<Rightarrow> sel_request \<Rightarrow> 'd \<Rightarrow> gate_answer" where
  "poolGate_allow g t a q s =
     (case a of
        None \<Rightarrow> gate_ok
      | Some x \<Rightarrow>
          if lane_blocks g x t s then gate_refuse GateFailureAuthCooldown
          else case pg_store g of
                 None \<Rightarrow> gate_ok
               | Some latest \<Rightarrow>
                   (case latest (sr_tenant q) (as_id x) s of
                      Inl e \<Rightarrow> (False, Some GateFailureHealth, Some e)
                    | Inr None \<Rightarrow> gate_ok
                    | Inr (Some r) \<Rightarrow>
                        if as_disableCooling x \<and> hr_state r \<in> {StateCoolingDown, StateRamping} then gate_ok
                        else if \<not> isEligible r (rampAdmissionKey q (as_id x)) then gate_refuse GateFailureHealth
                        else gate_ok))"

definition poolGate_status ::
  "'d pool_gate \<Rightarrow> account option \<Rightarrow> sel_request \<Rightarrow> 'd \<Rightarrow> select_error + health_status" where
  "poolGate_status g a q s =
     (case (pg_store g, a) of
        (Some latest, Some x) \<Rightarrow>
          (case latest (sr_tenant q) (as_id x) s of
             Inl e \<Rightarrow> Inl e
           | Inr None \<Rightarrow> Inr \<lparr> hs_state = ''active'', hs_rampPct = 0 \<rparr>
           | Inr (Some r) \<Rightarrow> Inr \<lparr> hs_state = state_text (hr_state r), hs_rampPct = hr_stage r \<rparr>)
      | _ \<Rightarrow> Inr \<lparr> hs_state = ''active'', hs_rampPct = 0 \<rparr>)"

definition poolGate :: "'d pool_gate \<Rightarrow> instant \<Rightarrow> 'd gate" where
  "poolGate g t =
     Gate (\<lambda>a q w. (poolGate_allow g t a q (pw_rest w), w)) (Some (\<lambda>a q w. poolGate_status g a q (pw_rest w))) None"

text \<open>\<open>NewServicePoolGate\<close>: the gate over the records and the lane of a health service.\<close>

definition servicePoolGate :: "'p ch_service \<Rightarrow> string list \<Rightarrow> 'p ch_world pool_gate" where
  "servicePoolGate sv keys =
     \<lparr> pg_store = Some (\<lambda>tenant a w. Inr (latestByProviderAccount keys tenant a w)),
       pg_lane = (case sv_lane sv of None \<Rightarrow> None | Some _ \<Rightarrow> Some (\<lambda>w. fst (hw_lane w))) \<rparr>"

section \<open>Properties\<close>

lemma lane_blocks_hard:
  "pg_lane g = Some lane \<Longrightarrow> as_id x \<noteq> 0 \<Longrightarrow> lane s (as_id x) = Some e \<Longrightarrow> ae_hard e \<Longrightarrow> lane_blocks g x t s"
  by (simp add: lane_blocks_def eligible_def)

text \<open>
  An account whose credential the lane has disabled for good, or whose record is disabled or
  paused, is never let through, not even with the escape hatch \<open>disable_cooling\<close>.
\<close>

theorem gate_hard_stops:
  assumes "(\<exists>lane e. pg_lane g = Some lane \<and> as_id x \<noteq> 0 \<and> lane s (as_id x) = Some e \<and> ae_hard e) \<or>
    (\<exists>latest r. pg_store g = Some latest \<and> latest (sr_tenant q) (as_id x) s = Inr (Some r) \<and>
       hr_state r \<in> {StateDisabled, StateManualPaused})"
  shows "poolGate_allow g t (Some x) q s \<in> {gate_refuse GateFailureAuthCooldown, gate_refuse GateFailureHealth}"
  using assms
proof (elim disjE exE conjE)
  fix lane e
  assume "pg_lane g = Some lane" "as_id x \<noteq> 0" "lane s (as_id x) = Some e" "ae_hard e"
  then show ?thesis by (simp add: poolGate_allow_def lane_blocks_hard)
next
  fix latest r
  assume "pg_store g = Some latest" "latest (sr_tenant q) (as_id x) s = Inr (Some r)" "hr_state r \<in> {StateDisabled, StateManualPaused}"
  then show ?thesis by (auto simp: poolGate_allow_def isEligible_def)
qed

lemma gate_hard_stops_witness:
  "let x = (ex_account 7)\<lparr>as_disableCooling := True\<rparr>;
       lane = Map.empty(7 \<mapsto> (new_lane_entry 7)\<lparr>ae_hard := True\<rparr>);
       g = \<lparr> pg_store = None, pg_lane = Some (\<lambda>s. s) \<rparr>
   in poolGate_allow g 0 (Some x) ex_request lane \<in> {gate_refuse GateFailureAuthCooldown, gate_refuse GateFailureHealth} \<and>
      poolGate_allow g 0 (Some x) ex_request Map.empty = gate_ok"
proof -
  let ?x = "(ex_account 7)\<lparr>as_disableCooling := True\<rparr>"
  let ?g = "\<lparr> pg_store = None, pg_lane = Some (\<lambda>s. s) \<rparr>"
  let ?lane = "Map.empty(7 \<mapsto> (new_lane_entry 7)\<lparr>ae_hard := True\<rparr>)"
  have "poolGate_allow ?g 0 (Some ?x) ex_request ?lane \<in> {gate_refuse GateFailureAuthCooldown, gate_refuse GateFailureHealth}"
    by (rule gate_hard_stops) (simp add: ex_account_def)
  moreover have "poolGate_allow ?g 0 (Some ?x) ex_request Map.empty = gate_ok"
    by (simp add: poolGate_allow_def lane_blocks_def eligible_def)
  ultimately show ?thesis by (simp add: Let_def)
qed

text \<open>A signal that breaches the failure rate of the server-error window.\<close>

definition breaches_5xx :: "'p ch_service \<Rightarrow> ch_record \<Rightarrow> ch_signal \<Rightarrow> instant \<Rightarrow> bool" where
  "breaches_5xx sv r sig now \<longleftrightarrow>
     sg_class sig = SignalUpstream5xx \<and> ds_state (rateLimitDecision sv r sig now) = None \<and>
     (let w = windowFor (hr_window r) (po_5xxWindow (sv_policy sv)) now; attempts = ws_total w - ws_local5xx w
      in po_minSamples (sv_policy sv) \<le> attempts \<and> po_5xxPct (sv_policy sv) < health_rate (ws_5xx w) attempts)"


text \<open>A channel banned a second ago, with ten failing calls in flight.\<close>

definition banned_record :: ch_record where
  "banned_record =
     (newRecord ex_key defaultPolicy 0)
       \<lparr> hr_state := StateDisabled,
         hr_window := summarizeSamples (replicate 10
           \<lparr> sa_at = 0, sa_class = SignalUpstream5xx, sa_status = 502, sa_latency = 0 \<rparr>) \<rparr>"


text \<open>
  A request a ramping channel takes at one stage it takes at every later stage, up to the
  return to full service.
\<close>

theorem ramp_admission_monotone:
  assumes "hr_state r = StateRamping" and "isEligible r key"
  shows "isEligible (next_stage p now r) key"
proof -
  have "hr_stage r < 100 \<Longrightarrow> 0 < hr_stage r" using assms by (auto simp: isEligible_def admitRamp_def split: if_splits)
  with assms show ?thesis by (auto simp: next_stage_def isEligible_def admitRamp_def Let_def split: if_splits)
qed

lemma ramp_admission_monotone_witness:
  "let r = (newRecord ex_key defaultPolicy 0)\<lparr> hr_state := StateRamping, hr_stage := 10 \<rparr>
   in isEligible (next_stage defaultPolicy 5 r) ''1:7:session:s3'' \<and> hr_stage (next_stage defaultPolicy 5 r) = 50"
proof -
  let ?r = "(newRecord ex_key defaultPolicy 0)\<lparr> hr_state := StateRamping, hr_stage := 10 \<rparr>"
  have "isEligible ?r ''1:7:session:s3''" by code_simp
  then have "isEligible (next_stage defaultPolicy 5 ?r) ''1:7:session:s3''"
    by (intro ramp_admission_monotone) simp_all
  then show ?thesis by (simp add: Let_def next_stage_def)
qed

end
