(* ===== verification/Selector.thy ===== *)
theory Selector
  imports Pool_Gates Router
begin

text \<open>
  The default account selector (backend/internal/pool/router: default_selector.go,
  routing_reason.go, adaptive_score.go). The account list, the routing policy, the sticky bindings,
  the concurrency slots and the billing claims live in the database: they are functions of the
  selector over the unknown rest \<open>'d\<close> of the world. The clock is read once per selection. The routing
  reason is kept as a record; its JSON text is not modelled.
\<close>

section \<open>Adaptive score\<close>

definition clamp01 :: "real \<Rightarrow> real" where
  "clamp01 v = (if v \<le> 0 then 0 else if 1 \<le> v then 1 else v)"

definition quota_contributions :: "account \<Rightarrow> instant \<Rightarrow> (string \<times> real) list" where
  "quota_contributions a t =
     (if freshAt (as_quotaAt a) adaptiveQuotaFreshness t \<and> as_quotaState a = ''available'' \<and> as_quotaKnown a
      then (''quota_headroom'', clamp01 (of_rat (as_quotaRemaining a) / 100) * 0.20)
           # (if as_quotaRemaining a < 20 \<and> as_quotaResetsAt a \<noteq> zero_time
                 \<and> 0 < as_quotaResetsAt a - t \<and> as_quotaResetsAt a - t \<le> hour
              then [(''near_reset_recovery'', (1 - of_int (as_quotaResetsAt a - t) / of_int hour) * 0.05)] else [])
      else [])"

definition adaptiveContributions :: "account \<Rightarrow> instant \<Rightarrow> (string \<times> real) list" where
  "adaptiveContributions a t =
     (''capacity_headroom'', clamp01 (1 - of_rat (as_loadRate a)) * 0.30)
     # (case as_costRatio a of
          None \<Rightarrow> []
        | Some c \<Rightarrow> if 0 < c then [(''upstream_cost_efficiency'', max (-0.05) (min 0.05 (-0.025 * log 2 (of_rat c))))] else [])
     @ (if freshAt (as_signalAt a) adaptiveSignalFreshness t \<and> 0 < as_sampleCount a
        then (''reliability'', clamp01 (1 - of_rat (as_errorEWMA a)) * 0.35)
             # (if 0 < as_latencyEWMA a
                then [(''response_speed'', clamp01 (1 - of_rat (as_latencyEWMA a) / 30000) * 0.10)] else [])
        else [])
     @ quota_contributions a t"

definition adaptiveScore :: "account \<Rightarrow> instant \<Rightarrow> real" where
  "adaptiveScore a t = sum_list (map snd (adaptiveContributions a t))"

definition stickyDegradationReason :: "account option \<Rightarrow> instant \<Rightarrow> string" where
  "stickyDegradationReason a t =
     (case a of
        None \<Rightarrow> ''bound_account_missing''
      | Some x \<Rightarrow>
          if freshAt (as_quotaAt x) adaptiveQuotaFreshness t \<and> as_quotaState x = ''exhausted''
          then ''upstream_quota_exhausted''
          else if freshAt (as_signalAt x) adaptiveSignalFreshness t \<and> 5 \<le> as_sampleCount x \<and> 65 / 100 \<le> as_errorEWMA x
          then ''recent_error_rate_high''
          else [])"

section \<open>Routing reason\<close>

datatype routing_layer =
  RoutingLayerRoutingAffinity | RoutingLayerStickyWithinRoute | RoutingLayerStickyStandalone
| RoutingLayerFresh | RoutingLayerFallbackQueue

record routing_reason =
  rr_layer :: "routing_layer option"
  rr_affinity :: string
  rr_stickyBreak :: "string option"
  rr_counts :: "(gate_failure \<times> int) list"
  rr_poolGroup :: int
  rr_account :: int
  rr_scoringVersion :: string
  rr_contributions :: "(string \<times> real) list"
  rr_queued :: bool
  rr_attempt :: int
  rr_exclusions :: "(int \<times> gate_failure) list"
  rr_claim :: int

definition affinityKeyClass :: "sel_request \<Rightarrow> string" where
  "affinityKeyClass q =
     (if sr_continuation q \<noteq> [] then ''continuation_marker''
      else if sr_sessionHash q \<noteq> [] then ''session_id'' else ''none'')"

definition newRoutingReason :: "sel_request \<Rightarrow> routing_reason" where
  "newRoutingReason q =
     \<lparr> rr_layer = None, rr_affinity = affinityKeyClass q, rr_stickyBreak = None, rr_counts = [],
       rr_poolGroup = sr_poolGroup q, rr_account = 0, rr_scoringVersion = ''1.0'', rr_contributions = [],
       rr_queued = False, rr_attempt = sr_attemptSeq q, rr_exclusions = [], rr_claim = sr_claim q \<rparr>"

definition reason_layer :: "routing_layer \<Rightarrow> routing_reason \<Rightarrow> routing_reason" where
  "reason_layer l r = r\<lparr> rr_layer := Some l \<rparr>"

definition reason_account :: "int \<Rightarrow> routing_reason \<Rightarrow> routing_reason" where
  "reason_account i r = r\<lparr> rr_account := i \<rparr>"

definition reason_scoring :: "string \<Rightarrow> (string \<times> real) list \<Rightarrow> routing_reason \<Rightarrow> routing_reason" where
  "reason_scoring v cs r =
     (if v \<noteq> [] then r\<lparr> rr_scoringVersion := v \<rparr> else r)\<lparr> rr_contributions := cs \<rparr>"

definition stickyBreak :: "string \<Rightarrow> routing_reason \<Rightarrow> routing_reason" where
  "stickyBreak code r = (if code = [] \<or> rr_stickyBreak r \<noteq> None then r else r\<lparr> rr_stickyBreak := Some code \<rparr>)"

definition count_of :: "(gate_failure \<times> int) list \<Rightarrow> gate_failure \<Rightarrow> int" where
  "count_of m g = (case map_of m g of None \<Rightarrow> 0 | Some n \<Rightarrow> n)"

definition gateFailure :: "int \<Rightarrow> gate_failure option \<Rightarrow> routing_reason \<Rightarrow> routing_reason" where
  "gateFailure i why r =
     (case why of
        None \<Rightarrow> r
      | Some g \<Rightarrow>
          r\<lparr> rr_counts := AList.update g (count_of (rr_counts r) g + 1) (rr_counts r),
             rr_exclusions := rr_exclusions r @ [(i, g)] \<rparr>)"

definition reason_wait :: "routing_reason \<Rightarrow> routing_reason" where
  "reason_wait r = r\<lparr> rr_layer := Some RoutingLayerFallbackQueue, rr_queued := True \<rparr>"

definition onlyFailure :: "gate_failure \<Rightarrow> int \<Rightarrow> routing_reason \<Rightarrow> bool" where
  "onlyFailure g n r =
     (if n \<le> 0 then False else if length (rr_counts r) \<noteq> 1 then False else count_of (rr_counts r) g = n)"

definition capacity_reasons :: "gate_failure set" where
  "capacity_reasons =
     {GateFailureHealth, GateFailureAuthCooldown, GateFailureModelCooldown, GateFailureWindowCost,
      GateFailureSessionCount, GateFailureRatePrecheck, GateFailureSlotCapacity, GateFailureScoredBand,
      GateFailureUpstreamQuota}"

definition exhaustionFamily :: "(gate_failure \<times> int) list \<Rightarrow> exhaustion_family" where
  "exhaustionFamily reasons =
     (if reasons = [] then ExhaustionFamilyUnknown
      else (let present = filter (\<lambda>(g, n). \<not> n \<le> 0) reasons;
                capacity = list_ex (\<lambda>(g, n). g \<in> capacity_reasons) present;
                window = list_ex (\<lambda>(g, n). g \<notin> capacity_reasons \<and> g = GateFailureContextWindow) present;
                static = list_ex (\<lambda>(g, n). g \<notin> capacity_reasons \<and> g \<noteq> GateFailureContextWindow) present;
                groups = length (filter (\<lambda>b. b) [capacity, window, static])
            in if groups \<noteq> 1 then ExhaustionFamilyMixed
               else if capacity then ExhaustionFamilyCapacity
               else if window then ExhaustionFamilyContextWindow
               else if static then ExhaustionFamilyStaticMismatch
               else ExhaustionFamilyUnknown))"

definition exhaustion_of :: "routing_reason \<Rightarrow> exhaustion" where
  "exhaustion_of r =
     (let reasons = filter (\<lambda>(g, n). 0 < n) (rr_counts r)
      in \<lparr> xh_family = exhaustionFamily reasons, xh_reasons = reasons \<rparr>)"

section \<open>Ranking\<close>

definition accountHealthRank :: "account \<Rightarrow> int" where
  "accountHealthRank a =
     (if as_healthState a \<in> {[], ''healthy'', ''active''} then 0
      else if as_healthState a = ''degraded'' then 1
      else if as_healthState a = ''ramping'' then 2
      else 3)"

definition scoring :: "routing_policy option \<Rightarrow> bool" where
  "scoring pol \<longleftrightarrow> (case pol of None \<Rightarrow> False | Some p \<Rightarrow> rp_operatorScoring p)"

definition mode_is :: "selection_mode \<Rightarrow> routing_policy option \<Rightarrow> bool" where
  "mode_is m pol \<longleftrightarrow> (case pol of None \<Rightarrow> False | Some p \<Rightarrow> rp_mode p = m)"

definition fresh_less :: "routing_policy option \<Rightarrow> instant \<Rightarrow> account \<Rightarrow> account \<Rightarrow> bool" where
  "fresh_less pol t a b =
     (if accountHealthRank a \<noteq> accountHealthRank b then accountHealthRank a < accountHealthRank b
      else if as_priority a \<noteq> as_priority b then as_priority a < as_priority b
      else if mode_is SelectionModeFillFirst pol then as_id a < as_id b
      else if scoring pol \<and> adaptiveScore a t \<noteq> adaptiveScore b t then adaptiveScore b t < adaptiveScore a t
      else if as_loadRate a \<noteq> as_loadRate b then as_loadRate a < as_loadRate b
      else as_lastUsedAt a < as_lastUsedAt b)"

text \<open>The \<open>k\<close>-th draw of \<open>Int63n n\<close> is \<open>draw k mod n\<close>: any sequence of draws has this form.\<close>

definition int63n :: "(nat \<Rightarrow> int) \<Rightarrow> draws" where
  "int63n draw k n = draw k mod n"

definition swap_at :: "nat \<Rightarrow> nat \<Rightarrow> 'a list \<Rightarrow> 'a list" where
  "swap_at i j xs = xs[i := xs ! j, j := xs ! i]"

text \<open>\<open>Rand.Shuffle\<close> on the first \<open>i + 1\<close> elements.\<close>

fun shuffle_first :: "(nat \<Rightarrow> int) \<Rightarrow> nat \<Rightarrow> nat \<Rightarrow> 'a list \<Rightarrow> 'a list \<times> nat" where
  "shuffle_first draw k 0 xs = (xs, k)"
| "shuffle_first draw k (Suc i) xs =
     shuffle_first draw (Suc k) i (swap_at (Suc i) (nat (int63n draw k (int i + 2))) xs)"

definition account_weight :: "account \<Rightarrow> int" where
  "account_weight a = (if as_weight a \<le> 0 then 1 else as_weight a)"

text \<open>\<open>math.Round\<close>: half away from zero.\<close>

definition go_round :: "real \<Rightarrow> int" where
  "go_round x = (if x < 0 then - \<lfloor>- x + 1 / 2\<rfloor> else \<lfloor>x + 1 / 2\<rfloor>)"

definition accountSelectionWeight :: "account \<Rightarrow> routing_policy option \<Rightarrow> instant \<Rightarrow> int" where
  "accountSelectionWeight a pol t =
     (let base = account_weight a
      in if \<not> scoring pol then base
         else (let m = go_round ((0.25 + adaptiveScore a t) * 1000);
                   m = (if m < 1 then 1 else m)
               in i64 (base * m)))"

definition weightedReservoirIndex ::
  "(nat \<Rightarrow> int) \<Rightarrow> nat \<Rightarrow> account list \<Rightarrow> nat \<Rightarrow> routing_policy option \<Rightarrow> instant \<Rightarrow> nat \<times> nat" where
  "weightedReservoirIndex draw d accounts k pol t =
     select_index (int63n draw) d 0 0 0 (map (\<lambda>a. accountSelectionWeight a pol t) (take k accounts))"

definition band :: "(account \<Rightarrow> bool) \<Rightarrow> account list \<Rightarrow> nat" where
  "band same accounts = 1 + length (takeWhile same (tl accounts))"

definition topK :: "routing_policy option \<Rightarrow> account list \<Rightarrow> nat" where
  "topK pol accounts =
     (case accounts of
        [] \<Rightarrow> 0
      | first # _ \<Rightarrow>
          let same_health = (\<lambda>a. accountHealthRank a = accountHealthRank first);
              default = band (\<lambda>a. same_health a \<and> as_priority a = as_priority first \<and> as_loadRate a = as_loadRate first
                                  \<and> as_lastUsedAt a = as_lastUsedAt first) accounts
          in (case pol of
                None \<Rightarrow> default
              | Some p \<Rightarrow>
                  if rp_mode p = SelectionModePriorityWeighted
                  then (let k = band (\<lambda>a. same_health a \<and> as_priority a = as_priority first) accounts
                        in if 0 < rp_topK p \<and> rp_topK p < int k then nat (rp_topK p) else k)
                  else if (rp_broadTopK p \<or> rp_operatorScoring p) \<and> 1 < rp_topK p
                  then min (nat (rp_topK p)) (band same_health accounts)
                  else default))"

definition rankFresh ::
  "(nat \<Rightarrow> int) \<Rightarrow> nat \<Rightarrow> account list \<Rightarrow> routing_policy option \<Rightarrow> instant \<Rightarrow> account list \<times> nat" where
  "rankFresh draw d accounts pol t =
     (let out = stable_sort (fresh_less pol t) accounts
      in if mode_is SelectionModeFillFirst pol then (out, d)
         else (let k = topK pol out
               in if 1 < k
                  then (if mode_is SelectionModePriorityWeighted pol
                        then (let (chosen, d) = weightedReservoirIndex draw d out k pol t
                              in (if 0 < chosen then swap_at 0 chosen out else out, d))
                        else shuffle_first draw d (k - 1) out)
                  else (out, d)))"

definition deprioritizeBrokenSticky :: "account list \<Rightarrow> int \<Rightarrow> bool \<Rightarrow> account list" where
  "deprioritizeBrokenSticky accounts bound allowed =
     (if allowed \<or> bound = 0 \<or> length accounts < 2 then accounts
      else (let before = takeWhile (\<lambda>a. as_id a \<noteq> bound) accounts; rest = dropWhile (\<lambda>a. as_id a \<noteq> bound) accounts
            in case rest of
                 [] \<Rightarrow> accounts
               | a # after \<Rightarrow> before @ after @ [a]))"

section \<open>The selector\<close>

text \<open>The answer of \<open>Acquire\<close>: an error, no result, or a slot with its token.\<close>

datatype slot_answer = SlotDenied select_error | SlotNothing | SlotGranted nat

record 'd sticky_store =
  st_lookup :: "sel_request \<Rightarrow> 'd \<Rightarrow> select_error + int option"
  st_upsert :: "(int \<Rightarrow> string \<Rightarrow> string \<Rightarrow> int \<Rightarrow> 'd \<Rightarrow> 'd) option"

record 'd selector =
  sl_accounts :: "(sel_request \<Rightarrow> 'd \<Rightarrow> select_error + account option list) option"
  sl_policies :: "(sel_request \<Rightarrow> 'd \<Rightarrow> select_error + routing_policy option) option"
  sl_sticky :: "'d sticky_store option"
  sl_gates :: "'d gate_chain"
  sl_acquire :: "account \<Rightarrow> sel_request \<Rightarrow> 'd \<Rightarrow> slot_answer \<times> 'd"
  sl_release :: "nat \<Rightarrow> 'd \<Rightarrow> 'd"
  sl_claims :: "(int \<Rightarrow> int \<Rightarrow> int \<Rightarrow> nat \<Rightarrow> 'd \<Rightarrow> select_error option \<times> 'd) option"
  sl_newToken :: "'d \<Rightarrow> nat \<times> 'd"
  sl_draw :: "nat \<Rightarrow> int"

text \<open>\<open>rs_slot\<close> is the token of the slot that \<open>Release\<close> gives back, when there is one.\<close>

record selection_result =
  rs_account :: int
  rs_token :: nat
  rs_slot :: "nat option"
  rs_wait :: "wait_plan option"
  rs_reason :: routing_reason
  rs_sticky :: sticky_state

datatype layer_outcome = LayerNext | LayerError select_error | LayerResult selection_result

fun errors_is :: "select_error \<Rightarrow> pool_sentinel \<Rightarrow> bool" where
  "errors_is (Sentinel e) x \<longleftrightarrow> e = x"
| "errors_is (NoCapacityError e _ _) x \<longleftrightarrow> e = x"
| "errors_is (OtherError _) x \<longleftrightarrow> False"

definition isStickyRoutingLayer :: "routing_layer \<Rightarrow> bool" where
  "isStickyRoutingLayer l \<longleftrightarrow> l = RoutingLayerStickyStandalone \<or> l = RoutingLayerStickyWithinRoute"

definition stickyWaitPlan :: "account \<Rightarrow> routing_policy option \<Rightarrow> wait_plan option" where
  "stickyWaitPlan a pol =
     (case pol of
        None \<Rightarrow> None
      | Some p \<Rightarrow>
          if rp_stickyTimeoutMS p \<le> 0 \<and> rp_stickyMaxWaiting p \<le> 0 then None
          else Some \<lparr> wp_account = as_id a, wp_maxConcurrency = as_maxConcurrency a,
                      wp_timeoutMS = rp_stickyTimeoutMS p, wp_maxWaiting = rp_stickyMaxWaiting p \<rparr>)"

definition fallbackPlan :: "account list \<Rightarrow> routing_policy option \<Rightarrow> wait_plan option" where
  "fallbackPlan candidates pol =
     (case candidates of
        [] \<Rightarrow> None
      | a # _ \<Rightarrow>
          let timeout = (case pol of None \<Rightarrow> as_waitTimeoutMS a
                         | Some p \<Rightarrow> if 0 < rp_fallbackTimeoutMS p then rp_fallbackTimeoutMS p else as_waitTimeoutMS a);
              waiting = (case pol of None \<Rightarrow> as_maxWaiting a
                         | Some p \<Rightarrow> if 0 < rp_fallbackMaxWaiting p then rp_fallbackMaxWaiting p else as_maxWaiting a)
          in if timeout \<le> 0 \<and> waiting \<le> 0 then None
             else Some \<lparr> wp_account = as_id a, wp_maxConcurrency = as_maxConcurrency a,
                         wp_timeoutMS = timeout, wp_maxWaiting = waiting \<rparr>)"

definition waiting_result :: "wait_plan \<Rightarrow> routing_reason \<Rightarrow> selection_result" where
  "waiting_result wplan r =
     \<lparr> rs_account = 0, rs_token = 0, rs_slot = None, rs_wait = Some wplan, rs_reason = r, rs_sticky = StickyStateNone \<rparr>"

definition account_result :: "account \<Rightarrow> nat \<Rightarrow> nat option \<Rightarrow> routing_reason \<Rightarrow> selection_result" where
  "account_result a token slot r =
     \<lparr> rs_account = as_id a, rs_token = token, rs_slot = slot, rs_wait = None, rs_reason = r, rs_sticky = StickyStateNone \<rparr>"

type_synonym 'd layer_state = "routing_reason \<times> 'd pool_world"

text \<open>A slot is held: write the claim, and give the slot back when that fails.\<close>

definition finish_acquisition ::
  "'d selector \<Rightarrow> sel_request \<Rightarrow> account \<Rightarrow> nat \<Rightarrow> routing_reason \<Rightarrow> 'd pool_world \<Rightarrow> layer_outcome \<times> 'd layer_state" where
  "finish_acquisition s q a token rr w =
     (let granted = reason_account (as_id a) rr
      in if sr_claim q \<noteq> 0
         then (case sl_claims s of
                 None \<Rightarrow>
                   (LayerError (OtherError ''default selector: ClaimID provided but claims writer not configured''),
                    rr, w\<lparr>pw_rest := sl_release s token (pw_rest w)\<rparr>)
               | Some write \<Rightarrow>
                   (case write (sr_tenant q) (sr_claim q) (as_id a) token (pw_rest w) of
                      (Some e, d) \<Rightarrow> (LayerError e, rr, w\<lparr>pw_rest := sl_release s token d\<rparr>)
                    | (None, d) \<Rightarrow> (LayerResult (account_result a token (Some token) granted), granted, w\<lparr>pw_rest := d\<rparr>)))
         else (LayerResult (account_result a token (Some token) granted), granted, w))"

definition acquire_slot ::
  "'d selector \<Rightarrow> sel_request \<Rightarrow> routing_layer \<Rightarrow> routing_policy option \<Rightarrow> account \<Rightarrow> routing_reason \<Rightarrow> 'd pool_world \<Rightarrow>
   layer_outcome \<times> 'd layer_state" where
  "acquire_slot s q layer pol a rr w =
     (let (answer, d) = sl_acquire s a q (pw_rest w);
          w = w\<lparr>pw_rest := d\<rparr>;
          unmanaged = (LayerNext, gateFailure (as_id a) (Some GateFailureSlotManager) rr, w)
      in case answer of
           SlotDenied e \<Rightarrow>
             if errors_is e ErrNoSlotAvailable
             then (let full = gateFailure (as_id a) (Some GateFailureSlotCapacity) rr;
                       skip = (LayerNext, if isStickyRoutingLayer layer then stickyBreak (gate_text GateFailureSlotCapacity) full else full, w)
                   in if isStickyRoutingLayer layer
                      then (case stickyWaitPlan a pol of
                              None \<Rightarrow> skip
                            | Some wplan \<Rightarrow> (LayerResult (waiting_result wplan (reason_wait rr)), reason_wait rr, w))
                      else skip)
             else if errors_is e ErrSlotManagerUnavailable then unmanaged
             else (LayerError e, rr, w)
         | SlotNothing \<Rightarrow> unmanaged
         | SlotGranted token \<Rightarrow> if token = 0 then unmanaged else finish_acquisition s q a token rr w)"

definition try_account ::
  "'d selector \<Rightarrow> instant \<Rightarrow> 'd gate_chain \<Rightarrow> sel_request \<Rightarrow> routing_layer \<Rightarrow> routing_policy option \<Rightarrow> account \<Rightarrow>
   'd layer_state \<Rightarrow> layer_outcome \<times> 'd layer_state" where
  "try_account s t gates q layer pol a st =
     (let (rr, w) = st;
          ((ok, why, err), w) = chain_allow t gates (Some a) q w
      in case err of
           Some e \<Rightarrow> (LayerError e, rr, w)
         | None \<Rightarrow>
             if \<not> ok
             then (let rr = gateFailure (as_id a) why rr
                   in (LayerNext,
                       if isStickyRoutingLayer layer
                       then stickyBreak (case why of None \<Rightarrow> [] | Some g \<Rightarrow> gate_text g) rr else rr, w))
             else
               (let rr = (case pol of
                            None \<Rightarrow> rr
                          | Some p \<Rightarrow> if rp_operatorScoring p
                                      then reason_scoring (rp_scoringVersion p) (adaptiveContributions a t) rr else rr)
                in if sr_claim q = 0 \<and> sr_maxParallel q \<le> 0
                   then (let (token, d) = sl_newToken s (pw_rest w); rr = reason_account (as_id a) rr
                         in (LayerResult (account_result a token None rr), rr, w\<lparr>pw_rest := d\<rparr>))
                   else acquire_slot s q layer pol a rr w))"

fun try_accounts ::
  "'d selector \<Rightarrow> instant \<Rightarrow> 'd gate_chain \<Rightarrow> sel_request \<Rightarrow> routing_layer \<Rightarrow> routing_policy option \<Rightarrow> account list \<Rightarrow>
   'd layer_state \<Rightarrow> layer_outcome \<times> 'd layer_state" where
  "try_accounts s t gates q layer pol [] st = (LayerNext, st)"
| "try_accounts s t gates q layer pol (a # as) st =
     (case try_account s t gates q layer pol a st of
        (LayerNext, st) \<Rightarrow> try_accounts s t gates q layer pol as st
      | (out, st) \<Rightarrow> (out, st))"

definition tryLayer ::
  "'d selector \<Rightarrow> instant \<Rightarrow> 'd gate_chain \<Rightarrow> sel_request \<Rightarrow> routing_layer \<Rightarrow> routing_policy option \<Rightarrow> account list \<Rightarrow>
   'd layer_state \<Rightarrow> layer_outcome \<times> 'd layer_state" where
  "tryLayer s t gates q layer pol as st = try_accounts s t gates q layer pol as (reason_layer layer (fst st), snd st)"

definition trySticky ::
  "'d selector \<Rightarrow> instant \<Rightarrow> 'd gate_chain \<Rightarrow> sel_request \<Rightarrow> routing_layer \<Rightarrow> routing_policy option \<Rightarrow> int \<Rightarrow> bool \<Rightarrow>
   account list \<Rightarrow> 'd layer_state \<Rightarrow> layer_outcome \<times> 'd layer_state" where
  "trySticky s t gates q layer pol bound allowed as st =
     (if bound = 0 \<or> \<not> allowed then (LayerNext, st)
      else case find (\<lambda>a. as_id a = bound) as of
             None \<Rightarrow> (LayerNext, stickyBreak ''bound_account_ineligible'' (fst st), snd st)
           | Some a \<Rightarrow> tryLayer s t gates q layer pol [a] st)"

section \<open>One selection\<close>

definition normalizeAccountSnapshotWeight :: "account \<Rightarrow> account" where
  "normalizeAccountSnapshotWeight a = (if 0 < as_weight a then a else a\<lparr>as_weight := 1\<rparr>)"

text \<open>The health gate names the state that the ranking reads.\<close>

definition with_health_state :: "'d gate_chain \<Rightarrow> sel_request \<Rightarrow> account \<Rightarrow> 'd layer_state \<Rightarrow> account option \<times> routing_reason" where
  "with_health_state gates q a st =
     (case (case gc_health gates of None \<Rightarrow> None | Some g \<Rightarrow> gate_status g) of
        None \<Rightarrow> (Some a, fst st)
      | Some status \<Rightarrow>
          (case status (Some a) q (snd st) of
             Inl e \<Rightarrow> (None, gateFailure (as_id a) (Some GateFailureHealth) (fst st))
           | Inr h \<Rightarrow>
               (Some (if hs_state h \<noteq> [] \<and> hs_state h \<noteq> as_healthState a then a\<lparr>as_healthState := hs_state h\<rparr> else a),
                fst st)))"

fun filter_accounts ::
  "instant \<Rightarrow> 'd gate_chain \<Rightarrow> sel_request \<Rightarrow> account option list \<Rightarrow> 'd layer_state \<Rightarrow>
   (select_error + account list) \<times> 'd layer_state" where
  "filter_accounts t gates q [] st = (Inr [], st)"
| "filter_accounts t gates q (None # as) st = filter_accounts t gates q as st"
| "filter_accounts t gates q (Some x # as) st =
     (let a = normalizeAccountSnapshotWeight x;
          (rr, w) = st;
          ((ok, why, err), w) = chain_allow t gates (Some a) q w
      in case err of
           Some e \<Rightarrow> (Inl e, rr, w)
         | None \<Rightarrow>
             if \<not> ok then filter_accounts t gates q as (gateFailure (as_id a) why rr, w)
             else (case with_health_state gates q a (rr, w) of
                     (None, rr) \<Rightarrow> filter_accounts t gates q as (rr, w)
                   | (Some a, rr) \<Rightarrow>
                       (case filter_accounts t gates q as (rr, w) of
                          (Inl e, st) \<Rightarrow> (Inl e, st)
                        | (Inr out, st) \<Rightarrow> (Inr (a # out), st))))"

definition hasModelRoute :: "routing_policy option \<Rightarrow> string \<Rightarrow> bool" where
  "hasModelRoute pol model \<longleftrightarrow> (case pol of None \<Rightarrow> False | Some p \<Rightarrow> rp_modelAccounts p model \<noteq> [])"

definition modelRoute :: "routing_policy option \<Rightarrow> string \<Rightarrow> account list \<Rightarrow> account list" where
  "modelRoute pol model as =
     (if \<not> hasModelRoute pol model then []
      else filter (\<lambda>a. as_id a \<in> set (rp_modelAccounts (the pol) model)) as)"

definition accountByID :: "account option list \<Rightarrow> int \<Rightarrow> account option" where
  "accountByID as i = (case find (\<lambda>a. a \<noteq> None \<and> as_id (the a) = i) as of None \<Rightarrow> None | Some a \<Rightarrow> a)"

definition account_recovery :: "string \<Rightarrow> instant \<Rightarrow> account \<Rightarrow> instant" where
  "account_recovery key t a =
     (let r = (if t < as_healthUntil a then as_healthUntil a else zero_time)
      in if key = [] then r
         else case as_modelLimits a key of
                None \<Rightarrow> r
              | Some l \<Rightarrow> if t < ml_resetAt l \<and> r < ml_resetAt l then ml_resetAt l else r)"

definition earliestPoolRecovery :: "account option list \<Rightarrow> string \<Rightarrow> instant \<Rightarrow> instant" where
  "earliestPoolRecovery as key t =
     foldl (\<lambda>earliest a.
       case a of
         None \<Rightarrow> earliest
       | Some x \<Rightarrow>
           let r = account_recovery key t x
           in if r = zero_time then earliest
              else if earliest = zero_time \<or> r < earliest then r else earliest) zero_time as"

definition no_capacity :: "pool_sentinel \<Rightarrow> account option list \<Rightarrow> sel_request \<Rightarrow> instant \<Rightarrow> routing_reason \<Rightarrow> select_error" where
  "no_capacity cause as q t rr =
     NoCapacityError cause (earliestPoolRecovery as (modelCooldownKey q) t) (exhaustion_of rr)"

definition with_sticky_state :: "int \<Rightarrow> selection_result \<Rightarrow> selection_result" where
  "with_sticky_state bound r =
     (if rs_account r = 0 \<or> bound = 0 then r
      else r\<lparr>rs_sticky := (if rs_account r = bound then StickyStateHit else StickyStateMiss)\<rparr>)"

definition lookup_sticky :: "'d selector \<Rightarrow> sel_request \<Rightarrow> bool \<Rightarrow> 'd \<Rightarrow> select_error + int" where
  "lookup_sticky s q wanted d =
     (case sl_sticky s of
        None \<Rightarrow> Inr 0
      | Some store \<Rightarrow>
          if \<not> wanted then Inr 0
          else (case st_lookup store q d of Inl e \<Rightarrow> Inl e | Inr None \<Rightarrow> Inr 0 | Inr (Some i) \<Rightarrow> Inr i))"

definition ranked ::
  "'d selector \<Rightarrow> routing_policy option \<Rightarrow> instant \<Rightarrow> int \<Rightarrow> bool \<Rightarrow> account list \<Rightarrow> 'd pool_world \<Rightarrow> account list \<times> 'd pool_world" where
  "ranked s pol t bound allowed as w =
     (let (out, d) = rankFresh (sl_draw s) (pw_draws w) as pol t
      in (deprioritizeBrokenSticky out bound allowed, w\<lparr>pw_draws := d\<rparr>))"

text \<open>The sticky account and the accounts of the model's route, before the fresh layer.\<close>

definition affinity_layers ::
  "'d selector \<Rightarrow> instant \<Rightarrow> 'd gate_chain \<Rightarrow> sel_request \<Rightarrow> routing_policy option \<Rightarrow> int \<Rightarrow> bool \<Rightarrow> account list \<Rightarrow>
   account list \<Rightarrow> 'd layer_state \<Rightarrow> layer_outcome \<times> 'd layer_state" where
  "affinity_layers s t gates q pol bound allowed eligible routed st =
     (if routed \<noteq> []
      then (case trySticky s t gates q RoutingLayerStickyWithinRoute pol bound allowed routed st of
              (LayerNext, rr, w) \<Rightarrow>
                (let (as, w) = ranked s pol t bound allowed routed w
                 in tryLayer s t gates q RoutingLayerRoutingAffinity pol as (rr, w))
            | (out, st) \<Rightarrow> (out, st))
      else if \<not> hasModelRoute pol (sr_model q)
      then trySticky s t gates q RoutingLayerStickyStandalone pol bound allowed eligible st
      else (LayerNext, st))"

definition bind_sticky :: "'d selector \<Rightarrow> sel_request \<Rightarrow> selection_result \<Rightarrow> 'd pool_world \<Rightarrow> 'd pool_world" where
  "bind_sticky s q r w =
     (if rs_account r \<noteq> 0 \<and> sr_sessionHash q \<noteq> []
      then (case sl_sticky s of
              None \<Rightarrow> w
            | Some store \<Rightarrow>
                (case st_upsert store of
                   None \<Rightarrow> w
                 | Some upsert \<Rightarrow>
                     w\<lparr>pw_rest := upsert (sr_tenant q) (sr_sessionHash q) (sr_model q) (rs_account r) (pw_rest w)\<rparr>))
      else w)"

type_synonym 'd select_answer = "(select_error + selection_result) \<times> 'd pool_world"

definition fresh_layer ::
  "'d selector \<Rightarrow> instant \<Rightarrow> 'd gate_chain \<Rightarrow> sel_request \<Rightarrow> routing_policy option \<Rightarrow> int \<Rightarrow> bool \<Rightarrow> account option list \<Rightarrow>
   account list \<Rightarrow> 'd layer_state \<Rightarrow> 'd select_answer" where
  "fresh_layer s t gates q pol bound allowed accounts candidates st =
     (let (rr, w) = st;
          (fresh, w) = ranked s pol t bound allowed candidates w
      in case tryLayer s t gates q RoutingLayerFresh pol fresh (rr, w) of
           (LayerError e, rr, w) \<Rightarrow> (Inl e, w)
         | (LayerResult r, rr, w) \<Rightarrow> (Inr r, bind_sticky s q r w)
         | (LayerNext, rr, w) \<Rightarrow>
             (case fallbackPlan fresh pol of
                Some wplan \<Rightarrow> (Inr (waiting_result wplan (reason_wait rr)), w)
              | None \<Rightarrow> (Inl (no_capacity ErrNoEligibleAccount accounts q t rr), w)))"

definition select_eligible ::
  "'d selector \<Rightarrow> instant \<Rightarrow> 'd gate_chain \<Rightarrow> sel_request \<Rightarrow> routing_policy option \<Rightarrow> account option list \<Rightarrow> account list \<Rightarrow>
   'd layer_state \<Rightarrow> 'd select_answer" where
  "select_eligible s t gates q pol accounts eligible st =
     (let constrained = hasModelRoute pol (sr_model q);
          routed = modelRoute pol (sr_model q) eligible;
          (rr, w) = st
      in case lookup_sticky s q (routed \<noteq> [] \<or> \<not> constrained) (pw_rest w) of
           Inl e \<Rightarrow> (Inl e, w)
         | Inr bound \<Rightarrow>
             (let broken = (if bound \<noteq> 0 then stickyDegradationReason (accountByID accounts bound) t else []);
                  rr = (if broken \<noteq> [] then stickyBreak broken rr else rr);
                  allowed = (broken = []);
                  candidates = (if constrained then routed else eligible);
                  (answer, w) =
                    (case affinity_layers s t gates q pol bound allowed eligible routed (rr, w) of
                       (LayerError e, rr, w) \<Rightarrow> (Inl e, w)
                     | (LayerResult r, rr, w) \<Rightarrow> (Inr r, w)
                     | (LayerNext, rr, w) \<Rightarrow> fresh_layer s t gates q pol bound allowed accounts candidates (rr, w))
              in (map_sum id (with_sticky_state bound) answer, w)))"

definition routing_policy_of :: "'d selector \<Rightarrow> sel_request \<Rightarrow> 'd \<Rightarrow> select_error + routing_policy option" where
  "routing_policy_of s q d = (case sl_policies s of None \<Rightarrow> Inr None | Some f \<Rightarrow> f q d)"

definition pool_select :: "'d selector \<Rightarrow> instant \<Rightarrow> sel_request \<Rightarrow> 'd pool_world \<Rightarrow> 'd select_answer" where
  "pool_select s t q w =
     (case sl_accounts s of
        None \<Rightarrow> (Inl (Sentinel ErrNoEligibleAccount), w)
      | Some listing \<Rightarrow>
          (case listing q (pw_rest w) of
             Inl e \<Rightarrow> (Inl e, w)
           | Inr accounts \<Rightarrow>
               (case routing_policy_of s q (pw_rest w) of
                  Inl e \<Rightarrow> (Inl e, w)
                | Inr pol \<Rightarrow>
                    (let (gates, w) = forSelection t (sl_gates s) q w
                     in case filter_accounts t gates q accounts (newRoutingReason q, w) of
                          (Inl e, rr, w) \<Rightarrow> (Inl e, w)
                        | (Inr eligible, rr, w) \<Rightarrow>
                            if eligible = []
                            then (Inl (no_capacity (if onlyFailure GateFailureHealth (int (length accounts)) rr
                                                    then ErrAllChannelsDegraded else ErrNoEligibleAccount) accounts q t rr), w)
                            else select_eligible s t gates q pol accounts eligible (rr, w)))))"

end
