(* ===== verification/Selection.thy ===== *)
theory Selection
  imports Selector Failover "HOL-Library.Product_Lexorder"
begin

text \<open>
  What the selector guarantees: the order it tries accounts in, which accounts it may return, what
  becomes of the concurrency slots it acquires, and how its refusals read as signals of the failover
  (backend/internal/pool/router with backend/internal/bindingfallback/executor).
\<close>

section \<open>Ranking\<close>

definition health_key :: "account \<Rightarrow> int \<times> int" where
  "health_key a = (accountHealthRank a, as_priority a)"

lemma health_key_pair: "health_key = (\<lambda>a. (accountHealthRank a, as_priority a))"
  by (intro ext) (simp add: health_key_def)

lemma fresh_sorted: "sorted (map health_key (stable_sort (fresh_less pol t) as))"
  by (rule stable_sort_sorted) (auto simp: fresh_less_def health_key_def split: if_splits)

lemma sorted_fst: "sorted (map f xs) \<Longrightarrow> sorted (map (\<lambda>x. fst (f x :: int \<times> int)) xs)"
  by (induction xs) (auto simp: less_eq_prod_def)

definition permutes_first :: "nat \<Rightarrow> 'a list \<Rightarrow> 'a list \<Rightarrow> bool" where
  "permutes_first n xs ys \<longleftrightarrow> mset ys = mset xs \<and> drop n ys = drop n xs"

lemma permutes_first_refl [simp]: "permutes_first n xs xs"
  by (simp add: permutes_first_def)

lemma permutes_first_trans: "permutes_first n xs ys \<Longrightarrow> permutes_first n ys zs \<Longrightarrow> permutes_first n xs zs"
  by (simp add: permutes_first_def)

lemma swap_at_permutes: "i < n \<Longrightarrow> j < n \<Longrightarrow> n \<le> length xs \<Longrightarrow> permutes_first n xs (swap_at i j xs)"
  by (simp add: permutes_first_def swap_at_def mset_swap)

lemma permutes_first_length: "permutes_first n xs ys \<Longrightarrow> length ys = length xs"
  by (auto simp: permutes_first_def dest: mset_eq_length)

lemma shuffle_permutes: "i < n \<Longrightarrow> n \<le> length xs \<Longrightarrow> permutes_first n xs (fst (shuffle_first draw k i xs))"
proof (induction draw k i xs rule: shuffle_first.induct)
  case (2 draw k i xs)
  let ?j = "nat (int63n draw k (int i + 2))"
  have "0 \<le> int63n draw k (int i + 2)" "int63n draw k (int i + 2) < int i + 2"
    by (simp_all add: int63n_def)
  then have "?j < n" using 2(2) by simp
  then have "permutes_first n xs (swap_at (Suc i) ?j xs)" by (rule swap_at_permutes [OF 2(2) _ 2(3)])
  moreover from permutes_first_length [OF this] 2
  have "permutes_first n (swap_at (Suc i) ?j xs) (fst (shuffle_first draw (Suc k) i (swap_at (Suc i) ?j xs)))"
    by simp
  ultimately show ?case by (auto intro: permutes_first_trans)
qed simp

lemma permutes_first_map:
  assumes "permutes_first n xs ys" and "\<And>x. x \<in> set (take n xs) \<Longrightarrow> f x = c"
  shows "map f ys = map f xs"
proof -
  have l: "length ys = length xs" by (rule permutes_first_length [OF assms(1)])
  have "mset (take n zs) + mset (drop n zs) = mset zs" for zs :: "'a list"
    by (metis append_take_drop_id mset_append)
  then have "mset (take n ys) + mset (drop n ys) = mset (take n xs) + mset (drop n xs)"
    using assms(1) unfolding permutes_first_def by metis
  then have "mset (take n ys) = mset (take n xs)" using assms(1) by (simp add: permutes_first_def)
  then have "set (take n ys) = set (take n xs)" by (rule mset_eq_setD)
  then have "map f (take n ys) = replicate (length (take n ys)) c"
    by (intro map_constant assms(2)) simp
  moreover have "map f (take n xs) = replicate (length (take n xs)) c" by (intro map_constant assms(2))
  ultimately have "map f (take n ys) = map f (take n xs)" using l by simp
  moreover have "map f (drop n ys) = map f (drop n xs)" using assms(1) by (simp add: permutes_first_def)
  ultimately have "map f (take n ys @ drop n ys) = map f (take n xs @ drop n xs)" unfolding map_append by simp
  then show ?thesis by simp
qed

text \<open>Whether the draw of the first account may go beyond one priority.\<close>

definition broad :: "routing_policy option \<Rightarrow> bool" where
  "broad pol \<longleftrightarrow>
     (case pol of
        None \<Rightarrow> False
      | Some p \<Rightarrow> rp_mode p \<notin> {SelectionModePriorityWeighted, SelectionModeFillFirst} \<and>
                  (rp_broadTopK p \<or> rp_operatorScoring p) \<and> 1 < rp_topK p)"

lemma band_spec:
  assumes "accounts = first # rest" and "same first"
  shows "band same accounts \<le> length accounts" "x \<in> set (take (band same accounts) accounts) \<Longrightarrow> same x"
proof -
  have t: "take (length (takeWhile same rest)) rest = takeWhile same rest" by (rule takeWhile_eq_take [symmetric])
  show "band same accounts \<le> length accounts"
    unfolding band_def assms(1) using length_takeWhile_le [of same rest] by simp
  have "take (band same accounts) accounts = first # takeWhile same rest"
    unfolding band_def assms(1) by (simp only: list.sel plus_1_eq_Suc take_Suc_Cons t)
  then show "x \<in> set (take (band same accounts) accounts) \<Longrightarrow> same x"
    using assms(2) set_takeWhileD [of x same rest] by (simp only: list.set insert_iff) blast
qed

lemma take_le_subset: "m \<le> n \<Longrightarrow> x \<in> set (take m xs) \<Longrightarrow> x \<in> set (take n xs)"
  by (rule subsetD [OF set_take_subset_set_take])

lemma topK_spec:
  assumes "accounts = first # rest" and "\<not> mode_is SelectionModeFillFirst pol"
  shows "topK pol accounts \<le> length accounts"
    "x \<in> set (take (topK pol accounts) accounts) \<Longrightarrow>
      accountHealthRank x = accountHealthRank first \<and> (broad pol \<or> as_priority x = as_priority first)"
proof -
  let ?h = "\<lambda>a. accountHealthRank a = accountHealthRank first"
  let ?p = "\<lambda>a. ?h a \<and> as_priority a = as_priority first"
  let ?d = "\<lambda>a. ?h a \<and> as_priority a = as_priority first \<and> as_loadRate a = as_loadRate first
                \<and> as_lastUsedAt a = as_lastUsedAt first"
  note H = band_spec [of accounts first rest ?h, OF assms(1)]
    and P = band_spec [of accounts first rest ?p, OF assms(1)]
    and D = band_spec [of accounts first rest ?d, OF assms(1)]
  have "\<exists>same n. n \<le> band same accounts \<and> topK pol accounts = n \<and> same first \<and>
    (\<forall>a. same a \<longrightarrow> ?h a \<and> (broad pol \<or> as_priority a = as_priority first))"
  proof (cases pol)
    case None
    then show ?thesis using assms(1) by (intro exI [of _ ?d]) (simp add: topK_def Let_def)
  next
    case (Some p)
    show ?thesis
    proof (cases "rp_mode p = SelectionModePriorityWeighted")
      case True
      then show ?thesis using assms(1) Some by (intro exI [of _ ?p]) (auto simp: topK_def Let_def)
    next
      case False
      show ?thesis
      proof (cases "(rp_broadTopK p \<or> rp_operatorScoring p) \<and> 1 < rp_topK p")
        case True
        then have "broad pol" using Some False assms(2) by (auto simp: broad_def mode_is_def)
        with True False show ?thesis using assms(1) Some by (intro exI [of _ ?h]) (simp add: topK_def Let_def)
      next
        case no: False
        then show ?thesis using assms(1) Some False by (intro exI [of _ ?d]) (auto simp: topK_def Let_def)
      qed
    qed
  qed
  then obtain same n where n: "n \<le> band same accounts" "topK pol accounts = n" "same first"
    "\<And>a. same a \<Longrightarrow> ?h a \<and> (broad pol \<or> as_priority a = as_priority first)" by blast
  from n(1,2) band_spec(1) [of accounts first rest same, OF assms(1) n(3)] show "topK pol accounts \<le> length accounts" by simp
  assume "x \<in> set (take (topK pol accounts) accounts)"
  then have "x \<in> set (take (band same accounts) accounts)" using n(2) by (intro take_le_subset [OF n(1)]) simp
  from n(4) [OF band_spec(2) [of accounts first rest same, OF assms(1) n(3) this]]
  show "accountHealthRank x = accountHealthRank first \<and> (broad pol \<or> as_priority x = as_priority first)" .
qed

lemma rankFresh_permutes:
  assumes "\<not> mode_is SelectionModeFillFirst pol"
  shows "\<exists>n. permutes_first n (stable_sort (fresh_less pol t) as) (fst (rankFresh draw d as pol t)) \<and>
    n \<le> topK pol (stable_sort (fresh_less pol t) as)"
proof -
  let ?out = "stable_sort (fresh_less pol t) as"
  let ?k = "topK pol ?out"
  show ?thesis
  proof (cases "1 < ?k")
    case False
    then show ?thesis using assms by (intro exI [of _ 0]) (simp add: rankFresh_def Let_def)
  next
    case True
    then obtain first rest where out: "?out = first # rest" by (cases ?out) (auto simp: topK_def)
    have le: "?k \<le> length ?out" by (rule topK_spec(1) [OF out assms])
    have "permutes_first ?k ?out (fst (rankFresh draw d as pol t))"
    proof (cases "mode_is SelectionModePriorityWeighted pol")
      case mode: True
      obtain c d' where c: "weightedReservoirIndex draw d ?out ?k pol t = (c, d')" by fastforce
      have "c < ?k"
        using select_index_bound [of 0 0 "map (\<lambda>a. accountSelectionWeight a pol t) (take ?k ?out)" "int63n draw" d 0] c True le
        by (simp add: weightedReservoirIndex_def)
      then have "permutes_first ?k ?out (swap_at 0 c ?out)" using True le by (intro swap_at_permutes) simp_all
      with c mode True assms show ?thesis by (simp add: rankFresh_def Let_def)
    next
      case False
      have "permutes_first ?k ?out (fst (shuffle_first draw d (?k - 1) ?out))"
        using True le by (intro shuffle_permutes) simp_all
      with False True assms show ?thesis by (simp add: rankFresh_def Let_def)
    qed
    then show ?thesis by blast
  qed
qed

lemma rankFresh_key:
  assumes "\<And>x y. accountHealthRank x = accountHealthRank y \<Longrightarrow> broad pol \<or> as_priority x = as_priority y \<Longrightarrow> f x = f y"
    and "\<not> mode_is SelectionModeFillFirst pol"
  shows "map f (fst (rankFresh draw d as pol t)) = map f (stable_sort (fresh_less pol t) as)"
proof -
  obtain n where n: "permutes_first n (stable_sort (fresh_less pol t) as) (fst (rankFresh draw d as pol t))"
    "n \<le> topK pol (stable_sort (fresh_less pol t) as)"
    using rankFresh_permutes [OF assms(2)] by blast
  show ?thesis
  proof (cases "stable_sort (fresh_less pol t) as")
    case Nil
    with n(1) show ?thesis by (simp add: permutes_first_def)
  next
    case (Cons first rest)
    show ?thesis
    proof (rule permutes_first_map [OF n(1), of f "f first"])
      fix x assume "x \<in> set (take n (stable_sort (fresh_less pol t) as))"
      from topK_spec(2) [OF Cons assms(2) take_le_subset [OF n(2) this]] show "f x = f first"
        by (intro assms(1)) auto
    qed
  qed
qed

lemma rankFresh_mset: "mset (fst (rankFresh draw d as pol t)) = mset as"
proof (cases "mode_is SelectionModeFillFirst pol")
  case True
  then show ?thesis by (simp add: rankFresh_def Let_def stable_sort_mset)
next
  case False
  then show ?thesis using rankFresh_permutes [OF False, of t as draw d] by (auto simp: permutes_first_def stable_sort_mset)
qed

text \<open>
  Whatever the draws, the ranking is a permutation of the accounts with the healthier ones
  first; among equally healthy accounts the priorities are respected too, unless the policy widens
  the random choice to the whole health band.
\<close>

theorem ranking_respects_health:
  "mset (fst (rankFresh draw d as pol t)) = mset as \<and>
   sorted (map accountHealthRank (fst (rankFresh draw d as pol t))) \<and>
   (broad pol \<or> sorted (map (\<lambda>a. (accountHealthRank a, as_priority a)) (fst (rankFresh draw d as pol t))))"
proof -
  let ?out = "stable_sort (fresh_less pol t) as"
  have s: "sorted (map health_key ?out)" by (rule fresh_sorted)
  then have h: "sorted (map accountHealthRank ?out)" using sorted_fst [OF s] by (simp add: health_key_def)
  show ?thesis
  proof (cases "mode_is SelectionModeFillFirst pol")
    case True
    then have "fst (rankFresh draw d as pol t) = ?out" by (simp add: rankFresh_def Let_def)
    with s h show ?thesis by (simp add: stable_sort_mset health_key_pair)
  next
    case False
    have "map accountHealthRank (fst (rankFresh draw d as pol t)) = map accountHealthRank ?out"
      by (rule rankFresh_key [OF _ False]) simp
    moreover have "map health_key (fst (rankFresh draw d as pol t)) = map health_key ?out" if "\<not> broad pol"
      by (rule rankFresh_key [OF _ False]) (use that in \<open>auto simp: health_key_def\<close>)
    ultimately show ?thesis using h s rankFresh_mset by (cases "broad pol") (simp_all add: health_key_pair)
  qed
qed

section \<open>Weights\<close>

lemma clamp01_bounds: "0 \<le> clamp01 v" "clamp01 v \<le> 1"
  by (simp_all add: clamp01_def)

lemma quota_score_bounds: "0 \<le> sum_list (map snd (quota_contributions a t))" "sum_list (map snd (quota_contributions a t)) \<le> 0.25"
proof -
  let ?q = "clamp01 (of_rat (as_quotaRemaining a) / 100)"
  let ?d = "as_quotaResetsAt a - t"
  let ?D = "as_quotaRemaining a < 20 \<and> as_quotaResetsAt a \<noteq> zero_time \<and> 0 < ?d \<and> ?d \<le> hour"
  let ?C = "freshAt (as_quotaAt a) adaptiveQuotaFreshness t \<and> as_quotaState a = ''available'' \<and> as_quotaKnown a"
  define n where "n = 1 - of_int ?d / (of_int hour :: real)"
  have q: "0 \<le> ?q" "?q \<le> 1" by (rule clamp01_bounds)+
  have r: "0 \<le> n \<and> n \<le> 1" if ?D using that by (simp add: n_def duration_defs divide_le_eq)
  have "quota_contributions a t =
    (if ?C then (''quota_headroom'', ?q * 0.20) # (if ?D then [(''near_reset_recovery'', n * 0.05)] else []) else [])"
    unfolding quota_contributions_def n_def by (rule refl)
  then have "sum_list (map snd (quota_contributions a t)) = (if ?C then ?q * 0.20 + (if ?D then n * 0.05 else 0) else 0)"
    by simp
  moreover have "0 \<le> (if ?D then n * 0.05 else 0)" "(if ?D then n * 0.05 else 0) \<le> 0.05" using r by auto
  ultimately show "0 \<le> sum_list (map snd (quota_contributions a t))" "sum_list (map snd (quota_contributions a t)) \<le> 0.25"
    using q by auto
qed

lemma adaptiveScore_bounds: "-0.05 \<le> adaptiveScore a t" "adaptiveScore a t \<le> 1.05"
proof -
  let ?cost = "case as_costRatio a of None \<Rightarrow> []
    | Some c \<Rightarrow> if 0 < c then [(''upstream_cost_efficiency'', max (-0.05) (min 0.05 (-0.025 * log 2 (of_rat c))))] else []"
  let ?sig = "if freshAt (as_signalAt a) adaptiveSignalFreshness t \<and> 0 < as_sampleCount a
    then (''reliability'', clamp01 (1 - of_rat (as_errorEWMA a)) * 0.35)
         # (if 0 < as_latencyEWMA a then [(''response_speed'', clamp01 (1 - of_rat (as_latencyEWMA a) / 30000) * 0.10)] else [])
    else []"
  have c: "-0.05 \<le> sum_list (map snd ?cost)" "sum_list (map snd ?cost) \<le> (0.05 :: real)"
    by (auto split: option.split)
  have g: "0 \<le> sum_list (map snd ?sig)" "sum_list (map snd ?sig) \<le> (0.45 :: real)"
    using clamp01_bounds [of "1 - of_rat (as_errorEWMA a)"] clamp01_bounds [of "1 - of_rat (as_latencyEWMA a) / 30000"]
    by auto
  have h: "0 \<le> clamp01 (1 - of_rat (as_loadRate a)) * 0.30" "clamp01 (1 - of_rat (as_loadRate a)) * 0.30 \<le> (0.30 :: real)"
    using clamp01_bounds [of "1 - of_rat (as_loadRate a)"] by simp_all
  have "adaptiveScore a t = clamp01 (1 - of_rat (as_loadRate a)) * 0.30 + sum_list (map snd ?cost) + sum_list (map snd ?sig)
      + sum_list (map snd (quota_contributions a t))"
    by (simp only: adaptiveScore_def adaptiveContributions_def list.map sum_list.Cons map_append sum_list_append snd_conv add.assoc)
  with c g h quota_score_bounds [of a t] show "-0.05 \<le> adaptiveScore a t" "adaptiveScore a t \<le> 1.05" by linarith+
qed

lemma go_round_range: "of_int lo \<le> x \<Longrightarrow> x \<le> of_int hi \<Longrightarrow> 0 \<le> lo \<Longrightarrow> lo \<le> go_round x \<and> go_round x \<le> hi"
proof -
  assume a: "of_int lo \<le> x" "x \<le> of_int hi" "0 \<le> lo"
  then have "0 \<le> x" by linarith
  then have "go_round x = \<lfloor>x + 1 / 2\<rfloor>" by (simp add: go_round_def)
  with a show ?thesis by linarith
qed

text \<open>
  With operator scoring an account's selection weight stays between 200 and 1300 times its base
  weight, so no account of a pool is starved and the sum of the weights of a pool does not overflow.
\<close>

theorem selection_weight_bounds:
  assumes "as_weight a < 2 ^ 31"
  shows "1 \<le> accountSelectionWeight a pol t \<and>
    (if scoring pol then 200 * account_weight a \<le> accountSelectionWeight a pol t \<and>
                         accountSelectionWeight a pol t \<le> 1300 * account_weight a
     else accountSelectionWeight a pol t = account_weight a)"
proof -
  have b: "1 \<le> account_weight a" "account_weight a < 2 ^ 31" using assms by (simp_all add: account_weight_def)
  show ?thesis
  proof (cases "scoring pol")
    case False
    with b show ?thesis by (simp add: accountSelectionWeight_def Let_def)
  next
    case True
    define m where "m = go_round ((0.25 + adaptiveScore a t) * 1000)"
    have m: "200 \<le> m \<and> m \<le> 1300"
      unfolding m_def using adaptiveScore_bounds [of a t] by (intro go_round_range) simp_all
    then have lo: "200 * account_weight a \<le> account_weight a * m" and hi: "account_weight a * m \<le> 1300 * account_weight a"
      using b mult_left_mono [of 200 m "account_weight a"] mult_left_mono [of m 1300 "account_weight a"] by (simp_all add: mult.commute)
    have "account_weight a < 2147483648" using b by simp
    with lo hi b have "0 \<le> account_weight a * m" "account_weight a * m \<le> 9223372036854775807" by linarith+
    then have "in_i64 (account_weight a * m)" by (simp add: in_i64_def)
    then have "i64 (account_weight a * m) = account_weight a * m" by (rule i64_id)
    moreover have "accountSelectionWeight a pol t = i64 (account_weight a * m)"
      using True m unfolding accountSelectionWeight_def m_def [symmetric] Let_def by simp
    ultimately have w: "accountSelectionWeight a pol t = account_weight a * m" by simp
    have "1 \<le> account_weight a * m" using lo b by linarith
    with True lo hi show ?thesis unfolding w by simp
  qed
qed

lemma selection_weight_bounds_witness:
  "let a = (ex_account 1)\<lparr>as_weight := 3\<rparr>;
       pol = Some \<lparr> rp_modelAccounts = \<lambda>_. [], rp_topK = 2, rp_broadTopK = False, rp_operatorScoring = True,
         rp_mode = SelectionModePriorityWeighted, rp_scoringVersion = [], rp_fallbackTimeoutMS = 0,
         rp_fallbackMaxWaiting = 0, rp_stickyTimeoutMS = 0, rp_stickyMaxWaiting = 0 \<rparr>
   in 600 \<le> accountSelectionWeight a pol 0 \<and> accountSelectionWeight a pol 0 \<le> 3900"
  using selection_weight_bounds [of "(ex_account 1)\<lparr>as_weight := 3\<rparr>"
    "Some \<lparr> rp_modelAccounts = \<lambda>_. [], rp_topK = 2, rp_broadTopK = False, rp_operatorScoring = True,
         rp_mode = SelectionModePriorityWeighted, rp_scoringVersion = [], rp_fallbackTimeoutMS = 0,
         rp_fallbackMaxWaiting = 0, rp_stickyTimeoutMS = 0, rp_stickyMaxWaiting = 0 \<rparr>" 0]
  by (simp add: scoring_def account_weight_def Let_def)

section \<open>Which account is returned\<close>

text \<open>What the request itself asks of an account, as the built-in gates check it.\<close>

definition fits :: "instant \<Rightarrow> sel_request \<Rightarrow> account \<Rightarrow> bool" where
  "fits t q a \<longleftrightarrow>
     as_id a \<notin> sr_excluded q \<and> (sr_pinned q = 0 \<or> as_id a = sr_pinned q) \<and>
     (sr_protocol q = [] \<or> as_protocol a = sr_protocol q) \<and>
     modelRateLimit_allow t (Some a) q = gate_ok \<and> upstreamQuota_allow t (Some a) q = gate_ok \<and>
     contextWindow_allow (Some a) q = gate_ok"

definition built_in :: "instant \<Rightarrow> 'd gate_chain \<Rightarrow> bool" where
  "built_in t c \<longleftrightarrow>
     gc_protocol c \<in> {None, Some (pure_gate protocolFamily_allow)} \<and>
     gc_model c \<in> {None, Some (pure_gate (modelRateLimit_allow t))} \<and>
     gc_exclusion c \<in> {None, Some (pure_gate exclusion_allow)} \<and>
     gc_pinned c \<in> {None, Some (pure_gate pinnedAccount_allow)} \<and>
     gc_contextWindow c \<in> {None, Some (pure_gate contextWindow_allow)} \<and>
     gc_upstreamQuota c \<in> {None, Some (pure_gate (upstreamQuota_allow t))}"

lemma chain_loop_ok:
  "chain_loop gs a q w = ((True, r, None), w') \<Longrightarrow> (g, f) \<in> set gs \<Longrightarrow>
   \<exists>w1 r1 w2. gate_allow g a q w1 = ((True, r1, None), w2)"
  by (induction gs a q w rule: chain_loop.induct) (auto split: prod.splits if_splits)

lemma pure_gate_simps [simp]:
  "gate_allow (pure_gate f) a q w = (f a q, w)" "gate_status (pure_gate f) = None" "gate_prepare (pure_gate f) = None"
  by (simp_all add: pure_gate_def)

lemma prepare_pure [simp]: "prepareGate (Some (pure_gate f)) q w = (Some (pure_gate f), w)"
  by (simp add: prepareGate_def)

lemma or_gate_simps [simp]: "or_gate None d = d" "or_gate (Some g) d = Some g"
  by (simp_all add: or_gate_def)

lemma defaults_built_in: "built_in t (withDefaults t c)" if "built_in t c"
  using that by (auto simp: built_in_def withDefaults_def defaultGateChain_def Let_def)

lemma forSelection_built_in: "built_in t c \<Longrightarrow> built_in t (fst (forSelection t c q w))"
  by (auto simp: built_in_def forSelection_def withDefaults_def defaultGateChain_def Let_def split_beta)

lemma gate_ok_iff: "(\<exists>r. f = (True, r, None)) \<longleftrightarrow> f = gate_ok"
  if "f \<in> {gate_ok} \<union> range gate_refuse"
  using that by (auto simp: gate_ok_def gate_refuse_def)

lemma accepted_fits:
  assumes "built_in t c" and "chain_allow t c (Some a) q w = ((True, r, None), w')"
  shows "fits t q a"
proof -
  let ?d = "withDefaults t c"
  note slot = chain_loop_ok [OF assms(2) [unfolded chain_allow_def]]
  have "(pure_gate protocolFamily_allow, GateFailureProtocolFamily) \<in> set (ordered t c)"
    "(pure_gate (modelRateLimit_allow t), GateFailureModel) \<in> set (ordered t c)"
    "(pure_gate exclusion_allow, GateFailurePerRequestExclusion) \<in> set (ordered t c)"
    "(pure_gate pinnedAccount_allow, GateFailurePinnedAccount) \<in> set (ordered t c)"
    "(pure_gate contextWindow_allow, GateFailureContextWindow) \<in> set (ordered t c)"
    "(pure_gate (upstreamQuota_allow t), GateFailureUpstreamQuota) \<in> set (ordered t c)"
    using assms(1) by (auto simp: built_in_def ordered_def withDefaults_def defaultGateChain_def Let_def)
  note gates = this [THEN slot, unfolded pure_gate_simps]
  show ?thesis
    using gates
    by (auto simp: fits_def protocolFamily_allow_def modelRateLimit_allow_def exclusion_allow_def pinnedAccount_allow_def
        contextWindow_allow_def upstreamQuota_allow_def gate_ok_def gate_refuse_def Let_def split: if_splits option.splits)
qed

text \<open>The account a result names: the selected one, or the one whose queue to wait in.\<close>

definition chosen :: "selection_result \<Rightarrow> int" where
  "chosen r = (case rs_wait r of Some p \<Rightarrow> wp_account p | None \<Rightarrow> rs_account r)"

lemma chosen_account [simp]: "chosen (account_result a token slot rr) = as_id a"
  by (simp add: chosen_def account_result_def)

lemma stickyWaitPlan_account: "stickyWaitPlan a pol = Some p \<Longrightarrow> wp_account p = as_id a"
  by (auto simp: stickyWaitPlan_def split: option.splits if_splits)

lemma fallbackPlan_account: "fallbackPlan as pol = Some p \<Longrightarrow> \<exists>a \<in> set as. wp_account p = as_id a"
  by (auto simp: fallbackPlan_def Let_def split: list.splits if_splits)

lemma chosen_waiting [simp]: "chosen (waiting_result p rr) = wp_account p"
  by (simp add: chosen_def waiting_result_def)

lemma chosen_sticky [simp]: "chosen (with_sticky_state b r) = chosen r"
  by (simp add: chosen_def with_sticky_state_def split: option.split)

lemma finish_chosen: "finish_acquisition s q a token rr w = (LayerResult r, st) \<Longrightarrow> chosen r = as_id a"
  by (auto simp: finish_acquisition_def Let_def split: if_splits option.splits prod.splits)

lemma acquire_chosen: "acquire_slot s q layer pol a rr w = (LayerResult r, st) \<Longrightarrow> chosen r = as_id a"
  by (auto simp: acquire_slot_def Let_def stickyWaitPlan_account
      split: if_splits option.splits prod.splits slot_answer.splits dest: finish_chosen)

lemma try_account_chosen: "try_account s t gates q layer pol a st = (LayerResult r, st') \<Longrightarrow> chosen r = as_id a"
  by (auto simp: try_account_def Let_def split: if_splits option.splits prod.splits dest: acquire_chosen)

lemma try_accounts_chosen:
  "try_accounts s t gates q layer pol as st = (LayerResult r, st') \<Longrightarrow> \<exists>a \<in> set as. chosen r = as_id a"
proof (induction s t gates q layer pol as st rule: try_accounts.induct)
  case (2 s t gates q layer pol a as st)
  obtain out st1 where h: "try_account s t gates q layer pol a st = (out, st1)" by (rule prod.exhaust)
  show ?case
  proof (cases out)
    case LayerNext
    then have "\<exists>a \<in> set as. chosen r = as_id a" using 2 h by simp
    then show ?thesis by simp
  next
    case (LayerError e)
    then show ?thesis using 2(2) h by simp
  next
    case (LayerResult r')
    then have "r' = r" using 2(2) h by simp
    with LayerResult h try_account_chosen show ?thesis by (metis list.set_intros(1))
  qed
qed simp

lemma tryLayer_chosen: "tryLayer s t gates q layer pol as st = (LayerResult r, st') \<Longrightarrow> \<exists>a \<in> set as. chosen r = as_id a"
  unfolding tryLayer_def by (rule try_accounts_chosen)

lemma trySticky_chosen:
  "trySticky s t gates q layer pol b al as st = (LayerResult r, st') \<Longrightarrow> \<exists>a \<in> set as. chosen r = as_id a"
  by (auto simp: trySticky_def find_Some_iff split: if_splits option.splits dest!: tryLayer_chosen)

lemma deprioritize_set: "set (deprioritizeBrokenSticky as b al) = set as"
proof -
  have "set (takeWhile P as) \<union> set (dropWhile P as) = set as" for P :: "account \<Rightarrow> bool"
    by (metis set_append takeWhile_dropWhile_id)
  from this [of "\<lambda>a. as_id a \<noteq> b"] show ?thesis
    by (auto simp: deprioritizeBrokenSticky_def Let_def split: list.split)
qed

lemma ranked_set: "set (fst (ranked s pol t b al as w)) = set as"
  by (simp add: ranked_def split_beta Let_def deprioritize_set mset_eq_setD [OF rankFresh_mset])

definition candidates_of :: "routing_policy option \<Rightarrow> sel_request \<Rightarrow> account list \<Rightarrow> account list" where
  "candidates_of pol q eligible =
     (if hasModelRoute pol (sr_model q) then modelRoute pol (sr_model q) eligible else eligible)"

lemma affinity_chosen:
  assumes "affinity_layers s t gates q pol b al eligible (modelRoute pol (sr_model q) eligible) st = (LayerResult r, st')"
  shows "\<exists>a \<in> set (candidates_of pol q eligible). chosen r = as_id a"
proof (cases "modelRoute pol (sr_model q) eligible = []")
  case True
  with assms show ?thesis
    by (auto simp: affinity_layers_def candidates_of_def split: if_splits dest: trySticky_chosen)
next
  case False
  let ?routed = "modelRoute pol (sr_model q) eligible"
  have c: "hasModelRoute pol (sr_model q)" using False by (auto simp: modelRoute_def split: if_splits)
  obtain out rr w where h: "trySticky s t gates q RoutingLayerStickyWithinRoute pol b al ?routed st = (out, rr, w)"
    by (metis prod_cases3)
  obtain as w1 where k: "ranked s pol t b al ?routed w = (as, w1)" by fastforce
  have "set as = set ?routed" using ranked_set [of s pol t b al ?routed w] k by simp
  with assms False c h k show ?thesis
    by (cases out) (auto simp: affinity_layers_def candidates_of_def dest: trySticky_chosen tryLayer_chosen)
qed

lemma fresh_chosen:
  assumes "fresh_layer s t gates q pol b al accounts candidates st = (Inr r, w')"
  shows "\<exists>a \<in> set candidates. chosen r = as_id a"
proof -
  obtain rr w where st: "st = (rr, w)" by fastforce
  obtain as w1 where k: "ranked s pol t b al candidates w = (as, w1)" by fastforce
  have set: "set as = set candidates" using ranked_set [of s pol t b al candidates w] k by simp
  obtain out rr2 w2 where l: "tryLayer s t gates q RoutingLayerFresh pol as (rr, w1) = (out, rr2, w2)"
    by (metis prod_cases3)
  have "\<exists>a \<in> set as. chosen r = as_id a"
  proof (cases out)
    case LayerNext
    with assms st k l show ?thesis by (auto simp: fresh_layer_def split: option.splits dest: fallbackPlan_account)
  next
    case (LayerError e)
    with assms st k l show ?thesis by (simp add: fresh_layer_def)
  next
    case (LayerResult r')
    with assms st k l show ?thesis by (auto simp: fresh_layer_def dest: tryLayer_chosen)
  qed
  with set show ?thesis by simp
qed

lemma select_eligible_chosen:
  assumes "select_eligible s t gates q pol accounts eligible st = (Inr r, w')"
  shows "\<exists>a \<in> set (candidates_of pol q eligible). chosen r = as_id a"
proof -
  obtain rr w where st: "st = (rr, w)" by fastforce
  let ?routed = "modelRoute pol (sr_model q) eligible"
  obtain b where b: "lookup_sticky s q (?routed \<noteq> [] \<or> \<not> hasModelRoute pol (sr_model q)) (pw_rest w) = Inr b"
    using assms st by (auto simp: select_eligible_def Let_def split: sum.splits)
  let ?broken = "if b \<noteq> 0 then stickyDegradationReason (accountByID accounts b) t else []"
  let ?rr = "if ?broken \<noteq> [] then stickyBreak ?broken rr else rr"
  obtain out rr1 w1 where l: "affinity_layers s t gates q pol b (?broken = []) eligible ?routed (?rr, w) = (out, rr1, w1)"
    by (metis prod_cases3)
  note unf = select_eligible_def [of s t gates q pol accounts eligible "(rr, w)", unfolded Let_def prod.case b sum.case l]
  show ?thesis
  proof (cases out)
    case LayerNext
    obtain ans w2 where f: "fresh_layer s t gates q pol b (?broken = []) accounts
        (if hasModelRoute pol (sr_model q) then ?routed else eligible) (rr1, w1) = (ans, w2)" by fastforce
    then obtain r1 where "ans = Inr r1" "chosen r1 = chosen r"
      using assms unf st LayerNext by (cases ans) auto
    with fresh_chosen f show ?thesis unfolding candidates_of_def by metis
  next
    case (LayerError e)
    with assms unf st show ?thesis by simp
  next
    case (LayerResult r1)
    then have "chosen r = chosen r1" using assms unf st by auto
    with affinity_chosen l LayerResult show ?thesis by metis
  qed
qed

lemma fits_cong:
  assumes "as_id a = as_id b" and "as_protocol a = as_protocol b" and "as_modelLimits a = as_modelLimits b"
    and "as_quotaState a = as_quotaState b" and "as_quotaAt a = as_quotaAt b"
  shows "fits t q a = fits t q b"
  unfolding fits_def modelRateLimit_allow_def upstreamQuota_allow_def contextWindow_allow_def option.case assms
  by (rule refl)

lemma with_health_state_account:
  "with_health_state gates q a st = (Some b, rr) \<Longrightarrow> b = a \<or> (\<exists>h. b = a\<lparr>as_healthState := h\<rparr>)"
  by (auto simp: with_health_state_def split: option.splits sum.splits if_splits)

lemma filter_step:
  assumes "filter_accounts t gates q (Some x # as) (rr, w) = (Inr out, st')"
  obtains (refused) why w1 where
      "chain_allow t gates (Some (normalizeAccountSnapshotWeight x)) q w = ((False, why, None), w1)"
      "filter_accounts t gates q as (gateFailure (as_id x) why rr, w1) = (Inr out, st')"
  | (unknown) why w1 where
      "chain_allow t gates (Some (normalizeAccountSnapshotWeight x)) q w = ((True, why, None), w1)"
      "filter_accounts t gates q as (gateFailure (as_id x) (Some GateFailureHealth) rr, w1) = (Inr out, st')"
  | (passed) why w1 b rest where
      "chain_allow t gates (Some (normalizeAccountSnapshotWeight x)) q w = ((True, why, None), w1)"
      "with_health_state gates q (normalizeAccountSnapshotWeight x) (rr, w1) = (Some b, rr)"
      "filter_accounts t gates q as (rr, w1) = (Inr rest, st')" "out = b # rest"
proof -
  let ?a = "normalizeAccountSnapshotWeight x"
  have i: "as_id ?a = as_id x" by (simp add: normalizeAccountSnapshotWeight_def)
  obtain ok why err w1 where c: "chain_allow t gates (Some ?a) q w = ((ok, why, err), w1)" by (metis prod_cases4 prod.exhaust)
  obtain b rr2 where h: "with_health_state gates q ?a (rr, w1) = (b, rr2)" by fastforce
  note unf = filter_accounts.simps(3) [of t gates q x as "(rr, w)", unfolded Let_def prod.case c h]
  have err: "err = None" using assms unf by (cases err) auto
  show thesis
  proof (cases ok)
    case False
    with assms unf err i c refused show thesis by simp
  next
    case True
    show thesis
    proof (cases b)
      case None
      then have "rr2 = gateFailure (as_id x) (Some GateFailureHealth) rr"
        using h i by (auto simp: with_health_state_def split: option.splits sum.splits if_splits)
      with assms unf err True None c unknown show thesis by simp
    next
      case (Some b')
      then have r: "rr2 = rr" using h by (auto simp: with_health_state_def split: option.splits sum.splits if_splits)
      obtain ans st2 where f: "filter_accounts t gates q as (rr, w1) = (ans, st2)" by (rule prod.exhaust)
      show thesis
        using assms unf err True Some c h f r passed by (cases ans) auto
    qed
  qed
qed

lemma filter_accounts_fit:
  assumes "built_in t gates"
  shows "filter_accounts t gates q as st = (Inr out, st') \<Longrightarrow> b \<in> set out \<Longrightarrow>
    \<exists>x. Some x \<in> set as \<and> as_id x = as_id b \<and> fits t q x"
proof (induction as arbitrary: st out)
  case Nil
  then show ?case by simp
next
  case (Cons y as)
  obtain rr w where st: "st = (rr, w)" by fastforce
  show ?case
  proof (cases y)
    case None
    with Cons show ?thesis by fastforce
  next
    case (Some x)
    from Cons.prems(1) [unfolded st Some] show ?thesis
    proof (cases rule: filter_step)
      case (refused why w1)
      with Cons.IH Cons.prems(2) Some show ?thesis by fastforce
    next
      case (unknown why w1)
      with Cons.IH Cons.prems(2) Some show ?thesis by fastforce
    next
      case (passed why w1 b' rest)
      show ?thesis
      proof (cases "b = b'")
        case True
        have "fits t q (normalizeAccountSnapshotWeight x)" by (rule accepted_fits [OF assms passed(1)])
        then have "fits t q x"
          using fits_cong [of "normalizeAccountSnapshotWeight x" x] by (simp add: normalizeAccountSnapshotWeight_def)
        moreover have "as_id b = as_id x"
          using with_health_state_account [OF passed(2)] True by (auto simp: normalizeAccountSnapshotWeight_def)
        ultimately show ?thesis using Some by auto
      next
        case False
        with Cons.IH [OF passed(3)] Cons.prems(2) passed(4) show ?thesis by auto
      qed
    qed
  qed
qed

lemma pool_select_cases:
  assumes "pool_select s t q w = (Inr r, w')"
  obtains listing accounts pol gates w1 eligible rr w2 where
    "sl_accounts s = Some listing" "listing q (pw_rest w) = Inr accounts" "routing_policy_of s q (pw_rest w) = Inr pol"
    "forSelection t (sl_gates s) q w = (gates, w1)"
    "filter_accounts t gates q accounts (newRoutingReason q, w1) = (Inr eligible, rr, w2)"
    "select_eligible s t gates q pol accounts eligible (rr, w2) = (Inr r, w')"
  using assms
  by (auto simp: pool_select_def Let_def split: option.splits sum.splits prod.splits if_splits)

lemma candidates_of_route:
  "a \<in> set (candidates_of pol q eligible) \<Longrightarrow>
   a \<in> set eligible \<and> (if hasModelRoute pol (sr_model q) then as_id a \<in> set (rp_modelAccounts (the pol) (sr_model q)) else True)"
  by (auto simp: candidates_of_def modelRoute_def split: if_splits)

text \<open>
  C38. The account a selection returns, or whose queue it names, is one the source listed; it is not
  excluded, it is the pinned one if the request pins one, it speaks the protocol, its model is not
  cooling down, its quota is not used up, the request fits the model's window, and it is on the
  model's route when the policy has one.
\<close>

theorem selection_respects_request:
  assumes "built_in t (sl_gates s)" and "pool_select s t q w = (Inr r, w')"
  shows "\<exists>listing accounts pol x. sl_accounts s = Some listing \<and> listing q (pw_rest w) = Inr accounts \<and>
    routing_policy_of s q (pw_rest w) = Inr pol \<and> Some x \<in> set accounts \<and> as_id x = chosen r \<and> fits t q x \<and>
    (if hasModelRoute pol (sr_model q) then as_id x \<in> set (rp_modelAccounts (the pol) (sr_model q)) else True)"
  using assms(2)
proof (cases rule: pool_select_cases)
  case (1 listing accounts pol gates w1 eligible rr w2)
  have built: "built_in t gates" using forSelection_built_in [OF assms(1), of q w] 1(4) by simp
  obtain a where a: "a \<in> set (candidates_of pol q eligible)" "chosen r = as_id a"
    using select_eligible_chosen [OF 1(6)] by blast
  obtain x where "Some x \<in> set accounts" "as_id x = as_id a" "fits t q x"
    using filter_accounts_fit [OF built 1(5)] candidates_of_route [OF a(1)] by blast
  with 1 a candidates_of_route [OF a(1)] show ?thesis by metis
qed

text \<open>A selector for the examples: account 1 has no free slot, the tokens held are a list.\<close>

definition no_gates :: "'d gate_chain" where
  "no_gates =
     \<lparr> gc_tenant = None, gc_lifecycle = None, gc_channel = None, gc_protocol = None, gc_model = None, gc_capability = None,
       gc_credential = None, gc_health = None, gc_groupPolicy = None, gc_exclusion = None, gc_pinned = None,
       gc_windowCost = None, gc_sessionCount = None, gc_contextWindow = None, gc_ratePrecheck = None,
       gc_upstreamQuota = None \<rparr>"

definition ex_acquire :: "account \<Rightarrow> sel_request \<Rightarrow> nat list \<Rightarrow> slot_answer \<times> nat list" where
  "ex_acquire a q d =
     (if as_id a = 1 then (SlotDenied (Sentinel ErrNoSlotAvailable), d)
      else (SlotGranted (nat (100 + \<bar>as_id a\<bar>)), nat (100 + \<bar>as_id a\<bar>) # d))"

definition ex_selector :: "account list \<Rightarrow> nat list selector" where
  "ex_selector as =
     \<lparr> sl_accounts = Some (\<lambda>_ _. Inr (map Some as)), sl_policies = None, sl_sticky = None, sl_gates = no_gates,
       sl_acquire = ex_acquire, sl_release = remove1,
       sl_claims = Some (\<lambda>_ _ _ _ d. (None, d)), sl_newToken = (\<lambda>d. (77, d)), sl_draw = (\<lambda>_. 0) \<rparr>"

definition ex_pool :: "nat list pool_world" where
  "ex_pool =
     \<lparr> pw_precheck = None, pw_keyRates = None, pw_bindingRates = None, pw_sessions = None, pw_costs = None,
       pw_draws = 0, pw_rest = [] \<rparr>"

definition ex_answer :: "(select_error + selection_result) \<times> nat list pool_world" where
  "ex_answer = pool_select (ex_selector [ex_account 1, ex_account 2]) 0 ex_request ex_pool"

text \<open>The logarithm of the cost ratio is not computed in the examples.\<close>

declare log_def [code del]

lemma ex_answer_account: "case fst ex_answer of Inl e \<Rightarrow> False | Inr r \<Rightarrow> chosen r = 2 \<and> rs_slot r = Some 102 \<and> rs_wait r = None"
  by code_simp

lemma ex_answer_held: "pw_rest (snd ex_answer) = [102]"
  by code_simp

lemma selection_respects_request_witness:
  "\<exists>r w'. ex_answer = (Inr r, w') \<and> chosen r = 2 \<and>
     (\<exists>x \<in> {ex_account 1, ex_account 2}. as_id x = chosen r \<and> fits 0 ex_request x)"
proof -
  obtain x w' where x: "ex_answer = (x, w')" by fastforce
  have "case x of Inl e \<Rightarrow> False | Inr r \<Rightarrow> chosen r = 2 \<and> rs_slot r = Some 102 \<and> rs_wait r = None"
    using ex_answer_account unfolding x by simp
  then obtain r where "x = Inr r" "chosen r = 2" by (cases x) simp_all
  then have a: "ex_answer = (Inr r, w')" "chosen r = 2" using x by simp_all
  have "built_in 0 (sl_gates (ex_selector [ex_account 1, ex_account 2]))"
    by (simp add: built_in_def ex_selector_def no_gates_def)
  from selection_respects_request [OF this a(1) [unfolded ex_answer_def]] a
  show ?thesis by (auto simp: ex_selector_def)
qed

end
