(* ===== verification/Selection_Refusals.thy ===== *)
theory Selection_Refusals
  imports Selection
begin

text \<open>
  What the selector's errors mean to the failover: the routing reason counts the failures of the gates
  (routing_reason.go), the exhaustion family sums them up, and \<open>signalFromPoolError\<close>
  (bindingfallback/executor/classifier.go) turns it into the signal of the attempt.
\<close>

section \<open>The routing reason\<close>

text \<open>The counts of a routing reason are those of its exclusion list.\<close>

definition reasons_of :: "routing_reason \<Rightarrow> gate_failure list" where
  "reasons_of r = map snd (rr_exclusions r)"

definition counts_ok :: "routing_reason \<Rightarrow> bool" where
  "counts_ok r \<longleftrightarrow> distinct (map fst (rr_counts r)) \<and>
     (\<forall>g. map_of (rr_counts r) g =
        (if g \<in> set (reasons_of r) then Some (int (length (filter (\<lambda>h. h = g) (reasons_of r)))) else None))"

lemma counts_ok_new: "counts_ok (newRoutingReason q)"
  by (simp add: counts_ok_def newRoutingReason_def reasons_of_def)

lemma counts_ok_failure: "counts_ok r \<Longrightarrow> counts_ok (gateFailure i why r)"
  by (cases why) (auto simp: counts_ok_def gateFailure_def reasons_of_def count_of_def distinct_update update_conv' filter_empty_conv
      image_iff split: option.splits)

lemma chain_loop_reason: "chain_loop gs a q w = ((False, why, None), w') \<Longrightarrow> \<exists>g. why = Some g"
  by (induction gs a q w rule: chain_loop.induct)
    (auto simp: named_reason_def gate_ok_def split: prod.splits if_splits option.splits)

lemma named_reason_Some: "chain_allow t c a q w = ((False, why, None), w') \<Longrightarrow> \<exists>g. why = Some g"
  unfolding chain_allow_def by (rule chain_loop_reason)

lemma failure_reasons [simp]:
  "rr_exclusions (gateFailure i (Some g) r) = rr_exclusions r @ [(i, g)]"
  by (simp add: gateFailure_def)

lemma filter_reasons:
  "filter_accounts t gates q as (rr, w) = (Inr [], rr', w') \<Longrightarrow> counts_ok rr \<Longrightarrow> None \<notin> set as \<Longrightarrow>
   counts_ok rr' \<and> map fst (rr_exclusions rr') = map fst (rr_exclusions rr) @ map (as_id \<circ> the) as"
proof (induction as arbitrary: rr w)
  case Nil
  then show ?case by simp
next
  case (Cons y as)
  then obtain x where y: "y = Some x" by (cases y) auto
  have rest: "None \<notin> set as" using Cons.prems(3) by simp
  from Cons.prems(1) [unfolded y] show ?case
  proof (cases rule: filter_step)
    case (refused why w1)
    obtain g where "why = Some g" using named_reason_Some [OF refused(1)] by blast
    with Cons.IH [OF refused(2) counts_ok_failure [OF Cons.prems(2)] rest] y show ?thesis by simp
  next
    case (unknown why w1)
    with Cons.IH [OF unknown(2) counts_ok_failure [OF Cons.prems(2)] rest] y show ?thesis by simp
  qed simp
qed

lemma positive_counts: "counts_ok r \<Longrightarrow> filter (\<lambda>(g, n). 0 < n) (rr_counts r) = rr_counts r"
proof -
  assume c: "counts_ok r"
  have "0 < n" if "(g, n) \<in> set (rr_counts r)" for g n
  proof -
    have "map_of (rr_counts r) g = Some n" using c that by (intro map_of_is_SomeI) (simp_all add: counts_ok_def)
    then have "g \<in> set (reasons_of r)" "n = int (length (filter (\<lambda>h. h = g) (reasons_of r)))"
      using c by (auto simp: counts_ok_def split: if_splits)
    then show ?thesis by (auto simp: filter_empty_conv)
  qed
  then show ?thesis by (auto simp: filter_id_conv)
qed

lemma counts_keys: "counts_ok r \<Longrightarrow> fst ` set (rr_counts r) = set (reasons_of r)"
proof -
  assume c: "counts_ok r"
  then have "dom (map_of (rr_counts r)) = set (reasons_of r)" by (auto simp: counts_ok_def dom_def)
  then show ?thesis by (simp add: dom_map_of_conv_image_fst)
qed

lemma family_exact:
  assumes "counts_ok r" and "reasons_of r \<noteq> []"
  shows "xh_family (exhaustion_of r) =
    (if set (reasons_of r) \<subseteq> capacity_reasons then ExhaustionFamilyCapacity
     else if set (reasons_of r) \<subseteq> {GateFailureContextWindow} then ExhaustionFamilyContextWindow
     else if set (reasons_of r) \<inter> (insert GateFailureContextWindow capacity_reasons) = {} then ExhaustionFamilyStaticMismatch
     else ExhaustionFamilyMixed)"
proof -
  note p = positive_counts [OF assms(1)]
  have pos: "filter (\<lambda>(g, n). \<not> n \<le> 0) (rr_counts r) = rr_counts r" using p by (simp add: not_le)
  have ne: "rr_counts r \<noteq> []" using counts_keys [OF assms(1)] assms(2) by auto
  have ex: "list_ex (\<lambda>(g, n). P g) (rr_counts r) \<longleftrightarrow> (\<exists>g \<in> set (reasons_of r). P g)" for P
    unfolding counts_keys [OF assms(1), symmetric] by (force simp: list_ex_iff)
  obtain g where g: "g \<in> set (reasons_of r)" using assms(2) by (cases "reasons_of r") auto
  have w: "GateFailureContextWindow \<notin> capacity_reasons" by (simp add: capacity_reasons_def)
  show ?thesis
    unfolding exhaustion_of_def Let_def p exhaustionFamily_def pos ex
    using ne g w by auto
qed

text \<open>What \<open>errors.Is\<close> and \<open>errors.As\<close> find in a selector error.\<close>

definition pool_error_of :: "select_error \<Rightarrow> pool_error" where
  "pool_error_of e =
     \<lparr> pe_is = {x. errors_is e x},
       pe_noCapacity = (case e of NoCapacityError _ _ x \<Rightarrow> Some (xh_family x) | _ \<Rightarrow> None) \<rparr>"

definition refusal_signal :: "gate_failure set \<Rightarrow> fb_signal" where
  "refusal_signal rs =
     (if rs = {GateFailureHealth} then SignalAllChannelsDegraded
      else if rs \<subseteq> capacity_reasons then SignalPoolCapacityExhausted
      else if rs = {GateFailureContextWindow} then SignalLocalContextWindow
      else SignalPoolStaticMismatch)"

lemma only_health:
  assumes "counts_ok r" and "length (rr_exclusions r) = n" and "0 < n"
  shows "onlyFailure GateFailureHealth (int n) r \<longleftrightarrow> set (reasons_of r) = {GateFailureHealth}"
proof -
  have d: "distinct (map fst (rr_counts r))" using assms(1) by (simp add: counts_ok_def)
  have card: "card (set (reasons_of r)) = length (rr_counts r)"
    using distinct_card [OF d] counts_keys [OF assms(1)] by simp
  have cnt: "count_of (rr_counts r) g = int (length (filter (\<lambda>h. h = g) (reasons_of r)))" for g
    using assms(1) by (auto simp: count_of_def counts_ok_def filter_empty_conv)
  have len: "length (reasons_of r) = n" using assms(2) by (simp add: reasons_of_def)
  show ?thesis
  proof
    assume o1: "onlyFailure GateFailureHealth (int n) r"
    then have "length (filter (\<lambda>h. h = GateFailureHealth) (reasons_of r)) = length (reasons_of r)"
      using len cnt by (simp add: onlyFailure_def split: if_splits)
    then have "\<forall>g \<in> set (reasons_of r). g = GateFailureHealth"
      by (metis (mono_tags, lifting) filter_True filter_id_conv length_filter_less less_irrefl)
    moreover have "reasons_of r \<noteq> []" using len assms(3) by auto
    ultimately show "set (reasons_of r) = {GateFailureHealth}" by (cases "reasons_of r") auto
  next
    assume s: "set (reasons_of r) = {GateFailureHealth}"
    then have "filter (\<lambda>h. h = GateFailureHealth) (reasons_of r) = reasons_of r" by (auto simp: filter_id_conv)
    with s card cnt len assms(3) show "onlyFailure GateFailureHealth (int n) r" by (simp add: onlyFailure_def)
  qed
qed

text \<open>
  C37. When no account passes the gates, every listed account is named with its reason, and the
  failover reads the refusal by these reasons alone: only health, only recoverable capacity, only
  the context window, or anything else, which ends the run.
\<close>

theorem refusal_signal_exact:
  assumes "sl_accounts s = Some listing" and "listing q (pw_rest w) = Inr accounts" and "accounts \<noteq> []"
    and "None \<notin> set accounts" and "routing_policy_of s q (pw_rest w) = Inr pol"
    and "forSelection t (sl_gates s) q w = (gates, w1)"
    and "filter_accounts t gates q accounts (newRoutingReason q, w1) = (Inr [], rr, w2)"
  shows "\<exists>e. pool_select s t q w = (Inl e, w2) \<and>
    map fst (rr_exclusions rr) = map (as_id \<circ> the) accounts \<and>
    signalFromPoolError (pool_error_of e) = refusal_signal (set (reasons_of rr))"
proof -
  have c: "counts_ok rr" and x: "map fst (rr_exclusions rr) = map (as_id \<circ> the) accounts"
    using filter_reasons [OF assms(7) counts_ok_new assms(4)] by (simp_all add: newRoutingReason_def)
  from x have "length (rr_exclusions rr) = length accounts" by (metis length_map)
  then have h: "onlyFailure GateFailureHealth (int (length accounts)) rr \<longleftrightarrow> set (reasons_of rr) = {GateFailureHealth}"
    using only_health [OF c] assms(3) by simp
  have ne: "reasons_of rr \<noteq> []" using x assms(3) by (auto simp: reasons_of_def)
  let ?e = "no_capacity (if set (reasons_of rr) = {GateFailureHealth} then ErrAllChannelsDegraded else ErrNoEligibleAccount)
    accounts q t rr"
  have "pool_select s t q w = (Inl ?e, w2)" using assms h by (simp add: pool_select_def)
  moreover have "signalFromPoolError (pool_error_of ?e) = refusal_signal (set (reasons_of rr))"
  proof -
    have "set (reasons_of rr) \<noteq> {}" using ne by simp
    moreover have "GateFailureContextWindow \<notin> capacity_reasons" "GateFailureHealth \<in> capacity_reasons"
      by (simp_all add: capacity_reasons_def)
    ultimately show ?thesis
      using family_exact [OF c ne]
      by (auto simp: no_capacity_def pool_error_of_def signalFromPoolError_def refusal_signal_def subset_singleton_iff)
  qed
  ultimately show ?thesis using x by blast
qed

definition ex_refusal :: "(select_error + account list) \<times> nat list layer_state" where
  "ex_refusal =
     filter_accounts 0 (fst (forSelection 0 no_gates ex_request ex_pool)) ex_request
       (map (\<lambda>i. Some ((ex_account i)\<lparr>as_healthState := ''throttled'', as_healthUntil := 50\<rparr>)) [1, 2])
       (newRoutingReason ex_request, snd (forSelection 0 no_gates ex_request ex_pool))"

lemma ex_refusal_reasons:
  "(case fst ex_refusal of Inl e \<Rightarrow> False | Inr as \<Rightarrow> as = []) \<and>
   reasons_of (fst (snd ex_refusal)) = [GateFailureHealth, GateFailureHealth]"
  by code_simp

lemma refusal_signal_exact_witness:
  "\<exists>e w'. pool_select (ex_selector (map (\<lambda>i. (ex_account i)\<lparr>as_healthState := ''throttled'', as_healthUntil := 50\<rparr>) [1, 2]))
     0 ex_request ex_pool = (Inl e, w') \<and> signalFromPoolError (pool_error_of e) = SignalAllChannelsDegraded"
proof -
  obtain x rr w2 where x: "ex_refusal = (x, rr, w2)" by (metis prod_cases3)
  have "case x of Inl e \<Rightarrow> False | Inr as \<Rightarrow> as = []" using ex_refusal_reasons unfolding x by simp
  then have e: "x = Inr []" by (cases x) simp_all
  obtain gates w1 where g: "forSelection 0 no_gates ex_request ex_pool = (gates, w1)" by fastforce
  have "refusal_signal (set (reasons_of rr)) = SignalAllChannelsDegraded"
    using ex_refusal_reasons unfolding x by (simp add: refusal_signal_def)
  moreover have "\<exists>e. pool_select (ex_selector (map (\<lambda>i. (ex_account i)\<lparr>as_healthState := ''throttled'', as_healthUntil := 50\<rparr>) [1, 2]))
      0 ex_request ex_pool = (Inl e, w2) \<and>
      map fst (rr_exclusions rr) = map (as_id \<circ> the)
        (map (\<lambda>i. Some ((ex_account i)\<lparr>as_healthState := ''throttled'', as_healthUntil := 50\<rparr>)) [1, 2]) \<and>
      signalFromPoolError (pool_error_of e) = refusal_signal (set (reasons_of rr))"
    using x e g
    by (intro refusal_signal_exact [where pol = None and gates = gates and ?w1.0 = w1])
      (simp_all add: ex_selector_def routing_policy_of_def ex_refusal_def)
  ultimately show ?thesis by auto
qed

end
