(* ===== verification/Selection_Slots.thy ===== *)
theory Selection_Slots
  imports Selection
begin

text \<open>
  The concurrency slots of a selection (default_selector.go with slot.go): what the slot manager
  promises, and that a selection ends with exactly the slot its result carries.
\<close>

section \<open>Slots\<close>

text \<open>
  What the database promises of the slots: \<open>held d\<close> are the tokens of the slots in use. An
  acquisition adds the slot it grants, a release removes one, and nothing else changes them.
\<close>

definition slot_ledger :: "'d selector \<Rightarrow> ('d \<Rightarrow> nat multiset) \<Rightarrow> bool" where
  "slot_ledger s held \<longleftrightarrow>
     (\<forall>a q d. held (snd (sl_acquire s a q d)) = held d +
        (case fst (sl_acquire s a q d) of SlotGranted tok \<Rightarrow> (if tok = 0 then {#} else {#tok#}) | _ \<Rightarrow> {#})) \<and>
     (\<forall>tok d. held (sl_release s tok d) = held d - {#tok#}) \<and>
     (\<forall>write. sl_claims s = Some write \<longrightarrow> (\<forall>i j k tok d. held (snd (write i j k tok d)) = held d)) \<and>
     (\<forall>d. held (snd (sl_newToken s d)) = held d) \<and>
     (\<forall>store up. sl_sticky s = Some store \<longrightarrow> st_upsert store = Some up \<longrightarrow> (\<forall>i h m k d. held (up i h m k d) = held d))"

definition gate_keeps :: "'d gate \<Rightarrow> bool" where
  "gate_keeps g \<longleftrightarrow> (\<forall>a q w. pw_rest (snd (gate_allow g a q w)) = pw_rest w)"

definition slot_keeps :: "'d gate option \<Rightarrow> bool" where
  "slot_keeps x \<longleftrightarrow> (case x of None \<Rightarrow> True | Some g \<Rightarrow> gate_keeps g \<and>
     (case gate_prepare g of None \<Rightarrow> True
      | Some p \<Rightarrow> \<forall>q w. gate_keeps (fst (p q w)) \<and> pw_rest (snd (p q w)) = pw_rest w))"

definition present_keeps :: "'d gate option \<Rightarrow> bool" where
  "present_keeps x \<longleftrightarrow> (case x of None \<Rightarrow> True | Some g \<Rightarrow> gate_keeps g)"

definition gates_of :: "'d gate_chain \<Rightarrow> 'd gate option list" where
  "gates_of c =
     [gc_tenant c, gc_lifecycle c, gc_channel c, gc_protocol c, gc_model c, gc_capability c, gc_credential c, gc_health c,
      gc_groupPolicy c, gc_exclusion c, gc_pinned c, gc_windowCost c, gc_sessionCount c, gc_contextWindow c,
      gc_ratePrecheck c, gc_upstreamQuota c]"

lemma pure_keeps [simp]: "slot_keeps (Some (pure_gate f))" "gate_keeps (pure_gate f)"
  by (simp_all add: slot_keeps_def gate_keeps_def)

lemma default_keeps: "list_all slot_keeps (gates_of (defaultGateChain t))"
  by (auto simp: gates_of_def defaultGateChain_def allowAllGate_def slot_keeps_def gate_keeps_def providerAccountHealthGate_def
      sessionCount_allow_def ratePrecheck_allow_def Let_def split: option.splits prod.splits)

lemma or_gate_keeps: "slot_keeps g \<Longrightarrow> slot_keeps d \<Longrightarrow> slot_keeps (or_gate g d)"
  by (cases g) simp_all

lemma gates_of_defaults: "gates_of (withDefaults t c) = map2 or_gate (gates_of c) (gates_of (defaultGateChain t))"
  by (simp add: gates_of_def withDefaults_def Let_def)

lemma length_gates [simp]: "length (gates_of c) = 16"
  by (simp add: gates_of_def)

lemma list_all_map2:
  "length xs = length ys \<Longrightarrow> list_all P xs \<Longrightarrow> list_all P ys \<Longrightarrow> (\<And>x y. P x \<Longrightarrow> P y \<Longrightarrow> P (f x y)) \<Longrightarrow>
   list_all P (map2 f xs ys)"
  by (induction xs ys rule: list_induct2) simp_all

lemma withDefaults_keeps: "list_all slot_keeps (gates_of c) \<Longrightarrow> list_all slot_keeps (gates_of (withDefaults t c))"
  unfolding gates_of_defaults by (rule list_all_map2 [OF _ _ default_keeps]) (simp_all add: or_gate_keeps)

lemma prepare_keeps [simp]:
  "slot_keeps g \<Longrightarrow> present_keeps (fst (prepareGate g q w))" "slot_keeps g \<Longrightarrow> pw_rest (snd (prepareGate g q w)) = pw_rest w"
  by (auto simp: slot_keeps_def present_keeps_def prepareGate_def split_beta split: option.splits)

lemma present: "slot_keeps g \<Longrightarrow> present_keeps g"
  by (auto simp: slot_keeps_def present_keeps_def split: option.splits)

lemma forSelection_keeps:
  assumes "list_all slot_keeps (gates_of c)"
  shows "list_all present_keeps (gates_of (fst (forSelection t c q w)))" "pw_rest (snd (forSelection t c q w)) = pw_rest w"
proof -
  define d where "d = withDefaults t c"
  have k: "list_all slot_keeps (gates_of d)" unfolding d_def by (rule withDefaults_keeps [OF assms])
  show "list_all present_keeps (gates_of (fst (forSelection t c q w)))" "pw_rest (snd (forSelection t c q w)) = pw_rest w"
    using k present [of "gc_protocol d"] unfolding forSelection_def Let_def split_beta d_def [symmetric]
    by (simp_all add: gates_of_def)
qed

lemma ordered_gates: "map fst (ordered t c) = map the (gates_of (withDefaults t c))"
  by (simp add: ordered_def gates_of_def Let_def)

lemma or_gate_present: "present_keeps g \<Longrightarrow> present_keeps d \<Longrightarrow> present_keeps (or_gate g d)"
  by (cases g) simp_all

lemma or_gate_all: "length xs = length ys \<Longrightarrow> None \<notin> set ys \<Longrightarrow> None \<notin> set (map2 or_gate xs ys)"
proof (induction xs ys rule: list_induct2)
  case (Cons x xs y ys)
  then show ?case by (cases x) auto
qed simp

lemma defaults_present: "None \<notin> set (gates_of (withDefaults t c))"
  unfolding gates_of_defaults by (rule or_gate_all) (simp_all add: gates_of_def defaultGateChain_def)

lemma ordered_keeps:
  assumes "list_all present_keeps (gates_of c)" and "(g, f) \<in> set (ordered t c)"
  shows "gate_keeps g"
proof -
  have "list_all present_keeps (gates_of (defaultGateChain t))"
    using default_keeps [of t] by (auto simp: list_all_iff intro: present)
  then have all: "list_all present_keeps (gates_of (withDefaults t c))"
    unfolding gates_of_defaults using assms(1) by (intro list_all_map2) (simp_all add: or_gate_present)
  have "g \<in> set (map the (gates_of (withDefaults t c)))"
    using assms(2) ordered_gates [of t c, symmetric] by force
  then obtain x where "x \<in> set (gates_of (withDefaults t c))" "g = the x" by auto
  moreover from this(1) defaults_present [of t c] have "x \<noteq> None" by metis
  moreover from this obtain g' where "x = Some g'" by blast
  ultimately show ?thesis using all by (auto simp: list_all_iff present_keeps_def)
qed

lemma chain_loop_keeps:
  "\<forall>(g, f) \<in> set gs. gate_keeps g \<Longrightarrow> pw_rest (snd (chain_loop gs a q w)) = pw_rest w"
  by (induction gs a q w rule: chain_loop.induct) (auto simp: gate_keeps_def split: prod.split, (metis snd_conv)+)

lemma chain_allow_keeps:
  "list_all present_keeps (gates_of c) \<Longrightarrow> chain_allow t c a q w = (ans, w') \<Longrightarrow> pw_rest w' = pw_rest w"
  using chain_loop_keeps [of "ordered t c" a q w] ordered_keeps [of c _ _ t] by (fastforce simp: chain_allow_def)

text \<open>The slot an outcome carries.\<close>

definition slot_of :: "selection_result \<Rightarrow> nat multiset" where
  "slot_of r = (case rs_slot r of None \<Rightarrow> {#} | Some tok \<Rightarrow> {#tok#})"

definition outcome_slot :: "layer_outcome \<Rightarrow> nat multiset" where
  "outcome_slot x = (case x of LayerResult r \<Rightarrow> slot_of r | _ \<Rightarrow> {#})"

lemma slot_of_simps [simp]:
  "slot_of (waiting_result p rr) = {#}" "slot_of (account_result a token None rr) = {#}"
  "slot_of (account_result a token (Some tok) rr) = {#tok#}" "slot_of (with_sticky_state b r) = slot_of r"
  by (simp_all add: slot_of_def waiting_result_def account_result_def with_sticky_state_def)

lemma outcome_slot_simps [simp]:
  "outcome_slot LayerNext = {#}" "outcome_slot (LayerError e) = {#}" "outcome_slot (LayerResult r) = slot_of r"
  by (simp_all add: outcome_slot_def)

lemma ledger_claims:
  "slot_ledger s held \<Longrightarrow> sl_claims s = Some write \<Longrightarrow> write i j k tok d = (e, d') \<Longrightarrow> held d' = held d"
  unfolding slot_ledger_def by (metis snd_conv)

lemma ledger_release: "slot_ledger s held \<Longrightarrow> held (sl_release s tok d) = held d - {#tok#}"
  unfolding slot_ledger_def by blast

lemma ledger_token: "slot_ledger s held \<Longrightarrow> sl_newToken s d = (tok, d') \<Longrightarrow> held d' = held d"
  unfolding slot_ledger_def by (metis snd_conv)

lemma ledger_acquire:
  "slot_ledger s held \<Longrightarrow> sl_acquire s a q d = (ans, d') \<Longrightarrow>
   held d' = held d + (case ans of SlotGranted tok \<Rightarrow> (if tok = 0 then {#} else {#tok#}) | _ \<Rightarrow> {#})"
  unfolding slot_ledger_def by (metis fst_conv snd_conv)

lemma ledger_upsert:
  "slot_ledger s held \<Longrightarrow> sl_sticky s = Some store \<Longrightarrow> st_upsert store = Some up \<Longrightarrow> held (up i h m k d) = held d"
  unfolding slot_ledger_def by blast

lemma finish_slots:
  assumes "slot_ledger s held" and "held (pw_rest w) = H + {#token#}"
    and "finish_acquisition s q a token rr w = (out, rr', w')"
  shows "held (pw_rest w') = H + outcome_slot out"
  using assms
  by (auto simp: finish_acquisition_def Let_def ledger_release split: if_splits option.splits prod.splits
      dest: ledger_claims [OF assms(1)])

lemma acquire_slots:
  assumes "slot_ledger s held" and "acquire_slot s q layer pol a rr w = (out, rr', w')"
  shows "held (pw_rest w') = held (pw_rest w) + outcome_slot out"
proof -
  obtain ans d where k: "sl_acquire s a q (pw_rest w) = (ans, d)" by fastforce
  note h = ledger_acquire [OF assms(1) k]
  note unf = acquire_slot_def [of s q layer pol a rr w, unfolded k Let_def prod.case]
  show ?thesis
  proof (cases ans)
    case (SlotDenied e)
    with assms(2) h unf show ?thesis by (auto split: if_splits option.splits)
  next
    case SlotNothing
    with assms(2) h unf show ?thesis by auto
  next
    case (SlotGranted tok)
    show ?thesis
    proof (cases "tok = 0")
      case True
      with SlotGranted assms(2) h unf show ?thesis by auto
    next
      case False
      with SlotGranted h have "held (pw_rest (w\<lparr>pw_rest := d\<rparr>)) = held (pw_rest w) + {#tok#}" by simp
      from finish_slots [OF assms(1) this] SlotGranted False assms(2) unf show ?thesis by simp
    qed
  qed
qed

lemma try_account_slots:
  assumes "slot_ledger s held" and "list_all present_keeps (gates_of gates)"
    and "try_account s t gates q layer pol a (rr, w) = (out, rr', w')"
  shows "held (pw_rest w') = held (pw_rest w) + outcome_slot out"
proof -
  obtain ok why err w1 where c: "chain_allow t gates (Some a) q w = ((ok, why, err), w1)" by (metis prod_cases4 prod.exhaust)
  have r: "pw_rest w1 = pw_rest w" by (rule chain_allow_keeps [OF assms(2) c])
  obtain tok d where n: "sl_newToken s (pw_rest w1) = (tok, d)" by fastforce
  note unf = try_account_def [of s t gates q layer pol a "(rr, w)", unfolded Let_def prod.case c n]
  show ?thesis
  proof (cases "err = None \<and> ok \<and> \<not> (sr_claim q = 0 \<and> sr_maxParallel q \<le> 0)")
    case True
    with assms(3) unf have "\<exists>rr2. acquire_slot s q layer pol a rr2 w1 = (out, rr', w')" by auto
    with acquire_slots [OF assms(1)] r show ?thesis by metis
  next
    case False
    with assms(3) unf r ledger_token [OF assms(1) n] show ?thesis by (cases err; cases ok) auto
  qed
qed

lemma try_accounts_slots:
  assumes "slot_ledger s held" and "list_all present_keeps (gates_of gates)"
  shows "try_accounts s t gates q layer pol as (rr, w) = (out, rr', w') \<Longrightarrow>
    held (pw_rest w') = held (pw_rest w) + outcome_slot out"
proof (induction as arbitrary: rr w)
  case Nil
  then show ?case by simp
next
  case (Cons a as)
  obtain x rr1 w1 where h: "try_account s t gates q layer pol a (rr, w) = (x, rr1, w1)" by (metis prod_cases3)
  note step = try_account_slots [OF assms h]
  show ?case
  proof (cases x)
    case LayerNext
    with Cons h step show ?thesis by simp
  next
    case (LayerError e)
    with Cons.prems h step show ?thesis by simp
  next
    case (LayerResult r)
    with Cons.prems h step show ?thesis by simp
  qed
qed

lemma tryLayer_slots:
  assumes "slot_ledger s held" and "list_all present_keeps (gates_of gates)"
    and "tryLayer s t gates q layer pol as st = (out, rr', w')"
  shows "held (pw_rest w') = held (pw_rest (snd st)) + outcome_slot out"
  using try_accounts_slots [OF assms(1,2) assms(3) [unfolded tryLayer_def]] .

lemma trySticky_slots:
  assumes "slot_ledger s held" and "list_all present_keeps (gates_of gates)"
    and "trySticky s t gates q layer pol b al as st = (out, rr', w')"
  shows "held (pw_rest w') = held (pw_rest (snd st)) + outcome_slot out"
  using assms(3) tryLayer_slots [OF assms(1,2)]
  by (auto simp: trySticky_def split: if_splits option.splits)

lemma ranked_rest: "ranked s pol t b al as w = (out, w') \<Longrightarrow> pw_rest w' = pw_rest w"
  by (auto simp: ranked_def split: prod.splits)

lemma affinity_slots:
  assumes "slot_ledger s held" and "list_all present_keeps (gates_of gates)"
    and "affinity_layers s t gates q pol b al eligible routed st = (out, rr', w')"
  shows "held (pw_rest w') = held (pw_rest (snd st)) + outcome_slot out"
proof (cases "routed = []")
  case True
  with assms(3) trySticky_slots [OF assms(1,2)] show ?thesis by (auto simp: affinity_layers_def split: if_splits)
next
  case False
  obtain x rr1 w1 where h: "trySticky s t gates q RoutingLayerStickyWithinRoute pol b al routed st = (x, rr1, w1)"
    by (metis prod_cases3)
  obtain as w2 where k: "ranked s pol t b al routed w1 = (as, w2)" by fastforce
  note step = trySticky_slots [OF assms(1,2) h]
  show ?thesis
  proof (cases x)
    case LayerNext
    with False assms(3) h k have "tryLayer s t gates q RoutingLayerRoutingAffinity pol as (rr1, w2) = (out, rr', w')"
      by (simp add: affinity_layers_def)
    from tryLayer_slots [OF assms(1,2) this] step LayerNext ranked_rest [OF k] show ?thesis by simp
  next
    case (LayerError e)
    with False assms(3) h step show ?thesis by (auto simp: affinity_layers_def)
  next
    case (LayerResult r)
    with False assms(3) h step show ?thesis by (auto simp: affinity_layers_def)
  qed
qed

text \<open>What an answer holds: the slot of its result, nothing for an error.\<close>

definition answer_slot :: "select_error + selection_result \<Rightarrow> nat multiset" where
  "answer_slot x = (case x of Inl e \<Rightarrow> {#} | Inr r \<Rightarrow> slot_of r)"

lemma answer_slot_simps [simp]:
  "answer_slot (Inl e) = {#}" "answer_slot (Inr r) = slot_of r"
  "answer_slot (map_sum id (with_sticky_state b) x) = answer_slot x"
  by (simp_all add: answer_slot_def split: sum.split)

lemma bind_sticky_slots: "slot_ledger s held \<Longrightarrow> held (pw_rest (bind_sticky s q r w)) = held (pw_rest w)"
  by (auto simp: bind_sticky_def ledger_upsert split: option.split)

lemma fresh_slots:
  assumes "slot_ledger s held" and "list_all present_keeps (gates_of gates)"
    and "fresh_layer s t gates q pol b al accounts cands (rr, w) = (ans, w')"
  shows "held (pw_rest w') = held (pw_rest w) + answer_slot ans"
proof -
  obtain as w1 where k: "ranked s pol t b al cands w = (as, w1)" by fastforce
  obtain out rr2 w2 where l: "tryLayer s t gates q RoutingLayerFresh pol as (rr, w1) = (out, rr2, w2)"
    by (metis prod_cases3)
  note step = tryLayer_slots [OF assms(1,2) l, unfolded snd_conv ranked_rest [OF k]]
  note unf = fresh_layer_def [of s t gates q pol b al accounts cands "(rr, w)", unfolded Let_def prod.case k l]
  show ?thesis
    using assms(3) step unf bind_sticky_slots [OF assms(1)]
    by (cases out; auto split: option.splits)
qed

lemma select_eligible_slots:
  assumes "slot_ledger s held" and "list_all present_keeps (gates_of gates)"
    and "select_eligible s t gates q pol accounts eligible (rr, w) = (ans, w')"
  shows "held (pw_rest w') = held (pw_rest w) + answer_slot ans"
proof -
  let ?routed = "modelRoute pol (sr_model q) eligible"
  obtain look where b: "lookup_sticky s q (?routed \<noteq> [] \<or> \<not> hasModelRoute pol (sr_model q)) (pw_rest w) = look" by simp
  note unf0 = select_eligible_def [of s t gates q pol accounts eligible "(rr, w)", unfolded Let_def prod.case b]
  show ?thesis
  proof (cases look)
    case (Inl e)
    with assms(3) unf0 show ?thesis by auto
  next
    case (Inr bound)
    let ?broken = "if bound \<noteq> 0 then stickyDegradationReason (accountByID accounts bound) t else []"
    let ?rr = "if ?broken \<noteq> [] then stickyBreak ?broken rr else rr"
    obtain out rr1 w1 where l: "affinity_layers s t gates q pol bound (?broken = []) eligible ?routed (?rr, w) = (out, rr1, w1)"
      by (metis prod_cases3)
    obtain ans2 w2 where f: "fresh_layer s t gates q pol bound (?broken = []) accounts
        (if hasModelRoute pol (sr_model q) then ?routed else eligible) (rr1, w1) = (ans2, w2)" by fastforce
    note unf = unf0 [unfolded Inr sum.case l prod.case f]
    note a = affinity_slots [OF assms(1,2) l] and fr = fresh_slots [OF assms(1,2) f]
    show ?thesis
      using assms(3) unf a fr by (cases out) auto
  qed
qed

lemma filter_rest:
  assumes "list_all present_keeps (gates_of gates)"
  shows "filter_accounts t gates q as (rr, w) = (ans, rr', w') \<Longrightarrow> pw_rest w' = pw_rest w"
proof (induction as arbitrary: rr w ans)
  case Nil
  then show ?case by simp
next
  case (Cons y as)
  show ?case
  proof (cases y)
    case None
    with Cons show ?thesis by simp
  next
    case (Some x)
    let ?a = "normalizeAccountSnapshotWeight x"
    obtain ok why err w1 where c: "chain_allow t gates (Some ?a) q w = ((ok, why, err), w1)" by (metis prod_cases4 prod.exhaust)
    obtain b rr2 where h: "with_health_state gates q ?a (rr, w1) = (b, rr2)" by fastforce
    obtain ans2 rr3 w2 where f: "filter_accounts t gates q as (rr2, w1) = (ans2, rr3, w2)" by (metis prod_cases3)
    obtain ans4 rr4 w4 where g: "filter_accounts t gates q as (gateFailure (as_id ?a) why rr, w1) = (ans4, rr4, w4)"
      by (metis prod_cases3)
    note r = chain_allow_keeps [OF assms c]
    note unf = filter_accounts.simps(3) [of t gates q x as "(rr, w)", unfolded Let_def prod.case c h f g]
    show ?thesis
      using Cons.prems [unfolded Some unf] Cons.IH [of _ _ ans2] Cons.IH [of _ _ ans4] f g r
      by (cases err; cases ok; cases b; cases ans2) auto
  qed
qed

text \<open>
  C36. A selection ends with exactly the slot its result carries: an error, a place in a queue and a
  request without a claim hold none, and a slot taken for a claim that cannot be written is given
  back.
\<close>

theorem selection_slots_accounted:
  assumes "slot_ledger s held" and "list_all slot_keeps (gates_of (sl_gates s))"
  shows "held (pw_rest (snd (pool_select s t q w))) = held (pw_rest w) + answer_slot (fst (pool_select s t q w))"
proof -
  obtain gates w1 where g: "forSelection t (sl_gates s) q w = (gates, w1)" by fastforce
  have keeps: "list_all present_keeps (gates_of gates)" and r: "pw_rest w1 = pw_rest w"
    using forSelection_keeps [OF assms(2), of t q w] g by simp_all
  show ?thesis
  proof (cases "\<exists>accounts. (\<exists>listing. sl_accounts s = Some listing \<and> listing q (pw_rest w) = Inr accounts) \<and>
      (\<exists>pol. routing_policy_of s q (pw_rest w) = Inr pol)")
    case False
    then show ?thesis by (auto simp: pool_select_def split: option.split sum.split)
  next
    case True
    then obtain accounts listing pol where a: "sl_accounts s = Some listing" "listing q (pw_rest w) = Inr accounts"
      "routing_policy_of s q (pw_rest w) = Inr pol" by blast
    obtain ans rr w2 where f: "filter_accounts t gates q accounts (newRoutingReason q, w1) = (ans, rr, w2)"
      by (metis prod_cases3)
    note r2 = filter_rest [OF keeps, OF f]
    note unf = pool_select_def [of s t q w, unfolded a option.case sum.case g Let_def prod.case f]
    show ?thesis
    proof (cases ans)
      case (Inl e)
      with unf r r2 show ?thesis by simp
    next
      case (Inr eligible)
      obtain x w3 where e: "select_eligible s t gates q pol accounts eligible (rr, w2) = (x, w3)" by fastforce
      from unf Inr r r2 e select_eligible_slots [OF assms(1) keeps e] show ?thesis by simp
    qed
  qed
qed

lemma ex_ledger: "slot_ledger (ex_selector as) mset"
proof -
  have "\<not> 100 + \<bar>i\<bar> \<le> 0" for i :: int by arith
  then show ?thesis by (simp add: slot_ledger_def ex_selector_def ex_acquire_def)
qed

lemma selection_slots_accounted_witness:
  "mset (pw_rest (snd ex_answer)) = {#102#} \<and> answer_slot (fst ex_answer) = {#102#}"
proof -
  have "list_all slot_keeps (gates_of (sl_gates (ex_selector [ex_account 1, ex_account 2])))"
    by (simp add: ex_selector_def no_gates_def gates_of_def slot_keeps_def)
  from selection_slots_accounted [OF ex_ledger this, of 0 ex_request ex_pool]
  have "mset (pw_rest (snd ex_answer)) = answer_slot (fst ex_answer)"
    by (simp add: ex_answer_def ex_pool_def)
  then show ?thesis using ex_answer_held by simp
qed

end
