(* ===== verification/Payment_Store.thy ===== *)
theory Payment_Store
  imports Prelude "HOL-Library.AList"
begin

text \<open>
  Payment orders over the in-memory store (backend/internal/payment: types.go, store.go,
  store_memory.go and the defaults of store_postgres_tx.go). Orders, credits and refunds are
  association lists in the order of their ids. Amounts are mathematical integers: an order is at
  most \<open>10 ^ 11\<close> cents, so a sum of less than ninety million of them fits 64 bits. Compliance
  fields and the texts of failures are left out, they are never read. A trade number or a refund key
  whose order is gone would be a nil dereference in the code; here it is an error, and the invariant
  excludes it. The mutex makes every call
  atomic.
\<close>

section \<open>Data\<close>

datatype order_status =
  StatusPending | StatusPaid | StatusRecharging | StatusCompleted | StatusRefunded | StatusExpired
| StatusCancelled | StatusFailed

datatype pay_error =
  ErrOrderNotFound | ErrInvalidAmount | ErrInvalidInput | ErrOrderNotConfirmable | ErrOrderNotFulfillable
| ErrOrderNotCancelable | ErrOrderNotRefundable | ErrRefundExceedsAvailable | ErrRefundExceedsCredit
| ErrRefundUnsupportedKind | ErrSubscriptionOrderRequiresPG | ErrIdempotencyConflict
| ErrRefundIdempotencyConflict | ErrRefundFactInvalid | ErrProviderUnknown | ErrUnsupportedCurrency
| ErrProviderNoCallback | ErrCallbackUnverified | ErrCallbackRejected | ErrPendingLimit | ErrDailyAmountLimit
| ErrTradeNoSource


record pay_order =
  po_id :: int
  po_tenant :: int
  po_user :: int
  po_tradeNo :: string
  po_amount :: int
  po_currency :: string
  po_status :: order_status
  po_provider :: string
  po_ref :: string
  po_fingerprint :: string
  po_confirmedBy :: int
  po_confirmReason :: string
  po_kind :: string
  po_plan :: "int option"
  po_created :: instant
  po_updated :: instant
  po_expires :: "instant option"
  po_paidAt :: "instant option"
  po_rechargingAt :: "instant option"
  po_completedAt :: "instant option"

record credit =
  cr_id :: int
  cr_tenant :: int
  cr_order :: int
  cr_user :: int
  cr_amount :: int
  cr_currency :: string
  cr_reason :: string
  cr_billing :: int
  cr_at :: instant

record refund =
  rf_id :: int
  rf_tenant :: int
  rf_order :: int
  rf_user :: int
  rf_amount :: int
  rf_requested :: int
  rf_exact :: bool
  rf_currency :: string
  rf_key :: string
  rf_reason :: string
  rf_actorKind :: string
  rf_actor :: int
  rf_actorRef :: string
  rf_billing :: int
  rf_at :: instant

record pay_audit =
  pa_id :: int
  pa_tenant :: int
  pa_order :: int
  pa_event :: string
  pa_actorKind :: string
  pa_actor :: int
  pa_reason :: string
  pa_request :: string

record pay_store =
  ps_orders :: "(int \<times> pay_order) list"
  ps_byTrade :: "(string \<times> int) list"
  ps_credits :: "(int \<times> credit) list"
  ps_refunds :: "(int \<times> refund) list"
  ps_refundKeys :: "(string \<times> int) list"
  ps_audits :: "pay_audit list"
  ps_nextOrder :: int
  ps_nextCredit :: int
  ps_nextRefund :: int
  ps_nextBilling :: int
  ps_nextAudit :: int

definition newPayStore :: pay_store where
  "newPayStore =
     \<lparr> ps_orders = [], ps_byTrade = [], ps_credits = [], ps_refunds = [], ps_refundKeys = [], ps_audits = [],
       ps_nextOrder = 0, ps_nextCredit = 0, ps_nextRefund = 0, ps_nextBilling = 0, ps_nextAudit = 0 \<rparr>"

record create_record =
  cq_tenant :: int
  cq_user :: int
  cq_tradeNo :: string
  cq_amount :: int
  cq_currency :: string
  cq_provider :: string
  cq_ref :: string
  cq_fingerprint :: string
  cq_byAdmin :: int
  cq_actorKind :: string
  cq_actor :: int
  cq_request :: string
  cq_expires :: "instant option"
  cq_kind :: string
  cq_plan :: "int option"
  cq_maxPending :: int
  cq_dailyLimit :: int
  cq_now :: instant

text \<open>The confirm, cancel and fulfil records of the source differ only in unused fields.\<close>

record order_call =
  oc_tenant :: int
  oc_order :: int
  oc_user :: int
  oc_actorKind :: string
  oc_actor :: int
  oc_reason :: string
  oc_request :: string
  oc_now :: instant

record refund_record =
  rq_tenant :: int
  rq_order :: int
  rq_amount :: int
  rq_exact :: bool
  rq_key :: string
  rq_reason :: string
  rq_actorKind :: string
  rq_actor :: int
  rq_actorRef :: string
  rq_request :: string
  rq_now :: instant

record fulfill_result =
  fr_order :: pay_order
  fr_credit :: credit
  fr_balance :: int
  fr_idempotent :: bool

text \<open>The refund of an already satisfied request is the zero record of the source, here \<open>None\<close>.\<close>

record refund_result =
  rr_order :: pay_order
  rr_refund :: "refund option"
  rr_balance :: int
  rr_refunded :: int
  rr_remaining :: int
  rr_idempotent :: bool
  rr_satisfied :: bool

section \<open>Helpers\<close>

definition providerKindOrDefault :: "string \<Rightarrow> string" where
  "providerKindOrDefault k = (if k = [] then ''manual'' else k)"

definition orderKindOrDefault :: "string \<Rightarrow> string" where
  "orderKindOrDefault k = (if k = [] then ''topup'' else k)"

definition actorKindOrDefault :: "string \<Rightarrow> string" where
  "actorKindOrDefault k = (if k \<in> {''admin'', ''user'', ''system''} then k else ''system'')"

definition reasonClassForProvider :: "string \<Rightarrow> string" where
  "reasonClassForProvider k = (if k = ''test'' then ''test_provider_paid'' else ''manual_confirmed'')"

definition stringJoin :: "int \<Rightarrow> string \<Rightarrow> string" where
  "stringJoin tenant s = int_string tenant @ ''|'' @ s"

text \<open>\<open>strings.EqualFold\<close> on ASCII.\<close>

definition lower_char :: "char \<Rightarrow> char" where
  "lower_char c = (if 65 \<le> (of_char c :: nat) \<and> (of_char c :: nat) \<le> 90 then char_of (of_char c + 32 :: nat) else c)"

definition equalFold :: "string \<Rightarrow> string \<Rightarrow> bool" where
  "equalFold a b \<longleftrightarrow> map lower_char a = map lower_char b"

definition paymentOrderExpired :: "pay_order \<Rightarrow> instant \<Rightarrow> bool" where
  "paymentOrderExpired x now = (case po_expires x of None \<Rightarrow> False | Some t \<Rightarrow> \<not> now < t)"

definition pay_auditActorKind :: "create_record \<Rightarrow> string" where
  "pay_auditActorKind q =
     (if cq_actorKind q \<noteq> [] then cq_actorKind q else if 0 < cq_byAdmin q then ''admin'' else ''system'')"

definition pay_auditActorID :: "create_record \<Rightarrow> int" where
  "pay_auditActorID q = (if 0 < cq_actor q then cq_actor q else if 0 < cq_byAdmin q then cq_byAdmin q else 0)"

definition pay_appendAudit :: "int \<Rightarrow> int \<Rightarrow> string \<Rightarrow> string \<Rightarrow> int \<Rightarrow> string \<Rightarrow> string \<Rightarrow> pay_store \<Rightarrow> pay_store" where
  "pay_appendAudit tenant order event kind actor reason request s =
     s\<lparr> ps_nextAudit := ps_nextAudit s + 1,
        ps_audits := ps_audits s @
          [\<lparr> pa_id = ps_nextAudit s + 1, pa_tenant = tenant, pa_order = order, pa_event = event,
             pa_actorKind = actorKindOrDefault kind, pa_actor = actor, pa_reason = reason, pa_request = request \<rparr>] \<rparr>"

definition put_order :: "pay_order \<Rightarrow> pay_store \<Rightarrow> pay_store" where
  "put_order x s = s\<lparr> ps_orders := AList.update (po_id x) x (ps_orders s) \<rparr>"

definition pay_balance :: "int \<Rightarrow> int \<Rightarrow> pay_store \<Rightarrow> int" where
  "pay_balance tenant user s =
     sum_list (map (\<lambda>(_, c). cr_amount c) (filter (\<lambda>(_, c). cr_tenant c = tenant \<and> cr_user c = user) (ps_credits s)))
     - sum_list (map (\<lambda>(_, r). rf_amount r) (filter (\<lambda>(_, r). rf_tenant r = tenant \<and> rf_user r = user) (ps_refunds s)))"

definition refundTotalForOrder :: "int \<Rightarrow> int \<Rightarrow> pay_store \<Rightarrow> int" where
  "refundTotalForOrder tenant order s =
     sum_list (map (\<lambda>(_, r). rf_amount r) (filter (\<lambda>(_, r). rf_tenant r = tenant \<and> rf_order r = order) (ps_refunds s)))"

definition paymentRefundProgress :: "int \<Rightarrow> int \<Rightarrow> pay_error + order_status \<times> int" where
  "paymentRefundProgress credited refunded =
     (if credited \<le> 0 \<or> refunded < 0 \<or> credited < refunded then Inl ErrRefundFactInvalid
      else if credited - refunded = 0 then Inr (StatusRefunded, 0)
      else Inr (StatusCompleted, credited - refunded))"

definition paymentRefundAmount :: "int \<Rightarrow> int \<Rightarrow> int \<Rightarrow> bool \<Rightarrow> pay_error + int \<times> bool" where
  "paymentRefundAmount credited refunded requested exact =
     (case paymentRefundProgress credited refunded of
        Inl e \<Rightarrow> Inl e
      | Inr (_, remaining) \<Rightarrow>
          if requested \<le> 0 then Inl ErrInvalidAmount
          else if exact
          then (if credited < requested then Inl ErrRefundExceedsCredit
                else if requested \<le> refunded then Inr (0, True)
                else Inr (requested - refunded, False))
          else if remaining < requested then Inl ErrRefundExceedsCredit
          else Inr (requested, False))"

definition paymentRefundMatchesRequest :: "refund \<Rightarrow> refund_record \<Rightarrow> bool" where
  "paymentRefundMatchesRequest r q \<longleftrightarrow>
     rf_order r = rq_order q \<and> rf_requested r = rq_amount q \<and> rf_exact r = rq_exact q \<and>
     trim_space (rf_reason r) = trim_space (rq_reason q) \<and> rf_actorKind r = actorKindOrDefault (rq_actorKind q) \<and>
     rf_actor r = rq_actor q \<and> trim_space (rf_actorRef r) = trim_space (rq_actorRef q)"

section \<open>Operations\<close>

definition same_create :: "pay_order \<Rightarrow> create_record \<Rightarrow> bool" where
  "same_create x q \<longleftrightarrow>
     po_amount x = cq_amount q \<and> po_user x = cq_user q \<and> po_provider x = providerKindOrDefault (cq_provider q) \<and>
     po_fingerprint x = trim_space (cq_fingerprint q) \<and> po_kind x = orderKindOrDefault (cq_kind q) \<and>
     po_plan x = cq_plan q \<and> equalFold (po_currency x) (cq_currency q)"

definition countPending :: "int \<Rightarrow> int \<Rightarrow> instant \<Rightarrow> pay_store \<Rightarrow> int" where
  "countPending tenant user now s =
     int (length (filter (\<lambda>(_, x). po_tenant x = tenant \<and> po_user x = user \<and> po_status x = StatusPending
                                    \<and> \<not> paymentOrderExpired x now) (ps_orders s)))"

definition counts_today :: "pay_order \<Rightarrow> instant \<Rightarrow> bool" where
  "counts_today x now \<longleftrightarrow>
     (case po_status x of
        StatusPending \<Rightarrow> \<not> paymentOrderExpired x now
      | StatusPaid \<Rightarrow> True | StatusRecharging \<Rightarrow> True | StatusCompleted \<Rightarrow> True
      | _ \<Rightarrow> False)"

definition sumRecharge :: "int \<Rightarrow> int \<Rightarrow> instant \<Rightarrow> instant \<Rightarrow> pay_store \<Rightarrow> int" where
  "sumRecharge tenant user start now s =
     sum_list (map (\<lambda>(_, x). po_amount x)
       (filter (\<lambda>(_, x). po_tenant x = tenant \<and> po_user x = user \<and> \<not> po_created x < start \<and> counts_today x now) (ps_orders s)))"

text \<open>Midnight of the day of an instant; day boundaries lie at multiples of 24 hours since the epoch.\<close>

definition day_start :: "instant \<Rightarrow> instant" where
  "day_start t = t - t mod (24 * hour)"

definition createOrder :: "create_record \<Rightarrow> pay_store \<Rightarrow> (pay_error + pay_order \<times> bool) \<times> pay_store" where
  "createOrder q s =
     (let key = stringJoin (cq_tenant q) (cq_tradeNo q)
      in case map_of (ps_byTrade s) key of
           Some i \<Rightarrow>
             (case map_of (ps_orders s) i of
                None \<Rightarrow> (Inl ErrOrderNotFound, s)
              | Some x \<Rightarrow>
                  if \<not> same_create x q then (Inl ErrIdempotencyConflict, s)
                  else (Inr (x, True),
                        pay_appendAudit (cq_tenant q) (po_id x) ''idempotent_replay'' (pay_auditActorKind q) (pay_auditActorID q)
                          [] (cq_request q) s))
         | None \<Rightarrow>
             if 0 < cq_maxPending q \<and> cq_maxPending q \<le> countPending (cq_tenant q) (cq_user q) (cq_now q) s
             then (Inl ErrPendingLimit, s)
             else if 0 < cq_dailyLimit q \<and>
                     cq_dailyLimit q < sumRecharge (cq_tenant q) (cq_user q) (day_start (cq_now q)) (cq_now q) s + cq_amount q
             then (Inl ErrDailyAmountLimit, s)
             else
               (let i = ps_nextOrder s + 1;
                    x = \<lparr> po_id = i, po_tenant = cq_tenant q, po_user = cq_user q, po_tradeNo = cq_tradeNo q,
                          po_amount = cq_amount q, po_currency = cq_currency q, po_status = StatusPending,
                          po_provider = providerKindOrDefault (cq_provider q), po_ref = cq_ref q, po_fingerprint = cq_fingerprint q,
                          po_confirmedBy = 0, po_confirmReason = [], po_kind = orderKindOrDefault (cq_kind q),
                          po_plan = cq_plan q, po_created = cq_now q, po_updated = cq_now q, po_expires = cq_expires q,
                          po_paidAt = None, po_rechargingAt = None, po_completedAt = None \<rparr>;
                    s = s\<lparr> ps_nextOrder := i, ps_orders := AList.update i x (ps_orders s),
                           ps_byTrade := AList.update key i (ps_byTrade s) \<rparr>
                in (Inr (x, False),
                    pay_appendAudit (cq_tenant q) i ''order_created'' (pay_auditActorKind q) (pay_auditActorID q) [] (cq_request q) s)))"

definition getOrder :: "int \<Rightarrow> int \<Rightarrow> pay_store \<Rightarrow> pay_error + pay_order" where
  "getOrder tenant i s =
     (case map_of (ps_orders s) i of
        None \<Rightarrow> Inl ErrOrderNotFound
      | Some x \<Rightarrow> if po_tenant x \<noteq> tenant then Inl ErrOrderNotFound else Inr x)"

definition getOrderByOutTradeNo :: "int \<Rightarrow> string \<Rightarrow> pay_store \<Rightarrow> pay_error + pay_order" where
  "getOrderByOutTradeNo tenant tradeNo s =
     (case map_of (ps_byTrade s) (stringJoin tenant tradeNo) of
        None \<Rightarrow> Inl ErrOrderNotFound
      | Some i \<Rightarrow> (case map_of (ps_orders s) i of None \<Rightarrow> Inl ErrOrderNotFound | Some x \<Rightarrow> Inr x))"

definition confirmPaid :: "order_call \<Rightarrow> pay_store \<Rightarrow> (pay_error + pay_order) \<times> pay_store" where
  "confirmPaid q s =
     (case getOrder (oc_tenant q) (oc_order q) s of
        Inl e \<Rightarrow> (Inl e, s)
      | Inr x \<Rightarrow>
          (case po_status x of
             StatusPending \<Rightarrow>
               if (case po_expires x of None \<Rightarrow> False | Some t \<Rightarrow> t < oc_now q)
               then (Inl ErrOrderNotConfirmable,
                     pay_appendAudit (oc_tenant q) (po_id x) ''order_expired'' ''system'' 0 [] (oc_request q)
                       (put_order (x\<lparr> po_status := StatusExpired, po_updated := oc_now q \<rparr>) s))
               else
                 (let x = x\<lparr> po_status := StatusPaid, po_paidAt := Some (oc_now q), po_confirmedBy := oc_actor q,
                             po_confirmReason := oc_reason q, po_updated := oc_now q \<rparr>
                  in (Inr x, pay_appendAudit (oc_tenant q) (po_id x) ''paid_confirmed'' (actorKindOrDefault (oc_actorKind q))
                               (oc_actor q) (oc_reason q) (oc_request q) (put_order x s)))
           | StatusPaid \<Rightarrow> (Inr x, s)
           | StatusRecharging \<Rightarrow> (Inr x, s)
           | StatusCompleted \<Rightarrow> (Inr x, s)
           | _ \<Rightarrow> (Inl ErrOrderNotConfirmable, s)))"

definition cancelOrder :: "order_call \<Rightarrow> pay_store \<Rightarrow> (pay_error + pay_order) \<times> pay_store" where
  "cancelOrder q s =
     (case getOrder (oc_tenant q) (oc_order q) s of
        Inl e \<Rightarrow> (Inl e, s)
      | Inr x \<Rightarrow>
          if 0 < oc_user q \<and> po_user x \<noteq> oc_user q then (Inl ErrOrderNotFound, s)
          else (case po_status x of
                  StatusPending \<Rightarrow>
                    (let x = x\<lparr> po_status := StatusCancelled, po_updated := oc_now q \<rparr>
                     in (Inr x, pay_appendAudit (oc_tenant q) (po_id x) ''order_cancelled'' (actorKindOrDefault (oc_actorKind q))
                                  (oc_actor q) (oc_reason q) (oc_request q) (put_order x s)))
                | StatusCancelled \<Rightarrow> (Inr x, s)
                | _ \<Rightarrow> (Inl ErrOrderNotCancelable, s)))"

definition beginFulfill :: "order_call \<Rightarrow> pay_store \<Rightarrow> (pay_error + pay_order \<times> bool) \<times> pay_store" where
  "beginFulfill q s =
     (case getOrder (oc_tenant q) (oc_order q) s of
        Inl e \<Rightarrow> (Inl e, s)
      | Inr x \<Rightarrow>
          (case po_status x of
             StatusPaid \<Rightarrow>
               (let x = x\<lparr> po_status := StatusRecharging, po_rechargingAt := Some (oc_now q), po_updated := oc_now q \<rparr>
                in (Inr (x, False), pay_appendAudit (oc_tenant q) (po_id x) ''fulfillment_started''
                      (actorKindOrDefault (oc_actorKind q)) (oc_actor q) [] (oc_request q) (put_order x s)))
           | StatusRecharging \<Rightarrow> (Inr (x, False), s)
           | StatusCompleted \<Rightarrow> (Inr (x, True), s)
           | _ \<Rightarrow> (Inl ErrOrderNotFulfillable, s)))"

definition completeFulfill :: "order_call \<Rightarrow> pay_store \<Rightarrow> (pay_error + fulfill_result) \<times> pay_store" where
  "completeFulfill q s =
     (case getOrder (oc_tenant q) (oc_order q) s of
        Inl e \<Rightarrow> (Inl e, s)
      | Inr x \<Rightarrow>
          if po_kind x = ''subscription'' then (Inl ErrSubscriptionOrderRequiresPG, s)
          else if po_status x = StatusCompleted
          then (case map_of (ps_credits s) (po_id x) of
                  None \<Rightarrow> (Inl ErrOrderNotFound, s)
                | Some c \<Rightarrow> (Inr \<lparr> fr_order = x, fr_credit = c, fr_balance = pay_balance (oc_tenant q) (po_user x) s,
                                  fr_idempotent = True \<rparr>, s))
          else if po_status x \<noteq> StatusRecharging then (Inl ErrOrderNotFulfillable, s)
          else
            (let c = \<lparr> cr_id = ps_nextCredit s + 1, cr_tenant = oc_tenant q, cr_order = po_id x, cr_user = po_user x,
                       cr_amount = po_amount x, cr_currency = po_currency x,
                       cr_reason = reasonClassForProvider (po_provider x), cr_billing = ps_nextBilling s + 1, cr_at = oc_now q \<rparr>;
                 x = x\<lparr> po_status := StatusCompleted, po_completedAt := Some (oc_now q), po_updated := oc_now q \<rparr>;
                 s = put_order x (s\<lparr> ps_nextCredit := ps_nextCredit s + 1, ps_nextBilling := ps_nextBilling s + 1,
                                     ps_credits := AList.update (po_id x) c (ps_credits s) \<rparr>);
                 s = pay_appendAudit (oc_tenant q) (po_id x) ''credited'' (actorKindOrDefault (oc_actorKind q)) (oc_actor q)
                       [] (oc_request q) s
             in (Inr \<lparr> fr_order = x, fr_credit = c, fr_balance = pay_balance (oc_tenant q) (po_user x) s,
                       fr_idempotent = False \<rparr>, s)))"

definition refund_replay :: "refund_record \<Rightarrow> int \<Rightarrow> pay_store \<Rightarrow> pay_error + refund_result" where
  "refund_replay q i s =
     (case map_of (ps_refunds s) i of
        None \<Rightarrow> Inl ErrRefundFactInvalid
      | Some r \<Rightarrow>
          if \<not> paymentRefundMatchesRequest r q then Inl ErrRefundIdempotencyConflict
          else
            (case (map_of (ps_orders s) (rf_order r), map_of (ps_credits s) (rf_order r)) of
               (Some x, Some c) \<Rightarrow>
                 if rf_tenant r \<noteq> po_tenant x \<or> rf_user r \<noteq> po_user x \<or> rf_currency r \<noteq> po_currency x
                 then Inl ErrRefundFactInvalid
                 else
                   (let sum = refundTotalForOrder (po_tenant x) (po_id x) s
                    in case paymentRefundProgress (cr_amount c) sum of
                         Inl e \<Rightarrow> Inl ErrRefundFactInvalid
                       | Inr (st, remaining) \<Rightarrow>
                           if po_status x \<noteq> st \<or> (rf_exact r \<and> sum < rf_requested r) then Inl ErrRefundFactInvalid
                           else Inr \<lparr> rr_order = x, rr_refund = Some r,
                                      rr_balance = pay_balance (rq_tenant q) (rf_user r) s, rr_refunded = sum,
                                      rr_remaining = remaining, rr_idempotent = True, rr_satisfied = False \<rparr>)
             | _ \<Rightarrow> Inl ErrRefundFactInvalid))"

definition book_refund :: "refund_record \<Rightarrow> string \<Rightarrow> pay_order \<Rightarrow> credit \<Rightarrow> int \<Rightarrow> int \<Rightarrow> pay_store \<Rightarrow>
  (pay_error + refund_result) \<times> pay_store" where
  "book_refund q key x c before amount s =
     (let r = \<lparr> rf_id = ps_nextRefund s + 1, rf_tenant = rq_tenant q, rf_order = po_id x, rf_user = po_user x,
                rf_amount = amount, rf_requested = rq_amount q, rf_exact = rq_exact q, rf_currency = po_currency x,
                rf_key = rq_key q, rf_reason = rq_reason q, rf_actorKind = actorKindOrDefault (rq_actorKind q),
                rf_actor = rq_actor q, rf_actorRef = trim_space (rq_actorRef q), rf_billing = ps_nextBilling s + 1,
                rf_at = rq_now q \<rparr>;
          s = s\<lparr> ps_nextRefund := ps_nextRefund s + 1, ps_nextBilling := ps_nextBilling s + 1,
                 ps_refunds := AList.update (rf_id r) r (ps_refunds s),
                 ps_refundKeys := AList.update key (rf_id r) (ps_refundKeys s) \<rparr>
      in case paymentRefundProgress (cr_amount c) (before + amount) of
           Inl e \<Rightarrow> (Inl e, s)
         | Inr (st, remaining) \<Rightarrow>
             (let x = x\<lparr> po_status := st, po_updated := rq_now q \<rparr>;
                  s = pay_appendAudit (rq_tenant q) (po_id x) ''order_refunded'' (rf_actorKind r) (rq_actor q)
                        (rq_reason q) (rq_request q) (put_order x s)
              in (Inr \<lparr> rr_order = x, rr_refund = Some r, rr_balance = pay_balance (rq_tenant q) (po_user x) s,
                        rr_refunded = before + amount, rr_remaining = remaining, rr_idempotent = False,
                        rr_satisfied = False \<rparr>, s)))"

definition refund_order :: "refund_record \<Rightarrow> string \<Rightarrow> pay_order \<Rightarrow> credit \<Rightarrow> pay_store \<Rightarrow>
  (pay_error + refund_result) \<times> pay_store" where
  "refund_order q key x c s =
     (let before = refundTotalForOrder (po_tenant x) (po_id x) s
      in case paymentRefundProgress (cr_amount c) before of
           Inl e \<Rightarrow> (Inl ErrRefundFactInvalid, s)
         | Inr (st, remaining) \<Rightarrow>
             if po_status x \<noteq> st then (Inl ErrRefundFactInvalid, s)
             else
               (case paymentRefundAmount (cr_amount c) before (rq_amount q) (rq_exact q) of
                  Inl e \<Rightarrow> (Inl e, s)
                | Inr (amount, satisfied) \<Rightarrow>
                    if satisfied
                    then (Inr \<lparr> rr_order = x, rr_refund = None, rr_balance = pay_balance (rq_tenant q) (po_user x) s,
                                rr_refunded = before, rr_remaining = remaining, rr_idempotent = True, rr_satisfied = True \<rparr>, s)
                    else if pay_balance (rq_tenant q) (po_user x) s < amount then (Inl ErrRefundExceedsAvailable, s)
                    else book_refund q key x c before amount s))"

definition refundOrder :: "refund_record \<Rightarrow> pay_store \<Rightarrow> (pay_error + refund_result) \<times> pay_store" where
  "refundOrder q s =
     (if trim_space (rq_key q) = [] then (Inl ErrInvalidInput, s)
      else
        (let key = stringJoin (rq_tenant q) (rq_key q)
         in case map_of (ps_refundKeys s) key of
              Some i \<Rightarrow> (refund_replay q i s, s)
            | None \<Rightarrow>
                (case getOrder (rq_tenant q) (rq_order q) s of
                   Inl e \<Rightarrow> (Inl e, s)
                 | Inr x \<Rightarrow>
                     if po_kind x \<noteq> ''topup'' then (Inl ErrRefundUnsupportedKind, s)
                     else if po_status x \<noteq> StatusCompleted \<and> po_status x \<noteq> StatusRefunded
                     then (Inl ErrOrderNotRefundable, s)
                     else (case map_of (ps_credits s) (po_id x) of
                             None \<Rightarrow> (Inl ErrOrderNotRefundable, s)
                           | Some c \<Rightarrow> refund_order q key x c s))))"

text \<open>The ids to expire, in ascending order, at most \<open>limit\<close> of them.\<close>

definition stale_pending :: "instant \<Rightarrow> pay_store \<Rightarrow> int list" where
  "stale_pending now s =
     sort (map fst (filter (\<lambda>(_, x). po_status x = StatusPending \<and>
       (case po_expires x of None \<Rightarrow> False | Some t \<Rightarrow> t < now)) (ps_orders s)))"

definition expire_one :: "instant \<Rightarrow> int \<Rightarrow> pay_store \<Rightarrow> pay_store" where
  "expire_one now i s =
     (case map_of (ps_orders s) i of
        None \<Rightarrow> s
      | Some x \<Rightarrow> pay_appendAudit (po_tenant x) (po_id x) ''order_expired'' ''system'' 0 [] []
                    (put_order (x\<lparr> po_status := StatusExpired, po_updated := now \<rparr>) s))"

definition expireStalePendingOrders :: "instant \<Rightarrow> int \<Rightarrow> pay_store \<Rightarrow> int \<times> pay_store" where
  "expireStalePendingOrders now limit s =
     (if limit \<le> 0 then (0, s)
      else (let ids = take (nat limit) (stale_pending now s) in (int (length ids), fold (expire_one now) ids s)))"

definition listOrdersByUser :: "int \<Rightarrow> int \<Rightarrow> int \<Rightarrow> pay_store \<Rightarrow> pay_order list" where
  "listOrdersByUser tenant user limit s =
     (let out = rev (sort_key po_id (map snd (filter (\<lambda>(_, x). po_tenant x = tenant \<and> po_user x = user) (ps_orders s))))
      in if 0 < limit then take (nat limit) out else out)"

definition listAuditEvents :: "int \<Rightarrow> int \<Rightarrow> pay_store \<Rightarrow> pay_audit list" where
  "listAuditEvents tenant order s = filter (\<lambda>e. pa_tenant e = tenant \<and> pa_order e = order) (ps_audits s)"

end
