(* ===== verification/Payment_Service.thy ===== *)
theory Payment_Service
  imports Complex_Main Payment_Store
begin

text \<open>
  The payment service over the in-memory store (backend/internal/payment: service.go, order.go,
  callback.go, webhook.go, provider.go and the provider settings of admin_panel.go). A decimal amount
  is an exact rational. The hash of the callback signatures, the JSON decoder, the address parser, the
  plan prices and the source of fresh trade numbers are parameters. A call reads the clock once.
  \<open>strings.ToUpper\<close> and \<open>strings.ToLower\<close> are written out for ASCII.
\<close>

section \<open>Strings and amounts\<close>

definition upper_char :: "char \<Rightarrow> char" where
  "upper_char c = (if 97 \<le> (of_char c :: nat) \<and> (of_char c :: nat) \<le> 122 then char_of (of_char c - 32 :: nat) else c)"

definition toUpper :: "string \<Rightarrow> string" where
  "toUpper = map upper_char"

definition toLower :: "string \<Rightarrow> string" where
  "toLower = map lower_char"

definition maxAmountCents :: int where
  "maxAmountCents = 100000000000"

definition defaultOrderTTL :: duration where
  "defaultOrderTTL = 24 * hour"

text \<open>\<open>Truncate(0)\<close> of the decimal library, towards zero.\<close>

definition truncate_rat :: "rat \<Rightarrow> rat" where
  "truncate_rat x = (if x < 0 then - of_int \<lfloor>- x\<rfloor> else of_int \<lfloor>x\<rfloor>)"

definition decimalAmountToCents :: "rat \<Rightarrow> pay_error + int" where
  "decimalAmountToCents x =
     (if \<not> 0 < x then Inl ErrInvalidAmount
      else if x \<noteq> truncate_rat (x * 100) / 100 then Inl ErrInvalidInput
      else if x * 100 \<noteq> truncate_rat (x * 100) then Inl ErrInvalidInput
      else if of_int maxAmountCents < x * 100 then Inl ErrInvalidInput
      else Inr \<lfloor>x * 100\<rfloor>)"

definition centsToDecimal :: "int \<Rightarrow> rat" where
  "centsToDecimal n = of_int n / 100"

text \<open>\<open>Round(0)\<close> of the decimal library rounds half away from zero; the limit is positive here.\<close>

definition dailyAmountLimitToCents :: "rat \<Rightarrow> int" where
  "dailyAmountLimitToCents x = (if \<not> 0 < x then 0 else \<lfloor>x * 100 + 1 / 2\<rfloor>)"

definition is_trade_char :: "char \<Rightarrow> bool" where
  "is_trade_char c \<longleftrightarrow>
     (let n = of_char c :: nat
      in c = CHR ''-'' \<or> c = CHR ''_'' \<or> (97 \<le> n \<and> n \<le> 122) \<or> (65 \<le> n \<and> n \<le> 90) \<or> (48 \<le> n \<and> n \<le> 57))"

definition validateOutTradeNo :: "string \<Rightarrow> bool" where
  "validateOutTradeNo v \<longleftrightarrow> v \<noteq> [] \<and> length v \<le> 128 \<and> list_all is_trade_char v"

definition pay_normalizeProvider :: "string \<Rightarrow> string" where
  "pay_normalizeProvider p = toLower (trim_space p)"

definition providerKindFromHTTP :: "string \<Rightarrow> string" where
  "providerKindFromHTTP p =
     (let p = pay_normalizeProvider p
      in if p = ''manual'' then ''manual'' else if p \<in> {''test'', ''mock''} then ''test'' else ''hmac'')"

definition normalizeCurrency :: "string \<Rightarrow> pay_error + string" where
  "normalizeCurrency c =
     (let c = toUpper (trim_space c)
      in if c = [] then Inr ''USD'' else if c \<noteq> ''USD'' then Inl ErrUnsupportedCurrency else Inr c)"

section \<open>Providers\<close>

datatype pay_provider = ManualProvider | TaobaoProvider string | HMACProvider | TestProvider string

definition provider_kind :: "pay_provider \<Rightarrow> string" where
  "provider_kind p =
     (case p of ManualProvider \<Rightarrow> ''manual'' | TaobaoProvider _ \<Rightarrow> ''taobao'' | HMACProvider \<Rightarrow> ''hmac''
      | TestProvider _ \<Rightarrow> ''test'')"

text \<open>The order reference of \<open>CreateIntent\<close>, which none of the built-in providers refuses.\<close>

definition createIntent :: "pay_provider \<Rightarrow> string \<Rightarrow> string" where
  "createIntent p tradeNo =
     (case p of ManualProvider \<Rightarrow> [] | TaobaoProvider _ \<Rightarrow> tradeNo | HMACProvider \<Rightarrow> ''hmac-ref-'' @ tradeNo
      | TestProvider _ \<Rightarrow> ''test-ref-'' @ tradeNo)"

record plan_price =
  pp_tenant :: int
  pp_plan :: int
  pp_amount :: int
  pp_currency :: string
  pp_enabled :: bool

record envelope =
  ev_tenant :: int
  ev_tradeNo :: string
  ev_paid :: int
  ev_currency :: string
  ev_ref :: string

record pay_env =
  pe_mac :: "string \<Rightarrow> string \<Rightarrow> string"
  pe_decode :: "string \<Rightarrow> envelope option"
  pe_address :: "string \<Rightarrow> bool"
  pe_fixed8 :: "rat \<Rightarrow> string"
  pe_digest :: "int \<Rightarrow> int \<Rightarrow> string \<Rightarrow> string"
  pe_planPrice :: "(int \<Rightarrow> int \<Rightarrow> pay_error + plan_price) option"
  pe_tradeNo :: "nat \<Rightarrow> pay_error + string"

text \<open>\<open>testProvider.VerifyCallback\<close>: every failure is the same error.\<close>

definition test_verify :: "pay_env \<Rightarrow> string \<Rightarrow> string \<Rightarrow> string \<Rightarrow> pay_error + envelope" where
  "test_verify env secret body signature =
     (if secret = [] then Inl ErrCallbackUnverified
      else if toLower (trim_space signature) \<noteq> pe_mac env secret body then Inl ErrCallbackUnverified
      else (case pe_decode env body of
              None \<Rightarrow> Inl ErrCallbackUnverified
            | Some e \<Rightarrow>
                if ev_tenant e \<le> 0 \<or> trim_space (ev_tradeNo e) = [] \<or> ev_paid e \<le> 0 then Inl ErrCallbackUnverified
                else Inr (e\<lparr> ev_tradeNo := trim_space (ev_tradeNo e), ev_currency := trim_space (ev_currency e),
                             ev_ref := trim_space (ev_ref e) \<rparr>)))"

definition callback_verifier :: "pay_env \<Rightarrow> pay_provider \<Rightarrow> (string \<Rightarrow> string \<Rightarrow> pay_error + envelope) option" where
  "callback_verifier env p = (case p of TestProvider secret \<Rightarrow> Some (test_verify env secret) | _ \<Rightarrow> None)"

type_synonym provider_registry = "(string \<times> pay_provider) list"

definition newProviderRegistry :: "pay_provider list \<Rightarrow> provider_registry" where
  "newProviderRegistry ps = fold (\<lambda>p. AList.update (provider_kind p) p) ps []"

definition resolve :: "provider_registry \<Rightarrow> string \<Rightarrow> pay_error + pay_provider" where
  "resolve reg kind =
     (case map_of reg (if kind = [] then ''manual'' else kind) of None \<Rightarrow> Inl ErrProviderUnknown | Some p \<Rightarrow> Inr p)"

record provider_config =
  pc_kind :: string
  pc_enabled :: bool
  pc_url :: string
  pc_by :: string
  pc_at :: instant

record pay_service =
  sv_providers :: provider_registry
  sv_configs :: "(string \<times> provider_config) list"
  sv_maxAttempts :: int
  sv_store :: pay_store

definition refreshProviderRuntimeConfigs :: "provider_registry \<Rightarrow> (string \<times> provider_config) list" where
  "refreshProviderRuntimeConfigs reg =
     [(''manual'', \<lparr> pc_kind = ''manual'', pc_enabled = (map_of reg ''manual'' \<noteq> None), pc_url = [], pc_by = [], pc_at = zero_time \<rparr>),
      (''taobao'',
       (case map_of reg ''taobao'' of
          Some (TaobaoProvider url) \<Rightarrow> \<lparr> pc_kind = ''taobao'', pc_enabled = True, pc_url = url, pc_by = [], pc_at = zero_time \<rparr>
        | _ \<Rightarrow> \<lparr> pc_kind = ''taobao'', pc_enabled = False, pc_url = [], pc_by = [], pc_at = zero_time \<rparr>))]"

text \<open>The extra providers are the options \<open>WithTestProvider\<close>, \<open>WithTestProviderSecret\<close> and \<open>WithTaobaoProvider\<close>.\<close>

definition newPayService :: "pay_provider list \<Rightarrow> pay_store \<Rightarrow> pay_service" where
  "newPayService extra st =
     (let reg = newProviderRegistry ([ManualProvider, HMACProvider] @ extra)
      in \<lparr> sv_providers = reg, sv_configs = refreshProviderRuntimeConfigs reg, sv_maxAttempts = 3, sv_store = st \<rparr>)"

definition normalizeProviderConfig :: "string \<Rightarrow> bool \<Rightarrow> string \<Rightarrow> string \<Rightarrow> instant \<Rightarrow> pay_error + provider_config" where
  "normalizeProviderConfig kind enabled url who now =
     (let kind = trim_space kind; url = trim_space url
      in if kind \<noteq> ''manual'' \<and> kind \<noteq> ''taobao'' then Inl ErrProviderUnknown
         else if kind = ''taobao'' \<and> enabled \<and> url = [] then Inl ErrInvalidInput
         else if kind = ''manual'' \<and> url \<noteq> [] then Inl ErrInvalidInput
         else Inr \<lparr> pc_kind = kind, pc_enabled = enabled, pc_url = url, pc_by = trim_space who, pc_at = now \<rparr>)"

definition getProviderRuntimeConfig :: "string \<Rightarrow> pay_service \<Rightarrow> pay_error + provider_config" where
  "getProviderRuntimeConfig kind v =
     (let kind = trim_space kind
      in if kind \<noteq> ''manual'' \<and> kind \<noteq> ''taobao'' then Inl ErrProviderUnknown
         else (case map_of (sv_configs v) kind of
                 Some c \<Rightarrow> Inr c
               | None \<Rightarrow> Inr \<lparr> pc_kind = kind, pc_enabled = (kind = ''manual''), pc_url = [], pc_by = [], pc_at = zero_time \<rparr>))"

definition setProviderRuntimeConfig ::
  "string \<Rightarrow> bool \<Rightarrow> string \<Rightarrow> string \<Rightarrow> instant \<Rightarrow> pay_service \<Rightarrow> (pay_error + provider_config) \<times> pay_service" where
  "setProviderRuntimeConfig kind enabled url who now v =
     (case normalizeProviderConfig kind enabled url who now of
        Inl e \<Rightarrow> (Inl e, v)
      | Inr c \<Rightarrow>
          (let p = (if pc_kind c = ''manual'' then ManualProvider else TaobaoProvider (pc_url c))
           in (Inr c, v\<lparr> sv_providers := (if pc_enabled c then AList.update (pc_kind c) p (sv_providers v)
                                          else AList.delete (pc_kind c) (sv_providers v)),
                         sv_configs := AList.update (pc_kind c) c (sv_configs v) \<rparr>)))"

section \<open>Orders\<close>

record create_input =
  ci_tenant :: int
  ci_user :: int
  ci_amount :: int
  ci_currency :: string
  ci_tradeNo :: string
  ci_provider :: string
  ci_fingerprint :: string
  ci_admin :: int
  ci_actorKind :: string
  ci_actor :: int
  ci_actorRef :: string
  ci_request :: string
  ci_expiresIn :: duration
  ci_kind :: string
  ci_plan :: "int option"
  ci_address :: string
  ci_maxPending :: int
  ci_dailyLimit :: int

definition createOrderActorKind :: "create_input \<Rightarrow> string" where
  "createOrderActorKind x =
     (if ci_actorKind x \<noteq> [] then ci_actorKind x
      else if 0 < ci_admin x \<or> ci_actorRef x \<noteq> [] then ''admin'' else ''system'')"

definition createOrderActorID :: "create_input \<Rightarrow> int" where
  "createOrderActorID x = (if 0 < ci_actor x then ci_actor x else if 0 < ci_admin x then ci_admin x else 0)"

definition planPriceSnapshot :: "pay_env \<Rightarrow> int \<Rightarrow> int \<Rightarrow> pay_error + plan_price" where
  "planPriceSnapshot env tenant i =
     (case pe_planPrice env of
        None \<Rightarrow> Inl ErrSubscriptionOrderRequiresPG
      | Some f \<Rightarrow>
          (case f tenant i of
             Inl e \<Rightarrow> Inl e
           | Inr p \<Rightarrow> if pp_tenant p \<noteq> tenant \<or> pp_plan p \<noteq> i then Inl ErrInvalidInput else Inr p))"

text \<open>What is charged: the amount of the caller, or the price of the plan of a subscription order.\<close>

definition order_price :: "pay_env \<Rightarrow> create_input \<Rightarrow> pay_error + int \<times> string" where
  "order_price env x =
     (if orderKindOrDefault (ci_kind x) = ''subscription''
      then (case planPriceSnapshot env (ci_tenant x) (the (ci_plan x)) of
              Inl e \<Rightarrow> Inl e
            | Inr p \<Rightarrow> if \<not> pp_enabled p then Inl ErrInvalidInput else Inr (pp_amount p, pp_currency p))
      else Inr (ci_amount x, ci_currency x))"

definition create_checks :: "pay_env \<Rightarrow> create_input \<Rightarrow> pay_error + int \<times> string" where
  "create_checks env x =
     (let tradeNo = trim_space (ci_tradeNo x); kind = orderKindOrDefault (ci_kind x)
      in if tradeNo = [] then Inl ErrInvalidInput
         else if \<not> validateOutTradeNo tradeNo then Inl ErrInvalidInput
         else if kind \<noteq> ''topup'' \<and> kind \<noteq> ''subscription'' then Inl ErrInvalidInput
         else if kind = ''subscription'' \<and> (case ci_plan x of None \<Rightarrow> True | Some i \<Rightarrow> i \<le> 0) then Inl ErrInvalidInput
         else (case order_price env x of
                 Inl e \<Rightarrow> Inl e
               | Inr (amount, currency) \<Rightarrow>
                   if amount \<le> 0 then Inl ErrInvalidAmount
                   else if maxAmountCents < amount then Inl ErrInvalidAmount
                   else (case normalizeCurrency currency of
                           Inl e \<Rightarrow> Inl e
                         | Inr currency \<Rightarrow>
                             if trim_space (ci_address x) \<noteq> [] \<and> \<not> pe_address env (trim_space (ci_address x))
                             then Inl ErrInvalidInput else Inr (amount, currency))))"

definition sv_createOrder ::
  "pay_env \<Rightarrow> instant \<Rightarrow> create_input \<Rightarrow> pay_service \<Rightarrow> (pay_error + pay_order \<times> bool) \<times> pay_service" where
  "sv_createOrder env now x v =
     (if ci_tenant x \<le> 0 \<or> ci_user x \<le> 0 then (Inl ErrInvalidInput, v)
      else (let kind = providerKindOrDefault (ci_provider x)
            in case resolve (sv_providers v) kind of
                 Inl e \<Rightarrow> (Inl e, v)
               | Inr p \<Rightarrow>
                   (case create_checks env x of
                      Inl e \<Rightarrow> (Inl e, v)
                    | Inr (amount, currency) \<Rightarrow>
                        (let ttl = (if ci_expiresIn x \<le> 0 then defaultOrderTTL else ci_expiresIn x);
                             tradeNo = trim_space (ci_tradeNo x);
                             (answer, st) = createOrder
                               \<lparr> cq_tenant = ci_tenant x, cq_user = ci_user x, cq_tradeNo = tradeNo, cq_amount = amount,
                                 cq_currency = currency, cq_provider = kind, cq_ref = createIntent p tradeNo,
                                 cq_fingerprint = trim_space (ci_fingerprint x), cq_byAdmin = ci_admin x,
                                 cq_actorKind = createOrderActorKind x, cq_actor = createOrderActorID x,
                                 cq_request = ci_request x, cq_expires = Some (now + ttl),
                                 cq_kind = orderKindOrDefault (ci_kind x), cq_plan = ci_plan x,
                                 cq_maxPending = ci_maxPending x, cq_dailyLimit = ci_dailyLimit x, cq_now = now \<rparr> (sv_store v)
                         in (answer, v\<lparr> sv_store := st \<rparr>)))))"

text \<open>The loop of \<open>generateExternalTradeNo\<close>; the source is asked with the number of the attempt.\<close>

fun trade_attempts :: "(nat \<Rightarrow> pay_error + string) \<Rightarrow> nat \<Rightarrow> nat \<Rightarrow> pay_error + string" where
  "trade_attempts gen i 0 = Inl ErrInvalidInput"
| "trade_attempts gen i (Suc n) =
     (case gen i of
        Inl e \<Rightarrow> Inl e
      | Inr t \<Rightarrow> if trim_space t \<noteq> [] then Inr (trim_space t) else trade_attempts gen (Suc i) n)"

definition generateExternalTradeNo :: "pay_env \<Rightarrow> pay_service \<Rightarrow> pay_error + string" where
  "generateExternalTradeNo env v =
     trade_attempts (pe_tradeNo env) 0 (nat (if sv_maxAttempts v \<le> 0 then 1 else sv_maxAttempts v))"

record open_input =
  oi_tenant :: int
  oi_user :: int
  oi_tradeNo :: string
  oi_provider :: string
  oi_amount :: rat
  oi_currency :: string
  oi_maxPending :: int
  oi_dailyLimit :: rat
  oi_now :: instant

definition normalizeOpenInput :: "instant \<Rightarrow> open_input \<Rightarrow> open_input" where
  "normalizeOpenInput now x =
     x\<lparr> oi_currency := (let c = toUpper (trim_space (oi_currency x)) in if c = [] then ''USD'' else c),
        oi_provider := (let p = pay_normalizeProvider (oi_provider x) in if p = [] then ''test'' else p),
        oi_tradeNo := trim_space (oi_tradeNo x),
        oi_now := (if oi_now x = zero_time then now else oi_now x) \<rparr>"

definition open_request :: "pay_env \<Rightarrow> open_input \<Rightarrow> int \<Rightarrow> string \<Rightarrow> create_input" where
  "open_request env x cents tradeNo =
     \<lparr> ci_tenant = oi_tenant x, ci_user = oi_user x, ci_amount = cents, ci_currency = oi_currency x,
       ci_tradeNo = tradeNo, ci_provider = providerKindFromHTTP (oi_provider x),
       ci_fingerprint = ''http_provider:'' @ pay_normalizeProvider (oi_provider x), ci_admin = 0,
       ci_actorKind = ''user'', ci_actor = oi_user x, ci_actorRef = [],
       ci_request = pe_digest env (oi_tenant x) (oi_user x) tradeNo, ci_expiresIn = 0, ci_kind = ''topup'',
       ci_plan = None, ci_address = [], ci_maxPending = oi_maxPending x,
       ci_dailyLimit = dailyAmountLimitToCents (oi_dailyLimit x) \<rparr>"

definition openRecharge ::
  "pay_env \<Rightarrow> instant \<Rightarrow> open_input \<Rightarrow> pay_service \<Rightarrow> (pay_error + pay_order) \<times> pay_service" where
  "openRecharge env now x0 v =
     (let x = normalizeOpenInput now x0
      in if oi_currency x \<noteq> ''USD'' then (Inl ErrInvalidInput, v)
         else (case decimalAmountToCents (oi_amount x) of
                 Inl e \<Rightarrow> (Inl e, v)
               | Inr cents \<Rightarrow>
                   if oi_tenant x \<le> 0 \<or> oi_user x \<le> 0 then (Inl ErrInvalidInput, v)
                   else (case (if oi_tradeNo x = [] then generateExternalTradeNo env v else Inr (oi_tradeNo x)) of
                           Inl e \<Rightarrow> (Inl e, v)
                         | Inr tradeNo \<Rightarrow>
                             if 0 < oi_maxPending x \<and>
                                oi_maxPending x \<le> countPending (oi_tenant x) (oi_user x) (oi_now x) (sv_store v)
                             then (Inl ErrPendingLimit, v)
                             else if 0 < oi_dailyLimit x \<and>
                                     oi_dailyLimit x < centsToDecimal (sumRecharge (oi_tenant x) (oi_user x)
                                       (day_start (oi_now x)) (oi_now x) (sv_store v)) + oi_amount x
                             then (Inl ErrDailyAmountLimit, v)
                             else (case sv_createOrder env now (open_request env x cents tradeNo) v of
                                     (Inl e, v) \<Rightarrow> (Inl e, v)
                                   | (Inr (y, replay), v) \<Rightarrow> (Inr y, v)))))"

section \<open>Payment, fulfilment, cancellation and refunds\<close>

definition sv_cancelOrder :: "order_call \<Rightarrow> pay_service \<Rightarrow> (pay_error + pay_order) \<times> pay_service" where
  "sv_cancelOrder q v =
     (if oc_tenant q \<le> 0 \<or> oc_order q \<le> 0 then (Inl ErrInvalidInput, v)
      else (let (answer, st) = cancelOrder q (sv_store v) in (answer, v\<lparr> sv_store := st \<rparr>)))"

definition prepareRefundRecord :: "refund_record \<Rightarrow> pay_error + refund_record" where
  "prepareRefundRecord q =
     (if rq_tenant q \<le> 0 \<or> rq_order q \<le> 0 then Inl ErrInvalidInput
      else if rq_amount q \<le> 0 \<or> maxAmountCents < rq_amount q then Inl ErrInvalidAmount
      else if trim_space (rq_key q) = [] then Inl ErrInvalidInput
      else Inr (q\<lparr> rq_key := trim_space (rq_key q), rq_actorRef := trim_space (rq_actorRef q),
                   rq_reason := trim_space (rq_reason q) \<rparr>))"

definition sv_refundOrder :: "refund_record \<Rightarrow> pay_service \<Rightarrow> (pay_error + refund_result) \<times> pay_service" where
  "sv_refundOrder q v =
     (case prepareRefundRecord q of
        Inl e \<Rightarrow> (Inl e, v)
      | Inr q \<Rightarrow> (let (answer, st) = refundOrder q (sv_store v) in (answer, v\<lparr> sv_store := st \<rparr>)))"

text \<open>The two phases of a fulfilment: the order is first marked, then credited.\<close>

definition fulfill :: "order_call \<Rightarrow> pay_service \<Rightarrow> (pay_error + fulfill_result) \<times> pay_service" where
  "fulfill q v =
     (if oc_tenant q \<le> 0 \<or> oc_order q \<le> 0 then (Inl ErrInvalidInput, v)
      else (case beginFulfill q (sv_store v) of
              (Inl e, st) \<Rightarrow> (Inl e, v\<lparr> sv_store := st \<rparr>)
            | (Inr _, st) \<Rightarrow>
                (let (answer, st) = completeFulfill q st in (answer, v\<lparr> sv_store := st \<rparr>))))"

definition adminConfirmPaid :: "order_call \<Rightarrow> pay_service \<Rightarrow> (pay_error + fulfill_result) \<times> pay_service" where
  "adminConfirmPaid q v =
     (if oc_tenant q \<le> 0 \<or> oc_order q \<le> 0 then (Inl ErrInvalidInput, v)
      else (case confirmPaid (q\<lparr> oc_actorKind := ''admin'' \<rparr>) (sv_store v) of
              (Inl e, st) \<Rightarrow> (Inl e, v\<lparr> sv_store := st \<rparr>)
            | (Inr _, st) \<Rightarrow> fulfill (q\<lparr> oc_actorKind := ''admin'' \<rparr>) (v\<lparr> sv_store := st \<rparr>)))"

definition retryFulfillment :: "order_call \<Rightarrow> pay_service \<Rightarrow> (pay_error + fulfill_result) \<times> pay_service" where
  "retryFulfillment q v =
     (if oc_tenant q \<le> 0 \<or> oc_order q \<le> 0 then (Inl ErrInvalidInput, v)
      else fulfill (q\<lparr> oc_actorKind := ''admin'' \<rparr>) v)"

definition getBalance :: "int \<Rightarrow> int \<Rightarrow> pay_service \<Rightarrow> pay_error + int" where
  "getBalance tenant user v =
     (if tenant \<le> 0 \<or> user \<le> 0 then Inl ErrInvalidInput else Inr (pay_balance tenant user (sv_store v)))"

definition sv_getOrder :: "int \<Rightarrow> int \<Rightarrow> pay_service \<Rightarrow> pay_error + pay_order" where
  "sv_getOrder tenant i v = (if tenant \<le> 0 \<or> i \<le> 0 then Inl ErrInvalidInput else getOrder tenant i (sv_store v))"

section \<open>Callbacks\<close>

definition system_call :: "int \<Rightarrow> int \<Rightarrow> string \<Rightarrow> string \<Rightarrow> instant \<Rightarrow> order_call" where
  "system_call tenant i reason request t =
     \<lparr> oc_tenant = tenant, oc_order = i, oc_user = 0, oc_actorKind = ''system'', oc_actor = 0, oc_reason = reason,
       oc_request = request, oc_now = t \<rparr>"

definition confirmPaidByCallback ::
  "pay_env \<Rightarrow> instant \<Rightarrow> string \<Rightarrow> string \<Rightarrow> string \<Rightarrow> pay_service \<Rightarrow> (pay_error + fulfill_result) \<times> pay_service" where
  "confirmPaidByCallback env now kind body signature v =
     (case resolve (sv_providers v) kind of
        Inl e \<Rightarrow> (Inl e, v)
      | Inr p \<Rightarrow>
          (case callback_verifier env p of
             None \<Rightarrow> (Inl ErrProviderNoCallback, v)
           | Some verify \<Rightarrow>
               (case verify body signature of
                  Inl e \<Rightarrow> (Inl e, v)
                | Inr r \<Rightarrow>
                    (case getOrderByOutTradeNo (ev_tenant r) (ev_tradeNo r) (sv_store v) of
                       Inl e \<Rightarrow> (Inl e, v)
                     | Inr x \<Rightarrow>
                         if po_provider x \<noteq> kind then (Inl ErrCallbackRejected, v)
                         else if po_amount x \<noteq> ev_paid r then (Inl ErrCallbackRejected, v)
                         else if ev_currency r \<noteq> [] \<and> \<not> equalFold (ev_currency r) (po_currency x)
                         then (Inl ErrCallbackRejected, v)
                         else (case confirmPaid (system_call (po_tenant x) (po_id x) (''callback_confirmed:'' @ kind) (ev_ref r) now)
                                      (sv_store v) of
                                 (Inl e, st) \<Rightarrow> (Inl e, v\<lparr> sv_store := st \<rparr>)
                               | (Inr _, st) \<Rightarrow>
                                   fulfill (system_call (po_tenant x) (po_id x) [] (ev_ref r) now) (v\<lparr> sv_store := st \<rparr>))))))"

record verified_callback =
  vc_tenant :: int
  vc_provider :: string
  vc_tradeNo :: string
  vc_event :: string
  vc_paid :: rat
  vc_currency :: string
  vc_ts :: instant

record callback_answer =
  ca_http :: int
  ca_order :: int
  ca_user :: int
  ca_balance :: rat
  ca_idempotent :: bool
  ca_completed :: bool
  ca_reason :: string

definition bare_answer :: "int \<Rightarrow> string \<Rightarrow> callback_answer" where
  "bare_answer status reason =
     \<lparr> ca_http = status, ca_order = 0, ca_user = 0, ca_balance = 0, ca_idempotent = False, ca_completed = False,
       ca_reason = reason \<rparr>"

definition normalizeVerifiedCallback :: "verified_callback \<Rightarrow> verified_callback" where
  "normalizeVerifiedCallback cb =
     cb\<lparr> vc_provider := pay_normalizeProvider (vc_provider cb), vc_tradeNo := trim_space (vc_tradeNo cb),
         vc_event := trim_space (vc_event cb), vc_currency := toUpper (trim_space (vc_currency cb)) \<rparr>"

definition validateVerifiedCallback :: "verified_callback \<Rightarrow> pay_error option" where
  "validateVerifiedCallback cb =
     (if vc_tenant cb \<le> 0 \<or> vc_provider cb = [] \<or> vc_tradeNo cb = [] \<or> vc_event cb = [] \<or> \<not> 0 < vc_paid cb \<or>
         vc_currency cb = []
      then Some ErrInvalidInput
      else (case decimalAmountToCents (vc_paid cb) of Inl e \<Rightarrow> Some e | Inr _ \<Rightarrow> None))"

definition orderProviderName :: "pay_order \<Rightarrow> string" where
  "orderProviderName x =
     (case strip_prefix ''http_provider:'' (po_fingerprint x) of
        Some p \<Rightarrow> p | None \<Rightarrow> pay_normalizeProvider (po_provider x))"

definition callbackTimeOrNow :: "instant \<Rightarrow> instant \<Rightarrow> instant" where
  "callbackTimeOrNow ts now = (if ts = zero_time then now else ts)"

text \<open>A rejection is recorded by the SQL store only, so it leaves this store as it is.\<close>

definition settle_callback ::
  "instant \<Rightarrow> verified_callback \<Rightarrow> pay_order \<Rightarrow> pay_service \<Rightarrow> callback_answer \<times> pay_error option \<times> pay_service" where
  "settle_callback now cb x v =
     (let result = (bare_answer 200 [])\<lparr> ca_order := po_id x, ca_user := po_user x \<rparr>
      in if orderProviderName x \<noteq> vc_provider cb
         then (result\<lparr> ca_reason := ''PAYMENT_PROVIDER_MISMATCH'' \<rparr>, Some ErrCallbackRejected, v)
         else (case decimalAmountToCents (vc_paid cb) of
                 Inl e \<Rightarrow> (result\<lparr> ca_reason := ''PAYMENT_AMOUNT_MISMATCH'' \<rparr>, Some ErrCallbackRejected, v)
               | Inr cents \<Rightarrow>
                   if po_amount x \<noteq> cents \<or> \<not> equalFold (po_currency x) (vc_currency cb)
                   then (result\<lparr> ca_reason := ''PAYMENT_AMOUNT_MISMATCH'' \<rparr>, Some ErrCallbackRejected, v)
                   else (case confirmPaid (system_call (po_tenant x) (po_id x) (''hmac_callback:'' @ vc_provider cb) (vc_event cb)
                                (callbackTimeOrNow (vc_ts cb) now)) (sv_store v) of
                           (Inl e, st) \<Rightarrow>
                             (result\<lparr> ca_reason := ''PAYMENT_ORDER_STATE_MISMATCH'' \<rparr>, Some e, v\<lparr> sv_store := st \<rparr>)
                         | (Inr _, st) \<Rightarrow>
                             (case fulfill (system_call (po_tenant x) (po_id x) [] (vc_event cb) now) (v\<lparr> sv_store := st \<rparr>) of
                                (Inl e, v) \<Rightarrow> (result\<lparr> ca_reason := ''PAYMENT_ORDER_STATE_MISMATCH'' \<rparr>, Some e, v)
                              | (Inr f, v) \<Rightarrow>
                                  (result\<lparr> ca_idempotent := fr_idempotent f,
                                           ca_completed := (po_status (fr_order f) = StatusCompleted),
                                           ca_balance := centsToDecimal (fr_balance f),
                                           ca_reason := (if fr_idempotent f then ''PAYMENT_REPLAY'' else ''PAYMENT_COMPLETED'') \<rparr>,
                                   None, v)))))"

definition fulfillVerifiedCallback ::
  "instant \<Rightarrow> verified_callback \<Rightarrow> pay_service \<Rightarrow> callback_answer \<times> pay_error option \<times> pay_service" where
  "fulfillVerifiedCallback now cb0 v =
     (let cb = normalizeVerifiedCallback cb0
      in case validateVerifiedCallback cb of
           Some e \<Rightarrow> (bare_answer 400 [], Some e, v)
         | None \<Rightarrow>
             (case getOrderByOutTradeNo (vc_tenant cb) (vc_tradeNo cb) (sv_store v) of
                Inl e \<Rightarrow>
                  (if e = ErrOrderNotFound then bare_answer 200 ''PAYMENT_ORDER_NOT_FOUND'' else bare_answer 500 [], Some e, v)
              | Inr x \<Rightarrow> settle_callback now cb x v))"

record callback_input =
  cbi_call :: verified_callback
  cbi_signature :: string
  cbi_secret :: string

definition normalizeCallbackInput :: "callback_input \<Rightarrow> callback_input" where
  "normalizeCallbackInput x =
     x\<lparr> cbi_call := normalizeVerifiedCallback (cbi_call x), cbi_signature := trim_space (cbi_signature x) \<rparr>"

definition join_lines :: "string list \<Rightarrow> string" where
  "join_lines xs = concat (map2 (@) ([] # replicate (length xs - 1) [char_of (10 :: nat)]) xs)"

definition callbackCanonicalString :: "pay_env \<Rightarrow> callback_input \<Rightarrow> string" where
  "callbackCanonicalString env x =
     (let cb = cbi_call x
      in join_lines [int_string (vc_tenant cb), vc_provider cb, vc_tradeNo cb, pe_fixed8 env (vc_paid cb), vc_currency cb,
                     vc_event cb, int_string (vc_ts cb div second)])"

definition mockCallbackSignature :: "pay_env \<Rightarrow> callback_input \<Rightarrow> string" where
  "mockCallbackSignature env x = pe_mac env (cbi_secret x) (callbackCanonicalString env (normalizeCallbackInput x))"

record callback_expectation =
  ce_provider :: string
  ce_amount :: rat
  ce_currency :: string

definition verifyCallback :: "pay_env \<Rightarrow> callback_input \<Rightarrow> callback_expectation \<Rightarrow> callback_answer \<times> pay_error option" where
  "verifyCallback env x0 ex =
     (let x = normalizeCallbackInput x0; cb = cbi_call x
      in if vc_tenant cb \<le> 0 \<or> vc_tradeNo cb = [] \<or> vc_event cb = [] \<or> vc_provider cb = [] \<or> vc_currency cb \<noteq> ''USD'' \<or>
            \<not> 0 < vc_paid cb
         then (bare_answer 400 [], Some ErrInvalidInput)
         else (case decimalAmountToCents (vc_paid cb) of
                 Inl e \<Rightarrow> (bare_answer 400 [], Some e)
               | Inr _ \<Rightarrow>
                   if cbi_secret x = [] \<or> cbi_signature x = [] then (bare_answer 400 [], Some ErrCallbackUnverified)
                   else if toLower (cbi_signature x) \<noteq> mockCallbackSignature env x
                   then (bare_answer 400 [], Some ErrCallbackUnverified)
                   else (let p = pay_normalizeProvider (ce_provider ex); c = toUpper (trim_space (ce_currency ex))
                         in if p \<noteq> [] \<and> vc_provider cb \<noteq> p
                            then (bare_answer 200 ''PAYMENT_PROVIDER_MISMATCH'', Some ErrCallbackRejected)
                            else if c \<noteq> [] \<and> vc_currency cb \<noteq> c
                            then (bare_answer 200 ''PAYMENT_AMOUNT_MISMATCH'', Some ErrCallbackRejected)
                            else if 0 < ce_amount ex \<and> vc_paid cb \<noteq> ce_amount ex
                            then (bare_answer 200 ''PAYMENT_AMOUNT_MISMATCH'', Some ErrCallbackRejected)
                            else (bare_answer 200 [], None))))"

definition handleCallback ::
  "pay_env \<Rightarrow> instant \<Rightarrow> callback_input \<Rightarrow> pay_service \<Rightarrow> callback_answer \<times> pay_error option \<times> pay_service" where
  "handleCallback env now x v =
     (case verifyCallback env x \<lparr> ce_provider = [], ce_amount = 0, ce_currency = [] \<rparr> of
        (answer, Some e) \<Rightarrow> (answer, Some e, v)
      | (answer, None) \<Rightarrow> fulfillVerifiedCallback now (cbi_call (normalizeCallbackInput x)) v)"

section \<open>The expiry sweep\<close>

definition expire_run_once :: "int \<Rightarrow> instant \<Rightarrow> pay_service \<Rightarrow> int \<times> pay_service" where
  "expire_run_once batch now v =
     (let (n, st) = expireStalePendingOrders now (if batch \<le> 0 then 200 else batch) (sv_store v)
      in (n, v\<lparr> sv_store := st \<rparr>))"

end
