(* ===== verification/Payment_Ledger.thy ===== *)
theory Payment_Ledger
  imports Payment_Service
begin

text \<open>
  What the payment store may do to its books, and that the operations of the store and of the service
  do nothing else. \<open>ledger_step\<close> lists the atomic changes: an order is opened, moves along its life
  cycle, is credited or refunded, or an audit event is appended. The money invariant and the life
  cycle are proved once over these steps.
\<close>

section \<open>Lists with keys\<close>

lemma update_fresh: "map_of xs k = None \<Longrightarrow> AList.update k v xs = xs @ [(k, v)]"
  by (induction xs) (auto split: if_splits)

lemma map_of_update [simp]: "map_of (AList.update k v xs) = (map_of xs)(k \<mapsto> v)"
  by (simp add: update_conv')

section \<open>Readings that a change of an order or an audit event leaves alone\<close>

lemma books_frame [simp]:
  "ps_credits (put_order x s) = ps_credits s" "ps_refunds (put_order x s) = ps_refunds s"
  "ps_refundKeys (put_order x s) = ps_refundKeys s" "ps_byTrade (put_order x s) = ps_byTrade s"
  "ps_nextOrder (put_order x s) = ps_nextOrder s" "ps_nextRefund (put_order x s) = ps_nextRefund s"
  "ps_nextCredit (put_order x s) = ps_nextCredit s" "ps_nextBilling (put_order x s) = ps_nextBilling s"
  "ps_orders (put_order x s) = AList.update (po_id x) x (ps_orders s)"
  by (simp_all add: put_order_def)

lemma audit_frame [simp]:
  "ps_orders (pay_appendAudit t i e k a r q s) = ps_orders s"
  "ps_credits (pay_appendAudit t i e k a r q s) = ps_credits s"
  "ps_refunds (pay_appendAudit t i e k a r q s) = ps_refunds s"
  "ps_refundKeys (pay_appendAudit t i e k a r q s) = ps_refundKeys s"
  "ps_byTrade (pay_appendAudit t i e k a r q s) = ps_byTrade s"
  "ps_nextOrder (pay_appendAudit t i e k a r q s) = ps_nextOrder s"
  "ps_nextRefund (pay_appendAudit t i e k a r q s) = ps_nextRefund s"
  "ps_nextCredit (pay_appendAudit t i e k a r q s) = ps_nextCredit s"
  "ps_nextBilling (pay_appendAudit t i e k a r q s) = ps_nextBilling s"
  by (simp_all add: pay_appendAudit_def)

lemma money_cong:
  "ps_credits s' = ps_credits s \<Longrightarrow> ps_refunds s' = ps_refunds s \<Longrightarrow> pay_balance t u s' = pay_balance t u s"
  "ps_refunds s' = ps_refunds s \<Longrightarrow> refundTotalForOrder t i s' = refundTotalForOrder t i s"
  by (simp_all add: pay_balance_def refundTotalForOrder_def)

lemma money_frame [simp]:
  "pay_balance t u (put_order x s) = pay_balance t u s" "refundTotalForOrder t i (put_order x s) = refundTotalForOrder t i s"
  "pay_balance t u (pay_appendAudit t1 i1 e k a r q s) = pay_balance t u s"
  "refundTotalForOrder t i (pay_appendAudit t1 i1 e k a r q s) = refundTotalForOrder t i s"
  by (simp_all add: pay_balance_def refundTotalForOrder_def)

section \<open>Steps of the books\<close>

text \<open>The life cycle up to the payment; the credit and the refunds are steps of their own.\<close>

definition early_moves :: "(order_status \<times> order_status) set" where
  "early_moves =
     {(StatusPending, StatusPaid), (StatusPending, StatusExpired), (StatusPending, StatusCancelled),
      (StatusPaid, StatusRecharging)}"

definition same_order :: "pay_order \<Rightarrow> pay_order \<Rightarrow> bool" where
  "same_order x y \<longleftrightarrow>
     po_id y = po_id x \<and> po_tenant y = po_tenant x \<and> po_user y = po_user x \<and> po_tradeNo y = po_tradeNo x \<and>
     po_amount y = po_amount x \<and> po_currency y = po_currency x \<and> po_kind y = po_kind x \<and>
     po_provider y = po_provider x \<and> po_fingerprint y = po_fingerprint x"

definition add_order :: "pay_order \<Rightarrow> pay_store \<Rightarrow> pay_store" where
  "add_order x s =
     s\<lparr> ps_nextOrder := po_id x, ps_orders := AList.update (po_id x) x (ps_orders s),
        ps_byTrade := AList.update (stringJoin (po_tenant x) (po_tradeNo x)) (po_id x) (ps_byTrade s) \<rparr>"

definition add_credit :: "credit \<Rightarrow> pay_store \<Rightarrow> pay_store" where
  "add_credit c s =
     s\<lparr> ps_nextCredit := ps_nextCredit s + 1, ps_nextBilling := ps_nextBilling s + 1,
        ps_credits := AList.update (cr_order c) c (ps_credits s) \<rparr>"

definition add_refund :: "refund \<Rightarrow> pay_store \<Rightarrow> pay_store" where
  "add_refund r s =
     s\<lparr> ps_nextRefund := rf_id r, ps_nextBilling := ps_nextBilling s + 1,
        ps_refunds := AList.update (rf_id r) r (ps_refunds s),
        ps_refundKeys := AList.update (stringJoin (rf_tenant r) (rf_key r)) (rf_id r) (ps_refundKeys s) \<rparr>"

inductive ledger_step :: "pay_store \<Rightarrow> pay_store \<Rightarrow> bool" where
  opened: "ledger_step s (add_order x s)"
    if "po_id x = ps_nextOrder s + 1" and "0 < po_amount x" and "po_status x = StatusPending"
      and "map_of (ps_byTrade s) (stringJoin (po_tenant x) (po_tradeNo x)) = None"
| moved: "ledger_step s (put_order y s)"
    if "map_of (ps_orders s) (po_id x) = Some x" and "same_order x y" and "(po_status x, po_status y) \<in> early_moves"
| credited: "ledger_step s (put_order y (add_credit c s))"
    if "map_of (ps_orders s) (po_id x) = Some x" and "same_order x y"
      and "po_status x = StatusRecharging" and "po_status y = StatusCompleted"
      and "cr_order c = po_id x" and "cr_tenant c = po_tenant x" and "cr_user c = po_user x"
      and "cr_amount c = po_amount x" and "cr_currency c = po_currency x"
| refunded: "ledger_step s (put_order y (add_refund r s))"
    if "map_of (ps_orders s) (po_id x) = Some x" and "same_order x y"
      and "map_of (ps_credits s) (po_id x) = Some c" and "rf_id r = ps_nextRefund s + 1"
      and "rf_order r = po_id x" and "rf_tenant r = po_tenant x" and "rf_user r = po_user x"
      and "rf_currency r = po_currency x" and "0 < rf_amount r"
      and "rf_amount r \<le> pay_balance (po_tenant x) (po_user x) s"
      and "refundTotalForOrder (po_tenant x) (po_id x) s + rf_amount r \<le> cr_amount c"
      and "po_status y =
        (if refundTotalForOrder (po_tenant x) (po_id x) s + rf_amount r = cr_amount c then StatusRefunded else StatusCompleted)"
      and "rf_exact r \<Longrightarrow> rf_requested r = refundTotalForOrder (po_tenant x) (po_id x) s + rf_amount r"
      and "map_of (ps_refundKeys s) (stringJoin (rf_tenant r) (rf_key r)) = None"
| audited: "ledger_step s (pay_appendAudit t i e k a why q s)"

abbreviation ledger_run :: "pay_store \<Rightarrow> pay_store \<Rightarrow> bool" where
  "ledger_run \<equiv> ledger_step\<^sup>*\<^sup>*"

lemma run_step: "ledger_step s s1 \<Longrightarrow> ledger_run s1 s2 \<Longrightarrow> ledger_run s s2"
  by (rule converse_rtranclp_into_rtranclp)

lemma run_audited: "ledger_run s s1 \<Longrightarrow> ledger_run s (pay_appendAudit t i e k a why q s1)"
  by (erule rtranclp.rtrancl_into_rtrancl) (rule audited)

lemma same_order_refl [simp]: "same_order x x"
  by (simp add: same_order_def)

section \<open>The operations only take such steps\<close>

text \<open>What the operations rely on: an order is stored under its id, a credit under the id of its order.\<close>

definition keys_ok :: "(int \<times> 'a) list \<Rightarrow> ('a \<Rightarrow> int) \<Rightarrow> int \<Rightarrow> bool" where
  "keys_ok xs f n \<longleftrightarrow> distinct (map fst xs) \<and> (\<forall>i x. map_of xs i = Some x \<longrightarrow> f x = i \<and> i \<le> n)"

lemma keys_okD: "keys_ok xs f n \<Longrightarrow> map_of xs i = Some x \<Longrightarrow> f x = i \<and> i \<le> n"
  by (simp add: keys_ok_def)

lemma keys_ok_fresh: "keys_ok xs f n \<Longrightarrow> n < i \<Longrightarrow> map_of xs i = None"
  by (cases "map_of xs i") (auto dest: keys_okD)

lemma keys_ok_update: "keys_ok xs f n \<Longrightarrow> f x = k \<Longrightarrow> k \<le> m \<Longrightarrow> n \<le> m \<Longrightarrow> keys_ok (AList.update k x xs) f m"
  by (auto simp: keys_ok_def distinct_update) (meson order_trans)

lemma keys_ok_mono: "keys_ok xs f n \<Longrightarrow> n \<le> m \<Longrightarrow> keys_ok xs f m"
  by (auto simp: keys_ok_def) (meson order_trans)

definition keyed :: "pay_store \<Rightarrow> bool" where
  "keyed s \<longleftrightarrow>
     keys_ok (ps_orders s) po_id (ps_nextOrder s) \<and> keys_ok (ps_credits s) cr_order (ps_nextOrder s) \<and>
     keys_ok (ps_refunds s) rf_id (ps_nextRefund s)"

lemma keyed_put:
  "keyed s \<Longrightarrow> map_of (ps_orders s) (po_id x) = Some x \<Longrightarrow> same_order x y \<Longrightarrow> keyed (put_order y s)"
  by (auto simp: keyed_def same_order_def intro: keys_ok_update dest: keys_okD)

lemma keyed_step: "ledger_step s s' \<Longrightarrow> keyed s \<Longrightarrow> keyed s'"
proof (induction rule: ledger_step.induct)
  case (opened x s)
  then show ?case by (auto simp: keyed_def add_order_def intro: keys_ok_update keys_ok_mono)
next
  case (moved s x y)
  then show ?case by (auto intro: keyed_put)
next
  case (credited s x y c)
  then have "keyed (add_credit c s)"
    by (auto simp: keyed_def add_credit_def intro: keys_ok_update dest: keys_okD)
  with credited show ?case by (auto simp: add_credit_def intro: keyed_put)
next
  case (refunded s x y c r)
  then have "keyed (add_refund r s)"
    by (auto simp: keyed_def add_refund_def intro: keys_ok_update)
  with refunded show ?case by (auto simp: add_refund_def intro: keyed_put)
next
  case (audited t i e k a why q s)
  then show ?case by (simp add: keyed_def)
qed

lemma keyed_run: "ledger_run s s' \<Longrightarrow> keyed s \<Longrightarrow> keyed s'"
  by (induction rule: rtranclp_induct) (auto intro: keyed_step)

lemma keyed_order: "keyed s \<Longrightarrow> getOrder t i s = Inr x \<Longrightarrow> map_of (ps_orders s) (po_id x) = Some x \<and> po_tenant x = t \<and> po_id x = i"
  by (auto simp: keyed_def getOrder_def split: option.splits if_splits dest: keys_okD)

lemma move_run:
  assumes "map_of (ps_orders s) (po_id x) = Some x" and "same_order x y" and "(po_status x, po_status y) \<in> early_moves"
  shows "ledger_run s (pay_appendAudit t i e k a why q (put_order y s))"
  by (rule run_audited) (rule r_into_rtranclp, rule moved [OF assms])

lemma confirm_run: "keyed s \<Longrightarrow> ledger_run s (snd (confirmPaid q s))"
  unfolding confirmPaid_def
  by (auto simp: Let_def early_moves_def same_order_def split: sum.split order_status.split
      dest!: keyed_order intro!: move_run)

lemma cancel_run: "keyed s \<Longrightarrow> ledger_run s (snd (cancelOrder q s))"
  unfolding cancelOrder_def
  by (auto simp: Let_def early_moves_def same_order_def split: sum.split order_status.split
      dest!: keyed_order intro!: move_run)

lemma begin_run: "keyed s \<Longrightarrow> ledger_run s (snd (beginFulfill q s))"
  unfolding beginFulfill_def
  by (auto simp: Let_def early_moves_def same_order_def split: sum.split order_status.split
      dest!: keyed_order intro!: move_run)

lemma add_order_eq:
  "s\<lparr> ps_nextOrder := po_id x, ps_orders := AList.update (po_id x) x (ps_orders s),
     ps_byTrade := AList.update (stringJoin (po_tenant x) (po_tradeNo x)) (po_id x) (ps_byTrade s) \<rparr> = add_order x s"
  by (simp add: add_order_def)

lemma create_run: "0 < cq_amount q \<Longrightarrow> ledger_run s (snd (createOrder q s))"
proof (cases "map_of (ps_byTrade s) (stringJoin (cq_tenant q) (cq_tradeNo q))")
  case (Some i)
  then show ?thesis
    by (auto simp: createOrder_def Let_def intro: run_audited split: option.split)
next
  case None
  assume amount: "0 < cq_amount q"
  let ?x = "\<lparr> po_id = ps_nextOrder s + 1, po_tenant = cq_tenant q, po_user = cq_user q, po_tradeNo = cq_tradeNo q,
    po_amount = cq_amount q, po_currency = cq_currency q, po_status = StatusPending,
    po_provider = providerKindOrDefault (cq_provider q), po_ref = cq_ref q, po_fingerprint = cq_fingerprint q,
    po_confirmedBy = 0, po_confirmReason = [], po_kind = orderKindOrDefault (cq_kind q),
    po_plan = cq_plan q, po_created = cq_now q, po_updated = cq_now q, po_expires = cq_expires q,
    po_paidAt = None, po_rechargingAt = None, po_completedAt = None \<rparr>"
  have "ledger_step s (add_order ?x s)" using None amount by (intro opened) simp_all
  then have r: "ledger_run s (pay_appendAudit t i e k a why c (add_order ?x s))" for t i e k a why c
    by (intro run_audited r_into_rtranclp)
  show ?thesis
    using None r by (auto simp: createOrder_def Let_def add_order_def)
qed

lemma put_add_credit: "put_order y (add_credit c s) = put_order y (s\<lparr> ps_nextCredit := ps_nextCredit s + 1,
    ps_nextBilling := ps_nextBilling s + 1, ps_credits := AList.update (cr_order c) c (ps_credits s) \<rparr>)"
  by (simp add: add_credit_def)

lemma complete_run: "keyed s \<Longrightarrow> ledger_run s (snd (completeFulfill q s))"
proof (cases "getOrder (oc_tenant q) (oc_order q) s")
  case (Inl e)
  then show ?thesis by (simp add: completeFulfill_def)
next
  case (Inr x)
  assume "keyed s"
  note x = keyed_order [OF this Inr]
  let ?y = "x\<lparr> po_status := StatusCompleted, po_completedAt := Some (oc_now q), po_updated := oc_now q \<rparr>"
  let ?c = "\<lparr> cr_id = ps_nextCredit s + 1, cr_tenant = oc_tenant q, cr_order = po_id x, cr_user = po_user x,
    cr_amount = po_amount x, cr_currency = po_currency x,
    cr_reason = reasonClassForProvider (po_provider x), cr_billing = ps_nextBilling s + 1, cr_at = oc_now q \<rparr>"
  have r: "ledger_run s (pay_appendAudit t i e k a why p (put_order ?y (add_credit ?c s)))"
    if "po_status x = StatusRecharging" for t i e k a why p
    using x that by (intro run_audited r_into_rtranclp credited [of s x]) (auto simp: same_order_def)
  show ?thesis
    using Inr r by (auto simp: completeFulfill_def Let_def add_credit_def split: option.split)
qed

lemma refund_amount_bounds:
  assumes "paymentRefundAmount c before requested exact = Inr (amount, False)"
  shows "0 < amount" "before + amount \<le> c" "exact \<Longrightarrow> requested = before + amount" "0 < c" "0 \<le> before"
  using assms by (auto simp: paymentRefundAmount_def paymentRefundProgress_def split: if_splits)

lemma refund_progress_total:
  "0 < c \<Longrightarrow> 0 \<le> n \<Longrightarrow> n \<le> c \<Longrightarrow> paymentRefundProgress c n = Inr (if n = c then StatusRefunded else StatusCompleted, c - n)"
  by (auto simp: paymentRefundProgress_def)

lemma book_run:
  assumes "keyed s" and "map_of (ps_orders s) (po_id x) = Some x" and "map_of (ps_credits s) (po_id x) = Some c"
    and "po_tenant x = rq_tenant q" and "before = refundTotalForOrder (po_tenant x) (po_id x) s"
    and a: "paymentRefundAmount (cr_amount c) before (rq_amount q) (rq_exact q) = Inr (amount, False)"
    and "amount \<le> pay_balance (po_tenant x) (po_user x) s"
    and "key = stringJoin (rq_tenant q) (rq_key q)" and "map_of (ps_refundKeys s) key = None"
  shows "ledger_run s (snd (book_refund q key x c before amount s))"
proof -
  let ?r = "\<lparr> rf_id = ps_nextRefund s + 1, rf_tenant = rq_tenant q, rf_order = po_id x, rf_user = po_user x,
    rf_amount = amount, rf_requested = rq_amount q, rf_exact = rq_exact q, rf_currency = po_currency x,
    rf_key = rq_key q, rf_reason = rq_reason q, rf_actorKind = actorKindOrDefault (rq_actorKind q),
    rf_actor = rq_actor q, rf_actorRef = trim_space (rq_actorRef q), rf_billing = ps_nextBilling s + 1,
    rf_at = rq_now q \<rparr>"
  let ?y = "x\<lparr> po_status := if before + amount = cr_amount c then StatusRefunded else StatusCompleted, po_updated := rq_now q \<rparr>"
  note b = refund_amount_bounds [OF a]
  have "ledger_step s (put_order ?y (add_refund ?r s))"
    using assms b by (intro refunded [of s x _ c]) (auto simp: same_order_def)
  then have r: "ledger_run s (pay_appendAudit t i e k a why p (put_order ?y (add_refund ?r s)))" for t i e k a why p
    by (intro run_audited r_into_rtranclp)
  have p: "paymentRefundProgress (cr_amount c) (before + amount) =
      Inr (if before + amount = cr_amount c then StatusRefunded else StatusCompleted, cr_amount c - (before + amount))"
    using b by (intro refund_progress_total) simp_all
  show ?thesis
    using r assms(8) unfolding book_refund_def Let_def p sum.case prod.case add_refund_def by simp
qed

lemma refund_run: "keyed s \<Longrightarrow> ledger_run s (snd (refundOrder q s))"
proof (cases "trim_space (rq_key q) = [] \<or> map_of (ps_refundKeys s) (stringJoin (rq_tenant q) (rq_key q)) \<noteq> None")
  case True
  then show ?thesis by (auto simp: refundOrder_def Let_def)
next
  case False
  assume k: "keyed s"
  show ?thesis
  proof (cases "getOrder (rq_tenant q) (rq_order q) s")
    case (Inl e)
    with False show ?thesis by (simp add: refundOrder_def)
  next
    case (Inr x)
    note x = keyed_order [OF k Inr]
    show ?thesis
      using False Inr x book_run [OF k, of x]
      by (auto simp: refundOrder_def refund_order_def Let_def split: option.split sum.split)
  qed
qed

lemma expire_one_run:
  assumes "keyed s" and "case map_of (ps_orders s) i of None \<Rightarrow> True | Some x \<Rightarrow> po_status x = StatusPending"
  shows "ledger_run s (expire_one now i s)"
  using assms
  by (auto simp: expire_one_def early_moves_def same_order_def keyed_def split: option.splits dest!: keys_okD intro!: move_run)

lemma sweep_run:
  assumes "keyed s" and "distinct is"
    and "\<forall>i \<in> set is. \<exists>x. map_of (ps_orders s) i = Some x \<and> po_status x = StatusPending"
  shows "ledger_run s (fold (expire_one now) is s)"
  using assms
proof (induction "is" arbitrary: s)
  case Nil
  then show ?case by simp
next
  case (Cons i "is")
  then have run: "ledger_run s (expire_one now i s)" by (intro expire_one_run) auto
  have "map_of (ps_orders (expire_one now i s)) j = map_of (ps_orders s) j" if "j \<in> set is" for j
    using that Cons.prems by (auto simp: expire_one_def keyed_def dest: keys_okD split: option.split)
  with Cons.prems have "ledger_run (expire_one now i s) (fold (expire_one now) is (expire_one now i s))"
    using keyed_run [OF run] by (intro Cons.IH) auto
  with run show ?case by simp
qed

lemma expire_run:
  assumes "keyed s"
  shows "ledger_run s (snd (expireStalePendingOrders now limit s))"
proof (cases "limit \<le> 0")
  case True
  then show ?thesis by (simp add: expireStalePendingOrders_def)
next
  case False
  let ?is = "take (nat limit) (stale_pending now s)"
  have d: "distinct (map fst (ps_orders s))" using assms by (simp add: keyed_def keys_ok_def)
  have "distinct ?is" using d by (auto simp: stale_pending_def distinct_map inj_on_def)
  moreover have "\<exists>x. map_of (ps_orders s) i = Some x \<and> po_status x = StatusPending" if "i \<in> set ?is" for i
    using in_set_takeD [OF that] d by (auto simp: stale_pending_def)
  ultimately show ?thesis using False sweep_run [OF assms] by (simp add: expireStalePendingOrders_def Let_def)
qed

section \<open>The service\<close>

lemma create_checks_positive: "create_checks env x = Inr (amount, currency) \<Longrightarrow> 0 < amount"
  by (auto simp: create_checks_def Let_def split: if_splits sum.splits prod.splits)

lemma store_runs:
  "createOrder cq s = (a1, s') \<Longrightarrow> 0 < cq_amount cq \<Longrightarrow> ledger_run s s'"
  "confirmPaid q s = (a2, s') \<Longrightarrow> keyed s \<Longrightarrow> ledger_run s s'"
  "cancelOrder q s = (a3, s') \<Longrightarrow> keyed s \<Longrightarrow> ledger_run s s'"
  "beginFulfill q s = (a4, s') \<Longrightarrow> keyed s \<Longrightarrow> ledger_run s s'"
  "completeFulfill q s = (a5, s') \<Longrightarrow> keyed s \<Longrightarrow> ledger_run s s'"
  "refundOrder rq s = (a6, s') \<Longrightarrow> keyed s \<Longrightarrow> ledger_run s s'"
  "expireStalePendingOrders now limit s = (a7, s') \<Longrightarrow> keyed s \<Longrightarrow> ledger_run s s'"
  using create_run [of cq s] confirm_run [of s q] cancel_run [of s q] begin_run [of s q] complete_run [of s q]
    refund_run [of s rq] expire_run [of s now limit]
  by auto

definition service_run :: "pay_service \<Rightarrow> pay_service \<Rightarrow> bool" where
  "service_run v v' \<longleftrightarrow> (keyed (sv_store v) \<longrightarrow> ledger_run (sv_store v) (sv_store v'))"

lemma service_run_refl [simp]: "service_run v v"
  by (simp add: service_run_def)

lemma service_run_trans: "service_run v v1 \<Longrightarrow> service_run v1 v2 \<Longrightarrow> service_run v v2"
  by (auto simp: service_run_def dest: keyed_run intro: rtranclp_trans)

lemma service_run_store: "(keyed (sv_store v) \<Longrightarrow> ledger_run (sv_store v) st) \<Longrightarrow> service_run v (v\<lparr>sv_store := st\<rparr>)"
  by (simp add: service_run_def)

lemma sv_create_run: "sv_createOrder env now x v = (a, v') \<Longrightarrow> service_run v v'"
  by (auto simp: sv_createOrder_def Let_def split: sum.splits prod.splits if_splits
      dest!: create_checks_positive intro!: service_run_store elim!: store_runs)

lemma open_run: "openRecharge env now x v = (a, v') \<Longrightarrow> service_run v v'"
  by (auto simp: openRecharge_def Let_def split: sum.splits prod.splits if_splits dest: sv_create_run)

lemma sv_cancel_run: "sv_cancelOrder q v = (a, v') \<Longrightarrow> service_run v v'"
  by (auto simp: sv_cancelOrder_def Let_def split: prod.splits if_splits intro!: service_run_store elim!: store_runs)

lemma sv_refund_run: "sv_refundOrder rq v = (a, v') \<Longrightarrow> service_run v v'"
  by (auto simp: sv_refundOrder_def Let_def split: sum.splits prod.splits intro!: service_run_store elim!: store_runs)

lemma both_phases_run:
  assumes "beginFulfill q s = (b, s1)" and "completeFulfill q s1 = (c, s2)" and "keyed s"
  shows "ledger_run s s2"
proof -
  note run = store_runs(4) [OF assms(1,3)]
  show ?thesis using run store_runs(5) [OF assms(2) keyed_run [OF run assms(3)]] by (rule rtranclp_trans)
qed

lemma fulfill_run: "fulfill q v = (a, v') \<Longrightarrow> service_run v v'"
  by (auto simp: fulfill_def Let_def split: sum.splits prod.splits if_splits
      intro!: service_run_store elim: store_runs both_phases_run)

lemma confirmed_fulfill_run:
  assumes "confirmPaid q1 (sv_store v) = (b, st)" and "fulfill q2 (v\<lparr>sv_store := st\<rparr>) = (a, v')"
  shows "service_run v v'"
proof (rule service_run_trans)
  show "service_run v (v\<lparr>sv_store := st\<rparr>)" using assms(1) by (intro service_run_store) (rule store_runs)
  show "service_run (v\<lparr>sv_store := st\<rparr>) v'" by (rule fulfill_run [OF assms(2)])
qed

lemma confirm_only_run: "confirmPaid q (sv_store v) = (b, st) \<Longrightarrow> service_run v (v\<lparr>sv_store := st\<rparr>)"
  by (intro service_run_store) (rule store_runs)

lemma admin_confirm_run: "adminConfirmPaid q v = (a, v') \<Longrightarrow> service_run v v'"
  by (auto simp: adminConfirmPaid_def split: sum.splits prod.splits if_splits
      intro: confirmed_fulfill_run confirm_only_run)

lemma retry_run: "retryFulfillment q v = (a, v') \<Longrightarrow> service_run v v'"
  by (auto simp: retryFulfillment_def split: if_splits intro: fulfill_run)

lemma webhook_run: "confirmPaidByCallback env now kind body sig v = (a, v') \<Longrightarrow> service_run v v'"
  by (auto simp: confirmPaidByCallback_def split: sum.splits prod.splits if_splits option.splits
      intro: confirmed_fulfill_run confirm_only_run)

lemma settle_run: "settle_callback now cb x v = (a, e, v') \<Longrightarrow> service_run v v'"
  by (auto simp: settle_callback_def Let_def split: sum.splits prod.splits if_splits
      intro: confirmed_fulfill_run confirm_only_run)

lemma verified_run: "fulfillVerifiedCallback now cb v = (a, e, v') \<Longrightarrow> service_run v v'"
  by (auto simp: fulfillVerifiedCallback_def Let_def split: sum.splits option.splits if_splits dest: settle_run)

lemma callback_run: "handleCallback env now x v = (a, e, v') \<Longrightarrow> service_run v v'"
  by (auto simp: handleCallback_def split: prod.splits option.splits dest: verified_run)

lemma sweep_once_run: "expire_run_once batch now v = (n, v') \<Longrightarrow> service_run v v'"
  by (auto simp: expire_run_once_def Let_def split: prod.splits intro!: service_run_store elim!: store_runs)

text \<open>The calls of the service that change anything.\<close>

datatype pay_call =
  CallCreate instant create_input
| CallOpen instant open_input
| CallCancel order_call
| CallRefund refund_record
| CallConfirm order_call
| CallRetry order_call
| CallWebhook instant string string string
| CallVerified instant verified_callback
| CallCallback instant callback_input
| CallConfigure string bool string string instant
| CallSweep int instant

primrec pay_step :: "pay_env \<Rightarrow> pay_service \<Rightarrow> pay_call \<Rightarrow> pay_service" where
  "pay_step env v (CallCreate now x) = snd (sv_createOrder env now x v)"
| "pay_step env v (CallOpen now x) = snd (openRecharge env now x v)"
| "pay_step env v (CallCancel q) = snd (sv_cancelOrder q v)"
| "pay_step env v (CallRefund q) = snd (sv_refundOrder q v)"
| "pay_step env v (CallConfirm q) = snd (adminConfirmPaid q v)"
| "pay_step env v (CallRetry q) = snd (retryFulfillment q v)"
| "pay_step env v (CallWebhook now kind body sig) = snd (confirmPaidByCallback env now kind body sig v)"
| "pay_step env v (CallVerified now cb) = snd (snd (fulfillVerifiedCallback now cb v))"
| "pay_step env v (CallCallback now x) = snd (snd (handleCallback env now x v))"
| "pay_step env v (CallConfigure kind enabled url who now) = snd (setProviderRuntimeConfig kind enabled url who now v)"
| "pay_step env v (CallSweep batch now) = snd (expire_run_once batch now v)"

lemma configure_store [simp]: "sv_store (snd (setProviderRuntimeConfig kind enabled url who now v)) = sv_store v"
  by (simp add: setProviderRuntimeConfig_def Let_def split: sum.split)

lemma snd_run:
  "(\<And>a v'. f = (a, v') \<Longrightarrow> service_run v v') \<Longrightarrow> service_run v (snd f)"
  "(\<And>a e v'. g = (a, e, v') \<Longrightarrow> service_run v v') \<Longrightarrow> service_run v (snd (snd g))"
  by (cases f, simp) (cases g, simp)

lemma pay_step_run: "service_run v (pay_step env v c)"
proof (cases c)
  case (CallConfigure kind enabled url who now)
  then show ?thesis by (simp add: service_run_def)
qed (auto intro!: snd_run intro: sv_create_run open_run sv_cancel_run sv_refund_run admin_confirm_run retry_run webhook_run
      verified_run callback_run sweep_once_run)

lemma pay_steps_run: "service_run v (foldl (pay_step env) v cs)"
  by (induction cs arbitrary: v) (auto intro: service_run_trans pay_step_run)

end
