(* ===== verification/Payment_Money.thy ===== *)
theory Payment_Money
  imports Payment_Ledger
begin

text \<open>
  What the payment books guarantee: the money invariant over every history of calls, the life cycle
  of an order, what a callback credits, what a refused callback leaves alone, and what the replay of
  a refund answers.
\<close>

declare map_of_eq_Some_iff [simp del]

section \<open>The money invariant\<close>

text \<open>
  An order is credited exactly when it is completed or refunded, with its own amount, for its own
  user; it is refunded in part or in full as its status says, and never beyond its credit.
\<close>

definition order_ok :: "pay_store \<Rightarrow> pay_order \<Rightarrow> bool" where
  "order_ok s x \<longleftrightarrow>
     0 < po_amount x \<and>
     (let back = refundTotalForOrder (po_tenant x) (po_id x) s
      in case map_of (ps_credits s) (po_id x) of
           None \<Rightarrow> po_status x \<notin> {StatusCompleted, StatusRefunded} \<and> back = 0
         | Some c \<Rightarrow>
             cr_tenant c = po_tenant x \<and> cr_user c = po_user x \<and> cr_amount c = po_amount x \<and>
             cr_currency c = po_currency x \<and> 0 \<le> back \<and> back \<le> po_amount x \<and>
             po_status x = (if back = po_amount x then StatusRefunded else StatusCompleted))"

definition refund_ok :: "pay_store \<Rightarrow> refund \<Rightarrow> bool" where
  "refund_ok s r \<longleftrightarrow>
     0 < rf_amount r \<and>
     (case map_of (ps_orders s) (rf_order r) of
        None \<Rightarrow> False
      | Some x \<Rightarrow> rf_tenant r = po_tenant x \<and> rf_user r = po_user x \<and> rf_currency r = po_currency x \<and>
                  map_of (ps_credits s) (rf_order r) \<noteq> None \<and>
                  (rf_exact r \<longrightarrow> rf_requested r \<le> refundTotalForOrder (rf_tenant r) (rf_order r) s))"

definition books_ok :: "pay_store \<Rightarrow> bool" where
  "books_ok s \<longleftrightarrow>
     keyed s \<and>
     (\<forall>i x. map_of (ps_orders s) i = Some x \<longrightarrow> order_ok s x) \<and>
     (\<forall>i c. map_of (ps_credits s) i = Some c \<longrightarrow> map_of (ps_orders s) i \<noteq> None) \<and>
     (\<forall>i r. map_of (ps_refunds s) i = Some r \<longrightarrow> refund_ok s r) \<and>
     (\<forall>k i. map_of (ps_byTrade s) k = Some i \<longrightarrow>
        (\<exists>x. map_of (ps_orders s) i = Some x \<and> k = stringJoin (po_tenant x) (po_tradeNo x))) \<and>
     (\<forall>k i. map_of (ps_refundKeys s) k = Some i \<longrightarrow>
        (\<exists>r. map_of (ps_refunds s) i = Some r \<and> k = stringJoin (rf_tenant r) (rf_key r))) \<and>
     (\<forall>t u. 0 \<le> pay_balance t u s)"

lemma books_okI:
  assumes "keyed s" and "\<And>i x. map_of (ps_orders s) i = Some x \<Longrightarrow> order_ok s x"
    and "\<And>i c. map_of (ps_credits s) i = Some c \<Longrightarrow> map_of (ps_orders s) i \<noteq> None"
    and "\<And>i r. map_of (ps_refunds s) i = Some r \<Longrightarrow> refund_ok s r"
    and "\<And>k i. map_of (ps_byTrade s) k = Some i \<Longrightarrow>
      \<exists>x. map_of (ps_orders s) i = Some x \<and> k = stringJoin (po_tenant x) (po_tradeNo x)"
    and "\<And>k i. map_of (ps_refundKeys s) k = Some i \<Longrightarrow>
      \<exists>r. map_of (ps_refunds s) i = Some r \<and> k = stringJoin (rf_tenant r) (rf_key r)"
    and "\<And>t u. 0 \<le> pay_balance t u s"
  shows "books_ok s"
  using assms unfolding books_ok_def by blast

lemma books_okD:
  assumes "books_ok s"
  shows "keyed s" "map_of (ps_orders s) i = Some x \<Longrightarrow> order_ok s x"
    "map_of (ps_credits s) i = Some c \<Longrightarrow> map_of (ps_orders s) i \<noteq> None"
    "map_of (ps_refunds s) i = Some r \<Longrightarrow> refund_ok s r"
    "map_of (ps_byTrade s) k = Some i \<Longrightarrow>
      \<exists>x. map_of (ps_orders s) i = Some x \<and> k = stringJoin (po_tenant x) (po_tradeNo x)"
    "map_of (ps_refundKeys s) k = Some i \<Longrightarrow>
      \<exists>r. map_of (ps_refunds s) i = Some r \<and> k = stringJoin (rf_tenant r) (rf_key r)"
    "0 \<le> pay_balance t u s"
  using assms unfolding books_ok_def by blast+

lemma books_new: "books_ok newPayStore"
  by (rule books_okI) (simp_all add: newPayStore_def keyed_def keys_ok_def pay_balance_def)

lemma keyed_orderD: "keyed s \<Longrightarrow> map_of (ps_orders s) i = Some x \<Longrightarrow> po_id x = i"
  by (auto simp: keyed_def dest: keys_okD)

lemma order_fresh: "keyed s \<Longrightarrow> ps_nextOrder s < i \<Longrightarrow> map_of (ps_orders s) i = None"
  by (auto simp: keyed_def intro: keys_ok_fresh)

lemma credit_fresh: "keyed s \<Longrightarrow> ps_nextOrder s < i \<Longrightarrow> map_of (ps_credits s) i = None"
  by (auto simp: keyed_def intro: keys_ok_fresh)

lemma refund_fresh: "keyed s \<Longrightarrow> ps_nextRefund s < i \<Longrightarrow> map_of (ps_refunds s) i = None"
  by (auto simp: keyed_def intro: keys_ok_fresh)

text \<open>No refund names an order that does not exist, so nothing was given back for a fresh id.\<close>

lemma no_refund_total:
  assumes "keyed s" and "\<And>j r. map_of (ps_refunds s) j = Some r \<Longrightarrow> rf_order r \<noteq> i"
  shows "refundTotalForOrder t i s = 0"
proof -
  have d: "distinct (map fst (ps_refunds s))" using assms(1) by (simp add: keyed_def keys_ok_def)
  have "filter (\<lambda>(_, r). rf_tenant r = t \<and> rf_order r = i) (ps_refunds s) = []"
    using assms(2) map_of_is_SomeI [OF d] by (auto simp: filter_empty_conv)
  then show ?thesis by (simp add: refundTotalForOrder_def)
qed

lemma fresh_total:
  assumes "books_ok s" and "map_of (ps_orders s) i = None"
  shows "refundTotalForOrder t i s = 0"
proof (rule no_refund_total [OF books_okD(1) [OF assms(1)]])
  fix j r
  assume "map_of (ps_refunds s) j = Some r"
  from books_okD(4) [OF assms(1) this] assms(2) show "rf_order r \<noteq> i" by (auto simp: refund_ok_def)
qed

text \<open>The sums after a new credit and after a new refund.\<close>

lemma balance_credit:
  "map_of (ps_credits s) (cr_order c) = None \<Longrightarrow>
   pay_balance t u (add_credit c s) = pay_balance t u s + (if cr_tenant c = t \<and> cr_user c = u then cr_amount c else 0)"
  by (simp add: pay_balance_def add_credit_def update_fresh)

lemma total_credit [simp]: "refundTotalForOrder t i (add_credit c s) = refundTotalForOrder t i s"
  by (simp add: refundTotalForOrder_def add_credit_def)

lemma balance_refund:
  "map_of (ps_refunds s) (rf_id r) = None \<Longrightarrow>
   pay_balance t u (add_refund r s) = pay_balance t u s - (if rf_tenant r = t \<and> rf_user r = u then rf_amount r else 0)"
  by (simp add: pay_balance_def add_refund_def update_fresh)

lemma total_refund:
  "map_of (ps_refunds s) (rf_id r) = None \<Longrightarrow>
   refundTotalForOrder t i (add_refund r s) =
     refundTotalForOrder t i s + (if rf_tenant r = t \<and> rf_order r = i then rf_amount r else 0)"
  by (simp add: refundTotalForOrder_def add_refund_def update_fresh)

lemma total_order [simp]: "refundTotalForOrder t i (add_order x s) = refundTotalForOrder t i s"
  by (simp add: refundTotalForOrder_def add_order_def)

lemma balance_order [simp]: "pay_balance t u (add_order x s) = pay_balance t u s"
  by (simp add: pay_balance_def add_order_def)

lemma order_ok_cong:
  "map_of (ps_credits s') (po_id x) = map_of (ps_credits s) (po_id x) \<Longrightarrow>
   refundTotalForOrder (po_tenant x) (po_id x) s' = refundTotalForOrder (po_tenant x) (po_id x) s \<Longrightarrow>
   order_ok s' x = order_ok s x"
  by (simp add: order_ok_def)

lemma order_ok_same:
  "same_order x y \<Longrightarrow> po_status x \<notin> {StatusCompleted, StatusRefunded} \<Longrightarrow>
   po_status y \<notin> {StatusCompleted, StatusRefunded} \<Longrightarrow> order_ok s x \<Longrightarrow> order_ok s y"
  by (auto simp: order_ok_def same_order_def Let_def split: option.splits if_splits)

lemma not_credited:
  "order_ok s x \<Longrightarrow> po_status x \<notin> {StatusCompleted, StatusRefunded} \<Longrightarrow>
   map_of (ps_credits s) (po_id x) = None \<and> refundTotalForOrder (po_tenant x) (po_id x) s = 0 \<and> 0 < po_amount x"
  by (auto simp: order_ok_def Let_def split: option.splits if_splits)

lemma is_credited:
  "order_ok s x \<Longrightarrow> map_of (ps_credits s) (po_id x) = Some c \<Longrightarrow>
   cr_amount c = po_amount x \<and> cr_tenant c = po_tenant x \<and> cr_user c = po_user x \<and> cr_currency c = po_currency x \<and>
   0 \<le> refundTotalForOrder (po_tenant x) (po_id x) s \<and> 0 < po_amount x"
  by (simp add: order_ok_def Let_def)

text \<open>A refund stays in order while the books only grow: its order keeps its identity and its credit.\<close>

lemma refund_ok_mono:
  assumes "refund_ok s r"
    and "\<And>x. map_of (ps_orders s) (rf_order r) = Some x \<Longrightarrow> \<exists>y. map_of (ps_orders s') (rf_order r) = Some y \<and> same_order x y"
    and "map_of (ps_credits s) (rf_order r) \<noteq> None \<Longrightarrow> map_of (ps_credits s') (rf_order r) \<noteq> None"
    and "refundTotalForOrder (rf_tenant r) (rf_order r) s \<le> refundTotalForOrder (rf_tenant r) (rf_order r) s'"
  shows "refund_ok s' r"
proof -
  obtain x where x: "map_of (ps_orders s) (rf_order r) = Some x" using assms(1) by (auto simp: refund_ok_def split: option.splits)
  from assms(2) [OF this] obtain y where "map_of (ps_orders s') (rf_order r) = Some y" "same_order x y" by blast
  with x assms(1,3,4) show ?thesis by (auto simp: refund_ok_def same_order_def)
qed

lemma opened_ok:
  assumes "books_ok s" and "po_id x = ps_nextOrder s + 1" and "0 < po_amount x" and "po_status x = StatusPending"
    and "keyed (add_order x s)"
  shows "books_ok (add_order x s)"
proof (rule books_okI)
  note ok = books_okD [OF assms(1)]
  have new: "map_of (ps_orders s) (po_id x) = None" "map_of (ps_credits s) (po_id x) = None"
    using order_fresh [OF ok(1)] credit_fresh [OF ok(1)] assms(2) by simp_all
  have orders: "map_of (ps_orders (add_order x s)) = (map_of (ps_orders s))(po_id x \<mapsto> x)"
    "ps_credits (add_order x s) = ps_credits s" "ps_refunds (add_order x s) = ps_refunds s"
    "ps_refundKeys (add_order x s) = ps_refundKeys s"
    by (simp_all add: add_order_def)
  have keep: "i \<noteq> po_id x" if "map_of (ps_orders s) i = Some z" for i z using that new by auto
  show "keyed (add_order x s)" by (rule assms(5))
  show "order_ok (add_order x s) z" if "map_of (ps_orders (add_order x s)) i = Some z" for i z
  proof (cases "i = po_id x")
    case True
    with that orders have "z = x" by simp
    with new orders fresh_total [OF assms(1) new(1)] assms(3,4) show ?thesis by (simp add: order_ok_def)
  next
    case False
    with that orders have "map_of (ps_orders s) i = Some z" by simp
    from ok(2) [OF this] show ?thesis using order_ok_cong [of "add_order x s" z s] orders by simp
  qed
  show "map_of (ps_orders (add_order x s)) i \<noteq> None" if "map_of (ps_credits (add_order x s)) i = Some c" for i c
    using ok(3) that orders by simp
  show "refund_ok (add_order x s) r" if "map_of (ps_refunds (add_order x s)) i = Some r" for i r
  proof (rule refund_ok_mono)
    show "refund_ok s r" using ok(4) that orders by simp
    show "\<exists>y. map_of (ps_orders (add_order x s)) (rf_order r) = Some y \<and> same_order z y"
      if "map_of (ps_orders s) (rf_order r) = Some z" for z
      using keep [OF that] that orders by simp
  qed (simp_all add: orders)
  show "\<exists>z. map_of (ps_orders (add_order x s)) i = Some z \<and> k = stringJoin (po_tenant z) (po_tradeNo z)"
    if "map_of (ps_byTrade (add_order x s)) k = Some i" for k i
    using that ok(5) [of k i] keep by (auto simp: add_order_def split: if_splits)
  show "\<exists>r. map_of (ps_refunds (add_order x s)) i = Some r \<and> k = stringJoin (rf_tenant r) (rf_key r)"
    if "map_of (ps_refundKeys (add_order x s)) k = Some i" for k i
    using that ok(6) orders by simp
  show "0 \<le> pay_balance t u (add_order x s)" for t u using ok(7) by simp
qed

text \<open>
  What a change of the books has to show when it replaces one order and keeps the trade numbers:
  the order itself, the money of the others, and the sums.
\<close>

lemma changed_ok:
  assumes "books_ok s" and "map_of (ps_orders s) (po_id x) = Some x" and "same_order x y" and "keyed s'"
    and "ps_orders s' = AList.update (po_id x) y (ps_orders s)" and "ps_byTrade s' = ps_byTrade s"
    and "order_ok s' y"
    and "\<And>i. i \<noteq> po_id x \<Longrightarrow> map_of (ps_credits s') i = map_of (ps_credits s) i"
    and "\<And>t i. i \<noteq> po_id x \<Longrightarrow> refundTotalForOrder t i s' = refundTotalForOrder t i s"
    and "\<And>i r. map_of (ps_refunds s') i = Some r \<Longrightarrow> refund_ok s' r"
    and "\<And>k i. map_of (ps_refundKeys s') k = Some i \<Longrightarrow>
      \<exists>r. map_of (ps_refunds s') i = Some r \<and> k = stringJoin (rf_tenant r) (rf_key r)"
    and "\<And>t u. 0 \<le> pay_balance t u s'"
  shows "books_ok s'"
proof (rule books_okI)
  note ok = books_okD [OF assms(1)]
  have orders: "map_of (ps_orders s') = (map_of (ps_orders s))(po_id x \<mapsto> y)" using assms(5) by simp
  show "order_ok s' z" if "map_of (ps_orders s') i = Some z" for i z
  proof (cases "i = po_id x")
    case True
    with that orders assms(7) show ?thesis by simp
  next
    case False
    with that orders have z: "map_of (ps_orders s) i = Some z" by simp
    with False keyed_orderD [OF ok(1)] have "po_id z \<noteq> po_id x" by auto
    with ok(2) [OF z] assms(8,9) show ?thesis using order_ok_cong [of s' z s] by simp
  qed
  show "map_of (ps_orders s') i \<noteq> None" if "map_of (ps_credits s') i = Some c" for i c
    using that ok(3) [of i c] assms(8) [of i] orders by (cases "i = po_id x") auto
  show "\<exists>z. map_of (ps_orders s') i = Some z \<and> k = stringJoin (po_tenant z) (po_tradeNo z)"
    if "map_of (ps_byTrade s') k = Some i" for k i
    using ok(5) [of k i] that assms(2,3,6) orders by (auto simp: same_order_def)
qed (use assms in auto)

lemma put_same:
  "map_of (ps_orders s) (po_id x) = Some x \<Longrightarrow> same_order x y \<Longrightarrow> map_of (ps_orders s) j = Some z \<Longrightarrow>
   \<exists>z'. ((map_of (ps_orders s))(po_id x \<mapsto> y)) j = Some z' \<and> same_order z z'"
  by (cases "j = po_id x") auto

lemma refund_kept:
  assumes "books_ok s" and "map_of (ps_orders s) (po_id x) = Some x" and "same_order x y"
    and "map_of (ps_refunds s) i = Some r" and "map_of (ps_orders s') = (map_of (ps_orders s))(po_id x \<mapsto> y)"
    and "\<And>j. map_of (ps_credits s) j \<noteq> None \<Longrightarrow> map_of (ps_credits s') j \<noteq> None"
    and "\<And>t j. refundTotalForOrder t j s \<le> refundTotalForOrder t j s'"
  shows "refund_ok s' r"
proof (rule refund_ok_mono [OF books_okD(4) [OF assms(1,4)]])
  show "\<exists>y. map_of (ps_orders s') (rf_order r) = Some y \<and> same_order z y"
    if "map_of (ps_orders s) (rf_order r) = Some z" for z
    using put_same [OF assms(2,3) that] assms(5) by simp
qed (use assms(6,7) in auto)

lemma same_id: "same_order x y \<Longrightarrow> po_id y = po_id x"
  by (simp add: same_order_def)

lemma moved_ok:
  assumes "books_ok s" and "map_of (ps_orders s) (po_id x) = Some x" and "same_order x y"
    and "(po_status x, po_status y) \<in> early_moves" and "keyed (put_order y s)"
  shows "books_ok (put_order y s)"
proof (rule changed_ok [OF assms(1,2,3)])
  note ok = books_okD [OF assms(1)]
  have "order_ok s y"
    using assms(4) ok(2) [OF assms(2)] by (intro order_ok_same [OF assms(3)]) (auto simp: early_moves_def)
  then show "order_ok (put_order y s) y" using order_ok_cong [of "put_order y s" y s] by simp
  show "refund_ok (put_order y s) r" if "map_of (ps_refunds (put_order y s)) i = Some r" for i r
    using that by (intro refund_kept [OF assms(1-3), of i]) (simp_all add: same_id [OF assms(3)])
qed (use assms(5) books_okD(6,7) [OF assms(1)] same_id [OF assms(3)] in simp_all)

lemma credited_ok:
  assumes "books_ok s" and "map_of (ps_orders s) (po_id x) = Some x" and "same_order x y"
    and "po_status x = StatusRecharging" and "po_status y = StatusCompleted"
    and "cr_order c = po_id x" and "cr_tenant c = po_tenant x" and "cr_user c = po_user x"
    and "cr_amount c = po_amount x" and "cr_currency c = po_currency x"
    and "keyed (put_order y (add_credit c s))"
  shows "books_ok (put_order y (add_credit c s))"
proof (rule changed_ok [OF assms(1,2,3)])
  note ok = books_okD [OF assms(1)]
  have n: "map_of (ps_credits s) (po_id x) = None" "refundTotalForOrder (po_tenant x) (po_id x) s = 0" "0 < po_amount x"
    using not_credited [OF ok(2) [OF assms(2)]] assms(4) by auto
  have credits: "map_of (ps_credits (add_credit c s)) = (map_of (ps_credits s))(po_id x \<mapsto> c)"
    "ps_refunds (add_credit c s) = ps_refunds s" "ps_refundKeys (add_credit c s) = ps_refundKeys s"
    "ps_orders (add_credit c s) = ps_orders s" "ps_byTrade (add_credit c s) = ps_byTrade s"
    using assms(6) by (simp_all add: add_credit_def)
  show "order_ok (put_order y (add_credit c s)) y"
    using n assms(3,5,7,8,9,10) credits by (simp add: order_ok_def same_order_def)
  show "refund_ok (put_order y (add_credit c s)) r"
    if "map_of (ps_refunds (put_order y (add_credit c s))) i = Some r" for i r
    using that credits by (intro refund_kept [OF assms(1-3), of i]) (simp_all add: same_id [OF assms(3)])
  show "0 \<le> pay_balance t u (put_order y (add_credit c s))" for t u
    using ok(7) [of t u] balance_credit [of s c t u] n assms(6,9) by simp
  show "map_of (ps_credits (put_order y (add_credit c s))) i = map_of (ps_credits s) i" if "i \<noteq> po_id x" for i
    using that credits by simp
  show "\<exists>r. map_of (ps_refunds (put_order y (add_credit c s))) i = Some r \<and> k = stringJoin (rf_tenant r) (rf_key r)"
    if "map_of (ps_refundKeys (put_order y (add_credit c s))) k = Some i" for k i
    using that ok(6) credits by simp
  show "ps_orders (put_order y (add_credit c s)) = AList.update (po_id x) y (ps_orders s)"
    using credits same_id [OF assms(3)] by simp
  show "ps_byTrade (put_order y (add_credit c s)) = ps_byTrade s" using credits by simp
qed (use assms(11) in simp_all)

lemma refunded_ok:
  assumes "books_ok s" and "map_of (ps_orders s) (po_id x) = Some x" and "same_order x y"
    and "map_of (ps_credits s) (po_id x) = Some c" and "rf_id r = ps_nextRefund s + 1"
    and "rf_order r = po_id x" and "rf_tenant r = po_tenant x" and "rf_user r = po_user x"
    and "rf_currency r = po_currency x" and "0 < rf_amount r"
    and "rf_amount r \<le> pay_balance (po_tenant x) (po_user x) s"
    and "refundTotalForOrder (po_tenant x) (po_id x) s + rf_amount r \<le> cr_amount c"
    and "po_status y =
      (if refundTotalForOrder (po_tenant x) (po_id x) s + rf_amount r = cr_amount c then StatusRefunded else StatusCompleted)"
    and "rf_exact r \<Longrightarrow> rf_requested r = refundTotalForOrder (po_tenant x) (po_id x) s + rf_amount r"
    and "keyed (put_order y (add_refund r s))"
  shows "books_ok (put_order y (add_refund r s))"
proof (rule changed_ok [OF assms(1,2,3)])
  note ok = books_okD [OF assms(1)]
  note c = is_credited [OF ok(2) [OF assms(2)] assms(4)]
  have new: "map_of (ps_refunds s) (rf_id r) = None" using refund_fresh [OF ok(1)] assms(5) by simp
  have sums: "refundTotalForOrder t i (put_order y (add_refund r s)) =
      refundTotalForOrder t i s + (if po_tenant x = t \<and> po_id x = i then rf_amount r else 0)" for t i
    using total_refund [OF new, of t i] assms(6,7) by simp
  have books: "map_of (ps_refunds (add_refund r s)) = (map_of (ps_refunds s))(rf_id r \<mapsto> r)"
    "ps_credits (add_refund r s) = ps_credits s" "ps_orders (add_refund r s) = ps_orders s"
    "ps_byTrade (add_refund r s) = ps_byTrade s"
    "map_of (ps_refundKeys (add_refund r s)) = (map_of (ps_refundKeys s))(stringJoin (rf_tenant r) (rf_key r) \<mapsto> rf_id r)"
    by (simp_all add: add_refund_def)
  show "order_ok (put_order y (add_refund r s)) y"
    using c assms(3,4,10,12,13) sums [of "po_tenant y" "po_id y"] books by (simp add: order_ok_def same_order_def)
  show "refund_ok (put_order y (add_refund r s)) r'"
    if "map_of (ps_refunds (put_order y (add_refund r s))) i = Some r'" for i r'
  proof (cases "i = rf_id r")
    case True
    with that books have "r' = r" by simp
    with assms(3,4,6-10,14) books sums show ?thesis by (auto simp: refund_ok_def same_order_def)
  next
    case False
    with that books have "map_of (ps_refunds s) i = Some r'" by simp
    with books assms(10) sums show ?thesis
      by (intro refund_kept [OF assms(1-3), of i]) (simp_all add: same_id [OF assms(3)])
  qed
  show "\<exists>r'. map_of (ps_refunds (put_order y (add_refund r s))) i = Some r' \<and> k = stringJoin (rf_tenant r') (rf_key r')"
    if "map_of (ps_refundKeys (put_order y (add_refund r s))) k = Some i" for k i
    using that ok(6) [of k i] new books by (auto split: if_splits)
  show "0 \<le> pay_balance t u (put_order y (add_refund r s))" for t u
    using ok(7) [of t u] balance_refund [OF new, of t u] assms(7,8,11) by (auto split: if_splits)
  show "ps_orders (put_order y (add_refund r s)) = AList.update (po_id x) y (ps_orders s)"
    using books same_id [OF assms(3)] by simp
  show "ps_byTrade (put_order y (add_refund r s)) = ps_byTrade s" using books by simp
  show "map_of (ps_credits (put_order y (add_refund r s))) i = map_of (ps_credits s) i" for i using books by simp
  show "refundTotalForOrder t i (put_order y (add_refund r s)) = refundTotalForOrder t i s" if "i \<noteq> po_id x" for t i
    using sums that by simp
qed (use assms(15) in simp_all)

lemma step_ok: "ledger_step s s' \<Longrightarrow> books_ok s \<Longrightarrow> books_ok s'"
proof (induction rule: ledger_step.induct)
  case (opened x s)
  then show ?case using keyed_step [OF ledger_step.opened books_okD(1)] by (intro opened_ok) auto
next
  case (moved s x y)
  then show ?case using keyed_step [OF ledger_step.moved books_okD(1)] by (intro moved_ok) auto
next
  case (credited s x y c)
  note k = keyed_step [OF ledger_step.credited [OF credited(1-9)] books_okD(1) [OF credited(10)]]
  from credited_ok [OF credited(10) credited(1-9) k] show ?case .
next
  case (refunded s x y c r)
  note k = keyed_step [OF ledger_step.refunded [OF refunded(1-14)] books_okD(1) [OF refunded(15)]]
  from refunded_ok [OF refunded(15) refunded(1-13) k] show ?case .
next
  case (audited s t i e k a why q)
  then have "order_ok (pay_appendAudit t i e k a why q s) x = order_ok s x"
    "refund_ok (pay_appendAudit t i e k a why q s) r = refund_ok s r" for x r
    by (simp_all add: order_ok_def refund_ok_def split: option.split)
  with audited show ?case by (simp add: books_ok_def keyed_def)
qed

lemma run_ok: "ledger_run s s' \<Longrightarrow> books_ok s \<Longrightarrow> books_ok s'"
  by (induction rule: rtranclp_induct) (auto intro: step_ok)

lemma pay_call_ok: "books_ok (sv_store v) \<Longrightarrow> books_ok (sv_store (pay_step env v c))"
  using pay_step_run [of v env c] books_okD(1) by (auto simp: service_run_def intro: run_ok)

interpretation books: invariant_component "pay_step env" "\<lambda>v. books_ok (sv_store v)" for env
  by unfold_locales (rule pay_call_ok)

section \<open>The balance is what the orders say\<close>

text \<open>The abstract account of a user: each paid order counts its amount less what was given back.\<close>

definition order_net :: "pay_store \<Rightarrow> pay_order \<Rightarrow> int" where
  "order_net s x =
     (if po_status x \<in> {StatusCompleted, StatusRefunded}
      then po_amount x - refundTotalForOrder (po_tenant x) (po_id x) s else 0)"

definition account_net :: "int \<Rightarrow> int \<Rightarrow> pay_store \<Rightarrow> int" where
  "account_net t u s =
     (\<Sum>i \<in> {i. \<exists>x. map_of (ps_orders s) i = Some x \<and> po_tenant x = t \<and> po_user x = u}. order_net s (the (map_of (ps_orders s) i)))"

lemma finite_keys: "finite {i. \<exists>c. map_of xs i = Some c \<and> P i c}"
  by (rule finite_subset [OF _ finite_dom_map_of [of xs]]) auto

lemma sum_entries:
  assumes "distinct (map fst xs)"
  shows "sum_list (map (\<lambda>(_, c). f c) (filter (\<lambda>(_, c). P c) xs)) =
    (\<Sum>i \<in> {i. \<exists>c. map_of xs i = Some c \<and> P c}. f (the (map_of xs i)))"
  using assms
proof (induction xs)
  case Nil
  then show ?case by simp
next
  case (Cons e xs)
  obtain k c where e: "e = (k, c)" by fastforce
  with Cons.prems have k: "map_of xs k = None" by (simp add: map_of_eq_None_iff)
  let ?A = "{i. \<exists>c. map_of xs i = Some c \<and> P c}"
  have rest: "(\<Sum>i \<in> ?A. f (the (((map_of xs)(k \<mapsto> c)) i))) = (\<Sum>i \<in> ?A. f (the (map_of xs i)))"
    using k by (intro sum.cong) auto
  have dom: "{i. \<exists>d. ((map_of xs)(k \<mapsto> c)) i = Some d \<and> P d} = (if P c then insert k ?A else ?A)"
    using k by auto
  have "k \<notin> ?A" using k by auto
  moreover have "sum_list (map (\<lambda>(_, c). f c) (filter (\<lambda>(_, c). P c) xs)) = (\<Sum>i \<in> ?A. f (the (map_of xs i)))"
    using Cons by simp
  ultimately show ?case using e dom rest by (auto simp: finite_keys)
qed

lemma total_as_sum:
  assumes "keyed s"
  shows "refundTotalForOrder t i s =
    (\<Sum>j \<in> {j. \<exists>r. map_of (ps_refunds s) j = Some r \<and> rf_tenant r = t \<and> rf_order r = i}. rf_amount (the (map_of (ps_refunds s) j)))"
  using assms unfolding refundTotalForOrder_def by (subst sum_entries) (simp_all add: keyed_def keys_ok_def)

text \<open>What was given back to a user is what was given back on the orders of the user.\<close>

lemma refunds_by_order:
  assumes "books_ok s"
  shows "(\<Sum>j \<in> {j. \<exists>r. map_of (ps_refunds s) j = Some r \<and> rf_tenant r = t \<and> rf_user r = u}. rf_amount (the (map_of (ps_refunds s) j))) =
    (\<Sum>i \<in> {i. \<exists>x. map_of (ps_orders s) i = Some x \<and> po_tenant x = t \<and> po_user x = u}. refundTotalForOrder t i s)"
    (is "sum ?f ?R = sum _ ?O")
proof -
  let ?R_of = "\<lambda>i. {j. \<exists>r. map_of (ps_refunds s) j = Some r \<and> rf_tenant r = t \<and> rf_order r = i}"
  have mine: "rf_tenant r = t \<and> rf_user r = u \<longleftrightarrow> rf_tenant r = t \<and> rf_order r \<in> ?O"
    if "map_of (ps_refunds s) j = Some r" for j r
    using books_okD(4) [OF assms that] by (auto simp: refund_ok_def split: option.splits)
  have "?R = (\<Union>i \<in> ?O. ?R_of i)" using mine by fastforce
  moreover have "sum ?f (\<Union>i \<in> ?O. ?R_of i) = (\<Sum>i \<in> ?O. sum ?f (?R_of i))"
    by (rule sum.UNION_disjoint) (auto simp: finite_keys)
  ultimately show ?thesis using total_as_sum [OF books_okD(1) [OF assms]] by simp
qed

lemma credits_by_order:
  assumes "books_ok s"
  shows "(\<Sum>i \<in> {i. \<exists>c. map_of (ps_credits s) i = Some c \<and> cr_tenant c = t \<and> cr_user c = u}. cr_amount (the (map_of (ps_credits s) i))) =
    (\<Sum>i \<in> {i. \<exists>x. map_of (ps_orders s) i = Some x \<and> po_tenant x = t \<and> po_user x = u}.
       case map_of (ps_credits s) i of None \<Rightarrow> 0 | Some c \<Rightarrow> cr_amount c)"
    (is "sum _ ?C = sum ?g ?O")
proof -
  note ok = books_okD [OF assms]
  have c: "cr_tenant c = po_tenant x \<and> cr_user c = po_user x"
    if "map_of (ps_credits s) i = Some c" "map_of (ps_orders s) i = Some x" for i c x
    using is_credited [OF ok(2) [OF that(2)], of c] that keyed_orderD [OF ok(1) that(2)] by simp
  have sub: "?C \<subseteq> ?O" using c ok(3) by fastforce
  have zero: "\<forall>i \<in> ?O - ?C. ?g i = 0" using c by (auto split: option.split)
  have "sum ?g ?C = sum ?g ?O" by (rule sum.mono_neutral_left [OF finite_keys sub zero])
  moreover have "sum ?g ?C = (\<Sum>i \<in> ?C. cr_amount (the (map_of (ps_credits s) i)))" by (rule sum.cong) auto
  ultimately show ?thesis by simp
qed

lemma order_net_eq:
  assumes "books_ok s" and "map_of (ps_orders s) i = Some x"
  shows "order_net s x = (case map_of (ps_credits s) i of None \<Rightarrow> 0 | Some c \<Rightarrow> cr_amount c) - refundTotalForOrder (po_tenant x) i s"
proof -
  have i: "po_id x = i" by (rule keyed_orderD [OF books_okD(1) [OF assms(1)] assms(2)])
  note ok = books_okD(2) [OF assms, unfolded order_ok_def i Let_def]
  show ?thesis
  proof (cases "map_of (ps_credits s) i")
    case None
    with ok show ?thesis by (simp add: order_net_def)
  next
    case (Some c)
    with ok show ?thesis by (simp add: order_net_def i)
  qed
qed

lemma balance_net: "books_ok s \<Longrightarrow> pay_balance t u s = account_net t u s"
proof -
  assume ok: "books_ok s"
  have d: "distinct (map fst (ps_credits s))" "distinct (map fst (ps_refunds s))"
    using books_okD(1) [OF ok] by (simp_all add: keyed_def keys_ok_def)
  have "pay_balance t u s =
      (\<Sum>i \<in> {i. \<exists>x. map_of (ps_orders s) i = Some x \<and> po_tenant x = t \<and> po_user x = u}.
         (case map_of (ps_credits s) i of None \<Rightarrow> 0 | Some c \<Rightarrow> cr_amount c) - refundTotalForOrder t i s)"
    unfolding pay_balance_def sum_entries [OF d(1), of cr_amount "\<lambda>c. cr_tenant c = t \<and> cr_user c = u"]
      sum_entries [OF d(2), of rf_amount "\<lambda>r. rf_tenant r = t \<and> rf_user r = u"]
      refunds_by_order [OF ok] credits_by_order [OF ok]
    by (simp add: sum_subtractf)
  also have "\<dots> = account_net t u s"
    unfolding account_net_def by (rule sum.cong) (auto simp: order_net_eq [OF ok])
  finally show ?thesis .
qed

end
