(* ===== verification/Payment_Properties.thy ===== *)
theory Payment_Properties
  imports Payment_Money
begin

text \<open>
  The properties of the payment service over its whole interface: the books after any history of
  calls, the life cycle of an order, callbacks and the replay of refunds.
\<close>

section \<open>Histories\<close>

definition pay_history :: "pay_env \<Rightarrow> pay_provider list \<Rightarrow> pay_call list \<Rightarrow> pay_store" where
  "pay_history env extra cs = sv_store (foldl (pay_step env) (newPayService extra newPayStore) cs)"

lemma new_service_ok: "books_ok (sv_store (newPayService extra newPayStore))"
  by (simp add: newPayService_def Let_def books_new)

lemma history_ok: "books_ok (pay_history env extra cs)"
  unfolding pay_history_def by (rule books.run_inv [OF new_service_ok])

lemma history_run: "ledger_run (pay_history env extra cs) (pay_history env extra (cs @ ds))"
  using pay_steps_run [of "foldl (pay_step env) (newPayService extra newPayStore) cs" env ds]
    books_okD(1) [OF history_ok [of env extra cs]]
  by (simp add: pay_history_def service_run_def)

text \<open>
  C2. After any calls of the service the books are in order: every order is credited and refunded as
  its status says, every refund belongs to a credited order of the same user, trade numbers and refund
  keys name what they were used for, no balance is negative, and a balance is the sum of what the
  user's orders are worth.
\<close>

theorem payment_books_balance:
  "books_ok (pay_history env extra cs) \<and> 0 \<le> pay_balance t u (pay_history env extra cs) \<and>
   pay_balance t u (pay_history env extra cs) = account_net t u (pay_history env extra cs)"
  using history_ok [of env extra cs] books_okD(7) [OF history_ok] by (simp flip: balance_net)

definition life_cycle :: "(order_status \<times> order_status) set" where
  "life_cycle =
     early_moves \<union> {(StatusRecharging, StatusCompleted), (StatusCompleted, StatusCompleted), (StatusCompleted, StatusRefunded)}"

lemma step_order:
  assumes "ledger_step s s'" and "books_ok s" and "map_of (ps_orders s) i = Some z"
  shows "\<exists>y. map_of (ps_orders s') i = Some y \<and> same_order z y \<and> (po_status z, po_status y) \<in> life_cycle\<^sup>*"
  using assms
proof (induction rule: ledger_step.induct)
  case (opened x s)
  then have "i \<noteq> po_id x" using order_fresh [OF books_okD(1)] by fastforce
  with opened show ?case by (simp add: add_order_def)
next
  case (moved s x y)
  then show ?case by (cases "i = po_id x") (auto simp: same_id life_cycle_def)
next
  case (credited s x y c)
  then show ?case by (cases "i = po_id x") (auto simp: same_id life_cycle_def add_credit_def)
next
  case (refunded s x y c r)
  have "po_status x = StatusCompleted"
    using is_credited [OF books_okD(2) [OF refunded.prems(1) refunded(1)] refunded(3)]
      books_okD(2) [OF refunded.prems(1) refunded(1)] refunded(3,9,11)
    by (auto simp: order_ok_def Let_def split: if_splits)
  with refunded show ?case by (cases "i = po_id x") (auto simp: same_id life_cycle_def add_refund_def)
next
  case (audited s t i e k a why q)
  then show ?case by simp
qed

lemma same_order_trans: "same_order x y \<Longrightarrow> same_order y z \<Longrightarrow> same_order x z"
  by (simp add: same_order_def)

lemma run_order:
  assumes "ledger_run s s'" and "books_ok s" and "map_of (ps_orders s) i = Some z"
  shows "\<exists>y. map_of (ps_orders s') i = Some y \<and> same_order z y \<and> (po_status z, po_status y) \<in> life_cycle\<^sup>*"
  using assms(1)
proof (induction rule: rtranclp_induct)
  case base
  with assms(3) show ?case by auto
next
  case (step s1 s2)
  then obtain y where y: "map_of (ps_orders s1) i = Some y" "same_order z y" "(po_status z, po_status y) \<in> life_cycle\<^sup>*"
    by blast
  from step_order [OF step(2) run_ok [OF step(1) assms(2)] y(1)] y(2,3) show ?case
    by (meson rtrancl_trans same_order_trans)
qed

text \<open>
  C16. An order keeps its owner, its trade number, its amount and its kind for ever, and its status only
  moves along the life cycle: pending, paid, recharging, completed, refunded, or off to expired or
  cancelled while it is pending.
\<close>

theorem order_life_cycle:
  "(case map_of (ps_orders (pay_history env extra cs)) i of
      None \<Rightarrow> True
    | Some x \<Rightarrow>
        (case map_of (ps_orders (pay_history env extra (cs @ ds))) i of
           None \<Rightarrow> False
         | Some y \<Rightarrow> same_order x y \<and> (po_status x, po_status y) \<in> life_cycle\<^sup>*))"
  using run_order [OF history_run history_ok, of env extra cs i _ ds] by (fastforce split: option.split)

section \<open>Trade numbers\<close>

lemma bar_not_in_int: "CHR ''|'' \<notin> set (int_string n)"
  by (auto simp: int_string_def is_digit_def dest: dec_nat_set)

lemma stringJoin_inj: "stringJoin a x = stringJoin b y \<longleftrightarrow> a = b \<and> x = y"
  using sep_unique [of "CHR ''|''" "int_string a" "int_string b" x y] bar_not_in_int
  by (simp add: stringJoin_def int_string_inj)

lemma trade_order:
  assumes "books_ok s" and "getOrderByOutTradeNo t no s = Inr x"
  shows "po_tenant x = t \<and> po_tradeNo x = no \<and> map_of (ps_orders s) (po_id x) = Some x \<and> getOrder t (po_id x) s = Inr x"
proof -
  obtain i where i: "map_of (ps_byTrade s) (stringJoin t no) = Some i" "map_of (ps_orders s) i = Some x"
    using assms(2) by (auto simp: getOrderByOutTradeNo_def split: option.splits)
  from books_okD(5) [OF assms(1) i(1)] i(2) have "po_tenant x = t" "po_tradeNo x = no"
    by (auto simp: stringJoin_inj)
  moreover have "po_id x = i" by (rule keyed_orderD [OF books_okD(1) [OF assms(1)] i(2)])
  ultimately show ?thesis using i by (simp add: getOrder_def)
qed

section \<open>Refused callbacks\<close>

lemma early_money:
  "ps_credits (snd (confirmPaid q s)) = ps_credits s" "ps_refunds (snd (confirmPaid q s)) = ps_refunds s"
  "ps_credits (snd (beginFulfill q s)) = ps_credits s" "ps_refunds (snd (beginFulfill q s)) = ps_refunds s"
  by (simp_all add: confirmPaid_def beginFulfill_def Let_def split: sum.split order_status.split)

lemma complete_error: "completeFulfill q s = (Inl e, s') \<Longrightarrow> s' = s"
  by (auto simp: completeFulfill_def Let_def split: sum.splits option.splits if_splits)

lemma fulfill_error:
  assumes "fulfill q v = (Inl e, v')"
  shows "ps_credits (sv_store v') = ps_credits (sv_store v) \<and> ps_refunds (sv_store v') = ps_refunds (sv_store v)"
proof -
  obtain b st where b: "beginFulfill q (sv_store v) = (b, st)" by fastforce
  have m: "ps_credits st = ps_credits (sv_store v)" "ps_refunds st = ps_refunds (sv_store v)"
    using early_money(3,4) [of q "sv_store v"] b by simp_all
  show ?thesis
    using assms b m by (auto simp: fulfill_def Let_def split: if_splits sum.splits prod.splits dest: complete_error)
qed

definition same_money :: "pay_store \<Rightarrow> pay_store \<Rightarrow> bool" where
  "same_money s s' \<longleftrightarrow> ps_credits s' = ps_credits s \<and> ps_refunds s' = ps_refunds s"

lemma confirm_error: "confirmPaid q s = (a, s') \<Longrightarrow> same_money s s'"
  using early_money(1,2) [of q s] by (simp add: same_money_def)

lemma confirm_fulfill_error:
  "confirmPaid q (sv_store v) = (a, st) \<Longrightarrow> fulfill q' (v\<lparr>sv_store := st\<rparr>) = (Inl e, v') \<Longrightarrow> same_money (sv_store v) (sv_store v')"
  by (auto simp: same_money_def dest!: fulfill_error confirm_error)

lemma same_money_refl [simp]: "same_money s s"
  by (simp add: same_money_def)

lemma settle_error: "settle_callback now cb x v = (a, Some e, v') \<Longrightarrow> same_money (sv_store v) (sv_store v')"
  by (auto simp: settle_callback_def Let_def split: if_splits sum.splits prod.splits
      dest: confirm_error confirm_fulfill_error)

lemma verified_error: "fulfillVerifiedCallback now cb v = (a, Some e, v') \<Longrightarrow> same_money (sv_store v) (sv_store v')"
  by (auto simp: fulfillVerifiedCallback_def Let_def split: sum.splits option.splits dest: settle_error)

lemma handle_error: "handleCallback env now x v = (a, Some e, v') \<Longrightarrow> same_money (sv_store v) (sv_store v')"
  by (auto simp: handleCallback_def split: prod.splits option.splits dest: verified_error)

lemma webhook_error: "confirmPaidByCallback env now kind body sig v = (Inl e, v') \<Longrightarrow> same_money (sv_store v) (sv_store v')"
  by (auto simp: confirmPaidByCallback_def split: sum.splits option.splits if_splits prod.splits
      dest: confirm_error confirm_fulfill_error)

lemma unsigned_callback:
  assumes "toLower (trim_space (cbi_signature x)) \<noteq> mockCallbackSignature env (normalizeCallbackInput x)"
  shows "\<exists>a e. handleCallback env now x v = (a, Some e, v)"
proof -
  have "snd (verifyCallback env x ex) \<noteq> None" for ex
    using assms by (auto simp: verifyCallback_def Let_def normalizeCallbackInput_def [of x] split: sum.split)
  then obtain e where "snd (verifyCallback env x \<lparr> ce_provider = [], ce_amount = 0, ce_currency = [] \<rparr>) = Some e" by blast
  then show ?thesis by (auto simp: handleCallback_def split: prod.split option.split)
qed

lemma webhook_signed:
  assumes "confirmPaidByCallback env now kind body sig v = (Inr r, v')"
  shows "\<exists>secret. resolve (sv_providers v) kind = Inr (TestProvider secret) \<and> secret \<noteq> [] \<and>
    toLower (trim_space sig) = pe_mac env secret body"
  using assms
  by (auto simp: confirmPaidByCallback_def callback_verifier_def test_verify_def
      split: sum.splits option.splits if_splits prod.splits pay_provider.splits)

text \<open>
  C15. A callback that is answered with an error moves no money, on either way in: credits and refunds
  are as before. A recharge callback without the right signature does not touch the service at all,
  and a webhook that succeeds came to a provider with a secret and carried its signature.
\<close>

theorem refused_callback_moves_nothing:
  "(case handleCallback env now x v of
      (a, Some e, v') \<Rightarrow> same_money (sv_store v) (sv_store v')
    | (a, None, v') \<Rightarrow> toLower (trim_space (cbi_signature x)) = mockCallbackSignature env (normalizeCallbackInput x)) \<and>
   (if toLower (trim_space (cbi_signature x)) = mockCallbackSignature env (normalizeCallbackInput x) then True
    else \<exists>a e. handleCallback env now x v = (a, Some e, v)) \<and>
   (case confirmPaidByCallback env now kind body sig v of
      (Inl e, v') \<Rightarrow> same_money (sv_store v) (sv_store v')
    | (Inr r, v') \<Rightarrow>
        \<exists>secret. resolve (sv_providers v) kind = Inr (TestProvider secret) \<and> secret \<noteq> [] \<and>
          toLower (trim_space sig) = pe_mac env secret body)"
proof -
  obtain a e v1 where h: "handleCallback env now x v = (a, e, v1)" by (metis prod_cases3)
  obtain r v2 where w: "confirmPaidByCallback env now kind body sig v = (r, v2)" by fastforce
  show ?thesis
    using h w unsigned_callback [of x env now v] handle_error [of env now x v a _ v1] webhook_error [of env now kind body sig v _ v2]
      webhook_signed [of env now kind body sig v _ v2]
    by (cases e; cases r) auto
qed

section \<open>Callbacks that are paid\<close>

definition not_late :: "pay_order \<Rightarrow> instant \<Rightarrow> bool" where
  "not_late x t \<longleftrightarrow> (case po_expires x of None \<Rightarrow> True | Some d \<Rightarrow> \<not> d < t)"

text \<open>One order through confirmation and both phases of the fulfilment.\<close>

lemma confirm_pending:
  assumes "map_of (ps_orders s) (po_id x) = Some x" and "po_status x = StatusPending" and "not_late x now"
  shows "\<exists>y s1. confirmPaid (system_call (po_tenant x) (po_id x) why req now) s = (Inr y, s1) \<and>
    same_order x y \<and> po_status y = StatusPaid \<and> map_of (ps_orders s1) (po_id x) = Some y \<and>
    ps_credits s1 = ps_credits s \<and> ps_refunds s1 = ps_refunds s \<and> ps_byTrade s1 = ps_byTrade s"
  using assms
  by (auto simp: confirmPaid_def getOrder_def system_call_def Let_def not_late_def same_order_def split: option.split)

lemma begin_paid:
  assumes "map_of (ps_orders s) (po_id x) = Some x" and "po_status x = StatusPaid"
  shows "\<exists>y s1. beginFulfill (system_call (po_tenant x) (po_id x) why req now) s = (Inr (y, False), s1) \<and>
    same_order x y \<and> po_status y = StatusRecharging \<and> map_of (ps_orders s1) (po_id x) = Some y \<and>
    ps_credits s1 = ps_credits s \<and> ps_refunds s1 = ps_refunds s \<and> ps_byTrade s1 = ps_byTrade s"
  using assms by (simp add: beginFulfill_def getOrder_def system_call_def Let_def same_order_def)

lemma complete_recharging:
  assumes "map_of (ps_orders s) (po_id x) = Some x" and "po_status x = StatusRecharging"
    and "po_kind x \<noteq> ''subscription''" and "map_of (ps_credits s) (po_id x) = None"
  shows "\<exists>r s1. completeFulfill (system_call (po_tenant x) (po_id x) why req now) s = (Inr r, s1) \<and>
    \<not> fr_idempotent r \<and> same_order x (fr_order r) \<and> po_status (fr_order r) = StatusCompleted \<and>
    map_of (ps_orders s1) (po_id x) = Some (fr_order r) \<and> ps_byTrade s1 = ps_byTrade s \<and>
    map_of (ps_credits s1) (po_id x) \<noteq> None \<and>
    (\<forall>t u. pay_balance t u s1 = pay_balance t u s + (if po_tenant x = t \<and> po_user x = u then po_amount x else 0))"
proof -
  let ?c = "\<lparr> cr_id = ps_nextCredit s + 1, cr_tenant = po_tenant x, cr_order = po_id x, cr_user = po_user x,
    cr_amount = po_amount x, cr_currency = po_currency x, cr_reason = reasonClassForProvider (po_provider x),
    cr_billing = ps_nextBilling s + 1, cr_at = now \<rparr>"
  let ?s = "s\<lparr> ps_nextCredit := ps_nextCredit s + 1, ps_nextBilling := ps_nextBilling s + 1,
    ps_credits := AList.update (po_id x) ?c (ps_credits s) \<rparr>"
  have "pay_balance t u ?s = pay_balance t u s + (if po_tenant x = t \<and> po_user x = u then po_amount x else 0)" for t u
    using balance_credit [of s ?c t u] assms(4) by (simp add: add_credit_def)
  then show ?thesis
    using assms by (simp add: completeFulfill_def getOrder_def system_call_def Let_def same_order_def)
qed

lemma pay_pending:
  assumes "books_ok (sv_store v)" and "map_of (ps_orders (sv_store v)) (po_id x) = Some x"
    and "po_status x = StatusPending" and "not_late x t1" and "po_kind x \<noteq> ''subscription''"
    and "0 < po_tenant x" and "0 < po_id x"
  shows "\<exists>y st r v1. confirmPaid (system_call (po_tenant x) (po_id x) why req t1) (sv_store v) = (Inr y, st) \<and>
    fulfill (system_call (po_tenant x) (po_id x) [] req now) (v\<lparr>sv_store := st\<rparr>) = (Inr r, v1) \<and>
    \<not> fr_idempotent r \<and> same_order x (fr_order r) \<and> po_status (fr_order r) = StatusCompleted \<and>
    map_of (ps_orders (sv_store v1)) (po_id x) = Some (fr_order r) \<and>
    ps_byTrade (sv_store v1) = ps_byTrade (sv_store v) \<and> map_of (ps_credits (sv_store v1)) (po_id x) \<noteq> None \<and>
    (\<forall>t u. pay_balance t u (sv_store v1) = pay_balance t u (sv_store v) + (if po_tenant x = t \<and> po_user x = u then po_amount x else 0))"
proof -
  obtain y s1 where c: "confirmPaid (system_call (po_tenant x) (po_id x) why req t1) (sv_store v) = (Inr y, s1)"
    and y: "same_order x y" "po_status y = StatusPaid" "map_of (ps_orders s1) (po_id x) = Some y"
      "ps_credits s1 = ps_credits (sv_store v)" "ps_refunds s1 = ps_refunds (sv_store v)" "ps_byTrade s1 = ps_byTrade (sv_store v)"
    using confirm_pending [OF assms(2-4), of why req] by blast
  have id: "po_id y = po_id x" "po_tenant y = po_tenant x" using y(1) by (simp_all add: same_order_def)
  obtain z s2 where b: "beginFulfill (system_call (po_tenant x) (po_id x) [] req now) s1 = (Inr (z, False), s2)"
    and z: "same_order y z" "po_status z = StatusRecharging" "map_of (ps_orders s2) (po_id x) = Some z"
      "ps_credits s2 = ps_credits s1" "ps_refunds s2 = ps_refunds s1" "ps_byTrade s2 = ps_byTrade s1"
    using begin_paid [of s1 y "[]" req now] y id by auto
  have id2: "po_id z = po_id x" "po_tenant z = po_tenant x" "po_user z = po_user x" "po_amount z = po_amount x" "po_kind z = po_kind x"
    using y(1) z(1) by (simp_all add: same_order_def)
  have "map_of (ps_credits (sv_store v)) (po_id x) = None"
    using not_credited [OF books_okD(2) [OF assms(1,2)]] assms(3) by simp
  then obtain r s3 where f: "completeFulfill (system_call (po_tenant x) (po_id x) [] req now) s2 = (Inr r, s3)"
    and r: "\<not> fr_idempotent r" "same_order z (fr_order r)" "po_status (fr_order r) = StatusCompleted"
      "map_of (ps_orders s3) (po_id x) = Some (fr_order r)" "ps_byTrade s3 = ps_byTrade s2"
      "map_of (ps_credits s3) (po_id x) \<noteq> None"
      "\<forall>t u. pay_balance t u s3 = pay_balance t u s2 + (if po_tenant x = t \<and> po_user x = u then po_amount x else 0)"
    using complete_recharging [of s2 z "[]" req now] z y id2 assms(5) by auto
  have "pay_balance t u s2 = pay_balance t u (sv_store v)" for t u using z y by (intro money_cong) simp_all
  moreover have "same_order x (fr_order r)" using y(1) z(1) r(2) by (blast intro: same_order_trans)
  moreover have "fulfill (system_call (po_tenant x) (po_id x) [] req now) (v\<lparr>sv_store := s1\<rparr>) = (Inr r, v\<lparr>sv_store := s3\<rparr>)"
    using b f assms(6,7) by (simp add: fulfill_def system_call_def)
  ultimately show ?thesis using c r z(6) y(6) by auto
qed

lemma replay_completed:
  assumes "map_of (ps_orders (sv_store v)) (po_id x) = Some x" and "po_status x = StatusCompleted"
    and "po_kind x \<noteq> ''subscription''" and "map_of (ps_credits (sv_store v)) (po_id x) \<noteq> None"
    and "0 < po_tenant x" and "0 < po_id x"
  shows "confirmPaid (system_call (po_tenant x) (po_id x) why req t1) (sv_store v) = (Inr x, sv_store v) \<and>
    (\<exists>r. fulfill (system_call (po_tenant x) (po_id x) [] req now) v = (Inr r, v) \<and> fr_idempotent r \<and> fr_order r = x)"
  using assms
  by (auto simp: confirmPaid_def fulfill_def beginFulfill_def completeFulfill_def getOrder_def system_call_def Let_def)

text \<open>What a callback has to say to be accepted for an order.\<close>

definition callback_matches :: "verified_callback \<Rightarrow> pay_order \<Rightarrow> bool" where
  "callback_matches cb x \<longleftrightarrow>
     validateVerifiedCallback cb = None \<and> orderProviderName x = vc_provider cb \<and>
     decimalAmountToCents (vc_paid cb) = Inr (po_amount x) \<and> equalFold (po_currency x) (vc_currency cb)"

lemma callback_matches_same: "same_order x y \<Longrightarrow> callback_matches cb x = callback_matches cb y"
  by (simp add: callback_matches_def same_order_def orderProviderName_def split: option.split)

lemma trade_found:
  "books_ok s \<Longrightarrow> getOrderByOutTradeNo t no s = Inr x \<Longrightarrow> ps_byTrade s' = ps_byTrade s \<Longrightarrow>
   map_of (ps_orders s') (po_id x) = Some y \<Longrightarrow> getOrderByOutTradeNo t no s' = Inr y"
  using books_okD(1) [of s]
  by (auto simp: getOrderByOutTradeNo_def dest: keyed_orderD split: option.splits)

section \<open>A recharge\<close>

text \<open>User 7 of tenant 1 opens a recharge of 12.50 and the provider reports the payment.\<close>

definition ex_env :: pay_env where
  "ex_env =
     \<lparr> pe_mac = (\<lambda>_ _. ''signed''), pe_decode = (\<lambda>_. None), pe_address = (\<lambda>_. True), pe_fixed8 = (\<lambda>_. []),
       pe_digest = (\<lambda>_ _ _. ''rch''), pe_planPrice = None, pe_tradeNo = (\<lambda>_. Inr ''t0'') \<rparr>"

definition ex_create :: create_input where
  "ex_create =
     \<lparr> ci_tenant = 1, ci_user = 7, ci_amount = 1250, ci_currency = ''USD'', ci_tradeNo = ''t1'', ci_provider = ''hmac'',
       ci_fingerprint = ''http_provider:epay'', ci_admin = 0, ci_actorKind = ''user'', ci_actor = 7, ci_actorRef = [],
       ci_request = ''r0'', ci_expiresIn = 0, ci_kind = [], ci_plan = None, ci_address = [], ci_maxPending = 3,
       ci_dailyLimit = 10000 \<rparr>"

definition ex_opened :: pay_service where
  "ex_opened = pay_step ex_env (newPayService [] newPayStore) (CallCreate 1000 ex_create)"

definition ex_callback :: verified_callback where
  "ex_callback =
     \<lparr> vc_tenant = 1, vc_provider = ''EPAY'', vc_tradeNo = ''t1'', vc_event = ''e1'', vc_paid = 25 / 2, vc_currency = ''usd'',
       vc_ts = 2000 \<rparr>"

definition ex_order :: pay_order where
  "ex_order =
     \<lparr> po_id = 1, po_tenant = 1, po_user = 7, po_tradeNo = ''t1'', po_amount = 1250, po_currency = ''USD'',
       po_status = StatusPending, po_provider = ''hmac'', po_ref = ''hmac-ref-t1'', po_fingerprint = ''http_provider:epay'',
       po_confirmedBy = 0, po_confirmReason = [], po_kind = ''topup'', po_plan = None, po_created = 1000, po_updated = 1000,
       po_expires = Some (1000 + 24 * hour), po_paidAt = None, po_rechargingAt = None, po_completedAt = None \<rparr>"

lemma ex_amount: "decimalAmountToCents (25/2) = Inr 1250" by (simp add: decimalAmountToCents_def truncate_rat_def maxAmountCents_def)

lemma ex_trims [simp]:
  "trim_space ''EPAY'' = ''EPAY''" "trim_space ''t1'' = ''t1''" "trim_space ''e1'' = ''e1''" "trim_space ''usd'' = ''usd''"
  "trim_space ''USD'' = ''USD''" "trim_space ''k1'' = ''k1''" "trim_space ''asked'' = ''asked''"
  "trim_space ''http_provider:epay'' = ''http_provider:epay''"
  by (rule trim_space_plain; code_simp)+

lemma ex_cases [simp]: "toLower ''EPAY'' = ''epay''" "toUpper ''usd'' = ''USD''" "toUpper ''USD'' = ''USD''"
  by code_simp+

lemma ex_callback_normal: "normalizeVerifiedCallback ex_callback = ex_callback\<lparr>vc_provider := ''epay'', vc_currency := ''USD''\<rparr>"
  by (simp add: normalizeVerifiedCallback_def ex_callback_def pay_normalizeProvider_def)

lemma ex_opened_books:
  "ps_orders (sv_store ex_opened) = [(1, ex_order)]" "ps_byTrade (sv_store ex_opened) = [(stringJoin 1 ''t1'', 1)]"
  "ps_credits (sv_store ex_opened) = []" "ps_refunds (sv_store ex_opened) = []" "ps_refundKeys (sv_store ex_opened) = []"
  by (simp_all add: ex_opened_def sv_createOrder_def ex_create_def newPayService_def newPayStore_def newProviderRegistry_def
      provider_kind_def resolve_def providerKindOrDefault_def orderKindOrDefault_def create_checks_def Let_def
      validateOutTradeNo_def is_trade_char_def order_price_def maxAmountCents_def normalizeCurrency_def createOrder_def
      createIntent_def ex_order_def countPending_def sumRecharge_def defaultOrderTTL_def)

lemma ex_found: "getOrderByOutTradeNo 1 ''t1'' (sv_store ex_opened) = Inr ex_order" by (simp add: getOrderByOutTradeNo_def ex_opened_books)

lemma ex_matches: "callback_matches (ex_callback\<lparr>vc_provider := ''epay'', vc_currency := ''USD''\<rparr>) ex_order" 
  by (simp add: callback_matches_def validateVerifiedCallback_def ex_callback_def ex_order_def ex_amount orderProviderName_def equalFold_def)

definition ex_credited :: pay_service where
  "ex_credited = pay_step ex_env ex_opened (CallConfirm (system_call 1 1 ''paid'' ''r2'' 3000))"

definition ex_refunding :: refund_record where
  "ex_refunding =
     \<lparr> rq_tenant = 1, rq_order = 1, rq_amount = 500, rq_exact = False, rq_key = ''k1'', rq_reason = ''asked'',
       rq_actorKind = ''admin'', rq_actor = 3, rq_actorRef = [], rq_request = ''r1'', rq_now = 4000 \<rparr>"

lemma ex_opened_ok: "books_ok (sv_store ex_opened)"
  unfolding ex_opened_def by (rule pay_call_ok [OF new_service_ok])

lemma ex_credited_ok: "books_ok (sv_store ex_credited)"
  unfolding ex_credited_def by (rule pay_call_ok [OF ex_opened_ok])

text \<open>
  C7. A verified callback that matches a pending order in time completes it and adds exactly the
  order's amount to the balance of its user and to no other balance; every later delivery of the same
  callback is answered as a replay and changes nothing.
\<close>

theorem callback_credits_once:
  assumes "books_ok (sv_store v)" and "cb' = normalizeVerifiedCallback cb"
    and "getOrderByOutTradeNo (vc_tenant cb') (vc_tradeNo cb') (sv_store v) = Inr x" and "callback_matches cb' x"
    and "po_status x = StatusPending" and "not_late x (callbackTimeOrNow (vc_ts cb) now)"
    and "po_kind x \<noteq> ''subscription''" and "0 < po_id x"
  shows "\<exists>a v1. fulfillVerifiedCallback now cb v = (a, None, v1) \<and> ca_completed a \<and> \<not> ca_idempotent a \<and>
    (\<forall>t u. pay_balance t u (sv_store v1) =
       pay_balance t u (sv_store v) + (if t = vc_tenant cb' \<and> u = po_user x then po_amount x else 0)) \<and>
    (\<forall>later. \<exists>b. fulfillVerifiedCallback later cb v1 = (b, None, v1) \<and> ca_completed b \<and> ca_idempotent b)"
proof -
  have x: "map_of (ps_orders (sv_store v)) (po_id x) = Some x" "po_tenant x = vc_tenant cb'"
    using trade_order [OF assms(1,3)] by simp_all
  have t: "0 < po_tenant x"
    using assms(4) x(2) by (auto simp: callback_matches_def validateVerifiedCallback_def split: if_splits)
  have ts: "vc_ts cb' = vc_ts cb" by (simp add: assms(2) normalizeVerifiedCallback_def)
  obtain y st r v1 where p:
    "confirmPaid (system_call (po_tenant x) (po_id x) (''hmac_callback:'' @ vc_provider cb') (vc_event cb')
       (callbackTimeOrNow (vc_ts cb') now)) (sv_store v) = (Inr y, st)"
    "fulfill (system_call (po_tenant x) (po_id x) [] (vc_event cb') now) (v\<lparr>sv_store := st\<rparr>) = (Inr r, v1)"
    and r: "\<not> fr_idempotent r" "same_order x (fr_order r)" "po_status (fr_order r) = StatusCompleted"
      "map_of (ps_orders (sv_store v1)) (po_id x) = Some (fr_order r)" "ps_byTrade (sv_store v1) = ps_byTrade (sv_store v)"
      "map_of (ps_credits (sv_store v1)) (po_id x) \<noteq> None"
      "\<forall>t u. pay_balance t u (sv_store v1) =
         pay_balance t u (sv_store v) + (if po_tenant x = t \<and> po_user x = u then po_amount x else 0)"
    using pay_pending [OF assms(1) x(1) assms(5) _ assms(7) t assms(8)] assms(6) ts by metis
  let ?y = "fr_order r"
  have id: "po_id ?y = po_id x" "po_tenant ?y = po_tenant x" "po_kind ?y = po_kind x"
    using r(2) by (simp_all add: same_order_def)
  have first: "\<exists>a. fulfillVerifiedCallback now cb v = (a, None, v1) \<and> ca_completed a \<and> \<not> ca_idempotent a"
    using assms(3,4) p r(1,3)
    by (auto simp: fulfillVerifiedCallback_def assms(2) [symmetric] settle_callback_def callback_matches_def Let_def)
  have again: "\<exists>b. fulfillVerifiedCallback later cb v1 = (b, None, v1) \<and> ca_completed b \<and> ca_idempotent b" for later
  proof -
    have g: "getOrderByOutTradeNo (vc_tenant cb') (vc_tradeNo cb') (sv_store v1) = Inr ?y"
      by (rule trade_found [OF assms(1,3) r(5,4)])
    note m = assms(4) [unfolded callback_matches_same [OF r(2)]]
    note c = replay_completed [where why = "''hmac_callback:'' @ vc_provider cb'" and req = "vc_event cb'"
        and ?t1.0 = "callbackTimeOrNow (vc_ts cb') later" and now = later and v = v1 and x = ?y, unfolded id,
        OF r(4,3) assms(7) r(6) t assms(8)]
    then obtain f where f: "fulfill (system_call (po_tenant x) (po_id x) [] (vc_event cb') later) v1 = (Inr f, v1)"
      "fr_idempotent f" "fr_order f = ?y" by blast
    have "v1\<lparr>sv_store := sv_store v1\<rparr> = v1" by simp
    with g m r(3) conjunct1 [OF c] f id show ?thesis
      by (simp add: fulfillVerifiedCallback_def assms(2) [symmetric] settle_callback_def callback_matches_def Let_def)
  qed
  have "\<forall>t u. pay_balance t u (sv_store v1) =
      pay_balance t u (sv_store v) + (if t = vc_tenant cb' \<and> u = po_user x then po_amount x else 0)"
    using r(7) x(2) by auto
  with first again show ?thesis by blast
qed

lemma callback_credits_once_witness:
  "\<exists>a v1. fulfillVerifiedCallback 3000 ex_callback ex_opened = (a, None, v1) \<and> ca_completed a \<and>
    pay_balance 1 7 (sv_store v1) = 1250 \<and> pay_balance 1 8 (sv_store v1) = 0"
proof -
  have "pay_balance t u (sv_store ex_opened) = 0" for t u by (simp add: pay_balance_def ex_opened_books)
  then show ?thesis
    using callback_credits_once [OF ex_opened_ok ex_callback_normal [symmetric], of ex_order 3000] ex_found ex_matches
    by (fastforce simp: ex_callback_def ex_order_def not_late_def callbackTimeOrNow_def zero_time_def duration_defs)
qed

section \<open>Refunds\<close>

lemma step_refunds:
  "ledger_step s s' \<Longrightarrow> keyed s \<Longrightarrow> map_of (ps_refunds s) i = Some r \<Longrightarrow> map_of (ps_refunds s') i = Some r"
proof (induction rule: ledger_step.induct)
  case (refunded s x y c ra)
  then have "i \<noteq> rf_id ra" using refund_fresh [of s "rf_id ra"] by auto
  with refunded show ?case by (simp add: add_refund_def)
qed (simp_all add: add_order_def add_credit_def)

lemma step_refund_keys:
  "ledger_step s s' \<Longrightarrow> map_of (ps_refundKeys s) k = Some i \<Longrightarrow> map_of (ps_refundKeys s') k = Some i"
  by (induction rule: ledger_step.induct) (auto simp: add_order_def add_credit_def add_refund_def)

lemma run_refunds:
  assumes "ledger_run s s'" and "keyed s"
  shows "map_of (ps_refunds s) i = Some r \<Longrightarrow> map_of (ps_refunds s') i = Some r"
    "map_of (ps_refundKeys s) k = Some j \<Longrightarrow> map_of (ps_refundKeys s') k = Some j"
  using assms by (induction rule: rtranclp_induct) (auto intro: step_refunds step_refund_keys keyed_run)

text \<open>A recorded refund whose request is repeated is answered from the books, whatever came after it.\<close>

lemma replay_answer:
  assumes "books_ok s" and "map_of (ps_refunds s) i = Some r" and "paymentRefundMatchesRequest r q"
  shows "\<exists>a. refund_replay q i s = Inr a \<and> rr_refund a = Some r \<and> rr_idempotent a"
proof -
  note ok = books_okD [OF assms(1)]
  have r: "refund_ok s r" by (rule ok(4) [OF assms(2)])
  then obtain x c where x: "map_of (ps_orders s) (rf_order r) = Some x" "map_of (ps_credits s) (rf_order r) = Some c"
    "rf_tenant r = po_tenant x" "rf_user r = po_user x" "rf_currency r = po_currency x"
    "rf_exact r \<longrightarrow> rf_requested r \<le> refundTotalForOrder (rf_tenant r) (rf_order r) s"
    by (auto simp: refund_ok_def split: option.splits)
  have i: "po_id x = rf_order r" by (rule keyed_orderD [OF ok(1) x(1)])
  have okx: "order_ok s x" by (rule ok(2) [OF x(1)])
  let ?sum = "refundTotalForOrder (po_tenant x) (rf_order r) s"
  have "cr_amount c = po_amount x" "0 < po_amount x" "0 \<le> ?sum" "?sum \<le> po_amount x"
    "po_status x = (if ?sum = po_amount x then StatusRefunded else StatusCompleted)"
    using okx x(2) i by (simp_all add: order_ok_def Let_def)
  then show ?thesis
    using assms(2,3) x i by (auto simp: refund_replay_def refund_progress_total Let_def)
qed

lemma refundOrder_booked:
  assumes "refundOrder q s = (Inr a, s1)" and "\<not> rr_idempotent a" and "keyed s"
  shows "\<exists>i r. map_of (ps_refundKeys s1) (stringJoin (rq_tenant q) (rq_key q)) = Some i \<and>
    map_of (ps_refunds s1) i = Some r \<and> paymentRefundMatchesRequest r q \<and> rr_refund a = Some r \<and> trim_space (rq_key q) \<noteq> []"
  using assms
  by (auto simp: refundOrder_def refund_order_def refund_replay_def book_refund_def Let_def paymentRefundMatchesRequest_def
      split: if_splits option.splits sum.splits prod.splits dest!: keyed_order)

text \<open>
  C11. A refund that was booked is never booked again: whatever calls follow, the same request is
  answered with the same refund and leaves the service as it is.
\<close>

theorem refund_booked_once:
  assumes "books_ok (sv_store v)" and "sv_refundOrder q v = (Inr a, v1)" and "\<not> rr_idempotent a"
    and "w = foldl (pay_step env) v1 cs"
  shows "\<exists>b. sv_refundOrder q w = (Inr b, w) \<and> rr_refund b = rr_refund a \<and> rr_idempotent b"
proof -
  obtain q' s1 where q: "prepareRefundRecord q = Inr q'" "refundOrder q' (sv_store v) = (Inr a, s1)" "v1 = v\<lparr>sv_store := s1\<rparr>"
    using assms(2) by (auto simp: sv_refundOrder_def Let_def split: sum.splits prod.splits)
  have ok1: "books_ok s1"
    using run_ok [OF store_runs(6) [OF q(2) books_okD(1) [OF assms(1)]] assms(1)] .
  have run: "ledger_run s1 (sv_store w)"
    using pay_steps_run [of v1 env cs] books_okD(1) [OF ok1] by (simp add: service_run_def assms(4) q(3))
  obtain i r where r: "map_of (ps_refundKeys s1) (stringJoin (rq_tenant q') (rq_key q')) = Some i" "map_of (ps_refunds s1) i = Some r"
    "paymentRefundMatchesRequest r q'" "rr_refund a = Some r" "trim_space (rq_key q') \<noteq> []"
    using refundOrder_booked [OF q(2) assms(3) books_okD(1) [OF assms(1)]] by blast
  note later = run_refunds [OF run books_okD(1) [OF ok1]]
  obtain b where "refund_replay q' i (sv_store w) = Inr b" "rr_refund b = Some r" "rr_idempotent b"
    using replay_answer [OF run_ok [OF run ok1] later(1) [OF r(2)] r(3)] by blast
  then show ?thesis
    using q(1) r(4,5) later(2) [OF r(1)] by (simp add: sv_refundOrder_def refundOrder_def)
qed

lemma ex_credited_books:
  "\<exists>x c. ps_orders (sv_store ex_credited) = [(1, x)] \<and> ps_credits (sv_store ex_credited) = [(1, c)] \<and>
    ps_refunds (sv_store ex_credited) = [] \<and> ps_refundKeys (sv_store ex_credited) = [] \<and>
    po_id x = 1 \<and> po_tenant x = 1 \<and> po_user x = 7 \<and> po_status x = StatusCompleted \<and> po_kind x = ''topup'' \<and>
    cr_tenant c = 1 \<and> cr_user c = 7 \<and> cr_amount c = 1250"
  by (simp add: ex_credited_def adminConfirmPaid_def fulfill_def system_call_def confirmPaid_def beginFulfill_def
      completeFulfill_def getOrder_def ex_opened_books ex_order_def Let_def put_order_def pay_appendAudit_def duration_defs)

lemma refund_booked_once_witness:
  "\<exists>a b v1. sv_refundOrder ex_refunding ex_credited = (Inr a, v1) \<and> rr_refunded a = 500 \<and>
    (let w = foldl (pay_step ex_env) v1 [CallSweep 10 9000]
     in sv_refundOrder ex_refunding w = (Inr b, w) \<and> rr_refund b = rr_refund a \<and> rr_idempotent b)"
proof -
  obtain a v1 where a: "sv_refundOrder ex_refunding ex_credited = (Inr a, v1)" "\<not> rr_idempotent a" "rr_refunded a = 500"
    using ex_credited_books
    by (auto simp: sv_refundOrder_def prepareRefundRecord_def ex_refunding_def maxAmountCents_def refundOrder_def getOrder_def
        refund_order_def refundTotalForOrder_def paymentRefundProgress_def paymentRefundAmount_def pay_balance_def
        book_refund_def Let_def)
  from refund_booked_once [OF ex_credited_ok a(1,2) refl, where env = ex_env and cs = "[CallSweep 10 9000]"] a show ?thesis by (auto simp: Let_def)
qed

end
