(* ===== verification/Payment_Tenants.thy ===== *)
theory Payment_Tenants
  imports Payment_Properties
begin

text \<open>
  Isolation of the tenants in the payment books: what a call names as its tenant is all it can touch.
\<close>

section \<open>What a tenant sees\<close>

text \<open>What a tenant can see of the books: its orders and the balances of its users.\<close>

definition tenant_view :: "int \<Rightarrow> pay_store \<Rightarrow> (int \<Rightarrow> pay_order option) \<times> (int \<Rightarrow> int)" where
  "tenant_view t s =
     (\<lambda>i. case map_of (ps_orders s) i of None \<Rightarrow> None | Some x \<Rightarrow> if po_tenant x = t then Some x else None,
      \<lambda>u. pay_balance t u s)"

lemma view_audit [simp]: "tenant_view t (pay_appendAudit t1 i e k a why q s) = tenant_view t s"
  by (simp add: tenant_view_def)

lemma view_put:
  "map_of (ps_orders s) (po_id x) = Some x \<Longrightarrow> po_tenant x \<noteq> t \<Longrightarrow> same_order x y \<Longrightarrow>
   tenant_view t (put_order y s) = tenant_view t s"
  by (auto simp: tenant_view_def same_order_def fun_eq_iff)

lemma view_add_order:
  "keyed s \<Longrightarrow> po_id x = ps_nextOrder s + 1 \<Longrightarrow> po_tenant x \<noteq> t \<Longrightarrow> tenant_view t (add_order x s) = tenant_view t s"
  using order_fresh [of s "po_id x"] by (auto simp: tenant_view_def add_order_def pay_balance_def fun_eq_iff)

lemma view_add_credit:
  "map_of (ps_credits s) (cr_order c) = None \<Longrightarrow> cr_tenant c \<noteq> t \<Longrightarrow> tenant_view t (add_credit c s) = tenant_view t s"
  using balance_credit [of s c t] by (simp add: tenant_view_def add_credit_def)

lemma view_add_refund:
  "keyed s \<Longrightarrow> rf_id r = ps_nextRefund s + 1 \<Longrightarrow> rf_tenant r \<noteq> t \<Longrightarrow> tenant_view t (add_refund r s) = tenant_view t s"
  using balance_refund [of s r t] refund_fresh [of s "rf_id r"] by (simp add: tenant_view_def add_refund_def)

lemma create_view:
  assumes "keyed s" and "cq_tenant q \<noteq> t"
  shows "tenant_view t (snd (createOrder q s)) = tenant_view t s"
proof (cases "map_of (ps_byTrade s) (stringJoin (cq_tenant q) (cq_tradeNo q))")
  case (Some i)
  then show ?thesis by (simp add: createOrder_def Let_def split: option.split)
next
  case None
  let ?x = "\<lparr> po_id = ps_nextOrder s + 1, po_tenant = cq_tenant q, po_user = cq_user q, po_tradeNo = cq_tradeNo q,
    po_amount = cq_amount q, po_currency = cq_currency q, po_status = StatusPending,
    po_provider = providerKindOrDefault (cq_provider q), po_ref = cq_ref q, po_fingerprint = cq_fingerprint q,
    po_confirmedBy = 0, po_confirmReason = [], po_kind = orderKindOrDefault (cq_kind q),
    po_plan = cq_plan q, po_created = cq_now q, po_updated = cq_now q, po_expires = cq_expires q,
    po_paidAt = None, po_rechargingAt = None, po_completedAt = None \<rparr>"
  have "tenant_view t (add_order ?x s) = tenant_view t s" using assms by (intro view_add_order) simp_all
  with None show ?thesis by (simp add: createOrder_def Let_def add_order_def)
qed

lemma early_views:
  assumes "keyed s" and "oc_tenant q \<noteq> t"
  shows "tenant_view t (snd (confirmPaid q s)) = tenant_view t s"
    "tenant_view t (snd (cancelOrder q s)) = tenant_view t s"
    "tenant_view t (snd (beginFulfill q s)) = tenant_view t s"
  using assms
  by (auto simp: confirmPaid_def cancelOrder_def beginFulfill_def Let_def same_order_def split: sum.split order_status.split
      dest!: keyed_order intro!: view_put)

lemma complete_view:
  assumes "books_ok s" and "oc_tenant q \<noteq> t"
  shows "tenant_view t (snd (completeFulfill q s)) = tenant_view t s"
proof (cases "getOrder (oc_tenant q) (oc_order q) s")
  case (Inl e)
  then show ?thesis by (simp add: completeFulfill_def)
next
  case (Inr x)
  note x = keyed_order [OF books_okD(1) [OF assms(1)] Inr]
  let ?y = "x\<lparr> po_status := StatusCompleted, po_completedAt := Some (oc_now q), po_updated := oc_now q \<rparr>"
  let ?c = "\<lparr> cr_id = ps_nextCredit s + 1, cr_tenant = oc_tenant q, cr_order = po_id x, cr_user = po_user x,
    cr_amount = po_amount x, cr_currency = po_currency x,
    cr_reason = reasonClassForProvider (po_provider x), cr_billing = ps_nextBilling s + 1, cr_at = oc_now q \<rparr>"
  have "tenant_view t (put_order ?y (add_credit ?c s)) = tenant_view t s" if "po_status x = StatusRecharging"
  proof -
    have "map_of (ps_credits s) (po_id x) = None"
      using not_credited [OF books_okD(2) [OF assms(1) conjunct1 [OF x]]] that by simp
    then have "tenant_view t (add_credit ?c s) = tenant_view t s" using assms(2) by (intro view_add_credit) simp_all
    moreover have "tenant_view t (put_order ?y (add_credit ?c s)) = tenant_view t (add_credit ?c s)"
      using x assms(2) by (intro view_put [of _ x]) (auto simp: add_credit_def same_order_def)
    ultimately show ?thesis by simp
  qed
  with Inr show ?thesis by (auto simp: completeFulfill_def Let_def add_credit_def split: option.split)
qed

lemma book_view:
  assumes "keyed s" and "map_of (ps_orders s) (po_id x) = Some x" and "po_tenant x \<noteq> t" and "rq_tenant q \<noteq> t"
  shows "tenant_view t (snd (book_refund q key x c before amount s)) = tenant_view t s"
proof -
  let ?r = "\<lparr> rf_id = ps_nextRefund s + 1, rf_tenant = rq_tenant q, rf_order = po_id x, rf_user = po_user x,
    rf_amount = amount, rf_requested = rq_amount q, rf_exact = rq_exact q, rf_currency = po_currency x,
    rf_key = rq_key q, rf_reason = rq_reason q, rf_actorKind = actorKindOrDefault (rq_actorKind q),
    rf_actor = rq_actor q, rf_actorRef = trim_space (rq_actorRef q), rf_billing = ps_nextBilling s + 1,
    rf_at = rq_now q \<rparr>"
  let ?s = "s\<lparr> ps_nextRefund := ps_nextRefund s + 1, ps_nextBilling := ps_nextBilling s + 1,
    ps_refunds := AList.update (ps_nextRefund s + 1) ?r (ps_refunds s),
    ps_refundKeys := AList.update key (ps_nextRefund s + 1) (ps_refundKeys s) \<rparr>"
  have "tenant_view t ?s = tenant_view t (add_refund ?r s)"
    by (simp add: tenant_view_def add_refund_def pay_balance_def)
  also have "\<dots> = tenant_view t s" using assms(1,4) by (intro view_add_refund) simp_all
  finally have booked: "tenant_view t ?s = tenant_view t s" .
  have "tenant_view t (put_order (x\<lparr> po_status := st, po_updated := rq_now q \<rparr>) ?s) = tenant_view t ?s" for st
    using assms(2,3) by (intro view_put [of _ x]) (auto simp: same_order_def)
  with booked show ?thesis
    unfolding book_refund_def Let_def by (auto split: sum.split prod.split)
qed

lemma refund_view:
  assumes "keyed s" and "rq_tenant q \<noteq> t"
  shows "tenant_view t (snd (refundOrder q s)) = tenant_view t s"
proof (cases "getOrder (rq_tenant q) (rq_order q) s")
  case (Inl e)
  then show ?thesis by (simp add: refundOrder_def Let_def split: option.split)
next
  case (Inr x)
  note x = keyed_order [OF assms(1) Inr]
  show ?thesis
    using Inr x book_view [OF assms(1), of x t q] assms(2)
    by (auto simp: refundOrder_def refund_order_def Let_def split: option.split sum.split)
qed

lemma store_views:
  "createOrder cq s = (a1, s') \<Longrightarrow> keyed s \<Longrightarrow> cq_tenant cq \<noteq> t \<Longrightarrow> tenant_view t s' = tenant_view t s"
  "confirmPaid q s = (a2, s') \<Longrightarrow> keyed s \<Longrightarrow> oc_tenant q \<noteq> t \<Longrightarrow> tenant_view t s' = tenant_view t s"
  "cancelOrder q s = (a3, s') \<Longrightarrow> keyed s \<Longrightarrow> oc_tenant q \<noteq> t \<Longrightarrow> tenant_view t s' = tenant_view t s"
  "beginFulfill q s = (a4, s') \<Longrightarrow> keyed s \<Longrightarrow> oc_tenant q \<noteq> t \<Longrightarrow> tenant_view t s' = tenant_view t s"
  "completeFulfill q s = (a5, s') \<Longrightarrow> books_ok s \<Longrightarrow> oc_tenant q \<noteq> t \<Longrightarrow> tenant_view t s' = tenant_view t s"
  "refundOrder rq s = (a6, s') \<Longrightarrow> keyed s \<Longrightarrow> rq_tenant rq \<noteq> t \<Longrightarrow> tenant_view t s' = tenant_view t s"
  using create_view [of s cq t] early_views [of s q t] complete_view [of s q t] refund_view [of s rq t]
  by auto

section \<open>The service\<close>

definition keeps_view :: "int \<Rightarrow> pay_service \<Rightarrow> pay_service \<Rightarrow> bool" where
  "keeps_view t v v' \<longleftrightarrow> (books_ok (sv_store v) \<longrightarrow> tenant_view t (sv_store v') = tenant_view t (sv_store v))"

lemma keeps_refl [simp]: "keeps_view t v v"
  by (simp add: keeps_view_def)

lemma keeps_trans: "keeps_view t v v1 \<Longrightarrow> service_run v v1 \<Longrightarrow> keeps_view t v1 v2 \<Longrightarrow> keeps_view t v v2"
  by (auto simp: keeps_view_def service_run_def dest: run_ok books_okD(1))

lemma keeps_store:
  "(books_ok (sv_store v) \<Longrightarrow> tenant_view t st = tenant_view t (sv_store v)) \<Longrightarrow> keeps_view t v (v\<lparr>sv_store := st\<rparr>)"
  by (simp add: keeps_view_def)

lemma sv_create_keeps: "sv_createOrder env now x v = (a, v') \<Longrightarrow> ci_tenant x \<noteq> t \<Longrightarrow> keeps_view t v v'"
  by (auto simp: sv_createOrder_def Let_def split: sum.splits prod.splits if_splits
      intro!: keeps_store elim!: store_views dest: books_okD(1))

lemma normalizeOpenInput_tenant [simp]: "oi_tenant (normalizeOpenInput now x) = oi_tenant x"
  by (simp add: normalizeOpenInput_def)

lemma open_keeps: "openRecharge env now x v = (a, v') \<Longrightarrow> oi_tenant x \<noteq> t \<Longrightarrow> keeps_view t v v'"
  by (auto simp: openRecharge_def open_request_def Let_def split: sum.splits prod.splits if_splits dest: sv_create_keeps)

lemma sv_cancel_keeps: "sv_cancelOrder q v = (a, v') \<Longrightarrow> oc_tenant q \<noteq> t \<Longrightarrow> keeps_view t v v'"
  by (auto simp: sv_cancelOrder_def Let_def split: prod.splits if_splits intro!: keeps_store elim!: store_views dest: books_okD(1))

lemma prepare_tenant: "prepareRefundRecord q = Inr q' \<Longrightarrow> rq_tenant q' = rq_tenant q"
  by (auto simp: prepareRefundRecord_def split: if_splits)

lemma sv_refund_keeps: "sv_refundOrder q v = (a, v') \<Longrightarrow> rq_tenant q \<noteq> t \<Longrightarrow> keeps_view t v v'"
  by (auto simp: sv_refundOrder_def Let_def split: sum.splits prod.splits
      intro!: keeps_store elim!: store_views dest: books_okD(1) prepare_tenant)

lemma begin_keeps: "beginFulfill q (sv_store v) = (a, st) \<Longrightarrow> oc_tenant q \<noteq> t \<Longrightarrow> keeps_view t v (v\<lparr>sv_store := st\<rparr>)"
  by (intro keeps_store) (auto elim!: store_views dest: books_okD(1))

lemma begin_service_run: "beginFulfill q (sv_store v) = (a, st) \<Longrightarrow> service_run v (v\<lparr>sv_store := st\<rparr>)"
  by (intro service_run_store) (rule store_runs)

lemma complete_keeps: "completeFulfill q (sv_store v) = (a, st) \<Longrightarrow> oc_tenant q \<noteq> t \<Longrightarrow> keeps_view t v (v\<lparr>sv_store := st\<rparr>)"
  by (intro keeps_store) (auto elim!: store_views)

lemma fulfill_keeps:
  assumes "fulfill q v = (a, v')" and "oc_tenant q \<noteq> t"
  shows "keeps_view t v v'"
proof -
  obtain b st where b: "beginFulfill q (sv_store v) = (b, st)" by fastforce
  obtain c st2 where c: "completeFulfill q st = (c, st2)" by fastforce
  have c2: "completeFulfill q (sv_store (v\<lparr>sv_store := st\<rparr>)) = (c, st2)" using c by simp
  have keeps: "keeps_view t v (v\<lparr>sv_store := st2\<rparr>)"
    using keeps_trans [OF begin_keeps [OF b assms(2)] begin_service_run [OF b] complete_keeps [OF c2 assms(2)]] by simp
  from assms b c begin_keeps [OF b assms(2)] keeps show ?thesis
    by (auto simp: fulfill_def split: if_splits sum.splits)
qed

lemma confirm_keeps: "confirmPaid q (sv_store v) = (a, st) \<Longrightarrow> oc_tenant q \<noteq> t \<Longrightarrow> keeps_view t v (v\<lparr>sv_store := st\<rparr>)"
  by (intro keeps_store) (auto elim!: store_views dest: books_okD(1))

lemma confirm_fulfill_keeps:
  "confirmPaid q (sv_store v) = (b, st) \<Longrightarrow> fulfill q' (v\<lparr>sv_store := st\<rparr>) = (a, v') \<Longrightarrow>
   oc_tenant q \<noteq> t \<Longrightarrow> oc_tenant q' \<noteq> t \<Longrightarrow> keeps_view t v v'"
  by (rule keeps_trans [OF confirm_keeps confirm_only_run fulfill_keeps])

lemma admin_confirm_keeps: "adminConfirmPaid q v = (a, v') \<Longrightarrow> oc_tenant q \<noteq> t \<Longrightarrow> keeps_view t v v'"
  by (auto simp: adminConfirmPaid_def split: sum.splits prod.splits if_splits intro: confirm_fulfill_keeps confirm_keeps)

lemma retry_keeps: "retryFulfillment q v = (a, v') \<Longrightarrow> oc_tenant q \<noteq> t \<Longrightarrow> keeps_view t v v'"
  by (auto simp: retryFulfillment_def split: if_splits intro: fulfill_keeps)

lemma system_call_tenant [simp]: "oc_tenant (system_call t i why req now) = t"
  by (simp add: system_call_def)

lemma settle_keeps: "settle_callback now cb x v = (a, e, v') \<Longrightarrow> po_tenant x \<noteq> t \<Longrightarrow> keeps_view t v v'"
  by (auto simp: settle_callback_def Let_def split: sum.splits prod.splits if_splits
      intro: confirm_fulfill_keeps confirm_keeps)

lemma keeps_books: "(books_ok (sv_store v) \<Longrightarrow> keeps_view t v v') \<Longrightarrow> keeps_view t v v'"
  by (simp add: keeps_view_def)

lemma verified_keeps:
  assumes "fulfillVerifiedCallback now cb v = (a, e, v')" and "vc_tenant cb \<noteq> t"
  shows "keeps_view t v v'"
proof (rule keeps_books)
  assume ok: "books_ok (sv_store v)"
  have "vc_tenant (normalizeVerifiedCallback cb) = vc_tenant cb" by (simp add: normalizeVerifiedCallback_def)
  with assms trade_order [OF ok, of "vc_tenant cb"] show ?thesis
    by (auto simp: fulfillVerifiedCallback_def Let_def split: sum.splits option.splits dest!: settle_keeps)
qed

lemma callback_keeps: "handleCallback env now x v = (a, e, v') \<Longrightarrow> vc_tenant (cbi_call x) \<noteq> t \<Longrightarrow> keeps_view t v v'"
  by (auto simp: handleCallback_def normalizeCallbackInput_def normalizeVerifiedCallback_def split: prod.splits option.splits
      dest!: verified_keeps)

lemma webhook_keeps:
  assumes "confirmPaidByCallback env now kind body sig v = (a, v')" and "map_option ev_tenant (pe_decode env body) = Some T" and "T \<noteq> t"
  shows "keeps_view t v v'"
proof (rule keeps_books)
  assume ok: "books_ok (sv_store v)"
  have "ev_tenant r = T" if "callback_verifier env p = Some verify" "verify body sig = Inr r" for p verify r
    using that assms(2) by (auto simp: callback_verifier_def test_verify_def split: pay_provider.splits option.splits if_splits)
  with assms(1,3) trade_order [OF ok] show ?thesis
    by (auto simp: confirmPaidByCallback_def split: sum.splits option.splits if_splits prod.splits
        intro: confirm_fulfill_keeps confirm_keeps)
qed

primrec call_tenant :: "pay_env \<Rightarrow> pay_call \<Rightarrow> int option" where
  "call_tenant env (CallCreate now x) = Some (ci_tenant x)"
| "call_tenant env (CallOpen now x) = Some (oi_tenant x)"
| "call_tenant env (CallCancel q) = Some (oc_tenant q)"
| "call_tenant env (CallRefund q) = Some (rq_tenant q)"
| "call_tenant env (CallConfirm q) = Some (oc_tenant q)"
| "call_tenant env (CallRetry q) = Some (oc_tenant q)"
| "call_tenant env (CallWebhook now kind body sig) = map_option ev_tenant (pe_decode env body)"
| "call_tenant env (CallVerified now cb) = Some (vc_tenant cb)"
| "call_tenant env (CallCallback now x) = Some (vc_tenant (cbi_call x))"
| "call_tenant env (CallConfigure kind enabled url who now) = None"
| "call_tenant env (CallSweep batch now) = None"

lemma snd_keeps:
  "(\<And>a v'. f = (a, v') \<Longrightarrow> keeps_view t v v') \<Longrightarrow> keeps_view t v (snd f)"
  "(\<And>a e v'. g = (a, e, v') \<Longrightarrow> keeps_view t v v') \<Longrightarrow> keeps_view t v (snd (snd g))"
  by (cases f, simp) (cases g, simp)

text \<open>
  C10. A call made for one tenant, a signed callback included, leaves the orders and the balances of
  every other tenant as they are, even where trade numbers, order ids or refund keys coincide.
\<close>

theorem payment_tenants_isolated:
  assumes "call_tenant env c = Some T" and "T \<noteq> t" and "books_ok (sv_store v)"
  shows "tenant_view t (sv_store (pay_step env v c)) = tenant_view t (sv_store v)"
proof -
  have "keeps_view t v (pay_step env v c)"
    using assms(1,2)
    by (cases c) (auto intro!: snd_keeps intro: sv_create_keeps open_keeps sv_cancel_keeps sv_refund_keeps
        admin_confirm_keeps retry_keeps webhook_keeps verified_keeps callback_keeps)
  with assms(3) show ?thesis by (simp add: keeps_view_def)
qed

text \<open>Tenant 2 tries to cancel the order of tenant 1.\<close>

lemma payment_tenants_isolated_witness:
  "tenant_view 1 (sv_store (pay_step ex_env ex_opened (CallCancel (system_call 2 1 [] [] 1500)))) =
     tenant_view 1 (sv_store ex_opened) \<and> fst (tenant_view 1 (sv_store ex_opened)) 1 = Some ex_order"
  using payment_tenants_isolated [of ex_env "CallCancel (system_call 2 1 [] [] 1500)" 2 1 ex_opened] ex_opened_ok
  by (simp add: tenant_view_def ex_opened_books ex_order_def)

end
