(* ===== verification/Login_Throttle.thy ===== *)
theory Login_Throttle
  imports Prelude "HOL-Library.AList"
begin

text \<open>
  The login throttle (backend/internal/loginthrottle/limiter.go): per client address a bounded
  number of logins in flight, a sliding window of failures and a ban after too many of them. A
  login takes a lease before the password is checked and closes it with one outcome. The shared
  store of several replicas is an interface; its replies are arguments. The mutex makes the local
  part of each method one atomic step; the call of the shared store lies outside it.
\<close>

section \<open>Configuration, buckets and leases\<close>

datatype lt_reason =
  ReasonAllowed | ReasonIPInFlight | ReasonIPWindow | ReasonIPBanned | ReasonKeyPressure
| ReasonBackendUnavailable

record lt_decision =
  ltd_allowed :: bool
  ltd_reason :: lt_reason
  ltd_retryAfter :: duration

record lt_config =
  inFlightLimit :: int
  lt_window :: duration
  windowLimit :: int
  banWindow :: duration
  banAfter :: int
  banDuration :: duration
  inFlightTTL :: duration
  maxKeys :: int

definition lt_default :: lt_config where
  "lt_default = \<lparr> inFlightLimit = 4, lt_window = minute, windowLimit = 10, banWindow = 10 * minute,
                  banAfter = 20, banDuration = 15 * minute, inFlightTTL = 2 * minute,
                  maxKeys = 100000 \<rparr>"

text \<open>Slot identifiers are \<open>uint64\<close> counters, one per bucket; both maps are association lists.\<close>

record lt_bucket =
  bk_failures :: "instant list"
  bk_inFlight :: "(nat \<times> instant) list"
  bk_nextID :: nat
  bk_blockedUntil :: instant
  bk_lastSeen :: instant

record limiter =
  lt_cfg :: lt_config
  lt_buckets :: "(string \<times> lt_bucket) list"

record 'r lease =
  le_key :: string
  le_id :: nat
  le_reserved :: bool
  le_committed :: bool
  le_shared :: "'r option"

definition newLimiter :: "lt_config \<Rightarrow> limiter" where
  "newLimiter c = \<lparr> lt_cfg =
     \<lparr> inFlightLimit = (if inFlightLimit c \<le> 0 then inFlightLimit lt_default else inFlightLimit c),
       lt_window = (if lt_window c \<le> 0 then lt_window lt_default else lt_window c),
       windowLimit = (if windowLimit c \<le> 0 then windowLimit lt_default else windowLimit c),
       banWindow = (if banWindow c \<le> 0 then banWindow lt_default else banWindow c),
       banAfter = (if banAfter c \<le> 0 then banAfter lt_default else banAfter c),
       banDuration = (if banDuration c \<le> 0 then banDuration lt_default else banDuration c),
       inFlightTTL = (if inFlightTTL c \<le> 0 then inFlightTTL lt_default else inFlightTTL c),
       maxKeys = (if maxKeys c \<le> 0 then maxKeys lt_default else maxKeys c) \<rparr>,
     lt_buckets = [] \<rparr>"

definition new_bucket :: lt_bucket where
  "new_bucket = \<lparr> bk_failures = [], bk_inFlight = [], bk_nextID = 0, bk_blockedUntil = zero_time,
                  bk_lastSeen = zero_time \<rparr>"

section \<open>Operations on one bucket\<close>

definition ceilSeconds :: "duration \<Rightarrow> duration" where
  "ceilSeconds d = (if d \<le> 0 then second else go_quot (d + second - 1) second * second)"

definition keep_window :: "lt_config \<Rightarrow> duration" where
  "keep_window c = (if banWindow c > lt_window c then banWindow c else lt_window c)"

definition pruneBucket :: "lt_config \<Rightarrow> lt_bucket \<Rightarrow> instant \<Rightarrow> lt_bucket" where
  "pruneBucket c b now =
     b\<lparr> bk_failures := filter (\<lambda>t. now - keep_window c < t) (bk_failures b),
        bk_inFlight := filter (\<lambda>(i, start). \<not> start < now - inFlightTTL c) (bk_inFlight b) \<rparr>"

definition failuresWithin :: "lt_bucket \<Rightarrow> instant \<Rightarrow> duration \<Rightarrow> int" where
  "failuresWithin b now w = int (length (filter (\<lambda>t. now - w < t) (bk_failures b)))"

definition evictable :: "lt_config \<Rightarrow> instant \<Rightarrow> lt_bucket \<Rightarrow> bool" where
  "evictable c now b \<longleftrightarrow>
     bk_inFlight b = [] \<and> \<not> now < bk_blockedUntil b \<and> bk_lastSeen b < now - keep_window c"

definition evict :: "limiter \<Rightarrow> instant \<Rightarrow> bool \<times> limiter" where
  "evict l now =
     (let rest = filter (\<lambda>(k, b). \<not> evictable (lt_cfg l) now b) (lt_buckets l)
      in (length rest \<noteq> length (lt_buckets l), l\<lparr> lt_buckets := rest \<rparr>))"

section \<open>Opening a lease\<close>

definition deniedLease :: "'r lease" where
  "deniedLease = \<lparr> le_key = [], le_id = 0, le_reserved = False, le_committed = True, le_shared = None \<rparr>"

definition lt_deny :: "lt_reason \<Rightarrow> duration \<Rightarrow> lt_decision" where
  "lt_deny r d = \<lparr> ltd_allowed = False, ltd_reason = r, ltd_retryAfter = d \<rparr>"

definition lt_allow :: lt_decision where
  "lt_allow = \<lparr> ltd_allowed = True, ltd_reason = ReasonAllowed, ltd_retryAfter = 0 \<rparr>"

definition put_bucket :: "limiter \<Rightarrow> string \<Rightarrow> lt_bucket \<Rightarrow> limiter" where
  "put_bucket l k b = l\<lparr> lt_buckets := AList.update k b (lt_buckets l) \<rparr>"

text \<open>The checks once the bucket is there.\<close>

definition admit :: "limiter \<Rightarrow> string \<Rightarrow> lt_bucket \<Rightarrow> instant \<Rightarrow> limiter \<times> 'r lease \<times> lt_decision" where
  "admit l key b0 now =
     (let c = lt_cfg l;
          b = pruneBucket c (b0\<lparr> bk_lastSeen := now \<rparr>) now;
          l' = put_bucket l key b
      in if now < bk_blockedUntil b
         then (l', deniedLease, lt_deny ReasonIPBanned (ceilSeconds (bk_blockedUntil b - now)))
         else if int (length (bk_inFlight b)) \<ge> inFlightLimit c
         then (l', deniedLease, lt_deny ReasonIPInFlight second)
         else if failuresWithin b now (lt_window c) + int (length (bk_inFlight b)) \<ge> windowLimit c
         then (l', deniedLease, lt_deny ReasonIPWindow (ceilSeconds (lt_window c)))
         else (let i = (bk_nextID b + 1) mod 2 ^ 64;
                   b' = b\<lparr> bk_nextID := i, bk_inFlight := AList.update i now (bk_inFlight b) \<rparr>
               in (put_bucket l key b',
                   \<lparr> le_key = key, le_id = i, le_reserved = True, le_committed = False, le_shared = None \<rparr>,
                   lt_allow)))"

definition beginLocal :: "limiter \<Rightarrow> string \<Rightarrow> instant \<Rightarrow> limiter \<times> 'r lease \<times> lt_decision" where
  "beginLocal l key now =
     (case map_of (lt_buckets l) key of
        Some b \<Rightarrow> admit l key b now
      | None \<Rightarrow>
          if int (length (lt_buckets l)) \<ge> maxKeys (lt_cfg l)
          then (case evict l now of
                  (False, l') \<Rightarrow> (l', deniedLease, lt_deny ReasonKeyPressure second)
                | (True, l') \<Rightarrow> admit l' key new_bucket now)
          else admit l key new_bucket now)"

section \<open>Closing a lease\<close>

datatype lt_outcome = Succeeded | Failed | Cancelled

definition release_slot :: "limiter \<Rightarrow> 'r lease \<Rightarrow> limiter" where
  "release_slot l le =
     (case map_of (lt_buckets l) (le_key le) of
        Some b \<Rightarrow> put_bucket l (le_key le) (b\<lparr> bk_inFlight := AList.delete (le_id le) (bk_inFlight b) \<rparr>)
      | None \<Rightarrow> l)"

text \<open>Each method returns the limiter, the lease and the shared reservation to inform, if any.\<close>

definition successContext :: "limiter \<Rightarrow> 'r lease \<Rightarrow> limiter \<times> 'r lease \<times> 'r option" where
  "successContext l le =
     (if le_committed le \<or> \<not> le_reserved le then (l, le\<lparr> le_committed := True \<rparr>, None)
      else (release_slot l le, le\<lparr> le_committed := True \<rparr>, le_shared le))"

definition cancelContext :: "limiter \<Rightarrow> 'r lease \<Rightarrow> limiter \<times> 'r lease \<times> 'r option" where
  "cancelContext l le =
     (if le_committed le \<or> \<not> le_reserved le then (l, le\<lparr> le_committed := True \<rparr>, None)
      else (release_slot l le, le\<lparr> le_committed := True \<rparr>, le_shared le))"

definition record_failure :: "lt_config \<Rightarrow> lt_bucket \<Rightarrow> nat \<Rightarrow> instant \<Rightarrow> lt_bucket" where
  "record_failure c b i now =
     (let b1 = pruneBucket c (b\<lparr> bk_inFlight := AList.delete i (bk_inFlight b),
                                  bk_failures := bk_failures b @ [now] \<rparr>) now
      in if failuresWithin b1 now (banWindow c) \<ge> banAfter c
         then b1\<lparr> bk_blockedUntil := now + banDuration c \<rparr> else b1)"

definition failureContext :: "limiter \<Rightarrow> 'r lease \<Rightarrow> instant \<Rightarrow> limiter \<times> 'r lease \<times> 'r option" where
  "failureContext l le now =
     (if le_committed le \<or> \<not> le_reserved le then (l, le\<lparr> le_committed := True \<rparr>, None)
      else (case map_of (lt_buckets l) (le_key le) of
              None \<Rightarrow> (l, le\<lparr> le_committed := True \<rparr>, le_shared le)
            | Some b \<Rightarrow> (put_bucket l (le_key le) (record_failure (lt_cfg l) b (le_id le) now),
                         le\<lparr> le_committed := True \<rparr>, le_shared le)))"

section \<open>The shared store\<close>

text \<open>A reply of \<open>Reserve\<close>: an error, or a reservation that may be nil with a decision.\<close>

datatype 'r lt_reply = ReserveFailed string | ReserveDone "'r option" lt_decision

definition finishBegin ::
    "limiter \<Rightarrow> 'r lease \<Rightarrow> lt_decision \<Rightarrow> 'r lt_reply \<Rightarrow> limiter \<times> 'r lease \<times> lt_decision \<times> string option" where
  "finishBegin l le d r =
     (let unavailable = lt_deny ReasonBackendUnavailable second
      in case r of
           ReserveFailed e \<Rightarrow> (fst (cancelContext l le), deniedLease, unavailable, Some e)
         | ReserveDone res sd \<Rightarrow>
             if \<not> ltd_allowed sd then (fst (cancelContext l le), deniedLease, sd, None)
             else (case res of
                     None \<Rightarrow> (fst (cancelContext l le), deniedLease, unavailable,
                              Some ''loginthrottle: shared store returned no reservation'')
                   | Some sr \<Rightarrow> (l, le\<lparr> le_shared := Some sr \<rparr>, d, None)))"

definition beginContext ::
    "(string \<Rightarrow> lt_config \<Rightarrow> 'r lt_reply) option \<Rightarrow> limiter \<Rightarrow> string \<Rightarrow> instant
       \<Rightarrow> limiter \<times> 'r lease \<times> lt_decision \<times> string option" where
  "beginContext shared l key now =
     (case beginLocal l key now of
        (l', le, d) \<Rightarrow>
          (case shared of
             None \<Rightarrow> (l', le, d, None)
           | Some reserve \<Rightarrow> if \<not> ltd_allowed d then (l', le, d, None)
                             else finishBegin l' le d (reserve key (lt_cfg l'))))"


section \<open>What the operations do to a bucket\<close>

definition bucket_of :: "limiter \<Rightarrow> string \<Rightarrow> lt_bucket" where
  "bucket_of l k = (case map_of (lt_buckets l) k of Some b \<Rightarrow> b | None \<Rightarrow> new_bucket)"

lemma put_bucket_simps [simp]:
  "lt_cfg (put_bucket l k b) = lt_cfg l"
  "map_of (lt_buckets (put_bucket l k b)) k' = (if k' = k then Some b else map_of (lt_buckets l) k')"
  "bucket_of (put_bucket l k b) k' = (if k' = k then b else bucket_of l k')"
  by (auto simp: put_bucket_def bucket_of_def update_conv')

lemma put_bucket_twice [simp]: "put_bucket (put_bucket l k b) k b' = put_bucket l k b'"
proof -
  have "AList.update k b' (AList.update k b xs) = AList.update k b' xs" for xs :: "(string \<times> lt_bucket) list"
    by (induction xs) auto
  then show ?thesis by (simp add: put_bucket_def)
qed

lemma distinct_put_bucket [simp]:
  "distinct (map fst (lt_buckets l)) \<Longrightarrow> distinct (map fst (lt_buckets (put_bucket l k b)))"
  by (simp add: put_bucket_def distinct_update)

lemma keys_put_bucket [simp]:
  "fst ` set (lt_buckets (put_bucket l k b)) = insert k (fst ` set (lt_buckets l))"
  by (simp add: put_bucket_def dom_update [of k b "lt_buckets l"])

lemma length_update: "k \<in> fst ` set xs \<Longrightarrow> length (AList.update k v xs) = length xs"
  "k \<notin> fst ` set xs \<Longrightarrow> AList.update k v xs = xs @ [(k, v)]"
  by (induction xs) auto

lemma cfg_kept [simp]:
  "lt_cfg (snd (evict l now)) = lt_cfg l" "lt_cfg (fst (admit l k b now)) = lt_cfg l"
  "lt_cfg (release_slot l le) = lt_cfg l"
  by (auto simp: evict_def admit_def Let_def release_slot_def split: option.split)

lemma map_of_filter_value:
  "distinct (map fst xs) \<Longrightarrow>
     map_of (filter (\<lambda>(k, v). P v) xs) k = (case map_of xs k of Some v \<Rightarrow> if P v then Some v else None | None \<Rightarrow> None)"
proof (induction xs)
  case Nil
  then show ?case by simp
next
  case (Cons e xs)
  then have "fst e \<notin> dom (map_of xs)" by (simp add: dom_map_of_conv_image_fst)
  then have "map_of xs (fst e) = None" by auto
  with Cons show ?case by (cases e) (auto split: option.split)
qed

lemma evict_simps:
  assumes "distinct (map fst (lt_buckets l))"
  shows "map_of (lt_buckets (snd (evict l now))) k =
    (case map_of (lt_buckets l) k of
       Some b \<Rightarrow> if evictable (lt_cfg l) now b then None else Some b | None \<Rightarrow> None)"
  using map_of_filter_value [OF assms, of "\<lambda>b. \<not> evictable (lt_cfg l) now b" k]
  by (auto simp: evict_def Let_def split: option.split)

lemma evict_keys: "set (lt_buckets (snd (evict l now))) \<subseteq> set (lt_buckets l)"
  "distinct (map fst (lt_buckets l)) \<Longrightarrow> distinct (map fst (lt_buckets (snd (evict l now))))"
  by (auto simp: evict_def Let_def distinct_map_filter)

text \<open>A begin either fails for lack of room, leaving the limiter as it was, or runs the checks.\<close>

lemma beginLocal_cases:
  obtains (pressure) "map_of (lt_buckets l) key = None" "maxKeys (lt_cfg l) \<le> int (length (lt_buckets l))"
      "(beginLocal l key now :: limiter \<times> 'r lease \<times> lt_decision) = (l, deniedLease, lt_deny ReasonKeyPressure second)"
  | (direct) "map_of (lt_buckets l) key = None \<Longrightarrow> int (length (lt_buckets l)) < maxKeys (lt_cfg l)"
      "(beginLocal l key now :: limiter \<times> 'r lease \<times> lt_decision) = admit l key (bucket_of l key) now"
  | (evicting) "map_of (lt_buckets l) key = None" "maxKeys (lt_cfg l) \<le> int (length (lt_buckets l))"
      "length (lt_buckets (snd (evict l now))) < length (lt_buckets l)"
      "(beginLocal l key now :: limiter \<times> 'r lease \<times> lt_decision) = admit (snd (evict l now)) key new_bucket now"
proof (cases "map_of (lt_buckets l) key")
  case (Some b)
  then show ?thesis by (intro direct) (simp_all add: beginLocal_def bucket_of_def)
next
  case None
  show ?thesis
  proof (cases "maxKeys (lt_cfg l) \<le> int (length (lt_buckets l))")
    case False
    with None show ?thesis by (intro direct) (simp_all add: beginLocal_def bucket_of_def)
  next
    case full: True
    let ?rest = "filter (\<lambda>(k, b). \<not> evictable (lt_cfg l) now b) (lt_buckets l)"
    show ?thesis
    proof (cases "length ?rest = length (lt_buckets l)")
      case True
      then have "?rest = lt_buckets l" by (metis (no_types, lifting) filter_id_conv length_filter_less order_less_irrefl)
      with None full True show ?thesis by (intro pressure) (simp_all add: beginLocal_def evict_def Let_def)
    next
      case False
      then have "length ?rest < length (lt_buckets l)" using length_filter_le le_neq_implies_less by blast
      with None full False show ?thesis by (intro evicting) (simp_all add: beginLocal_def evict_def Let_def)
    qed
  qed
qed

section \<open>Bounds kept by every operation\<close>

text \<open>
  No more than \<open>maxKeys\<close> buckets are kept, and no bucket holds more than \<open>inFlightLimit\<close> slots.
\<close>

definition limiter_ok :: "limiter \<Rightarrow> bool" where
  "limiter_ok l \<longleftrightarrow>
     distinct (map fst (lt_buckets l)) \<and> 0 < maxKeys (lt_cfg l) \<and> 0 < inFlightLimit (lt_cfg l) \<and>
     int (length (lt_buckets l)) \<le> maxKeys (lt_cfg l) \<and>
     (\<forall>(k, b) \<in> set (lt_buckets l). int (length (bk_inFlight b)) \<le> inFlightLimit (lt_cfg l))"

lemma newLimiter_ok [simp]: "limiter_ok (newLimiter c)"
  by (simp add: limiter_ok_def newLimiter_def lt_default_def)

lemma set_update_cases: "(k, b) \<in> set (AList.update k' b' xs) \<Longrightarrow> (k, b) \<in> set xs \<or> b = b'"
  by (induction xs) (auto split: if_splits)

lemma put_bucket_ok:
  assumes "limiter_ok l" "int (length (bk_inFlight b)) \<le> inFlightLimit (lt_cfg l)"
    and "map_of (lt_buckets l) k = None \<Longrightarrow> int (length (lt_buckets l)) < maxKeys (lt_cfg l)"
  shows "limiter_ok (put_bucket l k b)"
proof -
  have "int (length (AList.update k b (lt_buckets l))) \<le> maxKeys (lt_cfg l)"
    using assms(1,3) length_update [of k "lt_buckets l" b]
    by (cases "k \<in> fst ` set (lt_buckets l)") (auto simp: limiter_ok_def map_of_eq_None_iff)
  moreover have "\<forall>(k', b') \<in> set (AList.update k b (lt_buckets l)). int (length (bk_inFlight b')) \<le> inFlightLimit (lt_cfg l)"
    using assms(1,2) by (auto simp: limiter_ok_def dest: set_update_cases)
  ultimately show ?thesis using assms(1) by (simp add: limiter_ok_def put_bucket_def distinct_update)
qed

lemma length_prune: "length (bk_inFlight (pruneBucket c b now)) \<le> length (bk_inFlight b)"
  by (simp add: pruneBucket_def)

lemma bucket_of_ok:
  "limiter_ok l \<Longrightarrow> int (length (bk_inFlight (bucket_of l k))) \<le> inFlightLimit (lt_cfg l)"
  by (auto simp: bucket_of_def limiter_ok_def new_bucket_def dest!: map_of_SomeD split: option.split)

lemma length_update_le: "length (AList.update k v xs) \<le> Suc (length xs)"
  by (induction xs) auto

lemma admit_ok:
  assumes "limiter_ok l" "int (length (bk_inFlight b)) \<le> inFlightLimit (lt_cfg l)"
    and "map_of (lt_buckets l) k = None \<Longrightarrow> int (length (lt_buckets l)) < maxKeys (lt_cfg l)"
  shows "limiter_ok (fst (admit l k b now))"
proof -
  let ?b = "pruneBucket (lt_cfg l) (b\<lparr> bk_lastSeen := now \<rparr>) now"
  have "int (length (bk_inFlight ?b)) \<le> inFlightLimit (lt_cfg l)"
    using length_prune [of "lt_cfg l" "b\<lparr> bk_lastSeen := now \<rparr>" now] assms(2) by simp
  then show ?thesis
    using assms length_update_le [of "(bk_nextID ?b + 1) mod 2 ^ 64" now "bk_inFlight ?b"]
    by (auto simp: admit_def Let_def intro!: put_bucket_ok)
qed

lemma evict_ok: "limiter_ok l \<Longrightarrow> limiter_ok (snd (evict l now))"
  using evict_keys [of l now]
  by (auto simp: limiter_ok_def evict_def Let_def distinct_map_filter intro: order_trans [OF _ length_filter_le]
      dest: order_trans [OF of_nat_mono [OF length_filter_le]])

lemma beginLocal_ok:
  "limiter_ok l \<Longrightarrow> limiter_ok (fst (beginLocal l k now :: limiter \<times> 'r lease \<times> lt_decision))"
proof (cases rule: beginLocal_cases [where 'r = 'r, of l k now])
  case evicting
  assume l: "limiter_ok l"
  from evicting(3) l have "int (length (lt_buckets (snd (evict l now)))) < maxKeys (lt_cfg l)"
    by (simp add: limiter_ok_def)
  moreover have "int (length (bk_inFlight new_bucket)) \<le> inFlightLimit (lt_cfg l)"
    using l by (simp add: new_bucket_def limiter_ok_def)
  ultimately show ?thesis
    using admit_ok [OF evict_ok [OF l, of now], of new_bucket k now] evicting(4) by simp
qed (auto intro: admit_ok bucket_of_ok)

lemma release_slot_ok: "limiter_ok l \<Longrightarrow> limiter_ok (release_slot l le)"
  using bucket_of_ok [of l "le_key le"] length_delete_le [of "le_id le" "bk_inFlight (bucket_of l (le_key le))"]
  by (auto simp: release_slot_def bucket_of_def intro!: put_bucket_ok split: option.split)

lemma length_record_failure: "length (bk_inFlight (record_failure c b i now)) \<le> length (bk_inFlight b)"
  using length_delete_le [of i "bk_inFlight b"]
  by (auto simp: record_failure_def Let_def intro: order_trans [OF length_prune])

lemma failureContext_ok: "limiter_ok l \<Longrightarrow> limiter_ok (fst (failureContext l le now))"
  using bucket_of_ok [of l "le_key le"] length_record_failure [of "lt_cfg l" "bucket_of l (le_key le)" "le_id le" now]
  by (auto simp: failureContext_def bucket_of_def intro!: put_bucket_ok split: option.split)


section \<open>Logins of many clients\<close>

text \<open>
  The leases handed out so far with the key and the time of their \<open>Begin\<close> and whether the reply of
  the shared store is still awaited; \<open>lts_failed\<close> and \<open>lts_sent\<close> record the failures committed and
  the outcomes passed to shared reservations. The limiter does not read these records. Events of
  different logins interleave; \<open>lts_clock\<close> is the last reading of the clock.
\<close>

record 'r lt_slot =
  sl_key :: string
  sl_begun :: instant
  sl_pending :: bool
  sl_decision :: lt_decision
  sl_lease :: "'r lease"

record 'r lt_sys =
  lts_lim :: limiter
  lts_leases :: "'r lt_slot list"
  lts_failed :: "(string \<times> instant) list"
  lts_sent :: "(nat \<times> 'r \<times> lt_outcome) list"
  lts_clock :: instant

datatype 'r lt_event =
  EvBegin string instant | EvReply nat "'r lt_reply" instant | EvClose nat lt_outcome instant

fun ev_time :: "'r lt_event \<Rightarrow> instant" where
  "ev_time (EvBegin k t) = t"
| "ev_time (EvReply i r t) = t"
| "ev_time (EvClose i x t) = t"

definition closeLease ::
    "lt_outcome \<Rightarrow> limiter \<Rightarrow> 'r lease \<Rightarrow> instant \<Rightarrow> limiter \<times> 'r lease \<times> 'r option" where
  "closeLease x l le now =
     (case x of Succeeded \<Rightarrow> successContext l le | Failed \<Rightarrow> failureContext l le now
      | Cancelled \<Rightarrow> cancelContext l le)"

text \<open>\<open>sh\<close> says whether a shared store is configured.\<close>

fun lt_do :: "bool \<Rightarrow> 'r lt_sys \<Rightarrow> 'r lt_event \<Rightarrow> 'r lt_sys" where
  "lt_do sh s (EvBegin k now) =
     (case beginLocal (lts_lim s) k now of
        (l, le, d) \<Rightarrow> s\<lparr> lts_lim := l, lts_clock := now,
          lts_leases := lts_leases s @
            [\<lparr> sl_key = k, sl_begun = now, sl_pending = (ltd_allowed d \<and> sh), sl_decision = d, sl_lease = le \<rparr>] \<rparr>)"
| "lt_do sh s (EvReply i r now) =
     (case finishBegin (lts_lim s) (sl_lease (lts_leases s ! i)) (sl_decision (lts_leases s ! i)) r of
        (l, le, d, _) \<Rightarrow> s\<lparr> lts_lim := l, lts_clock := now,
          lts_leases := (lts_leases s)[i := (lts_leases s ! i)\<lparr> sl_lease := le, sl_decision := d, sl_pending := False \<rparr>] \<rparr>)"
| "lt_do sh s (EvClose i x now) =
     (case closeLease x (lts_lim s) (sl_lease (lts_leases s ! i)) now of
        (l, le, res) \<Rightarrow> s\<lparr> lts_lim := l, lts_clock := now,
          lts_failed := lts_failed s @
            (if x = Failed \<and> le_reserved le \<and> \<not> le_committed (sl_lease (lts_leases s ! i))
             then [(sl_key (lts_leases s ! i), now)] else []),
          lts_sent := lts_sent s @ (case res of None \<Rightarrow> [] | Some r \<Rightarrow> [(i, r, x)]),
          lts_leases := (lts_leases s)[i := (lts_leases s ! i)\<lparr> sl_lease := le \<rparr>] \<rparr>)"

fun lt_enabled :: "'r lt_sys \<Rightarrow> 'r lt_event \<Rightarrow> bool" where
  "lt_enabled s (EvBegin k now) \<longleftrightarrow> lts_clock s \<le> now"
| "lt_enabled s (EvReply i r now) \<longleftrightarrow>
     lts_clock s \<le> now \<and> i < length (lts_leases s) \<and> sl_pending (lts_leases s ! i)"
| "lt_enabled s (EvClose i x now) \<longleftrightarrow>
     lts_clock s \<le> now \<and> i < length (lts_leases s) \<and> \<not> sl_pending (lts_leases s ! i)"

definition lt_init :: "lt_config \<Rightarrow> instant \<Rightarrow> 'r lt_sys" where
  "lt_init c t = \<lparr> lts_lim = newLimiter c, lts_leases = [], lts_failed = [], lts_sent = [], lts_clock = t \<rparr>"

text \<open>Runs whose every event is enabled and satisfies the side condition \<open>ok\<close>.\<close>

inductive lt_run ::
    "bool \<Rightarrow> ('r lt_sys \<Rightarrow> 'r lt_event \<Rightarrow> bool) \<Rightarrow> 'r lt_sys \<Rightarrow> 'r lt_event list \<Rightarrow> 'r lt_sys \<Rightarrow> bool"
  for sh ok s where
  start: "lt_run sh ok s [] s"
| event: "lt_run sh ok s es t \<Longrightarrow> lt_enabled t e \<Longrightarrow> ok t e \<Longrightarrow> lt_run sh ok s (es @ [e]) (lt_do sh t e)"

lemma cancelContext_ok: "limiter_ok l \<Longrightarrow> limiter_ok (fst (cancelContext l le))"
  by (simp add: cancelContext_def release_slot_ok)

lemma finishBegin_ok: "limiter_ok l \<Longrightarrow> limiter_ok (fst (finishBegin l le d r))"
  by (auto simp: finishBegin_def Let_def cancelContext_ok split: lt_reply.split option.split)

lemma closeLease_ok: "limiter_ok l \<Longrightarrow> limiter_ok (fst (closeLease x l le now))"
  by (cases x) (simp_all add: closeLease_def successContext_def cancelContext_ok release_slot_ok failureContext_ok)

lemma lt_do_ok:
  fixes s :: "'r lt_sys"
  shows "limiter_ok (lts_lim s) \<Longrightarrow> limiter_ok (lts_lim (lt_do sh s e))"
proof (cases e)
  case (EvBegin k now)
  assume "limiter_ok (lts_lim s)"
  from beginLocal_ok [where 'r = 'r, OF this, of k now] EvBegin show ?thesis by (auto split: prod.split)
next
  case (EvReply i r now)
  assume "limiter_ok (lts_lim s)"
  from finishBegin_ok [OF this, of "sl_lease (lts_leases s ! i)" "sl_decision (lts_leases s ! i)" r] EvReply
  show ?thesis by (auto split: prod.split)
next
  case (EvClose i x now)
  assume "limiter_ok (lts_lim s)"
  from closeLease_ok [OF this, of x "sl_lease (lts_leases s ! i)" now] EvClose
  show ?thesis by (auto split: prod.split)
qed

interpretation throttle: invariant_component "lt_do sh" "\<lambda>s. limiter_ok (lts_lim s)" for sh
  by unfold_locales (rule lt_do_ok)

lemma lt_run_foldl: "lt_run sh ok s es t \<Longrightarrow> t = foldl (lt_do sh) s es"
  by (induction rule: lt_run.induct) auto

lemma lt_run_ok: "lt_run sh ok (lt_init c t) es s \<Longrightarrow> limiter_ok (lts_lim s)"
  using throttle.run_inv [of "lt_init c t" sh es] lt_run_foldl [of sh ok "lt_init c t" es s] by (simp add: lt_init_def)

end
