(* ===== verification/Login_History.thy ===== *)
theory Login_History
  imports Login_Throttle
begin

text \<open>
  What the login throttle promises, over the history of a run: the decision on a login is a
  function of the logins still open and of the failures so far, at most \<open>inFlightLimit\<close> logins of
  one address run at a time, and a shared reservation is told one outcome.
\<close>

section \<open>The history of a run\<close>

definition open_slot :: "duration \<Rightarrow> instant \<Rightarrow> string \<Rightarrow> 'r lt_slot \<Rightarrow> bool" where
  "open_slot ttl now k x \<longleftrightarrow>
     sl_key x = k \<and> le_reserved (sl_lease x) \<and> \<not> le_committed (sl_lease x) \<and> now - ttl \<le> sl_begun x"

definition open_count :: "'r lt_sys \<Rightarrow> string \<Rightarrow> instant \<Rightarrow> int" where
  "open_count s k now =
     int (length (filter (open_slot (inFlightTTL (lt_cfg (lts_lim s))) now k) (lts_leases s)))"

definition fails_of :: "'r lt_sys \<Rightarrow> string \<Rightarrow> instant list" where
  "fails_of s k = map snd (filter (\<lambda>(k', t). k' = k) (lts_failed s))"

definition fails_within :: "instant list \<Rightarrow> instant \<Rightarrow> duration \<Rightarrow> int" where
  "fails_within fs now w = int (length (filter (\<lambda>t. now - w < t) fs))"

text \<open>The end of the ban the failures of an address earn it; the newest failure comes first.\<close>

fun ban_of :: "lt_config \<Rightarrow> instant list \<Rightarrow> instant" where
  "ban_of c [] = zero_time"
| "ban_of c (f # fs) =
     (if fails_within (f # fs) f (banWindow c) \<ge> banAfter c then f + banDuration c else ban_of c fs)"

text \<open>The specification: the decision on a login, given the failures and the number of open logins.\<close>

definition login_decision :: "lt_config \<Rightarrow> instant list \<Rightarrow> int \<Rightarrow> instant \<Rightarrow> lt_decision" where
  "login_decision c fs n now =
     (if now < ban_of c (rev fs) then lt_deny ReasonIPBanned (ceilSeconds (ban_of c (rev fs) - now))
      else if n \<ge> inFlightLimit c then lt_deny ReasonIPInFlight second
      else if fails_within fs now (lt_window c) + n \<ge> windowLimit c
      then lt_deny ReasonIPWindow (ceilSeconds (lt_window c))
      else lt_allow)"

text \<open>A lease is closed, and the reply of the shared store arrives, before the slot's time to live ends.\<close>

fun prompt :: "'r lt_sys \<Rightarrow> 'r lt_event \<Rightarrow> bool" where
  "prompt s (EvBegin k now) \<longleftrightarrow> True"
| "prompt s (EvReply i r now) \<longleftrightarrow>
     le_committed (sl_lease (lts_leases s ! i)) \<or> now - inFlightTTL (lt_cfg (lts_lim s)) \<le> sl_begun (lts_leases s ! i)"
| "prompt s (EvClose i x now) \<longleftrightarrow>
     le_committed (sl_lease (lts_leases s ! i)) \<or> now - inFlightTTL (lt_cfg (lts_lim s)) \<le> sl_begun (lts_leases s ! i)"

section \<open>The slots of a bucket are the open logins\<close>

definition slot_entry :: "'r lt_slot \<Rightarrow> nat \<times> instant" where
  "slot_entry x = (le_id (sl_lease x), sl_begun x)"

definition fresh_slots :: "lt_config \<Rightarrow> instant \<Rightarrow> lt_bucket \<Rightarrow> (nat \<times> instant) list" where
  "fresh_slots c now b = filter (\<lambda>e. now - inFlightTTL c \<le> snd e) (bk_inFlight b)"

definition slots_ok :: "lt_config \<Rightarrow> instant \<Rightarrow> 'r lt_slot list \<Rightarrow> string \<Rightarrow> lt_bucket \<Rightarrow> bool" where
  "slots_ok c now xs k b \<longleftrightarrow>
     distinct (map fst (bk_inFlight b)) \<and> (\<forall>e \<in> set (bk_inFlight b). fst e \<le> bk_nextID b) \<and>
     bk_nextID b \<le> length xs \<and>
     fresh_slots c now b = map slot_entry (filter (open_slot (inFlightTTL c) now k) xs)"

lemma filter_weaker: "(\<And>x. Q x \<Longrightarrow> P x) \<Longrightarrow> filter Q (filter P xs) = filter Q xs"
  by (induction xs) auto

lemma slots_tick:
  assumes "slots_ok c t xs k b" "t \<le> t'"
  shows "slots_ok c t' xs k b"
proof -
  let ?o = "open_slot (inFlightTTL c)"
  have "fresh_slots c t' b = filter (\<lambda>e. t' - inFlightTTL c \<le> snd e) (fresh_slots c t b)"
    unfolding fresh_slots_def using assms(2) by (subst filter_weaker) auto
  also have "\<dots> = map slot_entry (filter (\<lambda>x. t' - inFlightTTL c \<le> sl_begun x) (filter (?o t k) xs))"
    using assms(1) by (simp add: slots_ok_def filter_map comp_def slot_entry_def)
  also have "filter (\<lambda>x. t' - inFlightTTL c \<le> sl_begun x) (filter (?o t k) xs) = filter (?o t' k) xs"
    unfolding filter_filter using assms(2) by (intro filter_cong) (auto simp: open_slot_def)
  finally show ?thesis using assms(1) by (simp add: slots_ok_def)
qed

lemma prune_inFlight: "bk_inFlight (pruneBucket c b now) = fresh_slots c now b"
  by (auto simp: pruneBucket_def fresh_slots_def intro!: filter_cong)

lemma slots_prune: "slots_ok c now xs k b \<Longrightarrow> slots_ok c now xs k (pruneBucket c b now)"
proof -
  assume b: "slots_ok c now xs k b"
  let ?p = "pruneBucket c b now"
  have "fresh_slots c now ?p = fresh_slots c now b"
    by (subst fresh_slots_def, subst prune_inFlight) (simp add: fresh_slots_def)
  moreover have "distinct (map fst (bk_inFlight ?p))"
    using b unfolding prune_inFlight fresh_slots_def by (intro distinct_map_filter) (simp add: slots_ok_def)
  moreover have "set (bk_inFlight ?p) \<subseteq> set (bk_inFlight b)" by (auto simp: pruneBucket_def)
  moreover have "bk_nextID ?p = bk_nextID b" by (simp add: pruneBucket_def)
  ultimately show ?thesis using b by (auto simp: slots_ok_def)
qed

lemma slots_fields [simp]:
  "slots_ok c now xs k (b\<lparr> bk_lastSeen := t \<rparr>) = slots_ok c now xs k b"
  "slots_ok c now xs k (b\<lparr> bk_blockedUntil := t \<rparr>) = slots_ok c now xs k b"
  "slots_ok c now xs k (b\<lparr> bk_failures := fs \<rparr>) = slots_ok c now xs k b"
  by (simp_all add: slots_ok_def fresh_slots_def)

lemma slots_new: "slots_ok c now xs k b \<Longrightarrow> bk_inFlight b = [] \<Longrightarrow> slots_ok c now xs k new_bucket"
  by (simp add: slots_ok_def new_bucket_def fresh_slots_def)

lemma slots_skip: "slots_ok c now xs k b \<Longrightarrow> \<not> open_slot (inFlightTTL c) now k x \<Longrightarrow> slots_ok c now (xs @ [x]) k b"
  by (simp add: slots_ok_def)

lemma slots_admit:
  assumes "slots_ok c now xs k b" "length xs + 1 < 2 ^ 64" "open_slot (inFlightTTL c) now k x"
    and "le_id (sl_lease x) = (bk_nextID b + 1) mod 2 ^ 64" "sl_begun x = now" "0 < inFlightTTL c"
  shows "slots_ok c now (xs @ [x]) k
    (b\<lparr> bk_nextID := (bk_nextID b + 1) mod 2 ^ 64,
        bk_inFlight := AList.update ((bk_nextID b + 1) mod 2 ^ 64) now (bk_inFlight b) \<rparr>)"
proof -
  have i: "(bk_nextID b + 1) mod 2 ^ 64 = bk_nextID b + 1" using assms(1,2) by (simp add: slots_ok_def)
  have new: "bk_nextID b + 1 \<notin> fst ` set (bk_inFlight b)" using assms(1) by (auto simp: slots_ok_def)
  show ?thesis
    using assms new unfolding i length_update(2) [OF new]
    by (auto simp: slots_ok_def slot_entry_def fresh_slots_def)
qed

lemma slots_replace:
  assumes "slots_ok c now xs k b" "i < length xs"
    and "open_slot (inFlightTTL c) now k y = open_slot (inFlightTTL c) now k (xs ! i)"
    and "open_slot (inFlightTTL c) now k y \<Longrightarrow> slot_entry y = slot_entry (xs ! i)"
  shows "slots_ok c now (xs[i := y]) k b"
proof -
  have xs: "xs = take i xs @ xs ! i # drop (Suc i) xs" by (rule id_take_nth_drop [OF assms(2)])
  have "xs[i := y] = take i xs @ y # drop (Suc i) xs" by (rule upd_conv_take_nth_drop [OF assms(2)])
  with assms(3,4) have "map slot_entry (filter (open_slot (inFlightTTL c) now k) (xs[i := y]))
      = map slot_entry (filter (open_slot (inFlightTTL c) now k) xs)"
    by (subst (2) xs) auto
  with assms(1) show ?thesis by (simp add: slots_ok_def)
qed

lemma filter_out_one:
  "fst x = d \<Longrightarrow> \<forall>e \<in> set (as @ bs). fst e \<noteq> d \<Longrightarrow> filter (\<lambda>e. d \<noteq> fst e) (as @ x # bs) = as @ bs"
proof -
  assume "fst x = d" and ne: "\<forall>e \<in> set (as @ bs). fst e \<noteq> d"
  moreover have "filter (\<lambda>e. d \<noteq> fst e) as = as" "filter (\<lambda>e. d \<noteq> fst e) bs = bs"
    using ne by (auto intro!: filter_True)
  ultimately show ?thesis by simp
qed

lemma slots_close:
  assumes "slots_ok c now xs k b" "i < length xs" "open_slot (inFlightTTL c) now k (xs ! i)"
    and "\<not> open_slot (inFlightTTL c) now k y"
  shows "slots_ok c now (xs[i := y]) k (b\<lparr> bk_inFlight := AList.delete (le_id (sl_lease (xs ! i))) (bk_inFlight b) \<rparr>)"
proof -
  let ?o = "open_slot (inFlightTTL c) now k" and ?d = "le_id (sl_lease (xs ! i))"
  let ?us = "take i xs" and ?vs = "drop (Suc i) xs"
  have xs: "xs = ?us @ xs ! i # ?vs" by (rule id_take_nth_drop [OF assms(2)])
  have upd: "xs[i := y] = ?us @ y # ?vs" by (rule upd_conv_take_nth_drop [OF assms(2)])
  have fresh: "fresh_slots c now b = map slot_entry (filter ?o xs)"
    using assms(1) by (simp add: slots_ok_def)
  also have "filter ?o xs = filter ?o ?us @ xs ! i # filter ?o ?vs" by (subst xs) (use assms(3) in simp)
  finally have split: "fresh_slots c now b =
      map slot_entry (filter ?o ?us @ xs ! i # filter ?o ?vs)" .
  have "distinct (map fst (fresh_slots c now b))"
    using assms(1) unfolding fresh_slots_def by (intro distinct_map_filter) (simp add: slots_ok_def)
  then have ne: "\<forall>e \<in> set (map slot_entry (filter ?o ?us @ filter ?o ?vs)). fst e \<noteq> ?d"
    unfolding split by (auto simp: slot_entry_def rev_image_eqI)
  have "fresh_slots c now (b\<lparr> bk_inFlight := AList.delete ?d (bk_inFlight b) \<rparr>) = filter (\<lambda>e. ?d \<noteq> fst e) (fresh_slots c now b)"
    by (simp add: fresh_slots_def AList.delete_eq conj_commute case_prod_beta')
  also have "\<dots> = map slot_entry (filter ?o ?us @ filter ?o ?vs)"
    using filter_out_one [of "slot_entry (xs ! i)" ?d "map slot_entry (filter ?o ?us)" "map slot_entry (filter ?o ?vs)"] ne
    unfolding split by (simp add: slot_entry_def)
  also have "\<dots> = map slot_entry (filter ?o (xs[i := y]))" unfolding upd using assms(4) by simp
  finally show ?thesis
    using assms(1) by (auto simp: slots_ok_def AList.delete_eq distinct_map_filter case_prod_beta')
qed


text \<open>Closing a lease: \<open>y\<close> is what becomes of the slot.\<close>

lemma bucket_release:
  "bucket_of (release_slot l le) k =
     (if k = le_key le then (bucket_of l k)\<lparr> bk_inFlight := AList.delete (le_id le) (bk_inFlight (bucket_of l k)) \<rparr>
      else bucket_of l k)"
  by (auto simp: release_slot_def bucket_of_def new_bucket_def split: option.split)

lemma slots_cancel:
  assumes "slots_ok c now xs k (bucket_of l k)" "i < length xs" "\<not> open_slot (inFlightTTL c) now k y"
    and key: "le_reserved (sl_lease (xs ! i)) \<Longrightarrow> le_key (sl_lease (xs ! i)) = sl_key (xs ! i)"
    and prompt: "le_committed (sl_lease (xs ! i)) \<or> now - inFlightTTL c \<le> sl_begun (xs ! i)"
  shows "slots_ok c now (xs[i := y]) k (bucket_of (fst (cancelContext l (sl_lease (xs ! i)))) k)"
proof (cases "open_slot (inFlightTTL c) now k (xs ! i)")
  case True
  with slots_close [OF assms(1,2) True assms(3)] key show ?thesis
    by (auto simp: cancelContext_def open_slot_def bucket_release)
next
  case False
  with prompt key have "bucket_of (fst (cancelContext l (sl_lease (xs ! i)))) k = bucket_of l k"
    by (auto simp: cancelContext_def open_slot_def bucket_release)
  with slots_replace [OF assms(1,2)] False assms(3) show ?thesis by simp
qed

lemma slots_cong:
  "bk_inFlight b = bk_inFlight b' \<Longrightarrow> bk_nextID b = bk_nextID b' \<Longrightarrow> slots_ok c now xs k b = slots_ok c now xs k b'"
  by (simp add: slots_ok_def fresh_slots_def)

lemma slots_record_failure:
  "slots_ok c now xs k (record_failure c b i now) =
     slots_ok c now xs k (pruneBucket c (b\<lparr> bk_inFlight := AList.delete i (bk_inFlight b) \<rparr>) now)"
  by (rule slots_cong) (simp_all add: record_failure_def Let_def pruneBucket_def)

lemma slots_failure:
  assumes "slots_ok c now xs k (bucket_of l k)" "i < length xs" "\<not> open_slot (inFlightTTL c) now k y"
    and key: "le_reserved (sl_lease (xs ! i)) \<Longrightarrow> le_key (sl_lease (xs ! i)) = sl_key (xs ! i)"
    and prompt: "le_committed (sl_lease (xs ! i)) \<or> now - inFlightTTL c \<le> sl_begun (xs ! i)"
    and cfg: "c = lt_cfg l"
  shows "slots_ok c now (xs[i := y]) k (bucket_of (fst (failureContext l (sl_lease (xs ! i)) now)) k)"
proof (cases "open_slot (inFlightTTL c) now k (xs ! i)")
  case True
  let ?le = "sl_lease (xs ! i)"
  from True have le: "le_reserved ?le" "\<not> le_committed ?le" "le_key ?le = k"
    using key by (auto simp: open_slot_def)
  have "(le_id ?le, sl_begun (xs ! i)) \<in> set (map slot_entry (filter (open_slot (inFlightTTL c) now k) xs))"
    using True assms(2) by (auto simp: slot_entry_def rev_image_eqI)
  then have "fresh_slots c now (bucket_of l k) \<noteq> []"
    using assms(1) by (metis empty_iff empty_set slots_ok_def)
  then have "bk_inFlight (bucket_of l k) \<noteq> []" by (auto simp: fresh_slots_def)
  then obtain b where b: "map_of (lt_buckets l) k = Some b"
    by (auto simp: bucket_of_def new_bucket_def split: option.splits)
  from slots_prune [OF slots_close [OF assms(1,2) True assms(3)]] b le cfg show ?thesis
    by (simp add: failureContext_def slots_record_failure) (simp add: bucket_of_def)
next
  case False
  with prompt key have "bucket_of (fst (failureContext l (sl_lease (xs ! i)) now)) k = bucket_of l k"
    by (auto simp: failureContext_def open_slot_def split: option.split)
  with slots_replace [OF assms(1,2)] False assms(3) show ?thesis by simp
qed

lemma slots_begin:
  fixes l :: limiter and xs :: "'r lt_slot list"
  assumes "\<forall>k. slots_ok (lt_cfg l) now xs k (bucket_of l k)" "length xs + 1 < 2 ^ 64" "limiter_ok l" "0 < inFlightTTL (lt_cfg l)"
    and "beginLocal l key now = (l', le, d)" "sl_key x = key" "sl_begun x = now" "sl_lease x = (le :: 'r lease)"
  shows "slots_ok (lt_cfg l) now (xs @ [x]) k (bucket_of l' k)"
proof -
  have denied: "slots_ok (lt_cfg l) now xs k b \<Longrightarrow> le = deniedLease \<Longrightarrow> slots_ok (lt_cfg l) now (xs @ [x]) k b" for k b
    using assms(8) by (intro slots_skip) (simp_all add: open_slot_def deniedLease_def)
  have admitted: "slots_ok (lt_cfg l) now (xs @ [x]) k (bucket_of l' k)"
    if m: "lt_cfg m = lt_cfg l" "\<forall>k. slots_ok (lt_cfg l) now xs k (bucket_of m k)" "slots_ok (lt_cfg l) now xs key b"
      and eq: "admit m key b now = (l', le, d)" for m b
  proof (cases "k = key")
    case True
    let ?b = "pruneBucket (lt_cfg l) (b\<lparr> bk_lastSeen := now \<rparr>) now"
    have p: "slots_ok (lt_cfg l) now xs key ?b" using m(3) by (intro slots_prune) simp
    show ?thesis
    proof (cases "le = deniedLease")
      case True
      with denied [OF p] eq m(1) \<open>k = key\<close> show ?thesis
        by (auto simp: admit_def Let_def deniedLease_def split: if_splits)
    next
      case False
      with eq m(1) have le: "le = \<lparr> le_key = key, le_id = (bk_nextID ?b + 1) mod 2 ^ 64, le_reserved = True,
          le_committed = False, le_shared = None \<rparr>"
        by (auto simp: admit_def Let_def split: if_splits)
      with slots_admit [OF p assms(2), of x] assms(4,6-8) False eq m(1) \<open>k = key\<close> show ?thesis
        by (auto simp: admit_def Let_def open_slot_def split: if_splits)
    qed
  next
    case False
    with eq have "bucket_of l' k = bucket_of m k"
      by (auto simp: admit_def Let_def split: if_splits)
    moreover have "\<not> open_slot (inFlightTTL (lt_cfg l)) now k x" using False assms(6) by (simp add: open_slot_def)
    ultimately show ?thesis using m(2) slots_skip by metis
  qed
  show ?thesis
  proof (cases rule: beginLocal_cases [where 'r = 'r, of l key now])
    case pressure
    with assms(1,5) denied show ?thesis by simp
  next
    case direct
    with admitted [of l "bucket_of l key"] assms(1,5) show ?thesis by simp
  next
    case evicting
    have dist: "distinct (map fst (lt_buckets l))" using assms(3) by (simp add: limiter_ok_def)
    have "bucket_of (snd (evict l now)) k = bucket_of l k \<or>
        bk_inFlight (bucket_of l k) = [] \<and> bucket_of (snd (evict l now)) k = new_bucket" for k
      using evict_simps [OF dist, of now k] by (auto simp: bucket_of_def evictable_def split: option.splits if_splits)
    then have "\<forall>k. slots_ok (lt_cfg l) now xs k (bucket_of (snd (evict l now)) k)"
      using assms(1) slots_new by metis
    moreover have "bucket_of l key = new_bucket" using evicting(1) by (simp add: bucket_of_def)
    then have "slots_ok (lt_cfg l) now xs key new_bucket" using assms(1) by metis
    ultimately show ?thesis using admitted [of "snd (evict l now)" new_bucket] evicting assms(5) by simp
  qed
qed


section \<open>Every run keeps the slots\<close>

lemma finishBegin_cases:
  assumes "finishBegin l le d r = (l', le', d', err)"
  obtains (refused) "l' = fst (cancelContext l le)" "le' = deniedLease"
  | (granted) sr where "l' = l" "le' = le\<lparr> le_shared := Some sr \<rparr>" "d' = d"
  using assms by (auto simp: finishBegin_def Let_def split: lt_reply.splits if_splits option.splits)

lemma close_committed [simp]: "closeLease x l le now = (l', le', res) \<Longrightarrow> le_committed le'"
  by (cases x) (auto simp: closeLease_def successContext_def cancelContext_def failureContext_def split: if_splits option.splits)

lemma close_kept:
  "closeLease x l le now = (l', le', res) \<Longrightarrow>
     lt_cfg l' = lt_cfg l \<and> le_key le' = le_key le \<and> le_reserved le' = le_reserved le \<and> le_shared le' = le_shared le"
  by (cases x) (auto simp: closeLease_def successContext_def cancelContext_def failureContext_def split: if_splits option.splits)

lemma begin_cfg: "beginLocal l k now = (l', le, d) \<Longrightarrow> lt_cfg l' = lt_cfg l"
proof -
  assume b: "beginLocal l k now = (l', le, d)"
  have "lt_cfg (fst (beginLocal l k now :: limiter \<times> 'a lease \<times> lt_decision)) = lt_cfg l"
    by (cases rule: beginLocal_cases [where 'r = 'a, of l k now]) simp_all
  with b show ?thesis by simp
qed

lemma begin_lease:
  "beginLocal l k now = (l', le, d) \<Longrightarrow> (le_reserved le \<longrightarrow> le_key le = k) \<and> le_shared le = None \<and>
     (ltd_allowed d \<longleftrightarrow> le_reserved le) \<and> le_committed le = (\<not> le_reserved le)"
proof -
  assume b: "beginLocal l k now = (l', le, d)"
  let ?r = "beginLocal l k now :: limiter \<times> 'a lease \<times> lt_decision"
  have "(le_reserved (fst (snd ?r)) \<longrightarrow> le_key (fst (snd ?r)) = k) \<and> le_shared (fst (snd ?r)) = None \<and>
      (ltd_allowed (snd (snd ?r)) \<longleftrightarrow> le_reserved (fst (snd ?r))) \<and>
      le_committed (fst (snd ?r)) = (\<not> le_reserved (fst (snd ?r)))"
    by (cases rule: beginLocal_cases [where 'r = 'a, of l k now])
      (simp_all add: admit_def Let_def deniedLease_def lt_deny_def lt_allow_def)
  with b show ?thesis by simp
qed

text \<open>What every run keeps: the configuration is usable and a lease names the key it was asked for.\<close>

definition sys_ok :: "'r lt_sys \<Rightarrow> bool" where
  "sys_ok s \<longleftrightarrow> limiter_ok (lts_lim s) \<and> 0 < inFlightTTL (lt_cfg (lts_lim s)) \<and>
     (\<forall>x \<in> set (lts_leases s). le_reserved (sl_lease x) \<longrightarrow> le_key (sl_lease x) = sl_key x)"

lemma sys_ok_init: "sys_ok (lt_init c t)"
  using newLimiter_ok [of c] by (simp add: sys_ok_def lt_init_def newLimiter_def lt_default_def duration_defs)

lemma lt_do_cfg: "lt_cfg (lts_lim (lt_do sh s e)) = lt_cfg (lts_lim s)"
proof (cases e)
  case (EvReply i r now)
  then show ?thesis
    by (auto simp: cancelContext_def split: prod.split elim!: finishBegin_cases)
qed (auto dest: begin_cfg close_kept split: prod.split)

lemma sys_ok_step:
  assumes "sys_ok s" "lt_enabled s e"
  shows "sys_ok (lt_do sh s e)"
proof -
  have "\<forall>x \<in> set (lts_leases (lt_do sh s e)). le_reserved (sl_lease x) \<longrightarrow> le_key (sl_lease x) = sl_key x"
  proof (cases e)
    case (EvBegin k now)
    with assms show ?thesis by (auto simp: sys_ok_def dest: begin_lease split: prod.split)
  next
    case (EvReply i r now)
    with assms show ?thesis
      by (auto simp: sys_ok_def deniedLease_def split: prod.split elim!: finishBegin_cases dest!: set_update_subset_insert [THEN subsetD])
  next
    case (EvClose i x now)
    with assms show ?thesis
      by (auto simp: sys_ok_def split: prod.split dest!: close_kept set_update_subset_insert [THEN subsetD])
  qed
  with assms(1) lt_do_ok [of s sh e] show ?thesis by (simp add: sys_ok_def lt_do_cfg)
qed

definition slots_inv :: "'r lt_sys \<Rightarrow> bool" where
  "slots_inv s \<longleftrightarrow> (length (lts_leases s) < 2 ^ 64 \<longrightarrow>
     (\<forall>k. slots_ok (lt_cfg (lts_lim s)) (lts_clock s) (lts_leases s) k (bucket_of (lts_lim s) k)))"

lemma slots_inv_init: "slots_inv (lt_init c t)"
  by (simp add: slots_inv_def lt_init_def bucket_of_def newLimiter_def new_bucket_def slots_ok_def fresh_slots_def)

lemma slots_inv_step:
  fixes s :: "'r lt_sys"
  assumes "sys_ok s" "slots_inv s" "lt_enabled s e" "prompt s e"
  shows "slots_inv (lt_do sh s e)"
proof -
  let ?l = "lts_lim s" and ?xs = "lts_leases s"
  let ?c = "lt_cfg ?l"
  have ok: "limiter_ok ?l" "0 < inFlightTTL ?c" using assms(1) by (simp_all add: sys_ok_def)
  have key: "le_reserved (sl_lease (?xs ! i)) \<Longrightarrow> le_key (sl_lease (?xs ! i)) = sl_key (?xs ! i)"
    if "i < length ?xs" for i using assms(1) that by (simp add: sys_ok_def)
  have at_now: "slots_ok ?c now ?xs k (bucket_of ?l k)" if "lts_clock s \<le> now" "length ?xs < 2 ^ 64" for now k
    using assms(2) that by (auto simp: slots_inv_def intro: slots_tick)
  show ?thesis
  proof (cases e)
    case (EvBegin k now)
    obtain l' le d where b: "beginLocal ?l k now = (l', le :: 'r lease, d)" by (rule prod_cases3)
    with slots_begin [of ?l now ?xs k l' le d] at_now assms(3) ok EvBegin begin_cfg [OF b] show ?thesis
      by (simp add: slots_inv_def)
  next
    case (EvReply i r now)
    obtain l' le d err where f: "finishBegin ?l (sl_lease (?xs ! i)) (sl_decision (?xs ! i)) r = (l', le, d, err)"
      by (rule prod_cases4)
    let ?y = "(?xs ! i)\<lparr> sl_lease := le, sl_decision := d, sl_pending := False \<rparr>"
    have i: "i < length ?xs" "lts_clock s \<le> now" using assms(3) EvReply by simp_all
    have "slots_ok ?c now (?xs[i := ?y]) k (bucket_of l' k)" if "length ?xs < 2 ^ 64" for k
      using f
    proof (cases rule: finishBegin_cases)
      case refused
      with slots_cancel [OF at_now [OF i(2) that] i(1), where y = ?y] key [OF i(1)] assms(4) EvReply show ?thesis
        by (simp add: open_slot_def deniedLease_def)
    next
      case (granted sr)
      with slots_replace [OF at_now [OF i(2) that] i(1), where y = ?y] show ?thesis
        by (simp add: open_slot_def slot_entry_def)
    qed
    with f EvReply lt_do_cfg [of sh s e] show ?thesis by (simp add: slots_inv_def)
  next
    case (EvClose i x now)
    obtain l' le res where f: "closeLease x ?l (sl_lease (?xs ! i)) now = (l', le, res)" by (rule prod_cases3)
    let ?y = "(?xs ! i)\<lparr> sl_lease := le \<rparr>"
    have i: "i < length ?xs" "lts_clock s \<le> now" using assms(3) EvClose by simp_all
    have y: "\<not> open_slot t now k ?y" for t k using close_committed [OF f] by (simp add: open_slot_def)
    have p: "le_committed (sl_lease (?xs ! i)) \<or> now - inFlightTTL ?c \<le> sl_begun (?xs ! i)"
      using assms(4) EvClose by simp
    have "slots_ok ?c now (?xs[i := ?y]) k (bucket_of l' k)" if "length ?xs < 2 ^ 64" for k
      using f slots_cancel [OF at_now [OF i(2) that] i(1) y key [OF i(1)] p]
        slots_failure [OF at_now [OF i(2) that] i(1) y key [OF i(1)] p refl]
      by (cases x) (auto simp: closeLease_def successContext_def cancelContext_def)
    with f EvClose lt_do_cfg [of sh s e] show ?thesis by (simp add: slots_inv_def)
  qed
qed

lemma run_slots:
  "lt_run sh prompt (lt_init c t) es s \<Longrightarrow> sys_ok s \<and> slots_inv s"
  by (induction rule: lt_run.induct) (auto intro: sys_ok_init slots_inv_init sys_ok_step slots_inv_step)

lemma run_sys_ok: "lt_run sh ok (lt_init c t) es s \<Longrightarrow> sys_ok s"
  by (induction rule: lt_run.induct) (auto intro: sys_ok_init sys_ok_step)

lemma run_cfg: "lt_run sh ok s es s' \<Longrightarrow> lt_cfg (lts_lim s') = lt_cfg (lts_lim s)"
  by (induction rule: lt_run.induct) (simp_all add: lt_do_cfg)


section \<open>The failures of a bucket are the failures of the history\<close>

definition fails_ok :: "lt_config \<Rightarrow> instant \<Rightarrow> instant list \<Rightarrow> lt_bucket \<Rightarrow> bool" where
  "fails_ok c now fs b \<longleftrightarrow>
     filter (\<lambda>t. now - keep_window c < t) (bk_failures b) = filter (\<lambda>t. now - keep_window c < t) fs \<and>
     bk_blockedUntil b = ban_of c (rev fs)"

lemma fails_tick:
  assumes "fails_ok c t fs b" "t \<le> t'"
  shows "fails_ok c t' fs b"
proof -
  let ?f = "\<lambda>s :: instant. t' - keep_window c < s" and ?g = "\<lambda>s :: instant. t - keep_window c < s"
  have "filter ?f (filter ?g xs) = filter ?f xs" for xs using assms(2) by (intro filter_weaker) simp
  then show ?thesis using assms(1) unfolding fails_ok_def by metis
qed

lemma fails_cong:
  "bk_failures b = bk_failures b' \<Longrightarrow> bk_blockedUntil b = bk_blockedUntil b' \<Longrightarrow> fails_ok c now fs b = fails_ok c now fs b'"
  by (simp add: fails_ok_def)

lemma fails_prune: "fails_ok c now fs (pruneBucket c b now) = fails_ok c now fs b"
  by (simp add: fails_ok_def pruneBucket_def)

lemma fails_count:
  assumes "fails_ok c now fs b" "w \<le> keep_window c"
  shows "failuresWithin b now w = fails_within fs now w"
proof -
  let ?f = "\<lambda>s :: instant. now - w < s" and ?g = "\<lambda>s :: instant. now - keep_window c < s"
  have "filter ?f (filter ?g xs) = filter ?f xs" for xs using assms(2) by (intro filter_weaker) simp
  then have "filter ?f (bk_failures b) = filter ?f fs" using assms(1) unfolding fails_ok_def by metis
  then show ?thesis by (simp add: failuresWithin_def fails_within_def)
qed

lemma windows_kept [simp]: "lt_window c \<le> keep_window c" "banWindow c \<le> keep_window c"
  by (simp_all add: keep_window_def)

lemma fails_within_rev [simp]: "fails_within (f # rev fs) now w = fails_within (fs @ [f]) now w"
  by (simp add: fails_within_def flip: rev_filter)

lemma fails_record:
  assumes "fails_ok c now fs b"
  shows "fails_ok c now (fs @ [now]) (record_failure c b i now)"
proof -
  let ?b = "pruneBucket c (b\<lparr> bk_inFlight := AList.delete i (bk_inFlight b), bk_failures := bk_failures b @ [now] \<rparr>) now"
  have eq: "filter (\<lambda>t. now - keep_window c < t) (bk_failures ?b) = filter (\<lambda>t. now - keep_window c < t) (fs @ [now])"
    using assms by (simp add: fails_ok_def pruneBucket_def)
  have "failuresWithin ?b now (banWindow c) = fails_within (fs @ [now]) now (banWindow c)"
    by (rule fails_count [of c now _ "?b\<lparr> bk_blockedUntil := ban_of c (rev (fs @ [now])) \<rparr>", THEN trans [rotated]])
      (use eq in \<open>simp_all add: fails_ok_def failuresWithin_def\<close>)
  moreover have "bk_blockedUntil ?b = ban_of c (rev fs)" using assms by (simp add: fails_ok_def pruneBucket_def)
  ultimately show ?thesis using eq by (simp add: record_failure_def Let_def fails_ok_def)
qed

text \<open>While no more than \<open>maxKeys\<close> addresses have been seen, no bucket has been evicted.\<close>

definition seen :: "'r lt_sys \<Rightarrow> string set" where
  "seen s = sl_key ` set (lts_leases s)"

definition fails_inv :: "'r lt_sys \<Rightarrow> bool" where
  "fails_inv s \<longleftrightarrow> (int (card (seen s)) \<le> maxKeys (lt_cfg (lts_lim s)) \<longrightarrow>
     (\<forall>k. fails_ok (lt_cfg (lts_lim s)) (lts_clock s) (fails_of s k) (bucket_of (lts_lim s) k)) \<and>
     fst ` set (lt_buckets (lts_lim s)) = seen s)"

lemma fails_inv_init: "fails_inv (lt_init c t)"
  by (simp add: fails_inv_def lt_init_def seen_def fails_of_def fails_ok_def bucket_of_def newLimiter_def new_bucket_def)


lemma admit_fails:
  assumes "admit l k b now = (l', le, d)" "fails_ok (lt_cfg l) now fs b"
  shows "fails_ok (lt_cfg l) now fs (bucket_of l' k)"
proof -
  have "bk_failures (bucket_of l' k) = bk_failures (pruneBucket (lt_cfg l) b now)"
    "bk_blockedUntil (bucket_of l' k) = bk_blockedUntil (pruneBucket (lt_cfg l) b now)"
    using assms(1) by (auto simp: admit_def Let_def pruneBucket_def split: if_splits)
  with assms(2) show ?thesis using fails_cong fails_prune by metis
qed

lemma admit_puts: "admit l k b now = (l', le, d) \<Longrightarrow> \<exists>b'. l' = put_bucket l k b'"
  by (auto simp: admit_def Let_def split: if_splits)

lemma admit_others:
  "admit l k b now = (l', le, d) \<Longrightarrow> k' \<noteq> k \<Longrightarrow> bucket_of l' k' = bucket_of l k'"
  "admit l k b now = (l', le, d) \<Longrightarrow> fst ` set (lt_buckets l') = insert k (fst ` set (lt_buckets l))"
  by (metis admit_puts put_bucket_simps(3), metis admit_puts keys_put_bucket)

lemma cancel_fails:
  "fails_ok c now fs (bucket_of (fst (cancelContext l le)) k) = fails_ok c now fs (bucket_of l k)"
  by (rule fails_cong) (simp_all add: cancelContext_def bucket_release)

lemma cancel_keys: "fst ` set (lt_buckets (fst (cancelContext l le))) = fst ` set (lt_buckets l)"
  by (auto simp: cancelContext_def release_slot_def insert_absorb rev_image_eqI dest: map_of_SomeD split: option.split)

lemma success_is_cancel: "successContext l le = cancelContext l le"
  by (simp add: successContext_def cancelContext_def)

lemma failure_fails:
  assumes "fails_ok (lt_cfg l) now fs (bucket_of l k)" "le_key le \<in> fst ` set (lt_buckets l)"
  shows "fails_ok (lt_cfg l) now
    (fs @ (if le_reserved le \<and> \<not> le_committed le \<and> le_key le = k then [now] else []))
    (bucket_of (fst (failureContext l le now)) k)"
proof -
  obtain b where b: "map_of (lt_buckets l) (le_key le) = Some b"
    using assms(2) by (metis map_of_eq_None_iff option.exhaust)
  with fails_record [OF assms(1)] assms(1) show ?thesis
    by (auto simp: failureContext_def) (simp add: bucket_of_def)
qed

lemma failure_keys:
  "fst ` set (lt_buckets (fst (failureContext l le now))) = fst ` set (lt_buckets l)"
  by (auto simp: failureContext_def insert_absorb rev_image_eqI dest: map_of_SomeD split: option.split)

lemma seen_update:
  "i < length xs \<Longrightarrow> sl_key y = sl_key (xs ! i) \<Longrightarrow> sl_key ` set (xs[i := y]) = sl_key ` set xs"
  by (metis list.set_map list_update_id map_update)

lemma fails_inv_step:
  fixes s :: "'r lt_sys"
  assumes "sys_ok s" "fails_inv s" "lt_enabled s e"
  shows "fails_inv (lt_do sh s e)"
proof -
  let ?l = "lts_lim s" and ?xs = "lts_leases s"
  let ?c = "lt_cfg ?l"
  let ?keys = "\<lambda>l. fst ` set (lt_buckets l)"
  have at_now: "\<forall>k. fails_ok ?c now (fails_of s k) (bucket_of ?l k)" "?keys ?l = seen s"
    if "lts_clock s \<le> now" "int (card (seen s)) \<le> maxKeys ?c" for now
    using assms(2) that by (auto simp: fails_inv_def intro: fails_tick)
  show ?thesis
  proof (cases e)
    case (EvBegin k now)
    obtain l' le d where b: "beginLocal ?l k now = (l', le :: 'r lease, d)" by (rule prod_cases3)
    have t: "lts_clock s \<le> now" using assms(3) EvBegin by simp
    have "(\<forall>k'. fails_ok ?c now (fails_of s k') (bucket_of l' k')) \<and> ?keys l' = insert k (seen s)"
      if few: "int (card (insert k (seen s))) \<le> maxKeys ?c"
    proof -
      have "card (seen s) \<le> card (insert k (seen s))" by (rule card_mono) (auto simp: seen_def)
      with few have few': "int (card (seen s)) \<le> maxKeys ?c" by simp
      note f = at_now [OF t few']
      have room: "\<not> maxKeys ?c \<le> int (length (lt_buckets ?l))" if "map_of (lt_buckets ?l) k = None"
      proof -
        have "card (seen s) = length (lt_buckets ?l)"
          using assms(1) by (simp flip: f(2) add: sys_ok_def limiter_ok_def distinct_card [of "map fst (lt_buckets ?l)", simplified])
        moreover have "k \<notin> seen s" using that by (simp add: map_of_eq_None_iff f(2))
        ultimately show ?thesis using few by (simp add: seen_def)
      qed
      show ?thesis
      proof (cases rule: beginLocal_cases [where 'r = 'r, of ?l k now])
        case direct
        with b have a: "admit ?l k (bucket_of ?l k) now = (l', le, d)" by simp
        have "fails_ok ?c now (fails_of s k') (bucket_of l' k')" for k'
          using admit_fails [OF a] admit_others(1) [OF a, of k'] f(1) by (cases "k' = k") auto
        with admit_others(2) [OF a] f(2) show ?thesis by simp
      qed (use room in simp_all)
    qed
    with b EvBegin begin_cfg [OF b] show ?thesis by (simp add: fails_inv_def seen_def fails_of_def)
  next
    case (EvReply i r now)
    obtain l' le d err where f: "finishBegin ?l (sl_lease (?xs ! i)) (sl_decision (?xs ! i)) r = (l', le, d, err)"
      by (rule prod_cases4)
    have i: "i < length ?xs" "lts_clock s \<le> now" using assms(3) EvReply by simp_all
    have "fails_ok ?c now fs (bucket_of l' k) = fails_ok ?c now fs (bucket_of ?l k) \<and> ?keys l' = ?keys ?l" for k fs
      using f by (cases rule: finishBegin_cases) (simp_all add: cancel_fails cancel_keys)
    with f EvReply lt_do_cfg [of sh s e] at_now i show ?thesis
      by (simp add: fails_inv_def seen_def seen_update fails_of_def)
  next
    case (EvClose i x now)
    let ?le = "sl_lease (?xs ! i)"
    obtain l' le res where f: "closeLease x ?l ?le now = (l', le, res)" by (rule prod_cases3)
    have i: "i < length ?xs" "lts_clock s \<le> now" using assms(3) EvClose by simp_all
    let ?new = "\<lambda>k. if x = Failed \<and> le_reserved ?le \<and> \<not> le_committed ?le \<and> sl_key (?xs ! i) = k then [now] else []"
    have key: "le_reserved ?le \<Longrightarrow> le_key ?le = sl_key (?xs ! i)" using assms(1) i(1) by (simp add: sys_ok_def)
    have "fails_ok ?c now (fails_of s k @ ?new k) (bucket_of l' k) \<and> ?keys l' = ?keys ?l"
      if few: "int (card (seen s)) \<le> maxKeys ?c" for k
    proof (cases "x = Failed \<and> le_reserved ?le")
      case True
      have "le_key ?le \<in> ?keys ?l" using True key i(1) at_now(2) [OF i(2) few] by (simp add: seen_def)
      note rec = failure_fails [OF at_now(1) [OF i(2) few, rule_format] this, of k]
      have l': "l' = fst (failureContext ?l ?le now)" using f True by (simp add: closeLease_def)
      have "?keys l' = ?keys ?l" unfolding l' by (rule failure_keys)
      moreover have "fails_ok ?c now (fails_of s k @ ?new k) (bucket_of l' k)"
        using rec True key by (simp add: l')
      ultimately show ?thesis by simp
    next
      case False
      have "l' = fst (cancelContext ?l ?le)"
        using f False by (cases x) (auto simp: closeLease_def success_is_cancel failureContext_def cancelContext_def)
      with False at_now(1) [OF i(2) few] show ?thesis by (auto simp: cancel_fails cancel_keys)
    qed
    moreover have "fails_of (lt_do sh s e) k = fails_of s k @ ?new k" for k
      using f EvClose close_kept [OF f] by (simp add: fails_of_def)
    moreover have "seen (lt_do sh s e) = seen s" using f EvClose i(1) by (simp add: seen_def seen_update)
    ultimately show ?thesis using f EvClose lt_do_cfg [of sh s e] at_now(2) [OF i(2)]
      by (auto simp: fails_inv_def)
  qed
qed

lemma run_fails:
  "lt_run sh ok (lt_init c t) es s \<Longrightarrow> sys_ok s \<and> fails_inv s"
  by (induction rule: lt_run.induct) (auto intro: sys_ok_init fails_inv_init sys_ok_step fails_inv_step)


section \<open>What a run guarantees\<close>

lemma run_step_first:
  assumes "lt_run sh ok (lt_do sh s e) es s'" "lt_enabled s e" "ok s e"
  shows "lt_run sh ok s (e # es) s'"
  using assms(1)
proof (induction rule: lt_run.induct)
  case start
  show ?case using lt_run.event [OF lt_run.start [of sh ok s] assms(2,3)] by simp
next
  case (event es t e')
  then show ?case using lt_run.event [of sh ok s "e # es" t e'] by simp
qed

text \<open>Whether a list of events is a run, by evaluation.\<close>

fun runs :: "bool \<Rightarrow> ('r lt_sys \<Rightarrow> 'r lt_event \<Rightarrow> bool) \<Rightarrow> 'r lt_sys \<Rightarrow> 'r lt_event list \<Rightarrow> bool" where
  "runs sh ok s [] \<longleftrightarrow> True"
| "runs sh ok s (e # es) \<longleftrightarrow> lt_enabled s e \<and> ok s e \<and> runs sh ok (lt_do sh s e) es"

lemma runs_run: "runs sh ok s es \<Longrightarrow> lt_run sh ok s es (foldl (lt_do sh) s es)"
  by (induction es arbitrary: s) (auto intro: lt_run.start run_step_first)

definition demo_config :: lt_config where
  "demo_config = \<lparr> inFlightLimit = 1, lt_window = 5, windowLimit = 3, banWindow = 10, banAfter = 2,
                    banDuration = 20, inFlightTTL = 2, maxKeys = 1 \<rparr>"

definition demo_init :: "int lt_sys" where
  "demo_init = lt_init demo_config 0"

lemmas throttle_eval =
  demo_init_def demo_config_def lt_init_def newLimiter_def lt_default_def beginLocal_def admit_def evict_def
  evictable_def keep_window_def pruneBucket_def failuresWithin_def put_bucket_def new_bucket_def deniedLease_def
  lt_deny_def lt_allow_def finishBegin_def closeLease_def successContext_def cancelContext_def failureContext_def
  record_failure_def release_slot_def zero_time_def duration_defs

definition demo_run :: "int lt_event list" where
  "demo_run = [EvBegin ''a'' 1, EvReply 0 (ReserveDone (Some 7) lt_allow) 1, EvBegin ''a'' 1, EvClose 0 Failed 2,
               EvBegin ''a'' 3, EvReply 2 (ReserveDone (Some 8) lt_allow) 3, EvClose 2 Failed 4, EvClose 2 Cancelled 4]"

text \<open>
  C18. At most \<open>inFlightLimit\<close> logins of one address are open at a time, as long as a
  login is closed before its slot's time to live ends: no burst of parallel logins gets more
  password computations than that.
\<close>

theorem open_logins_bounded:
  assumes "lt_run sh prompt (lt_init c t) es s" "length (lts_leases s) < 2 ^ 64"
  shows "open_count s key (lts_clock s) \<le> inFlightLimit (lt_cfg (lts_lim s))"
proof -
  let ?c = "lt_cfg (lts_lim s)" and ?b = "bucket_of (lts_lim s) key"
  from run_slots [OF assms(1)] assms(2)
  have "slots_ok ?c (lts_clock s) (lts_leases s) key ?b" by (simp add: slots_inv_def)
  then have "open_count s key (lts_clock s) = int (length (fresh_slots ?c (lts_clock s) ?b))"
    by (simp add: slots_ok_def open_count_def)
  also have "\<dots> \<le> int (length (bk_inFlight ?b))" by (simp add: fresh_slots_def)
  also have "\<dots> \<le> inFlightLimit ?c" using bucket_of_ok [OF lt_run_ok [OF assms(1)]] .
  finally show ?thesis .
qed

theorem open_logins_bounded_witness:
  "open_count (foldl (lt_do True) demo_init (take 3 demo_run)) ''a'' 1 \<le> 1"
proof -
  let ?s = "foldl (lt_do True) demo_init (take 3 demo_run)"
  have run: "lt_run True prompt demo_init (take 3 demo_run) ?s" by (rule runs_run) (simp add: demo_run_def throttle_eval)
  have "length (lts_leases ?s) < 2 ^ 64" "lts_clock ?s = 1" "inFlightLimit (lt_cfg (lts_lim ?s)) = 1"
    by (simp_all add: demo_run_def throttle_eval)
  then show ?thesis using open_logins_bounded [OF run [unfolded demo_init_def], folded demo_init_def, of "''a''"] by simp
qed




section \<open>One outcome for a shared reservation\<close>

definition told :: "'r lt_sys \<Rightarrow> nat \<Rightarrow> ('r \<times> lt_outcome) list" where
  "told s i = map snd (filter (\<lambda>m. fst m = i) (lts_sent s))"

definition told_ok :: "'r lease \<Rightarrow> ('r \<times> lt_outcome) list \<Rightarrow> bool" where
  "told_ok le ms \<longleftrightarrow>
     (case le_shared le of None \<Rightarrow> ms = []
      | Some r \<Rightarrow> if le_committed le then \<exists>x. ms = [(r, x)] else ms = [])"

definition shared_inv :: "'r lt_sys \<Rightarrow> bool" where
  "shared_inv s \<longleftrightarrow>
     (\<forall>i < length (lts_leases s). let y = lts_leases s ! i in
        told_ok (sl_lease y) (told s i) \<and> (le_shared (sl_lease y) \<noteq> None \<longrightarrow> le_reserved (sl_lease y)) \<and>
        (sl_pending y \<longrightarrow> le_shared (sl_lease y) = None \<and> le_reserved (sl_lease y) \<and> \<not> le_committed (sl_lease y))) \<and>
     (\<forall>m \<in> set (lts_sent s). fst m < length (lts_leases s))"

lemma close_shared:
  "closeLease x l le now = (l', le', res) \<Longrightarrow>
     res = (if le_committed le \<or> \<not> le_reserved le then None else le_shared le) \<and> le' = le\<lparr> le_committed := True \<rparr>"
  by (cases x) (auto simp: closeLease_def successContext_def cancelContext_def failureContext_def split: if_splits option.splits)

lemma told_none: "shared_inv s \<Longrightarrow> told s (length (lts_leases s)) = []"
  by (auto simp: shared_inv_def told_def filter_empty_conv)

lemma told_other: "lts_sent t = lts_sent s \<Longrightarrow> told t i = told s i"
  by (simp add: told_def)

lemma shared_inv_step:
  fixes s :: "'r lt_sys"
  assumes "shared_inv s" "lt_enabled s e"
  shows "shared_inv (lt_do sh s e)"
proof (cases e)
  case (EvBegin k now)
  obtain l' le d where b: "beginLocal (lts_lim s) k now = (l', le :: 'r lease, d)" by (rule prod_cases3)
  let ?t = "lt_do sh s e"
  have t: "lts_leases ?t = lts_leases s @
      [\<lparr> sl_key = k, sl_begun = now, sl_pending = (ltd_allowed d \<and> sh), sl_decision = d, sl_lease = le \<rparr>]"
    "lts_sent ?t = lts_sent s" using b EvBegin by simp_all
  have told: "told ?t i = told s i" for i by (rule told_other) (rule t)
  show ?thesis
    using assms(1) told_none [OF assms(1)] begin_lease [OF b]
    unfolding shared_inv_def told t by (auto simp: Let_def nth_append less_Suc_eq told_ok_def)
next
  case (EvReply i r now)
  obtain l' le d err where f: "finishBegin (lts_lim s) (sl_lease (lts_leases s ! i)) (sl_decision (lts_leases s ! i)) r
      = (l', le, d, err)" by (rule prod_cases4)
  let ?t = "lt_do sh s e" and ?y = "(lts_leases s ! i)\<lparr> sl_lease := le, sl_decision := d, sl_pending := False \<rparr>"
  have t: "lts_leases ?t = (lts_leases s)[i := ?y]" "lts_sent ?t = lts_sent s" using f EvReply by simp_all
  have told: "told ?t j = told s j" for j by (rule told_other) (rule t)
  have i: "i < length (lts_leases s)" "sl_pending (lts_leases s ! i)" using assms(2) EvReply by simp_all
  with assms(1) have idle: "told s i = []" "le_reserved (sl_lease (lts_leases s ! i))"
    "\<not> le_committed (sl_lease (lts_leases s ! i))"
    by (auto simp: shared_inv_def Let_def told_ok_def)
  from f have "told_ok le (told s i) \<and> (le_shared le \<noteq> None \<longrightarrow> le_reserved le)"
    by (cases rule: finishBegin_cases) (simp_all add: told_ok_def deniedLease_def idle)
  with assms(1) i show ?thesis
    unfolding shared_inv_def told t by (auto simp: Let_def nth_list_update)
next
  case (EvClose i x now)
  let ?le = "sl_lease (lts_leases s ! i)"
  obtain l' le res where f: "closeLease x (lts_lim s) ?le now = (l', le, res)" by (rule prod_cases3)
  let ?t = "lt_do sh s e" and ?y = "(lts_leases s ! i)\<lparr> sl_lease := le \<rparr>"
  let ?new = "case res of None \<Rightarrow> [] | Some r \<Rightarrow> [(i, r, x)]"
  have t: "lts_leases ?t = (lts_leases s)[i := ?y]" "lts_sent ?t = lts_sent s @ ?new" using f EvClose by simp_all
  have i: "i < length (lts_leases s)" "\<not> sl_pending (lts_leases s ! i)" using assms(2) EvClose by simp_all
  have told: "told ?t j = (if j = i then told s i @ map snd ?new else told s j)" for j
    unfolding told_def t by (auto split: option.split)
  have ok: "told_ok ?le (told s i)" "le_shared ?le \<noteq> None \<longrightarrow> le_reserved ?le"
    using assms(1) i(1) by (auto simp: shared_inv_def Let_def)
  then have "told_ok le (told ?t i)" "le_shared le \<noteq> None \<longrightarrow> le_reserved le"
    using close_shared [OF f] unfolding told by (auto simp: told_ok_def split: option.splits if_splits)
  with assms(1) i told show ?thesis
    unfolding shared_inv_def t by (auto simp: Let_def nth_list_update split: option.splits)
qed

text \<open>
  A shared reservation is told exactly one outcome, when its lease is closed, however
  often the lease's methods are called afterwards; before that it is told nothing.
\<close>

theorem shared_outcome_once:
  assumes "lt_run sh ok (lt_init c t) es s" "i < length (lts_leases s)"
    and "le_shared (sl_lease (lts_leases s ! i)) = Some r"
  shows "if le_committed (sl_lease (lts_leases s ! i)) then \<exists>x. told s i = [(r, x)] else told s i = []"
proof -
  have "shared_inv (lt_init c t)" by (simp add: shared_inv_def lt_init_def)
  with assms(1) have "shared_inv s"
    by (induction rule: lt_run.induct) (auto intro: shared_inv_step)
  with assms(2,3) show ?thesis by (auto simp: shared_inv_def Let_def told_ok_def)
qed

theorem shared_outcome_once_witness:
  "\<exists>x. told (foldl (lt_do True) demo_init demo_run) 2 = [(8, x)]"
proof -
  let ?s = "foldl (lt_do True) demo_init demo_run"
  have run: "lt_run True prompt demo_init demo_run ?s" by (rule runs_run) (simp add: demo_run_def throttle_eval)
  have "2 < length (lts_leases ?s)" "le_shared (sl_lease (lts_leases ?s ! 2)) = Some 8"
    "le_committed (sl_lease (lts_leases ?s ! 2))"
    by (simp_all add: demo_run_def throttle_eval)
  then show ?thesis using shared_outcome_once [OF run [unfolded demo_init_def], folded demo_init_def] by metis
qed

section \<open>Why leases must be closed in time\<close>

text \<open>
  Slot identifiers start again when a bucket is evicted, so a lease closed after its time to live
  can release the slot of a later login of the same address, and one login more than the limit runs.
\<close>

definition late_run :: "int lt_event list" where
  "late_run = [EvBegin ''a'' 1, EvBegin ''a'' 4, EvClose 1 Succeeded 4, EvBegin ''b'' 20, EvClose 2 Succeeded 20,
               EvBegin ''a'' 40, EvClose 0 Cancelled 40, EvBegin ''a'' 40]"

lemma late_close_frees_other_slot:
  "lt_run False (\<lambda>_ _. True) demo_init late_run (foldl (lt_do False) demo_init late_run)"
  "open_count (foldl (lt_do False) demo_init late_run) ''a'' 40 = 2"
  "inFlightLimit (lt_cfg (lts_lim (foldl (lt_do False) demo_init late_run))) = 1"
  by (rule runs_run, simp_all add: late_run_def throttle_eval open_count_def open_slot_def)

end
