(* ===== verification/Quota_Window.thy ===== *)
theory Quota_Window
  imports Prelude
begin

text \<open>
  The accounting windows of the quota component (backend/internal/quota/rate_window.go): fixed
  windows aligned to the Unix epoch, calendar days, weeks from Monday and months in UTC, and the
  open manual window. The calendar is the proleptic Gregorian one of package \<open>time\<close>. The windows of
  one policy tile the time line, so that all requests of one window meet in one counter.
\<close>

section \<open>The calendar\<close>

text \<open>Days are counted from 1 January 1970; the cycles of 400, 100, 4 and 1 years start with year 1.\<close>

definition day_length :: duration where
  "day_length = 24 * hour"

definition unix_day :: "instant \<Rightarrow> int" where
  "unix_day t = t div day_length"

definition day_start :: "int \<Rightarrow> instant" where
  "day_start d = d * day_length"

record civil =
  cv_n400 :: int
  cv_n100 :: int
  cv_n4 :: int
  cv_n1 :: int
  cv_yday :: int

definition civil_of :: "int \<Rightarrow> civil" where
  "civil_of d =
     (let a = d + 719162;
          r400 = a mod 146097; n100 = min 3 (r400 div 36524);
          r100 = r400 - 36524 * n100; n4 = r100 div 1461;
          r4 = r100 - 1461 * n4; n1 = min 3 (r4 div 365)
      in \<lparr> cv_n400 = a div 146097, cv_n100 = n100, cv_n4 = n4, cv_n1 = n1, cv_yday = r4 - 365 * n1 \<rparr>)"

definition cv_year :: "civil \<Rightarrow> int" where
  "cv_year c = 400 * cv_n400 c + 100 * cv_n100 c + 4 * cv_n4 c + cv_n1 c + 1"

definition is_leap :: "int \<Rightarrow> bool" where
  "is_leap y \<longleftrightarrow> y mod 4 = 0 \<and> (y mod 100 \<noteq> 0 \<or> y mod 400 = 0)"

definition days_before :: "bool \<Rightarrow> nat \<Rightarrow> int" where
  "days_before leap m = [0, 31, 59, 90, 120, 151, 181, 212, 243, 273, 304, 334, 365] ! m + (if leap \<and> 2 \<le> m then 1 else 0)"

text \<open>The month of a day of the year, counted from 0.\<close>

definition month_of :: "bool \<Rightarrow> int \<Rightarrow> nat" where
  "month_of leap yday = length (filter (\<lambda>m. days_before leap m \<le> yday) [1..<12])"

definition month_bounds :: "int \<Rightarrow> int \<times> int" where
  "month_bounds d =
     (let c = civil_of d; leap = is_leap (cv_year c); m = month_of leap (cv_yday c);
          start = d - (cv_yday c - days_before leap m)
      in (start, start + (days_before leap (m + 1) - days_before leap m)))"

definition days_since_monday :: "int \<Rightarrow> int" where
  "days_since_monday d = ((d + 4) mod 7 + 6) mod 7"

section \<open>The windows\<close>

datatype q_window_kind =
  WindowNone | WindowFixed | WindowCalendarDay | WindowCalendarWeek | WindowCalendarMonth | WindowManual

definition manualWindowStart :: instant where
  "manualWindowStart = 0"

definition manualWindowEnd :: instant where
  "manualWindowEnd = 253370764800 * second"

definition floorUnix :: "int \<Rightarrow> int \<Rightarrow> int" where
  "floorUnix sec w =
     (let remainder = go_rem sec w; remainder = (if remainder < 0 then remainder + w else remainder)
      in sec - remainder)"

definition computeWindow :: "q_window_kind \<Rightarrow> int \<Rightarrow> instant \<Rightarrow> (instant \<times> instant) option" where
  "computeWindow kind secs t =
     (case kind of
        WindowNone \<Rightarrow> None
      | WindowFixed \<Rightarrow>
          if secs \<le> 0 then None
          else (let start = floorUnix (t div second) secs * second in Some (start, start + i64 (secs * second)))
      | WindowCalendarDay \<Rightarrow> Some (day_start (unix_day t), day_start (unix_day t + 1))
      | WindowCalendarWeek \<Rightarrow>
          (let start = unix_day t - days_since_monday (unix_day t) in Some (day_start start, day_start (start + 7)))
      | WindowCalendarMonth \<Rightarrow>
          (case month_bounds (unix_day t) of (start, end) \<Rightarrow> Some (day_start start, day_start end))
      | WindowManual \<Rightarrow> Some (manualWindowStart, manualWindowEnd))"

section \<open>The calendar is consistent\<close>

definition civil_ok :: "civil \<Rightarrow> bool" where
  "civil_ok c \<longleftrightarrow> 0 \<le> cv_n100 c \<and> cv_n100 c \<le> 3 \<and> 0 \<le> cv_n4 c \<and> cv_n4 c \<le> 24 \<and> 0 \<le> cv_n1 c \<and> cv_n1 c \<le> 3 \<and>
     0 \<le> cv_yday c \<and> cv_yday c < 365 + (if is_leap (cv_year c) then 1 else 0)"

definition civil_day :: "civil \<Rightarrow> int" where
  "civil_day c = 146097 * cv_n400 c + 36524 * cv_n100 c + 1461 * cv_n4 c + 365 * cv_n1 c + cv_yday c - 719162"

lemma mod_zero_small: "0 < (x :: int) \<Longrightarrow> x \<le> k \<Longrightarrow> x mod k = 0 \<longleftrightarrow> x = k"
  by (cases "x = k") auto

lemma slack_zero: "0 \<le> a \<Longrightarrow> 0 \<le> b \<Longrightarrow> 0 \<le> c \<Longrightarrow> 100 * a + 4 * b + c = (0 :: int) \<Longrightarrow> a = 0 \<and> b = 0 \<and> c = 0"
  by linarith

lemma leap_cycles:
  assumes "0 \<le> cv_n100 c" "cv_n100 c \<le> 3" "0 \<le> cv_n4 c" "cv_n4 c \<le> 24" "0 \<le> cv_n1 c" "cv_n1 c \<le> 3"
  shows "is_leap (cv_year c) \<longleftrightarrow> cv_n1 c = 3 \<and> (cv_n4 c = 24 \<longrightarrow> cv_n100 c = 3)"
proof -
  let ?e = "cv_n1 c + 1" and ?f = "4 * cv_n4 c + cv_n1 c + 1" and ?g = "100 * cv_n100 c + 4 * cv_n4 c + cv_n1 c + 1"
  have "cv_year c = ?e + 4 * (100 * cv_n400 c + 25 * cv_n100 c + cv_n4 c)" by (simp add: cv_year_def)
  then have "cv_year c mod 4 = ?e mod 4" by (simp only: mod_mult_self2)
  moreover have "?e mod 4 = 0 \<longleftrightarrow> ?e = 4" using assms(5,6) by (intro mod_zero_small) simp_all
  ultimately have y4: "cv_year c mod 4 = 0 \<longleftrightarrow> cv_n1 c = 3" by linarith
  have "cv_year c = ?f + 100 * (4 * cv_n400 c + cv_n100 c)" by (simp add: cv_year_def)
  then have "cv_year c mod 100 = ?f mod 100" by (simp only: mod_mult_self2)
  moreover have "?f mod 100 = 0 \<longleftrightarrow> ?f = 100" using assms(3-6) by (intro mod_zero_small) simp_all
  moreover have "?f = 100 \<longleftrightarrow> cv_n4 c = 24 \<and> cv_n1 c = 3" using assms(3-6) by (intro iffI conjI) linarith+
  ultimately have y100: "cv_year c mod 100 = 0 \<longleftrightarrow> cv_n4 c = 24 \<and> cv_n1 c = 3" by (simp only:)
  have "cv_year c = ?g + 400 * cv_n400 c" by (simp add: cv_year_def)
  then have "cv_year c mod 400 = ?g mod 400" by (simp only: mod_mult_self2)
  moreover have "?g mod 400 = 0 \<longleftrightarrow> ?g = 400" using assms by (intro mod_zero_small) simp_all
  moreover have "?g = 400 \<longleftrightarrow> cv_n100 c = 3 \<and> cv_n4 c = 24 \<and> cv_n1 c = 3"
  proof
    assume "?g = 400"
    then have "100 * (3 - cv_n100 c) + 4 * (24 - cv_n4 c) + (3 - cv_n1 c) = 0" by (simp add: right_diff_distrib)
    from slack_zero [OF _ _ _ this] assms show "cv_n100 c = 3 \<and> cv_n4 c = 24 \<and> cv_n1 c = 3" by simp
  qed simp
  ultimately have y400: "cv_year c mod 400 = 0 \<longleftrightarrow> cv_n100 c = 3 \<and> cv_n4 c = 24 \<and> cv_n1 c = 3" by (simp only:)
  show ?thesis unfolding is_leap_def y4 y100 y400 by blast
qed

lemma cycle_min:
  fixes r k :: int
  assumes "0 \<le> r" "0 < k" "0 \<le> n"
  shows "0 \<le> min n (r div k)" "0 \<le> r - k * min n (r div k)"
    "min n (r div k) < n \<Longrightarrow> r - k * min n (r div k) < k"
proof -
  have r: "k * (r div k) + r mod k = r" "0 \<le> r mod k" "r mod k < k" using assms(2) by simp_all
  have "0 \<le> r div k" using assms(1,2) by (simp add: pos_imp_zdiv_nonneg_iff)
  with assms(3) show "0 \<le> min n (r div k)" by simp
  have "k * min n (r div k) \<le> k * (r div k)" using assms(2) by (intro mult_left_mono) auto
  with r show "0 \<le> r - k * min n (r div k)" by linarith
  show "min n (r div k) < n \<Longrightarrow> r - k * min n (r div k) < k"
    using r(3) by (auto simp: min_def minus_mult_div_eq_mod split: if_splits)
qed

lemma civil_of_day: "civil_day (civil_of d) = d"
  using mult_div_mod_eq [of 146097 "d + 719162"]
  unfolding civil_day_def civil_of_def Let_def civil.simps by linarith

lemma civil_of_ok: "civil_ok (civil_of d)"
proof -
  let ?c = "civil_of d"
  let ?r400 = "(d + 719162) mod 146097"
  let ?r100 = "?r400 - 36524 * cv_n100 ?c"
  let ?r4 = "?r100 - 1461 * cv_n4 ?c"
  have n: "cv_n100 ?c = min 3 (?r400 div 36524)" "cv_n4 ?c = ?r100 div 1461" "cv_n1 ?c = min 3 (?r4 div 365)"
    "cv_yday ?c = ?r4 - 365 * cv_n1 ?c" by (simp_all only: civil_of_def Let_def civil.simps)
  have r400: "0 \<le> ?r400" "?r400 < 146097" by simp_all
  have k: "0 < (36524 :: int)" "0 < (365 :: int)" "0 \<le> (3 :: int)" by simp_all
  note c100 = cycle_min [OF r400(1) k(1,3), folded n(1)]
  have b100: "0 \<le> cv_n100 ?c" "cv_n100 ?c \<le> 3" "0 \<le> ?r100" "?r100 \<le> 36524" "cv_n100 ?c < 3 \<Longrightarrow> ?r100 < 36524"
  proof -
    show n3: "cv_n100 ?c \<le> 3" unfolding n(1) by simp
    show "0 \<le> cv_n100 ?c" by (fact c100(1))
    show "0 \<le> ?r100" by (fact c100(2))
    show less: "cv_n100 ?c < 3 \<Longrightarrow> ?r100 < 36524" by (fact c100(3))
    show "?r100 \<le> 36524"
    proof (cases "cv_n100 ?c = 3")
      case True
      with r400(2) show ?thesis by simp
    next
      case False
      with less n3 show ?thesis by simp
    qed
  qed
  have m4: "?r4 = ?r100 mod 1461" unfolding n(2) by (simp add: minus_mult_div_eq_mod)
  have "?r100 div 1461 \<le> 24" using zdiv_mono1 [OF b100(4), of 1461] by simp
  then have b4: "0 \<le> cv_n4 ?c" "cv_n4 ?c \<le> 24" "0 \<le> ?r4" "?r4 < 1461"
    using b100(3) unfolding m4 unfolding n(2) by (simp_all only: pos_imp_zdiv_nonneg_iff pos_mod_sign pos_mod_bound zero_less_numeral)
  note c1 = cycle_min [OF b4(3) k(2,3), folded n(3), folded n(4)]
  have b1: "0 \<le> cv_n1 ?c" "cv_n1 ?c \<le> 3" "0 \<le> cv_yday ?c" "cv_yday ?c \<le> 365" "cv_n1 ?c < 3 \<Longrightarrow> cv_yday ?c < 365"
  proof -
    show n3: "cv_n1 ?c \<le> 3" unfolding n(3) by simp
    show "0 \<le> cv_n1 ?c" by (fact c1(1))
    show "0 \<le> cv_yday ?c" by (fact c1(2))
    show less: "cv_n1 ?c < 3 \<Longrightarrow> cv_yday ?c < 365" by (fact c1(3))
    show "cv_yday ?c \<le> 365"
    proof (cases "cv_n1 ?c = 3")
      case True
      with b4(4) show ?thesis unfolding n(4) by simp
    next
      case False
      with less n3 show ?thesis by simp
    qed
  qed
  have "cv_yday ?c < 365" if "\<not> is_leap (cv_year ?c)"
  proof (cases "cv_n1 ?c = 3")
    case True
    with that b100(1,2) b4(1,2) b1(1,2) leap_cycles [of ?c] have "cv_n4 ?c = 24" "cv_n100 ?c < 3" by auto
    then show ?thesis using b100(5) True n(4) by simp
  next
    case False
    with b1(2,5) show ?thesis by simp
  qed
  with b100 b4 b1 show ?thesis unfolding civil_ok_def by auto
qed

text \<open>A day has one date, so moving within a year changes the day of the year only.\<close>

lemma civil_unique:
  assumes "civil_ok c"
  shows "civil_of (civil_day c) = c"
proof -
  let ?r1 = "365 * cv_n1 c + cv_yday c"
  let ?r4 = "1461 * cv_n4 c + ?r1"
  let ?r100 = "36524 * cv_n100 c + ?r4"
  have b: "0 \<le> cv_n100 c" "cv_n100 c \<le> 3" "0 \<le> cv_n4 c" "cv_n4 c \<le> 24" "0 \<le> cv_n1 c" "cv_n1 c \<le> 3"
    "0 \<le> cv_yday c" "cv_yday c < 365 \<or> cv_yday c = 365 \<and> cv_n1 c = 3 \<and> (cv_n4 c = 24 \<longrightarrow> cv_n100 c = 3)"
    using assms leap_cycles [of c] by (auto simp: civil_ok_def split: if_splits)
  have r1: "0 \<le> ?r1" "?r1 < 1461" "min 3 (?r1 div 365) = cv_n1 c"
  proof -
    show "0 \<le> ?r1" "?r1 < 1461" using b by auto
    show "min 3 (?r1 div 365) = cv_n1 c"
    proof (cases "cv_yday c < 365")
      case True
      then have "?r1 div 365 = cv_n1 c" using b(7) by simp
      with b(6) show ?thesis by simp
    next
      case False
      with b(8) show ?thesis by simp
    qed
  qed
  have r4: "?r4 div 1461 = cv_n4 c" using r1 by simp
  have m: "min 3 (?r100 div 36524) = cv_n100 c"
  proof (cases "?r4 < 36524")
    case True
    then have "?r100 div 36524 = cv_n100 c" using b r1 by simp
    with b(2) show ?thesis by simp
  next
    case False
    then have "cv_n4 c = 24" "cv_n1 c = 3" "cv_yday c = 365" using b r1 by auto
    with b(8) show ?thesis by simp
  qed
  have r100: "0 \<le> ?r100" "?r100 < 146097" using b by auto
  have a: "civil_day c + 719162 = 146097 * cv_n400 c + ?r100" by (simp add: civil_day_def)
  have md: "(146097 * cv_n400 c + ?r100) mod 146097 = ?r100" "(146097 * cv_n400 c + ?r100) div 146097 = cv_n400 c"
    using r100 by simp_all
  have rest: "?r100 - 36524 * cv_n100 c = ?r4" "?r4 - 1461 * cv_n4 c = ?r1" "?r1 - 365 * cv_n1 c = cv_yday c"
    by simp_all
  show ?thesis
    unfolding civil_of_def Let_def a md m unfolding rest(1) r4 unfolding rest(2) r1(3) rest(3) by simp
qed

lemma civil_shift:
  assumes "0 \<le> cv_yday (civil_of d) + k"
    and "cv_yday (civil_of d) + k < 365 + (if is_leap (cv_year (civil_of d)) then 1 else 0)"
  shows "civil_of (d + k) = (civil_of d)\<lparr> cv_yday := cv_yday (civil_of d) + k \<rparr>"
proof -
  let ?c = "(civil_of d)\<lparr> cv_yday := cv_yday (civil_of d) + k \<rparr>"
  have "cv_year ?c = cv_year (civil_of d)" by (simp add: cv_year_def)
  then have "civil_ok ?c" using civil_of_ok [of d] assms by (simp add: civil_ok_def)
  moreover have "civil_day ?c = d + k" using civil_of_day [of d] by (simp add: civil_day_def)
  ultimately show ?thesis using civil_unique by metis
qed

lemma days_before_mono: "m \<le> n \<Longrightarrow> n \<le> 12 \<Longrightarrow> days_before leap m \<le> days_before leap n"
proof (induction n)
  case 0
  then show ?case by simp
next
  case (Suc n)
  have "days_before leap n \<le> days_before leap (Suc n)" if "n < 12"
    using that by (auto simp: days_before_def less_Suc_eq numeral_eq_Suc)
  with Suc show ?case by (cases "m = Suc n") auto
qed

lemma count_below:
  fixes f :: "nat \<Rightarrow> int"
  assumes "\<And>i j. i \<le> j \<Longrightarrow> j \<le> n \<Longrightarrow> f i \<le> f j" "f 0 \<le> y" "0 < n"
  defines "m \<equiv> length (filter (\<lambda>i. f i \<le> y) [1..<n])"
  shows "m < n" "f m \<le> y" "m + 1 < n \<Longrightarrow> y < f (m + 1)"
proof -
  have "m < n \<and> f m \<le> y \<and> (m + 1 < n \<longrightarrow> y < f (m + 1))"
    using assms(1-3) unfolding m_def
  proof (induction n)
    case 0
    then show ?case by simp
  next
    case (Suc n)
    let ?m = "length (filter (\<lambda>i. f i \<le> y) [1..<n])"
    show ?case
    proof (cases "n = 0")
      case True
      with Suc.prems show ?thesis by simp
    next
      case False
      with Suc have IH: "?m < n" "f ?m \<le> y" "?m + 1 < n \<longrightarrow> y < f (?m + 1)" by simp_all
      have "?m + 1 = n" if "f n \<le> y"
        using IH that Suc.prems(1) [of "?m + 1" n] by (cases "?m + 1 < n") auto
      with IH False show ?thesis by (auto simp: not_le) (metis Suc_lessI)
    qed
  qed
  then show "m < n" "f m \<le> y" "m + 1 < n \<Longrightarrow> y < f (m + 1)" by simp_all
qed

lemma month_of_bounds:
  assumes "0 \<le> y" "y < 365 + (if leap then 1 else 0)"
  shows "days_before leap (month_of leap y) \<le> y" "y < days_before leap (month_of leap y + 1)"
    "month_of leap y < 12"
proof -
  have ends: "days_before leap 0 = 0" "days_before leap 12 = 365 + (if leap then 1 else 0)"
    by (simp_all add: days_before_def)
  have mono: "i \<le> j \<Longrightarrow> j \<le> 12 \<Longrightarrow> days_before leap i \<le> days_before leap j" for i j by (rule days_before_mono)
  have "days_before leap 0 \<le> y" using assms(1) ends(1) by simp
  note m = count_below [where n = 12 and f = "days_before leap" and y = y, OF mono this, folded month_of_def]
  show "month_of leap y < 12" "days_before leap (month_of leap y) \<le> y" using m by simp_all
  show "y < days_before leap (month_of leap y + 1)"
  proof (cases "month_of leap y + 1 < 12")
    case True
    with m(3) show ?thesis by simp
  next
    case False
    with m(1) have "month_of leap y + 1 = 12" by simp
    with ends(2) assms(2) show ?thesis by simp
  qed
qed

lemma month_of_unique:
  assumes "0 \<le> y" "y < 365 + (if leap then 1 else 0)" "m < 12" "days_before leap m \<le> y" "y < days_before leap (m + 1)"
  shows "month_of leap y = m"
proof (rule linorder_cases [of "month_of leap y" m])
  assume "month_of leap y < m"
  then have "days_before leap (month_of leap y + 1) \<le> days_before leap m" using assms(3) by (intro days_before_mono) auto
  with month_of_bounds(2) [OF assms(1,2)] assms(4) show ?thesis by simp
next
  assume "m < month_of leap y"
  then have "days_before leap (m + 1) \<le> days_before leap (month_of leap y)"
    using month_of_bounds(3) [OF assms(1,2)] by (intro days_before_mono) auto
  with month_of_bounds(1) [OF assms(1,2)] assms(5) show ?thesis by simp
qed


section \<open>The windows tile the time line\<close>

lemma le_div_iff: "0 < (k :: int) \<Longrightarrow> d \<le> t div k \<longleftrightarrow> d * k \<le> t"
proof
  assume k: "0 < k" and "d \<le> t div k"
  then have "d * k \<le> (t div k) * k" by (intro mult_right_mono) auto
  also have "\<dots> \<le> t" using k by (metis add_le_same_cancel2 add.commute div_mult_mod_eq pos_mod_sign le_add_same_cancel1)
  finally show "d * k \<le> t" .
next
  assume k: "0 < k" and "d * k \<le> t"
  then have "d * k div k \<le> t div k" by (intro zdiv_mono1)
  with k show "d \<le> t div k" by simp
qed

lemma day_length_pos: "0 < day_length"
  by (simp add: day_length_def duration_defs)

lemma day_start_le: "day_start d \<le> t \<longleftrightarrow> d \<le> unix_day t"
  using le_div_iff [OF day_length_pos] by (simp add: day_start_def unix_day_def)

lemma in_days: "day_start d \<le> t \<and> t < day_start e \<longleftrightarrow> d \<le> unix_day t \<and> unix_day t < e"
  using day_start_le [of d t] day_start_le [of e t] by linarith

lemma floorUnix_mod: "0 < w \<Longrightarrow> floorUnix sec w = sec - sec mod w"
proof -
  assume w: "0 < w"
  have "(if go_rem sec w < 0 then go_rem sec w + w else go_rem sec w) = sec mod w"
  proof (cases "0 \<le> sec")
    case True
    moreover have "\<not> sec mod w < 0" using pos_mod_sign [OF w] by (simp only: not_less)
    ultimately show ?thesis using w by (simp only: go_rem_pos if_True if_False)
  next
    case False
    with w show ?thesis using pos_mod_bound [of w sec] by (simp add: go_rem_pos zmod_zminus1_eq_if)
  qed
  then show ?thesis by (simp add: floorUnix_def Let_def)
qed

lemma fixed_window:
  assumes "0 < w"
  shows "floorUnix (t div second) w * second \<le> t" "t < (floorUnix (t div second) w + w) * second"
    "floorUnix (t div second) w * second \<le> t' \<Longrightarrow> t' < (floorUnix (t div second) w + w) * second \<Longrightarrow>
       floorUnix (t' div second) w = floorUnix (t div second) w"
proof -
  have s: "0 < second" by (simp add: duration_defs)
  have in_secs: "a * second \<le> x \<and> x < b * second \<longleftrightarrow> a \<le> x div second \<and> x div second < b" for a b x
    using le_div_iff [OF s, of a x] le_div_iff [OF s, of b x] by linarith
  let ?x = "t div second"
  have m: "0 \<le> ?x mod w" "?x mod w < w" using assms by simp_all
  have "floorUnix ?x w \<le> ?x \<and> ?x < floorUnix ?x w + w" using m by (simp add: floorUnix_mod [OF assms])
  with in_secs [of "floorUnix ?x w" t "floorUnix ?x w + w"]
  show "floorUnix (t div second) w * second \<le> t" "t < (floorUnix (t div second) w + w) * second" by simp_all
  assume "floorUnix ?x w * second \<le> t'" "t' < (floorUnix ?x w + w) * second"
  with in_secs [of "floorUnix ?x w" t' "floorUnix ?x w + w"]
  have y: "?x - ?x mod w \<le> t' div second" "t' div second < ?x - ?x mod w + w"
    by (simp_all add: floorUnix_mod [OF assms])
  have "?x - ?x mod w = w * (?x div w)" by (simp add: minus_mod_eq_mult_div)
  with y have "t' div second = w * (?x div w) + (t' div second - w * (?x div w))"
    "0 \<le> t' div second - w * (?x div w)" "t' div second - w * (?x div w) < w" by simp_all
  then have "t' div second div w = ?x div w" using assms
    by (metis add.commute add_cancel_left_right div_mult_self2 div_pos_pos_trivial less_numeral_extra(3))
  then show "floorUnix (t' div second) w = floorUnix ?x w"
    by (simp add: floorUnix_mod [OF assms] minus_mod_eq_mult_div)
qed

lemma week_start: "d - days_since_monday d = 7 * ((d + 3) div 7) - 3"
proof -
  have "days_since_monday d = (d + 4 + 6) mod 7" unfolding days_since_monday_def by (rule mod_add_left_eq)
  also have "d + 4 + 6 = (d + 3) + 7" by simp
  also have "((d + 3) + 7) mod 7 = (d + 3) mod 7" by (rule mod_add_self2)
  finally show ?thesis using mult_div_mod_eq [of 7 "d + 3"] by linarith
qed

lemma week_tiles:
  "d - days_since_monday d \<le> d" "d < d - days_since_monday d + 7"
  "d - days_since_monday d \<le> d' \<Longrightarrow> d' < d - days_since_monday d + 7 \<Longrightarrow>
     d' - days_since_monday d' = d - days_since_monday d"
proof -
  have in_week: "7 * a \<le> x \<and> x < 7 * (a + 1) \<longleftrightarrow> x div 7 = a" for a x :: int
    using le_div_iff [of 7 a x] le_div_iff [of 7 "a + 1" x] by (simp only: mult.commute) linarith
  show "d - days_since_monday d \<le> d" "d < d - days_since_monday d + 7"
    using in_week [of "(d + 3) div 7" "d + 3"] unfolding week_start by linarith+
  assume "d - days_since_monday d \<le> d'" "d' < d - days_since_monday d + 7"
  then have "(d' + 3) div 7 = (d + 3) div 7"
    using in_week [of "(d + 3) div 7" "d' + 3"] unfolding week_start by linarith
  then show "d' - days_since_monday d' = d - days_since_monday d" unfolding week_start by simp
qed

lemma month_tiles:
  assumes "month_bounds d = (s, e)"
  shows "s \<le> d" "d < e" "s \<le> d' \<Longrightarrow> d' < e \<Longrightarrow> month_bounds d' = (s, e)"
proof -
  let ?c = "civil_of d"
  let ?leap = "is_leap (cv_year ?c)" and ?y = "cv_yday ?c"
  let ?m = "month_of ?leap ?y"
  have y: "0 \<le> ?y" "?y < 365 + (if ?leap then 1 else 0)" using civil_of_ok [of d] by (simp_all add: civil_ok_def)
  note m = month_of_bounds [OF y]
  have se: "s = d - (?y - days_before ?leap ?m)" "e = d - ?y + days_before ?leap (?m + 1)"
    using assms by (simp_all add: month_bounds_def Let_def)
  with m show "s \<le> d" "d < e" by simp_all
  assume d': "s \<le> d'" "d' < e"
  let ?k = "d' - d"
  have b: "days_before ?leap ?m \<le> ?y + ?k" "?y + ?k < days_before ?leap (?m + 1)" using d' se by simp_all
  have "days_before ?leap 0 \<le> days_before ?leap ?m" "days_before ?leap (?m + 1) \<le> days_before ?leap 12"
    using m(3) by (intro days_before_mono; simp)+
  then have in_year: "0 \<le> ?y + ?k" "?y + ?k < 365 + (if ?leap then 1 else 0)"
    using b by (simp_all add: days_before_def [of _ 0] days_before_def [of _ 12])
  have "month_of ?leap (?y + ?k) = ?m" using month_of_unique [OF in_year m(3) b] .
  moreover have "civil_of d' = ?c\<lparr> cv_yday := ?y + ?k \<rparr>" using civil_shift [OF in_year] by simp
  ultimately show "month_bounds d' = (s, e)"
    by (simp add: month_bounds_def Let_def se cv_year_def)
qed

text \<open>
  C19. The windows of a policy tile the time line: the window of an instant contains it, and
  every other instant of that window has the same window, for fixed windows and for calendar days,
  weeks and months, leap years included.
\<close>

theorem windows_tile:
  assumes "computeWindow kind secs t = Some (s, e)" "kind \<noteq> WindowManual"
    and "kind = WindowFixed \<Longrightarrow> in_i64 (secs * second)"
  shows "s \<le> t \<and> t < e \<and> (\<forall>t'. s \<le> t' \<and> t' < e \<longrightarrow> computeWindow kind secs t' = Some (s, e))"
proof (cases kind)
  case WindowFixed
  let ?w = "\<lambda>t. floorUnix (t div second) secs"
  have pos: "0 < secs" using assms(1) WindowFixed by (simp add: computeWindow_def split: if_splits)
  have win: "computeWindow kind secs t' = Some (?w t' * second, (?w t' + secs) * second)" for t'
    using WindowFixed pos assms(3) by (simp add: computeWindow_def Let_def distrib_right)
  then have se: "s = ?w t * second" "e = (?w t + secs) * second" using assms(1) by simp_all
  have "?w t' = ?w t" if "s \<le> t'" "t' < e" for t' using fixed_window(3) [OF pos] that unfolding se .
  then have "computeWindow kind secs t' = Some (s, e)" if "s \<le> t'" "t' < e" for t' using that unfolding se win by metis
  moreover have "s \<le> t" "t < e" using fixed_window(1,2) [OF pos, of t] unfolding se by simp_all
  ultimately show ?thesis by blast
next
  case WindowCalendarDay
  have win: "computeWindow kind secs t' = Some (day_start (unix_day t'), day_start (unix_day t' + 1))" for t'
    unfolding computeWindow_def WindowCalendarDay by simp
  then have se: "s = day_start (unix_day t)" "e = day_start (unix_day t + 1)" using assms(1) by simp_all
  have "unix_day t' = unix_day t" if "s \<le> t'" "t' < e" for t'
    using that in_days [of "unix_day t" t' "unix_day t + 1"] unfolding se by linarith
  then have "computeWindow kind secs t' = Some (s, e)" if "s \<le> t'" "t' < e" for t' using that win se by metis
  moreover have "s \<le> t" "t < e" using in_days [of "unix_day t" t "unix_day t + 1"] unfolding se by linarith+
  ultimately show ?thesis by blast
next
  case WindowCalendarWeek
  let ?m = "\<lambda>t. unix_day t - days_since_monday (unix_day t)"
  have win: "computeWindow kind secs t' = Some (day_start (?m t'), day_start (?m t' + 7))" for t'
    unfolding computeWindow_def WindowCalendarWeek Let_def by simp
  then have se: "s = day_start (?m t)" "e = day_start (?m t + 7)" using assms(1) by simp_all
  have "?m t' = ?m t" if "s \<le> t'" "t' < e" for t'
    using that in_days [of "?m t" t' "?m t + 7"] unfolding se by (intro week_tiles(3)) linarith+
  then have "computeWindow kind secs t' = Some (s, e)" if "s \<le> t'" "t' < e" for t' using that win se by metis
  moreover have "s \<le> t" "t < e"
    using in_days [of "?m t" t "?m t + 7"] week_tiles(1,2) [of "unix_day t"] unfolding se by linarith+
  ultimately show ?thesis by blast
next
  case WindowCalendarMonth
  have win: "computeWindow kind secs t' = Some (day_start (fst (month_bounds (unix_day t'))), day_start (snd (month_bounds (unix_day t'))))" for t'
    unfolding computeWindow_def WindowCalendarMonth by (simp add: case_prod_beta')
  obtain a b where ab: "month_bounds (unix_day t) = (a, b)" by fastforce
  then have se: "s = day_start a" "e = day_start b" using assms(1) win [of t] by simp_all
  have "month_bounds (unix_day t') = (a, b)" if "s \<le> t'" "t' < e" for t'
    using that in_days [of a t' b] unfolding se by (intro month_tiles(3) [OF ab]) linarith+
  then have "computeWindow kind secs t' = Some (s, e)" if "s \<le> t'" "t' < e" for t' using that win [of t'] se by simp
  moreover have "s \<le> t" "t < e" using in_days [of a t b] month_tiles(1,2) [OF ab] unfolding se by linarith+
  ultimately show ?thesis by blast
qed (use assms in \<open>simp_all add: computeWindow_def\<close>)

text \<open>February of a leap year: 29 February 2024 lies in the window from 1 February to 1 March.\<close>

theorem windows_tile_witness:
  "computeWindow WindowCalendarMonth 0 (day_start 19782 + hour) = Some (day_start 19754, day_start 19783) \<and>
   computeWindow WindowCalendarMonth 0 (day_start 19754) = Some (day_start 19754, day_start 19783)"
proof -
  have day: "unix_day (day_start 19782 + hour) = 19782" by (simp add: unix_day_def day_start_def day_length_def duration_defs)
  have civil: "civil_of 19782 = \<lparr> cv_n400 = 5, cv_n100 = 0, cv_n4 = 5, cv_n1 = 3, cv_yday = 59 \<rparr>"
    by code_simp
  have leap: "is_leap (cv_year (civil_of 19782))" by (simp add: civil is_leap_def cv_year_def)
  have month: "month_of True 59 = 1" by (simp add: month_of_def days_before_def upt_rec)
  have "month_bounds 19782 = (19754, 19783)" using leap by (simp add: month_bounds_def civil month days_before_def)
  then have w: "computeWindow WindowCalendarMonth 0 (day_start 19782 + hour) = Some (day_start 19754, day_start 19783)"
    by (simp add: computeWindow_def day)
  have "day_start 19754 \<le> day_start 19754 \<and> day_start 19754 < day_start 19783"
    by (simp add: day_start_def day_length_def duration_defs)
  with windows_tile [OF w] w show ?thesis by simp
qed

end
