(* ===== verification/Quota_Policy.thy ===== *)
theory Quota_Policy
  imports Complex_Main Quota_Window "HOL-Library.List_Lexorder" "HOL-Library.Char_ord" "HOL-Library.Product_Lexorder"
begin

text \<open>
  Quota policies (backend/internal/quota/types.go, policy.go): scopes, metrics and modes, the
  normalisation of a request's scopes, and the resolution of the policies a request is subject to,
  in the order in which their rows are locked.

  Amounts are decimals with a finite expansion; the columns hold eight digits after the point. The
  model uses rational numbers, which contain them, and the operations on them are exact.
\<close>

section \<open>Scopes, metrics, modes\<close>

text \<open>The Go strings as datatypes of the declared constants, the empty kind included.\<close>

datatype q_scope_kind =
  ScopeUnset | ScopeGlobal | ScopeUser | ScopeAPIKey | ScopeChannel | ScopePoolGroup | ScopeProviderAccount

record q_scope =
  sc_tenant :: int
  sc_kind :: q_scope_kind
  sc_id :: string

datatype q_metric = MetricRequests | MetricCostUSD | MetricTokensEstimated | MetricConcurrency

datatype q_mode = ModeEnforce | ModeObserve | ModeManualFirst | ModeDisabled

record q_window =
  qw_kind :: q_window_kind
  qw_seconds :: int
  qw_start :: instant
  qw_end :: instant

record q_policy =
  qp_tenant :: int
  qp_id :: int
  qp_scope :: q_scope
  qp_selector :: string
  qp_metric :: q_metric
  qp_window :: q_window
  qp_limit :: rat
  qp_burst :: rat
  qp_mode :: q_mode
  qp_priority :: int
  qp_validFrom :: instant
  qp_validUntil :: "instant option"

definition scopeLockOrder :: "q_scope_kind \<Rightarrow> int" where
  "scopeLockOrder k =
     (case k of ScopeGlobal \<Rightarrow> 0 | ScopeUser \<Rightarrow> 1 | ScopeAPIKey \<Rightarrow> 2 | ScopeChannel \<Rightarrow> 3 | ScopePoolGroup \<Rightarrow> 4
      | _ \<Rightarrow> 100)"

definition metricOrder :: "q_metric \<Rightarrow> int" where
  "metricOrder m =
     (case m of MetricRequests \<Rightarrow> 0 | MetricCostUSD \<Rightarrow> 1 | MetricTokensEstimated \<Rightarrow> 2 | MetricConcurrency \<Rightarrow> 3)"

text \<open>The metrics are ordered as their windows are locked.\<close>

instantiation q_metric :: linorder
begin

definition less_eq_q_metric :: "q_metric \<Rightarrow> q_metric \<Rightarrow> bool" where
  "less_eq_q_metric m n \<longleftrightarrow> metricOrder m \<le> metricOrder n"

definition less_q_metric :: "q_metric \<Rightarrow> q_metric \<Rightarrow> bool" where
  "less_q_metric m n \<longleftrightarrow> metricOrder m < metricOrder n"

instance
  by standard (auto simp: less_eq_q_metric_def less_q_metric_def metricOrder_def split: q_metric.splits)

end

section \<open>Normalisation\<close>

text \<open>
  \<open>lower\<close> stands for \<open>strings.ToLower(norm.NFC.String(s))\<close>: the normal form comes from another
  package.
\<close>

type_synonym lowering = "string \<Rightarrow> string"

definition aliasNormalize :: "lowering \<Rightarrow> string \<Rightarrow> string" where
  "aliasNormalize lower alias =
     (if alias = [] then [] else (let trimmed = trim_space alias in if trimmed = [] then [] else lower trimmed))"

definition normalizeRequestedModel :: "lowering \<Rightarrow> string \<Rightarrow> string" where
  "normalizeRequestedModel lower model = aliasNormalize lower model"

definition modelSelectorAll :: string where
  "modelSelectorAll = ''*''"

definition normalizeModelSelector :: "lowering \<Rightarrow> string \<Rightarrow> string" where
  "normalizeModelSelector lower s = (if s = [] \<or> s = modelSelectorAll then modelSelectorAll else aliasNormalize lower s)"

definition normalizeScopeID :: "q_scope_kind \<Rightarrow> string \<Rightarrow> string" where
  "normalizeScopeID k i = (if k = ScopeGlobal \<and> i = [] then ''*'' else i)"

definition scope_key :: "q_scope \<Rightarrow> q_scope_kind \<times> string" where
  "scope_key s = (sc_kind s, sc_id s)"

fun add_scopes :: "int \<Rightarrow> q_scope list \<Rightarrow> (q_scope_kind \<times> string) set \<Rightarrow> q_scope list" where
  "add_scopes t [] seen = []"
| "add_scopes t (s # ss) seen =
     (if sc_kind s = ScopeUnset then add_scopes t ss seen
      else (let s' = s\<lparr> sc_tenant := t, sc_id := normalizeScopeID (sc_kind s) (sc_id s) \<rparr>
            in if scope_key s' \<in> seen then add_scopes t ss seen
               else s' # add_scopes t ss (insert (scope_key s') seen)))"

definition scope_less :: "q_scope \<Rightarrow> q_scope \<Rightarrow> bool" where
  "scope_less a b =
     (if scopeLockOrder (sc_kind a) \<noteq> scopeLockOrder (sc_kind b)
      then scopeLockOrder (sc_kind a) < scopeLockOrder (sc_kind b) else sc_id a < sc_id b)"

definition normalizeScopes :: "int \<Rightarrow> q_scope list \<Rightarrow> q_scope list" where
  "normalizeScopes t ss = stable_sort scope_less (add_scopes t ss {})"

definition normalizeMetrics :: "q_metric list \<Rightarrow> q_metric list" where
  "normalizeMetrics ms =
     (if ms = [] then [MetricRequests, MetricCostUSD, MetricTokensEstimated, MetricConcurrency]
      else rev (remdups (rev ms)))"

definition scopeTupleSet :: "int \<Rightarrow> q_scope list \<Rightarrow> (q_scope_kind \<times> string) set" where
  "scopeTupleSet t ss = set (map scope_key (normalizeScopes t ss))"

definition global_scope :: "int \<Rightarrow> q_scope" where
  "global_scope t = \<lparr> sc_tenant = t, sc_kind = ScopeGlobal, sc_id = ''*'' \<rparr>"

definition normalizeScopesForResolution :: "int \<Rightarrow> q_scope list \<Rightarrow> q_scope list" where
  "normalizeScopesForResolution t ss =
     (let normalized = normalizeScopes t ss
      in if \<exists>s \<in> set normalized. sc_kind s = ScopeGlobal \<and> sc_id s = ''*'' then normalized
         else global_scope t # normalized)"

section \<open>Windows of a policy\<close>

text \<open>\<open>resolvePolicyWindow\<close> fills in the bounds of the window of an instant.\<close>

definition open_start :: "instant \<Rightarrow> instant" where
  "open_start validFrom = (if validFrom = zero_time then manualWindowStart else validFrom)"

definition resolvePolicyWindow :: "q_policy \<Rightarrow> instant \<Rightarrow> q_window" where
  "resolvePolicyWindow p t =
     (let w = qp_window p; opened = w\<lparr> qw_start := open_start (qp_validFrom p), qw_end := manualWindowEnd \<rparr>
      in if qw_kind w = WindowManual then opened
         else case computeWindow (qw_kind w) (qw_seconds w) t of
                Some (s, e) \<Rightarrow> w\<lparr> qw_start := s, qw_end := e \<rparr>
              | None \<Rightarrow> if qw_kind w = WindowNone then opened else w)"

text \<open>\<open>serviceWindowForPolicy\<close> refuses a window that cannot be computed.\<close>

definition serviceWindowForPolicy :: "q_policy \<Rightarrow> instant \<Rightarrow> q_window option" where
  "serviceWindowForPolicy p t =
     (let w = qp_window p
      in case qw_kind w of
           WindowNone \<Rightarrow> Some (w\<lparr> qw_start := open_start (qp_validFrom p), qw_end := manualWindowEnd \<rparr>)
         | WindowManual \<Rightarrow> Some (w\<lparr> qw_start := open_start (qp_validFrom p), qw_end := manualWindowEnd \<rparr>)
         | k \<Rightarrow> (case computeWindow k (qw_seconds w) t of
                   Some (s, e) \<Rightarrow> Some (w\<lparr> qw_start := s, qw_end := e \<rparr>) | None \<Rightarrow> None))"

section \<open>Resolution\<close>

definition policy_less :: "q_policy \<Rightarrow> q_policy \<Rightarrow> bool" where
  "policy_less a b =
     (if scopeLockOrder (sc_kind (qp_scope a)) \<noteq> scopeLockOrder (sc_kind (qp_scope b))
      then scopeLockOrder (sc_kind (qp_scope a)) < scopeLockOrder (sc_kind (qp_scope b))
      else if sc_id (qp_scope a) \<noteq> sc_id (qp_scope b) then sc_id (qp_scope a) < sc_id (qp_scope b)
      else if qp_metric a \<noteq> qp_metric b then qp_metric a < qp_metric b
      else if qp_selector a \<noteq> qp_selector b then
        (if qp_selector a = modelSelectorAll then True
         else if qp_selector b = modelSelectorAll then False else qp_selector a < qp_selector b)
      else if qp_priority a \<noteq> qp_priority b then qp_priority a < qp_priority b
      else qp_id a < qp_id b)"

text \<open>The policies of the store that concern the request, normalised.\<close>

definition policy_admitted :: "lowering \<Rightarrow> int \<Rightarrow> q_scope list \<Rightarrow> string \<Rightarrow> q_metric list \<Rightarrow> q_policy \<Rightarrow> bool" where
  "policy_admitted lower tenant scopes model metrics p \<longleftrightarrow>
     qp_tenant p = tenant \<and> qp_mode p \<noteq> ModeDisabled \<and>
     (sc_kind (qp_scope p), normalizeScopeID (sc_kind (qp_scope p)) (sc_id (qp_scope p))) \<in> scopeTupleSet tenant scopes \<and>
     qp_metric p \<in> set (normalizeMetrics metrics) \<and>
     (normalizeModelSelector lower (qp_selector p) = modelSelectorAll \<or>
      normalizeModelSelector lower (qp_selector p) = normalizeRequestedModel lower model)"

definition policy_resolved :: "lowering \<Rightarrow> int \<Rightarrow> instant \<Rightarrow> q_policy \<Rightarrow> q_policy" where
  "policy_resolved lower tenant t p =
     p\<lparr> qp_selector := normalizeModelSelector lower (qp_selector p),
        qp_scope := (qp_scope p)\<lparr> sc_tenant := tenant, sc_id := normalizeScopeID (sc_kind (qp_scope p)) (sc_id (qp_scope p)) \<rparr>,
        qp_window := resolvePolicyWindow p t \<rparr>"

definition resolve_rows ::
    "lowering \<Rightarrow> int \<Rightarrow> q_scope list \<Rightarrow> string \<Rightarrow> q_metric list \<Rightarrow> instant \<Rightarrow> q_policy list \<Rightarrow> q_policy list" where
  "resolve_rows lower tenant scopes model metrics t rows =
     stable_sort policy_less
       (map (policy_resolved lower tenant t) (filter (policy_admitted lower tenant scopes model metrics) rows))"


section \<open>Every request locks the policies in one order\<close>

text \<open>The order of \<open>policy_less\<close> as a key.\<close>

definition policy_key :: "q_policy \<Rightarrow> int \<times> string \<times> q_metric \<times> bool \<times> string \<times> int \<times> int" where
  "policy_key p =
     (scopeLockOrder (sc_kind (qp_scope p)), sc_id (qp_scope p), qp_metric p,
      qp_selector p \<noteq> modelSelectorAll, qp_selector p, qp_priority p, qp_id p)"

lemma policy_less_key: "policy_less a b \<longleftrightarrow> policy_key a < policy_key b"
  unfolding policy_less_def policy_key_def by (auto simp: less_bool_def)

lemma resolve_rows_sorted: "sorted (map policy_key (resolve_rows lower tenant scopes model metrics t rows))"
  unfolding resolve_rows_def by (rule stable_sort_sorted) (auto simp: policy_less_key)

lemma resolve_rows_set:
  "set (resolve_rows lower tenant scopes model metrics t rows) =
     policy_resolved lower tenant t ` {p \<in> set rows. policy_admitted lower tenant scopes model metrics p}"
  by (simp add: resolve_rows_def)

lemma resolve_rows_ids:
  assumes "distinct (map qp_id rows)"
  shows "distinct (map qp_id (resolve_rows lower tenant scopes model metrics t rows))"
proof -
  let ?xs = "map (policy_resolved lower tenant t) (filter (policy_admitted lower tenant scopes model metrics) rows)"
  have "map qp_id ?xs = map qp_id (filter (policy_admitted lower tenant scopes model metrics) rows)"
    by (simp add: policy_resolved_def)
  then have "distinct (map qp_id ?xs)" by (simp only: distinct_map_filter [OF assms])
  moreover have "mset (map qp_id (stable_sort policy_less ?xs)) = mset (map qp_id ?xs)"
    by (simp only: mset_map stable_sort_mset)
  ultimately show ?thesis unfolding resolve_rows_def by (metis mset_eq_imp_distinct_iff)
qed

text \<open>Two requests that share two policies lock them in the same order.\<close>

lemma lock_order_agrees:
  assumes "resolve_rows lower tenant scopes1 model1 metrics1 t1 rows = as @ p # bs @ q # cs"
    and "resolve_rows lower tenant scopes2 model2 metrics2 t2 rows2 = as' @ q' # bs' @ p' # cs'"
    and "policy_key p' = policy_key p" "policy_key q' = policy_key q"
  shows "policy_key p = policy_key q"
  using resolve_rows_sorted [of lower tenant scopes1 model1 metrics1 t1 rows]
    resolve_rows_sorted [of lower tenant scopes2 model2 metrics2 t2 rows2] assms
  by (auto simp: sorted_append)

end
