(* ===== verification/Quota_Store.thy ===== *)
theory Quota_Store
  imports Quota_Policy
begin

text \<open>
  The tables of the quota component and the operations of the \<open>PGStore\<close> port on them
  (backend/internal/quota/store.go, pg_store.go, pg_store_map.go, pg_store_sweep.go and the
  statements they run under backend/sql). A statement is a function on the tables with the checks
  and unique constraints of the schema; transactions are serializable, so each runs as one step, and
  any call to the database may fail with an error the environment chooses.
\<close>

section \<open>Rows\<close>

text \<open>A record of the policy snapshot of a reservation, as the JSON document holds it.\<close>

record q_snap =
  sn_id :: int
  sn_scopeKind :: q_scope_kind
  sn_scopeID :: string
  sn_selector :: string
  sn_metric :: q_metric
  sn_windowKind :: q_window_kind
  sn_start :: "instant option"
  sn_end :: "instant option"
  sn_limit :: rat
  sn_mode :: q_mode
  sn_reserved :: "rat option"
  sn_manualComment :: bool

datatype q_status =
  ReservationReserved | ReservationSettled | ReservationReleased | ReservationExpired
| ReservationReconciliationNeeded

text \<open>\<open>rv_snapshot\<close> is \<open>None\<close> for bytes that are missing or not such a document.\<close>

record q_reservation =
  rv_tenant :: int
  rv_id :: int
  rv_claim :: int
  rv_fingerprint :: string
  rv_model :: string
  rv_scopes :: "q_scope list"
  rv_snapshot :: "q_snap list option"
  rv_predicted :: rat
  rv_units :: rat
  rv_status :: q_status
  rv_lease :: instant
  rv_settledCost :: rat
  rv_settledUnits :: rat
  rv_overageUnits :: rat
  rv_releaseReason :: "string option"

record q_counter =
  wn_tenant :: int
  wn_id :: int
  wn_policy :: int
  wn_start :: instant
  wn_end :: instant
  wn_reserved :: rat
  wn_settled :: rat
  wn_overage :: rat
  wn_requests :: int
  wn_version :: int

datatype slot_status = SlotAcquired | SlotReleased | SlotExpired

record q_slot =
  qs_tenant :: int
  qs_id :: int
  qs_reservation :: int
  qs_claim :: int
  qs_kind :: q_scope_kind
  qs_scopeID :: string
  qs_lease :: instant
  qs_status :: slot_status
  qs_reason :: "string option"

text \<open>The audit payload is a JSON object: its keys with their values.\<close>

datatype q_value =
  VInt int | VText string | VNum rat | VScope q_scope_kind | VMetric q_metric | VMode q_mode
| VWindow q_window_kind | VStatus q_status

type_synonym q_payload = "(string \<times> q_value) list"

record q_audit =
  qa_tenant :: int
  qa_reservation :: "int option"
  qa_claim :: int
  qa_event :: string
  qa_code :: string
  qa_scope :: q_scope
  qa_metric :: q_metric
  qa_reserved :: rat
  qa_settled :: rat
  qa_retryAfter :: "int option"
  qa_payload :: q_payload
  qa_actor :: "string option"

datatype job_status = JobQueued | JobRunning | JobSucceeded | JobFailed

record q_job =
  jb_tenant :: int
  jb_id :: int
  jb_claim :: int
  jb_reservation :: "int option"
  jb_kind :: string
  jb_status :: job_status
  jb_attempts :: int
  jb_error :: "string option"
  jb_nextRun :: instant
  jb_locked :: "instant option"

text \<open>The billing claim a reservation belongs to; billing writes it, quota only reads it.\<close>

datatype claim_status = ClaimReserving | ClaimCommitted | ClaimAborted

record q_claim =
  qc_tenant :: int
  qc_id :: int
  qc_status :: claim_status
  qc_actualCost :: "rat option"

record q_prow =
  pr_policy :: q_policy
  pr_enabled :: bool

text \<open>\<open>qd_undelivered\<close> lists the claims with an undelivered settlement event; ids come from one sequence.\<close>

record q_db =
  qd_policies :: "q_prow list"
  qd_windows :: "q_counter list"
  qd_reservations :: "q_reservation list"
  qd_slots :: "q_slot list"
  qd_audits :: "q_audit list"
  qd_jobs :: "q_job list"
  qd_claims :: "q_claim list"
  qd_undelivered :: "(int \<times> int) list"
  qd_nextID :: int

section \<open>Errors, calls and transactions\<close>

text \<open>
  Errors of the database: no row, a serialization conflict (40001, 40P01), the unique constraint on
  reservations, a violated check, and anything else.
\<close>

datatype q_err =
  ErrNoRows | ErrConflict | ErrUniqueClaim | ErrCheck string | ErrOther string

text \<open>The state of a computation: the tables, the faults still to come (one per call) and the clock.\<close>

record q_st =
  st_db :: q_db
  st_faults :: "q_err option list"
  st_now :: instant

type_synonym ('e, 'a) qm = "q_st \<Rightarrow> ('e + 'a) \<times> q_st"

definition qreturn :: "'a \<Rightarrow> ('e, 'a) qm" where
  "qreturn x s = (Inr x, s)"

definition qfail :: "'e \<Rightarrow> ('e, 'a) qm" where
  "qfail e s = (Inl e, s)"

definition qbind :: "('e, 'a) qm \<Rightarrow> ('a \<Rightarrow> ('e, 'b) qm) \<Rightarrow> ('e, 'b) qm" where
  "qbind m f s = (case m s of (Inl e, s') \<Rightarrow> (Inl e, s') | (Inr x, s') \<Rightarrow> f x s')"

text \<open>\<open>qcatch\<close> hands the outcome of a call to its continuation, errors included.\<close>

definition qcatch :: "('e, 'a) qm \<Rightarrow> ('e + 'a \<Rightarrow> ('f, 'b) qm) \<Rightarrow> ('f, 'b) qm" where
  "qcatch m f s = (case m s of (r, s') \<Rightarrow> f r s')"

definition next_fault :: "q_st \<Rightarrow> q_err option \<times> q_st" where
  "next_fault s = (case st_faults s of [] \<Rightarrow> (None, s) | f # fs \<Rightarrow> (f, s\<lparr> st_faults := fs \<rparr>))"

definition qcall :: "(instant \<Rightarrow> q_db \<Rightarrow> (q_err + 'a) \<times> q_db) \<Rightarrow> (q_err, 'a) qm" where
  "qcall f s =
     (case next_fault s of
        (Some e, s') \<Rightarrow> (Inl e, s')
      | (None, s') \<Rightarrow> (case f (st_now s') (st_db s') of (r, d) \<Rightarrow> (r, s'\<lparr> st_db := d \<rparr>)))"

text \<open>\<open>WithTx\<close>: an error of the body or of the commit rolls the tables back.\<close>

definition withTx :: "(q_err \<Rightarrow> 'e) \<Rightarrow> ('e, 'a) qm \<Rightarrow> ('e, 'a) qm" where
  "withTx wrap body s =
     (case next_fault s of
        (Some e, s1) \<Rightarrow> (Inl (wrap e), s1)
      | (None, s1) \<Rightarrow>
          (case body s1 of
             (Inl e, s2) \<Rightarrow> (Inl e, s2\<lparr> st_db := st_db s1 \<rparr>)
           | (Inr x, s2) \<Rightarrow>
               (case next_fault s2 of
                  (Some e, s3) \<Rightarrow> (Inl (wrap e), s3\<lparr> st_db := st_db s1 \<rparr>)
                | (None, s3) \<Rightarrow> (Inr x, s3))))"

section \<open>Policies and windows\<close>

definition sql_ok :: "'a \<Rightarrow> q_db \<Rightarrow> (q_err + 'a) \<times> q_db" where
  "sql_ok x d = (Inr x, d)"

definition sql_none :: "q_db \<Rightarrow> (q_err + 'a) \<times> q_db" where
  "sql_none d = (Inl ErrNoRows, d)"

definition policy_active :: "lowering \<Rightarrow> int \<Rightarrow> q_scope list \<Rightarrow> string \<Rightarrow> q_metric list \<Rightarrow> instant \<Rightarrow> q_prow \<Rightarrow> bool" where
  "policy_active lower tenant scopes model metrics t r \<longleftrightarrow>
     (let p = pr_policy r in
        qp_tenant p = tenant \<and> pr_enabled r \<and> qp_mode p \<noteq> ModeDisabled \<and>
        scope_key (qp_scope p) \<in> set (map (\<lambda>s. (sc_kind s, normalizeScopeID (sc_kind s) (sc_id s))) scopes) \<and>
        (qp_selector p = modelSelectorAll \<or> qp_selector p = normalizeRequestedModel lower model) \<and>
        qp_metric p \<in> set metrics \<and> qp_validFrom p \<le> t \<and>
        (case qp_validUntil p of None \<Rightarrow> True | Some u \<Rightarrow> t < u))"

definition policy_row_less :: "q_prow \<Rightarrow> q_prow \<Rightarrow> bool" where
  "policy_row_less a b =
     (let p = pr_policy a; q = pr_policy b; i = (qp_selector p \<noteq> modelSelectorAll); j = (qp_selector q \<noteq> modelSelectorAll)
      in if i \<noteq> j then j else if qp_priority p \<noteq> qp_priority q then qp_priority p < qp_priority q else qp_id p < qp_id q)"

definition policyFromDB :: "lowering \<Rightarrow> q_prow \<Rightarrow> q_policy" where
  "policyFromDB lower r = (pr_policy r)\<lparr> qp_selector := normalizeModelSelector lower (qp_selector (pr_policy r)) \<rparr>"

definition listActivePolicies ::
    "lowering \<Rightarrow> int \<Rightarrow> q_scope list \<Rightarrow> string \<Rightarrow> q_metric list \<Rightarrow> instant \<Rightarrow> instant \<Rightarrow> q_db \<Rightarrow> (q_err + q_policy list) \<times> q_db" where
  "listActivePolicies lower tenant scopes model metrics t now d =
     sql_ok (map (policyFromDB lower)
       (stable_sort policy_row_less (filter (policy_active lower tenant scopes model metrics t) (qd_policies d)))) d"

definition is_policy :: "q_db \<Rightarrow> int \<Rightarrow> int \<Rightarrow> bool" where
  "is_policy d tenant pid \<longleftrightarrow> (\<exists>r \<in> set (qd_policies d). qp_tenant (pr_policy r) = tenant \<and> qp_id (pr_policy r) = pid)"

definition window_at :: "int \<Rightarrow> int \<Rightarrow> instant \<Rightarrow> q_counter \<Rightarrow> bool" where
  "window_at tenant pid start w \<longleftrightarrow> wn_tenant w = tenant \<and> wn_policy w = pid \<and> wn_start w = start"

definition window_is :: "int \<Rightarrow> int \<Rightarrow> q_counter \<Rightarrow> bool" where
  "window_is tenant wid w \<longleftrightarrow> wn_tenant w = tenant \<and> wn_id w = wid"

definition set_windows :: "(q_counter \<Rightarrow> bool) \<Rightarrow> (q_counter \<Rightarrow> q_counter) \<Rightarrow> q_db \<Rightarrow> q_db" where
  "set_windows P f d = d\<lparr> qd_windows := map (\<lambda>w. if P w then f w else w) (qd_windows d) \<rparr>"

definition upsertWindow :: "int \<Rightarrow> int \<Rightarrow> q_window \<Rightarrow> instant \<Rightarrow> q_db \<Rightarrow> (q_err + q_counter) \<times> q_db" where
  "upsertWindow tenant pid win now d =
     (if \<not> is_policy d tenant pid then sql_none d
      else if qw_end win \<le> qw_start win then (Inl (ErrCheck ''quota_windows_time_range''), d)
      else case find (window_at tenant pid (qw_start win)) (qd_windows d) of
             Some w \<Rightarrow> (Inr (w\<lparr> wn_end := qw_end win \<rparr>),
                        set_windows (window_at tenant pid (qw_start win)) (\<lambda>w. w\<lparr> wn_end := qw_end win \<rparr>) d)
           | None \<Rightarrow>
               (let w = \<lparr> wn_tenant = tenant, wn_id = qd_nextID d, wn_policy = pid, wn_start = qw_start win,
                          wn_end = qw_end win, wn_reserved = 0, wn_settled = 0, wn_overage = 0, wn_requests = 0,
                          wn_version = 1 \<rparr>
                in (Inr w, d\<lparr> qd_windows := qd_windows d @ [w], qd_nextID := qd_nextID d + 1 \<rparr>)))"

definition getWindowForUpdate :: "int \<Rightarrow> int \<Rightarrow> instant \<Rightarrow> q_db \<Rightarrow> (q_err + q_counter) \<times> q_db" where
  "getWindowForUpdate tenant wid now d =
     (case find (window_is tenant wid) (qd_windows d) of Some w \<Rightarrow> sql_ok w d | None \<Rightarrow> sql_none d)"

text \<open>A statement that changes one window row, under a condition and with the checks of the table.\<close>

definition update_window ::
    "int \<Rightarrow> int \<Rightarrow> (q_counter \<Rightarrow> bool) \<Rightarrow> (q_counter \<Rightarrow> q_counter) \<Rightarrow> q_db \<Rightarrow> (q_err + q_counter) \<times> q_db" where
  "update_window tenant wid guard f d =
     (case find (window_is tenant wid) (qd_windows d) of
        None \<Rightarrow> sql_none d
      | Some w \<Rightarrow>
          if \<not> guard w then sql_none d
          else if wn_reserved (f w) < 0 \<or> wn_settled (f w) < 0 \<or> wn_overage (f w) < 0 \<or> wn_requests (f w) < 0
          then (Inl (ErrCheck ''quota_windows''), d)
          else (Inr (f w), set_windows (window_is tenant wid) f d))"

definition incrementWindowReserved ::
    "int \<Rightarrow> int \<Rightarrow> rat \<Rightarrow> int \<Rightarrow> rat \<Rightarrow> instant \<Rightarrow> q_db \<Rightarrow> (q_err + q_counter) \<times> q_db" where
  "incrementWindowReserved tenant wid delta requests limit now d =
     update_window tenant wid (\<lambda>w. wn_reserved w + wn_settled w + delta \<le> limit)
       (\<lambda>w. w\<lparr> wn_reserved := wn_reserved w + delta, wn_requests := wn_requests w + requests,
               wn_version := wn_version w + 1 \<rparr>) d"

definition incrementWindowRequestCount ::
    "int \<Rightarrow> int \<Rightarrow> int \<Rightarrow> rat \<Rightarrow> instant \<Rightarrow> q_db \<Rightarrow> (q_err + q_counter) \<times> q_db" where
  "incrementWindowRequestCount tenant wid requests limit now d =
     update_window tenant wid (\<lambda>w. of_int (wn_requests w + requests) \<le> limit)
       (\<lambda>w. w\<lparr> wn_requests := wn_requests w + requests, wn_version := wn_version w + 1 \<rparr>) d"

definition applyWindowSettlement ::
    "int \<Rightarrow> int \<Rightarrow> rat \<Rightarrow> rat \<Rightarrow> rat \<Rightarrow> instant \<Rightarrow> q_db \<Rightarrow> (q_err + q_counter) \<times> q_db" where
  "applyWindowSettlement tenant wid released settled overage now d =
     update_window tenant wid (\<lambda>w. True)
       (\<lambda>w. w\<lparr> wn_reserved := max 0 (wn_reserved w - released), wn_settled := wn_settled w + settled,
               wn_overage := wn_overage w + overage, wn_version := wn_version w + 1 \<rparr>) d"


section \<open>Reservations\<close>

definition claim_is :: "int \<Rightarrow> int \<Rightarrow> q_claim \<Rightarrow> bool" where
  "claim_is tenant claim c \<longleftrightarrow> qc_tenant c = tenant \<and> qc_id c = claim"

definition has_claim :: "q_db \<Rightarrow> int \<Rightarrow> int \<Rightarrow> bool" where
  "has_claim d tenant claim \<longleftrightarrow> (\<exists>c \<in> set (qd_claims d). claim_is tenant claim c)"

definition rv_of_claim :: "int \<Rightarrow> int \<Rightarrow> q_reservation \<Rightarrow> bool" where
  "rv_of_claim tenant claim r \<longleftrightarrow> rv_tenant r = tenant \<and> rv_claim r = claim"

definition rv_is :: "int \<Rightarrow> int \<Rightarrow> int \<Rightarrow> q_reservation \<Rightarrow> bool" where
  "rv_is tenant rid claim r \<longleftrightarrow> rv_tenant r = tenant \<and> rv_id r = rid \<and> rv_claim r = claim"

definition rv_live :: "q_reservation \<Rightarrow> bool" where
  "rv_live r \<longleftrightarrow> rv_status r = ReservationReserved \<or> rv_status r = ReservationReconciliationNeeded"

text \<open>An update of the reservations that satisfy a condition; no row is an error.\<close>

definition update_reservations ::
    "(q_reservation \<Rightarrow> bool) \<Rightarrow> (q_reservation \<Rightarrow> q_reservation) \<Rightarrow> q_db \<Rightarrow> (q_err + q_reservation) \<times> q_db" where
  "update_reservations P f d =
     (case find P (qd_reservations d) of
        None \<Rightarrow> sql_none d
      | Some r \<Rightarrow> (Inr (f r), d\<lparr> qd_reservations := map (\<lambda>r. if P r then f r else r) (qd_reservations d) \<rparr>))"

definition getReservationByClaim :: "int \<Rightarrow> int \<Rightarrow> instant \<Rightarrow> q_db \<Rightarrow> (q_err + q_reservation) \<times> q_db" where
  "getReservationByClaim tenant claim now d =
     (case find (rv_of_claim tenant claim) (qd_reservations d) of Some r \<Rightarrow> sql_ok r d | None \<Rightarrow> sql_none d)"

text \<open>What a new or a revived reservation is written from.\<close>

record q_booking =
  bk_tenant :: int
  bk_claim :: int
  bk_fingerprint :: string
  bk_model :: string
  bk_scopes :: "q_scope list"
  bk_snapshot :: "q_snap list"
  bk_predicted :: rat
  bk_units :: rat
  bk_lease :: instant

text \<open>\<open>marshalScopes\<close> keeps kind and identifier; reading them back sets the tenant of the row.\<close>

definition stored_scopes :: "int \<Rightarrow> q_scope list \<Rightarrow> q_scope list" where
  "stored_scopes tenant ss =
     map (\<lambda>s. \<lparr> sc_tenant = tenant, sc_kind = sc_kind s, sc_id = normalizeScopeID (sc_kind s) (sc_id s) \<rparr>) ss"

definition insertReservation :: "lowering \<Rightarrow> q_booking \<Rightarrow> instant \<Rightarrow> q_db \<Rightarrow> (q_err + q_reservation) \<times> q_db" where
  "insertReservation lower b now d =
     (if \<not> has_claim d (bk_tenant b) (bk_claim b) then sql_none d
      else if (\<exists>r \<in> set (qd_reservations d). rv_of_claim (bk_tenant b) (bk_claim b) r) then (Inl ErrUniqueClaim, d)
      else if bk_predicted b < 0 \<or> bk_units b < 0 then (Inl (ErrCheck ''quota_reservations''), d)
      else (let r = \<lparr> rv_tenant = bk_tenant b, rv_id = qd_nextID d, rv_claim = bk_claim b,
                      rv_fingerprint = bk_fingerprint b, rv_model = normalizeRequestedModel lower (bk_model b),
                      rv_scopes = stored_scopes (bk_tenant b) (bk_scopes b), rv_snapshot = Some (bk_snapshot b),
                      rv_predicted = bk_predicted b, rv_units = bk_units b, rv_status = ReservationReserved,
                      rv_lease = bk_lease b, rv_settledCost = 0, rv_settledUnits = 0, rv_overageUnits = 0,
                      rv_releaseReason = None \<rparr>
            in (Inr r, d\<lparr> qd_reservations := qd_reservations d @ [r], qd_nextID := qd_nextID d + 1 \<rparr>)))"

definition reactivateReservation ::
    "lowering \<Rightarrow> int \<Rightarrow> q_booking \<Rightarrow> instant \<Rightarrow> q_db \<Rightarrow> (q_err + q_reservation) \<times> q_db" where
  "reactivateReservation lower rid b now d =
     (if bk_predicted b < 0 \<or> bk_units b < 0 then (Inl (ErrCheck ''quota_reservations''), d)
      else update_reservations
        (\<lambda>r. rv_is (bk_tenant b) rid (bk_claim b) r \<and> rv_status r \<in> {ReservationReleased, ReservationExpired})
        (\<lambda>r. r\<lparr> rv_status := ReservationReserved, rv_fingerprint := bk_fingerprint b,
                rv_model := normalizeRequestedModel lower (bk_model b),
                rv_scopes := stored_scopes (bk_tenant b) (bk_scopes b), rv_snapshot := Some (bk_snapshot b),
                rv_predicted := bk_predicted b, rv_units := bk_units b, rv_lease := bk_lease b,
                rv_releaseReason := None \<rparr>) d)"

definition settleReservation ::
    "int \<Rightarrow> int \<Rightarrow> int \<Rightarrow> rat \<Rightarrow> rat \<Rightarrow> rat \<Rightarrow> instant \<Rightarrow> q_db \<Rightarrow> (q_err + q_reservation) \<times> q_db" where
  "settleReservation tenant rid claim cost units overage now d =
     (if cost < 0 \<or> units < 0 \<or> overage < 0 then (Inl (ErrCheck ''quota_reservations''), d)
      else update_reservations (\<lambda>r. rv_is tenant rid claim r \<and> rv_live r)
        (\<lambda>r. r\<lparr> rv_status := ReservationSettled, rv_settledCost := cost, rv_settledUnits := units,
                rv_overageUnits := overage \<rparr>) d)"

definition releaseReservation :: "int \<Rightarrow> int \<Rightarrow> int \<Rightarrow> string \<Rightarrow> instant \<Rightarrow> q_db \<Rightarrow> (q_err + q_reservation) \<times> q_db" where
  "releaseReservation tenant rid claim reason now d =
     update_reservations (\<lambda>r. rv_is tenant rid claim r \<and> rv_live r)
       (\<lambda>r. r\<lparr> rv_status := ReservationReleased, rv_releaseReason := Some reason \<rparr>) d"

definition markReconciliationNeeded :: "int \<Rightarrow> int \<Rightarrow> int \<Rightarrow> instant \<Rightarrow> q_db \<Rightarrow> (q_err + q_reservation) \<times> q_db" where
  "markReconciliationNeeded tenant rid claim now d =
     update_reservations (\<lambda>r. rv_is tenant rid claim r \<and> rv_status r = ReservationReserved)
       (\<lambda>r. r\<lparr> rv_status := ReservationReconciliationNeeded \<rparr>) d"

definition prepareReleaseRecovery :: "int \<Rightarrow> int \<Rightarrow> int \<Rightarrow> instant \<Rightarrow> q_db \<Rightarrow> (q_err + q_reservation) \<times> q_db" where
  "prepareReleaseRecovery tenant claim rid now d =
     (if \<not> (\<exists>c \<in> set (qd_claims d). claim_is tenant claim c \<and> qc_status c = ClaimAborted) then sql_none d
      else update_reservations (\<lambda>r. rv_of_claim tenant claim r \<and> (rid = 0 \<or> rv_id r = rid) \<and> rv_live r)
        (\<lambda>r. r\<lparr> rv_status := ReservationReconciliationNeeded, rv_lease := min (rv_lease r) now \<rparr>) d)"

definition getClaimState :: "int \<Rightarrow> int \<Rightarrow> instant \<Rightarrow> q_db \<Rightarrow> (q_err + q_claim) \<times> q_db" where
  "getClaimState tenant claim now d =
     (case find (claim_is tenant claim) (qd_claims d) of Some c \<Rightarrow> sql_ok c d | None \<Rightarrow> sql_none d)"

section \<open>Concurrency slots\<close>

definition slot_scope :: "int \<Rightarrow> q_scope \<Rightarrow> q_slot \<Rightarrow> bool" where
  "slot_scope tenant sc x \<longleftrightarrow> qs_tenant x = tenant \<and> qs_kind x = sc_kind sc \<and>
     qs_scopeID x = normalizeScopeID (sc_kind sc) (sc_id sc)"

definition slot_active :: "int \<Rightarrow> q_scope \<Rightarrow> instant \<Rightarrow> q_slot \<Rightarrow> bool" where
  "slot_active tenant sc t x \<longleftrightarrow> slot_scope tenant sc x \<and> qs_status x = SlotAcquired \<and> t < qs_lease x"

text \<open>
  The database function behind \<open>AcquireConcurrencySlot\<close>: slots whose lease has run out expire, a
  slot the reservation holds already is renewed, and otherwise one is taken if fewer than the limit
  are active. \<open>None\<close> is the answer without a row.
\<close>

definition expire_scope :: "int \<Rightarrow> q_scope \<Rightarrow> instant \<Rightarrow> q_slot list \<Rightarrow> q_slot list" where
  "expire_scope tenant sc t xs =
     map (\<lambda>x. if slot_scope tenant sc x \<and> qs_status x = SlotAcquired \<and> qs_lease x \<le> t
              then x\<lparr> qs_status := SlotExpired, qs_reason := Some ''lease_expired'' \<rparr> else x) xs"

definition acquireSlot ::
    "int \<Rightarrow> int \<Rightarrow> int \<Rightarrow> q_scope \<Rightarrow> int \<Rightarrow> instant \<Rightarrow> instant \<Rightarrow> instant \<Rightarrow> q_db \<Rightarrow> (q_err + q_slot option) \<times> q_db" where
  "acquireSlot tenant rid claim sc limit t lease now d =
     (if limit \<le> 0 \<or> lease \<le> t then sql_ok None d
      else if \<not> (\<exists>r \<in> set (qd_reservations d). rv_is tenant rid claim r) then sql_ok None d
      else
        (let xs = expire_scope tenant sc t (qd_slots d); d1 = d\<lparr> qd_slots := xs \<rparr>;
             mine = (\<lambda>x. slot_scope tenant sc x \<and> qs_reservation x = rid);
             renew = (\<lambda>x. x\<lparr> qs_lease := lease, qs_reason := None, qs_status := SlotAcquired \<rparr>)
         in case find (\<lambda>x. mine x \<and> slot_active tenant sc t x) xs of
              Some x \<Rightarrow> (Inr (Some (renew x)),
                d\<lparr> qd_slots := map (\<lambda>x. if mine x \<and> slot_active tenant sc t x then renew x else x) xs \<rparr>)
            | None \<Rightarrow>
                if limit \<le> int (length (filter (slot_active tenant sc t) xs)) then (Inr None, d1)
                else (case find mine xs of
                        Some x \<Rightarrow> (Inr (Some (renew x)), d\<lparr> qd_slots := map (\<lambda>x. if mine x then renew x else x) xs \<rparr>)
                      | None \<Rightarrow>
                          (let x = \<lparr> qs_tenant = tenant, qs_id = qd_nextID d, qs_reservation = rid, qs_claim = claim,
                                     qs_kind = sc_kind sc, qs_scopeID = normalizeScopeID (sc_kind sc) (sc_id sc),
                                     qs_lease = lease, qs_status = SlotAcquired, qs_reason = None \<rparr>
                           in (Inr (Some x), d\<lparr> qd_slots := xs @ [x], qd_nextID := qd_nextID d + 1 \<rparr>)))))"

definition releaseSlots :: "int \<Rightarrow> int \<Rightarrow> string \<Rightarrow> instant \<Rightarrow> q_db \<Rightarrow> (q_err + unit) \<times> q_db" where
  "releaseSlots tenant rid reason now d =
     (let why = (if trim_space reason = [] then ''released'' else trim_space reason)
      in (Inr (), d\<lparr> qd_slots := map (\<lambda>x. if qs_tenant x = tenant \<and> qs_reservation x = rid \<and> qs_status x = SlotAcquired
                       then x\<lparr> qs_status := SlotReleased, qs_reason := Some why \<rparr> else x) (qd_slots d) \<rparr>))"

definition expireSlots :: "int \<Rightarrow> instant \<Rightarrow> instant \<Rightarrow> q_db \<Rightarrow> (q_err + unit) \<times> q_db" where
  "expireSlots tenant t now d =
     (Inr (), d\<lparr> qd_slots := map (\<lambda>x. if qs_tenant x = tenant \<and> qs_status x = SlotAcquired \<and> qs_lease x \<le> t \<and>
                       (qs_tenant x, qs_claim x) \<notin> set (qd_undelivered d)
                  then x\<lparr> qs_status := SlotExpired, qs_reason := Some ''lease_expired'' \<rparr> else x) (qd_slots d) \<rparr>)"

section \<open>Audit events and reconciliation jobs\<close>

definition insertAudit :: "q_audit \<Rightarrow> instant \<Rightarrow> q_db \<Rightarrow> (q_err + unit) \<times> q_db" where
  "insertAudit a now d =
     (Inr (), d\<lparr> qd_audits := qd_audits d @
        [a\<lparr> qa_scope := (qa_scope a)\<lparr> sc_id := normalizeScopeID (sc_kind (qa_scope a)) (sc_id (qa_scope a)) \<rparr> \<rparr>] \<rparr>)"

definition job_open :: "int \<Rightarrow> int \<Rightarrow> string \<Rightarrow> q_job \<Rightarrow> bool" where
  "job_open tenant claim kind j \<longleftrightarrow> jb_tenant j = tenant \<and> jb_claim j = claim \<and> jb_kind j = kind \<and>
     (jb_status j = JobQueued \<or> jb_status j = JobRunning)"

definition set_jobs :: "(q_job \<Rightarrow> bool) \<Rightarrow> (q_job \<Rightarrow> q_job) \<Rightarrow> q_db \<Rightarrow> q_db" where
  "set_jobs P f d = d\<lparr> qd_jobs := map (\<lambda>j. if P j then f j else j) (qd_jobs d) \<rparr>"

definition enqueueJob ::
    "int \<Rightarrow> int \<Rightarrow> int option \<Rightarrow> string \<Rightarrow> string \<Rightarrow> instant \<Rightarrow> instant \<Rightarrow> q_db \<Rightarrow> (q_err + q_job) \<times> q_db" where
  "enqueueJob tenant claim rid kind lastError nextRun now d =
     (if \<not> has_claim d tenant claim then sql_none d
      else case find (job_open tenant claim kind) (qd_jobs d) of
             Some j \<Rightarrow>
               (let f = (\<lambda>j. j\<lparr> jb_error := Some lastError, jb_nextRun := min (jb_nextRun j) nextRun \<rparr>)
                in (Inr (f j), set_jobs (job_open tenant claim kind) f d))
           | None \<Rightarrow>
               (let j = \<lparr> jb_tenant = tenant, jb_id = qd_nextID d, jb_claim = claim, jb_reservation = rid,
                          jb_kind = kind, jb_status = JobQueued, jb_attempts = 0, jb_error = Some lastError,
                          jb_nextRun = nextRun, jb_locked = None \<rparr>
                in (Inr j, d\<lparr> qd_jobs := qd_jobs d @ [j], qd_nextID := qd_nextID d + 1 \<rparr>)))"

definition lock_stale :: "instant \<Rightarrow> q_job \<Rightarrow> bool" where
  "lock_stale t j \<longleftrightarrow> (case jb_locked j of None \<Rightarrow> True | Some l \<Rightarrow> l < t - 15 * minute)"

definition job_due :: "instant \<Rightarrow> q_job \<Rightarrow> bool" where
  "job_due t j \<longleftrightarrow>
     (jb_status j = JobQueued \<or> jb_status j = JobFailed) \<and> jb_nextRun j \<le> t \<or>
     jb_status j = JobRunning \<and> lock_stale t j"

definition job_less :: "q_job \<Rightarrow> q_job \<Rightarrow> bool" where
  "job_less a b = (if jb_nextRun a \<noteq> jb_nextRun b then jb_nextRun a < jb_nextRun b else jb_id a < jb_id b)"

definition listDueJobs :: "int \<Rightarrow> instant \<Rightarrow> int \<Rightarrow> instant \<Rightarrow> q_db \<Rightarrow> (q_err + q_job list) \<times> q_db" where
  "listDueJobs tenant t limit now d =
     (if limit \<le> 0 then sql_ok [] d
      else sql_ok (take (nat (min limit (2 ^ 31 - 1)))
             (stable_sort job_less (filter (\<lambda>j. jb_tenant j = tenant \<and> job_due t j) (qd_jobs d)))) d)"

definition listDueTenants :: "instant \<Rightarrow> int \<Rightarrow> instant \<Rightarrow> q_db \<Rightarrow> (q_err + int list) \<times> q_db" where
  "listDueTenants t limit now d =
     (if limit \<le> 0 then sql_ok [] d
      else sql_ok (take (nat (min limit (2 ^ 31 - 1)))
             (sort (remdups (map jb_tenant (filter (job_due t) (qd_jobs d)))))) d)"

definition job_is :: "int \<Rightarrow> int \<Rightarrow> q_job \<Rightarrow> bool" where
  "job_is tenant jid j \<longleftrightarrow> jb_tenant j = tenant \<and> jb_id j = jid"

definition update_jobs :: "(q_job \<Rightarrow> bool) \<Rightarrow> (q_job \<Rightarrow> q_job) \<Rightarrow> q_db \<Rightarrow> (q_err + unit) \<times> q_db" where
  "update_jobs P f d = (if \<exists>j \<in> set (qd_jobs d). P j then (Inr (), set_jobs P f d) else sql_none d)"

definition markJobRunning :: "int \<Rightarrow> int \<Rightarrow> instant \<Rightarrow> q_db \<Rightarrow> (q_err + unit) \<times> q_db" where
  "markJobRunning tenant jid now d =
     update_jobs (\<lambda>j. job_is tenant jid j \<and>
         (jb_status j = JobQueued \<or> jb_status j = JobFailed \<or> jb_status j = JobRunning \<and> lock_stale now j))
       (\<lambda>j. j\<lparr> jb_status := JobRunning, jb_locked := Some now, jb_attempts := jb_attempts j + 1 \<rparr>) d"

definition completeJob :: "int \<Rightarrow> int \<Rightarrow> instant \<Rightarrow> q_db \<Rightarrow> (q_err + unit) \<times> q_db" where
  "completeJob tenant jid now d =
     update_jobs (\<lambda>j. job_is tenant jid j \<and> jb_status j = JobRunning)
       (\<lambda>j. j\<lparr> jb_status := JobSucceeded, jb_error := None \<rparr>) d"

definition failJob :: "int \<Rightarrow> int \<Rightarrow> string \<Rightarrow> instant \<Rightarrow> bool \<Rightarrow> instant \<Rightarrow> q_db \<Rightarrow> (q_err + unit) \<times> q_db" where
  "failJob tenant jid lastError nextRun terminal now d =
     update_jobs (\<lambda>j. job_is tenant jid j \<and> jb_status j = JobRunning)
       (\<lambda>j. j\<lparr> jb_status := (if terminal then JobFailed else JobQueued), jb_error := Some lastError,
               jb_nextRun := nextRun, jb_locked := None \<rparr>) d"

text \<open>Reservations whose lease has run out while their claim is final and nothing else will close them.\<close>

definition rv_less :: "q_reservation \<Rightarrow> q_reservation \<Rightarrow> bool" where
  "rv_less a b = (if rv_lease a \<noteq> rv_lease b then rv_lease a < rv_lease b else rv_id a < rv_id b)"

definition rv_stale :: "q_db \<Rightarrow> instant \<Rightarrow> q_reservation \<Rightarrow> bool" where
  "rv_stale d t r \<longleftrightarrow>
     rv_live r \<and> rv_lease r \<le> t \<and>
     (\<exists>c \<in> set (qd_claims d). claim_is (rv_tenant r) (rv_claim r) c \<and> qc_status c \<in> {ClaimCommitted, ClaimAborted}) \<and>
     \<not> (\<exists>j \<in> set (qd_jobs d). jb_tenant j = rv_tenant r \<and> jb_claim j = rv_claim r \<and>
          jb_status j \<in> {JobQueued, JobRunning, JobFailed}) \<and>
     (rv_tenant r, rv_claim r) \<notin> set (qd_undelivered d)"

definition listStaleReservations :: "instant \<Rightarrow> int \<Rightarrow> instant \<Rightarrow> q_db \<Rightarrow> (q_err + q_reservation list) \<times> q_db" where
  "listStaleReservations t limit now d =
     (if limit \<le> 0 then sql_ok [] d
      else sql_ok (take (nat (min limit (2 ^ 31 - 1))) (stable_sort rv_less (filter (rv_stale d t) (qd_reservations d)))) d)"

end
