(* ===== verification/Quota_Service.thy ===== *)
theory Quota_Service
  imports Quota_Store
begin

text \<open>
  Admission by quota (backend/internal/quota/service.go, service_assess.go, reservation.go):
  \<open>Reserve\<close> books a claim against every policy it is subject to, in one serializable transaction,
  retries it on serialization conflicts, replays the reservation of a claim seen before, and fails
  closed. The texts of decisions leave out the text of a causing error.
\<close>

section \<open>Requests, decisions, errors\<close>

datatype q_decision_kind = DecisionUnset | DecisionAllow | DecisionDeny

text \<open>The zero value of a metric or of a window kind is \<open>None\<close>.\<close>

record q_decision =
  dc_kind :: q_decision_kind
  dc_code :: string
  dc_reason :: string
  dc_retryAfter :: duration
  dc_scope :: q_scope
  dc_metric :: "q_metric option"
  dc_amount :: rat
  dc_windowKind :: "q_window_kind option"

definition plain_decision :: "q_decision_kind \<Rightarrow> string \<Rightarrow> string \<Rightarrow> q_decision" where
  "plain_decision k code reason = \<lparr> dc_kind = k, dc_code = code, dc_reason = reason, dc_retryAfter = 0,
     dc_scope = \<lparr> sc_tenant = 0, sc_kind = ScopeUnset, sc_id = [] \<rparr>, dc_metric = None, dc_amount = 0,
     dc_windowKind = None \<rparr>"

datatype q_serr =
  SDb q_err
| SDeny q_decision q_serr
| SDenied
| SReplayConflict
| SClaimRace q_err
| SRollbackDeny q_decision q_payload
| SInvalidWindow int
| SRetryable string q_serr
| SNotConfigured
| SRequiresTx
| SCancelled
| SNotFound
| SMismatch
| SInvalidStatus string q_status
| SInvalidFinalization string
| SReconciliation string q_status
| SInvalidatedByRevival
| SDeferredForRevival
| SRecoveryInvalidated
| SPlain string
| SEnqueue q_serr
| SJoined q_serr q_serr

record q_request =
  rq_tenant :: int
  rq_claim :: int
  rq_fingerprint :: string
  rq_scopes :: "q_scope list"
  rq_model :: string
  rq_tokens :: int
  rq_predicted :: rat
  rq_needSlot :: bool
  rq_lease :: instant
  rq_at :: instant

record q_result =
  rr_allowed :: bool
  rr_decision :: q_decision
  rr_reservation :: "q_reservation option"
  rr_idempotent :: bool

definition denyResult :: "q_decision \<Rightarrow> q_result" where
  "denyResult dc = \<lparr> rr_allowed = False, rr_decision = dc, rr_reservation = None, rr_idempotent = False \<rparr>"

definition empty_result :: q_result where
  "empty_result = denyResult (plain_decision DecisionUnset [] [])"

definition failClosedDecision :: q_decision where
  "failClosedDecision = plain_decision DecisionDeny ''quota_fail_closed'' ''quota reserve failed closed''"

definition normalizeReserveRequest :: "lowering \<Rightarrow> instant \<Rightarrow> q_request \<Rightarrow> q_request" where
  "normalizeReserveRequest lower now rq =
     (let t = (if rq_at rq = zero_time then now else rq_at rq)
      in rq\<lparr> rq_at := t,
             rq_lease := (if rq_lease rq = zero_time then t + 5 * minute else rq_lease rq),
             rq_model := normalizeRequestedModel lower (rq_model rq),
             rq_scopes := normalizeScopesForResolution (rq_tenant rq) (rq_scopes rq) \<rparr>)"

definition reserveMetrics :: "q_request \<Rightarrow> q_metric list" where
  "reserveMetrics rq =
     [MetricRequests, MetricCostUSD, MetricTokensEstimated] @ (if rq_needSlot rq then [MetricConcurrency] else [])"

section \<open>Store and transactions\<close>

datatype q_store_kind = StoreMissing | StoreNoTx | StoreTx

definition qlift :: "(q_err, 'a) qm \<Rightarrow> (q_serr, 'a) qm" where
  "qlift m = qcatch m (\<lambda>r. case r of Inl e \<Rightarrow> qfail (SDb e) | Inr x \<Rightarrow> qreturn x)"

definition db :: "(instant \<Rightarrow> q_db \<Rightarrow> (q_err + 'a) \<times> q_db) \<Rightarrow> (q_serr, 'a) qm" where
  "db f = qlift (qcall f)"

definition withStore :: "q_store_kind \<Rightarrow> (q_serr, 'a) qm \<Rightarrow> (q_serr, 'a) qm" where
  "withStore k body = (if k = StoreTx then withTx SDb body else qfail SRequiresTx)"

definition isConflict :: "q_serr \<Rightarrow> bool" where
  "isConflict e \<longleftrightarrow> e = SDb ErrConflict"

section \<open>Audit events\<close>

definition retryAfterSeconds :: "duration \<Rightarrow> int option" where
  "retryAfterSeconds d = (if d \<le> 0 then None else Some (min (- ((- d) div second)) (2 ^ 31 - 1)))"

definition insertDecisionAudit ::
    "q_request \<Rightarrow> int option \<Rightarrow> string \<Rightarrow> q_decision \<Rightarrow> q_payload \<Rightarrow> (q_serr, unit) qm" where
  "insertDecisionAudit rq rid event dc payload =
     db (insertAudit \<lparr> qa_tenant = rq_tenant rq, qa_reservation = rid, qa_claim = rq_claim rq, qa_event = event,
       qa_code = dc_code dc,
       qa_scope = (if sc_kind (dc_scope dc) = ScopeUnset then global_scope (rq_tenant rq) else dc_scope dc),
       qa_metric = (case dc_metric dc of None \<Rightarrow> MetricRequests | Some m \<Rightarrow> m),
       qa_reserved = dc_amount dc, qa_settled = 0, qa_retryAfter = retryAfterSeconds (dc_retryAfter dc),
       qa_payload = payload, qa_actor = None \<rparr>)"

section \<open>Assessment of one policy\<close>

definition effectiveLimit :: "q_policy \<Rightarrow> rat" where
  "effectiveLimit p = qp_limit p + qp_burst p"

definition retryAfter :: "instant \<Rightarrow> q_policy \<Rightarrow> duration" where
  "retryAfter t p =
     (let w = qp_window p
      in if qw_kind w = WindowNone \<or> qw_kind w = WindowManual \<or> qw_end w = zero_time \<or> qw_end w = manualWindowEnd then 0
         else if qw_end w - t < 0 then 0 else qw_end w - t)"

record q_assessment =
  pa_window :: "(q_counter \<times> q_window) option"
  pa_current :: rat
  pa_amount :: rat
  pa_limit :: rat
  pa_exceeded :: bool
  pa_skipped :: bool
  pa_retryAfter :: duration
  pa_requestCount :: int

definition metric_name :: "q_metric \<Rightarrow> string" where
  "metric_name m = (case m of MetricRequests \<Rightarrow> ''requests'' | MetricCostUSD \<Rightarrow> ''cost_usd''
     | MetricTokensEstimated \<Rightarrow> ''tokens_estimated'' | MetricConcurrency \<Rightarrow> ''concurrency'')"

definition policyWindowForUpdate :: "q_request \<Rightarrow> q_policy \<Rightarrow> (q_serr, q_counter \<times> q_window) qm" where
  "policyWindowForUpdate rq p =
     (case serviceWindowForPolicy p (rq_at rq) of
        None \<Rightarrow> qfail (SInvalidWindow (qp_id p))
      | Some win \<Rightarrow>
          qbind (db (upsertWindow (rq_tenant rq) (qp_id p) win)) (\<lambda>w.
          qbind (db (getWindowForUpdate (rq_tenant rq) (wn_id w))) (\<lambda>c. qreturn (c, win))))"

definition assess_window :: "q_request \<Rightarrow> q_policy \<Rightarrow> rat \<Rightarrow> (q_serr, q_assessment) qm" where
  "assess_window rq p amount =
     qbind (policyWindowForUpdate rq p) (\<lambda>(c, win).
       let current = wn_reserved c + wn_settled c in
       qreturn \<lparr> pa_window = Some (c, win), pa_current = current, pa_amount = amount, pa_limit = qp_limit p,
         pa_exceeded = (current + amount > effectiveLimit p), pa_skipped = False,
         pa_retryAfter = retryAfter (rq_at rq) (p\<lparr> qp_window := win \<rparr>),
         pa_requestCount = (if qp_metric p = MetricRequests then wn_requests c else 0) \<rparr>)"

definition bare_assessment :: "rat \<Rightarrow> rat \<Rightarrow> bool \<Rightarrow> q_assessment" where
  "bare_assessment amount limit skipped = \<lparr> pa_window = None, pa_current = 0, pa_amount = amount, pa_limit = limit,
     pa_exceeded = False, pa_skipped = skipped, pa_retryAfter = 0, pa_requestCount = 0 \<rparr>"

definition assessPolicy :: "q_request \<Rightarrow> q_policy \<Rightarrow> (q_serr, q_assessment) qm" where
  "assessPolicy rq p =
     (case qp_metric p of
        MetricRequests \<Rightarrow> assess_window rq p 1
      | MetricCostUSD \<Rightarrow> assess_window rq p (rq_predicted rq)
      | MetricTokensEstimated \<Rightarrow>
          if rq_tokens rq \<le> 0 then qreturn (bare_assessment 0 0 True)
          else assess_window rq p (of_int (rq_tokens rq))
      | MetricConcurrency \<Rightarrow> qreturn (bare_assessment 1 (qp_limit p) False))"

definition exceededDecision :: "q_policy \<Rightarrow> rat \<Rightarrow> duration \<Rightarrow> q_decision" where
  "exceededDecision p amount wait = \<lparr> dc_kind = DecisionDeny, dc_code = ''quota_limit_exceeded'',
     dc_reason = ''quota '' @ metric_name (qp_metric p) @ '' limit exceeded'', dc_retryAfter = wait,
     dc_scope = qp_scope p, dc_metric = Some (qp_metric p), dc_amount = amount,
     dc_windowKind = Some (qw_kind (qp_window p)) \<rparr>"

definition assessmentPayload :: "q_policy \<Rightarrow> rat \<Rightarrow> rat \<Rightarrow> rat \<Rightarrow> int \<Rightarrow> q_payload" where
  "assessmentPayload p current amount limit requests =
     [(''policy_id'', VInt (qp_id p)), (''scope_kind'', VScope (sc_kind (qp_scope p))),
      (''scope_id'', VText (normalizeScopeID (sc_kind (qp_scope p)) (sc_id (qp_scope p)))),
      (''metric'', VMetric (qp_metric p)), (''mode'', VMode (qp_mode p)),
      (''window_kind'', VWindow (qw_kind (qp_window p))), (''current'', VNum current), (''amount'', VNum amount),
      (''limit'', VNum limit), (''burst_value'', VNum (qp_burst p)), (''effective_limit'', VNum (effectiveLimit p)),
      (''request_count'', VInt requests)]"

definition concurrencySaturatedPayload :: "q_policy \<Rightarrow> rat \<Rightarrow> rat \<Rightarrow> q_payload" where
  "concurrencySaturatedPayload p amount limit =
     [(''policy_id'', VInt (qp_id p)), (''scope_kind'', VScope (sc_kind (qp_scope p))),
      (''scope_id'', VText (normalizeScopeID (sc_kind (qp_scope p)) (sc_id (qp_scope p)))),
      (''metric'', VMetric (qp_metric p)), (''mode'', VMode (qp_mode p)),
      (''reason'', VText ''concurrency_cap_saturated''), (''amount'', VNum amount), (''limit'', VNum limit)]"

definition pa_payload :: "q_policy \<Rightarrow> q_assessment \<Rightarrow> q_payload" where
  "pa_payload p a = assessmentPayload p (pa_current a) (pa_amount a) (pa_limit a) (pa_requestCount a)"

section \<open>Evaluation of all policies\<close>

record q_item =
  it_policy :: q_policy
  it_window :: "(q_counter \<times> q_window) option"
  it_amount :: rat

record q_evaluation =
  ev_items :: "q_item list"
  ev_observed :: "(q_decision \<times> q_payload) list"
  ev_deny :: "(q_decision \<times> q_payload) option"

definition manual_reason :: "q_mode \<Rightarrow> q_decision \<Rightarrow> q_decision" where
  "manual_reason m dc = (if m = ModeManualFirst then dc\<lparr> dc_reason := ''manual_first'' \<rparr> else dc)"

fun evaluate_from :: "q_request \<Rightarrow> q_policy list \<Rightarrow> q_evaluation \<Rightarrow> (q_serr, q_evaluation) qm" where
  "evaluate_from rq [] acc = qreturn acc"
| "evaluate_from rq (p # ps) acc =
     (if qp_metric p = MetricConcurrency \<and> \<not> rq_needSlot rq then evaluate_from rq ps acc
      else qbind (assessPolicy rq p) (\<lambda>a.
        if pa_skipped a then evaluate_from rq ps acc
        else case qp_mode p of
          ModeEnforce \<Rightarrow>
            if pa_exceeded a
            then qreturn \<lparr> ev_items = [], ev_observed = [],
                   ev_deny = Some (exceededDecision p (pa_amount a) (pa_retryAfter a), pa_payload p a) \<rparr>
            else evaluate_from rq ps
                   (acc\<lparr> ev_items := ev_items acc @ [\<lparr> it_policy = p, it_window = pa_window a, it_amount = pa_amount a \<rparr>] \<rparr>)
        | ModeDisabled \<Rightarrow> evaluate_from rq ps acc
        | m \<Rightarrow>
            if pa_exceeded a
            then evaluate_from rq ps (acc\<lparr> ev_observed := ev_observed acc @
                   [(manual_reason m (exceededDecision p (pa_amount a) (pa_retryAfter a)), pa_payload p a)] \<rparr>)
            else evaluate_from rq ps acc))"

definition evaluatePolicies :: "q_request \<Rightarrow> q_policy list \<Rightarrow> (q_serr, q_evaluation) qm" where
  "evaluatePolicies rq ps = evaluate_from rq ps \<lparr> ev_items = [], ev_observed = [], ev_deny = None \<rparr>"

end
