(* ===== verification/Quota_Reserve.thy ===== *)
theory Quota_Reserve
  imports Quota_Service
begin

text \<open>
  \<open>Reserve\<close> and what it is made of (backend/internal/quota/service.go, reservation.go): the policy
  snapshot, the booking of the windows and slots, replays and revivals of a claim, and the loop over
  the attempts of the transaction.
\<close>

section \<open>The policy snapshot\<close>

definition metricHasWindowReservation :: "q_metric \<Rightarrow> bool" where
  "metricHasWindowReservation m \<longleftrightarrow> m = MetricRequests \<or> m = MetricCostUSD \<or> m = MetricTokensEstimated"

definition item_for :: "q_item list \<Rightarrow> q_policy \<Rightarrow> q_item option" where
  "item_for items p =
     find (\<lambda>it. qp_mode (it_policy it) = ModeEnforce \<and> metricHasWindowReservation (qp_metric (it_policy it)) \<and>
                qp_id (it_policy it) = qp_id p \<and> qp_metric (it_policy it) = qp_metric p) (rev items)"

definition set_time :: "instant \<Rightarrow> instant option" where
  "set_time t = (if t = zero_time then None else Some t)"

definition marshalPolicySnapshot :: "lowering \<Rightarrow> q_policy \<Rightarrow> rat option \<Rightarrow> q_snap" where
  "marshalPolicySnapshot lower p amount =
     \<lparr> sn_id = qp_id p, sn_scopeKind = sc_kind (qp_scope p),
       sn_scopeID = normalizeScopeID (sc_kind (qp_scope p)) (sc_id (qp_scope p)),
       sn_selector = normalizeModelSelector lower (qp_selector p), sn_metric = qp_metric p,
       sn_windowKind = qw_kind (qp_window p), sn_start = set_time (qw_start (qp_window p)),
       sn_end = set_time (qw_end (qp_window p)), sn_limit = qp_limit p, sn_mode = qp_mode p,
       sn_reserved = amount, sn_manualComment = (qp_mode p = ModeManualFirst) \<rparr>"

definition concrete_window :: "q_item list \<Rightarrow> q_policy \<Rightarrow> q_policy" where
  "concrete_window items p =
     (if qp_mode p \<noteq> ModeEnforce \<or> \<not> metricHasWindowReservation (qp_metric p) then p
      else case item_for items p of
             Some it \<Rightarrow>
               (case it_window it of
                  Some (c, win) \<Rightarrow> p\<lparr> qp_window := (qp_window p)\<lparr> qw_start := qw_start win, qw_end := qw_end win \<rparr> \<rparr>
                | None \<Rightarrow> p\<lparr> qp_window := (qp_window p)\<lparr> qw_start := zero_time, qw_end := zero_time \<rparr> \<rparr>)
           | None \<Rightarrow> p)"

definition marshalReservationPolicySnapshot :: "lowering \<Rightarrow> q_policy list \<Rightarrow> q_item list \<Rightarrow> q_snap list" where
  "marshalReservationPolicySnapshot lower ps items =
     map (\<lambda>p. marshalPolicySnapshot lower (concrete_window items p) (map_option it_amount (item_for items p))) ps"

section \<open>Booking\<close>

definition zero_counter :: q_counter where
  "zero_counter = \<lparr> wn_tenant = 0, wn_id = 0, wn_policy = 0, wn_start = zero_time, wn_end = zero_time,
     wn_reserved = 0, wn_settled = 0, wn_overage = 0, wn_requests = 0, wn_version = 0 \<rparr>"

definition item_counter :: "q_item \<Rightarrow> q_counter" where
  "item_counter it = (case it_window it of Some (c, win) \<Rightarrow> c | None \<Rightarrow> zero_counter)"

definition reserve_window :: "q_request \<Rightarrow> q_item \<Rightarrow> rat \<Rightarrow> rat \<Rightarrow> int \<Rightarrow> (q_serr, unit) qm" where
  "reserve_window rq it amount denied requests =
     (let p = it_policy it; c = item_counter it
      in qcatch (qcall (incrementWindowReserved (rq_tenant rq) (wn_id c) amount requests (effectiveLimit p))) (\<lambda>r.
           case r of
             Inr w \<Rightarrow> qreturn ()
           | Inl e \<Rightarrow>
               if e = ErrNoRows
               then qfail (SRollbackDeny (exceededDecision p denied (retryAfter (rq_at rq) p))
                      (assessmentPayload p (wn_reserved c + wn_settled c) amount (qp_limit p) (wn_requests c)))
               else qfail (SDb e)))"

text \<open>\<open>decimal.IntPart\<close>: the integer part, towards zero; limits fit 64 bits by the column's precision.\<close>

definition IntPart :: "rat \<Rightarrow> int" where
  "IntPart q = (if 0 \<le> q then \<lfloor>q\<rfloor> else - \<lfloor>- q\<rfloor>)"

definition reserve_slot :: "q_request \<Rightarrow> int \<Rightarrow> q_item \<Rightarrow> (q_serr, unit) qm" where
  "reserve_slot rq rid it =
     (let p = it_policy it
      in qbind (db (acquireSlot (rq_tenant rq) rid (rq_claim rq) (qp_scope p) (IntPart (qp_limit p)) (rq_at rq) (rq_lease rq)))
           (\<lambda>slot. if slot = None
                   then qfail (SRollbackDeny (exceededDecision p 1 (retryAfter (rq_at rq) p))
                          (concurrencySaturatedPayload p 1 (qp_limit p)))
                   else qreturn ()))"

definition reserve_item :: "q_request \<Rightarrow> int \<Rightarrow> q_item \<Rightarrow> (q_serr, unit) qm" where
  "reserve_item rq rid it =
     (case qp_metric (it_policy it) of
        MetricRequests \<Rightarrow> reserve_window rq it (it_amount it) 1 1
      | MetricCostUSD \<Rightarrow> reserve_window rq it (rq_predicted rq) (rq_predicted rq) 0
      | MetricTokensEstimated \<Rightarrow> reserve_window rq it (it_amount it) (it_amount it) 0
      | MetricConcurrency \<Rightarrow> reserve_slot rq rid it)"

fun applyEnforceReservations :: "q_request \<Rightarrow> int \<Rightarrow> q_item list \<Rightarrow> (q_serr, unit) qm" where
  "applyEnforceReservations rq rid [] = qreturn ()"
| "applyEnforceReservations rq rid (it # its) =
     qbind (reserve_item rq rid it) (\<lambda>_. applyEnforceReservations rq rid its)"

fun audit_observed :: "q_request \<Rightarrow> int option \<Rightarrow> (q_decision \<times> q_payload) list \<Rightarrow> (q_serr, unit) qm" where
  "audit_observed rq rid [] = qreturn ()"
| "audit_observed rq rid ((dc, payload) # os) =
     qbind (insertDecisionAudit rq rid ''observe_exceeded'' dc payload) (\<lambda>_. audit_observed rq rid os)"

section \<open>A claim seen before\<close>

definition sameScopes :: "q_scope list \<Rightarrow> q_scope list \<Rightarrow> int \<Rightarrow> bool" where
  "sameScopes left right tenant \<longleftrightarrow>
     normalizeScopesForResolution tenant left = normalizeScopesForResolution tenant right"

definition reservationReplayConflict :: "lowering \<Rightarrow> q_request \<Rightarrow> q_reservation \<Rightarrow> bool" where
  "reservationReplayConflict lower rq r \<longleftrightarrow>
     trim_space (rv_fingerprint r) \<noteq> trim_space (rq_fingerprint rq) \<or>
     normalizeRequestedModel lower (rv_model r) \<noteq> rq_model rq \<or>
     rv_predicted r \<noteq> rq_predicted rq \<or>
     \<not> sameScopes (rv_scopes r) (rq_scopes rq) (rq_tenant rq)"

definition replay_conflict_decision :: q_decision where
  "replay_conflict_decision = plain_decision DecisionDeny ''quota_reservation_replay_conflict''
     ''reservation replay identity does not match original claim''"

definition status_name :: "q_status \<Rightarrow> string" where
  "status_name s = (case s of ReservationReserved \<Rightarrow> ''reserved'' | ReservationSettled \<Rightarrow> ''settled''
     | ReservationReleased \<Rightarrow> ''released'' | ReservationExpired \<Rightarrow> ''expired''
     | ReservationReconciliationNeeded \<Rightarrow> ''reconciliation_needed'')"

definition inactiveReservationDecision :: "q_reservation \<Rightarrow> q_decision" where
  "inactiveReservationDecision r = plain_decision DecisionDeny ''quota_reservation_inactive''
     (''reservation status '' @ status_name (rv_status r) @ '' is not active for claim'')"

type_synonym q_outcome = "q_result \<times> q_serr option"

definition replay_result :: "bool \<Rightarrow> q_decision \<Rightarrow> q_reservation \<Rightarrow> q_result" where
  "replay_result allowed dc r = \<lparr> rr_allowed = allowed, rr_decision = dc, rr_reservation = Some r, rr_idempotent = True \<rparr>"

definition conflict_outcome :: "q_reservation \<Rightarrow> q_outcome" where
  "conflict_outcome r =
     (\<lparr> rr_allowed = False, rr_decision = replay_conflict_decision, rr_reservation = Some r, rr_idempotent = False \<rparr>,
      Some (SDeny replay_conflict_decision SReplayConflict))"

definition existingReservationResult :: "lowering \<Rightarrow> q_request \<Rightarrow> q_reservation \<Rightarrow> q_outcome" where
  "existingReservationResult lower rq r =
     (if reservationReplayConflict lower rq r then conflict_outcome r
      else if rv_status r = ReservationReserved \<and> rq_at rq < rv_lease r
      then (replay_result True (plain_decision DecisionAllow ''quota_reservation_reused''
              ''reservation already exists for claim'') r, None)
      else if rv_status r = ReservationSettled
      then (replay_result True (plain_decision DecisionAllow ''quota_reservation_settled_replay''
              ''reservation already settled for claim'') r, None)
      else (replay_result False (inactiveReservationDecision r) r, Some (SDeny (inactiveReservationDecision r) SDenied)))"

definition canReactivateReservation :: "q_status \<Rightarrow> bool" where
  "canReactivateReservation s \<longleftrightarrow> s = ReservationReleased \<or> s = ReservationExpired"

section \<open>The body of the transaction\<close>

definition fail_closed :: "q_serr \<Rightarrow> q_outcome" where
  "fail_closed e = (denyResult failClosedDecision, Some (SDeny failClosedDecision e))"

definition resolvePolicies :: "lowering \<Rightarrow> q_request \<Rightarrow> (q_serr, q_policy list) qm" where
  "resolvePolicies lower rq =
     qbind (db (listActivePolicies lower (rq_tenant rq) (normalizeScopes (rq_tenant rq) (rq_scopes rq))
                  (normalizeRequestedModel lower (rq_model rq)) (normalizeMetrics (reserveMetrics rq)) (rq_at rq)))
       (\<lambda>rows. qreturn (resolve_rows lower (rq_tenant rq) (rq_scopes rq) (rq_model rq) (reserveMetrics rq) (rq_at rq) rows))"

text \<open>An error of a read is retried with the transaction when it is a conflict, and denies otherwise.\<close>

definition or_fail_closed :: "(q_serr, 'a) qm \<Rightarrow> ('a \<Rightarrow> (q_serr, q_outcome) qm) \<Rightarrow> (q_serr, q_outcome) qm" where
  "or_fail_closed m k =
     qcatch m (\<lambda>r. case r of
       Inl e \<Rightarrow> if isConflict e then qfail e else qreturn (fail_closed e)
     | Inr x \<Rightarrow> k x)"

definition allow_decision :: q_decision where
  "allow_decision = plain_decision DecisionAllow ''quota_reserve_allowed'' ''all enforce quota policies allowed''"

definition booking_of :: "lowering \<Rightarrow> q_request \<Rightarrow> q_policy list \<Rightarrow> q_item list \<Rightarrow> q_booking" where
  "booking_of lower rq ps items = \<lparr> bk_tenant = rq_tenant rq, bk_claim = rq_claim rq, bk_fingerprint = rq_fingerprint rq,
     bk_model = rq_model rq, bk_scopes = rq_scopes rq, bk_snapshot = marshalReservationPolicySnapshot lower ps items,
     bk_predicted = rq_predicted rq, bk_units = 1, bk_lease = rq_lease rq \<rparr>"

definition reactivateExistingReservation :: "lowering \<Rightarrow> q_request \<Rightarrow> q_reservation \<Rightarrow> (q_serr, q_outcome) qm" where
  "reactivateExistingReservation lower rq r =
     or_fail_closed (resolvePolicies lower rq) (\<lambda>ps.
       qbind (evaluatePolicies rq ps) (\<lambda>ev.
         case ev_deny ev of
           Some (dc, payload) \<Rightarrow>
             qbind (insertDecisionAudit rq (Some (rv_id r)) ''reserve_denied'' dc payload)
               (\<lambda>_. qreturn (replay_result False dc r, Some (SDeny dc SDenied)))
         | None \<Rightarrow>
             qbind (audit_observed rq (Some (rv_id r)) (ev_observed ev)) (\<lambda>_.
             qbind (db (reactivateReservation lower (rv_id r) (booking_of lower rq ps (ev_items ev)))) (\<lambda>r'.
             qbind (applyEnforceReservations rq (rv_id r') (ev_items ev)) (\<lambda>_.
             qbind (insertDecisionAudit rq (Some (rv_id r)) ''reserve_allowed'' allow_decision [])
               (\<lambda>_. qreturn (replay_result True allow_decision r', None)))))))"

definition insert_booking :: "lowering \<Rightarrow> q_booking \<Rightarrow> (q_serr, q_reservation) qm" where
  "insert_booking lower b =
     qcatch (qcall (insertReservation lower b)) (\<lambda>r. case r of
       Inl e \<Rightarrow> qfail (if e = ErrUniqueClaim then SClaimRace e else SDb e)
     | Inr x \<Rightarrow> qreturn x)"

definition reserve_new :: "lowering \<Rightarrow> q_request \<Rightarrow> (q_serr, q_outcome) qm" where
  "reserve_new lower rq =
     or_fail_closed (resolvePolicies lower rq) (\<lambda>ps.
       qbind (evaluatePolicies rq ps) (\<lambda>ev.
         case ev_deny ev of
           Some (dc, payload) \<Rightarrow>
             qbind (insertDecisionAudit rq None ''reserve_denied'' dc payload)
               (\<lambda>_. qreturn (denyResult dc, Some (SDeny dc SDenied)))
         | None \<Rightarrow>
             qbind (audit_observed rq None (ev_observed ev)) (\<lambda>_.
             qbind (insert_booking lower (booking_of lower rq ps (ev_items ev))) (\<lambda>r.
             qbind (applyEnforceReservations rq (rv_id r) (ev_items ev)) (\<lambda>_.
             qbind (insertDecisionAudit rq (Some (rv_id r)) ''reserve_allowed'' allow_decision [])
               (\<lambda>_. qreturn (\<lparr> rr_allowed = True, rr_decision = allow_decision, rr_reservation = Some r,
                               rr_idempotent = False \<rparr>, None)))))))"

definition reserve_existing :: "lowering \<Rightarrow> q_request \<Rightarrow> q_reservation \<Rightarrow> (q_serr, q_outcome) qm" where
  "reserve_existing lower rq r =
     (if canReactivateReservation (rv_status r)
      then if trim_space (rv_fingerprint r) \<noteq> trim_space (rq_fingerprint rq) \<or>
              normalizeRequestedModel lower (rv_model r) \<noteq> rq_model rq
           then qreturn (conflict_outcome r)
           else reactivateExistingReservation lower rq r
      else qreturn (existingReservationResult lower rq r))"

definition reserve_body :: "lowering \<Rightarrow> q_request \<Rightarrow> (q_serr, q_outcome) qm" where
  "reserve_body lower rq =
     qcatch (db (getReservationByClaim (rq_tenant rq) (rq_claim rq))) (\<lambda>x. case x of
       Inr r \<Rightarrow> if rv_id r \<noteq> 0 then reserve_existing lower rq r else reserve_new lower rq
     | Inl e \<Rightarrow>
         if e = SDb ErrNoRows then reserve_new lower rq
         else if isConflict e then qfail e
         else qreturn (fail_closed e))"

section \<open>Attempts\<close>

text \<open>
  A pause between two attempts ends early when the context is cancelled; the environment decides.
  \<open>retry_tx wrap n body\<close> runs the body up to \<open>n + 1\<close> times; \<open>wrap\<close> says how the conflict of the last
  attempt is reported.
\<close>

definition pause :: "(q_serr, unit) qm" where
  "pause s = (case next_fault s of (Some e, s') \<Rightarrow> (Inl SCancelled, s') | (None, s') \<Rightarrow> (Inr (), s'))"

fun retry_tx :: "(q_serr \<Rightarrow> q_serr) \<Rightarrow> nat \<Rightarrow> (q_serr, 'a) qm \<Rightarrow> (q_serr, 'a) qm" where
  "retry_tx wrap 0 body =
     qcatch body (\<lambda>r. case r of Inl e \<Rightarrow> qfail (if isConflict e then wrap e else e) | Inr x \<Rightarrow> qreturn x)"
| "retry_tx wrap (Suc n) body =
     qcatch body (\<lambda>r. case r of
       Inl e \<Rightarrow> if isConflict e then qbind pause (\<lambda>_. retry_tx wrap n body) else qfail e
     | Inr x \<Rightarrow> qreturn x)"

definition reserveTxRetryAttempts :: nat where
  "reserveTxRetryAttempts = 3"

definition reuseReservationAfterClaimRace :: "lowering \<Rightarrow> q_store_kind \<Rightarrow> q_request \<Rightarrow> (q_serr, q_outcome) qm" where
  "reuseReservationAfterClaimRace lower store rq =
     qcatch (withStore store (db (getReservationByClaim (rq_tenant rq) (rq_claim rq)))) (\<lambda>x. case x of
       Inl e \<Rightarrow> qreturn (fail_closed e)
     | Inr r \<Rightarrow> qreturn (existingReservationResult lower rq r))"

definition writeDenyAuditBestEffort :: "q_store_kind \<Rightarrow> q_request \<Rightarrow> q_decision \<Rightarrow> q_payload \<Rightarrow> (q_serr, unit) qm" where
  "writeDenyAuditBestEffort store rq dc payload =
     (let write = insertDecisionAudit rq None ''reserve_denied'' dc payload
      in if store = StoreTx then withTx SDb write else write)"

definition reserve_finish :: "lowering \<Rightarrow> q_store_kind \<Rightarrow> q_request \<Rightarrow> q_serr + q_outcome \<Rightarrow> (q_serr, q_outcome) qm" where
  "reserve_finish lower store rq x =
     (case x of
        Inr outcome \<Rightarrow> qreturn outcome
      | Inl (SRetryable op e) \<Rightarrow> qreturn (empty_result, Some (SRetryable op e))
      | Inl SCancelled \<Rightarrow> qreturn (empty_result, Some SCancelled)
      | Inl (SClaimRace e) \<Rightarrow> reuseReservationAfterClaimRace lower store rq
      | Inl (SRollbackDeny dc payload) \<Rightarrow>
          qcatch (writeDenyAuditBestEffort store rq dc payload)
            (\<lambda>_. qreturn (denyResult dc, Some (SDeny dc SDenied)))
      | Inl e \<Rightarrow> qreturn (fail_closed e))"

definition reserve_run :: "lowering \<Rightarrow> q_store_kind \<Rightarrow> q_request \<Rightarrow> (q_serr, q_outcome) qm" where
  "reserve_run lower store rq =
     qcatch (retry_tx (SRetryable ''reserve transaction'') (reserveTxRetryAttempts - 1)
               (withStore store (reserve_body lower rq)))
       (reserve_finish lower store rq)"

definition Reserve :: "lowering \<Rightarrow> q_store_kind \<Rightarrow> q_request \<Rightarrow> q_st \<Rightarrow> q_outcome \<times> q_st" where
  "Reserve lower store rq0 s =
     (let rq = normalizeReserveRequest lower (st_now s) rq0
      in if store = StoreMissing then ((denyResult failClosedDecision, Some (SDeny failClosedDecision SNotConfigured)), s)
         else case reserve_run lower store rq s of
                (Inr outcome, s') \<Rightarrow> (outcome, s')
              | (Inl e, s') \<Rightarrow> (fail_closed e, s'))"

end
