(* ===== verification/Quota_Settle.thy ===== *)
theory Quota_Settle
  imports Quota_Reserve
begin

text \<open>
  Finalisation of reservations (backend/internal/quota/service_settle.go, service_reverse.go,
  service_finalization_resilience.go): settlement, release, cache hits and reversals against the
  windows of the policy snapshot, their retries, and the hand-over of a failed finalisation to the
  reconciler. The texts of errors leave out the text of a causing error.
\<close>

section \<open>What the snapshot says\<close>

record q_final =
  fp_policy :: int
  fp_metric :: q_metric
  fp_window :: q_window
  fp_limit :: rat
  fp_reserved :: rat

definition snapshotRecordWindow :: "q_snap \<Rightarrow> q_window option" where
  "snapshotRecordWindow n =
     (case (sn_start n, sn_end n) of
        (Some s, Some e) \<Rightarrow>
          if e \<le> s then None else Some \<lparr> qw_kind = sn_windowKind n, qw_seconds = 0, qw_start = s, qw_end = e \<rparr>
      | _ \<Rightarrow> None)"

definition snapshotReservedAmount :: "q_reservation \<Rightarrow> q_snap \<Rightarrow> rat option" where
  "snapshotReservedAmount r n =
     (case sn_reserved n of
        Some a \<Rightarrow> if a < 0 then None else Some a
      | None \<Rightarrow> Some (if sn_metric n = MetricCostUSD then rv_predicted r else rv_units r))"

definition snapshot_final :: "q_reservation \<Rightarrow> q_snap \<Rightarrow> q_final option" where
  "snapshot_final r n =
     (case snapshotRecordWindow n of
        None \<Rightarrow> None
      | Some w \<Rightarrow>
          (case snapshotReservedAmount r n of
             None \<Rightarrow> None
           | Some a \<Rightarrow> Some \<lparr> fp_policy = sn_id n, fp_metric = sn_metric n, fp_window = w, fp_limit = sn_limit n,
                            fp_reserved = a \<rparr>))"

fun collect_options :: "'a option list \<Rightarrow> 'a list option" where
  "collect_options [] = Some []"
| "collect_options (None # xs) = None"
| "collect_options (Some x # xs) = (case collect_options xs of None \<Rightarrow> None | Some ys \<Rightarrow> Some (x # ys))"

definition snapshotFinalizationPolicies :: "q_reservation \<Rightarrow> q_final list option" where
  "snapshotFinalizationPolicies r =
     (case rv_snapshot r of
        None \<Rightarrow> None
      | Some ns \<Rightarrow>
          collect_options (map (snapshot_final r)
            (filter (\<lambda>n. sn_mode n = ModeEnforce \<and> metricHasWindowReservation (sn_metric n)) ns)))"

definition finalizationPolicies :: "q_reservation \<Rightarrow> (q_serr, q_final list) qm" where
  "finalizationPolicies r =
     (case snapshotFinalizationPolicies r of
        None \<Rightarrow> qfail (SPlain ''quota: reservation policy snapshot is missing or invalid'')
      | Some fs \<Rightarrow> qreturn fs)"

definition snapshotWindowForUpdate :: "int \<Rightarrow> q_final \<Rightarrow> (q_serr, q_counter) qm" where
  "snapshotWindowForUpdate tenant f =
     qbind (db (upsertWindow tenant (fp_policy f) (fp_window f)))
       (\<lambda>w. db (getWindowForUpdate tenant (wn_id w)))"

definition positiveDecimal :: "rat \<Rightarrow> rat" where
  "positiveDecimal v = (if v < 0 then 0 else v)"

definition marginalBudgetOverage :: "q_counter \<Rightarrow> rat \<Rightarrow> rat \<Rightarrow> rat \<Rightarrow> rat" where
  "marginalBudgetOverage c limit predicted actual =
     (let earlier = wn_reserved c + wn_settled c; later = earlier - predicted + actual
      in positiveDecimal (positiveDecimal (later - limit) - positiveDecimal (earlier - limit)))"

section \<open>The windows\<close>

definition settle_window :: "q_reservation \<Rightarrow> rat \<Rightarrow> bool \<Rightarrow> q_final \<Rightarrow> (q_serr, rat) qm" where
  "settle_window r actual cacheHit f =
     qbind (snapshotWindowForUpdate (rv_tenant r) f) (\<lambda>c.
       let apply_to = (\<lambda>settled overage.
             qbind (db (applyWindowSettlement (rv_tenant r) (wn_id c) (fp_reserved f) settled overage)) (\<lambda>_. qreturn overage))
       in case fp_metric f of
            MetricRequests \<Rightarrow> apply_to 1 0
          | MetricCostUSD \<Rightarrow>
              if cacheHit then apply_to 0 0
              else apply_to actual (marginalBudgetOverage c (fp_limit f) (rv_predicted r) actual)
          | MetricTokensEstimated \<Rightarrow> apply_to (fp_reserved f) 0
          | MetricConcurrency \<Rightarrow> qreturn 0)"

fun settle_windows :: "q_reservation \<Rightarrow> rat \<Rightarrow> bool \<Rightarrow> q_final list \<Rightarrow> rat \<Rightarrow> (q_serr, rat) qm" where
  "settle_windows r actual cacheHit [] acc = qreturn acc"
| "settle_windows r actual cacheHit (f # fs) acc =
     qbind (settle_window r actual cacheHit f) (\<lambda>overage. settle_windows r actual cacheHit fs (acc + overage))"

definition applySettlementWindows :: "q_reservation \<Rightarrow> rat \<Rightarrow> bool \<Rightarrow> (q_serr, rat) qm" where
  "applySettlementWindows r actual cacheHit =
     qbind (finalizationPolicies r) (\<lambda>fs. settle_windows r actual cacheHit fs 0)"

fun release_windows :: "q_reservation \<Rightarrow> q_final list \<Rightarrow> (q_serr, unit) qm" where
  "release_windows r [] = qreturn ()"
| "release_windows r (f # fs) =
     qbind (snapshotWindowForUpdate (rv_tenant r) f) (\<lambda>c.
       if metricHasWindowReservation (fp_metric f)
       then qbind (db (applyWindowSettlement (rv_tenant r) (wn_id c) (fp_reserved f) 0 0)) (\<lambda>_. release_windows r fs)
       else release_windows r fs)"

definition applyReleaseWindows :: "q_reservation \<Rightarrow> (q_serr, unit) qm" where
  "applyReleaseWindows r = qbind (finalizationPolicies r) (release_windows r)"

section \<open>Audit events\<close>

record q_faudit =
  fa_reservation :: q_reservation
  fa_operation :: string
  fa_event :: string
  fa_code :: string
  fa_metric :: q_metric
  fa_reserved :: rat
  fa_settled :: rat
  fa_overage :: rat
  fa_actor :: "string option"
  fa_extra :: q_payload

text \<open>The keys of the extra payload overwrite the common ones.\<close>

definition finalization_payload :: "q_faudit \<Rightarrow> q_payload" where
  "finalization_payload a =
     (let r = fa_reservation a;
          common = [(''operation'', VText (fa_operation a)), (''reservation_status'', VStatus (rv_status r)),
                    (''predicted_cost'', VNum (rv_predicted r)), (''reserved_units'', VNum (rv_units r))] @
                   (if fa_overage a = 0 then [] else [(''overage'', VNum (fa_overage a))])
      in filter (\<lambda>(k, v). k \<notin> fst ` set (fa_extra a)) common @ fa_extra a)"

definition insertQuotaFinalizationAudit :: "q_faudit \<Rightarrow> (q_serr, unit) qm" where
  "insertQuotaFinalizationAudit a =
     (let r = fa_reservation a
      in db (insertAudit \<lparr> qa_tenant = rv_tenant r, qa_reservation = Some (rv_id r), qa_claim = rv_claim r,
           qa_event = fa_event a, qa_code = fa_code a, qa_scope = global_scope (rv_tenant r), qa_metric = fa_metric a,
           qa_reserved = fa_reserved a, qa_settled = fa_settled a, qa_retryAfter = None,
           qa_payload = finalization_payload a, qa_actor = fa_actor a \<rparr>))"

section \<open>The reservation of a claim\<close>

definition getFinalizationReservation ::
    "int \<Rightarrow> int \<Rightarrow> int \<Rightarrow> string \<Rightarrow> string option \<Rightarrow> (q_serr, q_reservation) qm" where
  "getFinalizationReservation tenant claim rid operation actor =
     qcatch (db (getReservationByClaim tenant claim)) (\<lambda>x. case x of
       Inl e \<Rightarrow> qfail (if e = SDb ErrNoRows then SNotFound else e)
     | Inr r \<Rightarrow>
         if rid \<noteq> 0 \<and> rv_id r \<noteq> rid
         then qbind (insertQuotaFinalizationAudit \<lparr> fa_reservation = r, fa_operation = ''reservation_mismatch'',
                fa_event = ''reconciliation_enqueued'', fa_code = ''quota_reservation_mismatch'', fa_metric = MetricRequests,
                fa_reserved = 0, fa_settled = 0, fa_overage = 0, fa_actor = actor,
                fa_extra = [(''requested_operation'', VText operation), (''expected_reservation'', VInt rid),
                            (''actual_reservation'', VInt (rv_id r)), (''status'', VStatus (rv_status r))] \<rparr>)
              (\<lambda>_. qfail SMismatch)
         else qreturn r)"

section \<open>Requests\<close>

record q_settle =
  se_tenant :: int
  se_claim :: int
  se_reservation :: int
  se_cost :: rat
  se_at :: instant
  se_actor :: "string option"

record q_release =
  re_tenant :: int
  re_claim :: int
  re_reservation :: int
  re_reason :: string
  re_at :: instant
  re_actor :: "string option"

record q_hit =
  ch_tenant :: int
  ch_claim :: int
  ch_reservation :: int
  ch_at :: instant
  ch_actor :: "string option"
  ch_key :: string
  ch_source :: string

text \<open>The results of the three finalisations have these parts; only \<open>Settle\<close> fills in the overage.\<close>

record q_fresult =
  fr_reservation :: "q_reservation option"
  fr_idempotent :: bool
  fr_overage :: rat
  fr_queued :: bool

definition empty_fresult :: q_fresult where
  "empty_fresult = \<lparr> fr_reservation = None, fr_idempotent = False, fr_overage = 0, fr_queued = False \<rparr>"

definition found_fresult :: "q_reservation \<Rightarrow> q_fresult" where
  "found_fresult r = empty_fresult\<lparr> fr_reservation := Some r \<rparr>"

definition normalizeSettleRequest :: "instant \<Rightarrow> q_settle \<Rightarrow> q_settle" where
  "normalizeSettleRequest now se = (if se_at se = zero_time then se\<lparr> se_at := now \<rparr> else se)"

definition normalizeReleaseRequest :: "instant \<Rightarrow> q_release \<Rightarrow> q_release" where
  "normalizeReleaseRequest now re =
     re\<lparr> re_at := (if re_at re = zero_time then now else re_at re),
         re_reason := (if trim_space (re_reason re) = [] then ''abort'' else trim_space (re_reason re)) \<rparr>"

definition normalizeCacheHitRequest :: "instant \<Rightarrow> q_hit \<Rightarrow> q_hit" where
  "normalizeCacheHitRequest now ch =
     ch\<lparr> ch_at := (if ch_at ch = zero_time then now else ch_at ch), ch_key := trim_space (ch_key ch),
         ch_source := trim_space (ch_source ch) \<rparr>"

definition validateFinalizationIDs :: "int \<Rightarrow> int \<Rightarrow> int \<Rightarrow> q_serr option" where
  "validateFinalizationIDs tenant claim rid =
     (if tenant \<le> 0 \<or> claim \<le> 0 then Some (SInvalidFinalization ''tenant_id and claim_id are required'')
      else if rid < 0 then Some (SInvalidFinalization ''reservation_id must be non-negative'') else None)"

definition validateSettleRequest :: "q_settle \<Rightarrow> q_serr option" where
  "validateSettleRequest se =
     (case validateFinalizationIDs (se_tenant se) (se_claim se) (se_reservation se) of
        Some e \<Rightarrow> Some e
      | None \<Rightarrow> if se_cost se < 0 then Some (SInvalidFinalization ''actual cost must be non-negative'') else None)"

definition validateReleaseRequest :: "q_release \<Rightarrow> q_serr option" where
  "validateReleaseRequest re =
     (case validateFinalizationIDs (re_tenant re) (re_claim re) (re_reservation re) of
        Some e \<Rightarrow> Some e
      | None \<Rightarrow>
          if re_reason re \<in> {''abort'', ''upstream_error'', ''caller_cancelled'', ''pre_billing_failure''} then None
          else Some (SInvalidFinalization ''unsupported release reason''))"

definition validateCacheHitRequest :: "q_hit \<Rightarrow> q_serr option" where
  "validateCacheHitRequest ch = validateFinalizationIDs (ch_tenant ch) (ch_claim ch) (ch_reservation ch)"

section \<open>The transactions\<close>

definition quotaReconcileKindSettleFailed :: string where
  "quotaReconcileKindSettleFailed = ''quota_settle_failed''"

definition quotaReconcileKindReleaseFailed :: string where
  "quotaReconcileKindReleaseFailed = ''quota_release_failed''"

definition quotaReconcileKindCacheHitFailed :: string where
  "quotaReconcileKindCacheHitFailed = ''quota_cache_hit_failed''"

definition settle_live :: "q_settle \<Rightarrow> q_reservation \<Rightarrow> (q_serr, q_fresult) qm" where
  "settle_live se r =
     qbind (applySettlementWindows r (se_cost se) False) (\<lambda>overage.
     qbind (db (releaseSlots (se_tenant se) (rv_id r) ''settled'')) (\<lambda>_.
     qbind (db (settleReservation (se_tenant se) (rv_id r) (se_claim se) (se_cost se) (rv_units r) overage)) (\<lambda>_.
     qbind (insertQuotaFinalizationAudit \<lparr> fa_reservation = r, fa_operation = ''settle_committed'',
              fa_event = ''settled'', fa_code = ''quota_settle_committed'', fa_metric = MetricCostUSD,
              fa_reserved = rv_predicted r, fa_settled = se_cost se, fa_overage = overage, fa_actor = se_actor se,
              fa_extra = [(''actual_cost'', VNum (se_cost se)), (''predicted_cost'', VNum (rv_predicted r))] \<rparr>) (\<lambda>_.
       qreturn ((found_fresult (r\<lparr> rv_status := ReservationSettled \<rparr>))\<lparr> fr_overage := overage \<rparr>)))))"

definition settle_body :: "q_settle \<Rightarrow> (q_serr, q_fresult) qm" where
  "settle_body se =
     qbind (getFinalizationReservation (se_tenant se) (se_claim se) (se_reservation se) ''settle_committed'' (se_actor se))
       (\<lambda>r. case rv_status r of
          ReservationSettled \<Rightarrow> qreturn ((found_fresult r)\<lparr> fr_idempotent := True \<rparr>)
        | ReservationReleased \<Rightarrow> qfail (SReconciliation quotaReconcileKindSettleFailed (rv_status r))
        | ReservationExpired \<Rightarrow> qfail (SReconciliation quotaReconcileKindSettleFailed (rv_status r))
        | _ \<Rightarrow> settle_live se r)"

definition release_live :: "q_release \<Rightarrow> q_reservation \<Rightarrow> (q_serr, q_fresult) qm" where
  "release_live re r =
     qbind (db (getClaimState (re_tenant re) (re_claim re))) (\<lambda>c.
       if qc_status c = ClaimReserving \<and> rv_status r = ReservationReconciliationNeeded
       then qfail (SRetryable ''release deferred for billing claim revival'' SDeferredForRevival)
       else if qc_status c \<noteq> ClaimAborted \<and> rv_status r = ReservationReserved then qfail SInvalidatedByRevival
       else
         qbind (applyReleaseWindows r) (\<lambda>_.
         qbind (db (releaseSlots (re_tenant re) (rv_id r) (re_reason re))) (\<lambda>_.
         qbind (db (releaseReservation (re_tenant re) (rv_id r) (re_claim re) (re_reason re))) (\<lambda>_.
         qbind (insertQuotaFinalizationAudit \<lparr> fa_reservation = r, fa_operation = ''release_aborted'',
                  fa_event = ''released'', fa_code = ''quota_release_aborted'', fa_metric = MetricRequests,
                  fa_reserved = rv_units r, fa_settled = 0, fa_overage = 0, fa_actor = re_actor re,
                  fa_extra = [(''reason'', VText (re_reason re))] \<rparr>) (\<lambda>_.
           qreturn (found_fresult (r\<lparr> rv_status := ReservationReleased \<rparr>)))))))"

definition release_body :: "q_release \<Rightarrow> (q_serr, q_fresult) qm" where
  "release_body re =
     qbind (getFinalizationReservation (re_tenant re) (re_claim re) (re_reservation re) ''release_aborted'' (re_actor re))
       (\<lambda>r. case rv_status r of
          ReservationReleased \<Rightarrow> qreturn ((found_fresult r)\<lparr> fr_idempotent := True \<rparr>)
        | ReservationSettled \<Rightarrow> qfail (SInvalidStatus ''release'' (rv_status r))
        | ReservationExpired \<Rightarrow> qfail (SReconciliation quotaReconcileKindReleaseFailed (rv_status r))
        | _ \<Rightarrow> release_live re r)"

definition hit_live :: "q_hit \<Rightarrow> q_reservation \<Rightarrow> (q_serr, q_fresult) qm" where
  "hit_live ch r =
     qbind (applySettlementWindows r 0 True) (\<lambda>_.
     qbind (db (releaseSlots (ch_tenant ch) (rv_id r) ''cache_hit'')) (\<lambda>_.
     qbind (db (settleReservation (ch_tenant ch) (rv_id r) (ch_claim ch) 0 (rv_units r) 0)) (\<lambda>_.
     qbind (insertQuotaFinalizationAudit \<lparr> fa_reservation = r, fa_operation = ''cache_hit'', fa_event = ''settled'',
              fa_code = ''quota_cache_hit'', fa_metric = MetricRequests, fa_reserved = rv_units r,
              fa_settled = rv_units r, fa_overage = 0, fa_actor = ch_actor ch,
              fa_extra = (if ch_key ch = [] then [] else [(''cache_key'', VText (ch_key ch))]) @
                         (if ch_source ch = [] then [] else [(''cache_source'', VText (ch_source ch))]) \<rparr>) (\<lambda>_.
       qreturn (found_fresult (r\<lparr> rv_status := ReservationSettled \<rparr>))))))"

definition hit_body :: "q_hit \<Rightarrow> (q_serr, q_fresult) qm" where
  "hit_body ch =
     qbind (getFinalizationReservation (ch_tenant ch) (ch_claim ch) (ch_reservation ch) ''cache_hit'' (ch_actor ch))
       (\<lambda>r. case rv_status r of
          ReservationSettled \<Rightarrow> qreturn ((found_fresult r)\<lparr> fr_idempotent := True \<rparr>)
        | ReservationReleased \<Rightarrow> qfail (SReconciliation quotaReconcileKindCacheHitFailed (rv_status r))
        | ReservationExpired \<Rightarrow> qfail (SReconciliation quotaReconcileKindCacheHitFailed (rv_status r))
        | _ \<Rightarrow> hit_live ch r)"

end
