(* ===== verification/Quota_Finalize.thy ===== *)
theory Quota_Finalize
  imports Quota_Settle
begin

text \<open>
  The finalisations as the service offers them (backend/internal/quota/service_settle.go,
  service_reverse.go, service_finalization_resilience.go): the transactions of the previous theory
  under the retry loop, what is queued for the reconciler when they fail, and the reversal of a
  settled cost. A failed call answers with its error and with whether a job was queued.
\<close>

section \<open>Errors\<close>

text \<open>\<open>errors.Is\<close> along the chain of wrapped errors.\<close>

fun serr_is :: "q_serr \<Rightarrow> q_serr \<Rightarrow> bool" where
  "serr_is target (SRetryable operation e) = (target = SRetryable operation e \<or> serr_is target e)"
| "serr_is target (SJoined a b) = (target = SJoined a b \<or> serr_is target a \<or> serr_is target b)"
| "serr_is target (SEnqueue e) = (target = SEnqueue e \<or> serr_is target e)"
| "serr_is target e = (target = e)"

definition invalid_status :: "q_serr \<Rightarrow> bool" where
  "invalid_status e \<longleftrightarrow> (case e of SInvalidStatus operation st \<Rightarrow> True | _ \<Rightarrow> False)"

definition shouldQueueQuotaFinalizationFailure :: "q_serr \<Rightarrow> bool" where
  "shouldQueueQuotaFinalizationFailure e \<longleftrightarrow>
     \<not> serr_is SNotFound e \<and> \<not> serr_is SMismatch e \<and> \<not> serr_is SInvalidatedByRevival e \<and>
     \<not> serr_is SDeferredForRevival e \<and> \<not> invalid_status e"

section \<open>Retries and the hand-over\<close>

definition releaseFinalizationAttempts :: nat where
  "releaseFinalizationAttempts = 6"

definition quotaCleanupAttempts :: nat where
  "quotaCleanupAttempts = 3"

definition runQuotaFinalizationWithRetry ::
    "q_store_kind \<Rightarrow> string \<Rightarrow> nat \<Rightarrow> (q_serr, 'a) qm \<Rightarrow> (q_serr, 'a) qm" where
  "runQuotaFinalizationWithRetry store operation attempts body =
     (if store = StoreMissing then qfail SNotConfigured
      else retry_tx (SRetryable (''quota '' @ operation @ '' transaction'')) (attempts - 1) (withStore store body))"

definition runQuotaOutsideFailedTx :: "q_store_kind \<Rightarrow> (q_serr, 'a) qm \<Rightarrow> (q_serr, 'a) qm" where
  "runQuotaOutsideFailedTx store body = (if store = StoreTx then withTx SDb body else body)"

definition runQuotaCleanupStepWithRetry :: "q_store_kind \<Rightarrow> (q_serr, 'a) qm \<Rightarrow> (q_serr, 'a) qm" where
  "runQuotaCleanupStepWithRetry store body =
     retry_tx (\<lambda>e. e) (quotaCleanupAttempts - 1) (runQuotaOutsideFailedTx store body)"

definition reconciliationDBKind :: "string \<Rightarrow> string" where
  "reconciliationDBKind kind =
     (if kind = quotaReconcileKindSettleFailed then ''settle_after_billing_success''
      else if kind = quotaReconcileKindReleaseFailed then ''release_after_abort''
      else if kind = quotaReconcileKindCacheHitFailed then ''release_after_cache_hit''
      else kind)"

definition enqueue_now :: "int \<Rightarrow> int \<Rightarrow> int option \<Rightarrow> string \<Rightarrow> (q_serr, q_job) qm" where
  "enqueue_now tenant claim rid kind =
     db (\<lambda>now d. enqueueJob tenant claim rid (reconciliationDBKind kind) kind now now d)"

definition enqueueFinalizationReconciliation ::
    "q_store_kind \<Rightarrow> int \<Rightarrow> int \<Rightarrow> int \<Rightarrow> string \<Rightarrow> (q_serr, bool) qm" where
  "enqueueFinalizationReconciliation store tenant claim rid kind =
     (if store = StoreMissing then qfail (SEnqueue SNotConfigured)
      else
        qcatch (if rid \<noteq> 0 then runQuotaOutsideFailedTx store (db (markReconciliationNeeded tenant rid claim))
                else qfail SNotFound) (\<lambda>_.
        qcatch (runQuotaOutsideFailedTx store (enqueue_now tenant claim (if rid \<noteq> 0 then Some rid else None) kind)) (\<lambda>x.
          case x of Inl e \<Rightarrow> qfail (SEnqueue e) | Inr j \<Rightarrow> qreturn True)))"

definition handoffReleaseRecovery :: "q_store_kind \<Rightarrow> int \<Rightarrow> int \<Rightarrow> int \<Rightarrow> (q_serr, bool) qm" where
  "handoffReleaseRecovery store tenant claim rid =
     (if store = StoreMissing then qfail (SEnqueue SNotConfigured)
      else
        qcatch (runQuotaCleanupStepWithRetry store (db (prepareReleaseRecovery tenant claim rid))) (\<lambda>x. case x of
          Inl e \<Rightarrow> if e = SDb ErrNoRows then qreturn False else qfail (SEnqueue e)
        | Inr r \<Rightarrow>
            qcatch (runQuotaCleanupStepWithRetry store
                     (enqueue_now tenant claim (Some (rv_id r)) quotaReconcileKindReleaseFailed)) (\<lambda>y.
              case y of Inl e \<Rightarrow> qfail (SEnqueue e) | Inr j \<Rightarrow> qreturn True)))"

text \<open>A failed finalisation, with the step that queues its repair.\<close>

definition finalization :: "(q_serr, q_fresult) qm \<Rightarrow> (q_serr, bool) qm \<Rightarrow> (q_serr \<times> bool, q_fresult) qm" where
  "finalization run queue =
     qcatch run (\<lambda>x. case x of
       Inr res \<Rightarrow> qreturn res
     | Inl e \<Rightarrow>
         if shouldQueueQuotaFinalizationFailure e
         then qcatch queue (\<lambda>y. case y of Inl e' \<Rightarrow> qfail (SJoined e e', False) | Inr queued \<Rightarrow> qfail (e, queued))
         else qfail (e, False))"

section \<open>Settle, Release, CommitCacheHit\<close>

definition Settle :: "q_store_kind \<Rightarrow> q_settle \<Rightarrow> (q_serr \<times> bool, q_fresult) qm" where
  "Settle store se0 s =
     (let se = normalizeSettleRequest (st_now s) se0
      in case validateSettleRequest se of
           Some e \<Rightarrow> (Inl (e, False), s)
         | None \<Rightarrow> finalization (runQuotaFinalizationWithRetry store ''settle'' reserveTxRetryAttempts (settle_body se))
             (enqueueFinalizationReconciliation store (se_tenant se) (se_claim se) (se_reservation se)
                quotaReconcileKindSettleFailed) s)"

definition Release :: "q_store_kind \<Rightarrow> q_release \<Rightarrow> (q_serr \<times> bool, q_fresult) qm" where
  "Release store re0 s =
     (let re = normalizeReleaseRequest (st_now s) re0
      in case validateReleaseRequest re of
           Some e \<Rightarrow> (Inl (e, False), s)
         | None \<Rightarrow> finalization (runQuotaFinalizationWithRetry store ''release'' releaseFinalizationAttempts (release_body re))
             (handoffReleaseRecovery store (re_tenant re) (re_claim re) (re_reservation re)) s)"

definition CommitCacheHit :: "q_store_kind \<Rightarrow> q_hit \<Rightarrow> (q_serr \<times> bool, q_fresult) qm" where
  "CommitCacheHit store ch0 s =
     (let ch = normalizeCacheHitRequest (st_now s) ch0
      in case validateCacheHitRequest ch of
           Some e \<Rightarrow> (Inl (e, False), s)
         | None \<Rightarrow> finalization (runQuotaFinalizationWithRetry store ''cache_hit'' reserveTxRetryAttempts (hit_body ch))
             (enqueueFinalizationReconciliation store (ch_tenant ch) (ch_claim ch) (ch_reservation ch)
                quotaReconcileKindCacheHitFailed) s)"

section \<open>ReverseCost\<close>

record q_reverse =
  rx_tenant :: int
  rx_claim :: int
  rx_amount :: rat
  rx_actor :: "string option"

record q_rresult =
  rz_reservation :: "q_reservation option"
  rz_reversed :: rat
  rz_skipped :: bool

definition skipped_reverse :: "q_reservation option \<Rightarrow> rat \<Rightarrow> q_rresult" where
  "skipped_reverse r amount = \<lparr> rz_reservation = r, rz_reversed = amount, rz_skipped = True \<rparr>"

definition reverse_window :: "q_reservation \<Rightarrow> rat \<Rightarrow> q_final \<Rightarrow> (q_serr, rat) qm" where
  "reverse_window r amount f =
     (if fp_metric f \<noteq> MetricCostUSD then qreturn 0
      else qbind (snapshotWindowForUpdate (rv_tenant r) f) (\<lambda>c.
        let part = (if wn_settled c < amount then wn_settled c else amount)
        in if part \<le> 0 then qreturn 0
           else qbind (db (applyWindowSettlement (rv_tenant r) (wn_id c) 0 (- part) 0)) (\<lambda>_. qreturn part)))"

fun reverse_windows :: "q_reservation \<Rightarrow> rat \<Rightarrow> q_final list \<Rightarrow> rat \<Rightarrow> (q_serr, rat) qm" where
  "reverse_windows r amount [] acc = qreturn acc"
| "reverse_windows r amount (f # fs) acc =
     qbind (reverse_window r amount f) (\<lambda>part. reverse_windows r amount fs (acc + part))"

definition reverseCostSettlementWindows :: "q_reservation \<Rightarrow> rat \<Rightarrow> (q_serr, rat) qm" where
  "reverseCostSettlementWindows r amount =
     (if amount \<le> 0 then qreturn 0 else qbind (finalizationPolicies r) (\<lambda>fs. reverse_windows r amount fs 0))"

definition nothing_to_reverse :: "q_reverse \<Rightarrow> bool" where
  "nothing_to_reverse rx \<longleftrightarrow> rx_tenant rx \<le> 0 \<or> rx_claim rx \<le> 0 \<or> rx_amount rx \<le> 0"

definition reverseCostWithStore :: "q_reverse \<Rightarrow> (q_serr, q_rresult) qm" where
  "reverseCostWithStore rx =
     (if nothing_to_reverse rx then qreturn (skipped_reverse None 0)
      else qcatch (getFinalizationReservation (rx_tenant rx) (rx_claim rx) 0 ''cost_reversed'' (rx_actor rx)) (\<lambda>x. case x of
        Inl e \<Rightarrow> if e = SNotFound then qreturn (skipped_reverse None 0) else qfail e
      | Inr r \<Rightarrow>
          if rv_status r \<noteq> ReservationSettled then qreturn (skipped_reverse (Some r) 0)
          else qbind (reverseCostSettlementWindows r (rx_amount rx)) (\<lambda>reversed.
            if reversed \<le> 0 then qreturn (skipped_reverse (Some r) reversed)
            else qbind (insertQuotaFinalizationAudit \<lparr> fa_reservation = r, fa_operation = ''cost_reversed'',
                   fa_event = ''settled'', fa_code = ''quota_cost_reversed'', fa_metric = MetricCostUSD,
                   fa_reserved = 0, fa_settled = - reversed, fa_overage = 0, fa_actor = rx_actor rx,
                   fa_extra = [(''requested_reverse'', VNum (rx_amount rx)), (''applied_reverse'', VNum reversed)] \<rparr>)
                   (\<lambda>_. qreturn \<lparr> rz_reservation = Some r, rz_reversed = reversed, rz_skipped = False \<rparr>))))"

definition ReverseCost :: "q_store_kind \<Rightarrow> q_reverse \<Rightarrow> (q_serr, q_rresult) qm" where
  "ReverseCost store rx =
     (if nothing_to_reverse rx then qreturn (skipped_reverse None 0)
      else qcatch (runQuotaFinalizationWithRetry store ''reverse_cost'' reserveTxRetryAttempts (reverseCostWithStore rx)) (\<lambda>x.
        case x of
          Inl e \<Rightarrow> if serr_is SNotFound e then qreturn (skipped_reverse None 0) else qfail e
        | Inr res \<Rightarrow> qreturn res))"

end
