(* ===== verification/Quota_Reconcile.thy ===== *)
theory Quota_Reconcile
  imports Quota_Finalize
begin

text \<open>
  The reconciler (backend/internal/quota/reconciler.go, reconciliation_worker.go): it replays the jobs
  of failed finalisations, sweeps reservations that no job covers, and the round its worker runs. Calls
  to the store here are transactions of their own. A round answers with the number of jobs done and
  the errors it met; the error column of a job holds the class of the error.
\<close>

section \<open>Options\<close>

record q_reconciler =
  rc_store :: q_store_kind
  rc_maxAttempts :: int
  rc_baseBackoff :: duration
  rc_maxBackoff :: duration
  rc_limit :: int
  rc_tenantSweep :: int

definition NewReconciler :: "q_reconciler \<Rightarrow> q_reconciler" where
  "NewReconciler opts = \<lparr> rc_store = rc_store opts,
     rc_maxAttempts = (if rc_maxAttempts opts \<le> 0 then 10 else rc_maxAttempts opts),
     rc_baseBackoff = (if rc_baseBackoff opts \<le> 0 then minute else rc_baseBackoff opts),
     rc_maxBackoff = (if rc_maxBackoff opts \<le> 0 then hour else rc_maxBackoff opts),
     rc_limit = (if rc_limit opts \<le> 0 then 100 else rc_limit opts),
     rc_tenantSweep = (if rc_tenantSweep opts \<le> 0 then 200 else rc_tenantSweep opts) \<rparr>"

section \<open>One job\<close>

fun doubled :: "duration \<Rightarrow> nat \<Rightarrow> duration \<Rightarrow> duration" where
  "doubled cap 0 b = b"
| "doubled cap (Suc n) b = (if cap div 2 \<le> b then cap else doubled cap n (b * 2))"

definition nextRunAt :: "q_reconciler \<Rightarrow> instant \<Rightarrow> int \<Rightarrow> instant" where
  "nextRunAt rc now attempts = now + min (doubled (rc_maxBackoff rc) (nat attempts) (rc_baseBackoff rc)) (rc_maxBackoff rc)"

text \<open>\<open>attempt\<close> turns a finalisation into a call of which only the error matters.\<close>

definition attempt :: "(q_serr \<times> bool, q_fresult) qm \<Rightarrow> (q_serr, q_fresult) qm" where
  "attempt m = qcatch m (\<lambda>x. case x of Inl (e, queued) \<Rightarrow> qfail e | Inr res \<Rightarrow> qreturn res)"

definition settle_amount :: "q_reservation \<Rightarrow> q_serr + q_claim \<Rightarrow> rat" where
  "settle_amount r x =
     (case x of
        Inr c \<Rightarrow> (case qc_actualCost c of Some cost \<Rightarrow> cost | None \<Rightarrow> rv_predicted r)
      | Inl e \<Rightarrow> rv_predicted r)"

definition replayJob :: "q_reconciler \<Rightarrow> int \<Rightarrow> instant \<Rightarrow> q_job \<Rightarrow> (q_serr, unit) qm" where
  "replayJob rc tenant now j =
     qbind (db (getReservationByClaim tenant (jb_claim j))) (\<lambda>r.
       let rid = (case jb_reservation j of Some i \<Rightarrow> i | None \<Rightarrow> rv_id r)
       in if jb_kind j = ''settle_after_billing_success'' then
            qcatch (db (getClaimState tenant (jb_claim j))) (\<lambda>x.
            qbind (attempt (Settle (rc_store rc) \<lparr> se_tenant = tenant, se_claim = jb_claim j, se_reservation = rid,
                     se_cost = settle_amount r x, se_at = now, se_actor = None \<rparr>)) (\<lambda>_. qreturn ()))
          else if jb_kind j = ''release_after_abort'' then
            qcatch (attempt (Release (rc_store rc) \<lparr> re_tenant = tenant, re_claim = jb_claim j, re_reservation = rid,
                     re_reason = ''upstream_error'', re_at = now, re_actor = None \<rparr>)) (\<lambda>x. case x of
              Inl e \<Rightarrow> qfail (if serr_is SInvalidatedByRevival e then SRecoveryInvalidated else e)
            | Inr res \<Rightarrow> qreturn ())
          else if jb_kind j = ''release_after_cache_hit'' then
            qbind (attempt (CommitCacheHit (rc_store rc) \<lparr> ch_tenant = tenant, ch_claim = jb_claim j, ch_reservation = rid,
                     ch_at = now, ch_actor = None, ch_key = [], ch_source = ''quota_reconciler'' \<rparr>)) (\<lambda>_. qreturn ())
          else qfail (SPlain ''quota reconciler: unsupported job kind''))"

definition serr_class :: "q_serr \<Rightarrow> string" where
  "serr_class e = (case e of SDb _ \<Rightarrow> ''database'' | SNotFound \<Rightarrow> ''quota: reservation not found''
     | SMismatch \<Rightarrow> ''quota: reservation identity mismatch'' | SRetryable operation _ \<Rightarrow> ''quota: retryable: '' @ operation
     | SReconciliation kind _ \<Rightarrow> ''quota: reconciliation needed: '' @ kind | SPlain text \<Rightarrow> text
     | SRecoveryInvalidated \<Rightarrow> ''quota reconciler: recovery invalidated'' | _ \<Rightarrow> ''quota: error'')"

definition job_terminal :: "q_reconciler \<Rightarrow> q_job \<Rightarrow> q_serr \<Rightarrow> bool" where
  "job_terminal rc j cause \<longleftrightarrow>
     serr_is SRecoveryInvalidated cause \<or>
     \<not> serr_is SDeferredForRevival cause \<and> 0 < rc_maxAttempts rc \<and> rc_maxAttempts rc \<le> jb_attempts j + 1"

definition failRunningJob :: "q_reconciler \<Rightarrow> int \<Rightarrow> instant \<Rightarrow> q_job \<Rightarrow> q_serr \<Rightarrow> (q_serr, unit) qm" where
  "failRunningJob rc tenant now j cause =
     (let terminal = job_terminal rc j cause
      in db (failJob tenant (jb_id j) (serr_class cause)
               (if terminal then now + 3650 * 24 * hour else nextRunAt rc now (jb_attempts j)) terminal))"

text \<open>What became of one job: done, or the errors to report.\<close>

definition fail_job :: "q_reconciler \<Rightarrow> int \<Rightarrow> instant \<Rightarrow> q_job \<Rightarrow> q_serr \<Rightarrow> (q_serr, int \<times> q_serr list) qm" where
  "fail_job rc tenant now j cause =
     qcatch (failRunningJob rc tenant now j cause) (\<lambda>x. case x of
       Inl e \<Rightarrow> qreturn (0, [SJoined cause e]) | Inr u \<Rightarrow> qreturn (0, [cause]))"

definition run_job :: "q_reconciler \<Rightarrow> int \<Rightarrow> instant \<Rightarrow> q_job \<Rightarrow> (q_serr, int \<times> q_serr list) qm" where
  "run_job rc tenant now j =
     qcatch (db (markJobRunning tenant (jb_id j))) (\<lambda>x. case x of
       Inl e \<Rightarrow> qreturn (0, [e])
     | Inr u \<Rightarrow>
         qcatch (replayJob rc tenant now j) (\<lambda>y. case y of
           Inl e \<Rightarrow> fail_job rc tenant now j e
         | Inr u \<Rightarrow>
             qcatch (db (completeJob tenant (jb_id j))) (\<lambda>z. case z of
               Inl e \<Rightarrow> fail_job rc tenant now j e
             | Inr u \<Rightarrow> qreturn (1, []))))"

section \<open>The jobs of a tenant, and of all\<close>

fun run_jobs :: "q_reconciler \<Rightarrow> int \<Rightarrow> instant \<Rightarrow> q_job list \<Rightarrow> int \<Rightarrow> q_serr list \<Rightarrow> (q_serr, int \<times> q_serr list) qm" where
  "run_jobs rc tenant now [] n errs = qreturn (n, errs)"
| "run_jobs rc tenant now (j # js) n errs =
     qbind (run_job rc tenant now j) (\<lambda>(k, es). run_jobs rc tenant now js (n + k) (errs @ es))"

definition ReconcileDueJobs :: "q_reconciler \<Rightarrow> int \<Rightarrow> instant \<Rightarrow> int \<Rightarrow> (q_serr, int \<times> q_serr list) qm" where
  "ReconcileDueJobs rc tenant now limit =
     (if rc_store rc = StoreMissing then qreturn (0, [SPlain ''quota reconciler: service and store are required''])
      else if tenant \<le> 0 then qreturn (0, [SPlain ''quota reconciler: tenant_id is required''])
      else if now = zero_time then qreturn (0, [SPlain ''quota reconciler: now is required''])
      else qcatch (db (listDueJobs tenant now (if limit \<le> 0 then rc_limit rc else limit))) (\<lambda>x. case x of
        Inl e \<Rightarrow> qreturn (0, [e])
      | Inr js \<Rightarrow> run_jobs rc tenant now js 0 []))"

text \<open>\<open>ctx.Err()\<close> before a step: the environment decides, as for a pause.\<close>

fun run_tenants :: "q_reconciler \<Rightarrow> instant \<Rightarrow> int list \<Rightarrow> int \<Rightarrow> q_serr list \<Rightarrow> (q_serr, int \<times> q_serr list) qm" where
  "run_tenants rc now [] n errs = qreturn (n, errs)"
| "run_tenants rc now (t # ts) n errs =
     qcatch pause (\<lambda>x. case x of
       Inl e \<Rightarrow> qreturn (n, errs @ [e])
     | Inr u \<Rightarrow> qbind (ReconcileDueJobs rc t now (rc_limit rc)) (\<lambda>(k, es). run_tenants rc now ts (n + k) (errs @ es)))"

definition ReconcileAllTenants :: "q_reconciler \<Rightarrow> instant \<Rightarrow> (q_serr, int \<times> q_serr list) qm" where
  "ReconcileAllTenants rc now =
     (if rc_store rc = StoreMissing then qreturn (0, [SPlain ''quota reconciler: service and store are required''])
      else if now = zero_time then qreturn (0, [SPlain ''quota reconciler: now is required''])
      else qcatch (db (listDueTenants now (rc_tenantSweep rc))) (\<lambda>x. case x of
        Inl e \<Rightarrow> qreturn (0, [e])
      | Inr ts \<Rightarrow> run_tenants rc now ts 0 []))"

section \<open>The sweep\<close>

definition sweep_again :: "q_reservation \<Rightarrow> instant \<Rightarrow> q_reservation \<Rightarrow> bool" where
  "sweep_again row now r \<longleftrightarrow> rv_id r = rv_id row \<and> rv_live r \<and> rv_lease r \<le> now"

definition sweepStaleRow :: "q_reconciler \<Rightarrow> instant \<Rightarrow> q_reservation \<Rightarrow> (q_serr, bool) qm" where
  "sweepStaleRow rc now row =
     qbind (db (getReservationByClaim (rv_tenant row) (rv_claim row))) (\<lambda>r.
       if \<not> sweep_again row now r then qreturn False
       else qbind (db (getClaimState (rv_tenant row) (rv_claim row))) (\<lambda>c.
         case qc_status c of
           ClaimCommitted \<Rightarrow>
             qbind (attempt (Settle (rc_store rc) \<lparr> se_tenant = rv_tenant row, se_claim = rv_claim row,
                      se_reservation = rv_id row, se_cost = settle_amount r (Inr c), se_at = now, se_actor = None \<rparr>))
               (\<lambda>res. qreturn (\<not> fr_idempotent res))
         | ClaimAborted \<Rightarrow>
             qbind (attempt (Release (rc_store rc) \<lparr> re_tenant = rv_tenant row, re_claim = rv_claim row,
                      re_reservation = rv_id row, re_reason = ''upstream_error'', re_at = now, re_actor = None \<rparr>))
               (\<lambda>res. qreturn (\<not> fr_idempotent res))
         | ClaimReserving \<Rightarrow> qreturn False))"

fun sweep_rows :: "q_reconciler \<Rightarrow> instant \<Rightarrow> q_reservation list \<Rightarrow> int \<Rightarrow> q_serr list \<Rightarrow> (q_serr, int \<times> q_serr list) qm" where
  "sweep_rows rc now [] n errs = qreturn (n, errs)"
| "sweep_rows rc now (row # rows) n errs =
     qcatch pause (\<lambda>x. case x of
       Inl e \<Rightarrow> qreturn (n, errs @ [e])
     | Inr u \<Rightarrow>
         qcatch (sweepStaleRow rc now row) (\<lambda>y. case y of
           Inl e \<Rightarrow> sweep_rows rc now rows n (errs @ [e])
         | Inr acted \<Rightarrow> sweep_rows rc now rows (if acted then n + 1 else n) errs))"

definition SweepStaleReservations :: "q_reconciler \<Rightarrow> instant \<Rightarrow> int \<Rightarrow> (q_serr, int \<times> q_serr list) qm" where
  "SweepStaleReservations rc now limit =
     (if rc_store rc = StoreMissing then qreturn (0, [SPlain ''quota reconciler: service and store are required''])
      else if now = zero_time then qreturn (0, [SPlain ''quota reconciler: now is required''])
      else qcatch (db (listStaleReservations now (if limit \<le> 0 then rc_limit rc else limit))) (\<lambda>x. case x of
        Inl e \<Rightarrow> qreturn (0, [e])
      | Inr rows \<Rightarrow> sweep_rows rc now rows 0 []))"

definition RunOnce :: "q_reconciler \<Rightarrow> instant \<Rightarrow> (q_serr, int \<times> q_serr list) qm" where
  "RunOnce rc now s =
     (let t = (if now = zero_time then st_now s else now)
      in qbind (ReconcileAllTenants rc t) (\<lambda>(n, es).
         qbind (SweepStaleReservations rc t 0) (\<lambda>(m, fs). qreturn (n + m, es @ fs))) s)"

end
