(* ===== verification/Quota_Logic.thy ===== *)
theory Quota_Logic
  imports Quota_Reconcile
begin

text \<open>
  Triples over the computations of the quota component: from tables that satisfy a condition, a
  computation ends in a value and tables that satisfy the postcondition, or in an error and tables
  that satisfy the error condition. A transaction that fails leaves the tables it started from, so
  its body needs a postcondition for its successes only. The rules are the ones of the combinators.
\<close>

definition triple ::
    "(q_db \<Rightarrow> bool) \<Rightarrow> ('e, 'a) qm \<Rightarrow> ('a \<Rightarrow> q_db \<Rightarrow> bool) \<Rightarrow> ('e \<Rightarrow> q_db \<Rightarrow> bool) \<Rightarrow> bool" where
  "triple P m Q E \<longleftrightarrow>
     (\<forall>s. P (st_db s) \<longrightarrow> (case m s of (Inr x, s') \<Rightarrow> Q x (st_db s') | (Inl e, s') \<Rightarrow> E e (st_db s')))"

text \<open>\<open>yields\<close> says nothing about errors, \<open>keeps\<close> that a condition outlives success and error.\<close>

definition yields :: "(q_db \<Rightarrow> bool) \<Rightarrow> ('e, 'a) qm \<Rightarrow> ('a \<Rightarrow> q_db \<Rightarrow> bool) \<Rightarrow> bool" where
  "yields P m Q \<longleftrightarrow> triple P m Q (\<lambda>e d. True)"

definition keeps :: "(q_db \<Rightarrow> bool) \<Rightarrow> ('e, 'a) qm \<Rightarrow> bool" where
  "keeps P m \<longleftrightarrow> triple P m (\<lambda>x. P) (\<lambda>e. P)"

named_theorems triple_intros "rules of the combinators"

lemma tripleI:
  assumes "\<And>s x s'. P (st_db s) \<Longrightarrow> m s = (Inr x, s') \<Longrightarrow> Q x (st_db s')"
    and "\<And>s e s'. P (st_db s) \<Longrightarrow> m s = (Inl e, s') \<Longrightarrow> E e (st_db s')"
  shows "triple P m Q E"
  unfolding triple_def by (auto split: prod.splits sum.splits intro: assms)

lemma triple_okD: "triple P m Q E \<Longrightarrow> P (st_db s) \<Longrightarrow> m s = (Inr x, s') \<Longrightarrow> Q x (st_db s')"
  unfolding triple_def by (metis (mono_tags, lifting) case_prod_conv sum.case(2))

lemma triple_errD: "triple P m Q E \<Longrightarrow> P (st_db s) \<Longrightarrow> m s = (Inl e, s') \<Longrightarrow> E e (st_db s')"
  unfolding triple_def by (metis (mono_tags, lifting) case_prod_conv sum.case(1))

lemma yieldsI: "(\<And>s x s'. P (st_db s) \<Longrightarrow> m s = (Inr x, s') \<Longrightarrow> Q x (st_db s')) \<Longrightarrow> yields P m Q"
  unfolding yields_def by (rule tripleI) auto

lemma yieldsD: "yields P m Q \<Longrightarrow> P (st_db s) \<Longrightarrow> m s = (Inr x, s') \<Longrightarrow> Q x (st_db s')"
  unfolding yields_def by (rule triple_okD)

lemma keepsD: "keeps P m \<Longrightarrow> P (st_db s) \<Longrightarrow> P (st_db (snd (m s)))"
  unfolding keeps_def triple_def by (cases "m s") (auto split: sum.splits)

lemma triple_weaken:
  "triple P m Q E \<Longrightarrow> (\<And>d. P' d \<Longrightarrow> P d) \<Longrightarrow> (\<And>x d. Q x d \<Longrightarrow> Q' x d) \<Longrightarrow> (\<And>e d. E e d \<Longrightarrow> E' e d) \<Longrightarrow> triple P' m Q' E'"
  unfolding triple_def by (fastforce split: prod.splits sum.splits)

lemma yields_weaken:
  "yields P m Q \<Longrightarrow> (\<And>d. P' d \<Longrightarrow> P d) \<Longrightarrow> (\<And>x d. Q x d \<Longrightarrow> Q' x d) \<Longrightarrow> yields P' m Q'"
  unfolding yields_def by (erule triple_weaken) simp_all

lemma triple_yields: "triple P m Q E \<Longrightarrow> yields P m Q"
  unfolding yields_def by (erule triple_weaken) simp_all

section \<open>Rules\<close>

lemma triple_return [triple_intros]: "(\<And>d. P d \<Longrightarrow> Q x d) \<Longrightarrow> triple P (qreturn x) Q E"
  unfolding triple_def qreturn_def by simp

lemma triple_fail [triple_intros]: "(\<And>d. P d \<Longrightarrow> E e d) \<Longrightarrow> triple P (qfail e) Q E"
  unfolding triple_def qfail_def by simp

lemma triple_bind:
  assumes "triple P m R E" "\<And>x. triple (R x) (k x) Q E"
  shows "triple P (qbind m k) Q E"
proof (rule tripleI)
  fix s x s'
  assume "P (st_db s)" "qbind m k s = (Inr x, s')"
  then obtain y t where "m s = (Inr y, t)" "k y t = (Inr x, s')"
    unfolding qbind_def by (auto split: prod.splits sum.splits)
  with \<open>P (st_db s)\<close> show "Q x (st_db s')" by (meson assms triple_okD)
next
  fix s e s'
  assume *: "P (st_db s)" "qbind m k s = (Inl e, s')"
  then consider "m s = (Inl e, s')" | y t where "m s = (Inr y, t)" "k y t = (Inl e, s')"
    unfolding qbind_def by (auto split: prod.splits sum.splits)
  then show "E e (st_db s')" using * by cases (meson assms triple_okD triple_errD)+
qed

lemma triple_catch:
  assumes "triple P m R F" "\<And>x. triple (R x) (k (Inr x)) Q E" "\<And>e. triple (F e) (k (Inl e)) Q E"
  shows "triple P (qcatch m k) Q E"
proof -
  have "case qcatch m k s of (Inr x, s') \<Rightarrow> Q x (st_db s') | (Inl e, s') \<Rightarrow> E e (st_db s')" if "P (st_db s)" for s
  proof (cases "m s")
    case (Pair r t)
    then show ?thesis
    proof (cases r)
      case (Inl e)
      then have "F e (st_db t)" using Pair that assms(1) triple_errD by metis
      then show ?thesis using assms(3) Pair Inl unfolding triple_def qcatch_def by fastforce
    next
      case (Inr x)
      then have "R x (st_db t)" using Pair that assms(1) triple_okD by metis
      then show ?thesis using assms(2) Pair Inr unfolding triple_def qcatch_def by fastforce
    qed
  qed
  then show ?thesis unfolding triple_def by blast
qed

lemma yields_return: "(\<And>d. P d \<Longrightarrow> Q x d) \<Longrightarrow> yields P (qreturn x) Q"
  unfolding yields_def by (rule triple_return)

lemma yields_fail: "yields P (qfail e) Q"
  unfolding yields_def by (rule triple_fail) simp

lemma yields_bind: "yields P m R \<Longrightarrow> (\<And>x. yields (R x) (k x) Q) \<Longrightarrow> yields P (qbind m k) Q"
  unfolding yields_def by (rule triple_bind)

lemma yields_catch:
  "triple P m R F \<Longrightarrow> (\<And>x. yields (R x) (k (Inr x)) Q) \<Longrightarrow> (\<And>e. yields (F e) (k (Inl e)) Q) \<Longrightarrow> yields P (qcatch m k) Q"
  unfolding yields_def by (rule triple_catch)

lemma yields_catch_fail:
  assumes "yields P m R" "\<And>x. yields (R x) (k (Inr x)) Q" "\<And>e. \<exists>e'. k (Inl e) = qfail e'"
  shows "yields P (qcatch m k) Q"
proof (rule yields_catch)
  show "triple P m R (\<lambda>e d. True)" using assms(1) by (simp add: yields_def)
  show "yields (\<lambda>d. True) (k (Inl e)) Q" for e using assms(3) [of e] yields_fail by metis
qed (fact assms(2))

lemma keeps_return: "keeps P (qreturn x)"
  unfolding keeps_def by (rule triple_return)

lemma keeps_fail: "keeps P (qfail e)"
  unfolding keeps_def by (rule triple_fail)

lemma keeps_bind: "keeps P m \<Longrightarrow> (\<And>x. keeps P (k x)) \<Longrightarrow> keeps P (qbind m k)"
  unfolding keeps_def by (rule triple_bind)

lemma keeps_catch: "keeps P m \<Longrightarrow> (\<And>r. keeps P (k r)) \<Longrightarrow> keeps P (qcatch m k)"
  unfolding keeps_def by (rule triple_catch)

lemma next_fault_db [simp]: "st_db (snd (next_fault s)) = st_db s"
  by (cases "st_faults s") (simp_all add: next_fault_def)

lemma next_fault_eq: "next_fault s = (f, s') \<Longrightarrow> st_db s' = st_db s"
  using next_fault_db [of s] by simp

lemma qcall_cases:
  assumes "qcall f s = (r, s')"
  obtains e where "r = Inl e" "st_db s' = st_db s"
  | now where "f now (st_db s) = (r, st_db s')"
proof (cases "next_fault s")
  case (Pair g t)
  then have "st_db t = st_db s" by (rule next_fault_eq)
  then show ?thesis
    using assms Pair that by (cases g) (auto simp: qcall_def split: prod.splits)
qed

lemma triple_call:
  assumes "\<And>now d x d'. P d \<Longrightarrow> f now d = (Inr x, d') \<Longrightarrow> Q x d'"
    and "\<And>now d e d'. P d \<Longrightarrow> f now d = (Inl e, d') \<Longrightarrow> E e d'"
    and "\<And>d e. P d \<Longrightarrow> E e d"
  shows "triple P (qcall f) Q E"
proof (rule tripleI)
  fix s x s'
  assume P: "P (st_db s)" and "qcall f s = (Inr x, s')"
  then show "Q x (st_db s')" by (elim qcall_cases) (auto intro: assms(1) [OF P])
next
  fix s e s'
  assume P: "P (st_db s)" and "qcall f s = (Inl e, s')"
  then show "E e (st_db s')" by (elim qcall_cases) (auto intro: assms(2) [OF P] assms(3))
qed

lemma triple_lift:
  assumes "triple P m Q (\<lambda>e. E (SDb e))"
  shows "triple P (qlift m) Q E"
  unfolding qlift_def
  by (rule triple_catch [OF assms]) (auto intro: triple_return triple_fail)

lemma triple_db:
  assumes "\<And>now d x d'. P d \<Longrightarrow> f now d = (Inr x, d') \<Longrightarrow> Q x d'"
    and "\<And>now d e d'. P d \<Longrightarrow> f now d = (Inl e, d') \<Longrightarrow> E (SDb e) d'"
    and "\<And>d e. P d \<Longrightarrow> E (SDb e) d"
  shows "triple P (db f) Q E"
  unfolding db_def by (rule triple_lift, rule triple_call) (fact assms)+

lemma yields_db: "(\<And>now d x d'. P d \<Longrightarrow> f now d = (Inr x, d') \<Longrightarrow> Q x d') \<Longrightarrow> yields P (db f) Q"
  unfolding yields_def by (rule triple_db) auto

lemma yields_call: "(\<And>now d x d'. P d \<Longrightarrow> f now d = (Inr x, d') \<Longrightarrow> Q x d') \<Longrightarrow> yields P (qcall f) Q"
  unfolding yields_def by (rule triple_call) auto

lemma keeps_db: "(\<And>now d. P d \<Longrightarrow> P (snd (f now d))) \<Longrightarrow> keeps P (db f)"
  unfolding keeps_def by (rule triple_db) (metis snd_conv)+

lemma triple_tx:
  assumes "yields P body Q" "\<And>d e. P d \<Longrightarrow> E e d"
  shows "triple P (withTx wrap body) Q E"
proof (rule tripleI)
  fix s x s'
  assume P: "P (st_db s)" and eq: "withTx wrap body s = (Inr x, s')"
  obtain t where t: "next_fault s = (None, t)"
    using eq by (cases "next_fault s") (auto simp: withTx_def split: option.splits prod.splits sum.splits)
  then obtain u where u: "body t = (Inr x, u)" "next_fault u = (None, s')"
    using eq by (auto simp: withTx_def split: option.splits prod.splits sum.splits)
  show "Q x (st_db s')"
    using yieldsD [OF assms(1) _ u(1)] P next_fault_eq [OF t] next_fault_eq [OF u(2)] by simp
next
  fix s e s'
  assume P: "P (st_db s)" and eq: "withTx wrap body s = (Inl e, s')"
  have "st_db s' = st_db s"
    using eq next_fault_eq [of s] by (auto simp: withTx_def split: option.splits prod.splits sum.splits)
  then show "E e (st_db s')" using P assms(2) by simp
qed

lemma keeps_tx: "yields P body (\<lambda>x. P) \<Longrightarrow> keeps P (withTx wrap body)"
  unfolding keeps_def by (rule triple_tx)

lemma keeps_pause: "keeps P pause"
  unfolding keeps_def
  by (rule tripleI) (auto simp: pause_def dest: next_fault_eq split: prod.splits option.splits)

lemma keeps_retry: "keeps P body \<Longrightarrow> keeps P (retry_tx wrap n body)"
proof (induction n)
  case 0
  then show ?case by (auto intro!: keeps_catch split: sum.splits intro: keeps_fail keeps_return)
next
  case (Suc n)
  then show ?case
    by (auto intro!: keeps_catch keeps_bind keeps_pause split: sum.splits intro: keeps_fail keeps_return)
qed

lemma keeps_sum: "(\<And>a. keeps P (f a)) \<Longrightarrow> (\<And>b. keeps P (g b)) \<Longrightarrow> keeps P (case x of Inl a \<Rightarrow> f a | Inr b \<Rightarrow> g b)"
  by (cases x) auto

lemma keeps_if: "keeps P m \<Longrightarrow> keeps P n \<Longrightarrow> keeps P (if b then m else n)"
  by simp

lemma yields_if: "(b \<Longrightarrow> yields P m Q) \<Longrightarrow> (\<not> b \<Longrightarrow> yields P n Q) \<Longrightarrow> yields P (if b then m else n) Q"
  by simp

lemmas keeps_intros = keeps_return keeps_fail keeps_bind keeps_catch keeps_pause keeps_retry keeps_sum keeps_if

end
