(* ===== verification/Quota_Books.thy ===== *)
theory Quota_Books
  imports Quota_Logic
begin

text \<open>
  The books of the quota component. A window is known by tenant, policy and start. What it holds in
  reserve must be what the live reservations hold against it by their snapshots, and what it has
  settled must come from settled reservations. Inside a transaction the two sides differ by an amount
  still to be written; \<open>books\<close> carries that difference, and each store operation has one lemma that
  says how it changes.
\<close>

text \<open>Quantified keys stay whole.\<close>

declare split_paired_All [simp del] split_paired_Ex [simp del]

section \<open>Windows and reservations\<close>

type_synonym q_key = "int \<times> int \<times> instant"

definition wn_key :: "q_counter \<Rightarrow> q_key" where
  "wn_key w = (wn_tenant w, wn_policy w, wn_start w)"

definition window_sum :: "(q_counter \<Rightarrow> rat) \<Rightarrow> q_db \<Rightarrow> q_key \<Rightarrow> rat" where
  "window_sum f d k = (\<Sum>w\<leftarrow>qd_windows d. if wn_key w = k then f w else 0)"

abbreviation reserved_of :: "q_db \<Rightarrow> q_key \<Rightarrow> rat" where
  "reserved_of \<equiv> window_sum wn_reserved"

abbreviation settled_of :: "q_db \<Rightarrow> q_key \<Rightarrow> rat" where
  "settled_of \<equiv> window_sum wn_settled"

definition counted :: "q_snap \<Rightarrow> bool" where
  "counted n \<longleftrightarrow> sn_mode n = ModeEnforce \<and> metricHasWindowReservation (sn_metric n)"

definition sn_key :: "int \<Rightarrow> q_snap \<Rightarrow> q_key" where
  "sn_key tenant n = (tenant, sn_id n, (case sn_start n of None \<Rightarrow> zero_time | Some t \<Rightarrow> t))"

definition sn_amount :: "q_snap \<Rightarrow> rat" where
  "sn_amount n = (case sn_reserved n of None \<Rightarrow> 0 | Some a \<Rightarrow> a)"

definition snap_sum :: "(q_snap \<Rightarrow> rat) \<Rightarrow> int \<Rightarrow> q_snap list \<Rightarrow> q_key \<Rightarrow> rat" where
  "snap_sum f tenant ns k = (\<Sum>n\<leftarrow>filter counted ns. if sn_key tenant n = k then f n else 0)"

definition rv_sum :: "(q_snap \<Rightarrow> rat) \<Rightarrow> q_reservation \<Rightarrow> q_key \<Rightarrow> rat" where
  "rv_sum f r k = (case rv_snapshot r of None \<Rightarrow> 0 | Some ns \<Rightarrow> snap_sum f (rv_tenant r) ns k)"

text \<open>What a reservation holds, what it was charged, and by how much its cost exceeded the prediction.\<close>

definition rv_amount :: "q_reservation \<Rightarrow> q_key \<Rightarrow> rat" where
  "rv_amount r = rv_sum sn_amount r"

definition sn_charge :: "rat \<Rightarrow> q_snap \<Rightarrow> rat" where
  "sn_charge cost n =
     (case sn_metric n of MetricRequests \<Rightarrow> 1 | MetricCostUSD \<Rightarrow> cost | _ \<Rightarrow> sn_amount n)"

definition rv_charge :: "q_reservation \<Rightarrow> q_key \<Rightarrow> rat" where
  "rv_charge r = rv_sum (sn_charge (rv_settledCost r)) r"

definition sn_excess :: "rat \<Rightarrow> rat \<Rightarrow> q_snap \<Rightarrow> rat" where
  "sn_excess predicted cost n = (if sn_metric n = MetricCostUSD then max 0 (cost - predicted) else 0)"

definition rv_excess :: "q_reservation \<Rightarrow> q_key \<Rightarrow> rat" where
  "rv_excess r = rv_sum (sn_excess (rv_predicted r) (rv_settledCost r)) r"

definition reservation_sum :: "(q_reservation \<Rightarrow> bool) \<Rightarrow> (q_reservation \<Rightarrow> q_key \<Rightarrow> rat) \<Rightarrow> q_db \<Rightarrow> q_key \<Rightarrow> rat" where
  "reservation_sum P f d k = (\<Sum>r\<leftarrow>qd_reservations d. if P r then f r k else 0)"

definition rv_settled :: "q_reservation \<Rightarrow> bool" where
  "rv_settled r \<longleftrightarrow> rv_status r = ReservationSettled"

abbreviation held :: "q_db \<Rightarrow> q_key \<Rightarrow> rat" where
  "held \<equiv> reservation_sum rv_live rv_amount"

abbreviation charged :: "q_db \<Rightarrow> q_key \<Rightarrow> rat" where
  "charged \<equiv> reservation_sum rv_settled rv_charge"

abbreviation excess :: "q_db \<Rightarrow> q_key \<Rightarrow> rat" where
  "excess \<equiv> reservation_sum rv_settled rv_excess"

section \<open>Well-formed tables\<close>

definition rv_claim_key :: "q_reservation \<Rightarrow> int \<times> int" where
  "rv_claim_key r = (rv_tenant r, rv_claim r)"

definition snap_ok :: "rat \<Rightarrow> q_snap \<Rightarrow> bool" where
  "snap_ok predicted n \<longleftrightarrow>
     (counted n \<longrightarrow> (case sn_reserved n of None \<Rightarrow> False
        | Some a \<Rightarrow> 0 \<le> a \<and> (sn_metric n = MetricRequests \<longrightarrow> a = 1) \<and> (sn_metric n = MetricCostUSD \<longrightarrow> a = predicted)))"

definition rv_ok :: "q_reservation \<Rightarrow> bool" where
  "rv_ok r \<longleftrightarrow> (case rv_snapshot r of None \<Rightarrow> True | Some ns \<Rightarrow> (\<forall>n \<in> set ns. snap_ok (rv_predicted r) n))"

definition prow_id :: "q_prow \<Rightarrow> int" where
  "prow_id r = qp_id (pr_policy r)"

definition tables_ok :: "q_db \<Rightarrow> bool" where
  "tables_ok d \<longleftrightarrow>
     distinct (map wn_id (qd_windows d)) \<and> distinct (map wn_key (qd_windows d)) \<and>
     distinct (map rv_claim_key (qd_reservations d)) \<and> distinct (map prow_id (qd_policies d)) \<and>
     (\<forall>w \<in> set (qd_windows d). wn_id w < qd_nextID d) \<and>
     (\<forall>r \<in> set (qd_reservations d). rv_ok r)"

text \<open>\<open>cap\<close> bounds every limit with its burst, by tenant and policy.\<close>

type_synonym q_limits = "int \<Rightarrow> int \<Rightarrow> rat"

definition limits_ok :: "q_limits \<Rightarrow> q_prow list \<Rightarrow> bool" where
  "limits_ok cap rows \<longleftrightarrow>
     (\<forall>r \<in> set rows. effectiveLimit (pr_policy r) \<le> cap (qp_tenant (pr_policy r)) (qp_id (pr_policy r)))"

definition cap_key :: "q_limits \<Rightarrow> q_key \<Rightarrow> rat" where
  "cap_key cap k = (case k of (tenant, pid, start) \<Rightarrow> cap tenant pid)"

definition books ::
    "bool \<Rightarrow> q_limits \<Rightarrow> (q_key \<Rightarrow> rat) \<Rightarrow> (q_key \<Rightarrow> rat) \<Rightarrow> (q_key \<Rightarrow> rat) \<Rightarrow> q_db \<Rightarrow> bool" where
  "books exact cap P S X d \<longleftrightarrow>
     tables_ok d \<and> limits_ok cap (qd_policies d) \<and>
     (\<forall>k. reserved_of d k = held d k + P k \<and>
          settled_of d k \<le> charged d k + S k \<and> (exact \<longrightarrow> settled_of d k = charged d k + S k) \<and>
          reserved_of d k + settled_of d k \<le> cap_key cap k + excess d k + X k)"

definition balanced :: "bool \<Rightarrow> q_limits \<Rightarrow> q_db \<Rightarrow> bool" where
  "balanced exact cap = books exact cap (\<lambda>k. 0) (\<lambda>k. 0) (\<lambda>k. 0)"

lemma booksD:
  assumes "books exact cap P S X d"
  shows "reserved_of d j = held d j + P j \<and> settled_of d j \<le> charged d j + S j \<and>
      (exact \<longrightarrow> settled_of d j = charged d j + S j) \<and>
      reserved_of d j + settled_of d j \<le> cap_key cap j + excess d j + X j"
  using assms unfolding books_def by blast

lemma books_tables: "books exact cap P S X d \<Longrightarrow> tables_ok d"
  unfolding books_def by blast

section \<open>Sums over updated lists\<close>

lemma sum_list_update_one:
  fixes g :: "'a \<Rightarrow> rat"
  assumes "distinct (map i xs)" "x \<in> set xs" "\<And>y. y \<in> set xs \<Longrightarrow> p y \<longleftrightarrow> i y = i x"
  shows "sum_list (map g (map (\<lambda>y. if p y then f y else y) xs)) = sum_list (map g xs) + g (f x) - g x"
  using assms
proof (induction xs)
  case (Cons a xs)
  show ?case
  proof (cases "i a = i x")
    case True
    have "\<not> p y" if "y \<in> set xs" for y
      using Cons.prems that True by (metis distinct.simps(2) image_eqI list.set_intros(2) list.simps(9) set_map)
    then have same: "map (\<lambda>y. if p y then f y else y) xs = xs" by (simp add: map_idI)
    have "a = x" using Cons.prems True by (metis distinct.simps(2) image_eqI list.simps(9) set_ConsD set_map)
    then show ?thesis using Cons.prems(3) [of a] same by simp
  next
    case False
    then have "x \<in> set xs" "\<not> p a" using Cons.prems by auto
    then show ?thesis using Cons.IH Cons.prems by simp
  qed
qed simp

lemma map_update_keeps: "(\<And>x. i (f x) = i x) \<Longrightarrow> map i (map (\<lambda>y. if p y then f y else y) xs) = map i xs"
  by simp

lemma find_inD: "find p xs = Some x \<Longrightarrow> x \<in> set xs \<and> p x"
  by (auto simp: find_Some_iff)

lemma find_noneD: "find p xs = None \<Longrightarrow> x \<in> set xs \<Longrightarrow> \<not> p x"
  by (auto simp: find_None_iff)


lemma window_sum_eq:
  assumes "tables_ok d" "w \<in> set (qd_windows d)"
  shows "window_sum f d (wn_key w) = f w"
proof -
  have "distinct (map wn_key ws) \<Longrightarrow> w \<in> set ws \<Longrightarrow> (\<Sum>v\<leftarrow>ws. if wn_key v = wn_key w then f v else 0) = f w" for ws
  proof (induction ws)
    case (Cons v ws)
    show ?case
    proof (cases "v = w")
      case True
      then have "wn_key w \<notin> wn_key ` set ws" using Cons.prems by simp
      then have "\<forall>u \<in> set ws. wn_key u \<noteq> wn_key w" by (metis imageI)
      then have "(\<Sum>u\<leftarrow>ws. if wn_key u = wn_key w then f u else 0) = (\<Sum>u\<leftarrow>ws. 0)"
        by (intro arg_cong [where f = sum_list] map_cong) auto
      then show ?thesis using True by simp
    next
      case False
      then have "w \<in> set ws" "wn_key v \<noteq> wn_key w" using Cons.prems by force+
      then show ?thesis using Cons by simp
    qed
  qed simp
  then show ?thesis using assms unfolding window_sum_def tables_ok_def by blast
qed

section \<open>Statements that leave the books alone\<close>

definition same_books :: "q_db \<Rightarrow> q_db \<Rightarrow> bool" where
  "same_books d d' \<longleftrightarrow> qd_windows d' = qd_windows d \<and> qd_reservations d' = qd_reservations d \<and>
     qd_policies d' = qd_policies d \<and> qd_nextID d \<le> qd_nextID d'"

lemma same_books_refl [simp]: "same_books d d"
  by (simp add: same_books_def)

lemma same_books_sums:
  assumes "same_books d d'"
  shows "window_sum f d' = window_sum f d" "reservation_sum Q g d' = reservation_sum Q g d"
  using assms by (simp_all add: same_books_def window_sum_def reservation_sum_def fun_eq_iff)

lemma same_books_tables: "same_books d d' \<Longrightarrow> tables_ok d \<Longrightarrow> tables_ok d'"
  by (auto simp: same_books_def tables_ok_def)

lemma same_books_books:
  assumes "same_books d d'" "books exact cap P S X d"
  shows "books exact cap P S X d'"
proof -
  have "qd_policies d' = qd_policies d" using assms(1) by (simp add: same_books_def)
  then show ?thesis
    using assms(2) same_books_tables [OF assms(1)] unfolding books_def same_books_sums [OF assms(1)] by metis
qed

named_theorems quiet "statements that do not touch windows, reservations and policies"

lemma quiet_audit [quiet]: "same_books d (snd (insertAudit a now d))"
  by (simp add: insertAudit_def same_books_def)

lemma quiet_slots [quiet]: "same_books d (snd (releaseSlots tenant rid reason now d))"
  by (simp add: releaseSlots_def same_books_def Let_def)

lemma quiet_acquire [quiet]: "same_books d (snd (acquireSlot tenant rid claim sc limit t lease now d))"
  by (simp add: acquireSlot_def same_books_def sql_ok_def Let_def split: option.split)

lemma quiet_get [quiet]: "same_books d (snd (getReservationByClaim tenant claim now d))"
  by (simp add: getReservationByClaim_def sql_ok_def sql_none_def split: option.split)

lemma quiet_claim [quiet]: "same_books d (snd (getClaimState tenant claim now d))"
  by (simp add: getClaimState_def sql_ok_def sql_none_def split: option.split)

lemma quiet_window [quiet]: "same_books d (snd (getWindowForUpdate tenant wid now d))"
  by (simp add: getWindowForUpdate_def sql_ok_def sql_none_def split: option.split)

lemma quiet_policies [quiet]: "same_books d (snd (listActivePolicies lower tenant scopes model metrics t now d))"
  by (simp add: listActivePolicies_def sql_ok_def)

lemma quiet_enqueue [quiet]: "same_books d (snd (enqueueJob tenant claim rid kind e t now d))"
  by (simp add: enqueueJob_def sql_none_def set_jobs_def same_books_def Let_def split: option.split)

lemma quiet_update_jobs: "same_books d (snd (update_jobs Q f d))"
  by (simp add: update_jobs_def set_jobs_def sql_none_def same_books_def)

lemma quiet_running [quiet]: "same_books d (snd (markJobRunning tenant jid now d))"
  unfolding markJobRunning_def by (rule quiet_update_jobs)

lemma quiet_complete [quiet]: "same_books d (snd (completeJob tenant jid now d))"
  unfolding completeJob_def by (rule quiet_update_jobs)

lemma quiet_fail [quiet]: "same_books d (snd (failJob tenant jid e t terminal now d))"
  unfolding failJob_def by (rule quiet_update_jobs)

lemma quiet_due [quiet]: "same_books d (snd (listDueJobs tenant t limit now d))"
  by (simp add: listDueJobs_def sql_ok_def)

lemma quiet_tenants [quiet]: "same_books d (snd (listDueTenants t limit now d))"
  by (simp add: listDueTenants_def sql_ok_def)

lemma quiet_stale [quiet]: "same_books d (snd (listStaleReservations t limit now d))"
  by (simp add: listStaleReservations_def sql_ok_def)

lemma quiet_db:
  assumes "\<And>now d. same_books d (snd (f now d))"
  shows "keeps (books exact cap P S X) (db f)"
  by (rule keeps_db) (rule same_books_books [OF assms])

section \<open>Window rows\<close>

definition has_window :: "int \<Rightarrow> q_key \<Rightarrow> q_db \<Rightarrow> bool" where
  "has_window wid k d \<longleftrightarrow> (\<exists>w \<in> set (qd_windows d). wn_id w = wid \<and> wn_key w = k)"

lemma windows_update:
  assumes ok: "tables_ok d" and w: "w \<in> set (qd_windows d)"
    and p: "\<And>v. v \<in> set (qd_windows d) \<Longrightarrow> p v \<longleftrightarrow> v = w"
    and f: "\<And>v. wn_id (f v) = wn_id v" "\<And>v. wn_key (f v) = wn_key v"
  shows "tables_ok (set_windows p f d)"
    and "window_sum g (set_windows p f d) k = window_sum g d k + (if k = wn_key w then g (f w) - g w else 0)"
    and "has_window wid k' d \<Longrightarrow> has_window wid k' (set_windows p f d)"
proof -
  have ids: "map wn_id (map (\<lambda>v. if p v then f v else v) (qd_windows d)) = map wn_id (qd_windows d)"
    "map wn_key (map (\<lambda>v. if p v then f v else v) (qd_windows d)) = map wn_key (qd_windows d)"
    using f by (simp_all add: map_update_keeps)
  show "tables_ok (set_windows p f d)"
    using ok ids f(1) unfolding tables_ok_def set_windows_def by (auto simp del: map_map)
  have "p v \<longleftrightarrow> wn_id v = wn_id w" if "v \<in> set (qd_windows d)" for v
    using p [OF that] ok that w unfolding tables_ok_def by (metis distinct_map inj_onD)
  moreover have "distinct (map wn_id (qd_windows d))" using ok by (simp add: tables_ok_def)
  ultimately show "window_sum g (set_windows p f d) k = window_sum g d k + (if k = wn_key w then g (f w) - g w else 0)"
    using sum_list_update_one [where i = wn_id and x = w and g = "\<lambda>v. if wn_key v = k then g v else 0", OF _ w] f(2) [of w]
    by (auto simp: window_sum_def set_windows_def)
  show "has_window wid k' d \<Longrightarrow> has_window wid k' (set_windows p f d)"
  proof -
    assume "has_window wid k' d"
    then obtain v where v: "v \<in> set (qd_windows d)" "wn_id v = wid" "wn_key v = k'" unfolding has_window_def by blast
    then have "(if p v then f v else v) \<in> set (qd_windows (set_windows p f d))" by (simp add: set_windows_def)
    moreover have "wn_id (if p v then f v else v) = wid" "wn_key (if p v then f v else v) = k'" using v f by simp_all
    ultimately show ?thesis unfolding has_window_def by blast
  qed
qed


lemma window_is_iff:
  assumes "tables_ok d" "w \<in> set (qd_windows d)" "v \<in> set (qd_windows d)"
  shows "window_is (wn_tenant w) (wn_id w) v \<longleftrightarrow> v = w"
  using assms unfolding tables_ok_def window_is_def by (metis distinct_map inj_onD)

lemma window_at_iff:
  assumes "tables_ok d" "w \<in> set (qd_windows d)" "v \<in> set (qd_windows d)"
  shows "window_at (wn_tenant w) (wn_policy w) (wn_start w) v \<longleftrightarrow> v = w"
proof -
  have "window_at (wn_tenant w) (wn_policy w) (wn_start w) v \<longleftrightarrow> wn_key v = wn_key w"
    by (auto simp: window_at_def wn_key_def)
  then show ?thesis using assms unfolding tables_ok_def by (metis distinct_map inj_onD)
qed

lemma upsert_existing:
  assumes ok: "tables_ok d" and w: "find (window_at tenant pid (qw_start win)) (qd_windows d) = Some w"
  defines "d' \<equiv> set_windows (window_at tenant pid (qw_start win)) (\<lambda>w. w\<lparr> wn_end := qw_end win \<rparr>) d"
  shows "tables_ok d'" "window_sum wn_reserved d' = window_sum wn_reserved d"
    "window_sum wn_settled d' = window_sum wn_settled d" "has_window wid k d \<Longrightarrow> has_window wid k d'"
    "has_window (wn_id w) (tenant, pid, qw_start win) d'"
proof -
  have in_d: "w \<in> set (qd_windows d)" and key: "wn_tenant w = tenant" "wn_policy w = pid" "wn_start w = qw_start win"
    using find_inD [OF w] by (auto simp: window_at_def)
  have iff: "window_at tenant pid (qw_start win) v \<longleftrightarrow> v = w" if "v \<in> set (qd_windows d)" for v
    using window_at_iff [OF ok in_d that] key by simp
  note upd = windows_update [OF ok in_d iff, where f = "\<lambda>w. w\<lparr> wn_end := qw_end win \<rparr>", folded d'_def]
  have keep: "wn_key (v\<lparr> wn_end := qw_end win \<rparr>) = wn_key v" for v by (simp add: wn_key_def)
  show "tables_ok d'" using upd(1) keep by simp
  show "window_sum wn_reserved d' = window_sum wn_reserved d" "window_sum wn_settled d' = window_sum wn_settled d"
    using upd(2) keep by (simp_all add: fun_eq_iff)
  show keep_has: "has_window wid k d \<Longrightarrow> has_window wid k d'" for wid k using upd(3) keep by simp
  have "has_window (wn_id w) (tenant, pid, qw_start win) d"
    using in_d key by (auto simp: has_window_def wn_key_def)
  then show "has_window (wn_id w) (tenant, pid, qw_start win) d'" by (rule keep_has)
qed

lemma upsert_new:
  assumes ok: "tables_ok d" and none: "find (window_at tenant pid (qw_start win)) (qd_windows d) = None"
    and w: "wn_id w = qd_nextID d" "wn_tenant w = tenant" "wn_policy w = pid" "wn_start w = qw_start win"
      "wn_reserved w = 0" "wn_settled w = 0"
  defines "d' \<equiv> d\<lparr> qd_windows := qd_windows d @ [w], qd_nextID := qd_nextID d + 1 \<rparr>"
  shows "tables_ok d'" "window_sum wn_reserved d' = window_sum wn_reserved d"
    "window_sum wn_settled d' = window_sum wn_settled d" "has_window wid k d \<Longrightarrow> has_window wid k d'"
    "has_window (wn_id w) (tenant, pid, qw_start win) d'"
proof -
  have "wn_key v \<noteq> wn_key w" if "v \<in> set (qd_windows d)" for v
    using find_noneD [OF none that] w by (auto simp: window_at_def wn_key_def)
  moreover have "wn_id v \<noteq> wn_id w" if "v \<in> set (qd_windows d)" for v
    using ok that w(1) unfolding tables_ok_def by fastforce
  ultimately have "wn_key w \<notin> wn_key ` set (qd_windows d)" "wn_id w \<notin> wn_id ` set (qd_windows d)" by (metis imageE)+
  then show "tables_ok d'" using ok w(1) by (auto simp: tables_ok_def d'_def)
  show "window_sum wn_reserved d' = window_sum wn_reserved d" "window_sum wn_settled d' = window_sum wn_settled d"
    using w by (simp_all add: window_sum_def d'_def fun_eq_iff)
  show "has_window wid k d \<Longrightarrow> has_window wid k d'" by (auto simp: has_window_def d'_def)
  show "has_window (wn_id w) (tenant, pid, qw_start win) d'" using w by (auto simp: has_window_def d'_def wn_key_def)
qed

text \<open>What a window statement changes: the sums, at one key, and nothing else.\<close>

definition windows_moved :: "q_key \<Rightarrow> rat \<Rightarrow> rat \<Rightarrow> q_db \<Rightarrow> q_db \<Rightarrow> bool" where
  "windows_moved k a b d d' \<longleftrightarrow>
     tables_ok d' \<and> qd_reservations d' = qd_reservations d \<and> qd_policies d' = qd_policies d \<and>
     (\<forall>j. reserved_of d' j = reserved_of d j + (if j = k then a else 0)) \<and>
     (\<forall>j. settled_of d' j = settled_of d j + (if j = k then b else 0)) \<and>
     (\<forall>wid j. has_window wid j d \<longrightarrow> has_window wid j d')"

lemma upsertWindow_moved:
  assumes "tables_ok d" "upsertWindow tenant pid win now d = (Inr w, d')"
  shows "windows_moved (tenant, pid, qw_start win) 0 0 d d'" "has_window (wn_id w) (tenant, pid, qw_start win) d'"
proof -
  let ?k = "(tenant, pid, qw_start win)"
  have "windows_moved ?k 0 0 d d' \<and> has_window (wn_id w) ?k d'"
  proof (cases "find (window_at tenant pid (qw_start win)) (qd_windows d)")
    case None
    let ?w = "\<lparr> wn_tenant = tenant, wn_id = qd_nextID d, wn_policy = pid, wn_start = qw_start win,
        wn_end = qw_end win, wn_reserved = 0, wn_settled = 0, wn_overage = 0, wn_requests = 0, wn_version = 1 \<rparr>"
    have "w = ?w" "d' = d\<lparr> qd_windows := qd_windows d @ [?w], qd_nextID := qd_nextID d + 1 \<rparr>"
      using assms(2) None by (auto simp: upsertWindow_def sql_none_def Let_def split: if_splits)
    then show ?thesis using upsert_new [OF assms(1) None, where w = ?w]
      by (simp add: windows_moved_def)
  next
    case (Some v)
    then have "wn_id w = wn_id v"
      "d' = set_windows (window_at tenant pid (qw_start win)) (\<lambda>w. w\<lparr> wn_end := qw_end win \<rparr>) d"
      using assms(2) by (auto simp: upsertWindow_def sql_none_def split: if_splits)
    then show ?thesis using upsert_existing [OF assms(1) Some]
      by (simp add: windows_moved_def set_windows_def)
  qed
  then show "windows_moved ?k 0 0 d d'" "has_window (wn_id w) ?k d'" by blast+
qed

lemma update_window_moved:
  assumes ok: "tables_ok d" and has: "has_window wid k d" and k: "k = (tenant, rest)"
    and upd: "update_window tenant wid guard f d = (Inr w, d')"
    and f: "\<And>v. wn_id (f v) = wn_id v" "\<And>v. wn_key (f v) = wn_key v"
  obtains v where "v \<in> set (qd_windows d)" "wn_key v = k" "guard v"
    "reserved_of d k = wn_reserved v" "settled_of d k = wn_settled v"
    "windows_moved k (wn_reserved (f v) - wn_reserved v) (wn_settled (f v) - wn_settled v) d d'"
proof -
  obtain u where u: "u \<in> set (qd_windows d)" "wn_id u = wid" "wn_key u = k"
    using has by (auto simp: has_window_def)
  then have tenant: "wn_tenant u = tenant" using k by (simp add: wn_key_def)
  have iff: "window_is tenant wid v \<longleftrightarrow> v = u" if "v \<in> set (qd_windows d)" for v
    using window_is_iff [OF ok u(1) that] u(2) tenant by simp
  have "find (window_is tenant wid) (qd_windows d) = Some u"
  proof (cases "find (window_is tenant wid) (qd_windows d)")
    case None
    then show ?thesis using find_noneD [OF None u(1)] iff [OF u(1)] by simp
  next
    case (Some v)
    then show ?thesis using find_inD [OF Some] iff by blast
  qed
  then have d': "d' = set_windows (window_is tenant wid) f d" "guard u"
    using upd by (auto simp: update_window_def sql_none_def split: if_splits)
  note upd = windows_update [OF ok u(1) iff f, folded d'(1)]
  have "windows_moved k (wn_reserved (f u) - wn_reserved u) (wn_settled (f u) - wn_settled u) d d'"
    unfolding windows_moved_def using upd u(3) by (simp add: d'(1) set_windows_def)
  then show thesis using that [OF u(1) u(3) d'(2)] window_sum_eq [OF ok u(1)] u(3) by simp
qed

lemma books_moved:
  assumes b: "books exact cap P S X d" and m: "windows_moved k a b d d'"
    and S': "S' k = S k + b" and P': "P' k = P k + a"
    and X': "reserved_of d' k + settled_of d' k \<le> cap_key cap k + excess d k + X' k"
    and other: "\<And>j. j \<noteq> k \<Longrightarrow> P' j = P j \<and> S' j = S j \<and> X' j = X j"
  shows "books exact cap P' S' X' d'"
proof -
  have res: "qd_reservations d' = qd_reservations d" and pol: "qd_policies d' = qd_policies d" and ok: "tables_ok d'"
    and R: "\<And>j. reserved_of d' j = reserved_of d j + (if j = k then a else 0)"
    and T: "\<And>j. settled_of d' j = settled_of d j + (if j = k then b else 0)"
    using m by (auto simp: windows_moved_def)
  have sums: "reservation_sum Q g d' = reservation_sum Q g d" for Q g
    using res by (simp add: reservation_sum_def fun_eq_iff)
  note B = booksD [OF b]
  have "reserved_of d' j = held d' j + P' j \<and> settled_of d' j \<le> charged d' j + S' j \<and>
      (exact \<longrightarrow> settled_of d' j = charged d' j + S' j) \<and>
      reserved_of d' j + settled_of d' j \<le> cap_key cap j + excess d' j + X' j" for j
  proof (cases "j = k")
    case True
    then show ?thesis using B [of k] R [of k] T [of k] S' P' X' unfolding sums by auto
  next
    case False
    then show ?thesis using B [of j] R [of j] T [of j] other [OF False] unfolding sums by simp
  qed
  then show ?thesis using b ok pol unfolding books_def by metis
qed

section \<open>Reservation rows\<close>

lemma claim_key_iff:
  assumes "tables_ok d" "r \<in> set (qd_reservations d)" "v \<in> set (qd_reservations d)"
  shows "rv_of_claim (rv_tenant r) (rv_claim r) v \<longleftrightarrow> v = r"
proof -
  have "rv_of_claim (rv_tenant r) (rv_claim r) v \<longleftrightarrow> rv_claim_key v = rv_claim_key r"
    by (auto simp: rv_of_claim_def rv_claim_key_def)
  then show ?thesis using assms unfolding tables_ok_def by (metis distinct_map inj_onD)
qed

lemma reservations_update:
  assumes ok: "tables_ok d" and r: "r \<in> set (qd_reservations d)"
    and p: "\<And>v. v \<in> set (qd_reservations d) \<Longrightarrow> p v \<longleftrightarrow> v = r"
    and f: "\<And>v. rv_claim_key (f v) = rv_claim_key v" "rv_ok (f r)"
  defines "d' \<equiv> d\<lparr> qd_reservations := map (\<lambda>v. if p v then f v else v) (qd_reservations d) \<rparr>"
  shows "tables_ok d'"
    and "reservation_sum Q g d' k =
           reservation_sum Q g d k + (if Q (f r) then g (f r) k else 0) - (if Q r then g r k else 0)"
proof -
  have keys: "map rv_claim_key (qd_reservations d') = map rv_claim_key (qd_reservations d)"
    using f(1) by (simp add: d'_def map_update_keeps)
  have "\<forall>v \<in> set (qd_reservations d'). rv_ok v"
    using ok p f(2) by (auto simp: d'_def tables_ok_def)
  moreover have "distinct (map rv_claim_key (qd_reservations d'))" using ok unfolding keys by (simp add: tables_ok_def)
  moreover have "qd_windows d' = qd_windows d" "qd_policies d' = qd_policies d" "qd_nextID d' = qd_nextID d"
    by (simp_all add: d'_def)
  ultimately show "tables_ok d'" using ok unfolding tables_ok_def by metis
  have "p v \<longleftrightarrow> rv_claim_key v = rv_claim_key r" if "v \<in> set (qd_reservations d)" for v
    using p [OF that] ok that r unfolding tables_ok_def by (metis distinct_map inj_onD)
  moreover have "distinct (map rv_claim_key (qd_reservations d))" using ok by (simp add: tables_ok_def)
  ultimately show "reservation_sum Q g d' k =
      reservation_sum Q g d k + (if Q (f r) then g (f r) k else 0) - (if Q r then g r k else 0)"
    using sum_list_update_one [where i = rv_claim_key and x = r and g = "\<lambda>v. if Q v then g v k else 0", OF _ r]
    by (simp add: reservation_sum_def d'_def)
qed

text \<open>What a statement on one reservation changes.\<close>

definition row_moved :: "q_reservation \<Rightarrow> q_reservation \<Rightarrow> q_db \<Rightarrow> q_db \<Rightarrow> bool" where
  "row_moved r r' d d' \<longleftrightarrow>
     r \<in> set (qd_reservations d) \<and> tables_ok d' \<and> qd_windows d' = qd_windows d \<and> qd_policies d' = qd_policies d \<and>
     (\<forall>Q g k. reservation_sum Q g d' k =
        reservation_sum Q g d k + (if Q r' then g r' k else 0) - (if Q r then g r k else 0))"

lemma update_reservations_moved:
  assumes ok: "tables_ok d" and p: "\<And>v. p v \<Longrightarrow> rv_tenant v = tenant \<and> rv_claim v = claim"
    and f: "\<And>v. rv_claim_key (f v) = rv_claim_key v" "\<And>v. rv_ok v \<Longrightarrow> rv_ok (f v)"
    and upd: "update_reservations p f d = (Inr x, d')"
  obtains r where "p r" "x = f r" "row_moved r (f r) d d'"
proof -
  obtain r where r: "find p (qd_reservations d) = Some r" and x: "x = f r"
    and d': "d' = d\<lparr> qd_reservations := map (\<lambda>v. if p v then f v else v) (qd_reservations d) \<rparr>"
    using upd by (auto simp: update_reservations_def sql_none_def split: option.splits)
  have in_d: "r \<in> set (qd_reservations d)" and pr: "p r" using find_inD [OF r] by auto
  have iff: "p v \<longleftrightarrow> v = r" if "v \<in> set (qd_reservations d)" for v
    using claim_key_iff [OF ok in_d that] p [of v] p [OF pr] pr by (auto simp: rv_of_claim_def)
  have "rv_ok r" using ok in_d by (simp add: tables_ok_def)
  then have "row_moved r (f r) d d'"
    unfolding row_moved_def
    using in_d reservations_update [OF ok in_d iff f(1) f(2) [OF \<open>rv_ok r\<close>], folded d'] d' by simp
  with pr x show thesis by (rule that)
qed

lemma books_row:
  assumes b: "books exact cap P S X d" and m: "row_moved r r' d d'"
    and P': "\<And>k. P' k = P k + (if rv_live r then rv_amount r k else 0) - (if rv_live r' then rv_amount r' k else 0)"
    and S': "\<And>k. S' k = S k + (if rv_settled r then rv_charge r k else 0) - (if rv_settled r' then rv_charge r' k else 0)"
    and X': "\<And>k. X k + (if rv_settled r then rv_excess r k else 0) \<le> X' k + (if rv_settled r' then rv_excess r' k else 0)"
  shows "books exact cap P' S' X' d'"
proof -
  have ok: "tables_ok d'" and win: "qd_windows d' = qd_windows d" and pol: "qd_policies d' = qd_policies d"
    and sums: "\<And>Q g k. reservation_sum Q g d' k =
        reservation_sum Q g d k + (if Q r' then g r' k else 0) - (if Q r then g r k else 0)"
    using m by (auto simp: row_moved_def)
  have W: "window_sum g d' = window_sum g d" for g using win by (simp add: window_sum_def fun_eq_iff)
  have "reserved_of d' j = held d' j + P' j \<and> settled_of d' j \<le> charged d' j + S' j \<and>
      (exact \<longrightarrow> settled_of d' j = charged d' j + S' j) \<and>
      reserved_of d' j + settled_of d' j \<le> cap_key cap j + excess d' j + X' j" for j
    using booksD [OF b, of j] P' [of j] S' [of j] X' [of j]
    unfolding W sums [of rv_live rv_amount] sums [of rv_settled rv_charge] sums [of rv_settled rv_excess] by linarith
  then show ?thesis using b ok pol unfolding books_def by metis
qed

text \<open>A change that keeps a live reservation live with its snapshot is none for the books.\<close>

lemma books_row_same:
  assumes b: "books exact cap P S X d" and m: "row_moved r r' d d'"
    and "rv_live r" "rv_live r'" "rv_amount r' = rv_amount r"
  shows "books exact cap P S X d'"
proof -
  have "\<not> rv_settled r" "\<not> rv_settled r'" using assms(3,4) by (auto simp: rv_live_def rv_settled_def)
  then show ?thesis using assms(3-5) by (intro books_row [OF b m]) simp_all
qed

lemma insertReservation_moved:
  assumes ok: "tables_ok d" and ins: "insertReservation lower b now d = (Inr r, d')"
    and snaps: "\<And>n. n \<in> set (bk_snapshot b) \<Longrightarrow> snap_ok (bk_predicted b) n"
  shows "tables_ok d'" "qd_windows d' = qd_windows d" "qd_policies d' = qd_policies d"
    "reservation_sum Q g d' k = reservation_sum Q g d k + (if Q r then g r k else 0)"
    "rv_live r" "rv_amount r k = snap_sum sn_amount (bk_tenant b) (bk_snapshot b) k" "rv_tenant r = bk_tenant b"
proof -
  let ?r = "\<lparr> rv_tenant = bk_tenant b, rv_id = qd_nextID d, rv_claim = bk_claim b,
                      rv_fingerprint = bk_fingerprint b, rv_model = normalizeRequestedModel lower (bk_model b),
                      rv_scopes = stored_scopes (bk_tenant b) (bk_scopes b), rv_snapshot = Some (bk_snapshot b),
                      rv_predicted = bk_predicted b, rv_units = bk_units b, rv_status = ReservationReserved,
                      rv_lease = bk_lease b, rv_settledCost = 0, rv_settledUnits = 0, rv_overageUnits = 0,
                      rv_releaseReason = None \<rparr>"
  have r: "r = ?r" and d': "d' = d\<lparr> qd_reservations := qd_reservations d @ [?r], qd_nextID := qd_nextID d + 1 \<rparr>"
    and new: "\<forall>v \<in> set (qd_reservations d). \<not> rv_of_claim (bk_tenant b) (bk_claim b) v"
    using ins by (auto simp: insertReservation_def sql_none_def Let_def split: if_splits)
  have "rv_claim_key ?r \<notin> rv_claim_key ` set (qd_reservations d)"
    using new by (auto simp: rv_of_claim_def rv_claim_key_def)
  then show "tables_ok d'" using ok snaps by (auto simp: tables_ok_def d' rv_ok_def)
  show "qd_windows d' = qd_windows d" "qd_policies d' = qd_policies d" by (simp_all add: d')
  show "reservation_sum Q g d' k = reservation_sum Q g d k + (if Q r then g r k else 0)"
    unfolding r by (simp add: reservation_sum_def d')
  show "rv_live r" "rv_amount r k = snap_sum sn_amount (bk_tenant b) (bk_snapshot b) k" "rv_tenant r = bk_tenant b"
    by (simp_all add: r rv_live_def rv_amount_def rv_sum_def)
qed

lemma books_insert:
  assumes b: "books exact cap P S X d" and ins: "insertReservation lower bk now d = (Inr r, d')"
    and snaps: "\<And>n. n \<in> set (bk_snapshot bk) \<Longrightarrow> snap_ok (bk_predicted bk) n"
    and P': "\<And>k. P' k = P k - snap_sum sn_amount (bk_tenant bk) (bk_snapshot bk) k"
  shows "books exact cap P' S X d'"
proof -
  note m = insertReservation_moved [OF books_tables [OF b] ins snaps]
  have live: "\<not> rv_settled r" using m(5) by (auto simp: rv_live_def rv_settled_def)
  have W: "window_sum g d' = window_sum g d" for g using m(2) by (simp add: window_sum_def fun_eq_iff)
  have "held d' j = held d j + snap_sum sn_amount (bk_tenant bk) (bk_snapshot bk) j"
    "charged d' j = charged d j" "excess d' j = excess d j" for j
    using m(4) [of rv_live rv_amount j] m(4) [of rv_settled rv_charge j] m(4) [of rv_settled rv_excess j] m(5,6) live
    by simp_all
  then have "reserved_of d' j = held d' j + P' j \<and> settled_of d' j \<le> charged d' j + S j \<and>
      (exact \<longrightarrow> settled_of d' j = charged d' j + S j) \<and>
      reserved_of d' j + settled_of d' j \<le> cap_key cap j + excess d' j + X j" for j
    using booksD [OF b, of j] P' [of j] unfolding W by simp
  then show ?thesis using b m(1,3) unfolding books_def by metis
qed

section \<open>Signs\<close>

lemma snap_sum_nonneg: "(\<And>n. n \<in> set ns \<Longrightarrow> counted n \<Longrightarrow> 0 \<le> f n) \<Longrightarrow> 0 \<le> snap_sum f tenant ns k"
  unfolding snap_sum_def by (rule sum_list_nonneg) auto

lemma rv_amount_nonneg: "rv_ok r \<Longrightarrow> 0 \<le> rv_amount r k"
  unfolding rv_ok_def rv_amount_def rv_sum_def
  by (auto simp: snap_ok_def sn_amount_def split: option.splits intro!: snap_sum_nonneg)

lemma rv_excess_nonneg: "0 \<le> rv_excess r k"
  unfolding rv_excess_def rv_sum_def by (auto simp: sn_excess_def split: option.splits intro!: snap_sum_nonneg)

lemma excess_nonneg: "0 \<le> excess d k"
  unfolding reservation_sum_def by (rule sum_list_nonneg) (auto simp: rv_excess_nonneg)

lemma held_member:
  assumes "tables_ok d" "r \<in> set (qd_reservations d)" "rv_live r"
  shows "rv_amount r k \<le> held d k"
proof -
  have nonneg: "\<forall>v \<in> set (qd_reservations d). 0 \<le> rv_amount v k"
    using assms(1) rv_amount_nonneg by (auto simp: tables_ok_def)
  have "(if rv_live r then rv_amount r k else 0) \<in> set (map (\<lambda>r. if rv_live r then rv_amount r k else 0) (qd_reservations d))"
    using assms(2) by (auto simp: image_iff)
  then have "(if rv_live r then rv_amount r k else 0) \<le> held d k"
    unfolding reservation_sum_def by (rule member_le_sum_list) (use nonneg in auto)
  then show ?thesis using assms(3) by simp
qed

end
