(* ===== verification/Quota_Admission.thy ===== *)
theory Quota_Admission
  imports Quota_Books
begin

text \<open>
  \<open>Reserve\<close> keeps the books balanced: what evaluation finds out about the windows, what the snapshot
  of the new reservation says, and what the booking writes are the same amounts.
\<close>

section \<open>Evaluated items\<close>

definition needed :: "q_request \<Rightarrow> q_policy \<Rightarrow> bool" where
  "needed rq p \<longleftrightarrow> qp_mode p = ModeEnforce \<and> (qp_metric p = MetricConcurrency \<longrightarrow> rq_needSlot rq)"

definition amount_for :: "q_request \<Rightarrow> q_metric \<Rightarrow> rat" where
  "amount_for rq m =
     (case m of MetricCostUSD \<Rightarrow> rq_predicted rq | MetricTokensEstimated \<Rightarrow> of_int (rq_tokens rq) | _ \<Rightarrow> 1)"

definition window_for :: "q_request \<Rightarrow> q_policy \<Rightarrow> (q_counter \<times> q_window) option \<Rightarrow> q_db \<Rightarrow> bool" where
  "window_for rq p w d \<longleftrightarrow>
     (metricHasWindowReservation (qp_metric p) \<longrightarrow>
        (\<exists>c win. w = Some (c, win) \<and> has_window (wn_id c) (rq_tenant rq, qp_id p, qw_start win) d))"

definition item_ok :: "q_limits \<Rightarrow> q_request \<Rightarrow> q_db \<Rightarrow> q_item \<Rightarrow> bool" where
  "item_ok cap rq d it \<longleftrightarrow>
     qp_mode (it_policy it) = ModeEnforce \<and> it_amount it = amount_for rq (qp_metric (it_policy it)) \<and>
     window_for rq (it_policy it) (it_window it) d \<and>
     effectiveLimit (it_policy it) \<le> cap (rq_tenant rq) (qp_id (it_policy it))"

definition items_ok :: "q_limits \<Rightarrow> q_request \<Rightarrow> q_item list \<Rightarrow> q_db \<Rightarrow> bool" where
  "items_ok cap rq its d \<longleftrightarrow> (\<forall>it \<in> set its. item_ok cap rq d it)"

lemma has_window_same: "same_books d d' \<Longrightarrow> has_window wid k d' \<longleftrightarrow> has_window wid k d"
  by (simp add: same_books_def has_window_def)

lemma items_ok_mono:
  assumes "items_ok cap rq its d" "\<And>wid k. has_window wid k d \<Longrightarrow> has_window wid k d'"
  shows "items_ok cap rq its d'"
  using assms unfolding items_ok_def item_ok_def window_for_def by blast

lemma items_ok_same: "same_books d d' \<Longrightarrow> items_ok cap rq its d \<Longrightarrow> items_ok cap rq its d'"
  by (erule items_ok_mono) (simp add: has_window_same)

text \<open>A statement of the store that moves nothing keeps the books and what is known of the windows.\<close>

definition booked :: "bool \<Rightarrow> q_limits \<Rightarrow> q_request \<Rightarrow> q_item list \<Rightarrow> q_db \<Rightarrow> bool" where
  "booked exact cap rq its d \<longleftrightarrow> balanced exact cap d \<and> items_ok cap rq its d"

lemma balanced_moved: "balanced exact cap d \<Longrightarrow> windows_moved k 0 0 d d' \<Longrightarrow> balanced exact cap d'"
  unfolding balanced_def
proof (rule books_moved)
  assume b: "books exact cap (\<lambda>k. 0) (\<lambda>k. 0) (\<lambda>k. 0) d" and m: "windows_moved k 0 0 d d'"
  have "reserved_of d' k = reserved_of d k" "settled_of d' k = settled_of d k"
    using m unfolding windows_moved_def by auto
  then show "reserved_of d' k + settled_of d' k \<le> cap_key cap k + excess d k + 0"
    using booksD [OF b, of k] by simp
qed simp_all

lemma booked_moved: "booked exact cap rq its d \<Longrightarrow> windows_moved k 0 0 d d' \<Longrightarrow> booked exact cap rq its d'"
  unfolding booked_def by (auto intro: balanced_moved items_ok_mono simp: windows_moved_def)

lemma booked_same: "same_books d d' \<Longrightarrow> booked exact cap rq its d \<Longrightarrow> booked exact cap rq its d'"
  unfolding booked_def balanced_def by (auto intro: same_books_books items_ok_same)

lemma yields_quiet:
  assumes "\<And>now d. same_books d (snd (f now d))"
  shows "yields (booked exact cap rq its) (db f) (\<lambda>x. booked exact cap rq its)"
  using assms by (intro yields_db) (metis booked_same snd_conv)

section \<open>Evaluation\<close>

lemma policyWindow_booked:
  "yields (booked exact cap rq its) (policyWindowForUpdate rq p)
     (\<lambda>(c, win) d. booked exact cap rq its d \<and> has_window (wn_id c) (rq_tenant rq, qp_id p, qw_start win) d)"
proof (cases "serviceWindowForPolicy p (rq_at rq)")
  case None
  then show ?thesis by (simp add: policyWindowForUpdate_def yields_fail)
next
  case (Some win)
  let ?k = "(rq_tenant rq, qp_id p, qw_start win)"
  have up: "yields (booked exact cap rq its) (db (upsertWindow (rq_tenant rq) (qp_id p) win))
      (\<lambda>w d. booked exact cap rq its d \<and> has_window (wn_id w) ?k d)"
    by (rule yields_db) (metis booked_def balanced_def books_tables booked_moved upsertWindow_moved)
  have get: "yields (\<lambda>d. booked exact cap rq its d \<and> has_window wid ?k d) (db (getWindowForUpdate (rq_tenant rq) wid))
      (\<lambda>c d. booked exact cap rq its d \<and> has_window (wn_id c) ?k d)" for wid
    by (rule yields_db)
      (auto simp: getWindowForUpdate_def sql_ok_def sql_none_def window_is_def split: option.splits dest!: find_inD)
  show ?thesis
    unfolding policyWindowForUpdate_def Some option.case
    by (rule yields_bind [OF up]) (rule yields_bind [OF get], rule yields_return, simp)
qed

definition assessed :: "q_request \<Rightarrow> q_policy \<Rightarrow> q_assessment \<Rightarrow> q_db \<Rightarrow> bool" where
  "assessed rq p a d \<longleftrightarrow>
     \<not> pa_skipped a \<and> pa_amount a = amount_for rq (qp_metric p) \<and> window_for rq p (pa_window a) d"

lemma assess_window_booked:
  "yields (booked exact cap rq its) (assess_window rq p amount)
     (\<lambda>a d. booked exact cap rq its d \<and> \<not> pa_skipped a \<and> pa_amount a = amount \<and> window_for rq p (pa_window a) d)"
  unfolding assess_window_def
  by (rule yields_bind [OF policyWindow_booked])
    (auto simp: Let_def window_for_def split: prod.splits intro!: yields_return)

lemma assessPolicy_booked:
  assumes "0 < rq_tokens rq"
  shows "yields (booked exact cap rq its) (assessPolicy rq p) (\<lambda>a d. booked exact cap rq its d \<and> assessed rq p a d)"
proof (cases "qp_metric p = MetricConcurrency")
  case True
  then show ?thesis
    by (auto simp: assessPolicy_def assessed_def bare_assessment_def amount_for_def window_for_def
        metricHasWindowReservation_def intro!: yields_return)
next
  case False
  then have "assessPolicy rq p = assess_window rq p (amount_for rq (qp_metric p))"
    using assms by (cases "qp_metric p") (simp_all add: assessPolicy_def amount_for_def)
  then show ?thesis
    by (auto simp: assessed_def intro: yields_weaken [OF assess_window_booked])
qed

definition evaluated :: "q_request \<Rightarrow> q_policy list \<Rightarrow> q_item list \<Rightarrow> q_evaluation \<Rightarrow> bool" where
  "evaluated rq ps its ev \<longleftrightarrow>
     (ev_deny ev = None \<longrightarrow> map it_policy (ev_items ev) = map it_policy its @ filter (needed rq) ps)"

lemma evaluate_from_booked:
  assumes "0 < rq_tokens rq" "\<And>p. p \<in> set ps \<Longrightarrow> effectiveLimit p \<le> cap (rq_tenant rq) (qp_id p)" "ev_deny acc = None"
  shows "yields (booked exact cap rq (ev_items acc)) (evaluate_from rq ps acc)
     (\<lambda>ev d. booked exact cap rq (ev_items ev) d \<and> evaluated rq ps (ev_items acc) ev)"
  using assms(2,3)
proof (induction ps arbitrary: acc)
  case Nil
  then show ?case by (auto simp: evaluated_def intro: yields_return)
next
  case (Cons p ps)
  have IH: "yields (booked exact cap rq (ev_items acc')) (evaluate_from rq ps acc')
      (\<lambda>ev d. booked exact cap rq (ev_items ev) d \<and> evaluated rq ps (ev_items acc') ev)"
    if "ev_deny acc' = None" for acc'
    using Cons.prems that by (intro Cons.IH) auto
  show ?case
  proof (cases "qp_metric p = MetricConcurrency \<and> \<not> rq_needSlot rq")
    case True
    then have "\<not> needed rq p" by (simp add: needed_def)
    then show ?thesis using True IH [OF Cons.prems(2)] by (simp add: evaluated_def)
  next
    case slot: False
    have step: "yields (\<lambda>d. booked exact cap rq (ev_items acc) d \<and> assessed rq p a d)
        (if pa_skipped a then evaluate_from rq ps acc
         else case qp_mode p of
          ModeEnforce \<Rightarrow>
            if pa_exceeded a
            then qreturn \<lparr> ev_items = [], ev_observed = [],
                   ev_deny = Some (exceededDecision p (pa_amount a) (pa_retryAfter a), pa_payload p a) \<rparr>
            else evaluate_from rq ps
                   (acc\<lparr> ev_items := ev_items acc @ [\<lparr> it_policy = p, it_window = pa_window a, it_amount = pa_amount a \<rparr>] \<rparr>)
        | ModeDisabled \<Rightarrow> evaluate_from rq ps acc
        | m \<Rightarrow>
            if pa_exceeded a
            then evaluate_from rq ps (acc\<lparr> ev_observed := ev_observed acc @
                   [(manual_reason m (exceededDecision p (pa_amount a) (pa_retryAfter a)), pa_payload p a)] \<rparr>)
            else evaluate_from rq ps acc)
        (\<lambda>ev d. booked exact cap rq (ev_items ev) d \<and> evaluated rq (p # ps) (ev_items acc) ev)" for a
    proof (cases "pa_skipped a")
      case True
      then show ?thesis by (auto simp: yields_def triple_def assessed_def)
    next
      case taken: False
      show ?thesis
      proof (cases "qp_mode p = ModeEnforce")
        case True
        then have need: "needed rq p" using slot by (simp add: needed_def)
        let ?it = "\<lparr> it_policy = p, it_window = pa_window a, it_amount = pa_amount a \<rparr>"
        have "booked exact cap rq (ev_items acc @ [?it]) d"
          if "booked exact cap rq (ev_items acc) d \<and> assessed rq p a d" for d
          using that True Cons.prems(1) [of p] by (auto simp: booked_def items_ok_def item_ok_def assessed_def)
        moreover have "evaluated rq (p # ps) (ev_items acc) ev" if "evaluated rq ps (ev_items acc @ [?it]) ev" for ev
          using that need by (simp add: evaluated_def)
        ultimately have go: "yields (\<lambda>d. booked exact cap rq (ev_items acc) d \<and> assessed rq p a d)
            (evaluate_from rq ps (acc\<lparr> ev_items := ev_items acc @ [?it] \<rparr>))
            (\<lambda>ev d. booked exact cap rq (ev_items ev) d \<and> evaluated rq (p # ps) (ev_items acc) ev)"
          using IH [of "acc\<lparr> ev_items := ev_items acc @ [?it] \<rparr>"] Cons.prems(2)
          by (auto elim!: yields_weaken)
        have stop: "yields (\<lambda>d. booked exact cap rq (ev_items acc) d \<and> assessed rq p a d)
            (qreturn \<lparr> ev_items = [], ev_observed = [], ev_deny = Some x \<rparr>)
            (\<lambda>ev d. booked exact cap rq (ev_items ev) d \<and> evaluated rq (p # ps) (ev_items acc) ev)" for x
          by (rule yields_return) (simp add: evaluated_def booked_def items_ok_def)
        show ?thesis unfolding True q_mode.case if_not_P [OF taken] by (rule yields_if) (rule stop, rule go)
      next
        case False
        then have skip: "\<not> needed rq p" by (simp add: needed_def)
        have "yields (\<lambda>d. booked exact cap rq (ev_items acc) d \<and> assessed rq p a d) (evaluate_from rq ps acc')
            (\<lambda>ev d. booked exact cap rq (ev_items ev) d \<and> evaluated rq (p # ps) (ev_items acc) ev)"
          if "ev_items acc' = ev_items acc" "ev_deny acc' = None" for acc'
          using IH [OF that(2)] that(1) skip by (auto simp: evaluated_def elim!: yields_weaken)
        then show ?thesis using False taken Cons.prems(2) by (cases "qp_mode p") simp_all
      qed
    qed
    show ?thesis
      using slot by (auto intro!: yields_bind [OF assessPolicy_booked [OF assms(1)]] step simp del: q_mode.case)
  qed
qed

section \<open>The snapshot\<close>

definition item_key :: "int \<Rightarrow> q_item \<Rightarrow> q_key" where
  "item_key tenant it =
     (tenant, qp_id (it_policy it), (case it_window it of Some (c, win) \<Rightarrow> qw_start win | None \<Rightarrow> zero_time))"

definition item_part :: "int \<Rightarrow> q_key \<Rightarrow> q_item \<Rightarrow> rat" where
  "item_part tenant k it =
     (if metricHasWindowReservation (qp_metric (it_policy it)) \<and> item_key tenant it = k then it_amount it else 0)"

definition items_sum :: "int \<Rightarrow> q_item list \<Rightarrow> q_key \<Rightarrow> rat" where
  "items_sum tenant its k = sum_list (map (item_part tenant k) its)"

lemma find_unique: "x \<in> set xs \<Longrightarrow> p x \<Longrightarrow> (\<And>y. y \<in> set xs \<Longrightarrow> p y \<Longrightarrow> y = x) \<Longrightarrow> find p xs = Some x"
  by (cases "find p xs") (blast dest: find_noneD, metis find_inD)

lemma item_for_member:
  assumes "distinct (map (\<lambda>it. qp_id (it_policy it)) its)" "it \<in> set its"
    and "qp_mode (it_policy it) = ModeEnforce" "metricHasWindowReservation (qp_metric (it_policy it))"
  shows "item_for its (it_policy it) = Some it"
  unfolding item_for_def
proof (rule find_unique)
  fix jt
  assume "jt \<in> set (rev its)" "qp_mode (it_policy jt) = ModeEnforce \<and> metricHasWindowReservation (qp_metric (it_policy jt)) \<and>
      qp_id (it_policy jt) = qp_id (it_policy it) \<and> qp_metric (it_policy jt) = qp_metric (it_policy it)"
  then have "jt \<in> set its" "qp_id (it_policy jt) = qp_id (it_policy it)" by simp_all
  moreover have "inj_on (\<lambda>it. qp_id (it_policy it)) (set its)" using assms(1) unfolding distinct_map by blast
  ultimately show "jt = it" using assms(2) by (metis inj_onD)
qed (use assms in auto)

lemma sum_list_filter_zero: "(\<And>x. x \<in> set xs \<Longrightarrow> \<not> p x \<Longrightarrow> h x = (0 :: rat)) \<Longrightarrow> sum_list (map h xs) = sum_list (map h (filter p xs))"
  by (induction xs) auto

lemma sum_list_map_filter: "sum_list (map f (filter p xs)) = sum_list (map (\<lambda>x. if p x then f x else (0 :: rat)) xs)"
  by (induction xs) auto

lemma snapshot_items:
  assumes ids: "distinct (map qp_id ps)" and its: "map it_policy its = filter (needed rq) ps"
    and p: "p \<in> set ps" "qp_mode p = ModeEnforce" "metricHasWindowReservation (qp_metric p)"
  obtains it where "it \<in> set its" "it_policy it = p" "item_for its p = Some it"
proof -
  have "needed rq p" using p(2,3) by (auto simp: needed_def metricHasWindowReservation_def)
  then have "p \<in> set (map it_policy its)" using p(1) its by simp
  then obtain it where it: "it \<in> set its" "it_policy it = p" by auto
  have "distinct (map qp_id (map it_policy its))" unfolding its using ids by (rule distinct_map_filter)
  then have "item_for its (it_policy it) = Some it" using p it by (intro item_for_member) (simp_all add: comp_def)
  then show thesis using that it by simp
qed

lemma marshal_window:
  assumes "item_for its p = Some it" "qp_mode p = ModeEnforce" "metricHasWindowReservation (qp_metric p)"
    "it_policy it = p"
  shows "sn_key tenant (marshalPolicySnapshot lower (concrete_window its p) (map_option it_amount (item_for its p))) = item_key tenant it"
    "sn_amount (marshalPolicySnapshot lower (concrete_window its p) (map_option it_amount (item_for its p))) = it_amount it"
    "sn_reserved (marshalPolicySnapshot lower (concrete_window its p) (map_option it_amount (item_for its p))) = Some (it_amount it)"
  using assms by (auto simp: marshalPolicySnapshot_def concrete_window_def sn_key_def item_key_def set_time_def sn_amount_def
      split: option.splits)

lemma marshal_counted:
  "counted (marshalPolicySnapshot lower (concrete_window its p) a) \<longleftrightarrow>
     qp_mode p = ModeEnforce \<and> metricHasWindowReservation (qp_metric p)"
  "sn_metric (marshalPolicySnapshot lower (concrete_window its p) a) = qp_metric p"
  by (auto simp: counted_def marshalPolicySnapshot_def concrete_window_def split: option.splits)

lemma snapshot_sum:
  assumes ids: "distinct (map qp_id ps)" and its: "map it_policy its = filter (needed rq) ps"
  shows "snap_sum sn_amount tenant (marshalReservationPolicySnapshot lower ps its) k = items_sum tenant its k"
proof -
  let ?n = "\<lambda>p. marshalPolicySnapshot lower (concrete_window its p) (map_option it_amount (item_for its p))"
  let ?h = "\<lambda>p. if counted (?n p) then (if sn_key tenant (?n p) = k then sn_amount (?n p) else 0) else 0"
  have "snap_sum sn_amount tenant (marshalReservationPolicySnapshot lower ps its) k = sum_list (map ?h ps)"
    unfolding snap_sum_def marshalReservationPolicySnapshot_def sum_list_map_filter by (simp add: comp_def)
  also have "\<dots> = sum_list (map ?h (filter (needed rq) ps))"
    by (rule sum_list_filter_zero) (auto simp: marshal_counted needed_def metricHasWindowReservation_def)
  also have "\<dots> = sum_list (map (\<lambda>it. ?h (it_policy it)) its)"
    unfolding its [symmetric] by (simp add: comp_def)
  also have "\<dots> = sum_list (map (item_part tenant k) its)"
  proof (rule arg_cong [where f = sum_list], rule map_cong [OF refl])
    fix it
    assume it: "it \<in> set its"
    then have "it_policy it \<in> set (filter (needed rq) ps)" unfolding its [symmetric] by simp
    then have p: "it_policy it \<in> set ps" "qp_mode (it_policy it) = ModeEnforce" by (auto simp: needed_def)
    show "?h (it_policy it) = item_part tenant k it"
    proof (cases "metricHasWindowReservation (qp_metric (it_policy it))")
      case True
      have "distinct (map qp_id (map it_policy its))" unfolding its using ids by (rule distinct_map_filter)
      then have f: "item_for its (it_policy it) = Some it" using p it True by (intro item_for_member) (simp_all add: comp_def)
      show ?thesis using marshal_window(1,2) [OF f p(2) True refl] p True by (simp add: marshal_counted item_part_def)
    next
      case False
      then show ?thesis by (simp add: marshal_counted item_part_def)
    qed
  qed
  finally show ?thesis by (simp add: items_sum_def)
qed

lemma snapshot_ok:
  assumes ids: "distinct (map qp_id ps)" and its: "map it_policy its = filter (needed rq) ps"
    and ok: "items_ok cap rq its d" and "0 < rq_tokens rq" "0 \<le> rq_predicted rq"
    and n: "n \<in> set (marshalReservationPolicySnapshot lower ps its)"
  shows "snap_ok (rq_predicted rq) n"
proof -
  obtain p where p: "p \<in> set ps"
      "n = marshalPolicySnapshot lower (concrete_window its p) (map_option it_amount (item_for its p))"
    using n by (auto simp: marshalReservationPolicySnapshot_def)
  show ?thesis
  proof (cases "counted n")
    case True
    then have c: "qp_mode p = ModeEnforce" "metricHasWindowReservation (qp_metric p)" by (simp_all add: p(2) marshal_counted)
    obtain it where it: "it \<in> set its" "it_policy it = p" "item_for its p = Some it"
      using snapshot_items [OF ids its p(1) c] by blast
    then have "it_amount it = amount_for rq (qp_metric p)" using ok by (auto simp: items_ok_def item_ok_def)
    then show ?thesis
      using marshal_window(3) [OF it(3) c it(2), of lower] assms(4,5)
      by (auto simp: snap_ok_def p(2) marshal_counted amount_for_def split: q_metric.splits)
  qed (simp add: snap_ok_def)
qed

section \<open>The booking\<close>

definition reserving :: "bool \<Rightarrow> q_limits \<Rightarrow> q_request \<Rightarrow> q_item list \<Rightarrow> q_db \<Rightarrow> bool" where
  "reserving exact cap rq its d \<longleftrightarrow>
     books exact cap (\<lambda>k. - items_sum (rq_tenant rq) its k) (\<lambda>k. 0) (\<lambda>k. 0) d \<and> items_ok cap rq its d"

lemma reserving_nil: "reserving exact cap rq [] d \<longleftrightarrow> balanced exact cap d"
  by (simp add: reserving_def balanced_def items_sum_def items_ok_def)

lemma reserving_same: "same_books d d' \<Longrightarrow> reserving exact cap rq its d \<Longrightarrow> reserving exact cap rq its d'"
  unfolding reserving_def by (auto intro: same_books_books items_ok_same)

lemma increment_reserving:
  assumes r: "reserving exact cap rq (it # its) d"
    and m: "metricHasWindowReservation (qp_metric (it_policy it))"
    and inc: "incrementWindowReserved (rq_tenant rq) (wn_id (item_counter it)) (it_amount it) n
                (effectiveLimit (it_policy it)) now d = (Inr w, d')"
  shows "reserving exact cap rq its d'"
proof -
  let ?p = "it_policy it" and ?t = "rq_tenant rq"
  have b: "books exact cap (\<lambda>k. - items_sum ?t (it # its) k) (\<lambda>k. 0) (\<lambda>k. 0) d" and ok: "items_ok cap rq (it # its) d"
    using r by (auto simp: reserving_def)
  have it: "item_ok cap rq d it" using ok by (simp add: items_ok_def)
  then obtain c win where win: "it_window it = Some (c, win)"
      and has: "has_window (wn_id c) (?t, qp_id ?p, qw_start win) d"
      and limit: "effectiveLimit ?p \<le> cap ?t (qp_id ?p)"
    using m by (auto simp: item_ok_def window_for_def)
  let ?k = "(?t, qp_id ?p, qw_start win)"
  let ?f = "\<lambda>v. v\<lparr> wn_reserved := wn_reserved v + it_amount it, wn_requests := wn_requests v + n, wn_version := wn_version v + 1 \<rparr>"
  have key: "item_key ?t it = ?k" by (simp add: item_key_def win)
  have upd: "update_window ?t (wn_id c) (\<lambda>v. wn_reserved v + wn_settled v + it_amount it \<le> effectiveLimit ?p) ?f d = (Inr w, d')"
    using inc by (simp add: incrementWindowReserved_def item_counter_def win)
  have keep: "wn_id (?f v) = wn_id v" "wn_key (?f v) = wn_key v" for v by (simp_all add: wn_key_def)
  obtain v where "v \<in> set (qd_windows d)" "wn_key v = ?k"
    and v: "wn_reserved v + wn_settled v + it_amount it \<le> effectiveLimit ?p"
      "reserved_of d ?k = wn_reserved v" "settled_of d ?k = wn_settled v"
      "windows_moved ?k (wn_reserved (?f v) - wn_reserved v) (wn_settled (?f v) - wn_settled v) d d'"
    by (rule update_window_moved [OF books_tables [OF b] has refl upd keep])
  have moved: "windows_moved ?k (it_amount it) 0 d d'" using v(4) by simp
  then have at_k: "reserved_of d' ?k = wn_reserved v + it_amount it" "settled_of d' ?k = wn_settled v"
    using v(2,3) unfolding windows_moved_def by simp_all
  have "books exact cap (\<lambda>k. - items_sum ?t its k) (\<lambda>k. 0) (\<lambda>k. 0) d'"
  proof (rule books_moved [OF b moved])
    show "- items_sum ?t its ?k = - items_sum ?t (it # its) ?k + it_amount it"
      using m key by (simp add: items_sum_def item_part_def)
    show "reserved_of d' ?k + settled_of d' ?k \<le> cap_key cap ?k + excess d ?k + 0"
      using v(1) limit excess_nonneg [of d ?k] by (simp add: at_k cap_key_def)
    show "- items_sum ?t its j = - items_sum ?t (it # its) j \<and> (0::rat) = 0 \<and> (0::rat) = 0" if "j \<noteq> ?k" for j
      using that key by (auto simp: items_sum_def item_part_def)
  qed simp
  moreover have "items_ok cap rq its d'"
    using ok moved by (auto simp: windows_moved_def items_ok_def intro: items_ok_mono [unfolded items_ok_def, THEN bspec])
  ultimately show ?thesis by (simp add: reserving_def)
qed

lemma reserve_window_reserving:
  assumes "metricHasWindowReservation (qp_metric (it_policy it))" "amount = it_amount it"
  shows "yields (reserving exact cap rq (it # its)) (reserve_window rq it amount denied n) (\<lambda>u. reserving exact cap rq its)"
  unfolding reserve_window_def Let_def
proof (rule yields_catch_fail)
  show "yields (reserving exact cap rq (it # its))
      (qcall (incrementWindowReserved (rq_tenant rq) (wn_id (item_counter it)) amount n (effectiveLimit (it_policy it))))
      (\<lambda>w. reserving exact cap rq its)"
    using assms by (intro yields_call) (auto intro: increment_reserving)
qed (auto intro: yields_return)

lemma reserve_slot_reserving:
  "yields (reserving exact cap rq its) (reserve_slot rq rid it) (\<lambda>u. reserving exact cap rq its)"
  unfolding reserve_slot_def Let_def
proof (rule yields_bind)
  show "yields (reserving exact cap rq its)
      (db (acquireSlot (rq_tenant rq) rid (rq_claim rq) (qp_scope (it_policy it)) (IntPart (qp_limit (it_policy it)))
         (rq_at rq) (rq_lease rq))) (\<lambda>slot. reserving exact cap rq its)"
    using quiet_acquire by (intro yields_db) (metis reserving_same snd_conv)
qed (auto intro: yields_fail yields_return)

lemma reserve_item_reserving:
  "yields (reserving exact cap rq (it # its)) (reserve_item rq rid it) (\<lambda>u. reserving exact cap rq its)"
proof (cases "qp_metric (it_policy it) = MetricConcurrency")
  case True
  have "reserving exact cap rq its d" if "reserving exact cap rq (it # its) d" for d
  proof -
    have "items_sum (rq_tenant rq) (it # its) = items_sum (rq_tenant rq) its"
      using True by (simp add: items_sum_def item_part_def metricHasWindowReservation_def fun_eq_iff)
    then show ?thesis using that by (simp add: reserving_def items_ok_def)
  qed
  then show ?thesis using True by (auto simp: reserve_item_def intro: yields_weaken [OF reserve_slot_reserving])
next
  case False
  then have m: "metricHasWindowReservation (qp_metric (it_policy it))"
    by (cases "qp_metric (it_policy it)") (simp_all add: metricHasWindowReservation_def)
  show ?thesis
  proof (cases "it_amount it = amount_for rq (qp_metric (it_policy it))")
    case True
    then show ?thesis using False m
      by (cases "qp_metric (it_policy it)")
        (auto simp: reserve_item_def amount_for_def intro!: reserve_window_reserving)
  next
    case False
    then show ?thesis by (auto simp: yields_def triple_def reserving_def items_ok_def item_ok_def)
  qed
qed

lemma apply_reserving:
  "yields (reserving exact cap rq its) (applyEnforceReservations rq rid its) (\<lambda>u. balanced exact cap)"
proof (induction its)
  case Nil
  then show ?case by (auto simp: reserving_nil intro: yields_return)
next
  case (Cons it its)
  show ?case unfolding applyEnforceReservations.simps by (rule yields_bind [OF reserve_item_reserving Cons.IH])
qed

section \<open>The transaction\<close>

definition resolved :: "q_limits \<Rightarrow> q_request \<Rightarrow> q_policy list \<Rightarrow> bool" where
  "resolved cap rq ps \<longleftrightarrow>
     distinct (map qp_id ps) \<and> (\<forall>p \<in> set ps. effectiveLimit p \<le> cap (rq_tenant rq) (qp_id p))"

lemma rows_resolved:
  assumes "balanced exact cap d" "listActivePolicies lower (rq_tenant rq) scopes model metrics t now d = (Inr rows, d')"
  shows "resolved cap rq (resolve_rows lower (rq_tenant rq) scopes' model' metrics' t' rows)"
proof -
  let ?act = "filter (policy_active lower (rq_tenant rq) scopes model metrics t) (qd_policies d)"
  have rows: "rows = map (policyFromDB lower) (stable_sort policy_row_less ?act)"
    using assms(2) by (auto simp: listActivePolicies_def sql_ok_def)
  have ids: "distinct (map prow_id (qd_policies d))" and lims: "limits_ok cap (qd_policies d)"
    using assms(1) by (auto simp: balanced_def books_def tables_ok_def)
  have "map qp_id rows = map prow_id (stable_sort policy_row_less ?act)"
    by (simp add: rows policyFromDB_def prow_id_def)
  moreover have "mset (map prow_id (stable_sort policy_row_less ?act)) = mset (map prow_id ?act)"
    by (simp only: mset_map stable_sort_mset)
  ultimately have "distinct (map qp_id rows)"
    using distinct_map_filter [OF ids] by (metis mset_eq_imp_distinct_iff)
  then have "distinct (map qp_id (resolve_rows lower (rq_tenant rq) scopes' model' metrics' t' rows))"
    by (rule resolve_rows_ids)
  moreover have "effectiveLimit p \<le> cap (rq_tenant rq) (qp_id p)"
    if p: "p \<in> set (resolve_rows lower (rq_tenant rq) scopes' model' metrics' t' rows)" for p
  proof -
    obtain q where "q \<in> set rows" "p = policy_resolved lower (rq_tenant rq) t' q" using p by (auto simp: resolve_rows_set)
    moreover then obtain row where "row \<in> set ?act" "q = policyFromDB lower row" by (auto simp: rows)
    ultimately show ?thesis using lims
      by (auto simp: limits_ok_def policy_resolved_def policyFromDB_def effectiveLimit_def policy_active_def Let_def)
  qed
  ultimately show ?thesis by (auto simp: resolved_def)
qed

lemma balanced_same: "same_books d d' \<Longrightarrow> balanced exact cap d \<Longrightarrow> balanced exact cap d'"
  unfolding balanced_def by (rule same_books_books)

lemma triple_quiet:
  assumes "\<And>now d. same_books d (snd (f now d))"
  shows "triple (balanced exact cap) (db f) (\<lambda>x. balanced exact cap) (\<lambda>e. balanced exact cap)"
  using assms by (intro triple_db) (metis balanced_same snd_conv)+

lemma resolvePolicies_balanced:
  "triple (balanced exact cap) (resolvePolicies lower rq) (\<lambda>ps d. balanced exact cap d \<and> resolved cap rq ps) (\<lambda>e. balanced exact cap)"
proof -
  let ?f = "listActivePolicies lower (rq_tenant rq) (normalizeScopes (rq_tenant rq) (rq_scopes rq))
     (normalizeRequestedModel lower (rq_model rq)) (normalizeMetrics (reserveMetrics rq)) (rq_at rq)"
  let ?R = "resolve_rows lower (rq_tenant rq) (rq_scopes rq) (rq_model rq) (reserveMetrics rq) (rq_at rq)"
  have "triple (balanced exact cap) (db ?f) (\<lambda>rows d. balanced exact cap d \<and> resolved cap rq (?R rows)) (\<lambda>e. balanced exact cap)"
  proof (rule triple_db)
    show "balanced exact cap d' \<and> resolved cap rq (?R rows)" if "balanced exact cap d" "?f now d = (Inr rows, d')" for now d rows d'
      using that rows_resolved [OF that] quiet_policies balanced_same by (metis snd_conv)
    show "balanced exact cap d'" if "balanced exact cap d" "?f now d = (Inl e, d')" for now d e d'
      using that quiet_policies balanced_same by (metis snd_conv)
  qed
  then show ?thesis unfolding resolvePolicies_def by (rule triple_bind) (auto intro: triple_return)
qed

lemma yields_or_fail_closed:
  "triple P m R E \<Longrightarrow> (\<And>x. yields (R x) (k x) Q) \<Longrightarrow> (\<And>e d. E e d \<Longrightarrow> Q (fail_closed e) d) \<Longrightarrow> yields P (or_fail_closed m k) Q"
  unfolding or_fail_closed_def by (erule yields_catch) (auto intro: yields_return yields_fail)

lemma evaluatePolicies_booked:
  assumes "0 < rq_tokens rq" "resolved cap rq ps"
  shows "yields (balanced exact cap) (evaluatePolicies rq ps)
     (\<lambda>ev d. booked exact cap rq (ev_items ev) d \<and> (ev_deny ev = None \<longrightarrow> map it_policy (ev_items ev) = filter (needed rq) ps))"
  unfolding evaluatePolicies_def
  using assms(2) by (intro yields_weaken [OF evaluate_from_booked [OF assms(1)]])
    (auto simp: resolved_def evaluated_def booked_def items_ok_def)

lemma audit_booked: "yields (booked exact cap rq its) (insertDecisionAudit rq' rid event dc payload) (\<lambda>u. booked exact cap rq its)"
  unfolding insertDecisionAudit_def by (rule yields_quiet [OF quiet_audit])

lemma audit_balanced: "yields (balanced exact cap) (insertDecisionAudit rq' rid event dc payload) (\<lambda>u. balanced exact cap)"
  unfolding insertDecisionAudit_def by (rule triple_yields [OF triple_quiet [OF quiet_audit]])

lemma observed_booked: "yields (booked exact cap rq its) (audit_observed rq' rid os) (\<lambda>u. booked exact cap rq its)"
  by (induction rq' rid os rule: audit_observed.induct) (auto intro!: yields_return yields_bind [OF audit_booked])

lemma items_ok_windows: "qd_windows d' = qd_windows d \<Longrightarrow> items_ok cap rq its d \<Longrightarrow> items_ok cap rq its d'"
  by (rule items_ok_mono) (simp_all add: has_window_def)

definition snapshot_done :: "q_limits \<Rightarrow> q_request \<Rightarrow> q_policy list \<Rightarrow> q_item list \<Rightarrow> bool" where
  "snapshot_done cap rq ps its \<longleftrightarrow> resolved cap rq ps \<and> map it_policy its = filter (needed rq) ps"

lemma insert_reserving:
  assumes "0 < rq_tokens rq" "booked exact cap rq its d" "snapshot_done cap rq ps its"
    and "insertReservation lower (booking_of lower rq ps its) now d = (Inr r, d')"
  shows "reserving exact cap rq its d'"
proof -
  have ids: "distinct (map qp_id ps)" and its: "map it_policy its = filter (needed rq) ps"
    using assms(3) by (auto simp: snapshot_done_def resolved_def)
  have ok: "items_ok cap rq its d" and b: "books exact cap (\<lambda>k. 0) (\<lambda>k. 0) (\<lambda>k. 0) d"
    using assms(2) by (auto simp: booked_def balanced_def)
  have "0 \<le> rq_predicted rq" using assms(4) by (auto simp: insertReservation_def booking_of_def sql_none_def split: if_splits)
  then have snaps: "snap_ok (bk_predicted (booking_of lower rq ps its)) n" if "n \<in> set (bk_snapshot (booking_of lower rq ps its))" for n
    using snapshot_ok [OF ids its ok assms(1)] that by (simp add: booking_of_def)
  have "books exact cap (\<lambda>k. - items_sum (rq_tenant rq) its k) (\<lambda>k. 0) (\<lambda>k. 0) d'"
    by (rule books_insert [OF b assms(4) snaps]) (simp_all add: booking_of_def snapshot_sum [OF ids its])
  moreover have "items_ok cap rq its d'"
    by (rule items_ok_windows [OF insertReservation_moved(2) [OF books_tables [OF b] assms(4) snaps] ok])
  ultimately show ?thesis by (simp add: reserving_def)
qed

lemma reactivate_reserving:
  assumes "0 < rq_tokens rq" "booked exact cap rq its d" "snapshot_done cap rq ps its"
    and "reactivateReservation lower rid (booking_of lower rq ps its) now d = (Inr r, d')"
  shows "reserving exact cap rq its d'"
proof -
  let ?b = "booking_of lower rq ps its" and ?t = "rq_tenant rq"
  let ?p = "\<lambda>r. rv_is (bk_tenant ?b) rid (bk_claim ?b) r \<and> rv_status r \<in> {ReservationReleased, ReservationExpired}"
  let ?f = "\<lambda>r. r\<lparr> rv_status := ReservationReserved, rv_fingerprint := bk_fingerprint ?b,
                rv_model := normalizeRequestedModel lower (bk_model ?b),
                rv_scopes := stored_scopes (bk_tenant ?b) (bk_scopes ?b), rv_snapshot := Some (bk_snapshot ?b),
                rv_predicted := bk_predicted ?b, rv_units := bk_units ?b, rv_lease := bk_lease ?b,
                rv_releaseReason := None \<rparr>"
  have ids: "distinct (map qp_id ps)" and its: "map it_policy its = filter (needed rq) ps"
    using assms(3) by (auto simp: snapshot_done_def resolved_def)
  have ok: "items_ok cap rq its d" and b: "books exact cap (\<lambda>k. 0) (\<lambda>k. 0) (\<lambda>k. 0) d"
    using assms(2) by (auto simp: booked_def balanced_def)
  have upd: "update_reservations ?p ?f d = (Inr r, d')" and pos: "0 \<le> rq_predicted rq"
    using assms(4) by (auto simp: reactivateReservation_def booking_of_def split: if_splits)
  have fok: "rv_ok (?f v)" for v
    using snapshot_ok [OF ids its ok assms(1) pos] by (simp add: rv_ok_def booking_of_def)
  have keys: "rv_claim_key (?f v) = rv_claim_key v" for v by (simp add: rv_claim_key_def)
  have claim: "?p v \<Longrightarrow> rv_tenant v = bk_tenant ?b \<and> rv_claim v = bk_claim ?b" for v by (simp add: rv_is_def)
  obtain v where v: "?p v" "r = ?f v" and m: "row_moved v (?f v) d d'"
    by (rule update_reservations_moved [OF books_tables [OF b] claim keys fok upd])
  have dead: "\<not> rv_live v" "\<not> rv_settled v" "rv_live (?f v)" "\<not> rv_settled (?f v)"
    using v(1) by (auto simp: rv_live_def rv_settled_def)
  have amount: "rv_amount (?f v) k = items_sum ?t its k" for k
    using v(1) snapshot_sum [OF ids its, of "rv_tenant v" lower k]
    by (simp add: rv_amount_def rv_sum_def booking_of_def rv_is_def)
  have "books exact cap (\<lambda>k. - items_sum ?t its k) (\<lambda>k. 0) (\<lambda>k. 0) d'"
    by (rule books_row [OF b m]) (simp_all add: dead amount)
  moreover have "items_ok cap rq its d'"
    using m by (intro items_ok_windows [OF _ ok]) (simp add: row_moved_def)
  ultimately show ?thesis by (simp add: reserving_def)
qed

text \<open>The tail that a new and a revived reservation share, with the statement that books the row left open.\<close>

lemma decision_balanced:
  assumes tokens: "0 < rq_tokens rq"
    and book: "\<And>its. snapshot_done cap rq ps its \<Longrightarrow>
      yields (booked exact cap rq its) (book its) (\<lambda>r. reserving exact cap rq its)"
  shows "yields (\<lambda>d. balanced exact cap d \<and> resolved cap rq ps)
    (qbind (evaluatePolicies rq ps) (\<lambda>ev. case ev_deny ev of
         Some (dc, payload) \<Rightarrow> qbind (insertDecisionAudit rq rid event dc payload) (\<lambda>_. qreturn (denied dc))
       | None \<Rightarrow>
           qbind (audit_observed rq rid (ev_observed ev)) (\<lambda>_.
           qbind (book (ev_items ev)) (\<lambda>r.
           qbind (applyEnforceReservations rq (rv_id r) (ev_items ev)) (\<lambda>_.
           qbind (insertDecisionAudit rq (rid' r) event' allow_decision []) (\<lambda>_. qreturn (allowed r)))))))
    (\<lambda>x. balanced exact cap)"
  (is "yields _ (qbind _ ?k) _")
proof (cases "resolved cap rq ps")
  case True
  have "yields (\<lambda>d. booked exact cap rq (ev_items ev) d \<and> (ev_deny ev = None \<longrightarrow> map it_policy (ev_items ev) = filter (needed rq) ps))
      (?k ev) (\<lambda>x. balanced exact cap)" for ev
  proof (cases "ev_deny ev")
    case None
    show ?thesis
    proof (cases "map it_policy (ev_items ev) = filter (needed rq) ps")
      case its: True
      then have "snapshot_done cap rq ps (ev_items ev)" using True by (simp add: snapshot_done_def)
      note steps = observed_booked book [OF this] apply_reserving audit_balanced
      show ?thesis
        unfolding None option.case
        by (rule yields_weaken [where P = "booked exact cap rq (ev_items ev)"], (rule yields_bind, rule steps)+)
          (auto intro: yields_return)
    qed (auto simp: None yields_def triple_def)
  next
    case (Some x)
    have "yields (balanced exact cap) (qbind (insertDecisionAudit rq rid event dc payload) (\<lambda>_. qreturn (denied dc)))
        (\<lambda>x. balanced exact cap)" for dc payload
      by (rule yields_bind [OF audit_balanced]) (rule yields_return)
    then have "yields (balanced exact cap) (?k ev) (\<lambda>x. balanced exact cap)" by (cases x) (simp add: Some)
    then show ?thesis by (rule yields_weaken) (auto simp: booked_def)
  qed
  then have "yields (balanced exact cap) (qbind (evaluatePolicies rq ps) ?k) (\<lambda>x. balanced exact cap)"
    by (rule yields_bind [OF evaluatePolicies_booked [OF tokens True]])
  then show ?thesis by (rule yields_weaken) simp_all
qed (auto simp: yields_def triple_def)

lemma reserve_new_balanced:
  assumes "0 < rq_tokens rq"
  shows "yields (balanced exact cap) (reserve_new lower rq) (\<lambda>x. balanced exact cap)"
  unfolding reserve_new_def
proof (rule yields_or_fail_closed [OF resolvePolicies_balanced], rule decision_balanced [OF assms])
  fix ps its
  assume snap: "snapshot_done cap rq ps its"
  show "yields (booked exact cap rq its) (insert_booking lower (booking_of lower rq ps its)) (\<lambda>r. reserving exact cap rq its)"
    unfolding insert_booking_def
    by (rule yields_catch_fail [where R = "\<lambda>r. reserving exact cap rq its"])
      (auto intro!: yields_call yields_return intro: insert_reserving [OF assms _ snap])
qed simp_all

lemma reactivate_balanced:
  assumes "0 < rq_tokens rq"
  shows "yields (balanced exact cap) (reactivateExistingReservation lower rq r) (\<lambda>x. balanced exact cap)"
  unfolding reactivateExistingReservation_def
proof (rule yields_or_fail_closed [OF resolvePolicies_balanced], rule decision_balanced [OF assms])
  fix ps its
  assume snap: "snapshot_done cap rq ps its"
  show "yields (booked exact cap rq its) (db (reactivateReservation lower (rv_id r) (booking_of lower rq ps its)))
      (\<lambda>r. reserving exact cap rq its)"
    by (rule yields_db) (rule reactivate_reserving [OF assms _ snap])
qed simp_all

lemma reserve_body_balanced:
  assumes "0 < rq_tokens rq"
  shows "yields (balanced exact cap) (reserve_body lower rq) (\<lambda>x. balanced exact cap)"
  unfolding reserve_body_def
  by (rule yields_catch [OF triple_quiet [OF quiet_get]])
    (auto simp: reserve_existing_def intro!: reserve_new_balanced reactivate_balanced assms yields_return yields_fail)

section \<open>The call\<close>

lemma keeps_withStore: "yields P body (\<lambda>x. P) \<Longrightarrow> keeps P (withStore store body)"
  by (simp add: withStore_def keeps_tx keeps_fail)

lemma keeps_quiet: "(\<And>now d. same_books d (snd (f now d))) \<Longrightarrow> keeps (balanced exact cap) (db f)"
  unfolding balanced_def by (rule quiet_db)

lemma keeps_yields: "keeps P m \<Longrightarrow> yields P m (\<lambda>x. P)"
  unfolding keeps_def by (rule triple_yields)

lemma reserve_run_balanced:
  assumes "0 < rq_tokens rq"
  shows "keeps (balanced exact cap) (reserve_run lower store rq)"
proof -
  have audit: "keeps (balanced exact cap) (insertDecisionAudit rq rid event dc payload)" for rid event dc payload
    unfolding insertDecisionAudit_def by (rule keeps_quiet [OF quiet_audit])
  have deny: "keeps (balanced exact cap) (writeDenyAuditBestEffort store rq dc payload)" for dc payload
    by (simp add: writeDenyAuditBestEffort_def Let_def audit keeps_tx keeps_yields)
  have again: "keeps (balanced exact cap) (reuseReservationAfterClaimRace lower store rq)"
    unfolding reuseReservationAfterClaimRace_def
    by (rule keeps_catch [OF keeps_withStore [OF keeps_yields [OF keeps_quiet [OF quiet_get]]]])
      (auto split: sum.split intro: keeps_return)
  have "keeps (balanced exact cap) (reserve_finish lower store rq x)" for x
    unfolding reserve_finish_def
    by (auto split: sum.split q_serr.split intro!: keeps_return keeps_catch deny again)
  then show ?thesis
    unfolding reserve_run_def
    by (intro keeps_catch keeps_retry keeps_withStore reserve_body_balanced assms)
qed

lemma Reserve_balanced:
  assumes "0 < rq_tokens rq" "balanced exact cap (st_db s)"
  shows "balanced exact cap (st_db (snd (Reserve lower store rq s)))"
proof -
  have "0 < rq_tokens (normalizeReserveRequest lower now rq)" for now
    using assms(1) by (simp add: normalizeReserveRequest_def Let_def)
  from keepsD [OF reserve_run_balanced [OF this] assms(2)] show ?thesis
    using assms(2) by (auto simp: Reserve_def Let_def split: prod.splits sum.splits)
      (metis snd_conv)+
qed

end
