(* ===== verification/Quota_Closing.thy ===== *)
theory Quota_Closing
  imports Quota_Admission
begin

text \<open>
  Settlement, release, cache hits, reversals and the reconciler keep the books balanced: a
  finalisation takes from each window what the snapshot says the reservation holds there, which is
  what its booking put there, so the decrement is never cut off at zero.
\<close>

section \<open>The entries of a snapshot\<close>

definition fp_key :: "int \<Rightarrow> q_final \<Rightarrow> q_key" where
  "fp_key tenant f = (tenant, fp_policy f, qw_start (fp_window f))"

definition final_sum :: "(q_final \<Rightarrow> rat) \<Rightarrow> int \<Rightarrow> q_final list \<Rightarrow> q_key \<Rightarrow> rat" where
  "final_sum g tenant fs k = (\<Sum>f\<leftarrow>fs. if fp_key tenant f = k then g f else 0)"

definition fp_charge :: "rat \<Rightarrow> q_final \<Rightarrow> rat" where
  "fp_charge cost f = (case fp_metric f of MetricRequests \<Rightarrow> 1 | MetricCostUSD \<Rightarrow> cost | _ \<Rightarrow> fp_reserved f)"

definition finals_ok :: "q_final list \<Rightarrow> bool" where
  "finals_ok fs \<longleftrightarrow> (\<forall>f \<in> set fs. 0 \<le> fp_reserved f \<and> metricHasWindowReservation (fp_metric f))"

lemma final_sum_simps [simp]:
  "final_sum g tenant [] k = 0"
  "final_sum g tenant (f # fs) k = (if fp_key tenant f = k then g f else 0) + final_sum g tenant fs k"
  by (simp_all add: final_sum_def)

lemma final_sum_nonneg: "finals_ok fs \<Longrightarrow> 0 \<le> final_sum fp_reserved tenant fs k"
  unfolding final_sum_def finals_ok_def by (rule sum_list_nonneg) auto

lemma snapshot_final_ok:
  assumes "snapshot_final r n = Some f" "counted n" "snap_ok (rv_predicted r) n"
  shows "fp_key tenant f = sn_key tenant n" "fp_reserved f = sn_amount n" "fp_charge cost f = sn_charge cost n"
    "0 \<le> fp_reserved f" "metricHasWindowReservation (fp_metric f)"
proof -
  obtain a where a: "sn_reserved n = Some a" "0 \<le> a" using assms(2,3) by (auto simp: snap_ok_def split: option.splits)
  obtain s e where se: "sn_start n = Some s" "sn_end n = Some e" "\<not> e \<le> s"
    using assms(1) by (auto simp: snapshot_final_def snapshotRecordWindow_def split: option.splits if_splits)
  have f: "f = \<lparr> fp_policy = sn_id n, fp_metric = sn_metric n,
      fp_window = \<lparr> qw_kind = sn_windowKind n, qw_seconds = 0, qw_start = s, qw_end = e \<rparr>,
      fp_limit = sn_limit n, fp_reserved = a \<rparr>"
    using assms(1) a se by (simp add: snapshot_final_def snapshotRecordWindow_def snapshotReservedAmount_def)
  show "fp_key tenant f = sn_key tenant n" by (simp add: f fp_key_def sn_key_def se)
  show res: "fp_reserved f = sn_amount n" by (simp add: f sn_amount_def a)
  show "fp_charge cost f = sn_charge cost n" using res by (simp add: f fp_charge_def sn_charge_def split: q_metric.split)
  show "0 \<le> fp_reserved f" by (simp add: f a)
  show "metricHasWindowReservation (fp_metric f)" using assms(2) by (simp add: f counted_def)
qed

lemma collect_options_map: "collect_options xs = Some ys \<Longrightarrow> xs = map Some ys"
  by (induction xs arbitrary: ys rule: collect_options.induct) (auto split: option.splits)

lemma final_sum_snaps:
  assumes "map (snapshot_final r) ns = map Some fs" "\<forall>n \<in> set ns. counted n \<and> snap_ok (rv_predicted r) n"
    and "\<And>n f. snapshot_final r n = Some f \<Longrightarrow> counted n \<Longrightarrow> snap_ok (rv_predicted r) n \<Longrightarrow> g f = h n"
  shows "final_sum g tenant fs k = (\<Sum>n\<leftarrow>ns. if sn_key tenant n = k then h n else 0) \<and> finals_ok fs"
  using assms(1,2)
proof (induction ns arbitrary: fs)
  case (Cons n ns)
  then obtain f fs' where fs: "fs = f # fs'" "snapshot_final r n = Some f" "map (snapshot_final r) ns = map Some fs'"
    by (cases fs) auto
  have n: "counted n" "snap_ok (rv_predicted r) n" using Cons.prems(2) by simp_all
  show ?case
    using Cons.IH [OF fs(3)] Cons.prems(2) snapshot_final_ok [OF fs(2) n] assms(3) [OF fs(2) n]
    by (auto simp: fs(1) finals_ok_def)
qed (simp add: finals_ok_def)

lemma snapshot_finals:
  assumes "rv_ok r" "snapshotFinalizationPolicies r = Some fs"
  shows "final_sum fp_reserved (rv_tenant r) fs k = rv_amount r k"
    "final_sum (fp_charge cost) (rv_tenant r) fs k = rv_sum (sn_charge cost) r k" "finals_ok fs"
proof -
  obtain ns where ns: "rv_snapshot r = Some ns" and c: "collect_options (map (snapshot_final r) (filter counted ns)) = Some fs"
    using assms(2) by (auto simp: snapshotFinalizationPolicies_def counted_def [abs_def] split: option.splits)
  have ok: "\<forall>n \<in> set (filter counted ns). counted n \<and> snap_ok (rv_predicted r) n"
    using assms(1) by (auto simp: rv_ok_def ns)
  note s = final_sum_snaps [OF collect_options_map [OF c] ok]
  show "final_sum fp_reserved (rv_tenant r) fs k = rv_amount r k" "finals_ok fs"
    using s [of fp_reserved sn_amount "rv_tenant r" k] snapshot_final_ok(2)
    by (simp_all add: rv_amount_def rv_sum_def snap_sum_def ns)
  show "final_sum (fp_charge cost) (rv_tenant r) fs k = rv_sum (sn_charge cost) r k"
    using s [of "fp_charge cost" "sn_charge cost" "rv_tenant r" k] snapshot_final_ok(3)
    by (simp add: rv_sum_def snap_sum_def ns)
qed

section \<open>A reservation being closed\<close>

text \<open>
  \<open>fs\<close> are the entries still to be written of \<open>all\<close>; \<open>ch\<close> is what each adds to the settled amount.
\<close>

definition closing ::
    "bool \<Rightarrow> q_limits \<Rightarrow> q_reservation \<Rightarrow> (q_final \<Rightarrow> rat) \<Rightarrow> q_final list \<Rightarrow> q_final list \<Rightarrow> q_db \<Rightarrow> bool" where
  "closing exact cap r ch all fs d \<longleftrightarrow>
     books exact cap (\<lambda>k. final_sum fp_reserved (rv_tenant r) fs k - rv_amount r k)
       (\<lambda>k. final_sum ch (rv_tenant r) all k - final_sum ch (rv_tenant r) fs k)
       (\<lambda>k. final_sum fp_reserved (rv_tenant r) fs k - rv_amount r k +
            final_sum ch (rv_tenant r) all k - final_sum ch (rv_tenant r) fs k) d \<and>
     r \<in> set (qd_reservations d) \<and> rv_live r \<and> finals_ok fs"

lemma books_moved_zero:
  assumes b: "books exact cap P S X d" and m: "windows_moved k 0 0 d d'"
  shows "books exact cap P S X d'"
proof (rule books_moved [OF b m])
  have "reserved_of d' k = reserved_of d k" "settled_of d' k = settled_of d k"
    using m unfolding windows_moved_def by simp_all
  then show "reserved_of d' k + settled_of d' k \<le> cap_key cap k + excess d k + X k"
    using booksD [OF b, of k] by simp
qed simp_all

lemma closing_moved: "closing exact cap r ch all fs d \<Longrightarrow> windows_moved k 0 0 d d' \<Longrightarrow> closing exact cap r ch all fs d'"
  unfolding closing_def by (auto intro: books_moved_zero simp: windows_moved_def)

lemma snapshotWindow_closing:
  "yields (closing exact cap r ch all fs) (snapshotWindowForUpdate (rv_tenant r) f)
     (\<lambda>c d. closing exact cap r ch all fs d \<and> has_window (wn_id c) (fp_key (rv_tenant r) f) d)"
proof -
  let ?k = "fp_key (rv_tenant r) f"
  have "yields (closing exact cap r ch all fs) (db (upsertWindow (rv_tenant r) (fp_policy f) (fp_window f)))
      (\<lambda>w d. closing exact cap r ch all fs d \<and> has_window (wn_id w) ?k d)"
  proof (rule yields_db)
    fix now d w d'
    assume d: "closing exact cap r ch all fs d" and up: "upsertWindow (rv_tenant r) (fp_policy f) (fp_window f) now d = (Inr w, d')"
    have "tables_ok d" using d by (auto simp: closing_def intro: books_tables)
    from upsertWindow_moved [OF this up] show "closing exact cap r ch all fs d' \<and> has_window (wn_id w) ?k d'"
      using closing_moved [OF d] by (simp add: fp_key_def)
  qed
  then show ?thesis
    unfolding snapshotWindowForUpdate_def
    by (rule yields_bind) (rule yields_db,
      auto simp: getWindowForUpdate_def sql_ok_def sql_none_def window_is_def split: option.splits dest!: find_inD)
qed

lemma settlement_closing:
  assumes c: "closing exact cap r ch all (f # fs) d" and has: "has_window wid (fp_key (rv_tenant r) f) d"
    and apl: "applyWindowSettlement (rv_tenant r) wid (fp_reserved f) (ch f) overage now d = (Inr w, d')"
  shows "closing exact cap r ch all fs d'"
proof -
  let ?t = "rv_tenant r" let ?k = "fp_key ?t f"
  let ?f = "\<lambda>w. w\<lparr> wn_reserved := max 0 (wn_reserved w - fp_reserved f), wn_settled := wn_settled w + ch f,
               wn_overage := wn_overage w + overage, wn_version := wn_version w + 1 \<rparr>"
  have b: "books exact cap (\<lambda>k. final_sum fp_reserved ?t (f # fs) k - rv_amount r k)
       (\<lambda>k. final_sum ch ?t all k - final_sum ch ?t (f # fs) k)
       (\<lambda>k. final_sum fp_reserved ?t (f # fs) k - rv_amount r k + final_sum ch ?t all k - final_sum ch ?t (f # fs) k) d"
    and r: "r \<in> set (qd_reservations d)" "rv_live r" and ok: "finals_ok fs" "0 \<le> fp_reserved f"
    using c by (auto simp: closing_def finals_ok_def)
  have upd: "update_window ?t wid (\<lambda>w. True) ?f d = (Inr w, d')" using apl by (simp add: applyWindowSettlement_def)
  have keep: "wn_id (?f v) = wn_id v" "wn_key (?f v) = wn_key v" for v by (simp_all add: wn_key_def)
  obtain v where "v \<in> set (qd_windows d)" "wn_key v = ?k" "True"
      and v: "reserved_of d ?k = wn_reserved v" "settled_of d ?k = wn_settled v"
      "windows_moved ?k (wn_reserved (?f v) - wn_reserved v) (wn_settled (?f v) - wn_settled v) d d'"
    by (rule update_window_moved [OF books_tables [OF b] has [unfolded fp_key_def] refl upd keep, folded fp_key_def])
  have "fp_reserved f \<le> wn_reserved v"
    using booksD [OF b, of ?k] held_member [OF books_tables [OF b] r, of ?k] final_sum_nonneg [OF ok(1), of ?t ?k] v(1)
    by simp
  then have moved: "windows_moved ?k (- fp_reserved f) (ch f) d d'" using v(3) by simp
  have "books exact cap (\<lambda>k. final_sum fp_reserved ?t fs k - rv_amount r k)
       (\<lambda>k. final_sum ch ?t all k - final_sum ch ?t fs k)
       (\<lambda>k. final_sum fp_reserved ?t fs k - rv_amount r k + final_sum ch ?t all k - final_sum ch ?t fs k) d'"
  proof (rule books_moved [OF b moved])
    have "reserved_of d' ?k = reserved_of d ?k - fp_reserved f" "settled_of d' ?k = settled_of d ?k + ch f"
      using moved unfolding windows_moved_def by simp_all
    then show "reserved_of d' ?k + settled_of d' ?k \<le> cap_key cap ?k + excess d ?k +
        (final_sum fp_reserved ?t fs ?k - rv_amount r ?k + final_sum ch ?t all ?k - final_sum ch ?t fs ?k)"
      using booksD [OF b, of ?k] by simp
  qed auto
  then show ?thesis using r ok(1) moved by (simp add: closing_def windows_moved_def)
qed

lemma closing_same: "same_books d d' \<Longrightarrow> closing exact cap r ch all fs d \<Longrightarrow> closing exact cap r ch all fs d'"
  unfolding closing_def by (auto intro: same_books_books simp: same_books_def)

lemma closing_start:
  assumes "balanced exact cap d" "r \<in> set (qd_reservations d)" "rv_live r" "snapshotFinalizationPolicies r = Some fs"
  shows "closing exact cap r ch fs fs d"
proof -
  have "rv_ok r" using assms(1,2) by (auto simp: balanced_def books_def tables_ok_def)
  then show ?thesis using assms snapshot_finals [OF _ assms(4)] by (simp add: closing_def balanced_def)
qed

section \<open>Settlement\<close>

lemma settle_window_closing:
  assumes "cacheHit \<longrightarrow> actual = 0"
  shows "yields (closing exact cap r (fp_charge actual) all (f # fs)) (settle_window r actual cacheHit f)
     (\<lambda>x. closing exact cap r (fp_charge actual) all fs)"
  unfolding settle_window_def
proof (rule yields_bind [OF snapshotWindow_closing])
  fix c :: q_counter
  let ?P = "\<lambda>d. closing exact cap r (fp_charge actual) all (f # fs) d \<and> has_window (wn_id c) (fp_key (rv_tenant r) f) d"
  have apply_to: "yields ?P (qbind (db (applyWindowSettlement (rv_tenant r) (wn_id c) (fp_reserved f) settled overage)) (\<lambda>_. qreturn overage))
      (\<lambda>x. closing exact cap r (fp_charge actual) all fs)" if "settled = fp_charge actual f" for settled overage
    unfolding that
    by (rule yields_bind [where R = "\<lambda>x. closing exact cap r (fp_charge actual) all fs"], rule yields_db)
      (auto intro: settlement_closing yields_return)
  show "yields ?P (let apply_to = (\<lambda>settled overage.
             qbind (db (applyWindowSettlement (rv_tenant r) (wn_id c) (fp_reserved f) settled overage)) (\<lambda>_. qreturn overage))
       in case fp_metric f of
            MetricRequests \<Rightarrow> apply_to 1 0
          | MetricCostUSD \<Rightarrow>
              if cacheHit then apply_to 0 0
              else apply_to actual (marginalBudgetOverage c (fp_limit f) (rv_predicted r) actual)
          | MetricTokensEstimated \<Rightarrow> apply_to (fp_reserved f) 0
          | MetricConcurrency \<Rightarrow> qreturn 0) (\<lambda>x. closing exact cap r (fp_charge actual) all fs)"
  proof (cases "fp_metric f = MetricConcurrency")
    case True
    then show ?thesis by (auto simp: yields_def triple_def closing_def finals_ok_def metricHasWindowReservation_def)
  next
    case False
    then show ?thesis using assms apply_to
      by (cases "fp_metric f"; cases cacheHit) (simp_all add: fp_charge_def Let_def)
  qed
qed

lemma settle_windows_closing:
  assumes "cacheHit \<longrightarrow> actual = 0"
  shows "yields (closing exact cap r (fp_charge actual) all fs) (settle_windows r actual cacheHit fs acc)
     (\<lambda>x. closing exact cap r (fp_charge actual) all [])"
proof (induction fs arbitrary: acc)
  case Nil
  then show ?case by (auto intro: yields_return)
next
  case (Cons f fs)
  show ?case unfolding settle_windows.simps by (rule yields_bind [OF settle_window_closing [OF assms]]) (rule Cons)
qed

lemma release_windows_closing:
  "yields (closing exact cap r (\<lambda>f. 0) all fs) (release_windows r fs) (\<lambda>x. closing exact cap r (\<lambda>f. 0) all [])"
proof (induction fs)
  case Nil
  then show ?case by (auto intro: yields_return)
next
  case (Cons f fs)
  let ?P = "\<lambda>c d. closing exact cap r (\<lambda>f. 0) all (f # fs) d \<and> has_window (wn_id c) (fp_key (rv_tenant r) f) d"
  have step: "yields (?P c) (qbind (db (applyWindowSettlement (rv_tenant r) (wn_id c) (fp_reserved f) 0 0)) (\<lambda>_. release_windows r fs))
      (\<lambda>x. closing exact cap r (\<lambda>f. 0) all [])" for c
    by (rule yields_bind [where R = "\<lambda>x. closing exact cap r (\<lambda>f. 0) all fs"], rule yields_db)
      (auto intro: settlement_closing Cons)
  show ?case
    unfolding release_windows.simps
  proof (rule yields_bind [OF snapshotWindow_closing])
    fix c :: q_counter
    show "yields (?P c) (if metricHasWindowReservation (fp_metric f)
         then qbind (db (applyWindowSettlement (rv_tenant r) (wn_id c) (fp_reserved f) 0 0)) (\<lambda>_. release_windows r fs)
         else release_windows r fs) (\<lambda>x. closing exact cap r (\<lambda>f. 0) all [])"
    proof (cases "metricHasWindowReservation (fp_metric f)")
      case True
      then show ?thesis using step by simp
    next
      case False
      then show ?thesis by (simp add: yields_def triple_def closing_def finals_ok_def)
    qed
  qed
qed

section \<open>The finalising transactions\<close>

definition located :: "bool \<Rightarrow> q_limits \<Rightarrow> int \<Rightarrow> int \<Rightarrow> q_reservation \<Rightarrow> q_db \<Rightarrow> bool" where
  "located exact cap tenant claim r d \<longleftrightarrow>
     balanced exact cap d \<and> r \<in> set (qd_reservations d) \<and> rv_tenant r = tenant \<and> rv_claim r = claim"

lemma located_same: "same_books d d' \<Longrightarrow> located exact cap tenant claim r d \<Longrightarrow> located exact cap tenant claim r d'"
  unfolding located_def by (auto intro: balanced_same simp: same_books_def)

lemma get_located:
  "triple (balanced exact cap) (db (getReservationByClaim tenant claim)) (located exact cap tenant claim) (\<lambda>e. balanced exact cap)"
  by (rule triple_db)
    (auto simp: getReservationByClaim_def sql_ok_def sql_none_def located_def rv_of_claim_def
      split: option.splits dest!: find_inD)

lemma finalization_audit_located:
  "triple (located exact cap tenant claim r) (insertQuotaFinalizationAudit a)
     (\<lambda>u. balanced exact cap) (\<lambda>e. balanced exact cap)"
  unfolding insertQuotaFinalizationAudit_def Let_def
  by (rule triple_weaken [OF triple_quiet [OF quiet_audit]]) (auto simp: located_def)

lemma finalization_audit_balanced: "yields (balanced exact cap) (insertQuotaFinalizationAudit a) (\<lambda>u. balanced exact cap)"
  unfolding insertQuotaFinalizationAudit_def Let_def by (rule triple_yields [OF triple_quiet [OF quiet_audit]])

lemma getFinalization_located:
  "triple (balanced exact cap) (getFinalizationReservation tenant claim rid operation actor)
     (located exact cap tenant claim) (\<lambda>e. balanced exact cap)"
  unfolding getFinalizationReservation_def
proof (rule triple_catch [OF get_located], goal_cases)
  case (1 r)
  have "triple (located exact cap tenant claim r) (qbind (insertQuotaFinalizationAudit a) (\<lambda>_. qfail SMismatch))
      (located exact cap tenant claim) (\<lambda>e. balanced exact cap)" for a
    by (rule triple_bind [OF finalization_audit_located]) (rule triple_fail)
  then show ?case by (auto intro: triple_return)
qed (auto intro: triple_fail)

text \<open>Closing the row itself, once its windows are done.\<close>

lemma close_row:
  assumes c: "closing exact cap r ch all [] d"
    and p: "\<And>v. p v \<Longrightarrow> rv_tenant v = rv_tenant r \<and> rv_claim v = rv_claim r"
    and f: "\<And>v. rv_claim_key (f v) = rv_claim_key v" "\<And>v. rv_ok v \<Longrightarrow> rv_ok (f v)" "\<not> rv_live (f r)"
    and upd: "update_reservations p f d = (Inr x, d')"
    and charge: "\<And>k. final_sum ch (rv_tenant r) all k = (if rv_settled (f r) then rv_charge (f r) k else 0)"
    and over: "\<And>k. final_sum ch (rv_tenant r) all k - rv_amount r k \<le> (if rv_settled (f r) then rv_excess (f r) k else 0)"
  shows "balanced exact cap d'"
proof -
  have b: "books exact cap (\<lambda>k. - rv_amount r k) (\<lambda>k. final_sum ch (rv_tenant r) all k)
      (\<lambda>k. - rv_amount r k + final_sum ch (rv_tenant r) all k) d"
    and r: "r \<in> set (qd_reservations d)" "rv_live r"
    using c by (simp_all add: closing_def)
  obtain v where v: "p v" "x = f v" and m: "row_moved v (f v) d d'"
    by (rule update_reservations_moved [OF books_tables [OF b] p f(1,2) upd])
  have "v = r"
    using m p [OF v(1)] claim_key_iff [OF books_tables [OF b] r(1), of v] by (auto simp: row_moved_def rv_of_claim_def)
  moreover have "\<not> rv_settled r" using r(2) by (auto simp: rv_live_def rv_settled_def)
  ultimately show ?thesis
    unfolding balanced_def using m r(2) f(3) charge over
    by (intro books_row [OF b, where r = r and r' = "f r"]) (auto simp: add.commute)
qed

lemma charge_over:
  assumes "rv_ok r"
  shows "rv_sum (sn_charge cost) r k - rv_amount r k \<le> rv_sum (sn_excess (rv_predicted r) cost) r k"
proof (cases "rv_snapshot r")
  case (Some ns)
  then have ok: "\<forall>n \<in> set ns. snap_ok (rv_predicted r) n" using assms by (simp add: rv_ok_def)
  have one: "sn_charge cost n \<le> sn_amount n + sn_excess (rv_predicted r) cost n" if "counted n" "snap_ok (rv_predicted r) n" for n
    using that by (cases "sn_metric n") (auto simp: snap_ok_def sn_charge_def sn_amount_def sn_excess_def split: option.splits)
  have "snap_sum (sn_charge cost) t ns k \<le> snap_sum sn_amount t ns k + snap_sum (sn_excess (rv_predicted r) cost) t ns k" for t
    using ok one unfolding snap_sum_def sum_list_addf [symmetric] by (intro sum_list_mono) auto
  then show ?thesis by (simp add: rv_amount_def rv_sum_def Some algebra_simps)
qed (simp add: rv_amount_def rv_sum_def)


definition live_located :: "bool \<Rightarrow> q_limits \<Rightarrow> int \<Rightarrow> int \<Rightarrow> q_reservation \<Rightarrow> q_db \<Rightarrow> bool" where
  "live_located exact cap tenant claim r d \<longleftrightarrow> located exact cap tenant claim r d \<and> rv_live r"

lemma finalizationPolicies_closing:
  "yields (live_located exact cap tenant claim r) (finalizationPolicies r)
     (\<lambda>fs d. closing exact cap r ch fs fs d \<and> rv_tenant r = tenant \<and> rv_claim r = claim \<and> rv_ok r \<and>
        snapshotFinalizationPolicies r = Some fs)"
proof (cases "snapshotFinalizationPolicies r")
  case None
  then show ?thesis by (simp add: finalizationPolicies_def yields_fail)
next
  case (Some fs)
  have "rv_ok r" if "located exact cap tenant claim r d" for d
    using that by (auto simp: located_def balanced_def books_def tables_ok_def)
  then show ?thesis
    using Some by (auto simp: finalizationPolicies_def live_located_def located_def intro!: yields_return closing_start)
qed

text \<open>What is known when the windows of a reservation are done.\<close>

definition windows_done ::
    "bool \<Rightarrow> q_limits \<Rightarrow> int \<Rightarrow> int \<Rightarrow> q_reservation \<Rightarrow> (q_final \<Rightarrow> rat) \<Rightarrow> (q_key \<Rightarrow> rat) \<Rightarrow> q_db \<Rightarrow> bool" where
  "windows_done exact cap tenant claim r ch tot d \<longleftrightarrow>
     rv_tenant r = tenant \<and> rv_claim r = claim \<and> rv_ok r \<and>
     closing exact cap r ch (the (snapshotFinalizationPolicies r)) [] d \<and>
     (\<forall>k. final_sum ch tenant (the (snapshotFinalizationPolicies r)) k = tot k)"

lemma windows_done_same:
  "same_books d d' \<Longrightarrow> windows_done exact cap tenant claim r ch tot d \<Longrightarrow> windows_done exact cap tenant claim r ch tot d'"
  by (simp add: windows_done_def closing_same)

lemma yields_const:
  assumes "A \<Longrightarrow> yields P m Q" "\<And>d. P d \<Longrightarrow> A"
  shows "yields P m Q"
proof (rule yieldsI)
  fix s x s'
  assume P: "P (st_db s)" and m: "m s = (Inr x, s')"
  show "Q x (st_db s')" by (rule yieldsD [OF assms(1) [OF assms(2) [OF P]] P m])
qed

lemma applySettlement_done:
  assumes "cacheHit \<longrightarrow> actual = 0"
  shows "yields (live_located exact cap tenant claim r) (applySettlementWindows r actual cacheHit)
     (\<lambda>x. windows_done exact cap tenant claim r (fp_charge actual) (rv_sum (sn_charge actual) r))"
  unfolding applySettlementWindows_def
proof (rule yields_bind [OF finalizationPolicies_closing [where ch = "fp_charge actual"]], rule yields_const)
  fix fs
  assume A: "rv_tenant r = tenant \<and> rv_claim r = claim \<and> rv_ok r \<and> snapshotFinalizationPolicies r = Some fs"
  show "yields (\<lambda>d. closing exact cap r (fp_charge actual) fs fs d \<and> rv_tenant r = tenant \<and> rv_claim r = claim \<and> rv_ok r \<and>
        snapshotFinalizationPolicies r = Some fs) (settle_windows r actual cacheHit fs 0)
     (\<lambda>x. windows_done exact cap tenant claim r (fp_charge actual) (rv_sum (sn_charge actual) r))"
    using A snapshot_finals(2) [of r fs]
    by (intro yields_weaken [OF settle_windows_closing [OF assms]]) (auto simp: windows_done_def)
qed blast

lemma applyRelease_done:
  "yields (live_located exact cap tenant claim r) (applyReleaseWindows r)
     (\<lambda>x. windows_done exact cap tenant claim r (\<lambda>f. 0) (\<lambda>k. 0))"
  unfolding applyReleaseWindows_def
proof (rule yields_bind [OF finalizationPolicies_closing [where ch = "\<lambda>f. 0"]], rule yields_const)
  fix fs
  assume A: "rv_tenant r = tenant \<and> rv_claim r = claim \<and> rv_ok r \<and> snapshotFinalizationPolicies r = Some fs"
  show "yields (\<lambda>d. closing exact cap r (\<lambda>f. 0) fs fs d \<and> rv_tenant r = tenant \<and> rv_claim r = claim \<and> rv_ok r \<and>
        snapshotFinalizationPolicies r = Some fs) (release_windows r fs)
     (\<lambda>x. windows_done exact cap tenant claim r (\<lambda>f. 0) (\<lambda>k. 0))"
    using A by (intro yields_weaken [OF release_windows_closing]) (auto simp: windows_done_def final_sum_def)
qed blast

lemma releaseSlots_done:
  "yields (windows_done exact cap tenant claim r ch tot) (db (releaseSlots tenant' rid reason))
     (\<lambda>x. windows_done exact cap tenant claim r ch tot)"
  using quiet_slots by (intro yields_db) (metis windows_done_same snd_conv)

lemma rv_ok_cong: "rv_snapshot v = rv_snapshot r \<Longrightarrow> rv_predicted v = rv_predicted r \<Longrightarrow> rv_ok v \<longleftrightarrow> rv_ok r"
  by (simp add: rv_ok_def split: option.split)

lemma rv_sum_cong: "rv_snapshot v = rv_snapshot r \<Longrightarrow> rv_tenant v = rv_tenant r \<Longrightarrow> rv_sum g v k = rv_sum g r k"
  by (simp add: rv_sum_def split: option.split)

lemma settleReservation_done:
  "yields (windows_done exact cap tenant claim r (fp_charge cost) (rv_sum (sn_charge cost) r))
     (db (settleReservation tenant (rv_id r) claim cost units overage)) (\<lambda>x. balanced exact cap)"
proof (rule yields_db)
  fix now d x d'
  assume D: "windows_done exact cap tenant claim r (fp_charge cost) (rv_sum (sn_charge cost) r) d"
    and S: "settleReservation tenant (rv_id r) claim cost units overage now d = (Inr x, d')"
  let ?f = "\<lambda>r. r\<lparr> rv_status := ReservationSettled, rv_settledCost := cost, rv_settledUnits := units, rv_overageUnits := overage \<rparr>"
  have r: "rv_tenant r = tenant" "rv_claim r = claim" "rv_ok r" using D by (simp_all add: windows_done_def)
  have c: "closing exact cap r (fp_charge cost) (the (snapshotFinalizationPolicies r)) [] d"
    and tot: "final_sum (fp_charge cost) tenant (the (snapshotFinalizationPolicies r)) k = rv_sum (sn_charge cost) r k" for k
    using D by (simp_all add: windows_done_def)
  have upd: "update_reservations (\<lambda>v. rv_is tenant (rv_id r) claim v \<and> rv_live v) ?f d = (Inr x, d')"
    using S by (auto simp: settleReservation_def split: if_splits)
  have sum: "rv_sum g (?f r) k = rv_sum g r k" for g k by (rule rv_sum_cong) simp_all
  have ok: "rv_ok (?f v) \<longleftrightarrow> rv_ok v" for v by (rule rv_ok_cong) simp_all
  show "balanced exact cap d'"
    using charge_over [OF r(3), of cost] r
    by (intro close_row [OF c _ _ _ _ upd])
      (auto simp: rv_is_def rv_claim_key_def ok rv_live_def tot rv_settled_def rv_charge_def rv_excess_def sum)
qed

lemma releaseReservation_done:
  "yields (windows_done exact cap tenant claim r (\<lambda>f. 0) (\<lambda>k. 0))
     (db (releaseReservation tenant (rv_id r) claim reason)) (\<lambda>x. balanced exact cap)"
proof (rule yields_db)
  fix now d x d'
  assume D: "windows_done exact cap tenant claim r (\<lambda>f. 0) (\<lambda>k. 0) d"
    and S: "releaseReservation tenant (rv_id r) claim reason now d = (Inr x, d')"
  let ?f = "\<lambda>r. r\<lparr> rv_status := ReservationReleased, rv_releaseReason := Some reason \<rparr>"
  have r: "rv_tenant r = tenant" "rv_claim r = claim" "rv_ok r" using D by (simp_all add: windows_done_def)
  have c: "closing exact cap r (\<lambda>f. 0) (the (snapshotFinalizationPolicies r)) [] d"
    and tot: "final_sum (\<lambda>f. 0) tenant (the (snapshotFinalizationPolicies r)) k = 0" for k
    using D by (simp_all add: windows_done_def)
  have upd: "update_reservations (\<lambda>v. rv_is tenant (rv_id r) claim v \<and> rv_live v) ?f d = (Inr x, d')"
    using S by (simp add: releaseReservation_def)
  have ok: "rv_ok (?f v) \<longleftrightarrow> rv_ok v" for v by (rule rv_ok_cong) simp_all
  show "balanced exact cap d'"
    using rv_amount_nonneg [OF r(3)] r
    by (intro close_row [OF c _ _ _ _ upd]) (auto simp: rv_is_def rv_claim_key_def ok rv_live_def tot rv_settled_def)
qed

lemma settle_live_balanced:
  "yields (live_located exact cap (se_tenant se) (se_claim se) r) (settle_live se r) (\<lambda>x. balanced exact cap)"
proof -
  have windows: "yields (live_located exact cap (se_tenant se) (se_claim se) r) (applySettlementWindows r (se_cost se) False)
      (\<lambda>x. windows_done exact cap (se_tenant se) (se_claim se) r (fp_charge (se_cost se)) (rv_sum (sn_charge (se_cost se)) r))"
    by (rule applySettlement_done) simp
  note steps = windows releaseSlots_done settleReservation_done finalization_audit_balanced
  show ?thesis
    unfolding settle_live_def by ((rule yields_bind, rule steps)+) (auto intro: yields_return)
qed

lemma hit_live_balanced:
  "yields (live_located exact cap (ch_tenant ch) (ch_claim ch) r) (hit_live ch r) (\<lambda>x. balanced exact cap)"
proof -
  have windows: "yields (live_located exact cap (ch_tenant ch) (ch_claim ch) r) (applySettlementWindows r 0 True)
      (\<lambda>x. windows_done exact cap (ch_tenant ch) (ch_claim ch) r (fp_charge 0) (rv_sum (sn_charge 0) r))"
    by (rule applySettlement_done) simp
  note steps = windows releaseSlots_done settleReservation_done finalization_audit_balanced
  show ?thesis
    unfolding hit_live_def by ((rule yields_bind, rule steps)+) (auto intro: yields_return)
qed

lemma release_live_balanced:
  "yields (live_located exact cap (re_tenant re) (re_claim re) r) (release_live re r) (\<lambda>x. balanced exact cap)"
proof -
  have claim: "yields (live_located exact cap (re_tenant re) (re_claim re) r) (db (getClaimState (re_tenant re) (re_claim re)))
      (\<lambda>c. live_located exact cap (re_tenant re) (re_claim re) r)"
    using quiet_claim by (intro yields_db) (metis live_located_def located_same snd_conv)
  note steps = applyRelease_done releaseSlots_done releaseReservation_done finalization_audit_balanced
  show ?thesis
    unfolding release_live_def
    by (rule yields_bind [OF claim], (rule yields_if yields_fail)+, (rule yields_bind, rule steps)+)
      (auto intro: yields_return)
qed

lemma body_balanced:
  assumes "\<And>r. yields (located exact cap tenant claim r) (k r) (\<lambda>x. balanced exact cap)"
  shows "yields (balanced exact cap) (qbind (getFinalizationReservation tenant claim rid operation actor) k) (\<lambda>x. balanced exact cap)"
  by (rule yields_bind [OF triple_yields [OF getFinalization_located] assms])

lemma located_live: "yields (live_located exact cap tenant claim r) m Q \<Longrightarrow> rv_live r \<Longrightarrow> yields (located exact cap tenant claim r) m Q"
  by (erule yields_weaken) (auto simp: live_located_def)

lemma settle_body_balanced: "yields (balanced exact cap) (settle_body se) (\<lambda>x. balanced exact cap)"
  unfolding settle_body_def
proof (rule body_balanced)
  fix r
  show "yields (located exact cap (se_tenant se) (se_claim se) r)
      (case rv_status r of
          ReservationSettled \<Rightarrow> qreturn ((found_fresult r)\<lparr> fr_idempotent := True \<rparr>)
        | ReservationReleased \<Rightarrow> qfail (SReconciliation quotaReconcileKindSettleFailed (rv_status r))
        | ReservationExpired \<Rightarrow> qfail (SReconciliation quotaReconcileKindSettleFailed (rv_status r))
        | _ \<Rightarrow> settle_live se r) (\<lambda>x. balanced exact cap)"
    by (cases "rv_status r")
      (auto simp: rv_live_def located_def intro: yields_fail yields_return located_live [OF settle_live_balanced])
qed

lemma hit_body_balanced: "yields (balanced exact cap) (hit_body ch) (\<lambda>x. balanced exact cap)"
  unfolding hit_body_def
proof (rule body_balanced)
  fix r
  show "yields (located exact cap (ch_tenant ch) (ch_claim ch) r)
      (case rv_status r of
          ReservationSettled \<Rightarrow> qreturn ((found_fresult r)\<lparr> fr_idempotent := True \<rparr>)
        | ReservationReleased \<Rightarrow> qfail (SReconciliation quotaReconcileKindCacheHitFailed (rv_status r))
        | ReservationExpired \<Rightarrow> qfail (SReconciliation quotaReconcileKindCacheHitFailed (rv_status r))
        | _ \<Rightarrow> hit_live ch r) (\<lambda>x. balanced exact cap)"
    by (cases "rv_status r")
      (auto simp: rv_live_def located_def intro: yields_fail yields_return located_live [OF hit_live_balanced])
qed

lemma release_body_balanced: "yields (balanced exact cap) (release_body re) (\<lambda>x. balanced exact cap)"
  unfolding release_body_def
proof (rule body_balanced)
  fix r
  show "yields (located exact cap (re_tenant re) (re_claim re) r)
      (case rv_status r of
          ReservationReleased \<Rightarrow> qreturn ((found_fresult r)\<lparr> fr_idempotent := True \<rparr>)
        | ReservationSettled \<Rightarrow> qfail (SInvalidStatus ''release'' (rv_status r))
        | ReservationExpired \<Rightarrow> qfail (SReconciliation quotaReconcileKindReleaseFailed (rv_status r))
        | _ \<Rightarrow> release_live re r) (\<lambda>x. balanced exact cap)"
    by (cases "rv_status r")
      (auto simp: rv_live_def located_def intro: yields_fail yields_return located_live [OF release_live_balanced])
qed

end
