(* ===== verification/Quota_Ledger.thy ===== *)
theory Quota_Ledger
  imports Quota_Closing
begin

text \<open>
  Every call of the quota service keeps the books balanced, whatever faults the database answers with,
  however often a transaction is retried, and in any order: histories of calls as a component with an
  invariant, and what the invariant says about limits.
\<close>

section \<open>Repairs\<close>

lemma keeps_row:
  assumes p: "\<And>v. p v \<Longrightarrow> rv_tenant v = tenant \<and> rv_claim v = claim \<and> rv_live v"
    and f: "\<And>v. rv_claim_key (f v) = rv_claim_key v" "\<And>v. rv_ok v \<Longrightarrow> rv_ok (f v)" "\<And>v. rv_live v \<Longrightarrow> rv_live (f v)"
      "\<And>v. rv_amount (f v) = rv_amount v"
  shows "balanced exact cap d \<Longrightarrow> balanced exact cap (snd (update_reservations p f d))"
proof (cases "update_reservations p f d")
  case (Pair x d')
  assume b: "balanced exact cap d"
  show ?thesis
  proof (cases x)
    case (Inl e)
    then have "d' = d" using Pair by (auto simp: update_reservations_def sql_none_def split: option.splits)
    then show ?thesis using b Pair by simp
  next
    case (Inr y)
    have ok: "tables_ok d" using b unfolding balanced_def by (rule books_tables)
    have p2: "p v \<Longrightarrow> rv_tenant v = tenant \<and> rv_claim v = claim" for v using p by blast
    obtain v where v: "p v" "y = f v" "row_moved v (f v) d d'"
      by (rule update_reservations_moved [OF ok p2 f(1,2) Pair [unfolded Inr]])
    have "books exact cap (\<lambda>k. 0) (\<lambda>k. 0) (\<lambda>k. 0) d'"
      using p [OF v(1)] f(3,4) by (intro books_row_same [OF b [unfolded balanced_def] v(3)]) auto
    then show ?thesis using Pair by (simp add: balanced_def)
  qed
qed

lemma mark_balanced: "keeps (balanced exact cap) (db (markReconciliationNeeded tenant rid claim))"
proof (rule keeps_db)
  fix now d
  assume "balanced exact cap d"
  then show "balanced exact cap (snd (markReconciliationNeeded tenant rid claim now d))"
    unfolding markReconciliationNeeded_def
    by (rule keeps_row [rotated -1])
      (auto simp: rv_is_def rv_live_def rv_claim_key_def rv_ok_def rv_amount_def rv_sum_def fun_eq_iff split: option.splits)
qed

lemma prepare_balanced: "keeps (balanced exact cap) (db (prepareReleaseRecovery tenant claim rid))"
proof (rule keeps_db)
  fix now d
  assume "balanced exact cap d"
  then have "balanced exact cap (snd (update_reservations
      (\<lambda>r. rv_of_claim tenant claim r \<and> (rid = 0 \<or> rv_id r = rid) \<and> rv_live r)
      (\<lambda>r. r\<lparr> rv_status := ReservationReconciliationNeeded, rv_lease := min (rv_lease r) now \<rparr>) d))"
    by (rule keeps_row [rotated -1])
      (auto simp: rv_of_claim_def rv_live_def rv_claim_key_def rv_ok_def rv_amount_def rv_sum_def fun_eq_iff split: option.splits)
  then show "balanced exact cap (snd (prepareReleaseRecovery tenant claim rid now d))"
    using \<open>balanced exact cap d\<close> by (simp add: prepareReleaseRecovery_def sql_none_def)
qed

lemma keeps_outside: "keeps P m \<Longrightarrow> keeps P (runQuotaOutsideFailedTx store m)"
  by (simp add: runQuotaOutsideFailedTx_def keeps_tx keeps_yields)

lemma enqueue_now_balanced: "keeps (balanced exact cap) (enqueue_now tenant claim rid kind)"
  unfolding enqueue_now_def by (rule keeps_quiet [OF quiet_enqueue])

lemma enqueue_balanced: "keeps (balanced exact cap) (enqueueFinalizationReconciliation store tenant claim rid kind)"
  unfolding enqueueFinalizationReconciliation_def
  by (auto intro!: keeps_fail keeps_return keeps_catch keeps_outside mark_balanced enqueue_now_balanced split: sum.split)

lemma handoff_balanced: "keeps (balanced exact cap) (handoffReleaseRecovery store tenant claim rid)"
  unfolding handoffReleaseRecovery_def runQuotaCleanupStepWithRetry_def
  by (auto intro!: keeps_fail keeps_return keeps_catch keeps_retry keeps_outside prepare_balanced enqueue_now_balanced split: sum.split)

section \<open>The calls\<close>

lemma keeps_finalization:
  "keeps P run \<Longrightarrow> keeps P queue \<Longrightarrow> keeps P (finalization run queue)"
  unfolding finalization_def by (auto intro!: keeps_catch keeps_return keeps_fail split: sum.split)

lemma keeps_with_retry:
  "yields P body (\<lambda>x. P) \<Longrightarrow> keeps P (runQuotaFinalizationWithRetry store operation n body)"
  by (simp add: runQuotaFinalizationWithRetry_def keeps_fail keeps_retry keeps_withStore)

lemma keepsI: "(\<And>s. P (st_db s) \<Longrightarrow> P (st_db (snd (m s)))) \<Longrightarrow> keeps P m"
  unfolding keeps_def by (rule tripleI) (metis snd_conv)+

lemma Settle_balanced: "keeps (balanced exact cap) (Settle store se)"
proof (rule keepsI)
  fix s :: q_st
  assume b: "balanced exact cap (st_db s)"
  show "balanced exact cap (st_db (snd (Settle store se s)))"
    using keepsD [OF keeps_finalization [OF keeps_with_retry [OF settle_body_balanced] enqueue_balanced] b] b
    by (simp add: Settle_def Let_def split: option.split)
qed

lemma Release_balanced: "keeps (balanced exact cap) (Release store re)"
proof (rule keepsI)
  fix s :: q_st
  assume b: "balanced exact cap (st_db s)"
  show "balanced exact cap (st_db (snd (Release store re s)))"
    using keepsD [OF keeps_finalization [OF keeps_with_retry [OF release_body_balanced] handoff_balanced] b] b
    by (simp add: Release_def Let_def split: option.split)
qed

lemma CacheHit_balanced: "keeps (balanced exact cap) (CommitCacheHit store ch)"
proof (rule keepsI)
  fix s :: q_st
  assume b: "balanced exact cap (st_db s)"
  show "balanced exact cap (st_db (snd (CommitCacheHit store ch s)))"
    using keepsD [OF keeps_finalization [OF keeps_with_retry [OF hit_body_balanced] enqueue_balanced] b] b
    by (simp add: CommitCacheHit_def Let_def split: option.split)
qed

section \<open>Reversals\<close>

text \<open>A reversal takes from what is settled, so the settled amount is then only bounded by the charges.\<close>

lemma held_nonneg: "tables_ok d \<Longrightarrow> 0 \<le> held d k"
  unfolding reservation_sum_def tables_ok_def by (rule sum_list_nonneg) (auto simp: rv_amount_nonneg)

lemma books_settled_mono:
  assumes "books False cap P S X d" "\<And>k. S k \<le> S' k"
  shows "books False cap P S' X d"
proof -
  have "settled_of d k \<le> charged d k + S' k" for k
    using booksD [OF assms(1), of k] assms(2) [of k] by linarith
  then show ?thesis using assms(1) unfolding books_def by metis
qed

lemma reversal_balanced:
  assumes b: "balanced False cap d" and has: "has_window wid (tenant, rest) d" and part: "0 \<le> part"
    and apl: "applyWindowSettlement tenant wid 0 (- part) 0 now d = (Inr w, d')"
  shows "balanced False cap d'"
proof -
  let ?k = "(tenant, rest)"
  let ?f = "\<lambda>w. w\<lparr> wn_reserved := max 0 (wn_reserved w - 0), wn_settled := wn_settled w + (- part),
               wn_overage := wn_overage w + 0, wn_version := wn_version w + 1 \<rparr>"
  have B: "books False cap (\<lambda>k. 0) (\<lambda>k. 0) (\<lambda>k. 0) d" using b by (simp add: balanced_def)
  have upd: "update_window tenant wid (\<lambda>w. True) ?f d = (Inr w, d')" using apl by (simp add: applyWindowSettlement_def)
  have keep: "wn_id (?f v) = wn_id v" "wn_key (?f v) = wn_key v" for v by (simp_all add: wn_key_def)
  obtain v where "v \<in> set (qd_windows d)" "wn_key v = ?k" "True"
      and v: "reserved_of d ?k = wn_reserved v" "settled_of d ?k = wn_settled v"
      "windows_moved ?k (wn_reserved (?f v) - wn_reserved v) (wn_settled (?f v) - wn_settled v) d d'"
    by (rule update_window_moved [OF books_tables [OF B] has refl upd keep])
  have "0 \<le> wn_reserved v" using booksD [OF B, of ?k] held_nonneg [OF books_tables [OF B], of ?k] v(1) by simp
  then have moved: "windows_moved ?k 0 (- part) d d'" using v(3) by simp
  then have "reserved_of d' ?k = reserved_of d ?k" "settled_of d' ?k = settled_of d ?k - part"
    unfolding windows_moved_def by simp_all
  then have "books False cap (\<lambda>k. 0) (\<lambda>k. if k = ?k then - part else 0) (\<lambda>k. 0) d'"
    using booksD [OF B, of ?k] part by (intro books_moved [OF B moved]) auto
  then show ?thesis unfolding balanced_def by (rule books_settled_mono) (simp add: part)
qed

lemma snapshotWindow_balanced:
  "yields (balanced exact cap) (snapshotWindowForUpdate tenant f)
     (\<lambda>c d. balanced exact cap d \<and> has_window (wn_id c) (fp_key tenant f) d)"
proof -
  have "yields (balanced exact cap) (db (upsertWindow tenant (fp_policy f) (fp_window f)))
      (\<lambda>w d. balanced exact cap d \<and> has_window (wn_id w) (fp_key tenant f) d)"
  proof (rule yields_db)
    fix now d w d'
    assume d: "balanced exact cap d" and up: "upsertWindow tenant (fp_policy f) (fp_window f) now d = (Inr w, d')"
    have "tables_ok d" using d unfolding balanced_def by (rule books_tables)
    from upsertWindow_moved [OF this up] show "balanced exact cap d' \<and> has_window (wn_id w) (fp_key tenant f) d'"
      using balanced_moved [OF d] by (simp add: fp_key_def)
  qed
  then show ?thesis
    unfolding snapshotWindowForUpdate_def
    by (rule yields_bind) (rule yields_db,
      auto simp: getWindowForUpdate_def sql_ok_def sql_none_def window_is_def split: option.splits dest!: find_inD)
qed

lemma reverse_window_balanced:
  assumes "0 < amount"
  shows "yields (balanced False cap) (reverse_window r amount f) (\<lambda>x. balanced False cap)"
proof -
  have step: "yields (\<lambda>d. balanced False cap d \<and> has_window (wn_id c) (fp_key (rv_tenant r) f) d)
      (if part \<le> 0 then qreturn 0
       else qbind (db (applyWindowSettlement (rv_tenant r) (wn_id c) 0 (- part) 0)) (\<lambda>_. qreturn part))
      (\<lambda>x. balanced False cap)" for c part
    by (intro yields_if yields_return yields_bind [where R = "\<lambda>x. balanced False cap"] yields_db)
      (auto simp: fp_key_def not_le intro: reversal_balanced [OF _ _ less_imp_le])
  show ?thesis
    unfolding reverse_window_def Let_def
    by (intro yields_if yields_return yields_bind [OF snapshotWindow_balanced] step)
qed

lemma reverse_windows_balanced:
  assumes "0 < amount"
  shows "yields (balanced False cap) (reverse_windows r amount fs acc) (\<lambda>x. balanced False cap)"
  by (induction fs arbitrary: acc) (auto intro!: yields_return yields_bind [OF reverse_window_balanced [OF assms]])

lemma reverse_body_balanced: "yields (balanced False cap) (reverseCostWithStore rx) (\<lambda>x. balanced False cap)"
proof -
  have finals: "yields (balanced False cap) (finalizationPolicies r) (\<lambda>fs. balanced False cap)" for r
    by (auto simp: finalizationPolicies_def intro: yields_fail yields_return split: option.split)
  have windows: "yields (balanced False cap) (reverseCostSettlementWindows r amount) (\<lambda>x. balanced False cap)" for r amount
    unfolding reverseCostSettlementWindows_def
    by (intro yields_if yields_return yields_bind [OF finals] reverse_windows_balanced) auto
  have live: "yields (located False cap tenant claim r) m Q" if "yields (balanced False cap) m Q" for tenant claim r and m :: "(q_serr, 'b) qm" and Q
    using that by (rule yields_weaken) (auto simp: located_def)
  show ?thesis
    unfolding reverseCostWithStore_def
    by (auto intro!: yields_return yields_catch [OF getFinalization_located] yields_fail live yields_bind [OF windows]
        yields_bind [OF finalization_audit_balanced])
qed

lemma ReverseCost_balanced: "keeps (balanced False cap) (ReverseCost store rx)"
  unfolding ReverseCost_def
  by (auto intro!: keeps_return keeps_catch keeps_with_retry reverse_body_balanced keeps_fail split: sum.split)

section \<open>The reconciler\<close>

lemma attempt_keeps: "keeps P m \<Longrightarrow> keeps P (attempt m)"
  unfolding attempt_def by (auto intro!: keeps_catch keeps_return keeps_fail split: sum.split)

lemmas calls_balanced = attempt_keeps [OF Settle_balanced] attempt_keeps [OF Release_balanced] attempt_keeps [OF CacheHit_balanced]

lemmas quiet_calls = keeps_quiet [OF quiet_get] keeps_quiet [OF quiet_claim] keeps_quiet [OF quiet_running]
  keeps_quiet [OF quiet_complete] keeps_quiet [OF quiet_fail] keeps_quiet [OF quiet_due] keeps_quiet [OF quiet_tenants]
  keeps_quiet [OF quiet_stale]

lemmas keeps_steps = keeps_return keeps_fail keeps_bind keeps_catch keeps_pause keeps_if quiet_calls calls_balanced

lemma replayJob_balanced: "keeps (balanced exact cap) (replayJob rc tenant now j)"
  unfolding replayJob_def Let_def by (auto intro!: keeps_steps split: sum.split)

lemma fail_job_balanced: "keeps (balanced exact cap) (fail_job rc tenant now j cause)"
  unfolding fail_job_def failRunningJob_def Let_def by (auto intro!: keeps_steps split: sum.split)

lemma run_job_balanced: "keeps (balanced exact cap) (run_job rc tenant now j)"
  unfolding run_job_def by (auto intro!: keeps_steps replayJob_balanced fail_job_balanced split: sum.split)

lemma run_jobs_balanced: "keeps (balanced exact cap) (run_jobs rc tenant now js n errs)"
  by (induction js arbitrary: n errs) (auto intro!: keeps_steps run_job_balanced)

lemma ReconcileDueJobs_balanced: "keeps (balanced exact cap) (ReconcileDueJobs rc tenant now limit)"
  unfolding ReconcileDueJobs_def by (auto intro!: keeps_steps run_jobs_balanced split: sum.split)

lemma run_tenants_balanced: "keeps (balanced exact cap) (run_tenants rc now ts n errs)"
  by (induction ts arbitrary: n errs) (auto intro!: keeps_steps ReconcileDueJobs_balanced split: sum.split)

lemma ReconcileAllTenants_balanced: "keeps (balanced exact cap) (ReconcileAllTenants rc now)"
  unfolding ReconcileAllTenants_def by (auto intro!: keeps_steps run_tenants_balanced split: sum.split)

lemma sweepStaleRow_balanced: "keeps (balanced exact cap) (sweepStaleRow rc now row)"
  unfolding sweepStaleRow_def by (auto intro!: keeps_steps split: claim_status.split)

lemma sweep_rows_balanced: "keeps (balanced exact cap) (sweep_rows rc now rows n errs)"
  by (induction rows arbitrary: n errs) (auto intro!: keeps_steps sweepStaleRow_balanced split: sum.split)

lemma Sweep_balanced: "keeps (balanced exact cap) (SweepStaleReservations rc now limit)"
  unfolding SweepStaleReservations_def by (auto intro!: keeps_steps sweep_rows_balanced split: sum.split)

lemma RunOnce_balanced: "keeps (balanced exact cap) (RunOnce rc now)"
proof -
  have "keeps (balanced exact cap) (qbind (ReconcileAllTenants rc t) (\<lambda>(n, es).
         qbind (SweepStaleReservations rc t 0) (\<lambda>(m, fs). qreturn (n + m, es @ fs))))" for t
    by (auto intro!: keeps_steps ReconcileAllTenants_balanced Sweep_balanced)
  from keepsD [OF this] show ?thesis by (intro keepsI) (simp add: RunOnce_def Let_def)
qed

section \<open>Histories\<close>

text \<open>
  What can happen to the tables: the calls of the service and rounds of the reconciler, edits of the
  policies by operators, and billing at work on its claims. Each call comes with the faults the
  database answers it with and the time.
\<close>

datatype q_call =
  CallReserve q_request | CallSettle q_settle | CallRelease q_release | CallHit q_hit | CallReverse q_reverse
| CallRound q_reconciler instant | CallEdit "q_prow list" | CallBilling "q_claim list" "(int \<times> int) list"

type_synonym q_event = "q_err option list \<times> instant \<times> q_call"

definition run_call :: "('e, 'a) qm \<Rightarrow> q_err option list \<Rightarrow> instant \<Rightarrow> q_db \<Rightarrow> q_db" where
  "run_call m faults now d = st_db (snd (m \<lparr> st_db = d, st_faults = faults, st_now = now \<rparr>))"

definition quota_step :: "lowering \<Rightarrow> q_store_kind \<Rightarrow> q_db \<Rightarrow> q_event \<Rightarrow> q_db" where
  "quota_step lower store d ev =
     (case ev of (faults, now, call) \<Rightarrow>
        (case call of
           CallReserve rq \<Rightarrow> st_db (snd (Reserve lower store rq \<lparr> st_db = d, st_faults = faults, st_now = now \<rparr>))
         | CallSettle se \<Rightarrow> run_call (Settle store se) faults now d
         | CallRelease re \<Rightarrow> run_call (Release store re) faults now d
         | CallHit ch \<Rightarrow> run_call (CommitCacheHit store ch) faults now d
         | CallReverse rx \<Rightarrow> run_call (ReverseCost store rx) faults now d
         | CallRound rc t \<Rightarrow> run_call (RunOnce rc t) faults now d
         | CallEdit rows \<Rightarrow> d\<lparr> qd_policies := rows \<rparr>
         | CallBilling claims events \<Rightarrow> d\<lparr> qd_claims := claims, qd_undelivered := events \<rparr>))"

definition quota_run :: "lowering \<Rightarrow> q_store_kind \<Rightarrow> q_db \<Rightarrow> q_event list \<Rightarrow> q_db" where
  "quota_run lower store d es = foldl (quota_step lower store) d es"

text \<open>
  Requests estimate at least one token; policies have distinct ids and stay within the limits; a
  reversal is excluded where the settled amounts are to be exact.
\<close>

definition rows_ok :: "q_limits \<Rightarrow> q_prow list \<Rightarrow> bool" where
  "rows_ok cap rows \<longleftrightarrow> distinct (map prow_id rows) \<and> limits_ok cap rows"

definition event_ok :: "bool \<Rightarrow> q_limits \<Rightarrow> q_event \<Rightarrow> bool" where
  "event_ok exact cap ev =
     (case snd (snd ev) of
        CallReserve rq \<Rightarrow> 0 < rq_tokens rq
      | CallReverse rx \<Rightarrow> \<not> exact
      | CallEdit rows \<Rightarrow> rows_ok cap rows
      | _ \<Rightarrow> True)"

definition unbooked :: "q_limits \<Rightarrow> q_db \<Rightarrow> bool" where
  "unbooked cap d \<longleftrightarrow> qd_windows d = [] \<and> qd_reservations d = [] \<and> rows_ok cap (qd_policies d)"

lemma run_call_balanced: "keeps (balanced exact cap) m \<Longrightarrow> balanced exact cap d \<Longrightarrow> balanced exact cap (run_call m faults now d)"
  unfolding run_call_def by (rule keepsD) simp_all

lemma edit_balanced:
  assumes "balanced exact cap d" "qd_windows d' = qd_windows d" "qd_reservations d' = qd_reservations d"
    "qd_nextID d' = qd_nextID d" "rows_ok cap (qd_policies d')"
  shows "balanced exact cap d'"
proof -
  have "window_sum f d' = window_sum f d" "reservation_sum Q g d' = reservation_sum Q g d" for f Q g
    using assms(2,3) by (simp_all add: window_sum_def reservation_sum_def fun_eq_iff)
  moreover have "tables_ok d'" using assms by (simp add: balanced_def books_def tables_ok_def rows_ok_def)
  ultimately show ?thesis using assms(1,5) unfolding balanced_def books_def rows_ok_def by metis
qed

lemma step_balanced:
  assumes "event_ok exact cap ev" "balanced exact cap d"
  shows "balanced exact cap (quota_step lower store d ev)"
proof (cases ev)
  case (fields faults now call)
  show ?thesis
  proof (cases call)
    case (CallReserve rq)
    then have "0 < rq_tokens rq" using assms(1) fields by (simp add: event_ok_def)
    then show ?thesis
      using Reserve_balanced [of rq exact cap "\<lparr> st_db = d, st_faults = faults, st_now = now \<rparr>"] assms(2)
      by (simp add: quota_step_def fields CallReserve)
  next
    case (CallReverse rx)
    then show ?thesis using assms fields
      by (auto simp: event_ok_def quota_step_def intro: run_call_balanced [OF ReverseCost_balanced])
  next
    case (CallEdit rows)
    then show ?thesis using assms fields
      by (auto simp: event_ok_def quota_step_def intro: edit_balanced [OF assms(2)])
  next
    case (CallBilling claims events)
    have "rows_ok cap (qd_policies d)" using assms(2) by (simp add: balanced_def books_def tables_ok_def rows_ok_def)
    then show ?thesis using fields CallBilling
      by (auto simp: quota_step_def intro: edit_balanced [OF assms(2)])
  qed (use assms(2) fields in \<open>simp_all add: quota_step_def run_call_balanced Settle_balanced Release_balanced
      CacheHit_balanced RunOnce_balanced\<close>)
qed

text \<open>Histories of admissible events, as a component that keeps the balance.\<close>

definition admitted_step :: "bool \<Rightarrow> q_limits \<Rightarrow> lowering \<Rightarrow> q_store_kind \<Rightarrow> q_db \<Rightarrow> q_event \<Rightarrow> q_db" where
  "admitted_step exact cap lower store d ev = (if event_ok exact cap ev then quota_step lower store d ev else d)"

interpretation quota_books: invariant_component "admitted_step exact cap lower store" "balanced exact cap"
  for exact cap lower store
  by unfold_locales (simp add: admitted_step_def step_balanced)

lemma admitted_run:
  "\<forall>ev \<in> set es. event_ok exact cap ev \<Longrightarrow> foldl (admitted_step exact cap lower store) d es = quota_run lower store d es"
  unfolding quota_run_def by (induction es arbitrary: d) (simp_all add: admitted_step_def)

lemma unbooked_balanced:
  assumes "unbooked cap d" "\<And>k. 0 \<le> cap_key cap k"
  shows "balanced exact cap d"
  using assms by (simp add: unbooked_def rows_ok_def balanced_def books_def tables_ok_def window_sum_def reservation_sum_def)

lemma run_balanced:
  assumes "unbooked cap d" "\<And>k. 0 \<le> cap_key cap k" "\<forall>ev \<in> set es. event_ok exact cap ev"
  shows "balanced exact cap (quota_run lower store d es)"
  unfolding admitted_run [OF assms(3), symmetric] by (rule quota_books.run_inv [OF unbooked_balanced [OF assms(1,2)]])

lemma balanced_window:
  assumes "balanced exact cap d" "w \<in> set (qd_windows d)"
  shows "wn_reserved w = held d (wn_key w)"
    "wn_settled w \<le> charged d (wn_key w)" "exact \<Longrightarrow> wn_settled w = charged d (wn_key w)"
    "wn_reserved w + wn_settled w \<le> cap (wn_tenant w) (wn_policy w) + excess d (wn_key w)"
proof -
  have b: "books exact cap (\<lambda>k. 0) (\<lambda>k. 0) (\<lambda>k. 0) d" using assms(1) by (simp add: balanced_def)
  note sums = window_sum_eq [OF books_tables [OF b] assms(2)]
  have limit: "cap_key cap (wn_key w) = cap (wn_tenant w) (wn_policy w)" by (simp add: cap_key_def wn_key_def)
  show "wn_reserved w = held d (wn_key w)" "wn_settled w \<le> charged d (wn_key w)"
    "exact \<Longrightarrow> wn_settled w = charged d (wn_key w)"
    "wn_reserved w + wn_settled w \<le> cap (wn_tenant w) (wn_policy w) + excess d (wn_key w)"
    using booksD [OF b, of "wn_key w"] limit by (simp_all add: sums)
qed

section \<open>The properties\<close>

text \<open>The policies that a history ever shows, and a bound on their limits.\<close>

definition event_rows :: "q_event \<Rightarrow> q_prow list" where
  "event_rows ev = (case snd (snd ev) of CallEdit rows \<Rightarrow> rows | _ \<Rightarrow> [])"

definition rows_cap :: "q_prow list \<Rightarrow> q_limits" where
  "rows_cap rows tenant pid = (\<Sum>r\<leftarrow>rows. max 0 (effectiveLimit (pr_policy r)))"

lemma rows_cap_ok: "set rows \<subseteq> set rows' \<Longrightarrow> limits_ok (rows_cap rows') rows"
proof -
  assume sub: "set rows \<subseteq> set rows'"
  have "effectiveLimit (pr_policy r) \<le> rows_cap rows' t p" if "r \<in> set rows" for r t p
  proof -
    have "max 0 (effectiveLimit (pr_policy r)) \<le> rows_cap rows' t p"
      unfolding rows_cap_def by (rule member_le_sum_list) (use sub that in auto)
    then show ?thesis by simp
  qed
  then show ?thesis by (simp add: limits_ok_def)
qed

lemma rows_cap_nonneg: "0 \<le> cap_key (rows_cap rows) k"
  by (cases k) (auto simp: cap_key_def rows_cap_def intro!: sum_list_nonneg)

definition sound_event :: "q_event \<Rightarrow> bool" where
  "sound_event ev =
     (case snd (snd ev) of
        CallReserve rq \<Rightarrow> 0 < rq_tokens rq
      | CallEdit rows \<Rightarrow> distinct (map prow_id rows)
      | _ \<Rightarrow> True)"

definition reverses :: "q_event \<Rightarrow> bool" where
  "reverses ev = (case snd (snd ev) of CallReverse rx \<Rightarrow> True | _ \<Rightarrow> False)"

definition fresh_tables :: "q_db \<Rightarrow> bool" where
  "fresh_tables d \<longleftrightarrow> qd_windows d = [] \<and> qd_reservations d = [] \<and> distinct (map prow_id (qd_policies d))"

lemma sound_event_ok:
  assumes "sound_event ev" "exact \<Longrightarrow> \<not> reverses ev" "set (event_rows ev) \<subseteq> set rows"
  shows "event_ok exact (rows_cap rows) ev"
  using assms rows_cap_ok [OF assms(3)]
  by (auto simp: sound_event_def event_ok_def reverses_def event_rows_def rows_ok_def split: q_call.splits)

lemma fresh_run_balanced:
  assumes "fresh_tables d" "\<forall>ev \<in> set es. sound_event ev" "exact \<Longrightarrow> \<forall>ev \<in> set es. \<not> reverses ev"
  shows "\<exists>cap. balanced exact cap (quota_run lower store d es)"
proof -
  let ?rows = "qd_policies d @ concat (map event_rows es)"
  have "unbooked (rows_cap ?rows) d" using assms(1) by (simp add: unbooked_def fresh_tables_def rows_ok_def rows_cap_ok)
  moreover have "\<forall>ev \<in> set es. event_ok exact (rows_cap ?rows) ev"
    using assms(2,3) by (auto intro!: sound_event_ok)
  ultimately show ?thesis using run_balanced [OF _ rows_cap_nonneg] by blast
qed

definition window_balanced :: "bool \<Rightarrow> q_db \<Rightarrow> q_counter \<Rightarrow> bool" where
  "window_balanced exact d w \<longleftrightarrow>
     wn_reserved w = held d (wn_key w) \<and>
     (if exact then wn_settled w = charged d (wn_key w) else wn_settled w \<le> charged d (wn_key w))"


definition within_limits :: "q_limits \<Rightarrow> q_db \<Rightarrow> q_counter \<Rightarrow> bool" where
  "within_limits cap d w \<longleftrightarrow>
     wn_reserved w + wn_settled w \<le> cap (wn_tenant w) (wn_policy w) + excess d (wn_key w)"


section \<open>A history\<close>

definition demo_policy :: q_policy where
  "demo_policy = \<lparr> qp_tenant = 1, qp_id = 7, qp_scope = global_scope 1, qp_selector = modelSelectorAll,
     qp_metric = MetricRequests, qp_window = \<lparr> qw_kind = WindowManual, qw_seconds = 0, qw_start = zero_time, qw_end = zero_time \<rparr>,
     qp_limit = 2, qp_burst = 0, qp_mode = ModeEnforce, qp_priority = 0, qp_validFrom = 5, qp_validUntil = None \<rparr>"

definition demo_tables :: q_db where
  "demo_tables = \<lparr> qd_policies = [\<lparr> pr_policy = demo_policy, pr_enabled = True \<rparr>], qd_windows = [], qd_reservations = [],
     qd_slots = [], qd_audits = [], qd_jobs = [],
     qd_claims = [\<lparr> qc_tenant = 1, qc_id = 11, qc_status = ClaimReserving, qc_actualCost = None \<rparr>],
     qd_undelivered = [], qd_nextID = 100 \<rparr>"

definition demo_request :: q_request where
  "demo_request = \<lparr> rq_tenant = 1, rq_claim = 11, rq_fingerprint = ''f'', rq_scopes = [], rq_model = ''m'', rq_tokens = 3,
     rq_predicted = 1, rq_needSlot = False, rq_lease = 1000, rq_at = 50 \<rparr>"

definition demo_settle :: q_settle where
  "demo_settle = \<lparr> se_tenant = 1, se_claim = 11, se_reservation = 0, se_cost = 2, se_at = 60, se_actor = None \<rparr>"

definition demo_history :: "q_event list" where
  "demo_history = [([], 50, CallReserve demo_request), ([], 60, CallSettle demo_settle), ([Some ErrConflict], 70, CallSettle demo_settle)]"

lemmas demo_defs = demo_policy_def demo_tables_def demo_request_def demo_settle_def demo_history_def



end
