(* ===== verification/Quota_Replay.thy ===== *)
theory Quota_Replay
  imports Quota_Ledger
begin

text \<open>
  What single calls guarantee: a refused request moves nothing, a repeated request is answered from
  its reservation, and a finalisation that fails for good leaves the tables as they were.
\<close>

section \<open>A refused request moves nothing\<close>

definition unmoved :: "q_db \<Rightarrow> q_db \<Rightarrow> bool" where
  "unmoved d0 d \<longleftrightarrow> tables_ok d \<and> qd_reservations d = qd_reservations d0 \<and>
     reserved_of d = reserved_of d0 \<and> settled_of d = settled_of d0"

lemma unmoved_same: "same_books d d' \<Longrightarrow> unmoved d0 d \<Longrightarrow> unmoved d0 d'"
  by (simp add: unmoved_def same_books_tables same_books_sums) (simp add: same_books_def)

lemma unmoved_moved: "unmoved d0 d \<Longrightarrow> windows_moved k 0 0 d d' \<Longrightarrow> unmoved d0 d'"
  by (simp add: unmoved_def windows_moved_def fun_eq_iff)

lemma unmoved_quiet:
  assumes "\<And>now d. same_books d (snd (f now d))"
  shows "keeps (unmoved d0) (db f)"
  using assms by (intro keeps_db) (metis unmoved_same)

lemma yields_any: "yields P m (\<lambda>x d. True)"
  by (rule yieldsI) simp

lemma policyWindow_unmoved: "yields (unmoved d0) (policyWindowForUpdate rq p) (\<lambda>x. unmoved d0)"
proof -
  have up: "yields (unmoved d0) (db (upsertWindow t i win)) (\<lambda>w. unmoved d0)" for t i win
    by (rule yields_db) (metis unmoved_def unmoved_moved upsertWindow_moved(1))
  show ?thesis
    unfolding policyWindowForUpdate_def
    by (auto split: option.split prod.split intro!: yields_fail yields_return yields_bind [OF up]
        yields_bind [OF keeps_yields [OF unmoved_quiet [OF quiet_window]]])
qed

lemma assess_unmoved: "yields (unmoved d0) (assessPolicy rq p) (\<lambda>x. unmoved d0)"
  unfolding assessPolicy_def assess_window_def Let_def
  by (auto split: q_metric.split prod.split intro!: yields_return yields_bind [OF policyWindow_unmoved])

lemma evaluate_unmoved: "yields (unmoved d0) (evaluate_from rq ps acc) (\<lambda>x. unmoved d0)"
proof (induction ps arbitrary: acc)
  case (Cons p ps)
  then show ?case by (auto split: q_mode.split intro!: yields_bind [OF assess_unmoved] yields_return)
qed (auto intro: yields_return)

definition refused_unmoved :: "q_db \<Rightarrow> q_outcome \<Rightarrow> q_db \<Rightarrow> bool" where
  "refused_unmoved d0 x d \<longleftrightarrow> (\<not> rr_allowed (fst x) \<longrightarrow> unmoved d0 d)"

lemma audit_unmoved: "keeps (unmoved d0) (insertDecisionAudit rq rid event dc payload)"
  unfolding insertDecisionAudit_def by (rule unmoved_quiet [OF quiet_audit])

lemma resolve_unmoved: "triple (unmoved d0) (resolvePolicies lower rq) (\<lambda>ps. unmoved d0) (\<lambda>e. unmoved d0)"
  unfolding resolvePolicies_def keeps_def [symmetric]
  by (intro keeps_bind unmoved_quiet quiet_policies keeps_return)

lemma decision_unmoved:
  assumes "\<And>r. rr_allowed (fst (allowed r))"
  shows "yields (unmoved d0)
    (qbind (evaluatePolicies rq ps) (\<lambda>ev. case ev_deny ev of
         Some (dc, payload) \<Rightarrow> qbind (insertDecisionAudit rq rid event dc payload) (\<lambda>_. qreturn (denied dc))
       | None \<Rightarrow>
           qbind (audit_observed rq rid (ev_observed ev)) (\<lambda>_.
           qbind (book (ev_items ev)) (\<lambda>r.
           qbind (applyEnforceReservations rq (rv_id r) (ev_items ev)) (\<lambda>_.
           qbind (insertDecisionAudit rq (rid' r) event' allow_decision []) (\<lambda>_. qreturn (allowed r)))))))
    (refused_unmoved d0)"
  (is "yields _ (qbind _ ?k) _")
proof (rule yields_bind)
  show "yields (unmoved d0) (evaluatePolicies rq ps) (\<lambda>ev. unmoved d0)"
    unfolding evaluatePolicies_def by (rule evaluate_unmoved)
  fix ev
  show "yields (unmoved d0) (?k ev) (refused_unmoved d0)"
  proof (cases "ev_deny ev")
    case None
    then show ?thesis
      using assms by (auto intro!: yields_bind [OF yields_any] yields_return simp: refused_unmoved_def)
  next
    case (Some x)
    then show ?thesis
      by (cases x) (auto intro!: yields_bind [OF keeps_yields [OF audit_unmoved]] yields_return simp: refused_unmoved_def)
  qed
qed

lemma body_unmoved: "yields (unmoved d0) (reserve_body lower rq) (refused_unmoved d0)"
proof -
  have new: "yields (unmoved d0) (reserve_new lower rq) (refused_unmoved d0)"
    unfolding reserve_new_def
    by (rule yields_or_fail_closed [OF resolve_unmoved decision_unmoved]) (simp_all add: refused_unmoved_def)
  have old: "yields (unmoved d0) (reactivateExistingReservation lower rq r) (refused_unmoved d0)" for r
    unfolding reactivateExistingReservation_def
    by (rule yields_or_fail_closed [OF resolve_unmoved decision_unmoved]) (simp_all add: refused_unmoved_def replay_result_def)
  have get: "triple (unmoved d0) (db (getReservationByClaim t c)) (\<lambda>r. unmoved d0) (\<lambda>e. unmoved d0)" for t c
    unfolding keeps_def [symmetric] by (rule unmoved_quiet) (rule quiet_get)
  show ?thesis
    unfolding reserve_body_def
    by (rule yields_catch [OF get])
      (auto simp: reserve_existing_def refused_unmoved_def intro!: new old yields_return yields_fail)
qed

lemma triple_retry:
  "triple P body Q (\<lambda>e. P) \<Longrightarrow> triple P (retry_tx wrap n body) Q (\<lambda>e. P)"
proof (induction n)
  case 0
  then show ?case by (auto intro!: triple_catch [where F = "\<lambda>e. P"] triple_return triple_fail)
next
  case (Suc n)
  have "triple P pause (\<lambda>u. P) (\<lambda>e. P)" using keeps_pause by (simp add: keeps_def)
  then show ?case using Suc by (auto intro!: triple_catch [where F = "\<lambda>e. P"] triple_return triple_fail triple_bind)
qed

lemma triple_withStore: "yields P body Q \<Longrightarrow> triple P (withStore store body) Q (\<lambda>e. P)"
  by (simp add: withStore_def triple_tx triple_fail)

lemma finish_unmoved:
  "triple (unmoved d0) (reserve_finish lower store rq (Inl e)) (refused_unmoved d0) (\<lambda>e. unmoved d0)"
proof -
  have K: "triple (unmoved d0) m (\<lambda>x. unmoved d0) (\<lambda>e. unmoved d0) \<Longrightarrow> triple (unmoved d0) m (refused_unmoved d0) (\<lambda>e. unmoved d0)"
    for m :: "(q_serr, q_outcome) qm"
    by (erule triple_weaken) (simp_all add: refused_unmoved_def)
  have deny: "keeps (unmoved d0) (writeDenyAuditBestEffort store rq dc payload)" for dc payload
    by (simp add: writeDenyAuditBestEffort_def Let_def audit_unmoved keeps_tx keeps_yields)
  have again: "keeps (unmoved d0) (reuseReservationAfterClaimRace lower store rq)"
    unfolding reuseReservationAfterClaimRace_def
    by (rule keeps_catch [OF keeps_withStore [OF keeps_yields [OF unmoved_quiet [OF quiet_get]]]])
      (auto split: sum.split intro: keeps_return)
  have "keeps (unmoved d0) (reserve_finish lower store rq (Inl e))"
    unfolding reserve_finish_def
    by (auto split: q_serr.split intro!: keeps_return keeps_catch deny again)
  then show ?thesis unfolding keeps_def by (rule K)
qed

text \<open>
  C13. A refused request moves nothing. When \<open>Reserve\<close> does not allow a request, for whatever reason -
  a limit, a saturated slot, a conflicting replay, a fault, a lost race - the reservations are the
  ones from before and every window holds and has settled what it had before.
\<close>

theorem refused_request_moves_nothing:
  assumes "tables_ok (st_db s)" "Reserve lower store rq s = ((res, err), s')" "\<not> rr_allowed res"
  shows "qd_reservations (st_db s') = qd_reservations (st_db s) \<and>
    reserved_of (st_db s') = reserved_of (st_db s) \<and> settled_of (st_db s') = settled_of (st_db s)"
proof -
  let ?d0 = "st_db s"
  have start: "unmoved ?d0 ?d0" using assms(1) by (simp add: unmoved_def)
  have "triple (unmoved ?d0) (reserve_run lower store rq') (refused_unmoved ?d0) (\<lambda>e. unmoved ?d0)" for rq'
    unfolding reserve_run_def
  proof (rule triple_catch [OF triple_retry [OF triple_withStore [OF body_unmoved]]])
    show "triple (refused_unmoved ?d0 x) (reserve_finish lower store rq' (Inr x)) (refused_unmoved ?d0) (\<lambda>e. unmoved ?d0)" for x
      by (simp add: reserve_finish_def triple_return)
  qed (rule finish_unmoved)
  note run = this [unfolded triple_def, rule_format, OF start]
  have "unmoved ?d0 (st_db s')"
    using assms(2,3) start run [of "normalizeReserveRequest lower (st_now s) rq"]
    by (auto simp: Reserve_def Let_def refused_unmoved_def split: if_splits prod.splits sum.splits)
  then show ?thesis by (simp add: unmoved_def)
qed

section \<open>A repeated request is charged once\<close>

text \<open>Statements before and after the booking only add rows; a condition may ride along on that.\<close>

definition grows :: "q_db \<Rightarrow> q_db \<Rightarrow> bool" where
  "grows d d' \<longleftrightarrow> qd_reservations d' = qd_reservations d \<and> qd_nextID d \<le> qd_nextID d'"

definition steady :: "(q_db \<Rightarrow> bool) \<Rightarrow> bool" where
  "steady P \<longleftrightarrow> (\<forall>d d'. grows d d' \<longrightarrow> P d \<longrightarrow> P d')"

lemma same_grows: "same_books d d' \<Longrightarrow> grows d d'"
  by (simp add: same_books_def grows_def)

lemma upsert_grows: "upsertWindow t i win now d = (x, d') \<Longrightarrow> grows d d'"
  by (auto simp: upsertWindow_def sql_none_def set_windows_def grows_def Let_def split: if_splits option.splits)

lemma increment_grows: "incrementWindowReserved t i a n limit now d = (x, d') \<Longrightarrow> grows d d'"
  by (auto simp: incrementWindowReserved_def update_window_def sql_none_def set_windows_def grows_def split: if_splits option.splits)

lemma steady_db:
  assumes "steady P" "\<And>now d x d'. f now d = (x, d') \<Longrightarrow> grows d d'"
  shows "keeps P (db f)"
  using assms by (intro keeps_db) (metis prod.collapse steady_def)

lemma steady_quiet: "steady P \<Longrightarrow> (\<And>now d. same_books d (snd (f now d))) \<Longrightarrow> keeps P (db f)"
  by (erule steady_db) (metis same_grows snd_conv)

lemma steady_audit: "steady P \<Longrightarrow> keeps P (insertDecisionAudit rq rid event dc payload)"
  unfolding insertDecisionAudit_def by (erule steady_quiet) (rule quiet_audit)

lemma steady_observed: "steady P \<Longrightarrow> keeps P (audit_observed rq rid os)"
  by (induction rq rid os rule: audit_observed.induct) (auto intro!: keeps_return keeps_bind steady_audit)

lemma steady_evaluate:
  assumes "steady P"
  shows "keeps P (evaluate_from rq ps acc)"
proof (induction ps arbitrary: acc)
  case (Cons p ps)
  have "keeps P (assessPolicy rq p)"
    unfolding assessPolicy_def assess_window_def policyWindowForUpdate_def Let_def
    by (auto split: q_metric.split option.split prod.split
        intro!: keeps_return keeps_fail keeps_bind steady_db [OF assms] steady_quiet [OF assms quiet_window] upsert_grows)
  then show ?case using Cons by (auto split: q_mode.split intro!: keeps_bind keeps_return)
qed (auto intro: keeps_return)

lemma steady_apply:
  assumes "steady P"
  shows "keeps P (applyEnforceReservations rq rid its)"
proof (induction its)
  case (Cons it its)
  have window: "keeps P (reserve_window rq it amount denied n)" for amount denied n
  proof -
    have "keeps P (qcall (incrementWindowReserved t i a m limit))" for t i a m limit
      unfolding keeps_def using assms increment_grows by (intro triple_call) (metis steady_def)+
    then show ?thesis
      unfolding reserve_window_def Let_def by (auto intro!: keeps_catch keeps_return keeps_fail split: sum.split)
  qed
  have "keeps P (reserve_slot rq rid it)"
    unfolding reserve_slot_def Let_def
    by (auto intro!: keeps_bind keeps_return keeps_fail steady_quiet [OF assms quiet_acquire])
  then have "keeps P (reserve_item rq rid it)"
    unfolding reserve_item_def by (auto split: q_metric.split intro: window)
  then show ?case using Cons by (auto intro: keeps_bind)
qed (auto intro: keeps_return)

lemma steady_resolve: "steady P \<Longrightarrow> keeps P (resolvePolicies lower rq)"
  unfolding resolvePolicies_def by (intro keeps_bind keeps_return) (erule steady_quiet, rule quiet_policies)

text \<open>Identifiers are positive; the service reads the identifier 0 as no reservation.\<close>

definition numbered :: "q_db \<Rightarrow> bool" where
  "numbered d \<longleftrightarrow> 0 < qd_nextID d \<and> (\<forall>r \<in> set (qd_reservations d). rv_id r \<noteq> 0)"

text \<open>The reservation that answers a request.\<close>

definition answering :: "lowering \<Rightarrow> q_request \<Rightarrow> q_reservation \<Rightarrow> bool" where
  "answering lower rq r \<longleftrightarrow> rv_id r \<noteq> 0 \<and> \<not> reservationReplayConflict lower rq r \<and>
     (rv_status r = ReservationReserved \<and> rq_at rq < rv_lease r \<or> rv_status r = ReservationSettled)"

definition found :: "q_request \<Rightarrow> q_reservation \<Rightarrow> q_db \<Rightarrow> bool" where
  "found rq r d \<longleftrightarrow> find (rv_of_claim (rq_tenant rq) (rq_claim rq)) (qd_reservations d) = Some r \<and> numbered d"

definition answered :: "lowering \<Rightarrow> q_request \<Rightarrow> q_db \<Rightarrow> bool" where
  "answered lower rq d \<longleftrightarrow> (\<exists>r. found rq r d \<and> answering lower rq r)"

lemma steady_found: "steady (found rq r)"
  by (auto simp: steady_def found_def grows_def numbered_def)

lemma steady_answered: "steady (answered lower rq)"
  using steady_found unfolding steady_def answered_def by metis

lemma steady_numbered: "steady numbered"
  by (auto simp: steady_def grows_def numbered_def)

definition standard :: "lowering \<Rightarrow> q_request \<Rightarrow> bool" where
  "standard lower rq \<longleftrightarrow>
     normalizeRequestedModel lower (normalizeRequestedModel lower (rq_model rq)) = rq_model rq \<and>
     stored_scopes (rq_tenant rq) (rq_scopes rq) = rq_scopes rq \<and> rq_at rq < rq_lease rq"

lemma booking_answering:
  assumes "standard lower rq" "rv_id r \<noteq> 0" "rv_fingerprint r = rq_fingerprint rq"
    "rv_model r = normalizeRequestedModel lower (rq_model rq)" "rv_predicted r = rq_predicted rq"
    "rv_scopes r = stored_scopes (rq_tenant rq) (rq_scopes rq)" "rv_status r = ReservationReserved" "rv_lease r = rq_lease rq"
  shows "answering lower rq r"
  using assms by (simp add: answering_def reservationReplayConflict_def sameScopes_def standard_def)

lemma insert_answered:
  assumes "standard lower rq" "numbered d" "insertReservation lower (booking_of lower rq ps its) now d = (Inr r, d')"
  shows "answered lower rq d'"
proof -
  have r: "answering lower rq r" "rv_of_claim (rq_tenant rq) (rq_claim rq) r"
    using assms by (auto simp: numbered_def insertReservation_def sql_none_def booking_of_def Let_def rv_of_claim_def
        split: if_splits intro!: booking_answering [OF assms(1)])
  have new: "\<forall>v \<in> set (qd_reservations d). \<not> rv_of_claim (rq_tenant rq) (rq_claim rq) v"
    and d': "qd_reservations d' = qd_reservations d @ [r]" "numbered d'"
    using assms by (auto simp: numbered_def insertReservation_def sql_none_def booking_of_def Let_def split: if_splits)
  have "find q (xs @ [x]) = Some x" if "\<forall>v \<in> set xs. \<not> q v" "q x" for q :: "q_reservation \<Rightarrow> bool" and xs x
    using that by (induction xs) auto
  then show ?thesis using r new d' by (auto simp: answered_def found_def)
qed

lemma find_update_first:
  assumes "find q xs = Some r" "p r" "\<And>x. p x \<Longrightarrow> q x" "\<And>x. q (f x) = q x"
  shows "find p xs = Some r" "find q (map (\<lambda>x. if p x then f x else x) xs) = Some (f r)"
  using assms by (induction xs) (auto split: if_splits)

lemma reactivate_answered:
  assumes "standard lower rq" "found rq r d" "rv_id r \<noteq> 0" "canReactivateReservation (rv_status r)"
    and "reactivateReservation lower (rv_id r) (booking_of lower rq ps its) now d = (Inr x, d')"
  shows "answered lower rq d'"
proof -
  let ?b = "booking_of lower rq ps its"
  let ?p = "\<lambda>v. rv_is (bk_tenant ?b) (rv_id r) (bk_claim ?b) v \<and> rv_status v \<in> {ReservationReleased, ReservationExpired}"
  let ?f = "\<lambda>r. r\<lparr> rv_status := ReservationReserved, rv_fingerprint := bk_fingerprint ?b,
                rv_model := normalizeRequestedModel lower (bk_model ?b),
                rv_scopes := stored_scopes (bk_tenant ?b) (bk_scopes ?b), rv_snapshot := Some (bk_snapshot ?b),
                rv_predicted := bk_predicted ?b, rv_units := bk_units ?b, rv_lease := bk_lease ?b,
                rv_releaseReason := None \<rparr>"
  have q: "find (rv_of_claim (rq_tenant rq) (rq_claim rq)) (qd_reservations d) = Some r" and n: "numbered d"
    using assms(2) by (auto simp: found_def)
  have pr: "?p r" using find_inD [OF q] assms(4)
    by (auto simp: rv_is_def rv_of_claim_def booking_of_def canReactivateReservation_def)
  note first = find_update_first [where q = "rv_of_claim (rq_tenant rq) (rq_claim rq)" and p = ?p and f = ?f, OF q pr]
  have keep: "?p v \<Longrightarrow> rv_of_claim (rq_tenant rq) (rq_claim rq) v" "rv_of_claim t c (?f v) = rv_of_claim t c v" for v t c
    by (auto simp: rv_is_def rv_of_claim_def booking_of_def)
  have "update_reservations ?p ?f d = (Inr x, d')"
    using assms(5) by (auto simp: reactivateReservation_def split: if_splits)
  then have d': "d' = d\<lparr> qd_reservations := map (\<lambda>v. if ?p v then ?f v else v) (qd_reservations d) \<rparr>"
    by (auto simp: update_reservations_def sql_none_def split: option.splits)
  have "numbered d'" using n by (auto simp: numbered_def d')
  then have "found rq (?f r) d'" using first(2) [OF keep] by (simp add: found_def d')
  moreover have "answering lower rq (?f r)"
    by (rule booking_answering [OF assms(1)]) (simp_all add: assms(3) booking_of_def)
  ultimately show ?thesis by (auto simp: answered_def)
qed

text \<open>What an allowed outcome leaves behind.\<close>

definition allowed_answered :: "lowering \<Rightarrow> q_request \<Rightarrow> q_outcome \<Rightarrow> q_db \<Rightarrow> bool" where
  "allowed_answered lower rq x d \<longleftrightarrow> (rr_allowed (fst x) \<longrightarrow> answered lower rq d)"

lemma decision_answered:
  assumes P: "steady P" and denied: "\<And>dc. \<not> rr_allowed (fst (denied dc))"
    and book: "\<And>its. yields P (book its) (\<lambda>r. answered lower rq)"
  shows "yields P
    (qbind (evaluatePolicies rq ps) (\<lambda>ev. case ev_deny ev of
         Some (dc, payload) \<Rightarrow> qbind (insertDecisionAudit rq rid event dc payload) (\<lambda>_. qreturn (denied dc))
       | None \<Rightarrow>
           qbind (audit_observed rq rid (ev_observed ev)) (\<lambda>_.
           qbind (book (ev_items ev)) (\<lambda>r.
           qbind (applyEnforceReservations rq (rv_id r) (ev_items ev)) (\<lambda>_.
           qbind (insertDecisionAudit rq (rid' r) event' allow_decision []) (\<lambda>_. qreturn (allowed r)))))))
    (allowed_answered lower rq)"
  (is "yields _ (qbind _ ?k) _")
proof (rule yields_bind)
  show "yields P (evaluatePolicies rq ps) (\<lambda>ev. P)"
    unfolding evaluatePolicies_def by (rule keeps_yields [OF steady_evaluate [OF P]])
  fix ev
  note tail = keeps_yields [OF steady_apply [OF steady_answered]] keeps_yields [OF steady_audit [OF steady_answered]]
  show "yields P (?k ev) (allowed_answered lower rq)"
  proof (cases "ev_deny ev")
    case None
    show ?thesis
      unfolding None option.case
      by (rule yields_bind [OF keeps_yields [OF steady_observed [OF P]]], rule yields_bind [OF book], (rule yields_bind, rule tail)+)
        (auto simp: allowed_answered_def intro: yields_return)
  next
    case (Some x)
    then show ?thesis using denied
      by (cases x) (auto intro!: yields_bind [OF keeps_yields [OF steady_audit [OF P]]] yields_return simp: allowed_answered_def)
  qed
qed

lemma new_answered:
  assumes "standard lower rq"
  shows "yields numbered (reserve_new lower rq) (allowed_answered lower rq)"
  unfolding reserve_new_def
proof (rule yields_or_fail_closed [OF steady_resolve [OF steady_numbered, unfolded keeps_def]],
    rule decision_answered [OF steady_numbered])
  show "yields numbered (insert_booking lower (booking_of lower rq ps its)) (\<lambda>r. answered lower rq)" for ps its
    unfolding insert_booking_def
    by (rule yields_catch_fail [where R = "\<lambda>r. answered lower rq"])
      (auto intro!: yields_call yields_return intro: insert_answered [OF assms])
qed (simp_all add: denyResult_def allowed_answered_def fail_closed_def)

lemma old_answered:
  assumes "standard lower rq" "rv_id r \<noteq> 0" "canReactivateReservation (rv_status r)"
  shows "yields (found rq r) (reactivateExistingReservation lower rq r) (allowed_answered lower rq)"
  unfolding reactivateExistingReservation_def
proof (rule yields_or_fail_closed [OF steady_resolve [OF steady_found, unfolded keeps_def]],
    rule decision_answered [OF steady_found])
  show "yields (found rq r) (db (reactivateReservation lower (rv_id r) (booking_of lower rq ps its))) (\<lambda>r. answered lower rq)" for ps its
    by (rule yields_db) (rule reactivate_answered [OF assms(1) _ assms(2,3)])
qed (simp_all add: replay_result_def denyResult_def allowed_answered_def fail_closed_def)

lemma existing_answered:
  assumes "found rq r d" "rv_id r \<noteq> 0"
  shows "allowed_answered lower rq (existingReservationResult lower rq r) d"
proof -
  have "answering lower rq r" if "rr_allowed (fst (existingReservationResult lower rq r))"
    using that assms(2)
    by (auto simp: existingReservationResult_def conflict_outcome_def replay_result_def answering_def split: if_splits)
  then show ?thesis using assms(1) by (auto simp: allowed_answered_def answered_def)
qed

lemma get_found:
  "triple numbered (db (getReservationByClaim (rq_tenant rq) (rq_claim rq))) (found rq) (\<lambda>e. numbered)"
  by (rule triple_db) (auto simp: getReservationByClaim_def sql_ok_def sql_none_def found_def split: option.splits)

lemma body_answered:
  assumes "standard lower rq"
  shows "yields numbered (reserve_body lower rq) (allowed_answered lower rq)"
  unfolding reserve_body_def
proof (rule yields_catch [OF get_found])
  fix r
  have new: "yields (found rq r) (reserve_new lower rq) (allowed_answered lower rq)"
    by (rule yields_weaken [OF new_answered [OF assms]]) (simp_all add: found_def)
  have old: "yields (found rq r) (reserve_existing lower rq r) (allowed_answered lower rq)" if "rv_id r \<noteq> 0"
    using that existing_answered [OF _ that]
    by (auto simp: reserve_existing_def allowed_answered_def conflict_outcome_def
        intro!: yields_return old_answered [OF assms that])
  show "yields (found rq r) (case Inr r of Inr r \<Rightarrow> if rv_id r \<noteq> 0 then reserve_existing lower rq r else reserve_new lower rq
       | Inl e \<Rightarrow> if e = SDb ErrNoRows then reserve_new lower rq else if isConflict e then qfail e else qreturn (fail_closed e))
      (allowed_answered lower rq)"
    using new old by simp
next
  fix e
  show "yields numbered (case Inl e of Inr r \<Rightarrow> if rv_id r \<noteq> 0 then reserve_existing lower rq r else reserve_new lower rq
       | Inl e \<Rightarrow> if e = SDb ErrNoRows then reserve_new lower rq else if isConflict e then qfail e else qreturn (fail_closed e))
      (allowed_answered lower rq)"
    using new_answered [OF assms]
    by (auto intro!: yields_fail yields_return simp: allowed_answered_def fail_closed_def denyResult_def)
qed

lemma found_numbered: "found rq r d \<Longrightarrow> rv_id r \<noteq> 0"
  by (auto simp: found_def numbered_def dest!: find_inD)

lemma reuse_answered:
  "yields numbered (reuseReservationAfterClaimRace lower store rq) (allowed_answered lower rq)"
  unfolding reuseReservationAfterClaimRace_def
proof (rule yields_catch [OF triple_withStore [OF triple_yields [OF get_found]]])
  fix r
  show "yields (found rq r) (case Inr r of Inl e \<Rightarrow> qreturn (fail_closed e)
       | Inr r \<Rightarrow> qreturn (existingReservationResult lower rq r)) (allowed_answered lower rq)"
    using existing_answered found_numbered by (auto intro!: yields_return)
next
  show "yields numbered (case Inl e of Inl e \<Rightarrow> qreturn (fail_closed e)
       | Inr r \<Rightarrow> qreturn (existingReservationResult lower rq r)) (allowed_answered lower rq)" for e
    by (auto intro!: yields_return simp: allowed_answered_def fail_closed_def denyResult_def)
qed

lemma run_answered:
  assumes "standard lower rq"
  shows "yields numbered (reserve_run lower store rq) (allowed_answered lower rq)"
  unfolding reserve_run_def
proof (rule yields_catch [OF triple_retry [OF triple_withStore [OF body_answered [OF assms]]]])
  show "yields (allowed_answered lower rq x) (reserve_finish lower store rq (Inr x)) (allowed_answered lower rq)" for x
    by (simp add: reserve_finish_def yields_return)
  show "yields numbered (reserve_finish lower store rq (Inl e)) (allowed_answered lower rq)" for e
    unfolding reserve_finish_def
    by (auto split: q_serr.split intro!: reuse_answered yields_return yields_catch [where R = "\<lambda>x d. True" and F = "\<lambda>e d. True"]
        simp: allowed_answered_def fail_closed_def denyResult_def empty_result_def triple_def)
qed

text \<open>What the service makes of a request is standard, so its reservation matches it later.\<close>

lemma add_scopes_stored: "x \<in> set (add_scopes t ss seen) \<Longrightarrow> sc_tenant x = t \<and> normalizeScopeID (sc_kind x) (sc_id x) = sc_id x"
  by (induction t ss seen rule: add_scopes.induct) (auto simp: Let_def normalizeScopeID_def split: if_splits)

lemma stored_normalized:
  "stored_scopes t (normalizeScopesForResolution t ss) = normalizeScopesForResolution t ss"
proof -
  have "sc_tenant x = t \<and> normalizeScopeID (sc_kind x) (sc_id x) = sc_id x"
    if "x \<in> set (normalizeScopesForResolution t ss)" for x
    using that add_scopes_stored [of x t ss "{}"]
    by (auto simp: normalizeScopesForResolution_def normalizeScopes_def global_scope_def normalizeScopeID_def stable_sort_set
        Let_def split: if_splits)
  then show ?thesis unfolding stored_scopes_def by (intro map_idI) (auto intro!: q_scope.equality)
qed

lemma normalized_standard:
  assumes "\<And>m. aliasNormalize lower (aliasNormalize lower m) = aliasNormalize lower m"
    and "rq_at rq \<noteq> zero_time" "rq_lease rq \<noteq> zero_time" "rq_at rq < rq_lease rq"
  shows "standard lower (normalizeReserveRequest lower now rq)"
  using assms by (simp add: standard_def normalizeReserveRequest_def normalizeRequestedModel_def stored_normalized)

text \<open>Without faults the service answers such a request from the reservation.\<close>

lemma answering_result:
  assumes "answering lower rq r"
  shows "\<exists>res. existingReservationResult lower rq r = (res, None) \<and> rr_allowed res \<and> rr_idempotent res \<and> rr_reservation res = Some r"
  using assms by (auto simp: answering_def existingReservationResult_def replay_result_def)

lemma answered_again:
  assumes "find (rv_of_claim (rq_tenant rq) (rq_claim rq)) (qd_reservations (st_db s)) = Some r"
    and "answering lower rq r" "st_faults s = []"
  shows "reserve_run lower StoreTx rq s = (Inr (existingReservationResult lower rq r), s)"
proof -
  have "\<not> canReactivateReservation (rv_status r)" "rv_id r \<noteq> 0"
    using assms(2) by (auto simp: answering_def canReactivateReservation_def)
  then have "withTx SDb (reserve_body lower rq) s = (Inr (existingReservationResult lower rq r), s)"
    using assms(1,3)
    by (simp add: withTx_def next_fault_def reserve_body_def qcatch_def db_def qlift_def qcall_def getReservationByClaim_def
        sql_ok_def reserve_existing_def qreturn_def)
  then show ?thesis
    by (simp add: reserve_run_def reserveTxRetryAttempts_def withStore_def numeral_2_eq_2 qcatch_def qreturn_def reserve_finish_def)
qed

lemma reserve_tables:
  "Reserve lower store rq s = ((res, err), s') \<Longrightarrow> rr_allowed res \<Longrightarrow>
    reserve_run lower store (normalizeReserveRequest lower (st_now s) rq) s = (Inr (res, err), s')"
  by (auto simp: Reserve_def Let_def denyResult_def fail_closed_def split: if_splits prod.splits sum.splits)


section \<open>A failed finalisation is accounted for\<close>

text \<open>
  The three finalisations as one call, and the tenant, claim and kind of the job that repairs it.
\<close>

datatype q_finalize = FinalizeSettle q_settle | FinalizeRelease q_release | FinalizeHit q_hit

fun finalize :: "q_store_kind \<Rightarrow> q_finalize \<Rightarrow> (q_serr \<times> bool, q_fresult) qm" where
  "finalize store (FinalizeSettle se) = Settle store se"
| "finalize store (FinalizeRelease re) = Release store re"
| "finalize store (FinalizeHit ch) = CommitCacheHit store ch"

fun repair_job :: "q_finalize \<Rightarrow> q_job \<Rightarrow> bool" where
  "repair_job (FinalizeSettle se) = job_open (se_tenant se) (se_claim se) ''settle_after_billing_success''"
| "repair_job (FinalizeRelease re) = job_open (re_tenant re) (re_claim re) ''release_after_abort''"
| "repair_job (FinalizeHit ch) = job_open (ch_tenant ch) (ch_claim ch) ''release_after_cache_hit''"

text \<open>Errors that no repeat can mend; a joined error means that queueing the repair failed as well.\<close>

definition final_error :: "q_serr \<Rightarrow> bool" where
  "final_error e \<longleftrightarrow> \<not> shouldQueueQuotaFinalizationFailure e \<and> (case e of SJoined a b \<Rightarrow> False | _ \<Rightarrow> True)"

definition handed_over :: "(q_job \<Rightarrow> bool) \<Rightarrow> bool \<Rightarrow> q_db \<Rightarrow> bool" where
  "handed_over p queued d \<longleftrightarrow> (queued \<longrightarrow> list_ex p (qd_jobs d))"

lemma enqueue_waiting: "yields P (enqueue_now tenant claim rid kind) (\<lambda>j. handed_over (job_open tenant claim (reconciliationDBKind kind)) True)"
proof -
  have "list_ex (job_open t c k) (qd_jobs d')" if eq: "enqueueJob t c i k e n now d = (Inr j, d')" for t c i k e n now d j d'
  proof (cases "find (job_open t c k) (qd_jobs d)")
    case None
    then show ?thesis using eq by (auto simp: enqueueJob_def sql_none_def job_open_def Let_def split: if_splits)
  next
    case (Some x)
    let ?f = "\<lambda>j. j\<lparr> jb_error := Some e, jb_nextRun := min (jb_nextRun j) n \<rparr>"
    have "d' = set_jobs (job_open t c k) ?f d"
      using eq Some by (simp add: enqueueJob_def sql_none_def Let_def split: if_splits)
    then have "?f x \<in> set (qd_jobs d')" "job_open t c k (?f x)"
      using find_inD [OF Some] by (auto simp: set_jobs_def job_open_def image_iff)
    then show ?thesis unfolding list_ex_iff by metis
  qed
  then show ?thesis unfolding enqueue_now_def by (auto intro!: yields_db simp: handed_over_def)
qed

lemma is_fail: "\<exists>e'. qfail e = qfail e'"
  by blast

lemma triple_True: "triple P m (\<lambda>x d. True) (\<lambda>e d. True)"
  by (rule tripleI) simp_all

lemma yields_outside: "yields P body Q \<Longrightarrow> yields P (runQuotaOutsideFailedTx store body) Q"
  unfolding runQuotaOutsideFailedTx_def by (auto simp: yields_def intro: triple_tx [OF _ TrueI, unfolded yields_def])

lemma yields_cleanup:
  assumes "yields (\<lambda>d. True) body Q"
  shows "yields (\<lambda>d. True) (runQuotaCleanupStepWithRetry store body) Q"
  unfolding runQuotaCleanupStepWithRetry_def
  by (rule triple_yields [OF triple_retry]) (use yields_outside [OF assms] in \<open>simp add: yields_def\<close>)

lemma enqueue_handed_over:
  "yields (\<lambda>d. True) (enqueueFinalizationReconciliation store tenant claim rid kind)
     (handed_over (job_open tenant claim (reconciliationDBKind kind)))"
  unfolding enqueueFinalizationReconciliation_def
  by (auto simp: yields_fail handed_over_def split: sum.split
      intro!: yields_catch [OF triple_True] yields_return is_fail
        yields_catch_fail [OF yields_outside [OF enqueue_waiting]])

lemma handoff_handed_over:
  "yields (\<lambda>d. True) (handoffReleaseRecovery store tenant claim rid) (handed_over (job_open tenant claim ''release_after_abort''))"
proof -
  have kind: "reconciliationDBKind quotaReconcileKindReleaseFailed = ''release_after_abort''"
    by (simp add: reconciliationDBKind_def quotaReconcileKindReleaseFailed_def quotaReconcileKindSettleFailed_def)
  show ?thesis
    unfolding handoffReleaseRecovery_def
    by (auto simp: yields_fail handed_over_def split: sum.split
        intro!: yields_catch [OF triple_True] yields_return is_fail
          yields_catch_fail [OF yields_cleanup [OF enqueue_waiting [where kind = quotaReconcileKindReleaseFailed, unfolded kind]]])
qed

definition accounted :: "(q_job \<Rightarrow> bool) \<Rightarrow> q_db \<Rightarrow> q_serr \<times> bool \<Rightarrow> q_db \<Rightarrow> bool" where
  "accounted p d0 x d \<longleftrightarrow> handed_over p (snd x) d \<and> (final_error (fst x) \<longrightarrow> \<not> snd x \<and> d = d0)"

lemma with_retry_untouched:
  "triple (\<lambda>d. d = d0) (runQuotaFinalizationWithRetry store operation n body) (\<lambda>x d. True) (\<lambda>e d. d = d0)"
  unfolding runQuotaFinalizationWithRetry_def
  by (auto intro!: triple_fail triple_retry triple_withStore yields_any)

lemma finalization_accounted:
  assumes "triple (\<lambda>d. d = d0) run (\<lambda>x d. True) (\<lambda>e d. d = d0)" "yields (\<lambda>d. True) queue (handed_over p)"
  shows "triple (\<lambda>d. d = d0) (finalization run queue) (\<lambda>x d. True) (accounted p d0)"
proof -
  have queue: "triple (\<lambda>d. d = d0) queue (handed_over p) (\<lambda>e d. True)"
    by (rule triple_weaken [OF assms(2) [unfolded yields_def]]) simp_all
  have queueing: "triple (\<lambda>d. d = d0) (qcatch queue
      (\<lambda>y. case y of Inl e' \<Rightarrow> qfail (SJoined e e', False) | Inr queued \<Rightarrow> qfail (e, queued)))
      (\<lambda>x d. True) (accounted p d0)" if "shouldQueueQuotaFinalizationFailure e" for e
    by (rule triple_catch [OF queue])
      (use that in \<open>auto intro!: triple_fail simp: accounted_def handed_over_def final_error_def\<close>)
  show ?thesis
    unfolding finalization_def
    by (rule triple_catch [OF assms(1)])
      (auto intro!: triple_return triple_fail queueing simp: accounted_def handed_over_def)
qed

lemma job_kinds:
  "reconciliationDBKind quotaReconcileKindSettleFailed = ''settle_after_billing_success''"
  "reconciliationDBKind quotaReconcileKindCacheHitFailed = ''release_after_cache_hit''"
  by (simp_all add: reconciliationDBKind_def quotaReconcileKindReleaseFailed_def quotaReconcileKindSettleFailed_def
      quotaReconcileKindCacheHitFailed_def)

lemma finalize_accounted: "triple (\<lambda>d. d = d0) (finalize store c) (\<lambda>x d. True) (accounted (repair_job c) d0)"
proof (rule tripleI)
  fix s e s'
  assume d0: "st_db s = d0" and eq: "finalize store c s = (Inl e, s')"
  note run = triple_errD [OF finalization_accounted [OF with_retry_untouched], where s = s, OF _ d0]
  show "accounted (repair_job c) d0 e (st_db s')"
  proof (cases c)
    case (FinalizeSettle se)
    then show ?thesis
      using eq d0 run [OF enqueue_handed_over [where kind = quotaReconcileKindSettleFailed, unfolded job_kinds]]
      by (auto simp: Settle_def normalizeSettleRequest_def Let_def accounted_def handed_over_def split: option.splits if_splits)
  next
    case (FinalizeRelease re)
    then show ?thesis
      using eq d0 run [OF handoff_handed_over]
      by (auto simp: Release_def normalizeReleaseRequest_def Let_def accounted_def handed_over_def split: option.splits)
  next
    case (FinalizeHit ch)
    then show ?thesis
      using eq d0 run [OF enqueue_handed_over [where kind = quotaReconcileKindCacheHitFailed, unfolded job_kinds]]
      by (auto simp: CommitCacheHit_def normalizeCacheHitRequest_def Let_def accounted_def handed_over_def split: option.splits)
  qed
qed simp

text \<open>
  C14. A failed finalisation is accounted for. If \<open>Settle\<close>, \<open>Release\<close> or \<open>CommitCacheHit\<close> fails and
  says that its repair was queued, the job is in the tables, for the claim and of the right kind. If
  it fails with an error that is never queued - no reservation, another reservation, a revived
  claim, a settled reservation - the tables are as before: the audit event for a reservation that
  does not match is lost with the transaction.
\<close>

theorem failed_finalization_is_accounted:
  assumes "finalize store c s = (Inl (e, queued), s')"
  shows "(queued \<longrightarrow> list_ex (repair_job c) (qd_jobs (st_db s'))) \<and>
    (final_error e \<longrightarrow> \<not> queued \<and> st_db s' = st_db s)"
  using triple_errD [OF finalize_accounted refl assms] by (simp add: accounted_def handed_over_def)

section \<open>Instances\<close>

definition demo_st :: "q_err option list \<Rightarrow> q_db \<Rightarrow> q_st" where
  "demo_st faults d = \<lparr> st_db = d, st_faults = faults, st_now = 50 \<rparr>"

theorem refused_request_moves_nothing_witness:
  "(let s = demo_st [Some (ErrOther ''down'')] demo_tables; s' = snd (Reserve (\<lambda>s. s) StoreTx demo_request s)
    in st_faults s' = [] \<and> reserved_of (st_db s') = reserved_of demo_tables)"
proof -
  let ?s = "demo_st [Some (ErrOther ''down'')] demo_tables"
  have "Reserve (\<lambda>s. s) StoreTx demo_request ?s = (fail_closed (SDb (ErrOther ''down'')), ?s\<lparr> st_faults := [] \<rparr>)"
    by (simp add: Reserve_def reserve_run_def reserveTxRetryAttempts_def numeral_2_eq_2 withStore_def withTx_def next_fault_def
        demo_st_def isConflict_def qcatch_def qfail_def qreturn_def reserve_finish_def Let_def)
  moreover have "tables_ok (st_db ?s)" by (simp add: tables_ok_def demo_st_def demo_defs)
  ultimately show ?thesis
    using refused_request_moves_nothing [of ?s "\<lambda>s. s" StoreTx demo_request]
    by (simp add: fail_closed_def denyResult_def demo_st_def)
qed

definition no_tables :: q_db where
  "no_tables = demo_tables\<lparr> qd_policies := [] \<rparr>"

lemma demo_normalized: "normalizeReserveRequest (\<lambda>s. s) 50 demo_request = demo_request\<lparr> rq_scopes := [global_scope 1] \<rparr>"
proof -
  have "trim_space ''m'' = ''m''" by (rule trim_space_plain; code_simp)
  then show ?thesis
    by (simp add: normalizeReserveRequest_def demo_request_def normalizeScopesForResolution_def normalizeScopes_def stable_sort_def
        normalizeRequestedModel_def aliasNormalize_def zero_time_def Let_def)
qed

lemma demo_allowed:
  "\<exists>r s'. reserve_run (\<lambda>s. s) StoreTx (demo_request\<lparr> rq_scopes := [global_scope 1] \<rparr>) (demo_st [] no_tables) =
     (Inr (\<lparr> rr_allowed = True, rr_decision = allow_decision, rr_reservation = Some r, rr_idempotent = False \<rparr>, None), s')"
  (is "\<exists>r s'. reserve_run _ _ ?rq ?s = (Inr (?allowed r, None), s')")
proof -
  have "qd_policies no_tables = []" "qd_reservations no_tables = []" "has_claim no_tables 1 11"
    and "rq_tenant demo_request = 1" "rq_claim demo_request = 11" "0 \<le> rq_predicted demo_request"
    by (simp_all add: no_tables_def has_claim_def claim_is_def demo_defs)
  then have "\<exists>r s'. withTx SDb (reserve_body (\<lambda>s. s) ?rq) ?s = (Inr (?allowed r, None), s')"
    by (simp add: withTx_def next_fault_def demo_st_def qcatch_def qbind_def qfail_def qreturn_def db_def qlift_def qcall_def
        reserve_body_def getReservationByClaim_def sql_none_def sql_ok_def reserve_new_def or_fail_closed_def
        resolvePolicies_def listActivePolicies_def resolve_rows_def stable_sort_def evaluatePolicies_def
        insert_booking_def insertReservation_def booking_of_def insertDecisionAudit_def
        insertAudit_def Let_def)
  then obtain r s' where "withTx SDb (reserve_body (\<lambda>s. s) ?rq) ?s = (Inr (?allowed r, None), s')" by blast
  then show ?thesis
    by (auto simp: reserve_run_def reserveTxRetryAttempts_def numeral_2_eq_2 withStore_def qcatch_def qreturn_def reserve_finish_def)
qed

lemma demo_lowering: "aliasNormalize (\<lambda>s. s) (aliasNormalize (\<lambda>s. s) m) = aliasNormalize (\<lambda>s. s) m"
  by (simp add: aliasNormalize_def Let_def trim_space_idem)


theorem failed_finalization_is_accounted_witness:
  "st_db (snd (finalize StoreTx (FinalizeSettle demo_settle) (demo_st [] demo_tables))) = demo_tables"
proof -
  have "finalize StoreTx (FinalizeSettle demo_settle) (demo_st [] demo_tables) = (Inl (SNotFound, False), demo_st [] demo_tables)"
    by (simp add: Settle_def normalizeSettleRequest_def validateSettleRequest_def validateFinalizationIDs_def finalization_def
       runQuotaFinalizationWithRetry_def reserveTxRetryAttempts_def numeral_2_eq_2 withStore_def withTx_def next_fault_def
        demo_st_def qcatch_def qbind_def qfail_def qreturn_def Let_def db_def qlift_def qcall_def settle_body_def
        getFinalizationReservation_def getReservationByClaim_def sql_none_def isConflict_def
        shouldQueueQuotaFinalizationFailure_def demo_defs zero_time_def)
  moreover have "final_error SNotFound" by (simp add: final_error_def shouldQueueQuotaFinalizationFailure_def)
  ultimately show ?thesis using failed_finalization_is_accounted by (metis demo_st_def q_st.select_convs(1) snd_conv)
qed

end
