(* ===== verification/Quota_Progress.thy ===== *)
theory Quota_Progress
  imports Quota_Replay
begin

text \<open>
  Progress of settlement: without faults, a live reservation whose policies still exist is settled.
  \<open>sure\<close> is a triple for computations that must succeed.
\<close>

definition sure :: "(q_db \<Rightarrow> bool) \<Rightarrow> ('e, 'a) qm \<Rightarrow> ('a \<Rightarrow> q_db \<Rightarrow> bool) \<Rightarrow> bool" where
  "sure P m Q \<longleftrightarrow> (\<forall>s. P (st_db s) \<longrightarrow> st_faults s = [] \<longrightarrow>
     (\<exists>x s'. m s = (Inr x, s') \<and> Q x (st_db s') \<and> st_faults s' = []))"

lemma sureD:
  assumes "sure P m Q" "P (st_db s)" "st_faults s = []"
  obtains x s' where "m s = (Inr x, s')" "Q x (st_db s')" "st_faults s' = []"
  using assms unfolding sure_def by metis

lemma sureI:
  "(\<And>s. P (st_db s) \<Longrightarrow> st_faults s = [] \<Longrightarrow> \<exists>x s'. m s = (Inr x, s') \<and> Q x (st_db s') \<and> st_faults s' = []) \<Longrightarrow> sure P m Q"
  unfolding sure_def by metis

lemma sure_return: "(\<And>d. P d \<Longrightarrow> Q x d) \<Longrightarrow> sure P (qreturn x) Q"
  by (simp add: sure_def qreturn_def)

lemma sure_bind:
  assumes "sure P m R" "\<And>x. sure (R x) (k x) Q"
  shows "sure P (qbind m k) Q"
proof (rule sureI)
  fix s :: q_st
  assume "P (st_db s)" "st_faults s = []"
  with assms(1) obtain x t where m: "m s = (Inr x, t)" "R x (st_db t)" "st_faults t = []" by (rule sureD)
  from sureD [OF assms(2) m(2,3)] obtain y s' where "k x t = (Inr y, s')" "Q y (st_db s')" "st_faults s' = []" .
  then show "\<exists>x s'. qbind m k s = (Inr x, s') \<and> Q x (st_db s') \<and> st_faults s' = []"
    using m(1) by (simp add: qbind_def)
qed

lemma sure_db:
  assumes "\<And>now d. P d \<Longrightarrow> \<exists>x d'. f now d = (Inr x, d') \<and> Q x d'"
  shows "sure P (db f) Q"
proof (rule sureI)
  fix s :: q_st
  assume "P (st_db s)" "st_faults s = []"
  moreover obtain x d' where "f (st_now s) (st_db s) = (Inr x, d')" "Q x d'"
    using assms [OF \<open>P (st_db s)\<close>] by blast
  ultimately show "\<exists>x s'. db f s = (Inr x, s') \<and> Q x (st_db s') \<and> st_faults s' = []"
    by (simp add: db_def qlift_def qcatch_def qcall_def next_fault_def qreturn_def)
qed

lemma sure_tx: "sure P body Q \<Longrightarrow> sure P (withTx wrap body) Q"
  unfolding sure_def by (fastforce simp: withTx_def next_fault_def)

lemma sure_retry: "sure P body Q \<Longrightarrow> sure P (retry_tx wrap n body) Q"
  unfolding sure_def by (cases n) (fastforce simp: qcatch_def qreturn_def)+

lemma sure_weaken: "sure P m Q \<Longrightarrow> (\<And>d. P' d \<Longrightarrow> P d) \<Longrightarrow> (\<And>x d. Q x d \<Longrightarrow> Q' x d) \<Longrightarrow> sure P' m Q'"
  unfolding sure_def by metis

section \<open>Settling the windows\<close>

definition counter_ok :: "q_counter \<Rightarrow> bool" where
  "counter_ok w \<longleftrightarrow> 0 \<le> wn_reserved w \<and> 0 \<le> wn_settled w \<and> 0 \<le> wn_overage w \<and> 0 \<le> wn_requests w"

definition ready :: "q_reservation list \<Rightarrow> int \<Rightarrow> int set \<Rightarrow> q_db \<Rightarrow> bool" where
  "ready rs tenant pids d \<longleftrightarrow> qd_reservations d = rs \<and> (\<forall>w \<in> set (qd_windows d). counter_ok w) \<and>
     (\<forall>pid \<in> pids. is_policy d tenant pid)"

definition final_ok :: "int set \<Rightarrow> q_final \<Rightarrow> bool" where
  "final_ok pids f \<longleftrightarrow> fp_policy f \<in> pids \<and> 0 \<le> fp_reserved f \<and> qw_start (fp_window f) < qw_end (fp_window f)"

lemma find_exists: "x \<in> set xs \<Longrightarrow> p x \<Longrightarrow> \<exists>y. find p xs = Some y"
  by (induction xs) auto

definition has_row :: "int \<Rightarrow> int \<Rightarrow> q_db \<Rightarrow> bool" where
  "has_row tenant wid d \<longleftrightarrow> (\<exists>w \<in> set (qd_windows d). window_is tenant wid w)"

lemma upsert_ready:
  assumes "ready rs tenant pids d" "pid \<in> pids" "qw_start win < qw_end win"
  shows "\<exists>w d'. upsertWindow tenant pid win now d = (Inr w, d') \<and> ready rs tenant pids d' \<and> has_row tenant (wn_id w) d'"
proof (cases "find (window_at tenant pid (qw_start win)) (qd_windows d)")
  case None
  then show ?thesis using assms
    by (auto simp: upsertWindow_def ready_def Let_def is_policy_def has_row_def window_is_def counter_ok_def)
next
  case (Some w)
  let ?f = "\<lambda>w. w\<lparr> wn_end := qw_end win \<rparr>"
  let ?d = "set_windows (window_at tenant pid (qw_start win)) ?f d"
  have "upsertWindow tenant pid win now d = (Inr (?f w), ?d)"
    using assms Some by (auto simp: upsertWindow_def ready_def)
  moreover have "ready rs tenant pids ?d"
    using assms(1) by (auto simp: ready_def set_windows_def is_policy_def counter_ok_def)
  moreover have "?f w \<in> set (qd_windows ?d)" using find_inD [OF Some] by (auto simp: set_windows_def)
  then have "has_row tenant (wn_id (?f w)) ?d"
    using find_inD [OF Some] by (auto simp: has_row_def window_is_def window_at_def intro!: bexI [where x = "?f w"])
  ultimately show ?thesis by blast
qed

lemma window_ready:
  assumes "final_ok pids f"
  shows "sure (ready rs tenant pids) (snapshotWindowForUpdate tenant f)
    (\<lambda>c d. ready rs tenant pids d \<and> counter_ok c \<and> has_row tenant (wn_id c) d)"
  unfolding snapshotWindowForUpdate_def
proof (rule sure_bind)
  show "sure (ready rs tenant pids) (db (upsertWindow tenant (fp_policy f) (fp_window f)))
      (\<lambda>w d. ready rs tenant pids d \<and> has_row tenant (wn_id w) d)"
    using assms upsert_ready by (intro sure_db) (simp add: final_ok_def)
next
  fix w
  show "sure (\<lambda>d. ready rs tenant pids d \<and> has_row tenant (wn_id w) d) (db (getWindowForUpdate tenant (wn_id w)))
      (\<lambda>c d. ready rs tenant pids d \<and> counter_ok c \<and> has_row tenant (wn_id c) d)"
  proof (rule sure_db)
    fix now and d :: q_db
    assume d: "ready rs tenant pids d \<and> has_row tenant (wn_id w) d"
    then obtain c where c: "find (window_is tenant (wn_id w)) (qd_windows d) = Some c"
      using find_exists unfolding has_row_def by metis
    note in_c = find_inD [OF c]
    then have "counter_ok c" using d by (simp add: ready_def)
    moreover have "has_row tenant (wn_id c) d" using in_c by (auto simp: has_row_def window_is_def)
    ultimately show "\<exists>x d'. getWindowForUpdate tenant (wn_id w) now d = (Inr x, d') \<and>
        ready rs tenant pids d' \<and> counter_ok x \<and> has_row tenant (wn_id x) d'"
      using d c by (simp add: getWindowForUpdate_def sql_ok_def)
  qed
qed

lemma settlement_ready:
  assumes "0 \<le> settled" "0 \<le> overage"
  shows "sure (\<lambda>d. ready rs tenant pids d \<and> has_row tenant wid d)
    (db (applyWindowSettlement tenant wid released settled overage)) (\<lambda>w. ready rs tenant pids)"
proof (rule sure_db)
  fix now and d :: q_db
  assume d: "ready rs tenant pids d \<and> has_row tenant wid d"
  then obtain c where c: "find (window_is tenant wid) (qd_windows d) = Some c"
    using find_exists unfolding has_row_def by metis
  have "counter_ok w \<Longrightarrow> counter_ok (w\<lparr> wn_reserved := max 0 (wn_reserved w - released), wn_settled := wn_settled w + settled,
               wn_overage := wn_overage w + overage, wn_version := wn_version w + 1 \<rparr>)" for w :: q_counter
    using assms by (simp add: counter_ok_def)
  then show "\<exists>x d'. applyWindowSettlement tenant wid released settled overage now d = (Inr x, d') \<and> ready rs tenant pids d'"
    using d c find_inD [OF c]
    by (fastforce simp: applyWindowSettlement_def update_window_def ready_def set_windows_def is_policy_def counter_ok_def)
qed

lemma overage_nonneg: "0 \<le> marginalBudgetOverage c limit predicted actual"
  by (simp add: marginalBudgetOverage_def positiveDecimal_def Let_def)

lemma settle_window_ready:
  assumes "final_ok pids f" "0 \<le> actual"
  shows "sure (ready rs (rv_tenant r) pids) (settle_window r actual hit f)
    (\<lambda>overage d. ready rs (rv_tenant r) pids d \<and> 0 \<le> overage)"
proof -
  have run: "sure (\<lambda>d. ready rs (rv_tenant r) pids d \<and> counter_ok c \<and> has_row (rv_tenant r) (wn_id c) d)
      (qbind (db (applyWindowSettlement (rv_tenant r) (wn_id c) (fp_reserved f) settled overage)) (\<lambda>_. qreturn overage))
      (\<lambda>overage d. ready rs (rv_tenant r) pids d \<and> 0 \<le> overage)" if "0 \<le> settled" "0 \<le> overage" for c settled overage
    by (rule sure_bind [where R = "\<lambda>w. ready rs (rv_tenant r) pids"], rule sure_weaken [OF settlement_ready [OF that]])
      (auto intro!: sure_return simp: that)
  have "0 \<le> fp_reserved f" using assms(1) by (simp add: final_ok_def)
  then show ?thesis
    unfolding settle_window_def Let_def
    by (intro sure_bind [OF window_ready [OF assms(1)]])
      (auto split: q_metric.split intro!: run sure_return simp: assms(2) overage_nonneg)
qed

lemma settle_windows_ready:
  assumes "list_all (final_ok pids) fs" "0 \<le> actual"
  shows "sure (\<lambda>d. ready rs (rv_tenant r) pids d \<and> 0 \<le> acc) (settle_windows r actual hit fs acc)
    (\<lambda>overage d. ready rs (rv_tenant r) pids d \<and> 0 \<le> overage)"
  using assms(1)
proof (induction fs arbitrary: acc)
  case (Cons f fs)
  have "sure (\<lambda>d. ready rs (rv_tenant r) pids d \<and> 0 \<le> acc) (settle_window r actual hit f)
      (\<lambda>overage d. ready rs (rv_tenant r) pids d \<and> 0 \<le> acc + overage)" if "0 \<le> acc"
    by (rule sure_weaken [OF settle_window_ready]) (use Cons.prems assms(2) that in auto)
  then have "sure (\<lambda>d. ready rs (rv_tenant r) pids d \<and> 0 \<le> acc) (settle_window r actual hit f)
      (\<lambda>overage d. ready rs (rv_tenant r) pids d \<and> 0 \<le> acc + overage)"
    by (cases "0 \<le> acc") (simp_all add: sure_def)
  then show ?case using Cons by (auto intro: sure_bind)
qed (auto intro: sure_return)

section \<open>A live reservation settles\<close>

lemma snapshot_final_reserved:
  assumes "snapshotFinalizationPolicies r = Some fs" "0 \<le> rv_predicted r" "0 \<le> rv_units r" "f \<in> set fs"
  shows "0 \<le> fp_reserved f \<and> qw_start (fp_window f) < qw_end (fp_window f)"
proof -
  have one: "0 \<le> fp_reserved f \<and> qw_start (fp_window f) < qw_end (fp_window f)" if "snapshot_final r n = Some f" for n f
    using that assms(2,3)
    by (auto simp: snapshot_final_def snapshotRecordWindow_def snapshotReservedAmount_def split: option.splits if_splits)
  obtain ns where "map (snapshot_final r) ns = map Some fs"
    using assms(1) collect_options_map by (fastforce simp: snapshotFinalizationPolicies_def simp del: map_map split: option.splits)
  then have "Some f \<in> snapshot_final r ` set ns" using assms(4) by (metis image_eqI list.set_map)
  then show ?thesis using one by force
qed

text \<open>The row of the claim is settled, the others are as before.\<close>

definition settled_row :: "int \<Rightarrow> int \<Rightarrow> rat \<Rightarrow> q_db \<Rightarrow> bool" where
  "settled_row tenant claim cost d \<longleftrightarrow>
     (\<exists>r \<in> set (qd_reservations d). rv_of_claim tenant claim r \<and> rv_status r = ReservationSettled \<and> rv_settledCost r = cost)"

definition intact :: "q_db \<Rightarrow> q_reservation \<Rightarrow> bool" where
  "intact d r \<longleftrightarrow> r \<in> set (qd_reservations d) \<and> rv_live r \<and> 0 \<le> rv_predicted r \<and> 0 \<le> rv_units r \<and>
     list_all counter_ok (qd_windows d) \<and>
     (case snapshotFinalizationPolicies r of None \<Rightarrow> False
      | Some fs \<Rightarrow> list_all (\<lambda>f. is_policy d (rv_tenant r) (fp_policy f)) fs)"

lemma sure_audit:
  "(\<And>d d'. same_books d d' \<Longrightarrow> P d \<Longrightarrow> P d') \<Longrightarrow> sure P (insertQuotaFinalizationAudit a) (\<lambda>u. P)"
  unfolding insertQuotaFinalizationAudit_def Let_def
proof (rule sure_db)
  fix x now and d :: q_db
  assume same: "\<And>d d'. same_books d d' \<Longrightarrow> P d \<Longrightarrow> P d'" and "P d"
  moreover have "insertAudit x now d = (Inr (), snd (insertAudit x now d))" by (simp add: insertAudit_def)
  ultimately show "\<exists>u d'. insertAudit x now d = (Inr u, d') \<and> P d'" using quiet_audit by metis
qed

lemma settle_live_sure:
  assumes "intact d0 r" "rv_of_claim (se_tenant se) (se_claim se) r" "0 \<le> se_cost se"
  shows "sure (\<lambda>d. d = d0) (settle_live se r)
    (\<lambda>res. settled_row (se_tenant se) (se_claim se) (se_cost se))"
proof -
  let ?rs = "qd_reservations d0" and ?row = "settled_row (se_tenant se) (se_claim se) (se_cost se)"
  obtain fs where fs: "snapshotFinalizationPolicies r = Some fs"
    and policies: "list_all (\<lambda>f. is_policy d0 (rv_tenant r) (fp_policy f)) fs"
    using assms(1) by (auto simp: intact_def split: option.splits)
  let ?pids = "fp_policy ` set fs"
  have tenant: "rv_tenant r = se_tenant se" and claim: "rv_claim r = se_claim se" and r: "r \<in> set ?rs" "rv_live r" "0 \<le> rv_units r"
    using assms(1,2) by (simp_all add: rv_of_claim_def intact_def)
  have "list_all (final_ok ?pids) fs"
    using assms(1) snapshot_final_reserved [OF fs] by (auto simp: list_all_iff final_ok_def intact_def)
  note run = settle_windows_ready [OF this assms(3), of ?rs r 0 False]
  have "ready ?rs (rv_tenant r) ?pids d0"
    using assms(1) policies by (simp add: ready_def intact_def list_all_iff)
  then have "sure (\<lambda>d. d = d0) (settle_windows r (se_cost se) False fs 0) (\<lambda>overage d. qd_reservations d = ?rs \<and> 0 \<le> overage)"
    by (intro sure_weaken [OF run]) (simp_all add: ready_def)
  then have windows: "sure (\<lambda>d. d = d0) (applySettlementWindows r (se_cost se) False)
      (\<lambda>overage d. qd_reservations d = ?rs \<and> 0 \<le> overage)"
    by (simp add: applySettlementWindows_def finalizationPolicies_def fs sure_def qbind_def qreturn_def)
  have settle: "sure (\<lambda>d. qd_reservations d = ?rs) (db (settleReservation (se_tenant se) (rv_id r) (se_claim se) (se_cost se) (rv_units r) overage))
      (\<lambda>u. ?row)" if "0 \<le> overage" for overage
  proof (rule sure_db)
    fix now and d :: q_db
    assume d: "qd_reservations d = ?rs"
    let ?p = "\<lambda>v. rv_is (se_tenant se) (rv_id r) (se_claim se) v \<and> rv_live v"
    let ?f = "\<lambda>v. v\<lparr> rv_status := ReservationSettled, rv_settledCost := se_cost se, rv_settledUnits := rv_units r,
                rv_overageUnits := overage \<rparr>"
    have "?p r" using r tenant claim by (simp add: rv_is_def)
    then obtain v where "find ?p (qd_reservations d) = Some v" using find_exists [of r] r(1) d by metis
    moreover have "?f r \<in> set (map (\<lambda>v. if ?p v then ?f v else v) (qd_reservations d))"
      using \<open>?p r\<close> r(1) d by (auto simp: image_iff intro!: bexI [of _ r])
    moreover have "rv_of_claim (se_tenant se) (se_claim se) (?f r)" using tenant claim by (simp add: rv_of_claim_def)
    ultimately show "\<exists>x d'. settleReservation (se_tenant se) (rv_id r) (se_claim se) (se_cost se) (rv_units r) overage now d = (Inr x, d')
        \<and> ?row d'"
      using that assms(3) r(3)
      by (simp add: settleReservation_def update_reservations_def settled_row_def del: set_map)
        (metis (no_types, lifting) q_reservation.select_convs(10,12) q_reservation.surjective q_reservation.update_convs(10,12-14))
  qed
  have slots: "sure (\<lambda>d. qd_reservations d = ?rs \<and> 0 \<le> overage) (db (releaseSlots (se_tenant se) (rv_id r) why))
      (\<lambda>u d. qd_reservations d = ?rs \<and> 0 \<le> overage)" for overage :: rat and why
    by (rule sure_db) (simp add: releaseSlots_def Let_def)
  have settle': "sure (\<lambda>d. qd_reservations d = ?rs \<and> 0 \<le> overage)
      (db (settleReservation (se_tenant se) (rv_id r) (se_claim se) (se_cost se) (rv_units r) overage)) (\<lambda>u. ?row)" for overage
    using settle by (cases "0 \<le> overage") (simp_all add: sure_def)
  have audit: "sure ?row (insertQuotaFinalizationAudit a) (\<lambda>u. ?row)" for a
    by (rule sure_audit) (simp add: same_books_def settled_row_def)
  show ?thesis
    unfolding settle_live_def
    by (rule sure_bind [OF windows], rule sure_bind [OF slots], rule sure_bind [OF settle'], rule sure_bind [OF audit])
      (rule sure_return)
qed


definition demo_snap :: q_snap where
  "demo_snap = \<lparr> sn_id = 7, sn_scopeKind = ScopeGlobal, sn_scopeID = ''*'', sn_selector = modelSelectorAll,
     sn_metric = MetricRequests, sn_windowKind = WindowManual, sn_start = Some 5, sn_end = Some 500, sn_limit = 2,
     sn_mode = ModeEnforce, sn_reserved = Some 1, sn_manualComment = False \<rparr>"

definition demo_reservation :: q_reservation where
  "demo_reservation = \<lparr> rv_tenant = 1, rv_id = 5, rv_claim = 11, rv_fingerprint = ''f'', rv_model = ''m'',
     rv_scopes = [], rv_snapshot = Some [demo_snap], rv_predicted = 1, rv_units = 1, rv_status = ReservationReserved,
     rv_lease = 1000, rv_settledCost = 0, rv_settledUnits = 0, rv_overageUnits = 0, rv_releaseReason = None \<rparr>"


end
