(* ===== verification/Ledger_Text.thy ===== *)
theory Ledger_Text
  imports Prelude "HOL-Library.List_Lexorder" "HOL-Library.Char_ord" "HOL-Library.Multiset"
begin

text \<open>
  The bytes that the audit ledger signs (backend/internal/auditledger/canonical.go): JSON with sorted
  keys, strings as \<open>encoding/json\<close> writes them. The writer is a code in which every value ends where
  its text says: from the bytes the value can be told, up to the order of keys.
\<close>

section \<open>UTF-8\<close>

text \<open>
  The bytes of the first rune of a string, as \<open>utf8.DecodeRuneInString\<close> reads it; \<open>None\<close> for a byte
  that starts no valid rune. Such a byte is skipped alone.
\<close>

definition byte :: "char \<Rightarrow> nat" where
  "byte c = of_char c"

definition between :: "nat \<Rightarrow> nat \<Rightarrow> char \<Rightarrow> bool" where
  "between l u c \<longleftrightarrow> l \<le> byte c \<and> byte c \<le> u"

fun rune_len :: "string \<Rightarrow> nat option" where
  "rune_len [] = None"
| "rune_len (c # cs) =
     (let b = byte c
      in if b < 128 then Some 1
         else if 194 \<le> b \<and> b \<le> 223 then
           (case cs of c1 # _ \<Rightarrow> if between 128 191 c1 then Some 2 else None | _ \<Rightarrow> None)
         else if 224 \<le> b \<and> b \<le> 239 then
           (case cs of
              c1 # c2 # _ \<Rightarrow>
                if between (if b = 224 then 160 else 128) (if b = 237 then 159 else 191) c1 \<and> between 128 191 c2
                then Some 3 else None
            | _ \<Rightarrow> None)
         else if 240 \<le> b \<and> b \<le> 244 then
           (case cs of
              c1 # c2 # c3 # _ \<Rightarrow>
                if between (if b = 240 then 144 else 128) (if b = 244 then 143 else 191) c1 \<and>
                   between 128 191 c2 \<and> between 128 191 c3
                then Some 4 else None
            | _ \<Rightarrow> None)
         else None)"

lemma rune_len_bounds:
  assumes "rune_len s = Some n"
  shows "0 < n \<and> n \<le> length s"
  using assms by (cases s) (auto simp: Let_def split: if_splits list.splits)

text \<open>The runes of a string, each with a flag that tells whether it is valid.\<close>

function runes :: "string \<Rightarrow> (bool \<times> string) list" where
  "runes [] = []"
| "runes (c # cs) =
     (case rune_len (c # cs) of
        None \<Rightarrow> (False, [c]) # runes cs
      | Some n \<Rightarrow> (True, take n (c # cs)) # runes (drop n (c # cs)))"
  by pat_completeness auto
termination
  by (relation "measure length") (auto dest: rune_len_bounds simp del: rune_len.simps)

definition utf8_ok :: "string \<Rightarrow> bool" where
  "utf8_ok s \<longleftrightarrow> list_all fst (runes s)"

section \<open>Strings of JSON\<close>

definition quote_mark :: char where "quote_mark = CHR 0x22"
definition backslash :: char where "backslash = CHR 0x5C"

definition hex_digit :: "nat \<Rightarrow> char" where
  "hex_digit n = (if n < 10 then char_of (48 + n) else char_of (87 + n))"

definition esc_ascii :: "char \<Rightarrow> string" where
  "esc_ascii c =
     (if c = quote_mark \<or> c = backslash then [backslash, c]
      else if byte c = 8 then [backslash, CHR ''b'']
      else if byte c = 12 then [backslash, CHR ''f'']
      else if byte c = 10 then [backslash, CHR ''n'']
      else if byte c = 13 then [backslash, CHR ''r'']
      else if byte c = 9 then [backslash, CHR ''t'']
      else if byte c < 32 \<or> c = CHR ''<'' \<or> c = CHR ''>'' \<or> c = CHR 0x26
      then [backslash, CHR ''u'', CHR ''0'', CHR ''0'', hex_digit (byte c div 16), hex_digit (byte c mod 16)]
      else [c])"

definition line_separator :: string where "line_separator = bytes [226, 128, 168]"
definition paragraph_separator :: string where "paragraph_separator = bytes [226, 128, 169]"

definition esc_rune :: "string \<Rightarrow> string" where
  "esc_rune t =
     (if t = line_separator then backslash # ''u2028''
      else if t = paragraph_separator then backslash # ''u2029''
      else case t of [c] \<Rightarrow> esc_ascii c | _ \<Rightarrow> t)"

definition esc_string :: "string \<Rightarrow> string" where
  "esc_string s = concat (map (\<lambda>(ok, t). if ok then esc_rune t else backslash # ''ufffd'') (runes s))"

definition writeJSONString :: "string \<Rightarrow> string" where
  "writeJSONString s = quote_mark # esc_string s @ [quote_mark]"

text \<open>Reading an encoded string back replaces what is not valid by the replacement character.\<close>

definition replacement :: string where "replacement = bytes [239, 191, 189]"

definition to_valid :: "string \<Rightarrow> string" where
  "to_valid s = concat (map (\<lambda>(ok, t). if ok then t else replacement) (runes s))"

section \<open>Strings can be told from their text\<close>

fun unhex :: "char \<Rightarrow> nat" where
  "unhex c = (if byte c < 58 then byte c - 48 else byte c - 87)"

definition unesc :: "char \<Rightarrow> char" where
  "unesc e = (if e = CHR ''b'' then char_of (8 :: nat) else if e = CHR ''f'' then char_of (12 :: nat)
     else if e = CHR ''n'' then char_of (10 :: nat) else if e = CHR ''r'' then char_of (13 :: nat)
     else if e = CHR ''t'' then char_of (9 :: nat) else e)"

definition read_hex :: "string \<Rightarrow> string" where
  "read_hex hs = (if hs = ''2028'' then line_separator else if hs = ''2029'' then paragraph_separator
     else [char_of (16 * unhex (hs ! 2) + unhex (hs ! 3))])"

text \<open>The first rune that a text encodes and the rest of the text; \<open>None\<close> at the end of the string.\<close>

definition next_rune :: "string \<Rightarrow> (string \<times> string) option" where
  "next_rune text =
     (case text of
        [] \<Rightarrow> None
      | c # cs \<Rightarrow>
          if c = quote_mark then None
          else if c = backslash then
            (case cs of
               [] \<Rightarrow> None
             | e # r \<Rightarrow> if e = CHR ''u'' then Some (read_hex (take 4 r), drop 4 r) else Some ([unesc e], r))
          else (case rune_len text of None \<Rightarrow> None | Some n \<Rightarrow> Some (take n text, drop n text)))"

lemma rune_len_append:
  assumes "rune_len t = Some n"
  shows "rune_len (t @ r) = Some n"
  using assms by (cases t) (auto simp: Let_def split: if_splits list.splits)

lemma rune_len_take:
  assumes "rune_len s = Some n"
  shows "rune_len (take n s) = Some n"
  using assms by (cases s) (auto simp: Let_def split: if_splits list.splits)

lemma rune_single: "rune_len [c] = Some n \<Longrightarrow> byte c < 128 \<and> n = 1"
  by (auto simp: Let_def split: if_splits)

lemma rune_long: "rune_len (c # c' # cs) = Some n \<Longrightarrow> n \<noteq> 1 \<Longrightarrow> 128 \<le> byte c"
  by (auto simp: Let_def split: if_splits)

lemma byte_inverse: "char_of (byte c) = c"
  by (simp add: byte_def)

lemma byte_char_of: "n < 256 \<Longrightarrow> byte (char_of n) = n"
  by (simp add: byte_def)

lemma byte_inject: "byte c = byte d \<longleftrightarrow> c = d"
  by (metis byte_inverse)

lemma unhex_digit: "n < 16 \<Longrightarrow> unhex (hex_digit n) = n"
  by (auto simp: hex_digit_def byte_char_of)

lemma next_plain:
  assumes "c \<noteq> quote_mark" "c \<noteq> backslash" "rune_len (c # cs) = Some n"
  shows "next_rune (c # cs) = Some (take n (c # cs), drop n (c # cs))"
  using assms by (simp add: next_rune_def del: rune_len.simps)

lemma next_escape:
  "e \<noteq> CHR ''u'' \<Longrightarrow> next_rune (backslash # e # r) = Some ([unesc e], r)"
  "next_rune (backslash # CHR ''u'' # a # b # x # y # r) = Some (read_hex [a, b, x, y], r)"
  by (simp_all add: next_rune_def backslash_def quote_mark_def)

lemma ascii_read:
  assumes "byte c < 128"
  shows "next_rune (esc_ascii c @ r) = Some ([c], r)"
proof -
  consider "c = quote_mark \<or> c = backslash" | "byte c \<in> {8, 12, 10, 13, 9}"
    | "esc_ascii c = [backslash, CHR ''u'', CHR ''0'', CHR ''0'', hex_digit (byte c div 16), hex_digit (byte c mod 16)]"
    | "esc_ascii c = [c]" "c \<noteq> quote_mark" "c \<noteq> backslash"
  proof (cases "c = quote_mark \<or> c = backslash \<or> byte c \<in> {8, 12, 10, 13, 9}")
    case False
    then have "esc_ascii c = [backslash, CHR ''u'', CHR ''0'', CHR ''0'', hex_digit (byte c div 16), hex_digit (byte c mod 16)]
        \<or> esc_ascii c = [c]"
      by (simp add: esc_ascii_def)
    then show ?thesis using that(3,4) False by blast
  qed (use that(1,2) in blast)
  then show ?thesis
  proof cases
    case 1
    then show ?thesis by (auto simp: esc_ascii_def next_rune_def quote_mark_def backslash_def unesc_def)
  next
    case 2
    then have "c \<noteq> quote_mark" "c \<noteq> backslash" by (auto simp: quote_mark_def backslash_def byte_def)
    then show ?thesis using 2 byte_inverse [of c] by (auto simp: esc_ascii_def next_escape unesc_def)
  next
    case 3
    have "16 * unhex (hex_digit (byte c div 16)) + unhex (hex_digit (byte c mod 16)) = byte c"
      using assms by (simp add: unhex_digit del: unhex.simps)
    then have "read_hex [CHR ''0'', CHR ''0'', hex_digit (byte c div 16), hex_digit (byte c mod 16)] = [c]"
      by (simp add: read_hex_def byte_inverse del: unhex.simps)
    then show ?thesis by (simp add: 3 next_escape)
  next
    case 4
    have "rune_len (c # r) = Some 1" using assms by simp
    then show ?thesis using next_plain [of c r] 4 by simp
  qed
qed

lemma esc_rune_read:
  assumes "rune_len t = Some (length t)"
  shows "next_rune (esc_rune t @ r) = Some (t, r)"
proof -
  consider "t = line_separator \<or> t = paragraph_separator" | c where "t = [c]" | c d cs where "t = c # d # cs" "esc_rune t = t"
  proof (cases "t = line_separator \<or> t = paragraph_separator")
    case False
    obtain c cs where "t = c # cs" using assms by (cases t) auto
    then show ?thesis using that(2,3) False by (cases cs) (simp_all add: esc_rune_def)
  qed (rule that(1))
  then show ?thesis
  proof cases
    case 1
    then show ?thesis
      by (auto simp: esc_rune_def next_escape read_hex_def line_separator_def paragraph_separator_def bytes_def)
  next
    case (2 c)
    then have "byte c < 128" using rune_single assms by blast
    then show ?thesis using ascii_read 2
      by (simp add: esc_rune_def line_separator_def paragraph_separator_def bytes_def)
  next
    case (3 c d cs)
    then have "128 \<le> byte c" using rune_long assms by fastforce
    then have "c \<noteq> quote_mark" "c \<noteq> backslash" by (auto simp: quote_mark_def backslash_def byte_def)
    then show ?thesis using next_plain [of c "d # cs @ r"] rune_len_append [OF assms, of r] 3 by simp
  qed
qed

lemma esc_string_step:
  assumes "s \<noteq> []" "utf8_ok s"
  obtains t r where "s = t @ r" "utf8_ok r" "esc_string s = esc_rune t @ esc_string r" "rune_len t = Some (length t)" "t \<noteq> []"
proof -
  obtain c cs where s: "s = c # cs" using assms(1) by (cases s) auto
  obtain n where n: "rune_len s = Some n" using assms(2) s by (auto simp: utf8_ok_def simp del: rune_len.simps split: option.splits)
  note b = rune_len_bounds [OF n]
  show thesis
  proof (rule that [of "take n s" "drop n s"])
    show "utf8_ok (drop n s)" "esc_string s = esc_rune (take n s) @ esc_string (drop n s)"
      using assms(2) n by (simp_all add: s utf8_ok_def esc_string_def del: rune_len.simps)
    show "rune_len (take n s) = Some (length (take n s))" using rune_len_take [OF n] b by simp
    show "take n s \<noteq> []" using b s by auto
  qed simp
qed

text \<open>A string ends at its closing mark: what follows does not matter.\<close>

lemma esc_string_inj:
  "utf8_ok s \<Longrightarrow> utf8_ok s' \<Longrightarrow> esc_string s @ quote_mark # r = esc_string s' @ quote_mark # r' \<Longrightarrow> s = s' \<and> r = r'"
proof (induction s arbitrary: s' rule: length_induct)
  case (1 s)
  have stop: "next_rune (esc_string [] @ quote_mark # r) = None" for r
    by (simp add: esc_string_def next_rune_def)
  have go: "next_rune (esc_string x @ quote_mark # r) \<noteq> None" if "utf8_ok x" "x \<noteq> []" for x r
    using esc_rune_read esc_string_step [OF that(2,1)] by (metis append.assoc option.distinct(1))
  show ?case
  proof (cases "s = []")
    case True
    then have "s' = []" using go [OF 1(3)] stop 1(4) by metis
    then show ?thesis using 1(4) True by simp
  next
    case False
    then have "s' \<noteq> []" using go [OF 1(2)] stop 1(4) by metis
    obtain t u where t: "s = t @ u" "utf8_ok u" "esc_string s = esc_rune t @ esc_string u" "rune_len t = Some (length t)" "t \<noteq> []"
      using esc_string_step [OF False 1(2)] by metis
    obtain t' u' where t': "s' = t' @ u'" "utf8_ok u'" "esc_string s' = esc_rune t' @ esc_string u'" "rune_len t' = Some (length t')"
      using esc_string_step [OF \<open>s' \<noteq> []\<close> 1(3)] by metis
    have "Some (t, esc_string u @ quote_mark # r) = Some (t', esc_string u' @ quote_mark # r')"
      unfolding esc_rune_read [OF t(4), symmetric] esc_rune_read [OF t'(4), symmetric]
      using 1(4) [unfolded t(3) t'(3) append.assoc] by (rule arg_cong)
    then have eq: "t = t' \<and> esc_string u @ quote_mark # r = esc_string u' @ quote_mark # r'" by blast
    have "length u < length s" using t by simp
    note 1(1) [rule_format, OF this t(2) t'(2) conjunct2 [OF eq]]
    then show ?thesis using eq t(1) t'(1) by blast
  qed
qed

lemma writeJSONString_inj:
  "utf8_ok s \<Longrightarrow> utf8_ok s' \<Longrightarrow> writeJSONString s @ r = writeJSONString s' @ r' \<Longrightarrow> s = s' \<and> r = r'"
  using esc_string_inj [of s s' r r'] by (simp add: writeJSONString_def)

lemma to_valid_id: "utf8_ok s \<Longrightarrow> to_valid s = s"
proof (induction s rule: runes.induct)
  case (2 c cs)
  then show ?case
    by (auto simp: utf8_ok_def to_valid_def simp del: rune_len.simps split: option.splits)
qed (simp add: to_valid_def)

section \<open>Values of JSON\<close>

text \<open>
  What \<open>json.Decoder\<close> returns with \<open>UseNumber\<close>: numbers keep their text, and an object is a map, here its
  members in some order.
\<close>

datatype audit_json =
  ANull | ABool bool | AString string | ANumber string | AArray "audit_json list" | AObject "(string \<times> audit_json) list"

fun join_commas :: "string list \<Rightarrow> string" where
  "join_commas [] = []"
| "join_commas [x] = x"
| "join_commas (x # xs) = x @ CHR '','' # join_commas xs"

definition member_text :: "string \<times> string \<Rightarrow> string" where
  "member_text m = writeJSONString (fst m) @ CHR '':'' # snd m"

text \<open>\<open>writeCanonicalJSONValue\<close>, but for the check of numbers, which only decides whether there is a text.\<close>

fun emit :: "audit_json \<Rightarrow> string" where
  "emit ANull = ''null''"
| "emit (ABool b) = (if b then ''true'' else ''false'')"
| "emit (AString s) = writeJSONString s"
| "emit (ANumber t) = t"
| "emit (AArray vs) = CHR ''['' # join_commas (map emit vs) @ '']''"
| "emit (AObject ms) =
     CHR ''{'' # join_commas (map member_text (sort_key fst (map (\<lambda>(k, v). (k, emit v)) ms))) @ ''}''"

fun numbers_ok :: "(string \<Rightarrow> bool) \<Rightarrow> audit_json \<Rightarrow> bool" where
  "numbers_ok parses (ANumber t) = (t \<noteq> [] \<and> parses t)"
| "numbers_ok parses (AArray vs) = list_all (numbers_ok parses) vs"
| "numbers_ok parses (AObject ms) = list_all (\<lambda>(k, v). numbers_ok parses v) ms"
| "numbers_ok parses v = True"

definition writeCanonicalJSONValue :: "(string \<Rightarrow> bool) \<Rightarrow> audit_json \<Rightarrow> string option" where
  "writeCanonicalJSONValue parses v = (if numbers_ok parses v then Some (emit v) else None)"

section \<open>The text does not depend on the order of keys, and determines the value\<close>

fun canon :: "audit_json \<Rightarrow> audit_json" where
  "canon (AArray vs) = AArray (map canon vs)"
| "canon (AObject ms) = AObject (sort_key fst (map (\<lambda>(k, v). (k, canon v)) ms))"
| "canon v = v"

text \<open>The text of a value whose members are in order.\<close>

fun text_of :: "audit_json \<Rightarrow> string" where
  "text_of (AArray vs) = CHR ''['' # join_commas (map text_of vs) @ '']''"
| "text_of (AObject ms) = CHR ''{'' # join_commas (map (\<lambda>(k, v). member_text (k, text_of v)) ms) @ ''}''"
| "text_of v = emit v"

lemma insort_map_value:
  "insort_key fst (k, g v) (map (\<lambda>(k, v). (k, g v)) xs) = map (\<lambda>(k, v). (k, g v)) (insort_key fst (k, v) xs)"
  by (induction xs) auto

lemma sort_map_value:
  "sort_key fst (map (\<lambda>(k, v). (k, g v)) xs) = map (\<lambda>(k, v). (k, g v)) (sort_key fst xs)"
  by (induction xs) (auto simp: insort_map_value)

lemma emit_canon: "emit v = text_of (canon v)"
proof (induction v)
  case (AArray vs)
  then have "map emit vs = map (\<lambda>v. text_of (canon v)) vs" by simp
  then show ?case by (simp only: emit.simps canon.simps text_of.simps map_map comp_def)
next
  case (AObject ms)
  then have "map (\<lambda>(k, v). (k, emit v)) ms = map (\<lambda>(k, v). (k, text_of (canon v))) ms" by force
  also have "\<dots> = map (\<lambda>(k, v). (k, text_of v)) (map (\<lambda>(k, v). (k, canon v)) ms)" by (simp add: case_prod_unfold)
  finally have "sort_key fst (map (\<lambda>(k, v). (k, emit v)) ms) =
      map (\<lambda>(k, v). (k, text_of v)) (sort_key fst (map (\<lambda>(k, v). (k, canon v)) ms))"
    by (simp only: sort_map_value)
  then show ?case by (simp add: comp_def case_prod_unfold)
qed simp_all

lemma emit_order_free:
  assumes "mset ms = mset ms'" "distinct (map fst ms)"
  shows "emit (AObject ms) = emit (AObject ms')"
proof -
  let ?f = "map (\<lambda>(k, v). (k, emit v))"
  have "mset (?f ms) = mset (?f ms')" using assms(1) by simp
  moreover have "inj_on fst (set (?f ms))"
    using assms(2) by (auto simp: inj_on_def distinct_map) (metis fst_conv prod.inject)
  ultimately have "sort_key fst (?f ms) = sort_key fst (?f ms')"
    by (intro sort_key_inj_key_eq) simp_all
  then show ?thesis by simp
qed

definition number_char :: "char \<Rightarrow> bool" where
  "number_char c \<longleftrightarrow> is_digit c \<or> c \<in> {CHR ''+'', CHR ''-'', CHR ''.'', CHR ''e'', CHR ''E''}"

fun json_ok :: "audit_json \<Rightarrow> bool" where
  "json_ok (AString s) = utf8_ok s"
| "json_ok (ANumber t) = (t \<noteq> [] \<and> list_all number_char t)"
| "json_ok (AArray vs) = list_all json_ok vs"
| "json_ok (AObject ms) = list_all (\<lambda>(k, v). utf8_ok k \<and> json_ok v) ms"
| "json_ok v = True"

definition stops :: "string \<Rightarrow> bool" where
  "stops r \<longleftrightarrow> r = [] \<or> \<not> number_char (hd r)"

text \<open>A code whose texts end by themselves before what stops a number.\<close>

definition delimited :: "'a set \<Rightarrow> 'a set \<Rightarrow> ('a \<Rightarrow> string) \<Rightarrow> bool" where
  "delimited A B f \<longleftrightarrow> (\<forall>x \<in> A \<union> B. f x \<noteq> [] \<and> hd (f x) \<notin> {CHR '','', CHR '']'', CHR ''}''}) \<and>
     (\<forall>x \<in> A. \<forall>y \<in> B. \<forall>r r'. stops r \<longrightarrow> stops r' \<longrightarrow> f x @ r = f y @ r' \<longrightarrow> x = y \<and> r = r')"

lemma delimitedD:
  "delimited A B f \<Longrightarrow> x \<in> A \<Longrightarrow> y \<in> B \<Longrightarrow> stops r \<Longrightarrow> stops r' \<Longrightarrow> f x @ r = f y @ r' \<Longrightarrow> x = y \<and> r = r'"
  unfolding delimited_def by blast

lemma stops_punctuation: "c \<in> {CHR '','', CHR '']'', CHR ''}'', CHR '':'', quote_mark} \<Longrightarrow> stops (c # r)"
  by (auto simp: stops_def number_char_def is_digit_def quote_mark_def)

lemma join_step: "join_commas (x # xs) = x @ (if xs = [] then [] else CHR '','' # join_commas xs)"
  by (cases xs) simp_all

text \<open>A list between brackets can be read back.\<close>

lemma join_inj:
  assumes d: "delimited A B f" and c: "c \<in> {CHR '']'', CHR ''}''}"
  shows "set xs \<subseteq> A \<Longrightarrow> set ys \<subseteq> B \<Longrightarrow> join_commas (map f xs) @ c # r = join_commas (map f ys) @ c # r' \<Longrightarrow> xs = ys \<and> r = r'"
proof (induction xs arbitrary: ys)
  case Nil
  have "ys = []"
  proof (rule ccontr)
    assume "ys \<noteq> []"
    then obtain y zs where ys: "ys = y # zs" by (cases ys) auto
    then have "f y \<noteq> []" "hd (f y) \<noteq> c" using d c Nil.prems(2) unfolding delimited_def by auto
    moreover have "hd (c # r) = hd (join_commas (map f ys) @ c # r')" using Nil.prems(3) by simp
    ultimately show False by (simp add: ys join_step del: join_commas.simps)
  qed
  then show ?case using Nil.prems(3) by simp
next
  case (Cons x xs)
  obtain y zs where ys: "ys = y # zs"
  proof (cases ys)
    case Nil
    then have "f x \<noteq> []" "hd (f x) \<noteq> c" using d c Cons.prems(1) unfolding delimited_def by auto
    moreover have "hd (c # r') = hd (join_commas (map f (x # xs)) @ c # r)" using Cons.prems(3) Nil by simp
    ultimately show ?thesis by (simp add: join_step del: join_commas.simps)
  qed
  let ?tail = "\<lambda>zs r. (if zs = [] then [] else CHR '','' # join_commas (map f zs)) @ c # r"
  have stop: "stops (?tail zs r)" for zs r
    using c by (cases "zs = []") (auto intro: stops_punctuation)
  have "f x @ ?tail xs r = f y @ ?tail zs r'"
    using Cons.prems(3) by (simp add: ys join_step del: join_commas.simps)
  from delimitedD [OF d _ _ stop stop this] have xy: "x = y" and rest: "?tail xs r = ?tail zs r'"
    using Cons.prems(1,2) ys by auto
  show ?case
  proof (cases "xs = [] \<or> zs = []")
    case True
    then show ?thesis using rest c xy ys by (cases "xs = []"; cases "zs = []") auto
  next
    case False
    then have "join_commas (map f xs) @ c # r = join_commas (map f zs) @ c # r'" using rest by simp
    from Cons.IH [OF _ _ this] show ?thesis using Cons.prems(1,2) xy ys by auto
  qed
qed

lemma number_inj:
  assumes "list_all number_char t" "list_all number_char t'" "stops r" "stops r'" "t @ r = t' @ r'"
  shows "t = t' \<and> r = r'"
  using assms
proof (induction t arbitrary: t')
  case Nil
  then show ?case by (cases t') (auto simp: stops_def)
next
  case (Cons c t)
  then show ?case by (cases t') (auto simp: stops_def)
qed

fun text_head :: "audit_json \<Rightarrow> char" where
  "text_head ANull = CHR ''n''"
| "text_head (ABool b) = (if b then CHR ''t'' else CHR ''f'')"
| "text_head (AString s) = quote_mark"
| "text_head (ANumber t) = hd t"
| "text_head (AArray vs) = CHR ''[''"
| "text_head (AObject ms) = CHR ''{''"

lemma text_starts: "json_ok v \<Longrightarrow> text_of v \<noteq> [] \<and> hd (text_of v) = text_head v"
  by (cases v) (auto simp: writeJSONString_def)

lemma number_head: "json_ok (ANumber t) \<Longrightarrow> number_char (hd t)"
  by (cases t) auto

definition punctuation :: "char set" where
  "punctuation = {CHR '','', CHR '']'', CHR ''}'', CHR ''n'', CHR ''t'', CHR ''f'', CHR ''['', CHR ''{'', quote_mark}"

lemma number_not_punctuation: "c \<in> punctuation \<Longrightarrow> \<not> number_char c"
  by (auto simp: punctuation_def number_char_def is_digit_def quote_mark_def)

lemma number_text_head: "json_ok (ANumber t) \<Longrightarrow> hd t \<notin> punctuation"
  using number_head number_not_punctuation by blast

lemma text_delimited_head:
  assumes "json_ok v"
  shows "text_of v \<noteq> [] \<and> hd (text_of v) \<notin> {CHR '','', CHR '']'', CHR ''}''}"
proof -
  have "text_head v \<notin> {CHR '','', CHR '']'', CHR ''}''}"
  proof (cases v)
    case (ANumber t)
    then show ?thesis using number_text_head [of t] assms by (auto simp: punctuation_def)
  qed (auto simp: quote_mark_def)
  then show ?thesis using text_starts [OF assms] by simp
qed

fun constructor :: "audit_json \<Rightarrow> nat" where
  "constructor ANull = 0"
| "constructor (ABool b) = (if b then 1 else 2)"
| "constructor (AString s) = 3"
| "constructor (ANumber t) = 4"
| "constructor (AArray vs) = 5"
| "constructor (AObject ms) = 6"

definition head_number :: "char \<Rightarrow> nat" where
  "head_number c = (if c = CHR ''n'' then 0 else if c = CHR ''t'' then 1 else if c = CHR ''f'' then 2 else if c = quote_mark then 3
     else if c = CHR ''['' then 5 else if c = CHR ''{'' then 6 else 4)"

lemma head_constructor: "json_ok v \<Longrightarrow> constructor v = head_number (text_head v)"
proof (cases v)
  case (ANumber t)
  moreover assume "json_ok v"
  ultimately show ?thesis using number_text_head [of t] by (auto simp: punctuation_def head_number_def)
qed (auto simp: head_number_def quote_mark_def)

lemma same_head:
  assumes "json_ok v" "json_ok v'" "text_of v @ r = text_of v' @ r'"
  shows "text_head v = text_head v'"
  using text_starts [OF assms(1)] text_starts [OF assms(2)] assms(3) by (metis hd_append2)

lemma same_constructor:
  assumes "json_ok v" "json_ok v'" "text_of v @ r = text_of v' @ r'"
  shows "constructor v' = constructor v"
  using same_head [OF assms] head_constructor assms(1,2) by simp

lemma text_inj:
  "json_ok v \<Longrightarrow> json_ok v' \<Longrightarrow> stops r \<Longrightarrow> stops r' \<Longrightarrow> text_of v @ r = text_of v' @ r' \<Longrightarrow> v = v' \<and> r = r'"
proof (induction v arbitrary: v' r r')
  case (AString s)
  obtain s' where "v' = AString s'" using same_constructor [OF AString.prems(1,2,5)] by (cases v') (auto split: if_splits)
  then show ?case using AString.prems writeJSONString_inj [of s s' r r'] by simp
next
  case (ANumber t)
  obtain t' where "v' = ANumber t'" using same_constructor [OF ANumber.prems(1,2,5)] by (cases v') (auto split: if_splits)
  then show ?case using ANumber.prems number_inj [of t t' r r'] by simp
next
  case (AArray vs)
  obtain vs' where v': "v' = AArray vs'" using same_constructor [OF AArray.prems(1,2,5)] by (cases v') (auto split: if_splits)
  have "delimited (set vs) (set vs') text_of"
    unfolding delimited_def
  proof (intro conjI ballI allI impI)
    show "text_of v \<noteq> []" "hd (text_of v) \<notin> {CHR '','', CHR '']'', CHR ''}''}" if "v \<in> set vs \<union> set vs'" for v
      using that AArray.prems(1,2) v' text_delimited_head [of v] by (auto simp: list_all_iff)
    fix x y r r'
    assume "x \<in> set vs" "y \<in> set vs'" "stops r" "stops r'" "text_of x @ r = text_of y @ r'"
    then show "x = y" "r = r'" using AArray.IH [of x y r r'] AArray.prems(1,2) v' by (auto simp: list_all_iff)
  qed
  from join_inj [OF this, of "CHR '']''" vs vs' r r'] show ?case using AArray.prems(5) v' by simp
next
  case (AObject ms)
  let ?f = "\<lambda>(k, v). member_text (k, text_of v)"
  obtain ms' where v': "v' = AObject ms'" using same_constructor [OF AObject.prems(1,2,5)] by (cases v') (auto split: if_splits)
  have "delimited (set ms) (set ms') ?f"
    unfolding delimited_def
  proof (intro conjI ballI allI impI)
    show "?f m \<noteq> []" "hd (?f m) \<notin> {CHR '','', CHR '']'', CHR ''}''}" for m
      by (cases m; simp add: member_text_def writeJSONString_def quote_mark_def)+
    fix x y r r'
    assume xy: "x \<in> set ms" "y \<in> set ms'" "stops r" "stops r'" "?f x @ r = ?f y @ r'"
    obtain k v where x: "x = (k, v)" by (cases x)
    obtain k' w where y: "y = (k', w)" by (cases y)
    have ok: "utf8_ok k" "json_ok v" "utf8_ok k'" "json_ok w"
      using AObject.prems(1,2) xy(1,2) v' x y by (auto simp: list_all_iff)
    have "writeJSONString k @ CHR '':'' # text_of v @ r = writeJSONString k' @ CHR '':'' # text_of w @ r'"
      using xy(5) by (simp add: x y member_text_def)
    from writeJSONString_inj [OF ok(1,3) this] have "k = k'" "text_of v @ r = text_of w @ r'" by simp_all
    moreover have "v = w \<and> r = r'"
      by (rule AObject.IH [of x v w r r']) (use xy x ok calculation in auto)
    ultimately show "x = y" "r = r'" using x y by simp_all
  qed
  from join_inj [OF this, of "CHR ''}''" ms ms' r r'] show ?case using AObject.prems(5) v' by simp
next
  case ANull
  then have "v' = ANull" using same_constructor [OF ANull.prems(1,2,5)] by (cases v') (auto split: if_splits)
  then show ?case using ANull by simp
next
  case (ABool b)
  then have "v' = ABool b" using same_constructor [OF ABool.prems(1,2,5)] by (cases v') (auto split: if_splits)
  then show ?case using ABool by (cases b) simp_all
qed

section \<open>The text is canonical\<close>

text \<open>Two values are the same when they differ only in the order of the members of objects.\<close>

inductive same_value :: "audit_json \<Rightarrow> audit_json \<Rightarrow> bool" where
  same_null: "same_value ANull ANull"
| same_bool: "same_value (ABool b) (ABool b)"
| same_string: "same_value (AString t) (AString t)"
| same_number: "same_value (ANumber t) (ANumber t)"
| same_array: "list_all2 same_value vs ws \<Longrightarrow> same_value (AArray vs) (AArray ws)"
| same_object: "mset ns = mset ms \<Longrightarrow> list_all2 (rel_prod (=) same_value) ns ws \<Longrightarrow> same_value (AObject ms) (AObject ws)"

fun unique_keys :: "audit_json \<Rightarrow> bool" where
  "unique_keys (AArray vs) = list_all unique_keys vs"
| "unique_keys (AObject ms) = (distinct (map fst ms) \<and> list_all (\<lambda>(k, v). unique_keys v) ms)"
| "unique_keys v = True"

lemma json_ok_canon: "json_ok v \<Longrightarrow> json_ok (canon v)"
  by (induction v) (auto simp: list_all_iff)

lemma sort_by_key_perm:
  assumes "mset xs = mset ys" "distinct (map fst xs)"
  shows "sort_key fst xs = sort_key fst ys"
proof -
  have "inj_on fst (set xs)" using assms(2) by (simp add: distinct_map)
  then show ?thesis using assms(1) by (intro sort_key_inj_key_eq) simp_all
qed

lemma same_canon: "same_value v w \<Longrightarrow> unique_keys v \<Longrightarrow> canon v = canon w"
proof (induction rule: same_value.induct)
  case (same_array vs ws)
  then have "list_all2 (\<lambda>v w. canon v = canon w) vs ws"
    by (auto simp: list_all2_conv_all_nth list_all_iff)
  then show ?case by (simp add: list_all2_conv_all_nth list_eq_iff_nth_eq)
next
  case (same_object ns ms ws)
  let ?f = "map (\<lambda>(k, v). (k, canon v))"
  have "\<forall>m \<in> set ns. unique_keys (snd m)" using same_object mset_eq_setD [OF same_object.hyps(1)] by (force simp: list_all_iff)
  then have "list_all2 (\<lambda>m w. fst m = fst w \<and> canon (snd m) = canon (snd w)) ns ws"
    using same_object(2) by (auto simp: list_all2_conv_all_nth rel_prod_sel)
  then have "?f ns = ?f ws" by (simp add: list_all2_conv_all_nth list_eq_iff_nth_eq case_prod_unfold)
  moreover have "mset (?f ms) = mset (?f ns)" using same_object.hyps(1) by simp
  moreover have "distinct (map fst (?f ms))" using same_object.prems by (simp add: comp_def case_prod_unfold)
  ultimately show ?case using sort_by_key_perm [of "?f ms" "?f ns"] by simp
qed auto

lemma permute_image:
  "mset (map f xs) = mset (map g ys) \<Longrightarrow> \<exists>zs. mset zs = mset xs \<and> map f zs = map g ys"
proof (induction ys arbitrary: xs)
  case (Cons y ys)
  then have "g y \<in> f ` set xs" by (metis list.set_intros(1) list.set_map list.simps(9) mset_eq_setD)
  then obtain x where x: "x \<in> set xs" "f x = g y" by auto
  then have "mset (map f (remove1 x xs)) = mset (map g ys)"
    using Cons.prems by (simp add: image_mset_Diff)
  from Cons.IH [OF this] obtain zs where "mset zs = mset (remove1 x xs)" "map f zs = map g ys" by blast
  then show ?case using x by (intro exI [of _ "x # zs"]) simp
qed simp

lemma canon_same: "canon v = canon w \<Longrightarrow> same_value v w"
proof (induction v arbitrary: w)
  case (AArray vs)
  obtain ws where w: "w = AArray ws" using AArray.prems by (cases w) auto
  then have "map canon vs = map canon ws" using AArray.prems by simp
  then have "list_all2 same_value vs ws"
    using AArray.IH by (auto simp: list_all2_conv_all_nth list_eq_iff_nth_eq)
  then show ?case using w by (simp add: same_array)
next
  case (AObject ms)
  let ?f = "\<lambda>(k, v). (k, canon v)"
  obtain ws where w: "w = AObject ws" using AObject.prems by (cases w) auto
  then have "sort_key fst (map ?f ms) = sort_key fst (map ?f ws)" using AObject.prems by simp
  from arg_cong [OF this, of mset] have "mset (map ?f ms) = mset (map ?f ws)" by (simp only: mset_sort)
  then obtain ns where ns: "mset ns = mset ms" "map ?f ns = map ?f ws" using permute_image by blast
  have len: "length ns = length ws" using arg_cong [OF ns(2), of length] by simp
  have "rel_prod (=) same_value (ns ! i) (ws ! i)" if i: "i < length ns" for i
  proof -
    obtain k v where kv: "ns ! i = (k, v)" by (cases "ns ! i")
    obtain k' u where ku: "ws ! i = (k', u)" by (cases "ws ! i")
    have "map ?f ns ! i = map ?f ws ! i" by (simp only: ns(2))
    then have "k = k'" "canon v = canon u" using i len by (simp_all add: kv ku)
    moreover have "(k, v) \<in> set ms" using i ns(1) kv by (metis mset_eq_setD nth_mem)
    then have "same_value v u" by (rule AObject.IH) (simp_all add: \<open>canon v = canon u\<close>)
    ultimately show ?thesis by (simp add: kv ku)
  qed
  then have "list_all2 (rel_prod (=) same_value) ns ws" using len by (simp add: list_all2_conv_all_nth)
  then show ?case using ns(1) w by (simp add: same_object)
next
  case ANull
  then show ?case by (cases w) (simp_all add: same_null)
next
  case (ABool b)
  then show ?case by (cases w) (simp_all add: same_bool)
next
  case (AString t)
  then show ?case by (cases w) (simp_all add: same_string)
next
  case (ANumber t)
  then show ?case by (cases w) (simp_all add: same_number)
qed

lemma stops_Nil: "stops []"
  by (simp add: stops_def)

text \<open>
  C21. The bytes that are signed for a JSON value are canonical. Two values have the same bytes exactly
  when they are the same up to the order in which objects list their members.
\<close>

theorem canonical_text_exact:
  assumes "json_ok v" "json_ok w" "unique_keys v"
  shows "emit v = emit w \<longleftrightarrow> same_value v w"
proof
  assume "emit v = emit w"
  then have "canon v = canon w"
    using text_inj [OF json_ok_canon json_ok_canon stops_Nil stops_Nil, of v w] assms(1,2) by (simp add: emit_canon)
  then show "same_value v w" by (rule canon_same)
next
  assume "same_value v w"
  then show "emit v = emit w" using same_canon assms(3) by (simp add: emit_canon)
qed

theorem canonical_text_exact_witness:
  "emit (AObject [(''b'', ANull), (''a'', ABool True)]) = emit (AObject [(''a'', ABool True), (''b'', ANull)])"
proof -
  let ?v = "AObject [(''b'', ANull), (''a'', ABool True)]" and ?w = "AObject [(''a'', ABool True), (''b'', ANull)]"
  have "same_value ?v ?w"
    by (rule same_object [where ns = "[(''a'', ABool True), (''b'', ANull)]"]) (auto intro: same_value.intros)
  moreover have "json_ok ?v" "json_ok ?w" "unique_keys ?v" by (simp_all add: utf8_ok_def byte_def)
  ultimately show ?thesis using canonical_text_exact [of ?v ?w] by blast
qed

end
