(* ===== verification/Ledger_Chain.thy ===== *)
theory Ledger_Chain
  imports Ledger_Text
begin

text \<open>
  The audit ledger as a chain of hashes (backend/internal/auditledger/types.go, canonical.go, merkle.go):
  the entries, the bytes that are hashed and signed for an entry, and the check of a chain. Each tenant
  has a chain of its own in the one list.
\<close>

section \<open>Entries\<close>

text \<open>The detail of a hop is raw JSON, here the value it parses to, if any.\<close>

datatype raw_json = RawMissing | RawMalformed | RawValue audit_json

record hop =
  ha_schema :: string
  ha_index :: int
  ha_kind :: string
  ha_actor :: string
  ha_started :: string
  ha_ended :: string
  ha_decision :: string
  ha_features :: "string list"
  ha_alt :: string
  ha_hop :: string
  ha_time :: string
  ha_request :: string
  ha_account :: string
  ha_pool :: string
  ha_route :: string
  ha_provider :: string
  ha_endpoint :: string
  ha_duration :: int
  ha_detail :: raw_json

record model_chain =
  mc_requested :: string
  mc_routed :: string
  mc_reported :: string
  mc_verdict :: string

record ledger_entry =
  ae_id :: string
  ae_time :: string
  ae_request :: string
  ae_tenant :: int
  ae_scope :: string
  ae_hops :: "hop list"
  ae_model :: "model_chain option"
  ae_prev :: string
  ae_root :: string
  ae_fingerprint :: string
  ae_signature :: string

text \<open>
  What the library provides: SHA-256, the numbers \<open>strconv.ParseFloat\<close> accepts, and the reading and the
  writing of RFC 3339 times.
\<close>

record ledger_env =
  en_sha :: "string \<Rightarrow> string"
  en_float :: "string \<Rightarrow> bool"
  en_parse :: "string \<Rightarrow> instant option"
  en_format :: "instant \<Rightarrow> string"

section \<open>The bytes of an entry\<close>

definition opt_text :: "string \<Rightarrow> audit_json option" where
  "opt_text s = (if s = [] then None else Some (AString (to_valid s)))"

definition opt_int :: "int \<Rightarrow> audit_json option" where
  "opt_int n = (if n = 0 then None else Some (ANumber (int_string n)))"

definition opt_texts :: "string list \<Rightarrow> audit_json option" where
  "opt_texts ss = (if ss = [] then None else Some (AArray (map (\<lambda>s. AString (to_valid s)) ss)))"

definition raw_value :: "raw_json \<Rightarrow> audit_json option" where
  "raw_value r = (case r of RawValue v \<Rightarrow> Some v | _ \<Rightarrow> None)"

definition hop_fields :: "hop \<Rightarrow> (string \<times> audit_json option) list" where
  "hop_fields h =
     [(''schema_version'', opt_text (ha_schema h)), (''hop_index'', opt_int (ha_index h)),
      (''hop_kind'', opt_text (ha_kind h)), (''actor'', opt_text (ha_actor h)),
      (''started_at'', opt_text (ha_started h)), (''ended_at'', opt_text (ha_ended h)),
      (''decision_ref'', opt_text (ha_decision h)), (''feature_refs'', opt_texts (ha_features h)),
      (''alt_event_id'', opt_text (ha_alt h)), (''hop'', opt_text (ha_hop h)), (''ts'', opt_text (ha_time h)),
      (''request_id'', opt_text (ha_request h)), (''account_id_hash'', opt_text (ha_account h)),
      (''pool_id'', opt_text (ha_pool h)), (''route_id'', opt_text (ha_route h)),
      (''provider'', opt_text (ha_provider h)), (''endpoint'', opt_text (ha_endpoint h)),
      (''duration_ms'', opt_int (ha_duration h)), (''detail'', raw_value (ha_detail h))]"

definition model_fields :: "model_chain \<Rightarrow> (string \<times> audit_json option) list" where
  "model_fields m =
     [(''requested'', Some (AString (to_valid (mc_requested m)))), (''route_decided'', Some (AString (to_valid (mc_routed m)))),
      (''upstream_reported'', opt_text (mc_reported m)), (''verdict'', opt_text (mc_verdict m))]"

definition object_of :: "(string \<times> audit_json option) list \<Rightarrow> audit_json" where
  "object_of fs = AObject (concat (map (\<lambda>(k, v). case v of None \<Rightarrow> [] | Some x \<Rightarrow> [(k, x)]) fs))"

definition hops_json :: "hop list \<Rightarrow> audit_json" where
  "hops_json hs = AArray (map (\<lambda>h. object_of (hop_fields h)) hs)"

definition model_json :: "model_chain option \<Rightarrow> audit_json" where
  "model_json m = (case m of None \<Rightarrow> ANull | Some x \<Rightarrow> object_of (model_fields x))"

definition canonical_hops :: "ledger_env \<Rightarrow> hop list \<Rightarrow> string option" where
  "canonical_hops E hs =
     (if list_ex (\<lambda>h. ha_detail h = RawMalformed) hs then None
      else writeCanonicalJSONValue (en_float E) (hops_json hs))"

definition hex_string :: "string \<Rightarrow> string" where
  "hex_string s = concat (map (\<lambda>c. [hex_digit (byte c div 16), hex_digit (byte c mod 16)]) s)"

definition TenantScopeRef :: "ledger_env \<Rightarrow> int \<Rightarrow> string" where
  "TenantScopeRef E tenant =
     (if tenant = 0 then []
      else ''tenant:'' @ hex_string (take 8 (en_sha E (''huakai-ledger-tenant-scope-v1:'' @ int_string tenant))))"

definition canonicalTimestamp :: "ledger_env \<Rightarrow> string \<Rightarrow> string" where
  "canonicalTimestamp E ts =
     (if ts = [] then [] else case en_parse E ts of None \<Rightarrow> ts | Some t \<Rightarrow> en_format E t)"

definition writeRawJSONField :: "string \<Rightarrow> string \<Rightarrow> bool \<Rightarrow> string" where
  "writeRawJSONField key raw is_first = (if is_first then [] else '','') @ writeJSONString key @ '':'' @ raw"

definition writeJSONField :: "string \<Rightarrow> string \<Rightarrow> bool \<Rightarrow> string" where
  "writeJSONField key value is_first = writeRawJSONField key (writeJSONString value) is_first"

definition scope_ref :: "ledger_env \<Rightarrow> ledger_entry \<Rightarrow> string" where
  "scope_ref E e = (if ae_scope e = [] then TenantScopeRef E (ae_tenant e) else ae_scope e)"

definition canonicalPayload :: "ledger_env \<Rightarrow> ledger_entry \<Rightarrow> string option" where
  "canonicalPayload E e =
     (case canonical_hops E (ae_hops e) of
        None \<Rightarrow> None
      | Some hops \<Rightarrow>
          (case writeCanonicalJSONValue (en_float E) (model_json (ae_model e)) of
             None \<Rightarrow> None
           | Some model \<Rightarrow> Some
               (''{'' @ writeJSONField ''schema_version'' ''trust.ledger.v1'' True @
                writeJSONField ''ledger_id'' (ae_id e) False @
                writeJSONField ''occurred_at'' (canonicalTimestamp E (ae_time e)) False @
                writeJSONField ''request_id'' (ae_request e) False @
                writeJSONField ''tenant_scope_ref'' (scope_ref E e) False @
                writeRawJSONField ''hop_chain'' hops False @
                writeRawJSONField ''model_chain'' model False @
                writeJSONField ''prev_merkle_root'' (hex_string (ae_prev e)) False @
                writeJSONField ''pubkey_fingerprint'' (ae_fingerprint e) False @ ''}'')))"

section \<open>The chain\<close>

definition ZeroRoot :: string where
  "ZeroRoot = replicate 32 (char_of (0 :: nat))"

definition EntryHash :: "ledger_env \<Rightarrow> ledger_entry \<Rightarrow> string option" where
  "EntryHash E e = map_option (en_sha E) (canonicalPayload E e)"

definition NextMerkleRoot :: "ledger_env \<Rightarrow> string \<Rightarrow> string \<Rightarrow> string" where
  "NextMerkleRoot E prev entryHash = en_sha E (prev @ entryHash)"

datatype chain_reason = PrevRootMismatch | HashComputeFailed | RootMismatch

text \<open>The first bad entry with its reason; the roots reached so far start at the zero root.\<close>

fun verify_from :: "ledger_env \<Rightarrow> nat \<Rightarrow> (int \<Rightarrow> string) \<Rightarrow> ledger_entry list \<Rightarrow> (nat \<times> chain_reason) option" where
  "verify_from E i roots [] = None"
| "verify_from E i roots (e # es) =
     (let prev = roots (ae_tenant e)
      in if ae_prev e \<noteq> prev then Some (i, PrevRootMismatch)
         else case EntryHash E e of
                None \<Rightarrow> Some (i, HashComputeFailed)
              | Some h \<Rightarrow>
                  if ae_root e \<noteq> NextMerkleRoot E prev h then Some (i, RootMismatch)
                  else verify_from E (Suc i) (roots(ae_tenant e := ae_root e)) es)"

definition VerifyChain :: "ledger_env \<Rightarrow> ledger_entry list \<Rightarrow> (nat \<times> chain_reason) option" where
  "VerifyChain E es = verify_from E 0 (\<lambda>t. ZeroRoot) es"

section \<open>The chains of the tenants\<close>

fun chain_ok :: "ledger_env \<Rightarrow> string \<Rightarrow> ledger_entry list \<Rightarrow> bool" where
  "chain_ok E prev [] = True"
| "chain_ok E prev (e # es) =
     (ae_prev e = prev \<and>
      (case EntryHash E e of None \<Rightarrow> False | Some h \<Rightarrow> ae_root e = NextMerkleRoot E prev h \<and> chain_ok E (ae_root e) es))"

definition of_tenant :: "int \<Rightarrow> ledger_entry list \<Rightarrow> ledger_entry list" where
  "of_tenant t es = filter (\<lambda>e. ae_tenant e = t) es"

lemma of_tenant_simps [simp]:
  "of_tenant t [] = []"
  "of_tenant t (e # es) = (if ae_tenant e = t then e # of_tenant t es else of_tenant t es)"
  "of_tenant t (xs @ ys) = of_tenant t xs @ of_tenant t ys"
  by (simp_all add: of_tenant_def)

lemma verify_from_chains: "verify_from E i roots es = None \<longleftrightarrow> (\<forall>t. chain_ok E (roots t) (of_tenant t es))"
proof (induction es arbitrary: i roots)
  case (Cons e es)
  show ?case
  proof (cases "chain_ok E (roots (ae_tenant e)) [e]")
    case True
    then have "verify_from E i roots (e # es) = verify_from E (Suc i) (roots(ae_tenant e := ae_root e)) es"
      by (simp add: Let_def split: option.splits)
    also have "(\<dots> = None) \<longleftrightarrow> (\<forall>t. chain_ok E ((roots(ae_tenant e := ae_root e)) t) (of_tenant t es))" by (rule Cons.IH)
    also have "\<dots> \<longleftrightarrow> (\<forall>t. chain_ok E (roots t) (of_tenant t (e # es)))"
      using True by (intro all_cong1) (auto split: option.splits)
    finally show ?thesis .
  next
    case False
    then have "\<not> chain_ok E (roots (ae_tenant e)) (of_tenant (ae_tenant e) (e # es))" by (auto split: option.splits)
    moreover have "verify_from E i roots (e # es) \<noteq> None" using False by (auto simp: Let_def split: option.splits)
    ultimately show ?thesis by blast
  qed
qed simp

lemma VerifyChain_chains: "VerifyChain E es = None \<longleftrightarrow> (\<forall>t. chain_ok E ZeroRoot (of_tenant t es))"
  by (simp add: VerifyChain_def verify_from_chains)

definition last_root :: "string \<Rightarrow> ledger_entry list \<Rightarrow> string" where
  "last_root prev es = (if es = [] then prev else ae_root (last es))"

lemma chain_ok_append:
  "chain_ok E prev (xs @ [e]) \<longleftrightarrow> chain_ok E prev xs \<and> chain_ok E (last_root prev xs) [e]"
  by (induction xs arbitrary: prev) (auto simp: last_root_def split: option.splits)

end
