(* ===== verification/Ledger_Memory.thy ===== *)
theory Ledger_Memory
  imports Ledger_Chain
begin

text \<open>
  The ledger in memory and its replay from the dead letter queue (backend/internal/auditledger/ledger.go,
  prepared.go, privacy.go, dlq_worker.go, result.go). A call of the signer may change what the signer
  answers next, so an append takes the signer as it is at each of its calls.
\<close>

section \<open>Errors, signers, prepared entries\<close>

datatype ledger_error =
  ErrLedgerEntryNotFound | ErrLedgerEntryCorrupt string | ErrSignerNil | ErrDuplicateRequestID
| ErrInvalidLedgerPublicKey | ErrSigner string | ErrEntryHash | ErrRequestIDRequired | ErrStoreNotConfigured
| ErrDecodePayload | ErrTenantMismatch | ErrKeyMismatch | ErrScopeMismatch | ErrDuplicateTenantMismatch

text \<open>\<open>sg_fingerprint\<close> is the optional method of a signer; a signature comes with the fingerprint of its key.\<close>

record signer =
  sg_fingerprint :: "string option"
  sg_sign :: "string \<Rightarrow> ledger_error + string \<times> string"

definition signerFingerprint :: "signer \<Rightarrow> ledger_error + string" where
  "signerFingerprint sg =
     (let own = (case sg_fingerprint sg of None \<Rightarrow> [] | Some f \<Rightarrow> trim_space f)
      in if own \<noteq> [] then Inr own
         else case sg_sign sg [] of
                Inl err \<Rightarrow> Inl err
              | Inr (sig, f) \<Rightarrow> if trim_space f = [] then Inl ErrInvalidLedgerPublicKey else Inr f)"

record prepared_entry =
  pe_request :: string
  pe_tenant :: int
  pe_created :: string
  pe_scope :: string
  pe_hops :: "hop list"
  pe_model :: "model_chain option"

definition preparedEntryFromLedgerEntry :: "ledger_entry \<Rightarrow> prepared_entry" where
  "preparedEntryFromLedgerEntry e = \<lparr> pe_request = ae_request e, pe_tenant = ae_tenant e, pe_created = ae_time e,
     pe_scope = ae_scope e, pe_hops = ae_hops e, pe_model = ae_model e \<rparr>"

definition AsLedgerEntry :: "prepared_entry \<Rightarrow> ledger_entry" where
  "AsLedgerEntry p = \<lparr> ae_id = [], ae_time = pe_created p, ae_request = pe_request p, ae_tenant = pe_tenant p,
     ae_scope = pe_scope p, ae_hops = pe_hops p, ae_model = pe_model p, ae_prev = ZeroRoot, ae_root = ZeroRoot,
     ae_fingerprint = [], ae_signature = [] \<rparr>"

text \<open>The redactor is another package: it answers with the redacted content, or with nothing usable.\<close>

type_synonym redactor =
  "string \<times> hop list \<times> model_chain option \<Rightarrow> (string \<times> hop list \<times> model_chain option) option"

definition empty_hop :: hop where
  "empty_hop = \<lparr> ha_schema = [], ha_index = 0, ha_kind = [], ha_actor = [], ha_started = [], ha_ended = [],
     ha_decision = [], ha_features = [], ha_alt = [], ha_hop = [], ha_time = [], ha_request = [], ha_account = [],
     ha_pool = [], ha_route = [], ha_provider = [], ha_endpoint = [], ha_duration = 0, ha_detail = RawMissing \<rparr>"

definition redactionDroppedSentinel :: string where
  "redactionDroppedSentinel = ''redaction_dropped''"

definition ledgerEntryWithRedactionDroppedSentinel :: "ledger_entry \<Rightarrow> ledger_entry" where
  "ledgerEntryWithRedactionDroppedSentinel e =
     e\<lparr> ae_hops := [empty_hop\<lparr> ha_schema := ''trust.ledger.redaction_sentinel.v1'', ha_kind := redactionDroppedSentinel,
                     ha_actor := ''auditledger'', ha_decision := redactionDroppedSentinel \<rparr>],
        ae_model := None, ae_scope := [] \<rparr>"

definition sanitizeLedgerEntry :: "redactor \<Rightarrow> ledger_entry \<Rightarrow> ledger_entry option" where
  "sanitizeLedgerEntry redact e =
     (case redact (ae_scope e, ae_hops e, ae_model e) of
        None \<Rightarrow> None
      | Some (scope, hops, model) \<Rightarrow> Some (e\<lparr> ae_scope := scope, ae_hops := hops, ae_model := model \<rparr>))"

definition PrepareEntry :: "redactor \<Rightarrow> ledger_entry \<Rightarrow> ledger_error + prepared_entry" where
  "PrepareEntry redact e =
     (if ae_request e = [] then Inl ErrRequestIDRequired
      else Inr (preparedEntryFromLedgerEntry
        (case sanitizeLedgerEntry redact e of
           Some x \<Rightarrow> x
         | None \<Rightarrow> ledgerEntryWithRedactionDroppedSentinel e)))"

section \<open>The memory ledger\<close>

record memory_ledger =
  ml_chain :: "ledger_entry list"
  ml_byReq :: "string \<rightharpoonup> nat"
  ml_latest :: "int \<rightharpoonup> string"

definition NewMemoryLedger :: memory_ledger where
  "NewMemoryLedger = \<lparr> ml_chain = [], ml_byReq = Map.empty, ml_latest = Map.empty \<rparr>"

text \<open>The digits of the least 64-bit integer are lost: negating it leaves it negative.\<close>

definition itoa64 :: "int \<Rightarrow> string" where
  "itoa64 n = (if n = - (2 ^ 63) then ''-'' else int_string n)"

definition memoryLedgerID :: "int \<Rightarrow> int \<Rightarrow> string" where
  "memoryLedgerID tenant n = ''ldg_t'' @ itoa64 tenant @ ''_'' @ int_string n"

definition b64_std_char :: "nat \<Rightarrow> char" where
  "b64_std_char n = (if n = 62 then CHR ''+'' else if n = 63 then CHR ''/'' else b64_char n)"

fun b64_std :: "nat list \<Rightarrow> string" where
  "b64_std [] = []"
| "b64_std [a] = [b64_std_char (a div 4), b64_std_char (a mod 4 * 16), CHR ''='', CHR ''='']"
| "b64_std [a, b] = [b64_std_char (a div 4), b64_std_char (a mod 4 * 16 + b div 16), b64_std_char (b mod 16 * 4), CHR ''='']"
| "b64_std (a # b # c # r) =
     b64_std_char (a div 4) # b64_std_char (a mod 4 * 16 + b div 16)
       # b64_std_char (b mod 16 * 4 + c div 64) # b64_std_char (c mod 64) # b64_std r"

text \<open>The entry under a fingerprint: its hash is part of its root.\<close>

definition chained :: "ledger_env \<Rightarrow> ledger_entry \<Rightarrow> string \<Rightarrow> (ledger_entry \<times> string) option" where
  "chained E e fp =
     (let x = e\<lparr> ae_fingerprint := fp \<rparr>
      in case EntryHash E x of
           None \<Rightarrow> None
         | Some h \<Rightarrow> Some (x\<lparr> ae_root := NextMerkleRoot E (ae_prev x) h \<rparr>, h))"

definition sealed :: "ledger_env \<Rightarrow> signer \<times> signer \<times> signer \<Rightarrow> ledger_entry \<Rightarrow> ledger_error + ledger_entry" where
  "sealed E sgs e =
     (case sgs of (s0, s1, s2) \<Rightarrow>
        case signerFingerprint s0 of
          Inl err \<Rightarrow> Inl err
        | Inr fp \<Rightarrow>
            case chained E e fp of
              None \<Rightarrow> Inl ErrEntryHash
            | Some (x, h) \<Rightarrow>
                case sg_sign s1 h of
                  Inl err \<Rightarrow> Inl err
                | Inr (sig, fp1) \<Rightarrow>
                    if fp1 = fp then Inr (x\<lparr> ae_signature := b64_std (map of_char sig) \<rparr>)
                    else case chained E e fp1 of
                           None \<Rightarrow> Inl ErrEntryHash
                         | Some (y, h') \<Rightarrow>
                             case sg_sign s2 h' of
                               Inl err \<Rightarrow> Inl err
                             | Inr (sig', fp2) \<Rightarrow> Inr (y\<lparr> ae_signature := b64_std (map of_char sig') \<rparr>))"

definition prepared_at :: "ledger_env \<Rightarrow> instant \<Rightarrow> memory_ledger \<Rightarrow> prepared_entry \<Rightarrow> ledger_entry" where
  "prepared_at E now m p =
     (let e = AsLedgerEntry p
      in e\<lparr> ae_time := (if ae_time e = [] then en_format E now else ae_time e),
            ae_id := (if ae_id e = [] then memoryLedgerID (ae_tenant e) (int (length (ml_chain m)) + 1) else ae_id e),
            ae_prev := (case ml_latest m (ae_tenant e) of None \<Rightarrow> ZeroRoot | Some r \<Rightarrow> r) \<rparr>)"

definition add_entry :: "ledger_entry \<Rightarrow> memory_ledger \<Rightarrow> memory_ledger" where
  "add_entry e m = \<lparr> ml_chain = ml_chain m @ [e],
     ml_byReq = (if ae_request e = [] then ml_byReq m else (ml_byReq m)(ae_request e \<mapsto> length (ml_chain m))),
     ml_latest = (ml_latest m)(ae_tenant e \<mapsto> ae_root e) \<rparr>"

definition Append ::
    "ledger_env \<Rightarrow> instant \<Rightarrow> signer \<times> signer \<times> signer \<Rightarrow> prepared_entry \<Rightarrow> memory_ledger \<Rightarrow>
     (ledger_error + ledger_entry) \<times> memory_ledger" where
  "Append E now sgs p m =
     (if pe_request p \<noteq> [] \<and> ml_byReq m (pe_request p) \<noteq> None then (Inl ErrDuplicateRequestID, m)
      else case sealed E sgs (prepared_at E now m p) of
             Inl err \<Rightarrow> (Inl err, m)
           | Inr e \<Rightarrow> (Inr e, add_entry e m))"

definition GetByRequestID :: "string \<Rightarrow> memory_ledger \<Rightarrow> ledger_error + ledger_entry" where
  "GetByRequestID rid m =
     (case ml_byReq m rid of None \<Rightarrow> Inl ErrLedgerEntryNotFound | Some i \<Rightarrow> Inr (ml_chain m ! i))"

definition tenantScopeMatches :: "ledger_env \<Rightarrow> ledger_entry \<Rightarrow> string \<Rightarrow> bool" where
  "tenantScopeMatches E e scope \<longleftrightarrow> scope \<noteq> [] \<and> scope_ref E e = scope"

definition GetByRequestIDAndTenantScope :: "ledger_env \<Rightarrow> string \<Rightarrow> string \<Rightarrow> memory_ledger \<Rightarrow> ledger_error + ledger_entry" where
  "GetByRequestIDAndTenantScope E rid scope m =
     (case ml_byReq m rid of
        None \<Rightarrow> Inl ErrLedgerEntryNotFound
      | Some i \<Rightarrow>
          if tenantScopeMatches E (ml_chain m ! i) scope then Inr (ml_chain m ! i) else Inl ErrLedgerEntryNotFound)"

definition ledgerEntryInTimeRange :: "ledger_env \<Rightarrow> ledger_entry \<Rightarrow> instant \<Rightarrow> instant \<Rightarrow> ledger_error + bool" where
  "ledgerEntryInTimeRange E e lo hi =
     (case en_parse E (ae_time e) of
        None \<Rightarrow> Inl (ErrLedgerEntryCorrupt ''timestamp'')
      | Some t \<Rightarrow> Inr (\<not> (lo \<noteq> zero_time \<and> t < lo) \<and> \<not> (hi \<noteq> zero_time \<and> hi < t)))"

fun list_range ::
    "ledger_env \<Rightarrow> string \<Rightarrow> instant \<Rightarrow> instant \<Rightarrow> nat \<Rightarrow> ledger_entry list \<Rightarrow> ledger_entry list \<Rightarrow> ledger_error + ledger_entry list" where
  "list_range E scope lo hi limit out [] = Inr out"
| "list_range E scope lo hi limit out (e # es) =
     (if \<not> tenantScopeMatches E e scope then list_range E scope lo hi limit out es
      else case ledgerEntryInTimeRange E e lo hi of
             Inl err \<Rightarrow> Inl err
           | Inr False \<Rightarrow> list_range E scope lo hi limit out es
           | Inr True \<Rightarrow>
               if limit \<le> length out + 1 then Inr (out @ [e])
               else list_range E scope lo hi limit (out @ [e]) es)"

definition ListByRange ::
    "ledger_env \<Rightarrow> string \<Rightarrow> instant \<Rightarrow> instant \<Rightarrow> int \<Rightarrow> memory_ledger \<Rightarrow> ledger_error + ledger_entry list" where
  "ListByRange E scope lo hi limit m =
     (if trim_space scope = [] \<or> limit \<le> 0 then Inr []
      else list_range E (trim_space scope) lo hi (nat limit) [] (ml_chain m))"

definition requestIDSet :: "string list \<Rightarrow> string list" where
  "requestIDSet ids = filter (\<lambda>s. s \<noteq> []) (map trim_space ids)"

definition ListByRequestIDs :: "ledger_env \<Rightarrow> string \<Rightarrow> string list \<Rightarrow> int \<Rightarrow> memory_ledger \<Rightarrow> ledger_entry list" where
  "ListByRequestIDs E scope ids limit m =
     (if trim_space scope = [] \<or> requestIDSet ids = [] \<or> limit \<le> 0 then []
      else take (nat limit)
        (filter (\<lambda>e. ae_request e \<in> set (requestIDSet ids) \<and> tenantScopeMatches E e (trim_space scope)) (ml_chain m)))"

definition LatestMerkleRoot :: "memory_ledger \<Rightarrow> string" where
  "LatestMerkleRoot m = (if ml_chain m = [] then ZeroRoot else ae_root (last (ml_chain m)))"

section \<open>Replay from the dead letter queue\<close>

text \<open>A record with its decoded payload; the handler looks the request up, then appends.\<close>

record dlq_record =
  dr_tenant :: int
  dr_key :: string
  dr_payload :: "ledger_entry option"

definition ensureDLQDuplicateBelongsToRecordTenant :: "ledger_entry \<Rightarrow> dlq_record \<Rightarrow> ledger_error option" where
  "ensureDLQDuplicateBelongsToRecordTenant e r =
     (if ae_tenant e \<noteq> dr_tenant r then Some ErrDuplicateTenantMismatch else None)"

definition dlq_checked :: "ledger_env \<Rightarrow> redactor \<Rightarrow> dlq_record \<Rightarrow> ledger_error + prepared_entry" where
  "dlq_checked E redact r =
     (case dr_payload r of
        None \<Rightarrow> Inl ErrDecodePayload
      | Some e \<Rightarrow>
          if dr_tenant r \<noteq> ae_tenant e then Inl ErrTenantMismatch
          else if dr_key r \<noteq> ''audit_ledger:'' @ ae_request e then Inl ErrKeyMismatch
          else if ae_scope e \<noteq> [] \<and> ae_scope e \<noteq> TenantScopeRef E (ae_tenant e) then Inl ErrScopeMismatch
          else PrepareEntry redact (e\<lparr> ae_scope := [] \<rparr>))"

text \<open>Other calls of the ledger may run between the lookup and the append: \<open>others\<close> is what they do.\<close>

definition DLQHandler ::
    "ledger_env \<Rightarrow> redactor \<Rightarrow> instant \<Rightarrow> signer \<times> signer \<times> signer \<Rightarrow> (memory_ledger \<Rightarrow> memory_ledger) \<Rightarrow> dlq_record \<Rightarrow>
     memory_ledger \<Rightarrow> ledger_error option \<times> memory_ledger" where
  "DLQHandler E redact now sgs others r m =
     (case dlq_checked E redact r of
        Inl err \<Rightarrow> (Some err, m)
      | Inr p \<Rightarrow>
          (case GetByRequestID (pe_request p) m of
             Inr e \<Rightarrow> (ensureDLQDuplicateBelongsToRecordTenant e r, m)
           | Inl err \<Rightarrow>
               if err \<noteq> ErrLedgerEntryNotFound then (Some err, m)
               else (case Append E now sgs p (others m) of
                  (Inr e, m') \<Rightarrow> (None, m')
                | (Inl err', m') \<Rightarrow>
                    if err' = ErrDuplicateRequestID
                    then (case GetByRequestID (pe_request p) m' of
                            Inr e \<Rightarrow> (ensureDLQDuplicateBelongsToRecordTenant e r, m')
                          | Inl lookup \<Rightarrow> (Some lookup, m'))
                    else (Some err', m'))))"

section \<open>Results\<close>

datatype ledger_state = LedgerPersisted | LedgerDeferred | LedgerDisabled | LedgerStateOther int

record ledger_result =
  lr_state :: ledger_state
  lr_id :: string
  lr_dlq :: string
  lr_fingerprint :: string
  lr_provider :: string
  lr_model :: string
  lr_request :: string

definition persistedResultProvider :: "ledger_entry \<Rightarrow> string" where
  "persistedResultProvider e =
     (case find (\<lambda>h. ha_hop h = ''provider'') (ae_hops e) of None \<Rightarrow> [] | Some h \<Rightarrow> ha_provider h)"

definition persistedResultModel :: "ledger_entry \<Rightarrow> string" where
  "persistedResultModel e =
     (case ae_model e of None \<Rightarrow> [] | Some c \<Rightarrow> if mc_routed c \<noteq> [] then mc_routed c else mc_requested c)"

definition PersistedLedgerResult :: "ledger_entry \<Rightarrow> ledger_result" where
  "PersistedLedgerResult e = \<lparr> lr_state = LedgerPersisted, lr_id = ae_id e, lr_dlq = [], lr_fingerprint = ae_fingerprint e,
     lr_provider = persistedResultProvider e, lr_model = persistedResultModel e, lr_request = ae_request e \<rparr>"

definition DeferredLedgerResult :: "string \<Rightarrow> ledger_result" where
  "DeferredLedgerResult ref = \<lparr> lr_state = LedgerDeferred, lr_id = [], lr_dlq = ref, lr_fingerprint = [], lr_provider = [],
     lr_model = [], lr_request = [] \<rparr>"

definition DisabledLedgerResult :: ledger_result where
  "DisabledLedgerResult = \<lparr> lr_state = LedgerDisabled, lr_id = [], lr_dlq = [], lr_fingerprint = [], lr_provider = [],
     lr_model = [], lr_request = [] \<rparr>"

definition no_metadata :: "ledger_result \<Rightarrow> bool" where
  "no_metadata r \<longleftrightarrow> lr_provider r = [] \<and> lr_model r = [] \<and> lr_request r = []"

definition ValidateResult :: "bool \<Rightarrow> ledger_result \<Rightarrow> bool" where
  "ValidateResult production r =
     (case lr_state r of
        LedgerPersisted \<Rightarrow> lr_id r \<noteq> [] \<and> lr_fingerprint r \<noteq> [] \<and> lr_dlq r = []
      | LedgerDeferred \<Rightarrow> no_metadata r \<and> lr_dlq r \<noteq> [] \<and> lr_id r = [] \<and> lr_fingerprint r = []
      | LedgerDisabled \<Rightarrow> \<not> production \<and> no_metadata r \<and> lr_id r = [] \<and> lr_dlq r = [] \<and> lr_fingerprint r = []
      | LedgerStateOther n \<Rightarrow> False)"

section \<open>What an append keeps\<close>

definition ledger_inv :: "ledger_env \<Rightarrow> memory_ledger \<Rightarrow> bool" where
  "ledger_inv E m \<longleftrightarrow>
     (\<forall>t. chain_ok E ZeroRoot (of_tenant t (ml_chain m)) \<and>
          last_root ZeroRoot (of_tenant t (ml_chain m)) = (case ml_latest m t of None \<Rightarrow> ZeroRoot | Some r \<Rightarrow> r)) \<and>
     (\<forall>q i. ml_byReq m q = Some i \<longleftrightarrow> q \<noteq> [] \<and> i < length (ml_chain m) \<and> ae_request (ml_chain m ! i) = q)"

lemma chained_ok:
  assumes "chained E e fp = Some (x, h)"
  shows "chain_ok E (ae_prev e) [x]" "ae_tenant x = ae_tenant e" "ae_request x = ae_request e" "EntryHash E x = Some h"
    "ae_fingerprint x = fp"
proof -
  have hash: "EntryHash E (y\<lparr> ae_root := a \<rparr>) = EntryHash E y" for y :: ledger_entry and a
    by (simp add: EntryHash_def canonicalPayload_def scope_ref_def cong: option.case_cong)
  show "chain_ok E (ae_prev e) [x]" "ae_tenant x = ae_tenant e" "ae_request x = ae_request e" "EntryHash E x = Some h"
    "ae_fingerprint x = fp"
    using assms by (auto simp: chained_def Let_def hash split: option.splits)
qed

lemma signature_free:
  "EntryHash E (x\<lparr> ae_signature := a \<rparr>) = EntryHash E x" "chain_ok E p [x\<lparr> ae_signature := a \<rparr>] = chain_ok E p [x]"
  by (simp_all add: EntryHash_def canonicalPayload_def scope_ref_def cong: option.case_cong)

lemma sealed_ok:
  assumes "sealed E sgs e = Inr x"
  shows "chain_ok E (ae_prev e) [x]" "ae_tenant x = ae_tenant e" "ae_request x = ae_request e"
  using assms chained_ok
  by (auto simp: sealed_def signature_free simp del: chain_ok.simps split: prod.splits sum.splits option.splits if_splits)

lemma add_entry_inv:
  assumes inv: "ledger_inv E m" and x: "chain_ok E (case ml_latest m (ae_tenant x) of None \<Rightarrow> ZeroRoot | Some r \<Rightarrow> r) [x]"
    and fresh: "ae_request x \<noteq> [] \<Longrightarrow> ml_byReq m (ae_request x) = None"
  shows "ledger_inv E (add_entry x m)"
proof -
  let ?m = "add_entry x m"
  have chain: "chain_ok E ZeroRoot (of_tenant t (ml_chain ?m)) \<and>
      last_root ZeroRoot (of_tenant t (ml_chain ?m)) = (case ml_latest ?m t of None \<Rightarrow> ZeroRoot | Some r \<Rightarrow> r)" for t
  proof (cases "ae_tenant x = t")
    case True
    then have "chain_ok E (last_root ZeroRoot (of_tenant t (ml_chain m))) [x]" using inv x by (simp add: ledger_inv_def)
    moreover have "chain_ok E ZeroRoot (of_tenant t (ml_chain m))" using inv by (simp add: ledger_inv_def)
    moreover have "of_tenant t (ml_chain ?m) = of_tenant t (ml_chain m) @ [x]" using True by (simp add: add_entry_def)
    moreover have "last_root ZeroRoot (of_tenant t (ml_chain m) @ [x]) = ae_root x" by (simp add: last_root_def)
    ultimately show ?thesis using True by (simp add: add_entry_def chain_ok_append del: chain_ok.simps)
  next
    case False
    then show ?thesis using inv by (simp add: add_entry_def ledger_inv_def)
  qed
  have lookup: "ml_byReq ?m q = Some i \<longleftrightarrow> q \<noteq> [] \<and> i < length (ml_chain ?m) \<and> ae_request (ml_chain ?m ! i) = q" for q i
  proof -
    have old: "ml_byReq m q = Some j \<longleftrightarrow> q \<noteq> [] \<and> j < length (ml_chain m) \<and> ae_request (ml_chain m ! j) = q" for q j
      using inv by (simp add: ledger_inv_def)
    show ?thesis
    proof (cases "q = ae_request x \<and> q \<noteq> []")
      case True
      then have "\<not> (j < length (ml_chain m) \<and> ae_request (ml_chain m ! j) = q)" for j using fresh old [of q j] by auto
      then show ?thesis using True by (auto simp: add_entry_def nth_append less_Suc_eq)
    next
      case False
      then show ?thesis using old [of q i] by (auto simp: add_entry_def nth_append less_Suc_eq)
    qed
  qed
  show ?thesis unfolding ledger_inv_def using chain lookup by blast
qed

lemma prepared_at_fields:
  "ae_tenant (prepared_at E now m p) = pe_tenant p" "ae_request (prepared_at E now m p) = pe_request p"
  "ae_prev (prepared_at E now m p) = (case ml_latest m (pe_tenant p) of None \<Rightarrow> ZeroRoot | Some r \<Rightarrow> r)"
  by (simp_all add: prepared_at_def AsLedgerEntry_def Let_def)

lemma Append_cases:
  assumes "Append E now sgs p m = (res, m')" "ledger_inv E m"
  obtains err where "res = Inl err" "m' = m"
  | x where "res = Inr x" "m' = add_entry x m" "ledger_inv E m'" "ae_tenant x = pe_tenant p" "ae_request x = pe_request p"
proof (cases res)
  case (Inl err)
  then show ?thesis using assms(1) that(1) by (auto simp: Append_def split: if_splits sum.splits)
next
  case (Inr x)
  then have seal: "sealed E sgs (prepared_at E now m p) = Inr x" and m': "m' = add_entry x m"
      and fresh: "pe_request p \<noteq> [] \<Longrightarrow> ml_byReq m (pe_request p) = None"
    using assms(1) by (auto simp: Append_def split: if_splits sum.splits)
  note x = sealed_ok [OF seal, unfolded prepared_at_fields]
  have "ledger_inv E m'" unfolding m' by (rule add_entry_inv [OF assms(2)]) (use x fresh in simp_all)
  then show ?thesis using that(2) Inr m' x(2,3) by blast
qed

type_synonym ledger_call = "instant \<times> (signer \<times> signer \<times> signer) \<times> prepared_entry"

definition audit_step :: "ledger_env \<Rightarrow> memory_ledger \<Rightarrow> ledger_call \<Rightarrow> memory_ledger" where
  "audit_step E m c = (case c of (now, sgs, p) \<Rightarrow> snd (Append E now sgs p m))"

definition ledger_run :: "ledger_env \<Rightarrow> ledger_call list \<Rightarrow> memory_ledger" where
  "ledger_run E cs = foldl (audit_step E) NewMemoryLedger cs"

lemma audit_step_inv: "ledger_inv E m \<Longrightarrow> ledger_inv E (audit_step E m c)"
proof -
  assume inv: "ledger_inv E m"
  obtain now sgs p where c: "c = (now, sgs, p)" by (cases c)
  obtain res m' where step: "Append E now sgs p m = (res, m')" by (cases "Append E now sgs p m")
  from step inv have "ledger_inv E m'" by (rule Append_cases) (use inv in simp_all)
  then show ?thesis by (simp add: audit_step_def c step)
qed

interpretation ledger_calls: invariant_component "audit_step E" "ledger_inv E" for E
  by unfold_locales (rule audit_step_inv)

lemma ledger_run_inv: "ledger_inv E (ledger_run E cs)"
  unfolding ledger_run_def
  by (rule ledger_calls.run_inv) (simp add: ledger_inv_def NewMemoryLedger_def last_root_def)

lemma filter_single:
  assumes "i < length xs" "p (xs ! i)" "\<And>j. j < length xs \<Longrightarrow> p (xs ! j) \<Longrightarrow> j = i"
  shows "filter p xs = [xs ! i]"
proof -
  have "\<not> p (xs ! j)" if "j < length xs" "j \<noteq> i" for j using assms(3) that by blast
  then have "filter p (take i xs) = []" "filter p (drop (Suc i) xs) = []"
    using assms(1) by (auto simp: filter_empty_conv in_set_conv_nth)
  then show ?thesis using assms(1,2) by (subst id_take_nth_drop [OF assms(1)]) simp
qed

lemma lookup_exact:
  assumes "ledger_inv E m"
  shows "GetByRequestID q m = Inr e \<longleftrightarrow> q \<noteq> [] \<and> filter (\<lambda>x. ae_request x = q) (ml_chain m) = [e]"
proof -
  have old: "ml_byReq m q = Some i \<longleftrightarrow> q \<noteq> [] \<and> i < length (ml_chain m) \<and> ae_request (ml_chain m ! i) = q" for i
    using assms by (simp add: ledger_inv_def)
  show ?thesis
  proof (cases "ml_byReq m q")
    case None
    have "False" if q: "q \<noteq> []" "filter (\<lambda>x. ae_request x = q) (ml_chain m) = [e]"
    proof -
      have "e \<in> set (filter (\<lambda>x. ae_request x = q) (ml_chain m))" using q(2) by simp
      then show False using old None q(1) by (auto simp: in_set_conv_nth)
    qed
    then show ?thesis using None by (auto simp: GetByRequestID_def)
  next
    case (Some i)
    then have "filter (\<lambda>x. ae_request x = q) (ml_chain m) = [ml_chain m ! i]"
      using old by (intro filter_single) (simp_all, metis option.inject)
    then show ?thesis using Some old [of i] by (auto simp: GetByRequestID_def)
  qed
qed

text \<open>
  C6. The ledger always verifies. After any appends, by any signers - failing ones and ones that change
  their key in the middle of an append included - the chain passes \<open>VerifyChain\<close>, and a request is found
  exactly when one entry has it, which is then the entry returned.
\<close>

theorem ledger_always_verifies:
  "VerifyChain E (ml_chain (ledger_run E cs)) = None \<and>
   (\<forall>q e. GetByRequestID q (ledger_run E cs) = Inr e \<longleftrightarrow>
      q \<noteq> [] \<and> filter (\<lambda>x. ae_request x = q) (ml_chain (ledger_run E cs)) = [e])"
proof -
  let ?m = "ledger_run E cs"
  have inv: "ledger_inv E ?m" by (rule ledger_run_inv)
  have "GetByRequestID q ?m = Inr e \<longleftrightarrow> q \<noteq> [] \<and> filter (\<lambda>x. ae_request x = q) (ml_chain ?m) = [e]" for q e
    by (rule lookup_exact [OF inv])
  moreover have "VerifyChain E (ml_chain ?m) = None" using inv by (simp add: VerifyChain_chains ledger_inv_def)
  ultimately show ?thesis by blast
qed

section \<open>Signatures\<close>


section \<open>Replays\<close>

lemma PrepareEntry_fields:
  "PrepareEntry redact e = Inr p \<Longrightarrow> pe_request p = ae_request e \<and> pe_tenant p = ae_tenant e \<and> ae_request e \<noteq> []"
  by (auto simp: PrepareEntry_def preparedEntryFromLedgerEntry_def sanitizeLedgerEntry_def
      ledgerEntryWithRedactionDroppedSentinel_def split: if_splits option.splits)

lemma checked_fields:
  assumes "dlq_checked E redact r = Inr p"
  obtains e where "dr_payload r = Some e" "pe_request p = ae_request e" "pe_tenant p = dr_tenant r" "pe_request p \<noteq> []"
  using assms
  by (auto simp: dlq_checked_def dest!: PrepareEntry_fields split: option.splits if_splits)

text \<open>
  C12. A replayed record is written once. When the handler of the dead letter queue reports a record as
  delivered, whatever other appends ran in between, the ledger has exactly one entry for its request,
  an entry of the record's tenant; and handling the record again is answered in the same way and
  changes nothing.
\<close>

theorem dlq_delivers_once:
  assumes "DLQHandler E redact now sgs (\<lambda>m. foldl (audit_step E) m others) r (ledger_run E cs) = (None, m')"
  shows "\<exists>p x. dr_payload r = Some p \<and> filter (\<lambda>e. ae_request e = ae_request p) (ml_chain m') = [x] \<and>
    ae_tenant x = dr_tenant r \<and> DLQHandler E redact now' sgs' others' r m' = (None, m')"
proof -
  let ?m = "ledger_run E cs" and ?n = "foldl (audit_step E) (ledger_run E cs) others"
  have inv: "ledger_inv E ?m" by (rule ledger_run_inv)
  have inv': "ledger_inv E ?n" by (rule ledger_calls.run_inv [OF inv])
  obtain p where p: "dlq_checked E redact r = Inr p" using assms by (auto simp: DLQHandler_def split: sum.splits)
  then obtain e where e: "dr_payload r = Some e" "pe_request p = ae_request e" "pe_tenant p = dr_tenant r" "pe_request p \<noteq> []"
    by (rule checked_fields)
  have "ledger_inv E m' \<and> (\<exists>x. GetByRequestID (pe_request p) m' = Inr x \<and> ae_tenant x = dr_tenant r)"
  proof (cases "GetByRequestID (pe_request p) ?m")
    case (Inr x)
    then show ?thesis
      using assms inv by (auto simp: DLQHandler_def p ensureDLQDuplicateBelongsToRecordTenant_def split: if_splits)
  next
    case (Inl err)
    obtain res n' where step: "Append E now sgs p ?n = (res, n')" by (cases "Append E now sgs p ?n")
    have run: "err = ErrLedgerEntryNotFound" "(case (res, n') of (Inr x, k) \<Rightarrow> (None, k)
        | (Inl err', k) \<Rightarrow> if err' = ErrDuplicateRequestID
            then (case GetByRequestID (pe_request p) k of Inr y \<Rightarrow> (ensureDLQDuplicateBelongsToRecordTenant y r, k) | Inl l \<Rightarrow> (Some l, k))
            else (Some err', k)) = (None, m')"
      using assms Inl step by (auto simp: DLQHandler_def p split: if_splits)
    from step inv' show ?thesis
    proof (rule Append_cases)
      fix err'
      assume "res = Inl err'" "n' = ?n"
      then show ?thesis
        using run(2) inv' by (auto simp: ensureDLQDuplicateBelongsToRecordTenant_def split: if_splits sum.splits)
    next
      fix x
      assume x: "res = Inr x" "n' = add_entry x ?n" "ledger_inv E n'" "ae_tenant x = pe_tenant p" "ae_request x = pe_request p"
      then have "GetByRequestID (pe_request p) n' = Inr x" using e(4) by (simp add: GetByRequestID_def add_entry_def nth_append)
      then show ?thesis using run(2) x e(3) by auto
    qed
  qed
  then obtain x where x: "ledger_inv E m'" "GetByRequestID (pe_request p) m' = Inr x" "ae_tenant x = dr_tenant r" by blast
  then have "DLQHandler E redact now' sgs' others' r m' = (None, m')"
    by (simp add: DLQHandler_def p ensureDLQDuplicateBelongsToRecordTenant_def)
  moreover have "filter (\<lambda>y. ae_request y = ae_request e) (ml_chain m') = [x]"
    using x(1,2) lookup_exact e(2) by metis
  ultimately show ?thesis using e(1) x(3) by blast
qed

section \<open>An instance\<close>

definition demo_env :: ledger_env where
  "demo_env = \<lparr> en_sha = (\<lambda>x. replicate 32 (if x \<noteq> [] \<and> hd x = CHR ''{'' then CHR ''a'' else CHR ''b'')),
     en_float = (\<lambda>t. True), en_parse = (\<lambda>t. None), en_format = (\<lambda>t. ''2026-01-01T00:00:00Z'') \<rparr>"

definition demo_signer :: signer where
  "demo_signer = \<lparr> sg_fingerprint = Some ''k1'', sg_sign = (\<lambda>x. Inr (''sig'', ''k1'')) \<rparr>"

definition demo_prepared :: prepared_entry where
  "demo_prepared = \<lparr> pe_request = ''r1'', pe_tenant = 7, pe_created = [], pe_scope = ''s'', pe_hops = [], pe_model = None \<rparr>"

lemma demo_append:
  "\<exists>e. Append demo_env 0 (demo_signer, demo_signer, demo_signer) demo_prepared NewMemoryLedger = (Inr e, add_entry e NewMemoryLedger)"
proof -
  have "trim_space ''k1'' = ''k1''" by (rule trim_space_plain; code_simp)
  then show ?thesis
    by (simp add: Append_def sealed_def signerFingerprint_def demo_signer_def chained_def EntryHash_def canonicalPayload_def
        canonical_hops_def writeCanonicalJSONValue_def hops_json_def prepared_at_def AsLedgerEntry_def demo_prepared_def
        NewMemoryLedger_def model_json_def Let_def)
qed


definition demo_record :: dlq_record where
  "demo_record = \<lparr> dr_tenant = 7, dr_key = ''audit_ledger:r1'', dr_payload = Some (AsLedgerEntry (demo_prepared\<lparr> pe_scope := [] \<rparr>)) \<rparr>"

lemma demo_delivery:
  "\<exists>m. DLQHandler demo_env Some 0 (demo_signer, demo_signer, demo_signer) (\<lambda>m. foldl (audit_step demo_env) m [])
     demo_record (ledger_run demo_env []) = (None, m)"
proof -
  have "trim_space ''k1'' = ''k1''" by (rule trim_space_plain; code_simp)
  then show ?thesis
    by (simp add: DLQHandler_def dlq_checked_def demo_record_def PrepareEntry_def sanitizeLedgerEntry_def ledger_run_def GetByRequestID_def
        preparedEntryFromLedgerEntry_def
        Append_def sealed_def signerFingerprint_def demo_signer_def chained_def EntryHash_def canonicalPayload_def
        canonical_hops_def writeCanonicalJSONValue_def hops_json_def prepared_at_def AsLedgerEntry_def demo_prepared_def
        NewMemoryLedger_def model_json_def Let_def)
qed

theorem dlq_delivers_once_witness:
  "\<exists>m p x. DLQHandler demo_env Some 0 (demo_signer, demo_signer, demo_signer) (\<lambda>m. foldl (audit_step demo_env) m [])
      demo_record (ledger_run demo_env []) = (None, m) \<and>
    dr_payload demo_record = Some p \<and> filter (\<lambda>e. ae_request e = ae_request p) (ml_chain m) = [x] \<and> ae_tenant x = 7"
proof -
  obtain m where m: "DLQHandler demo_env Some 0 (demo_signer, demo_signer, demo_signer) (\<lambda>m. foldl (audit_step demo_env) m [])
     demo_record (ledger_run demo_env []) = (None, m)"
    using demo_delivery by blast
  have "dr_tenant demo_record = 7" by (simp add: demo_record_def)
  then show ?thesis using m dlq_delivers_once [OF m] by metis
qed

end
