(* ===== verification/Ledger_Tamper.thy ===== *)
theory Ledger_Tamper
  imports Ledger_Chain
begin

text \<open>
  What the published root of a tenant commits to: the content of every entry of its chain. The signed
  bytes determine the content of an entry, and two chains with one root and different bytes contain
  two inputs with the same hash.
\<close>

section \<open>The bytes determine the entry\<close>

definition raw_same :: "raw_json \<Rightarrow> raw_json \<Rightarrow> bool" where
  "raw_same a b \<longleftrightarrow> rel_option same_value (raw_value a) (raw_value b)"

definition same_hop :: "hop \<Rightarrow> hop \<Rightarrow> bool" where
  "same_hop h h' \<longleftrightarrow> h\<lparr> ha_detail := RawMissing \<rparr> = h'\<lparr> ha_detail := RawMissing \<rparr> \<and> raw_same (ha_detail h) (ha_detail h')"

definition texts_ok :: "string list \<Rightarrow> bool" where
  "texts_ok ss \<longleftrightarrow> list_all utf8_ok ss"

definition hop_ok :: "hop \<Rightarrow> bool" where
  "hop_ok h \<longleftrightarrow>
     texts_ok ([ha_schema h, ha_kind h, ha_actor h, ha_started h, ha_ended h, ha_decision h] @ ha_features h @
       [ha_alt h, ha_hop h, ha_time h, ha_request h, ha_account h, ha_pool h, ha_route h, ha_provider h, ha_endpoint h]) \<and>
     (case raw_value (ha_detail h) of None \<Rightarrow> True | Some v \<Rightarrow> json_ok v \<and> unique_keys v)"

definition model_ok :: "model_chain \<Rightarrow> bool" where
  "model_ok m \<longleftrightarrow> texts_ok [mc_requested m, mc_routed m, mc_reported m, mc_verdict m]"

definition audit_entry_ok :: "ledger_env \<Rightarrow> ledger_entry \<Rightarrow> bool" where
  "audit_entry_ok E e \<longleftrightarrow>
     texts_ok [ae_id e, canonicalTimestamp E (ae_time e), ae_request e, scope_ref E e, ae_fingerprint e] \<and>
     list_all hop_ok (ae_hops e) \<and> (case ae_model e of None \<Rightarrow> True | Some m \<Rightarrow> model_ok m)"

text \<open>The content of an entry, as the bytes show it: times and scopes in their canonical form.\<close>

definition same_content :: "ledger_env \<Rightarrow> ledger_entry \<Rightarrow> ledger_entry \<Rightarrow> bool" where
  "same_content E e e' \<longleftrightarrow>
     ae_id e = ae_id e' \<and> canonicalTimestamp E (ae_time e) = canonicalTimestamp E (ae_time e') \<and>
     ae_request e = ae_request e' \<and> scope_ref E e = scope_ref E e' \<and> list_all2 same_hop (ae_hops e) (ae_hops e') \<and>
     ae_model e = ae_model e' \<and> ae_prev e = ae_prev e' \<and> ae_fingerprint e = ae_fingerprint e'"

lemma byte_less: "byte c < 256"
  by (simp add: byte_def nat_of_char_less_256)

lemma hex_string_inj: "hex_string s = hex_string s' \<Longrightarrow> s = s'"
proof (induction s arbitrary: s')
  case Nil
  then show ?case by (cases s') (simp_all add: hex_string_def)
next
  case (Cons c s)
  then obtain d s'' where s': "s' = d # s''" by (cases s') (simp_all add: hex_string_def)
  have digits: "hex_digit i = hex_digit j \<Longrightarrow> i < 16 \<Longrightarrow> j < 16 \<Longrightarrow> i = j" for i j
    by (metis unhex_digit)
  have "byte x div 16 < 16" for x using byte_less [of x] by simp
  then have "byte c div 16 = byte d div 16" "byte c mod 16 = byte d mod 16"
    using Cons.prems s' digits by (simp_all add: hex_string_def)
  then have "c = d" by (metis byte_inject div_mult_mod_eq)
  then show ?case using Cons s' by (simp add: hex_string_def)
qed

lemma hex_string_ok: "utf8_ok (hex_string s)"
proof (induction s)
  case (Cons c s)
  have small: "byte (hex_digit n) < 128" if "n < 16" for n
    using that by (auto simp: hex_digit_def byte_char_of)
  have plain: "byte a < 128 \<Longrightarrow> utf8_ok t \<Longrightarrow> utf8_ok (a # t)" for a t
    by (simp add: utf8_ok_def)
  have "byte c div 16 < 16" using byte_less [of c] by simp
  then show ?case using Cons plain small by (simp add: hex_string_def)
qed (simp add: hex_string_def utf8_ok_def)

text \<open>Objects that are the same agree on every key.\<close>

inductive_cases same_objectE: "same_value (AObject ms) (AObject ws)"

lemma same_object_lookup:
  assumes "same_value (AObject ms) (AObject ws)" "distinct (map fst ms)" "distinct (map fst ws)"
  shows "rel_option same_value (map_of ms k) (map_of ws k)"
proof -
  obtain ns where ns: "mset ns = mset ms" "list_all2 (rel_prod (=) same_value) ns ws"
    using assms(1) by (elim same_objectE) (rule that)
  have "mset (map fst ns) = mset (map fst ms)" using ns(1) by simp
  then have "distinct (map fst ns)" using assms(2) mset_eq_imp_distinct_iff by blast
  then have "map_of ms = map_of ns"
    using ns(1) assms(2) by (intro map_of_inject_set [THEN iffD2]) (metis mset_eq_setD)+
  moreover have "rel_option same_value (map_of ns k) (map_of ws k)"
    using ns(2)
  proof (induction rule: list_all2_induct)
    case (Cons x xs y ys)
    then show ?case by (cases x; cases y) simp
  qed simp
  ultimately show ?thesis by simp
qed

definition members :: "(string \<times> audit_json option) list \<Rightarrow> (string \<times> audit_json) list" where
  "members fs = concat (map (\<lambda>(k, v). case v of None \<Rightarrow> [] | Some x \<Rightarrow> [(k, x)]) fs)"

lemma members_Cons: "members ((k, v) # fs) = (case v of None \<Rightarrow> [] | Some x \<Rightarrow> [(k, x)]) @ members fs"
  by (simp add: members_def)

lemma members_keys: "fst ` set (members fs) \<subseteq> fst ` set fs"
proof (induction fs)
  case (Cons f fs)
  then show ?case by (cases f) (auto simp: members_Cons split: option.split)
qed (simp add: members_def)

lemma members_distinct: "distinct (map fst fs) \<Longrightarrow> distinct (map fst (members fs))"
proof (induction fs)
  case (Cons f fs)
  then show ?case using members_keys [of fs] by (cases f) (auto simp: members_Cons split: option.split)
qed (simp add: members_def)

lemma members_lookup:
  "distinct (map fst fs) \<Longrightarrow> map_of (members fs) k = (case map_of fs k of None \<Rightarrow> None | Some v \<Rightarrow> v)"
proof (induction fs)
  case (Cons f fs)
  obtain a v where f: "f = (a, v)" by (cases f)
  have "map_of (members fs) a = None"
    using Cons.prems members_keys [of fs] f by (auto simp: map_of_eq_None_iff)
  then show ?case using Cons f by (auto simp: members_Cons split: option.split)
qed (simp add: members_def)

lemma object_of_same:
  assumes "same_value (object_of fs) (object_of gs)" "distinct (map fst fs)" "map fst gs = map fst fs"
  shows "list_all2 (rel_option same_value) (map snd fs) (map snd gs)"
proof -
  have d: "distinct (map fst gs)" using assms(2,3) by simp
  have same: "same_value (AObject (members fs)) (AObject (members gs))"
    using assms(1) by (simp add: object_of_def members_def)
  have len: "length fs = length gs" using arg_cong [OF assms(3), of length] by simp
  have "rel_option same_value (snd (fs ! i)) (snd (gs ! i))" if i: "i < length fs" for i
  proof -
    let ?k = "fst (fs ! i)"
    have k: "fst (gs ! i) = ?k" using arg_cong [OF assms(3), of "\<lambda>xs. xs ! i"] i len by simp
    have "fs ! i \<in> set fs" "gs ! i \<in> set gs" using i len by simp_all
    then have "(?k, snd (fs ! i)) \<in> set fs" "(?k, snd (gs ! i)) \<in> set gs" by (simp_all add: k [symmetric])  (simp add: k)
    then have "map_of fs ?k = Some (snd (fs ! i))" "map_of gs ?k = Some (snd (gs ! i))"
      using assms(2) d by (simp_all only: map_of_is_SomeI)
    then show ?thesis
      using same_object_lookup [OF same members_distinct [OF assms(2)] members_distinct [OF d], of ?k]
      by (simp only: members_lookup [OF assms(2)] members_lookup [OF d] option.case)
  qed
  then show ?thesis using len by (simp add: list_all2_conv_all_nth)
qed

inductive_simps same_string_simp [simp]: "same_value (AString s) v"

inductive_simps same_number_simp [simp]: "same_value (ANumber t) v"

inductive_simps same_array_simp [simp]: "same_value (AArray vs) v"

lemma opt_text_same: "rel_option same_value (opt_text s) (opt_text s') \<Longrightarrow> utf8_ok s \<Longrightarrow> utf8_ok s' \<Longrightarrow> s = s'"
  by (auto simp: opt_text_def to_valid_id split: if_splits)

lemma opt_int_same: "rel_option same_value (opt_int n) (opt_int n') \<Longrightarrow> n = n'"
  by (auto simp: opt_int_def int_string_inj split: if_splits)

lemma opt_texts_same:
  assumes "rel_option same_value (opt_texts ss) (opt_texts ss')" "texts_ok ss" "texts_ok ss'"
  shows "ss = ss'"
proof -
  have "list_all2 same_value (map (\<lambda>s. AString (to_valid s)) ss) (map (\<lambda>s. AString (to_valid s)) ss')"
    using assms(1) by (cases "ss = []"; cases "ss' = []") (simp_all add: opt_texts_def)
  then have "list_all2 (\<lambda>s s'. to_valid s = to_valid s') ss ss'"
    unfolding list_all2_map1 list_all2_map2 by (elim list_all2_mono) simp
  then have "map to_valid ss = map to_valid ss'" by (simp add: list_all2_conv_all_nth list_eq_iff_nth_eq)
  moreover have "map to_valid ss = ss" "map to_valid ss' = ss'"
    using assms(2,3) by (simp_all add: texts_ok_def list_all_iff to_valid_id map_idI)
  ultimately show ?thesis by simp
qed

lemma fields_distinct: "distinct (map fst (hop_fields h))" "distinct (map fst (model_fields m))"
  by (simp_all add: hop_fields_def model_fields_def)

lemma hop_same:
  assumes "same_value (object_of (hop_fields h)) (object_of (hop_fields h'))" "hop_ok h" "hop_ok h'"
  shows "same_hop h h'"
proof -
  have "list_all2 (rel_option same_value) (map snd (hop_fields h)) (map snd (hop_fields h'))"
    by (rule object_of_same [OF assms(1) fields_distinct(1)]) (simp add: hop_fields_def)
  then show ?thesis
    using assms(2,3)
    by (cases h; cases h') (simp add: hop_fields_def same_hop_def raw_same_def hop_ok_def texts_ok_def opt_text_same opt_int_same
        opt_texts_same [unfolded texts_ok_def])
qed

lemma model_same:
  assumes "same_value (object_of (model_fields m)) (object_of (model_fields m'))" "model_ok m" "model_ok m'"
  shows "m = m'"
proof -
  have "list_all2 (rel_option same_value) (map snd (model_fields m)) (map snd (model_fields m'))"
    by (rule object_of_same [OF assms(1) fields_distinct(2)]) (simp add: model_fields_def)
  then show ?thesis
    using assms(2,3) by (cases m; cases m') (simp add: model_fields_def model_ok_def texts_ok_def opt_text_same to_valid_id)
qed

section \<open>The bytes of an entry determine its content\<close>

lemma int_string_number: "int_string n \<noteq> [] \<and> list_all number_char (int_string n)"
proof -
  have "list_all number_char (dec_nat k)" for k
    using dec_nat_set [of _ k] by (auto simp: list_all_iff number_char_def)
  then show ?thesis by (auto simp: int_string_def number_char_def)
qed

lemma to_valid_ok: "utf8_ok s \<Longrightarrow> utf8_ok (to_valid s)"
  by (simp add: to_valid_id)

definition value_ok :: "audit_json option \<Rightarrow> bool" where
  "value_ok v \<longleftrightarrow> (case v of None \<Rightarrow> True | Some x \<Rightarrow> json_ok x \<and> unique_keys x)"

lemma opt_ok:
  "utf8_ok s \<Longrightarrow> value_ok (opt_text s)" "value_ok (opt_int n)" "texts_ok ss \<Longrightarrow> value_ok (opt_texts ss)"
  using int_string_number [of n]
  by (auto simp: value_ok_def opt_text_def opt_int_def opt_texts_def texts_ok_def to_valid_ok list_all_iff)

definition field_ok :: "string \<times> audit_json option \<Rightarrow> bool" where
  "field_ok f \<longleftrightarrow> utf8_ok (fst f) \<and> value_ok (snd f)"

lemma object_of_ok:
  assumes "list_all field_ok fs" "distinct (map fst fs)"
  shows "json_ok (object_of fs) \<and> unique_keys (object_of fs)"
proof -
  have "list_all (\<lambda>(k, v). utf8_ok k \<and> json_ok v \<and> unique_keys v) (members fs)"
    using assms(1) by (induction fs) (auto simp: members_def field_ok_def value_ok_def split: option.splits)
  then show ?thesis
    using members_distinct [OF assms(2)] by (auto simp: object_of_def members_def [symmetric] list_all_iff)
qed

lemma ascii_ok: "list_all (\<lambda>c. byte c < 128) s \<Longrightarrow> utf8_ok s"
  by (induction s) (simp_all add: utf8_ok_def)

lemma hop_json_ok: "hop_ok h \<Longrightarrow> json_ok (object_of (hop_fields h)) \<and> unique_keys (object_of (hop_fields h))"
proof (rule object_of_ok [OF _ fields_distinct(1)])
  assume ok: "hop_ok h"
  have keys: "utf8_ok (fst f)" if "f \<in> set (hop_fields h)" for f
    using that by (auto simp: hop_fields_def byte_def intro!: ascii_ok)
  have "list_all value_ok (map snd (hop_fields h))"
    using ok by (simp add: hop_fields_def hop_ok_def texts_ok_def opt_ok value_ok_def [of "raw_value _"])
  then show "list_all field_ok (hop_fields h)" using keys by (simp add: list_all_iff field_ok_def)
qed

lemma model_json_ok: "model_ok m \<Longrightarrow> json_ok (object_of (model_fields m)) \<and> unique_keys (object_of (model_fields m))"
proof (rule object_of_ok [OF _ fields_distinct(2)])
  assume ok: "model_ok m"
  have keys: "utf8_ok (fst f)" if "f \<in> set (model_fields m)" for f
    using that by (auto simp: model_fields_def byte_def intro!: ascii_ok)
  have "list_all value_ok (map snd (model_fields m))"
    using ok by (simp add: model_fields_def model_ok_def texts_ok_def opt_ok) (simp add: value_ok_def to_valid_ok)
  then show "list_all field_ok (model_fields m)" using keys by (simp add: list_all_iff field_ok_def)
qed

lemma hops_determined:
  assumes "canonical_hops E hs = Some b" "canonical_hops E hs' = Some b'" "list_all hop_ok hs" "list_all hop_ok hs'"
    and "b @ CHR '','' # r = b' @ CHR '','' # r'"
  shows "list_all2 same_hop hs hs' \<and> r = r'"
proof -
  have ok: "json_ok (hops_json hs)" "unique_keys (hops_json hs)" "json_ok (hops_json hs')"
    using assms(3,4) hop_json_ok by (auto simp: hops_json_def list_all_iff)
  have b: "b = emit (hops_json hs)" "b' = emit (hops_json hs')"
    using assms(1,2) by (auto simp: canonical_hops_def writeCanonicalJSONValue_def split: if_splits)
  have stop: "stops (CHR '','' # t)" for t by (rule stops_punctuation) simp
  have "canon (hops_json hs) = canon (hops_json hs') \<and> CHR '','' # r = CHR '','' # r'"
    by (rule text_inj [OF json_ok_canon [OF ok(1)] json_ok_canon [OF ok(3)] stop stop])
      (use assms(5) in \<open>simp only: b emit_canon\<close>)
  then have same: "same_value (hops_json hs) (hops_json hs')" and "r = r'" using canon_same by simp_all
  from same have "list_all2 same_value (map (\<lambda>h. object_of (hop_fields h)) hs) (map (\<lambda>h. object_of (hop_fields h)) hs')"
    by (simp add: hops_json_def)
  then have "list_all2 (\<lambda>h h'. same_value (object_of (hop_fields h)) (object_of (hop_fields h'))) hs hs'"
    by (simp only: list_all2_map1 list_all2_map2)
  then have "list_all2 same_hop hs hs'"
    using hop_same assms(3,4) by (auto simp: list_all2_conv_all_nth list_all_length)
  then show ?thesis using \<open>r = r'\<close> by simp
qed

lemma model_determined:
  assumes "writeCanonicalJSONValue p (model_json m) = Some b" "writeCanonicalJSONValue p (model_json m') = Some b'"
    and "\<And>x. m = Some x \<Longrightarrow> model_ok x" "\<And>x. m' = Some x \<Longrightarrow> model_ok x"
    and "b @ CHR '','' # r = b' @ CHR '','' # r'"
  shows "m = m' \<and> r = r'"
proof -
  have ok: "json_ok (model_json m)" "json_ok (model_json m')"
    using assms(3,4) model_json_ok by (auto simp: model_json_def split: option.split)
  have b: "b = emit (model_json m)" "b' = emit (model_json m')"
    using assms(1,2) by (auto simp: writeCanonicalJSONValue_def split: if_splits)
  have stop: "stops (CHR '','' # t)" for t by (rule stops_punctuation) simp
  have "canon (model_json m) = canon (model_json m') \<and> CHR '','' # r = CHR '','' # r'"
    by (rule text_inj [OF json_ok_canon [OF ok(1)] json_ok_canon [OF ok(2)] stop stop])
      (use assms(5) in \<open>simp only: b emit_canon\<close>)
  then have same: "same_value (model_json m) (model_json m')" and "r = r'" using canon_same by simp_all
  moreover have "m = m'"
  proof (cases m)
    case None
    then show ?thesis using same by (cases m') (auto simp: model_json_def object_of_def elim: same_value.cases)
  next
    case (Some x)
    then obtain y where "m' = Some y"
      using same by (cases m') (auto simp: model_json_def object_of_def elim: same_value.cases)
    then show ?thesis using same Some model_same assms(3,4) by (simp add: model_json_def)
  qed
  ultimately show ?thesis by simp
qed

lemma field_determined:
  "utf8_ok v \<Longrightarrow> utf8_ok v' \<Longrightarrow> writeJSONField k v x @ r = writeJSONField k v' x @ r' \<Longrightarrow> v = v' \<and> r = r'"
  using writeJSONString_inj [of v v' r r'] by (simp add: writeJSONField_def writeRawJSONField_def)

lemma raw_field: "writeRawJSONField k v x @ r = writeRawJSONField k v' x @ r' \<longleftrightarrow> v @ r = v' @ r'"
  by (simp add: writeRawJSONField_def)

lemma field_starts: "writeJSONField k v False = CHR '','' # writeJSONString k @ '':'' @ writeJSONString v"
  "writeRawJSONField k v False = CHR '','' # writeJSONString k @ '':'' @ v"
  by (simp_all add: writeJSONField_def writeRawJSONField_def)

lemma payload_determines:
  assumes "canonicalPayload E e = Some b" "canonicalPayload E e' = Some b" "audit_entry_ok E e" "audit_entry_ok E e'"
  shows "same_content E e e'"
proof -
  obtain h m where hm: "canonical_hops E (ae_hops e) = Some h" "writeCanonicalJSONValue (en_float E) (model_json (ae_model e)) = Some m"
    using assms(1) by (auto simp: canonicalPayload_def split: option.splits)
  obtain h' m' where hm': "canonical_hops E (ae_hops e') = Some h'" "writeCanonicalJSONValue (en_float E) (model_json (ae_model e')) = Some m'"
    using assms(2) by (auto simp: canonicalPayload_def split: option.splits)
  let ?t = "canonicalTimestamp E"
  have ok: "utf8_ok (ae_id e)" "utf8_ok (?t (ae_time e))" "utf8_ok (ae_request e)" "utf8_ok (scope_ref E e)" "utf8_ok (ae_fingerprint e)"
      "list_all hop_ok (ae_hops e)" "\<And>x. ae_model e = Some x \<Longrightarrow> model_ok x"
    and ok': "utf8_ok (ae_id e')" "utf8_ok (?t (ae_time e'))" "utf8_ok (ae_request e')" "utf8_ok (scope_ref E e')" "utf8_ok (ae_fingerprint e')"
      "list_all hop_ok (ae_hops e')" "\<And>x. ae_model e' = Some x \<Longrightarrow> model_ok x"
    using assms(3,4) by (simp_all add: audit_entry_ok_def texts_ok_def)
  have "canonicalPayload E e = canonicalPayload E e'" using assms(1,2) by simp
  then have eq: "writeJSONField ''ledger_id'' (ae_id e) False @ writeJSONField ''occurred_at'' (?t (ae_time e)) False @
      writeJSONField ''request_id'' (ae_request e) False @ writeJSONField ''tenant_scope_ref'' (scope_ref E e) False @
      writeRawJSONField ''hop_chain'' h False @ writeRawJSONField ''model_chain'' m False @
      writeJSONField ''prev_merkle_root'' (hex_string (ae_prev e)) False @
      writeJSONField ''pubkey_fingerprint'' (ae_fingerprint e) False @ ''}'' =
    writeJSONField ''ledger_id'' (ae_id e') False @ writeJSONField ''occurred_at'' (?t (ae_time e')) False @
      writeJSONField ''request_id'' (ae_request e') False @ writeJSONField ''tenant_scope_ref'' (scope_ref E e') False @
      writeRawJSONField ''hop_chain'' h' False @ writeRawJSONField ''model_chain'' m' False @
      writeJSONField ''prev_merkle_root'' (hex_string (ae_prev e')) False @
      writeJSONField ''pubkey_fingerprint'' (ae_fingerprint e') False @ ''}''"
    by (simp add: canonicalPayload_def hm hm')
  note 1 = field_determined [OF ok(1) ok'(1) eq]
  note 2 = field_determined [OF ok(2) ok'(2) conjunct2 [OF 1]]
  note 3 = field_determined [OF ok(3) ok'(3) conjunct2 [OF 2]]
  note 4 = field_determined [OF ok(4) ok'(4) conjunct2 [OF 3]]
  have "h @ CHR '','' # tl (writeRawJSONField ''model_chain'' m False @ writeJSONField ''prev_merkle_root'' (hex_string (ae_prev e)) False @
      writeJSONField ''pubkey_fingerprint'' (ae_fingerprint e) False @ ''}'') =
    h' @ CHR '','' # tl (writeRawJSONField ''model_chain'' m' False @ writeJSONField ''prev_merkle_root'' (hex_string (ae_prev e')) False @
      writeJSONField ''pubkey_fingerprint'' (ae_fingerprint e') False @ ''}'')"
    using conjunct2 [OF 4] unfolding raw_field by (simp add: field_starts)
  note 5 = hops_determined [OF hm(1) hm'(1) ok(6) ok'(6) this]
  have "m @ CHR '','' # tl (writeJSONField ''prev_merkle_root'' (hex_string (ae_prev e)) False @
      writeJSONField ''pubkey_fingerprint'' (ae_fingerprint e) False @ ''}'') =
    m' @ CHR '','' # tl (writeJSONField ''prev_merkle_root'' (hex_string (ae_prev e')) False @
      writeJSONField ''pubkey_fingerprint'' (ae_fingerprint e') False @ ''}'')"
    using conjunct2 [OF 5] by (simp add: field_starts)
  note 6 = model_determined [OF hm(2) hm'(2) ok(7) ok'(7) this]
  have "writeJSONField ''prev_merkle_root'' (hex_string (ae_prev e)) False @ writeJSONField ''pubkey_fingerprint'' (ae_fingerprint e) False @ ''}'' =
      writeJSONField ''prev_merkle_root'' (hex_string (ae_prev e')) False @ writeJSONField ''pubkey_fingerprint'' (ae_fingerprint e') False @ ''}''"
    using conjunct2 [OF 6] by (simp add: field_starts)
  note 7 = field_determined [OF hex_string_ok hex_string_ok this]
  note 8 = field_determined [OF ok(5) ok'(5) conjunct2 [OF 7]]
  show ?thesis
    using 1 2 3 4 5 6 7 8 hex_string_inj [of "ae_prev e" "ae_prev e'"] unfolding same_content_def by blast
qed

section \<open>The root of a chain\<close>

text \<open>The inputs that are hashed when the chain of a tenant is checked.\<close>

definition hashed :: "ledger_env \<Rightarrow> ledger_entry \<Rightarrow> string set" where
  "hashed E e =
     (case canonicalPayload E e of None \<Rightarrow> {} | Some b \<Rightarrow> {b, ae_prev e @ en_sha E b})"

definition inputs :: "ledger_env \<Rightarrow> ledger_entry list \<Rightarrow> string set" where
  "inputs E es = (\<Union>e \<in> set es. hashed E e)"

definition hash_sound :: "ledger_env \<Rightarrow> string set \<Rightarrow> bool" where
  "hash_sound E X \<longleftrightarrow> inj_on (en_sha E) X \<and> ZeroRoot \<notin> en_sha E ` X"

lemma chain_entry:
  assumes "chain_ok E prev [e]"
  obtains b where "canonicalPayload E e = Some b" "ae_prev e = prev" "ae_root e = en_sha E (prev @ en_sha E b)"
    "hashed E e = {b, prev @ en_sha E b}"
  using assms by (auto simp: EntryHash_def NextMerkleRoot_def hashed_def split: option.splits)

lemma last_root_length:
  assumes "\<And>x. length (en_sha E x) = 32" "chain_ok E ZeroRoot es"
  shows "length (last_root ZeroRoot es) = 32"
proof (cases es rule: rev_cases)
  case (snoc xs x)
  then have "chain_ok E (last_root ZeroRoot xs) [x]" using assms(2) chain_ok_append by blast
  then show ?thesis by (rule chain_entry) (simp add: snoc last_root_def assms(1))
qed (simp add: last_root_def ZeroRoot_def)

lemma inputs_append: "inputs E (xs @ ys) = inputs E xs \<union> inputs E ys"
  by (auto simp: inputs_def)

lemma hash_sound_mono: "hash_sound E X \<Longrightarrow> Y \<subseteq> X \<Longrightarrow> hash_sound E Y"
  by (auto simp: hash_sound_def intro: inj_on_subset)

lemma no_zero_root:
  assumes "chain_ok E prev (xs @ [x])" "hash_sound E X" "inputs E (xs @ [x]) \<subseteq> X"
  shows "last_root prev (xs @ [x]) \<noteq> ZeroRoot"
proof -
  have "chain_ok E (last_root prev xs) [x]" using assms(1) chain_ok_append by blast
  then obtain b where "ae_root x = en_sha E (last_root prev xs @ en_sha E b)" "hashed E x = {b, last_root prev xs @ en_sha E b}"
    by (rule chain_entry)
  then show ?thesis using assms(2,3) by (auto simp: last_root_def hash_sound_def inputs_def image_iff)
qed

lemma same_root_same_chain:
  assumes len: "\<And>x. length (en_sha E x) = 32"
  shows "chain_ok E ZeroRoot es \<Longrightarrow> chain_ok E ZeroRoot es' \<Longrightarrow> last_root ZeroRoot es = last_root ZeroRoot es' \<Longrightarrow>
    hash_sound E (inputs E es \<union> inputs E es') \<Longrightarrow> map (canonicalPayload E) es = map (canonicalPayload E) es'"
proof (induction es arbitrary: es' rule: rev_induct)
  case Nil
  then show ?case
  proof (cases es' rule: rev_cases)
    case (snoc ys y)
    then show ?thesis using no_zero_root [of E ZeroRoot ys y] Nil.prems by (auto simp: last_root_def)
  qed simp
next
  case (snoc x xs)
  let ?p = "last_root ZeroRoot xs"
  have xs: "chain_ok E ZeroRoot xs" and "chain_ok E ?p [x]" using snoc.prems(1) chain_ok_append by blast+
  then obtain b where b: "canonicalPayload E x = Some b" "ae_root x = en_sha E (?p @ en_sha E b)" "hashed E x = {b, ?p @ en_sha E b}"
    using chain_entry by metis
  have "es' \<noteq> []" using no_zero_root [OF snoc.prems(1,4)] snoc.prems(3) by (auto simp: last_root_def)
  then obtain ys y where es': "es' = ys @ [y]" by (cases es' rule: rev_cases) auto
  let ?q = "last_root ZeroRoot ys"
  have ys: "chain_ok E ZeroRoot ys" and "chain_ok E ?q [y]" using snoc.prems(2) es' chain_ok_append by blast+
  then obtain c where c: "canonicalPayload E y = Some c" "ae_root y = en_sha E (?q @ en_sha E c)" "hashed E y = {c, ?q @ en_sha E c}"
    using chain_entry by metis
  have inj: "inj_on (en_sha E) (inputs E (xs @ [x]) \<union> inputs E es')" using snoc.prems(4) by (simp add: hash_sound_def)
  have members: "{b, ?p @ en_sha E b, c, ?q @ en_sha E c} \<subseteq> inputs E (xs @ [x]) \<union> inputs E es'"
    using b(3) c(3) by (auto simp: inputs_def es')
  have "en_sha E (?p @ en_sha E b) = en_sha E (?q @ en_sha E c)"
    using snoc.prems(3) b(2) c(2) by (simp add: last_root_def es')
  then have "?p @ en_sha E b = ?q @ en_sha E c" using inj members by (auto dest: inj_onD)
  then have pq: "?p = ?q" and "en_sha E b = en_sha E c"
    using last_root_length [OF len xs] last_root_length [OF len ys] by simp_all
  then have "b = c" using inj members by (auto dest: inj_onD)
  moreover have "map (canonicalPayload E) xs = map (canonicalPayload E) ys"
    by (rule snoc.IH [OF xs ys pq]) (rule hash_sound_mono [OF snoc.prems(4)], auto simp: inputs_append es')
  ultimately show ?case using b(1) c(1) es' by simp
qed

text \<open>
  C5. The published root of a tenant commits to its ledger. If two ledgers both pass the check and end
  in the same root for a tenant, then they hold the same entries of that tenant in the same order, with
  the same identifiers, times, requests, hops, models and keys - as long as SHA-256 has no collision
  and no zero value among the inputs that the two checks hash. Strings are assumed to be valid UTF-8:
  the JSON writer replaces other bytes, and does not tell them apart.
\<close>

theorem root_commits_to_ledger:
  assumes "\<And>x. length (en_sha E x) = 32"
    and "VerifyChain E es = None" "VerifyChain E es' = None"
    and "last_root ZeroRoot (of_tenant t es) = last_root ZeroRoot (of_tenant t es')"
    and "hash_sound E (inputs E (of_tenant t es) \<union> inputs E (of_tenant t es'))"
    and "list_all (audit_entry_ok E) (of_tenant t es)" "list_all (audit_entry_ok E) (of_tenant t es')"
  shows "list_all2 (same_content E) (of_tenant t es) (of_tenant t es')"
proof -
  let ?xs = "of_tenant t es" and ?ys = "of_tenant t es'"
  have chains: "chain_ok E ZeroRoot ?xs" "chain_ok E ZeroRoot ?ys" using assms(2,3) VerifyChain_chains by blast+
  note same = same_root_same_chain [OF assms(1) chains assms(4,5)]
  have bytes: "\<exists>b. canonicalPayload E e = Some b" if "chain_ok E p zs" "e \<in> set zs" for p zs e
    using that by (induction zs arbitrary: p) (auto simp: EntryHash_def split: option.splits)
  have "length ?xs = length ?ys" using arg_cong [OF same, of length] by simp
  moreover have "same_content E (?xs ! i) (?ys ! i)" if i: "i < length ?xs" for i
  proof -
    obtain b where "canonicalPayload E (?xs ! i) = Some b" using bytes [OF chains(1)] i nth_mem by blast
    moreover have "canonicalPayload E (?ys ! i) = canonicalPayload E (?xs ! i)"
      using arg_cong [OF same, of "\<lambda>xs. xs ! i"] i \<open>length ?xs = length ?ys\<close> by simp
    ultimately show ?thesis
      using payload_determines assms(6,7) i \<open>length ?xs = length ?ys\<close> by (simp add: list_all_length)
  qed
  ultimately show ?thesis by (simp add: list_all2_conv_all_nth)
qed

section \<open>An instance\<close>

text \<open>A hash that tells the bytes of an entry from the input of a root, and a ledger with one entry.\<close>

definition tamper_env :: ledger_env where
  "tamper_env = \<lparr> en_sha = (\<lambda>x. replicate 32 (if x \<noteq> [] \<and> hd x = CHR ''{'' then CHR ''a'' else CHR ''b'')),
     en_float = (\<lambda>t. True), en_parse = (\<lambda>t. None), en_format = (\<lambda>t. []) \<rparr>"

definition tamper_entry :: ledger_entry where
  "tamper_entry = \<lparr> ae_id = ''l1'', ae_time = [], ae_request = ''r1'', ae_tenant = 7, ae_scope = ''s'', ae_hops = [], ae_model = None,
     ae_prev = ZeroRoot, ae_root = replicate 32 (CHR ''b''), ae_fingerprint = ''k1'', ae_signature = [] \<rparr>"

lemma tamper_payload:
  obtains r where "canonicalPayload tamper_env tamper_entry = Some (CHR ''{'' # r)"
  by (simp add: canonicalPayload_def tamper_entry_def canonical_hops_def writeCanonicalJSONValue_def hops_json_def model_json_def
      tamper_env_def)

theorem root_commits_to_ledger_witness:
  "list_all2 (same_content tamper_env) [tamper_entry] [tamper_entry]"
proof -
  let ?E = tamper_env and ?es = "[tamper_entry]"
  obtain r where r: "canonicalPayload ?E tamper_entry = Some (CHR ''{'' # r)" by (rule tamper_payload)
  have fields: "ae_tenant tamper_entry = 7" "ae_prev tamper_entry = ZeroRoot" "ae_root tamper_entry = replicate 32 (CHR ''b'')"
    by (simp_all add: tamper_entry_def)
  have zero: "ZeroRoot = char_of (0 :: nat) # replicate 31 (char_of (0 :: nat))" by (simp add: ZeroRoot_def numeral_eq_Suc)
  have len: "length (en_sha ?E x) = 32" for x by (simp add: tamper_env_def)
  have sha: "en_sha ?E (CHR ''{'' # r) = replicate 32 (CHR ''a'')" "en_sha ?E (ZeroRoot @ y) = replicate 32 (CHR ''b'')" for y
    by (simp_all add: tamper_env_def zero char_of_def)
  have chain: "chain_ok ?E ZeroRoot ?es" by (simp add: EntryHash_def r NextMerkleRoot_def sha fields)
  then have "VerifyChain ?E ?es = None" by (simp add: VerifyChain_def EntryHash_def r NextMerkleRoot_def sha fields Let_def)
  moreover have "inputs ?E ?es = {CHR ''{'' # r, ZeroRoot @ replicate 32 (CHR ''a'')}" by (simp add: inputs_def hashed_def r sha fields)
  then have "hash_sound ?E (inputs ?E ?es \<union> inputs ?E ?es)"
    by (simp add: hash_sound_def inj_on_def sha) (simp add: zero numeral_eq_Suc char_of_def)
  moreover have "audit_entry_ok ?E tamper_entry"
    by (simp add: audit_entry_ok_def tamper_entry_def texts_ok_def canonicalTimestamp_def scope_ref_def utf8_ok_def byte_def)
  ultimately show ?thesis
    using root_commits_to_ledger [of ?E ?es ?es 7] len by (simp add: fields)
qed

end
