(* ===== verification/Spec2Isabelle.thy ===== *)
theory Spec2Isabelle
  imports Circuit_Breaker Budget_Service Retry_Budget Router Error_Normalize Attempt_Error Binding_Fallback Failover
    Channel_Health Health_Gate Selection Selection_Refusals Selection_Slots Payment_Tenants Login_History Quota_Progress
    Ledger_Memory Ledger_Tamper
begin

text \<open>
  A verification development of the gateway's core (Go, src/backend/internal). The gateway takes
  requests of tenants for language models, picks an account of an upstream provider for each, calls
  it, judges failures, retries elsewhere, charges budgets, and keeps the books of prepaid credit.

  Parts and theories. Every Go function has one definition of its name, every Go struct a record,
  every enumeration a datatype; a method on a store takes the store and returns it changed.

  \<^item> Prelude: 64-bit integers, instants and durations, byte strings with \<open>strings.TrimSpace\<close> and
    decimal numbers, base64, and the locales of components that keep an invariant or are indexed by
    keys.
  \<^item> Circuit\_Breaker: circuitbreaker/breaker.go, the breaker per key with its fail mode and the probes
    of its half-open state.
  \<^item> Budget\_Scope, Budget\_Store, Budget\_Service: the package budget. Scopes and their storage keys,
    the counter store with its minute windows and marks, the same store behind the breaker, and the
    service that reserves, settles and releases tokens. The contract \<open>counter_store\<close> is a locale with
    both stores as interpretations.
  \<^item> Signals, Error\_Normalize, Attempt\_Error: from an upstream answer or a transport error to the
    verdict on an attempt (provider error normalisation, attempt errors, retry decisions).
  \<^item> Binding\_Fallback, Router, Retry\_Budget, Failover: the plan of a request (router), the evidence
    that moves it to a fallback class (bindingfallback), the retries a tenant gets per window
    (retrybudget) and the loop that carries out the plan (gateway failover).
  \<^item> Auth\_Cooldown: authcooldown, the lane of accounts whose credential failed, a mirror in the process
    over persisted rows.
  \<^item> Health\_Window, Channel\_Health, Health\_Gate: channelhealth. Windows of samples, the state machine
    of a channel with its audit trail, and the gate the selector asks.
  \<^item> Account\_Limits: the counters an account gate reads (rate/precheck, sessioncap, windowcost).
  \<^item> Pool\_Types, Pool\_Gates, Selector: pool/router. The gates, their chain, ranking, and one selection.
    Selection, Selection\_Refusals and Selection\_Slots hold its properties: what a selected account
    satisfies, what a refusal tells the failover loop, and where the slots go.
  \<^item> Payment\_Store, Payment\_Service: payment. The order store and the service with its callbacks.
    Payment\_Ledger gives the atomic steps of the books that every call is made of, Payment\_Money the
    invariant of the books and the value of an account, Payment\_Properties and Payment\_Tenants what the
    calls guarantee.
  \<^item> Login\_Throttle: loginthrottle/limiter.go, the limits on failed and on open logins per address, with
    the leases of running logins and the memory that drops old addresses. Login\_History proves that the
    decisions depend on the failures and open logins of the address alone.
  \<^item> Quota\_Window, Quota\_Policy: the package quota. Calendar windows of instants, scopes, the policies
    a request is subject to and the order in which they are locked.
  \<^item> Quota\_Store: the tables of quota and the statements on them, and the computations over them: a
    state with the tables, the faults to come and the clock, calls that may fail, transactions.
  \<^item> Quota\_Service, Quota\_Reserve, Quota\_Settle, Quota\_Finalize, Quota\_Reconcile: service.go,
    service\_assess.go, reservation.go, service\_settle.go, service\_reverse.go,
    service\_finalization\_resilience.go, reconciler.go. Admission, settlement, release, cache hits and
    reversals with their retries, the queue of failed finalisations and the worker that repeats them.
  \<^item> Quota\_Logic: triples over these computations and a rule for each combinator. Quota\_Books: what a
    window must hold, and what each statement does to it. Quota\_Admission, Quota\_Closing,
    Quota\_Ledger: every call, and so every history, keeps the books. Quota\_Replay: refusals, repeats
    and failures of single calls. Quota\_Progress: a live reservation can be settled.
  \<^item> Ledger\_Text, Ledger\_Chain: auditledger/canonical.go, types.go, merkle.go. The canonical JSON
    bytes of an entry, with the proof that values can be told from their bytes, and the chain of hashes
    of each tenant. Ledger\_Tamper shows what the root of a tenant commits to.
  \<^item> Ledger\_Memory: auditledger/ledger.go, prepared.go, privacy.go, dlq\_worker.go, result.go. Entries are
    prepared, chained and signed; lookups; the replay of entries that could not be written at first.

  How they interact. The failover loop asks the router for a plan and the selector for an account; the
  selector asks the gates, one of which reads the channel health records and the auth lane; a failed
  attempt is classified (Error\_Normalize, Attempt\_Error), turned into a signal for the loop and the
  binding contract (Failover, Binding\_Fallback) and into a health signal (Channel\_Health). A selector
  refusal becomes a loop signal through \<open>signalFromPoolError\<close> (Failover), which Selection\_Refusals
  connects with the gates' reasons. Quota reserves before the loop runs and settles or releases after
  billing has closed the claim; what billing writes to a claim is a step of a quota history. The audit
  ledger records a finished request, at once or through the dead letter queue.

  Choices of the model. A mutex makes each call atomic, so a history is a list of calls. A call reads
  the clock once. Integers are mathematical with \<open>i64\<close> where the code adds unbounded input; counts of
  events and sums of cents stay far below 64 bits and do not wrap. Rates and scores are exact numbers
  instead of floats. Go maps are association lists or functions, and where the code ranges over a map
  the result does not depend on the order. Loops are recursions over the list they range over, the
  retries of a transaction over the attempts left; no fuel is needed. Quota transactions are
  serializable and run as one step each; a history starts every call with the faults its database
  calls will meet, one entry for each call, and no entry means no fault. Amounts of quota are
  rationals, which contain the decimals of the columns. Identifiers come from one sequence.

  Parameters. Redis and SQL stores (but for quota, whose statements are in the repository), the JSON decoder, hashes and signatures, the random source and
  uuids, the redactor and the signers of the audit ledger, are functions or values the definitions take, and so is the lower casing of Unicode names; what is assumed of them is a hypothesis of the
  property that needs it.

  Not modelled: the other SQL stores and generated queries, billing (it settles in SQL transactions of
  its own and reaches the modelled parts through the claims of quota), HTTP handlers, the wiring of the processes, wire
  formats of providers and TLS fingerprints, logs, metrics, alerts and mail. Their behaviour lies in
  code outside the repository (databases, peers, libraries) or in plain data plumbing. Of the audit ledger the Postgres store and the registry of public keys are
  left out. The vendored
  trees under src/exploratory are other projects.
\<close>

end
